(* ===== verification/Dispatch_Error.thy ===== *)
theory Dispatch_Error
  imports Main
begin

text \<open>
  The error values of the runtime. Every pallet of the repository declares an error enum; a
  dispatchable returns one of them, an arithmetic error, or one of the errors of the framework.
  The enums are declared here, before any pallet, because a pallet passes the errors of the
  pallets it calls on to its caller. Constructor names are those of the source; where two enums
  share one, the later theories write it qualified, as in \<open>mosaic_error.Overflow\<close>.
\<close>

section \<open>Arithmetic and pallet errors\<close>

datatype arithmetic_error = Underflow | Overflow | DivisionByZero

datatype mosaic_error =
    RelayerNotSet
  | BadTTL
  | BadTimelockPeriod
  | UnsupportedAsset
  | NetworkDisabled
  | UnsupportedNetwork
  | Overflow
  | NoStaleTransactions
  | InsufficientBudget
  | ExceedsMaxTransferSize
  | NoClaimableTx
  | TxStillLocked
  | NoOutgoingTx
  | AmountMismatch
  | AssetNotMapped

datatype vault_error =
    AccountIsNotManager
  | CannotCreateAsset
  | TransferFromFailed
  | MintFailed
  | InsufficientLpTokens
  | VaultDoesNotExist
  | NoFreeVaultAllocation
  | AllocationMustSumToOne
  | TooManyStrategies
  | InsufficientFunds
  | AmountMustGteMinimumDeposit
  | AmountMustGteMinimumWithdrawal
  | NotEnoughLiquidity
  | InsufficientCreationDeposit
  | InvalidSurchargeClaim
  | NotVaultLpToken
  | DepositsHalted
  | WithdrawalsHalted
  | OnlyManagerCanDoThisOperation
  | InvalidDeletionClaim
  | VaultNotTombstoned
  | TombstoneDurationNotExceeded
  | InvalidAddSurcharge

datatype vesting_error =
    ZeroVestingPeriod
  | ZeroVestingPeriodCount
  | InsufficientBalanceToLock
  | TooManyVestingSchedules
  | AmountLow
  | MaxVestingSchedulesExceeded

datatype bonded_finance_error =
    BondOfferNotFound
  | InvalidBondOffer
  | OfferCompleted
  | InvalidNumberOfBonds

datatype assets_error =
    BadAssetOrigin
  | CannotSetNewCurrencyToRegistry

datatype governance_registry_error = NoneError

datatype oracle_error =
    Unknown
  | NoPermission
  | NoStake
  | StakeLocked
  | NotEnoughStake
  | NotEnoughFunds
  | InvalidAssetId
  | AlreadySubmitted
  | MaxPrices
  | PriceNotRequested
  | UnsetSigner
  | AlreadySet
  | UnsetController
  | ControllerUsed
  | SignerUsed
  | AvoidPanic
  | ExceedMaxAnswers
  | InvalidMinAnswers
  | MaxAnswersLessThanMinAnswers
  | ExceedThreshold
  | ExceedAssetsCount
  | PriceNotFound
  | ExceedStake
  | MustSumTo100
  | DepthTooLarge
  | ArithmeticError
  | BlockIntervalLength
  | TransferError
  | MaxHistory
  | MaxPrePrices

datatype dutch_auction_error =
    RequestedOrderDoesNotExists
  | OrderParametersIsInvalid
  | TakeParametersIsInvalid
  | TakeLimitDoesNotSatisfiesOrder
  | OrderNotFound
  | NotEnoughNativeCurrentyToPayForAuction

datatype liquidations_error = NoLiquidationEngineFound

datatype privilege_error =
    TooManyGroup
  | TooManyMember
  | GroupNotFound
  | GroupPrivilegeNotHeld
  | NotGroupMember
  | AlreadyGroupMember

datatype crowdloan_rewards_error =
    NotInitialized
  | AlreadyInitialized
  | InvalidProof
  | InvalidClaim
  | NothingToClaim
  | NotAssociated
  | AlreadyAssociated
  | NotClaimableYet

datatype lending_error =
    Overflow
  | Underflow
  | VaultNotFound
  | AssetNotSupportedByOracle
  | AssetPriceNotFound
  | MarketDoesNotExist
  | CollateralDepositFailed
  | MarketCollateralWasNotDepositedByAccount
  | CollateralFactorIsLessOrEqualOne
  | MarketAndAccountPairNotFound
  | NotEnoughCollateralToBorrowAmount
  | MarketIsClosing
  | InvalidTimestampOnBorrowRequest
  | NotEnoughBorrowAsset
  | NotEnoughCollateral
  | TransferFailed
  | CannotWithdrawFromProvidedBorrowAccount
  | CannotRepayMoreThanBorrowAmount
  | BorrowRateDoesNotExist
  | BorrowIndexDoesNotExist
  | BorrowAndRepayInSameBlockIsNotSupported
  | BorrowDoesNotExist
  | RepayAmountMustBeGraterThanZero
  | ExceedLendingCount
  | LiquidationFailed
  | BorrowerDataCalculationFailed
  | Unauthorized
  | NotEnoughRent
  | PriceOfInitialBorrowVaultShouldBeGreaterThanZero

datatype uniswap_error =
    InvalidFees
  | InvalidPair
  | PoolNotFound
  | InvalidAmount
  | MissingAmount
  | PairMismatch
  | CannotRespectMinimumRequested

datatype curve_amm_error =
    AssetAmountMustBePositiveNumber
  | RequiredAmountNotReached
  | InvalidFees
  | InvalidPair
  | PoolNotFound
  | PairMismatch
  | CannotRespectMinimumRequested

datatype dex_router_error =
    MaxHopsExceeded
  | PoolDoesNotExist
  | NoRouteFound

datatype assets_registry_error =
    OnlyAllowedForAdmins
  | LocalAssetIdAlreadyUsed
  | ForeignAssetIdAlreadyUsed
  | LocalAssetIdNotFound

datatype call_filter_error =
    CannotDisable
  | InvalidString

datatype democracy_error =
    ValueLow
  | ProposalMissing
  | AlreadyCanceled
  | DuplicateProposal
  | ProposalBlacklisted
  | NotSimpleMajority
  | InvalidHash
  | NoProposal
  | AlreadyVetoed
  | DuplicatePreimage
  | NotImminent
  | TooEarly
  | Imminent
  | PreimageMissing
  | ReferendumInvalid
  | PreimageInvalid
  | NoneWaiting
  | NotVoter
  | NoPermission
  | AlreadyDelegating
  | InsufficientFunds
  | NotDelegating
  | VotesExist
  | InstantNotAllowed
  | Nonsense
  | WrongUpperBound
  | MaxVotesReached
  | TooManyProposals

section \<open>Dispatch errors\<close>

text \<open>
  \<open>TokenErr\<close> stands for the errors the currency pallets outside this repository return; the
  repository never looks inside them. \<open>Panic\<close> is the model's value for a call of Rust's
  \<open>expect\<close> that fails: the runtime call aborts there.
\<close>

datatype dispatch_error =
    Other string
  | CannotLookup
  | BadOrigin
  | Arithmetic arithmetic_error
  | TokenErr nat
  | MosaicErr mosaic_error
  | VaultErr vault_error
  | VestingErr vesting_error
  | BondedFinanceErr bonded_finance_error
  | AssetsErr assets_error
  | GovernanceRegistryErr governance_registry_error
  | OracleErr oracle_error
  | DutchAuctionErr dutch_auction_error
  | LiquidationsErr liquidations_error
  | PrivilegeErr privilege_error
  | CrowdloanErr crowdloan_rewards_error
  | LendingErr lending_error
  | UniswapErr uniswap_error
  | CurveErr curve_amm_error
  | RouterErr dex_router_error
  | AssetsRegistryErr assets_registry_error
  | CallFilterErr call_filter_error
  | DemocracyErr democracy_error
  | Panic string

end
