(* ===== verification/Prelude.thy ===== *)
theory Prelude
  imports Dispatch_Error "HOL-Library.AList"
begin

text \<open>
  What the pallet theories share: the types the runtimes choose for the pallets' parameters,
  Rust's bounded integer operations, storage transactions as functions from a state to a result
  and a state, and the facts about them that carry the component proofs.
\<close>

named_theorems ok_simps "what a successful run of a storage transaction means"
named_theorems keeps_intros "transactions that leave the state unchanged"
named_theorems atomic_intros "transactions that leave the state unchanged when they fail"
named_theorems wp_simps "weakest preconditions of the transactions"

section \<open>Types of the runtime\<close>

text \<open>
  The runtimes set \<open>Balance = u128\<close> and \<open>BlockNumber = u32\<close> (runtime/common/src/lib.rs).
  Account, asset and network identifiers are only compared for equality by the code, so numbers
  stand for them. Bounded integers are natural numbers; every operation that could leave the
  range of its type checks, saturates or wraps at the bound it is given.
\<close>

type_synonym account_id = nat
type_synonym asset_id = nat
type_synonym balance = nat
type_synonym block_number = nat

definition u32_max :: nat where "u32_max = 2 ^ 32 - 1"
definition u64_max :: nat where "u64_max = 2 ^ 64 - 1"
definition u128_max :: nat where "u128_max = 2 ^ 128 - 1"

section \<open>Bounded integers\<close>

text \<open>Rust's integer operations; the first argument is the greatest value of the type.\<close>

definition checked_add :: "nat \<Rightarrow> nat \<Rightarrow> nat \<Rightarrow> nat option" where
  "checked_add mx a b = (if a + b \<le> mx then Some (a + b) else None)"

definition checked_sub :: "nat \<Rightarrow> nat \<Rightarrow> nat option" where
  "checked_sub a b = (if b \<le> a then Some (a - b) else None)"

definition checked_mul :: "nat \<Rightarrow> nat \<Rightarrow> nat \<Rightarrow> nat option" where
  "checked_mul mx a b = (if a * b \<le> mx then Some (a * b) else None)"

definition checked_div :: "nat \<Rightarrow> nat \<Rightarrow> nat option" where
  "checked_div a b = (if b = 0 then None else Some (a div b))"

definition saturating_add :: "nat \<Rightarrow> nat \<Rightarrow> nat \<Rightarrow> nat" where
  "saturating_add mx a b = min mx (a + b)"

definition saturating_sub :: "nat \<Rightarrow> nat \<Rightarrow> nat" where
  "saturating_sub a b = a - b"

definition saturating_mul :: "nat \<Rightarrow> nat \<Rightarrow> nat \<Rightarrow> nat" where
  "saturating_mul mx a b = min mx (a * b)"

definition wrapping_add :: "nat \<Rightarrow> nat \<Rightarrow> nat \<Rightarrow> nat" where
  "wrapping_add mx a b = (a + b) mod (mx + 1)"

definition wrapping_sub :: "nat \<Rightarrow> nat \<Rightarrow> nat \<Rightarrow> nat" where
  "wrapping_sub mx a b = (a + (mx + 1 - b)) mod (mx + 1)"

definition wrapping_mul :: "nat \<Rightarrow> nat \<Rightarrow> nat \<Rightarrow> nat" where
  "wrapping_mul mx a b = (a * b) mod (mx + 1)"

lemma wrapping_sub_le: "b \<le> a \<Longrightarrow> a \<le> mx \<Longrightarrow> wrapping_sub mx a b = a - b"
proof -
  assume "b \<le> a" "a \<le> mx"
  then have "a + (mx + 1 - b) = (a - b) + (mx + 1)" "a - b < mx + 1" by auto
  then show ?thesis unfolding wrapping_sub_def by (metis mod_add_self2 mod_less)
qed

lemma wrapping_mul_le: "a * b \<le> mx \<Longrightarrow> wrapping_mul mx a b = a * b"
  by (simp add: wrapping_mul_def)

text \<open>\<open>SafeArithmetic\<close> of composable-traits: checked operations with the error named.\<close>

definition safe_add :: "nat \<Rightarrow> nat \<Rightarrow> nat \<Rightarrow> arithmetic_error + nat" where
  "safe_add mx a b = (case checked_add mx a b of None \<Rightarrow> Inl arithmetic_error.Overflow | Some c \<Rightarrow> Inr c)"

definition safe_div :: "nat \<Rightarrow> nat \<Rightarrow> arithmetic_error + nat" where
  "safe_div a b =
     (if b = 0 then Inl DivisionByZero
      else case checked_div a b of None \<Rightarrow> Inl arithmetic_error.Overflow | Some c \<Rightarrow> Inr c)"

definition safe_mul :: "nat \<Rightarrow> nat \<Rightarrow> nat \<Rightarrow> arithmetic_error + nat" where
  "safe_mul mx a b = (case checked_mul mx a b of None \<Rightarrow> Inl arithmetic_error.Overflow | Some c \<Rightarrow> Inr c)"

definition safe_sub :: "nat \<Rightarrow> nat \<Rightarrow> arithmetic_error + nat" where
  "safe_sub a b = (case checked_sub a b of None \<Rightarrow> Inl arithmetic_error.Underflow | Some c \<Rightarrow> Inr c)"

text \<open>\<open>WrappingNext::next\<close>, which saturates despite its name (the source says so itself).\<close>

definition wrapping_next :: "nat \<Rightarrow> nat \<Rightarrow> nat" where
  "wrapping_next mx x = saturating_add mx x 1"

text \<open>
  \<open>sp_runtime::helpers_128bit::multiply_by_rational\<close> is code outside the repository, a
  parameter of the pallets that call it. They rely on what it documents for a positive divisor:
  the product divided by the divisor, rounded down, or an error when it does not fit.
\<close>

type_synonym mul_div = "nat \<Rightarrow> nat \<Rightarrow> nat \<Rightarrow> nat option"

definition exact_mul_div :: "mul_div \<Rightarrow> bool" where
  "exact_mul_div f \<longleftrightarrow>
     (\<forall>a b c. 0 < c \<longrightarrow> f a b c = (if a * b div c \<le> u128_max then Some (a * b div c) else None))"

definition reference_mul_div :: mul_div where
  "reference_mul_div a b c = (let q = a * b div max 1 c in if q \<le> u128_max then Some q else None)"

definition safe_multiply_by_rational :: "mul_div \<Rightarrow> nat \<Rightarrow> nat \<Rightarrow> nat \<Rightarrow> arithmetic_error + nat" where
  "safe_multiply_by_rational f a b c =
     (case f a b c of None \<Rightarrow> Inl arithmetic_error.Overflow | Some q \<Rightarrow> Inr q)"

lemma exact_mul_divD:
  "exact_mul_div f \<Longrightarrow> 0 < c \<Longrightarrow> f a b c = Some q \<longleftrightarrow> q = a * b div c \<and> q \<le> u128_max"
  by (auto simp: exact_mul_div_def)

lemma exact_reference_mul_div: "exact_mul_div reference_mul_div"
  by (auto simp: exact_mul_div_def reference_mul_div_def Let_def max_def)

section \<open>Storage transactions\<close>

text \<open>
  A dispatchable or a pallet function reads and writes storage and returns a \<open>Result\<close>. Writes
  made before an error is returned stay in storage unless the function is marked
  \<open>#[transactional]\<close>, so a run gives both a result and the storage it leaves.
\<close>

type_synonym ('s, 'a) call = "'s \<Rightarrow> (dispatch_error + 'a) \<times> 's"

definition ret :: "'a \<Rightarrow> ('s, 'a) call" where
  "ret x s = (Inr x, s)"

definition fail :: "dispatch_error \<Rightarrow> ('s, 'a) call" where
  "fail e s = (Inl e, s)"

text \<open>The \<open>?\<close> operator: continue with the value, or return the error at once.\<close>

definition bindM :: "('s, 'a) call \<Rightarrow> ('a \<Rightarrow> ('s, 'b) call) \<Rightarrow> ('s, 'b) call" where
  "bindM m f s = (case m s of (Inl e, s') \<Rightarrow> (Inl e, s') | (Inr x, s') \<Rightarrow> f x s')"

definition thenM :: "('s, 'a) call \<Rightarrow> ('s, 'b) call \<Rightarrow> ('s, 'b) call" where
  "thenM m n = bindM m (\<lambda>_. n)"

definition ensure :: "bool \<Rightarrow> dispatch_error \<Rightarrow> ('s, unit) call" where
  "ensure b e = (if b then ret () else fail e)"

definition reads :: "('s \<Rightarrow> 'a) \<Rightarrow> ('s, 'a) call" where
  "reads f s = (Inr (f s), s)"

definition modifies :: "('s \<Rightarrow> 's) \<Rightarrow> ('s, unit) call" where
  "modifies f s = (Inr (), f s)"

definition ok_or :: "'a option \<Rightarrow> dispatch_error \<Rightarrow> ('s, 'a) call" where
  "ok_or v e = (case v of None \<Rightarrow> fail e | Some x \<Rightarrow> ret x)"

definition lift_result :: "dispatch_error + 'a \<Rightarrow> ('s, 'a) call" where
  "lift_result r s = (r, s)"

definition lift_arith :: "arithmetic_error + 'a \<Rightarrow> ('s, 'a) call" where
  "lift_arith r = (case r of Inl e \<Rightarrow> fail (Arithmetic e) | Inr x \<Rightarrow> ret x)"

definition map_err :: "(dispatch_error \<Rightarrow> dispatch_error) \<Rightarrow> ('s, 'a) call \<Rightarrow> ('s, 'a) call" where
  "map_err h m s = (case m s of (Inl e, s') \<Rightarrow> (Inl (h e), s') | (Inr x, s') \<Rightarrow> (Inr x, s'))"

text \<open>A call of another component: it runs on its own part of the state.\<close>

definition zoom :: "('s \<Rightarrow> 't) \<Rightarrow> ('t \<Rightarrow> 's \<Rightarrow> 's) \<Rightarrow> ('t, 'a) call \<Rightarrow> ('s, 'a) call" where
  "zoom rd wr m s = (case m (rd s) of (r, t) \<Rightarrow> (r, wr t s))"

text \<open>\<open>#[transactional]\<close>: storage is rolled back when an error is returned.\<close>

definition transactional :: "('s, 'a) call \<Rightarrow> ('s, 'a) call" where
  "transactional m s = (case m s of (Inl e, _) \<Rightarrow> (Inl e, s) | (Inr x, s') \<Rightarrow> (Inr x, s'))"

text \<open>
  \<open>try_mutate\<close> and \<open>try_mutate_exists\<close>: the closure gets the stored value and its new value
  is written back only when the closure returns \<open>Ok\<close>.
\<close>

definition try_mutate ::
  "('s \<Rightarrow> 'v) \<Rightarrow> ('v \<Rightarrow> 's \<Rightarrow> 's) \<Rightarrow> ('v \<Rightarrow> ('s, 'a \<times> 'v) call) \<Rightarrow> ('s, 'a) call" where
  "try_mutate rd wr f =
     bindM (reads rd) (\<lambda>v. bindM (f v) (\<lambda>(x, v'). thenM (modifies (wr v')) (ret x)))"

text \<open>
  \<open>let _ = m\<close>: an error is dropped and its writes stay. A panic is not an error of this kind: it
  unwinds to the executive whatever the caller does with results.
\<close>

definition discard_result :: "('s, 'a) call \<Rightarrow> ('s, unit) call" where
  "discard_result m s =
     (case m s of
        (Inl (Panic p), t) \<Rightarrow> (Inl (Panic p), t)
      | (_, t) \<Rightarrow> (Inr (), t))"

text \<open>A \<open>for\<close> loop over a list.\<close>

fun for_each :: "'a list \<Rightarrow> ('a \<Rightarrow> ('s, unit) call) \<Rightarrow> ('s, unit) call" where
  "for_each [] f = ret ()"
| "for_each (x # xs) f = thenM (f x) (for_each xs f)"

text \<open>The whole of a list of calls, one after the other, whatever each returns.\<close>

fun run_calls :: "('s, 'a) call list \<Rightarrow> 's \<Rightarrow> 's" where
  "run_calls [] s = s"
| "run_calls (m # ms) s = run_calls ms (snd (m s))"

definition is_ok :: "(dispatch_error + 'a) \<times> 's \<Rightarrow> bool" where
  "is_ok r = (case fst r of Inl _ \<Rightarrow> False | Inr _ \<Rightarrow> True)"

section \<open>Origins\<close>

text \<open>\<open>frame_system::RawOrigin\<close> and the two checks the pallets make on it.\<close>

datatype raw_origin = RootOrigin | SignedOrigin account_id | NoneOrigin

definition ensure_signed :: "raw_origin \<Rightarrow> ('s, account_id) call" where
  "ensure_signed orig = (case orig of SignedOrigin who \<Rightarrow> ret who | _ \<Rightarrow> fail BadOrigin)"

definition ensure_root :: "raw_origin \<Rightarrow> ('s, unit) call" where
  "ensure_root orig = (case orig of RootOrigin \<Rightarrow> ret () | _ \<Rightarrow> fail BadOrigin)"

text \<open>A configured \<open>EnsureOrigin\<close>: the set of origins it accepts is a parameter.\<close>

definition ensure_origin :: "(raw_origin \<Rightarrow> bool) \<Rightarrow> raw_origin \<Rightarrow> ('s, unit) call" where
  "ensure_origin accepts orig = ensure (accepts orig) BadOrigin"


section \<open>Rules for the storage transactions\<close>

lemma ok_ret [ok_simps]: "ret x s = (Inr y, t) \<longleftrightarrow> y = x \<and> t = s"
  by (auto simp: ret_def)

lemma ok_fail [ok_simps]: "fail e s = (Inr y, t) \<longleftrightarrow> False"
  by (simp add: fail_def)

lemma ok_bindM [ok_simps]:
  "bindM m f s = (Inr y, t) \<longleftrightarrow> (\<exists>x u. m s = (Inr x, u) \<and> f x u = (Inr y, t))"
  by (auto simp: bindM_def split: prod.splits sum.splits)

lemma ok_thenM [ok_simps]:
  "thenM m n s = (Inr y, t) \<longleftrightarrow> (\<exists>x u. m s = (Inr x, u) \<and> n u = (Inr y, t))"
  by (simp add: thenM_def ok_bindM)

lemma ok_ensure [ok_simps]: "ensure b e s = (Inr y, t) \<longleftrightarrow> b \<and> t = s"
  by (auto simp: ensure_def ok_ret ok_fail)

lemma ok_reads [ok_simps]: "reads f s = (Inr y, t) \<longleftrightarrow> y = f s \<and> t = s"
  by (auto simp: reads_def)

lemma ok_modifies [ok_simps]: "modifies f s = (Inr y, t) \<longleftrightarrow> t = f s"
  by (auto simp: modifies_def)

lemma ok_ok_or [ok_simps]: "ok_or v e s = (Inr y, t) \<longleftrightarrow> v = Some y \<and> t = s"
  by (auto simp: ok_or_def ret_def fail_def split: option.splits)

lemma ok_lift_result [ok_simps]: "lift_result r s = (Inr y, t) \<longleftrightarrow> r = Inr y \<and> t = s"
  by (auto simp: lift_result_def)

lemma ok_lift_arith [ok_simps]: "lift_arith r s = (Inr y, t) \<longleftrightarrow> r = Inr y \<and> t = s"
  by (auto simp: lift_arith_def ret_def fail_def split: sum.splits)

lemma ok_map_err [ok_simps]: "map_err h m s = (Inr y, t) \<longleftrightarrow> m s = (Inr y, t)"
  by (auto simp: map_err_def split: prod.splits sum.splits)

lemma ok_zoom [ok_simps]:
  "zoom rd wr m s = (Inr y, t) \<longleftrightarrow> (\<exists>c. m (rd s) = (Inr y, c) \<and> t = wr c s)"
  by (auto simp: zoom_def split: prod.splits)

lemma ok_transactional [ok_simps]: "transactional m s = (Inr y, t) \<longleftrightarrow> m s = (Inr y, t)"
  by (auto simp: transactional_def split: prod.splits sum.splits)

lemma ok_try_mutate [ok_simps]:
  "try_mutate rd wr f s = (Inr y, t) \<longleftrightarrow>
     (\<exists>v u. f (rd s) s = (Inr (y, v), u) \<and> t = wr v u)"
  by (auto simp: try_mutate_def ok_bindM ok_reads ok_thenM ok_modifies ok_ret split: prod.splits)

lemma ok_ensure_signed [ok_simps]:
  "ensure_signed orig s = (Inr y, t) \<longleftrightarrow> orig = SignedOrigin y \<and> t = s"
  by (auto simp: ensure_signed_def ret_def fail_def split: raw_origin.splits)

lemma ok_ensure_root [ok_simps]: "ensure_root orig s = (Inr y, t) \<longleftrightarrow> orig = RootOrigin \<and> t = s"
  by (auto simp: ensure_root_def ret_def fail_def split: raw_origin.splits)

lemma ok_ensure_origin [ok_simps]:
  "ensure_origin a orig s = (Inr y, t) \<longleftrightarrow> a orig \<and> t = s"
  by (simp add: ensure_origin_def ok_ensure)

lemma ok_case_option [ok_simps]:
  "(case v of None \<Rightarrow> m | Some x \<Rightarrow> f x) s = (Inr y, t) \<longleftrightarrow>
     v = None \<and> m s = (Inr y, t) \<or> (\<exists>x. v = Some x \<and> f x s = (Inr y, t))"
  by (cases v) simp_all

lemma ok_case_prod [ok_simps]:
  "(case p of (a, b) \<Rightarrow> g a b) s = (Inr y, t) \<longleftrightarrow> (\<exists>a b. p = (a, b) \<and> g a b s = (Inr y, t))"
  by (cases p) simp

lemma ok_if [ok_simps]:
  "(if b then m else n) s = (Inr y, t) \<longleftrightarrow> b \<and> m s = (Inr y, t) \<or> \<not> b \<and> n s = (Inr y, t)"
  by simp

lemma is_ok_iff: "is_ok r \<longleftrightarrow> (\<exists>x t. r = (Inr x, t))"
  by (cases r) (auto simp: is_ok_def split: sum.splits)

text \<open>The equations that evaluate a transaction on a concrete state.\<close>

lemmas call_eval =
  ret_def fail_def bindM_def thenM_def ensure_def reads_def modifies_def ok_or_def lift_result_def
  lift_arith_def map_err_def zoom_def transactional_def try_mutate_def ensure_signed_def
  ensure_root_def ensure_origin_def

text \<open>
  For long handlers: evaluation step by step, from the outside in. The rules \<open>call_congs\<close>, used as
  congruences, keep the simplifier out of the continuations that have not been reached;
  \<open>call_steps\<close> go on as soon as a call has become a result.
\<close>

lemma call_step:
  "m s = (r, t) \<Longrightarrow> bindM m f s = (case r of Inl e \<Rightarrow> (Inl e, t) | Inr x \<Rightarrow> f x t)"
  "m s = (r, t) \<Longrightarrow> thenM m n s = (case r of Inl e \<Rightarrow> (Inl e, t) | Inr x \<Rightarrow> n t)"
  "c (rd s) = (r', u) \<Longrightarrow> zoom rd wr c s = (r', wr u s)"
  "m s = (r, t) \<Longrightarrow> map_err h m s = (case r of Inl e \<Rightarrow> (Inl (h e), t) | Inr x \<Rightarrow> (Inr x, t))"
  "m s = (r, t) \<Longrightarrow> transactional m s = (case r of Inl e \<Rightarrow> (Inl e, s) | Inr x \<Rightarrow> (Inr x, t))"
  "g (rd' s) s = (r'', t) \<Longrightarrow>
     try_mutate rd' wr' g s = (case r'' of Inl e \<Rightarrow> (Inl e, t) | Inr p \<Rightarrow> (Inr (fst p), wr' (snd p) t))"
  by (auto simp: bindM_def thenM_def zoom_def map_err_def transactional_def try_mutate_def reads_def modifies_def ret_def
      split: sum.split)

lemmas call_steps =
  call_step ret_def fail_def ensure_def reads_def modifies_def ok_or_def lift_result_def lift_arith_def
  ensure_signed_def ensure_root_def ensure_origin_def

lemma call_congs:
  "bindM m f s = bindM m f s" "thenM m n s = thenM m n s" "zoom rd wr m s = zoom rd wr m s" "map_err h m s = map_err h m s"
  "transactional m s = transactional m s" "try_mutate rd wr f s = try_mutate rd wr f s"
  by (rule refl)+

lemmas safe_arith_defs =
  safe_add_def safe_sub_def safe_mul_def safe_div_def
  checked_add_def checked_sub_def checked_mul_def checked_div_def

lemma safe_add_ok: "safe_add mx a b = Inr c \<longleftrightarrow> a + b \<le> mx \<and> c = a + b"
  by (auto simp: safe_arith_defs)

lemma safe_sub_ok: "safe_sub a b = Inr c \<longleftrightarrow> b \<le> a \<and> c = a - b"
  by (auto simp: safe_arith_defs)

lemma safe_mul_ok: "safe_mul mx a b = Inr c \<longleftrightarrow> a * b \<le> mx \<and> c = a * b"
  by (auto simp: safe_arith_defs)

lemma safe_div_ok: "safe_div a b = Inr c \<longleftrightarrow> b \<noteq> 0 \<and> c = a div b"
  by (auto simp: safe_arith_defs)

lemmas safe_arith_ok = safe_add_ok safe_sub_ok safe_mul_ok safe_div_ok

subsection \<open>Transactions that fail without a trace\<close>

text \<open>
  \<open>keeps m\<close>: the transaction never writes. \<open>atomic m\<close>: when it returns an error, storage is
  as it was. The introduction rules follow the shape of the handlers: checks that only read,
  then writes after which nothing can fail, or a \<open>transactional\<close> body.
\<close>

definition keeps :: "('s, 'a) call \<Rightarrow> bool" where
  "keeps m \<longleftrightarrow> (\<forall>s. snd (m s) = s)"

definition atomic :: "('s, 'a) call \<Rightarrow> bool" where
  "atomic m \<longleftrightarrow> (\<forall>s e t. m s = (Inl e, t) \<longrightarrow> t = s)"

definition succeeds :: "('s, 'a) call \<Rightarrow> bool" where
  "succeeds m \<longleftrightarrow> (\<forall>s. \<exists>x t. m s = (Inr x, t))"

lemma keeps_ret [keeps_intros]: "keeps (ret x)"
  by (simp add: keeps_def ret_def)

lemma keeps_fail [keeps_intros]: "keeps (fail e)"
  by (simp add: keeps_def fail_def)

lemma keeps_ensure [keeps_intros]: "keeps (ensure b e)"
  by (simp add: keeps_def ensure_def ret_def fail_def)

lemma keeps_reads [keeps_intros]: "keeps (reads f)"
  by (simp add: keeps_def reads_def)

lemma keeps_ok_or [keeps_intros]: "keeps (ok_or v e)"
  by (simp add: keeps_def ok_or_def ret_def fail_def split: option.split)

lemma keeps_lift_result [keeps_intros]: "keeps (lift_result r)"
  by (simp add: keeps_def lift_result_def)

lemma keeps_lift_arith [keeps_intros]: "keeps (lift_arith r)"
  by (simp add: keeps_def lift_arith_def ret_def fail_def split: sum.split)

lemma keeps_ensure_signed [keeps_intros]: "keeps (ensure_signed orig)"
  by (simp add: keeps_def ensure_signed_def ret_def fail_def split: raw_origin.split)

lemma keeps_ensure_root [keeps_intros]: "keeps (ensure_root orig)"
  by (simp add: keeps_def ensure_root_def ret_def fail_def split: raw_origin.split)

lemma keeps_ensure_origin [keeps_intros]: "keeps (ensure_origin a orig)"
  by (simp add: ensure_origin_def keeps_ensure)

lemma keeps_bindM [keeps_intros]: "keeps m \<Longrightarrow> (\<And>x. keeps (f x)) \<Longrightarrow> keeps (bindM m f)"
  by (auto simp: keeps_def bindM_def split: prod.splits sum.splits) (metis snd_conv)+

lemma keeps_thenM [keeps_intros]: "keeps m \<Longrightarrow> keeps n \<Longrightarrow> keeps (thenM m n)"
  by (simp add: thenM_def keeps_bindM)

lemma keeps_map_err [keeps_intros]: "keeps m \<Longrightarrow> keeps (map_err h m)"
  by (auto simp: keeps_def map_err_def split: prod.splits sum.splits) (metis snd_conv)+

lemma keeps_atomic: "keeps m \<Longrightarrow> atomic m"
  by (auto simp: keeps_def atomic_def) (metis snd_conv)

lemma keepsD: "keeps m \<Longrightarrow> m s = (r, t) \<Longrightarrow> t = s"
  by (metis keeps_def snd_conv)

lemma atomicD: "atomic m \<Longrightarrow> m s = (Inl e, t) \<Longrightarrow> t = s"
  by (auto simp: atomic_def)

lemma atomic_transactional [atomic_intros]: "atomic (transactional m)"
  by (auto simp: atomic_def transactional_def split: prod.splits sum.splits)

lemma atomic_bindM_keeps [atomic_intros]:
  assumes "keeps m" and "\<And>x. atomic (f x)"
  shows "atomic (bindM m f)"
  unfolding atomic_def
proof (intro allI impI)
  fix s e t
  assume run: "bindM m f s = (Inl e, t)"
  obtain r u where m: "m s = (r, u)" by fastforce
  with assms(1) have "u = s" by (rule keepsD)
  with run m assms(2) show "t = s"
    by (cases r) (auto simp: bindM_def dest: atomicD)
qed

lemma atomic_thenM_keeps [atomic_intros]: "keeps m \<Longrightarrow> atomic n \<Longrightarrow> atomic (thenM m n)"
  by (simp add: thenM_def atomic_bindM_keeps)

lemma atomic_bindM_succeeds: "atomic m \<Longrightarrow> (\<And>x. succeeds (f x)) \<Longrightarrow> atomic (bindM m f)"
  by (auto simp: atomic_def succeeds_def bindM_def split: prod.splits sum.splits)
     (metis Pair_inject sum.distinct(1))

lemma atomic_thenM_succeeds: "atomic m \<Longrightarrow> succeeds n \<Longrightarrow> atomic (thenM m n)"
  by (simp add: thenM_def atomic_bindM_succeeds)

lemma atomic_map_err [atomic_intros]: "atomic m \<Longrightarrow> atomic (map_err h m)"
  by (auto simp: atomic_def map_err_def split: prod.splits sum.splits)

lemma succeeds_modifies: "succeeds (modifies f)"
  by (simp add: succeeds_def modifies_def)

lemma succeeds_ret: "succeeds (ret x)"
  by (simp add: succeeds_def ret_def)

lemma succeeds_reads: "succeeds (reads f)"
  by (simp add: succeeds_def reads_def)

lemma succeeds_bindM: "succeeds m \<Longrightarrow> (\<And>x. succeeds (f x)) \<Longrightarrow> succeeds (bindM m f)"
  unfolding succeeds_def bindM_def by (metis (no_types, lifting) case_prod_conv sum.simps(6))

lemma succeeds_thenM: "succeeds m \<Longrightarrow> succeeds n \<Longrightarrow> succeeds (thenM m n)"
  by (simp add: thenM_def succeeds_bindM)

lemmas succeeds_intros = succeeds_modifies succeeds_ret succeeds_reads succeeds_bindM succeeds_thenM

lemma atomic_succeeds: "succeeds m \<Longrightarrow> atomic m"
  by (auto simp: succeeds_def atomic_def) (metis Pair_inject sum.distinct(1))

lemma atomic_try_mutate [atomic_intros]:
  assumes "\<And>v. atomic (f v)"
  shows "atomic (try_mutate rd wr f)"
  unfolding try_mutate_def
proof (rule atomic_bindM_keeps [OF keeps_reads])
  fix v
  show "atomic (bindM (f v) (\<lambda>(x, v'). thenM (modifies (wr v')) (ret x)))"
    by (rule atomic_bindM_succeeds [OF assms]) (auto intro: succeeds_intros split: prod.split)
qed

lemma atomic_zoom [atomic_intros]:
  assumes "atomic m" and "\<And>s. wr (rd s) s = s"
  shows "atomic (zoom rd wr m)"
  using assms by (auto simp: atomic_def zoom_def split: prod.splits)

lemma call_case_prod [keeps_intros]: "(\<And>x y. keeps (f x y)) \<Longrightarrow> keeps (case p of (x, y) \<Rightarrow> f x y)"
  by (cases p) simp

lemma atomic_case_prod [atomic_intros]:
  "(\<And>x y. atomic (f x y)) \<Longrightarrow> atomic (case p of (x, y) \<Rightarrow> f x y)"
  by (cases p) simp

subsection \<open>Weakest preconditions\<close>

text \<open>
  \<open>wp m Q E\<close>: from which states the transaction ends in \<open>Q\<close> when it succeeds and in \<open>E\<close> when it
  fails. The equations turn a handler into the conditions on its first state that make it so.
\<close>

definition wp ::
  "('s, 'a) call \<Rightarrow> ('a \<Rightarrow> 's \<Rightarrow> bool) \<Rightarrow> (dispatch_error \<Rightarrow> 's \<Rightarrow> bool) \<Rightarrow> 's \<Rightarrow> bool" where
  "wp m Q E s = (case m s of (r, t) \<Rightarrow> (case r of Inl e \<Rightarrow> E e t | Inr x \<Rightarrow> Q x t))"

lemma wp_ret [wp_simps]: "wp (ret x) Q E = Q x"
  by (rule ext) (simp add: wp_def ret_def)

lemma wp_fail [wp_simps]: "wp (fail e) Q E = E e"
  by (rule ext) (simp add: wp_def fail_def)

lemma wp_bindM [wp_simps]: "wp (bindM m f) Q E = wp m (\<lambda>x. wp (f x) Q E) E"
  by (rule ext) (auto simp: wp_def bindM_def split: prod.splits sum.splits)

lemma wp_thenM [wp_simps]: "wp (thenM m n) Q E = wp m (\<lambda>_. wp n Q E) E"
  by (rule ext) (simp add: thenM_def wp_bindM)

lemma wp_ensure [wp_simps]: "wp (ensure b e) Q E = (\<lambda>s. if b then Q () s else E e s)"
  by (rule ext) (simp add: wp_def ensure_def ret_def fail_def)

lemma wp_reads [wp_simps]: "wp (reads f) Q E = (\<lambda>s. Q (f s) s)"
  by (rule ext) (simp add: wp_def reads_def)

lemma wp_modifies [wp_simps]: "wp (modifies f) Q E = (\<lambda>s. Q () (f s))"
  by (rule ext) (simp add: wp_def modifies_def)

lemma wp_ok_or [wp_simps]: "wp (ok_or v e) Q E = (\<lambda>s. (case v of None \<Rightarrow> E e s | Some x \<Rightarrow> Q x s))"
  by (rule ext) (simp add: wp_def ok_or_def ret_def fail_def split: option.split)

lemma wp_lift_result [wp_simps]: "wp (lift_result r) Q E = (\<lambda>s. (case r of Inl e \<Rightarrow> E e s | Inr x \<Rightarrow> Q x s))"
  by (rule ext) (simp add: wp_def lift_result_def)

lemma wp_lift_arith [wp_simps]:
  "wp (lift_arith r) Q E = (\<lambda>s. (case r of Inl e \<Rightarrow> E (Arithmetic e) s | Inr x \<Rightarrow> Q x s))"
  by (rule ext) (simp add: wp_def lift_arith_def ret_def fail_def split: sum.split)

lemma wp_map_err [wp_simps]: "wp (map_err h m) Q E = wp m Q (\<lambda>e. E (h e))"
  by (rule ext) (auto simp: wp_def map_err_def split: prod.splits sum.splits)

lemma wp_zoom [wp_simps]:
  "wp (zoom rd wr m) Q E = (\<lambda>s. wp m (\<lambda>x c. Q x (wr c s)) (\<lambda>e c. E e (wr c s)) (rd s))"
  by (rule ext) (auto simp: wp_def zoom_def split: prod.splits)

lemma wp_transactional [wp_simps]: "wp (transactional m) Q E = (\<lambda>s. wp m Q (\<lambda>e _. E e s) s)"
  by (rule ext) (auto simp: wp_def transactional_def split: prod.splits sum.splits)

lemma wp_case_prod [wp_simps]:
  "wp (case p of (a, b) \<Rightarrow> g a b) Q E = (\<lambda>s. (case p of (a, b) \<Rightarrow> wp (g a b) Q E s))"
  by (cases p) simp

lemma wp_case_option [wp_simps]:
  "wp (case v of None \<Rightarrow> m | Some x \<Rightarrow> f x) Q E = (\<lambda>s. (case v of None \<Rightarrow> wp m Q E s | Some x \<Rightarrow> wp (f x) Q E s))"
  by (cases v) simp_all

lemma wp_try_mutate [wp_simps]:
  "wp (try_mutate rd wr f) Q E = (\<lambda>s. wp (f (rd s)) (\<lambda>p t. Q (fst p) (wr (snd p) t)) E s)"
  by (rule ext) (simp add: try_mutate_def wp_simps case_prod_beta)

lemma wp_if [wp_simps]: "wp (if b then m else n) Q E = (\<lambda>s. (if b then wp m Q E s else wp n Q E s))"
  by simp

lemma wp_ensure_signed [wp_simps]:
  "wp (ensure_signed orig) Q E = (\<lambda>s. (case orig of SignedOrigin who \<Rightarrow> Q who s | _ \<Rightarrow> E BadOrigin s))"
  by (rule ext) (simp add: ensure_signed_def wp_simps split: raw_origin.split)

lemma wp_ensure_root [wp_simps]:
  "wp (ensure_root orig) Q E = (\<lambda>s. (if orig = RootOrigin then Q () s else E BadOrigin s))"
  by (rule ext) (simp add: ensure_root_def wp_simps split: raw_origin.split)

lemma wp_ensure_origin [wp_simps]:
  "wp (ensure_origin a orig) Q E = (\<lambda>s. (if a orig then Q () s else E BadOrigin s))"
  by (rule ext) (simp add: ensure_origin_def wp_simps)

lemma wp_state: "wp m (\<lambda>_. I) (\<lambda>_. I) s \<longleftrightarrow> I (snd (m s))"
  by (simp add: wp_def split: prod.split sum.split)

lemma wp_any: "(\<And>x t. Q x t) \<Longrightarrow> (\<And>e t. E e t) \<Longrightarrow> wp m Q E s"
  by (simp add: wp_def split: prod.split sum.split)

lemma wp_mono: "wp m Q' E' s \<Longrightarrow> (\<And>x t. Q' x t \<Longrightarrow> Q x t) \<Longrightarrow> (\<And>e t. E' e t \<Longrightarrow> E e t) \<Longrightarrow> wp m Q E s"
  by (auto simp: wp_def split: prod.splits sum.splits)

lemma wp_keeps: "keeps m \<Longrightarrow> (\<And>x. Q x s) \<Longrightarrow> (\<And>e. E e s) \<Longrightarrow> wp m Q E s"
  by (cases "m s") (auto simp: wp_def keeps_def dest!: spec [of _ s] split: sum.split)

section \<open>Sums over storage maps\<close>

text \<open>
  The sum of a weight over the entries of a map whose keys satisfy a predicate, and how it
  changes with one entry. The equations are additive, so that no subtraction of natural numbers
  is needed in the proofs that use them.
\<close>

definition map_sum :: "('k \<Rightarrow> bool) \<Rightarrow> ('v \<Rightarrow> nat) \<Rightarrow> ('k \<rightharpoonup> 'v) \<Rightarrow> nat" where
  "map_sum P w m = (\<Sum>k | k \<in> dom m \<and> P k. w (the (m k)))"

definition entry_weight :: "('k \<Rightarrow> bool) \<Rightarrow> ('v \<Rightarrow> nat) \<Rightarrow> 'k \<Rightarrow> 'v option \<Rightarrow> nat" where
  "entry_weight P w k v = (if P k then (case v of None \<Rightarrow> 0 | Some x \<Rightarrow> w x) else 0)"

lemma map_sum_empty [simp]: "map_sum P w Map.empty = 0"
  by (simp add: map_sum_def)

lemma map_sum_split:
  assumes "finite (dom m)"
  shows "map_sum P w m = map_sum P w (m(k := None)) + entry_weight P w k (m k)"
proof (cases "k \<in> dom m \<and> P k")
  case True
  then have "{j. j \<in> dom m \<and> P j} = insert k {j. j \<in> dom (m(k := None)) \<and> P j}"
    by auto
  moreover have "(\<Sum>j | j \<in> dom (m(k := None)) \<and> P j. w (the (m j))) = map_sum P w (m(k := None))"
    unfolding map_sum_def by (rule sum.cong) auto
  moreover have "finite {j. j \<in> dom (m(k := None)) \<and> P j}"
    using assms by (auto intro: rev_finite_subset)
  ultimately show ?thesis
    using True by (auto simp: map_sum_def entry_weight_def)
next
  case False
  then have "{j. j \<in> dom m \<and> P j} = {j. j \<in> dom (m(k := None)) \<and> P j}"
    by auto
  moreover have "(\<Sum>j | j \<in> dom (m(k := None)) \<and> P j. w (the (m j))) = map_sum P w (m(k := None))"
    unfolding map_sum_def by (rule sum.cong) auto
  moreover have "entry_weight P w k (m k) = 0"
    using False by (auto simp: entry_weight_def split: option.splits)
  ultimately show ?thesis
    by (simp add: map_sum_def)
qed

lemma map_sum_update:
  assumes "finite (dom m)"
  shows "map_sum P w (m(k := v)) + entry_weight P w k (m k) = map_sum P w m + entry_weight P w k v"
proof -
  have "finite (dom (m(k := v)))"
    using assms by (cases v) auto
  then have "map_sum P w (m(k := v)) = map_sum P w (m(k := None)) + entry_weight P w k v"
    using map_sum_split [of "m(k := v)" P w k] by simp
  then show ?thesis
    using map_sum_split [OF assms, of P w k] by simp
qed

lemma finite_dom_update: "finite (dom m) \<Longrightarrow> finite (dom (m(k := v)))"
  by (cases v) auto

lemma entry_weight_le_map_sum: "finite (dom m) \<Longrightarrow> entry_weight P w k (m k) \<le> map_sum P w m"
  using map_sum_split [of m P w k] by simp

end
