(* ===== verification/Currency.thy ===== *)
theory Currency
  imports Prelude
begin

text \<open>
  The currency traits of FRAME that the pallets are configured with. Their implementations
  (pallet-balances, orml-tokens) are not part of the repository, so a pallet's model takes the
  operations as a record and the locales below name what the pallets rely on: what the trait
  documentation promises. A ledger kept as plain tables shows that the laws can hold; the
  assets pallet (theory \<open>Assets\<close>) provides the multi-asset interface from the native one and
  another multi-asset one.
\<close>

section \<open>The operations\<close>

text \<open>\<open>fungible::{Inspect, Transfer, Mutate}\<close>: one currency. \<open>can_deposit\<close> is
  \<open>can_deposit(..) == DepositConsequence::Success\<close> and \<open>can_withdraw\<close> is
  \<open>can_withdraw(..).into_result().is_ok()\<close>, the only ways the pallets look at them.\<close>

record 'c fungible =
  n_total_issuance :: "'c \<Rightarrow> balance"
  n_minimum_balance :: balance
  n_balance :: "account_id \<Rightarrow> 'c \<Rightarrow> balance"
  n_reducible_balance :: "account_id \<Rightarrow> bool \<Rightarrow> 'c \<Rightarrow> balance"
  n_can_deposit :: "account_id \<Rightarrow> balance \<Rightarrow> 'c \<Rightarrow> bool"
  n_can_withdraw :: "account_id \<Rightarrow> balance \<Rightarrow> 'c \<Rightarrow> bool"
  n_transfer :: "account_id \<Rightarrow> account_id \<Rightarrow> balance \<Rightarrow> bool \<Rightarrow> ('c, balance) call"
  n_mint_into :: "account_id \<Rightarrow> balance \<Rightarrow> ('c, unit) call"
  n_burn_from :: "account_id \<Rightarrow> balance \<Rightarrow> ('c, balance) call"

text \<open>\<open>fungibles::{Inspect, Transfer, Mutate}\<close>: many assets.\<close>

record 'c fungibles =
  f_total_issuance :: "asset_id \<Rightarrow> 'c \<Rightarrow> balance"
  f_minimum_balance :: "asset_id \<Rightarrow> balance"
  f_balance :: "asset_id \<Rightarrow> account_id \<Rightarrow> 'c \<Rightarrow> balance"
  f_reducible_balance :: "asset_id \<Rightarrow> account_id \<Rightarrow> bool \<Rightarrow> 'c \<Rightarrow> balance"
  f_can_deposit :: "asset_id \<Rightarrow> account_id \<Rightarrow> balance \<Rightarrow> 'c \<Rightarrow> bool"
  f_can_withdraw :: "asset_id \<Rightarrow> account_id \<Rightarrow> balance \<Rightarrow> 'c \<Rightarrow> bool"
  f_transfer :: "asset_id \<Rightarrow> account_id \<Rightarrow> account_id \<Rightarrow> balance \<Rightarrow> bool \<Rightarrow> ('c, balance) call"
  f_mint_into :: "asset_id \<Rightarrow> account_id \<Rightarrow> balance \<Rightarrow> ('c, unit) call"
  f_burn_from :: "asset_id \<Rightarrow> account_id \<Rightarrow> balance \<Rightarrow> ('c, balance) call"

section \<open>Tables of balances\<close>

type_synonym balance_table = "asset_id \<Rightarrow> account_id \<Rightarrow> balance"

definition credited :: "asset_id \<Rightarrow> account_id \<Rightarrow> balance \<Rightarrow> balance_table \<Rightarrow> balance_table" where
  "credited a x n B = B(a := (B a)(x := B a x + n))"

definition debited :: "asset_id \<Rightarrow> account_id \<Rightarrow> balance \<Rightarrow> balance_table \<Rightarrow> balance_table" where
  "debited a x n B = B(a := (B a)(x := B a x - n))"

definition moved ::
  "asset_id \<Rightarrow> account_id \<Rightarrow> account_id \<Rightarrow> balance \<Rightarrow> balance_table \<Rightarrow> balance_table" where
  "moved a x y n B = (if x = y then B else credited a y n (debited a x n B))"

definition balances :: "'c fungibles \<Rightarrow> 'c \<Rightarrow> balance_table" where
  "balances F c = (\<lambda>a x. f_balance F a x c)"

definition issuance :: "'c fungibles \<Rightarrow> 'c \<Rightarrow> asset_id \<Rightarrow> balance" where
  "issuance F c = (\<lambda>a. f_total_issuance F a c)"

text \<open>
  An account whose balance falls below the minimum balance is removed and its remainder, the
  dust, is lost to it. With a minimum balance of at most one unit there is no dust; the
  runtimes set it to zero for every token (runtime/picasso/src/lib.rs, \<open>ExistentialDeposits\<close>).
\<close>

definition dust_free :: "'c fungibles \<Rightarrow> asset_id \<Rightarrow> bool" where
  "dust_free F a \<longleftrightarrow> f_minimum_balance F a \<le> 1"

section \<open>What the pallets rely on\<close>

text \<open>
  On an error nothing is done. A transfer that keeps the source alive, or of an asset without
  dust, moves exactly the amount and needs it to be there; minting adds exactly the amount to
  the balance and to the issuance; burning an asset without dust takes it away from both.
\<close>

locale fungibles_ledger =
  fixes F :: "'c fungibles"
  assumes transfer_atomic: "atomic (f_transfer F a x y n k)"
    and mint_atomic: "atomic (f_mint_into F a x n)"
    and burn_atomic: "atomic (f_burn_from F a x n)"
    and transfer_enough:
      "f_transfer F a x y n k c = (Inr m, c') \<Longrightarrow> x \<noteq> y \<Longrightarrow> n \<le> f_balance F a x c"
    and transfer_balances:
      "f_transfer F a x y n k c = (Inr m, c') \<Longrightarrow> k \<or> dust_free F a \<Longrightarrow>
         balances F c' = moved a x y n (balances F c)"
    and transfer_issuance:
      "f_transfer F a x y n k c = (Inr m, c') \<Longrightarrow> k \<or> dust_free F a \<Longrightarrow>
         issuance F c' = issuance F c"
    and mint_balances:
      "f_mint_into F a x n c = (Inr u, c') \<Longrightarrow> balances F c' = credited a x n (balances F c)"
    and mint_issuance:
      "f_mint_into F a x n c = (Inr u, c') \<Longrightarrow>
         issuance F c' = (issuance F c)(a := issuance F c a + n)"
    and burn_enough:
      "f_burn_from F a x n c = (Inr m, c') \<Longrightarrow> n \<le> f_balance F a x c"
    and burn_balances:
      "f_burn_from F a x n c = (Inr m, c') \<Longrightarrow> dust_free F a \<Longrightarrow>
         balances F c' = debited a x n (balances F c)"
    and burn_issuance:
      "f_burn_from F a x n c = (Inr m, c') \<Longrightarrow> dust_free F a \<Longrightarrow>
         issuance F c' = (issuance F c)(a := issuance F c a - n)"
begin

lemma transfer_balance:
  assumes "f_transfer F a x y n k c = (Inr m, c')" and "k \<or> dust_free F a"
  shows "f_balance F b z c' =
    (if b = a \<and> x \<noteq> y then
       if z = y then f_balance F a y c + n
       else if z = x then f_balance F a x c - n else f_balance F b z c
     else f_balance F b z c)"
proof -
  have "f_balance F b z c' = balances F c' b z"
    by (simp add: balances_def)
  also have "\<dots> = moved a x y n (balances F c) b z"
    by (simp add: transfer_balances [OF assms])
  finally show ?thesis
    by (auto simp: moved_def credited_def debited_def balances_def)
qed

lemma mint_balance:
  assumes "f_mint_into F a x n c = (Inr u, c')"
  shows "f_balance F b z c' = (if b = a \<and> z = x then f_balance F a x c + n else f_balance F b z c)"
  using fun_cong [OF fun_cong [OF mint_balances [OF assms], of b], of z]
  by (simp add: balances_def credited_def split: if_splits)

lemma burn_balance:
  assumes "f_burn_from F a x n c = (Inr m, c')" and "dust_free F a"
  shows "f_balance F b z c' = (if b = a \<and> z = x then f_balance F a x c - n else f_balance F b z c)"
  using fun_cong [OF fun_cong [OF burn_balances [OF assms], of b], of z]
  by (simp add: balances_def debited_def split: if_splits)

lemma transfer_total:
  assumes "f_transfer F a x y n k c = (Inr m, c')" and "k \<or> dust_free F a"
  shows "f_total_issuance F b c' = f_total_issuance F b c"
  using fun_cong [OF transfer_issuance [OF assms], of b] by (simp add: issuance_def)

lemma mint_total:
  assumes "f_mint_into F a x n c = (Inr u, c')"
  shows "f_total_issuance F b c' =
    (if b = a then f_total_issuance F a c + n else f_total_issuance F b c)"
  using fun_cong [OF mint_issuance [OF assms], of b] by (simp add: issuance_def split: if_splits)

lemma burn_total:
  assumes "f_burn_from F a x n c = (Inr m, c')" and "dust_free F a"
  shows "f_total_issuance F b c' =
    (if b = a then f_total_issuance F a c - n else f_total_issuance F b c)"
  using fun_cong [OF burn_issuance [OF assms], of b] by (simp add: issuance_def split: if_splits)

end

text \<open>The same laws for one currency.\<close>

locale fungible_ledger =
  fixes N :: "'c fungible"
  assumes n_transfer_atomic: "atomic (n_transfer N x y n k)"
    and n_mint_atomic: "atomic (n_mint_into N x n)"
    and n_burn_atomic: "atomic (n_burn_from N x n)"
    and n_transfer_enough:
      "n_transfer N x y n k c = (Inr m, c') \<Longrightarrow> x \<noteq> y \<Longrightarrow> n \<le> n_balance N x c"
    and n_transfer_balances:
      "n_transfer N x y n k c = (Inr m, c') \<Longrightarrow> k \<or> n_minimum_balance N \<le> 1 \<Longrightarrow>
         n_balance N z c' =
           (if x = y then n_balance N z c else if z = y then n_balance N y c + n
            else if z = x then n_balance N x c - n else n_balance N z c)"
    and n_transfer_issuance:
      "n_transfer N x y n k c = (Inr m, c') \<Longrightarrow> k \<or> n_minimum_balance N \<le> 1 \<Longrightarrow>
         n_total_issuance N c' = n_total_issuance N c"
    and n_mint_balances:
      "n_mint_into N x n c = (Inr u, c') \<Longrightarrow>
         n_balance N z c' = (if z = x then n_balance N x c + n else n_balance N z c)"
    and n_mint_issuance:
      "n_mint_into N x n c = (Inr u, c') \<Longrightarrow> n_total_issuance N c' = n_total_issuance N c + n"
    and n_burn_enough: "n_burn_from N x n c = (Inr m, c') \<Longrightarrow> n \<le> n_balance N x c"
    and n_burn_balances:
      "n_burn_from N x n c = (Inr m, c') \<Longrightarrow> n_minimum_balance N \<le> 1 \<Longrightarrow>
         n_balance N z c' = (if z = x then n_balance N x c - n else n_balance N z c)"
    and n_burn_issuance:
      "n_burn_from N x n c = (Inr m, c') \<Longrightarrow> n_minimum_balance N \<le> 1 \<Longrightarrow>
         n_total_issuance N c' = n_total_issuance N c - n"

section \<open>A ledger of plain tables\<close>

text \<open>
  Balances and issuance as tables, minimum balance zero: an amount is moved when it is there
  and the destination does not overflow. It instantiates the currency parameter in the
  witnesses of the properties.
\<close>

record ledger =
  bals :: balance_table
  issued :: "asset_id \<Rightarrow> balance"

definition ledger_transfer ::
  "asset_id \<Rightarrow> account_id \<Rightarrow> account_id \<Rightarrow> balance \<Rightarrow> bool \<Rightarrow> (ledger, balance) call" where
  "ledger_transfer a x y n k L =
     (if x = y then (Inr n, L)
      else if bals L a x < n then (Inl (TokenErr 0), L)
      else if u128_max < bals L a y + n then (Inl (TokenErr 1), L)
      else (Inr n, L\<lparr>bals := moved a x y n (bals L)\<rparr>))"

definition ledger_mint :: "asset_id \<Rightarrow> account_id \<Rightarrow> balance \<Rightarrow> (ledger, unit) call" where
  "ledger_mint a x n L =
     (if u128_max < issued L a + n then (Inl (TokenErr 1), L)
      else (Inr (), L\<lparr>bals := credited a x n (bals L), issued := (issued L)(a := issued L a + n)\<rparr>))"

definition ledger_burn :: "asset_id \<Rightarrow> account_id \<Rightarrow> balance \<Rightarrow> (ledger, balance) call" where
  "ledger_burn a x n L =
     (if bals L a x < n then (Inl (TokenErr 0), L)
      else (Inr n, L\<lparr>bals := debited a x n (bals L), issued := (issued L)(a := issued L a - n)\<rparr>))"

definition ledger_fungibles :: "ledger fungibles" where
  "ledger_fungibles =
     \<lparr>f_total_issuance = (\<lambda>a L. issued L a),
      f_minimum_balance = (\<lambda>_. 0),
      f_balance = (\<lambda>a x L. bals L a x),
      f_reducible_balance = (\<lambda>a x _ L. bals L a x),
      f_can_deposit = (\<lambda>a x n L. issued L a + n \<le> u128_max),
      f_can_withdraw = (\<lambda>a x n L. n \<le> bals L a x),
      f_transfer = ledger_transfer,
      f_mint_into = ledger_mint,
      f_burn_from = ledger_burn\<rparr>"

text \<open>The native currency of the same kind: the asset \<open>0\<close> of a ledger of its own.\<close>

definition ledger_fungible :: "ledger fungible" where
  "ledger_fungible =
     \<lparr>n_total_issuance = (\<lambda>L. issued L 0),
      n_minimum_balance = 0,
      n_balance = (\<lambda>x L. bals L 0 x),
      n_reducible_balance = (\<lambda>x _ L. bals L 0 x),
      n_can_deposit = (\<lambda>x n L. issued L 0 + n \<le> u128_max),
      n_can_withdraw = (\<lambda>x n L. n \<le> bals L 0 x),
      n_transfer = ledger_transfer 0,
      n_mint_into = ledger_mint 0,
      n_burn_from = ledger_burn 0\<rparr>"

definition empty_ledger :: ledger where
  "empty_ledger = \<lparr>bals = (\<lambda>_ _. 0), issued = (\<lambda>_. 0)\<rparr>"

lemmas ledger_defs =
  ledger_fungibles_def ledger_fungible_def ledger_transfer_def ledger_mint_def ledger_burn_def

lemma ledger_atomic [atomic_intros]:
  "atomic (ledger_transfer a x y n k)" "atomic (ledger_mint a x n)" "atomic (ledger_burn a x n)"
  by (auto simp: atomic_def ledger_defs split: if_splits)

interpretation ledger_F: fungibles_ledger ledger_fungibles
  by unfold_locales
     (auto simp: ledger_defs balances_def issuance_def moved_def ledger_atomic
       split: if_splits)

interpretation ledger_N: fungible_ledger ledger_fungible
  by unfold_locales
     (auto simp: ledger_defs moved_def credited_def debited_def ledger_atomic
       split: if_splits)

end
