(* ===== verification/Mosaic_Relayer.thy ===== *)
theory Mosaic_Relayer
  imports Prelude
begin

text \<open>
  The two helpers of the bridge pallet (frame/mosaic): the relayer account with its scheduled
  rotation (relayer.rs) and the decay of the mint penalty over time (decay.rs). The pallet uses
  the decay through the \<open>Decayer\<close> trait, stated here as a locale.
\<close>

section \<open>The relayer\<close>

record next_relayer =
  next_ttl :: block_number
  next_account :: account_id

text \<open>\<open>StaleRelayer\<close> is a \<open>RelayerConfig\<close> of which only \<open>update\<close> can be read.\<close>

record relayer_config =
  current_relayer :: account_id
  next_config :: "next_relayer option"

datatype stale_relayer = StaleRelayer relayer_config

definition stale_relayer_new :: "account_id \<Rightarrow> stale_relayer" where
  "stale_relayer_new account = StaleRelayer \<lparr>current_relayer = account, next_config = None\<rparr>"

definition rejig :: "relayer_config \<Rightarrow> block_number \<Rightarrow> relayer_config" where
  "rejig self current =
     (case next_config self of
        None \<Rightarrow> self
      | Some nxt \<Rightarrow>
          if next_ttl nxt \<le> current
          then \<lparr>current_relayer = next_account nxt, next_config = None\<rparr>
          else \<lparr>current_relayer = current_relayer self, next_config = Some nxt\<rparr>)"

definition update_relayer :: "stale_relayer \<Rightarrow> block_number \<Rightarrow> relayer_config" where
  "update_relayer self now = (case self of StaleRelayer relayer \<Rightarrow> rejig relayer now)"

definition is_relayer :: "relayer_config \<Rightarrow> account_id \<Rightarrow> bool" where
  "is_relayer self account \<longleftrightarrow> current_relayer self = account"

definition rotate :: "relayer_config \<Rightarrow> account_id \<Rightarrow> block_number \<Rightarrow> relayer_config" where
  "rotate self account ttl = self\<lparr>next_config := Some \<lparr>next_ttl = ttl, next_account = account\<rparr>\<rparr>"

lemma rejig_rejig: "n \<le> m \<Longrightarrow> rejig (rejig r n) m = rejig r m"
  by (auto simp: rejig_def split: option.splits)

lemma rejig_rotate:
  "current_relayer (rejig (rotate r a ttl) now) = (if ttl \<le> now then a else current_relayer r)"
  by (simp add: rejig_def rotate_def)

section \<open>The decay of a penalty\<close>

text \<open>\<open>LinearDecay\<close> and the enum \<open>BudgetPenaltyDecayer\<close> that wraps it.\<close>

record linear_decay =
  factor :: balance

datatype budget_penalty_decayer = Linear linear_decay

definition linear :: "balance \<Rightarrow> budget_penalty_decayer" where
  "linear n = Linear \<lparr>factor = n\<rparr>"

definition linear_checked_decay ::
  "linear_decay \<Rightarrow> balance \<Rightarrow> block_number \<Rightarrow> block_number \<Rightarrow> balance option" where
  "linear_checked_decay self amount current last_block =
     (let diff = saturating_sub current last_block
      in case checked_mul u128_max diff (factor self) of
           None \<Rightarrow> None
         | Some reduction \<Rightarrow> Some (saturating_sub amount reduction))"

definition linear_full_recovery_period :: "linear_decay \<Rightarrow> balance \<Rightarrow> block_number option" where
  "linear_full_recovery_period self amount =
     (case checked_div amount (factor self) of
        None \<Rightarrow> None
      | Some full_period \<Rightarrow>
          if full_period \<le> u32_max then checked_add u32_max full_period 1 else None)"

definition checked_decay ::
  "budget_penalty_decayer \<Rightarrow> balance \<Rightarrow> block_number \<Rightarrow> block_number \<Rightarrow> balance option" where
  "checked_decay self amount current last_block =
     (case self of Linear lin \<Rightarrow> linear_checked_decay lin amount current last_block)"

definition full_recovery_period :: "budget_penalty_decayer \<Rightarrow> balance \<Rightarrow> block_number option" where
  "full_recovery_period self amount =
     (case self of Linear lin \<Rightarrow> linear_full_recovery_period lin amount)"

text \<open>
  What the pallet relies on. It reads a decay that cannot be computed as a full recovery, so
  the laws speak of \<open>decayed\<close>: zero where there is no result. The recovery per block is bounded
  by \<open>rate\<close>, nothing is ever added, and after the recovery period nothing is left.
\<close>

definition decayed :: "('d \<Rightarrow> balance \<Rightarrow> block_number \<Rightarrow> block_number \<Rightarrow> balance option) \<Rightarrow>
  'd \<Rightarrow> balance \<Rightarrow> block_number \<Rightarrow> block_number \<Rightarrow> balance" where
  "decayed dec d amount current last_block =
     (case dec d amount current last_block of None \<Rightarrow> 0 | Some n \<Rightarrow> n)"

locale decayer =
  fixes dec :: "'d \<Rightarrow> balance \<Rightarrow> block_number \<Rightarrow> block_number \<Rightarrow> balance option"
    and recovery :: "'d \<Rightarrow> balance \<Rightarrow> block_number option"
    and rate :: "'d \<Rightarrow> balance"
  assumes dec_le: "dec d n c l = Some m \<Longrightarrow> m \<le> n"
    and dec_rate: "n \<le> u128_max \<Longrightarrow> n \<le> decayed dec d n c l + rate d * (c - l)"
    and dec_mono: "c \<le> c' \<Longrightarrow> decayed dec d n c' l \<le> decayed dec d n c l"
    and dec_recovered: "recovery d n = Some p \<Longrightarrow> l + p \<le> c \<Longrightarrow> decayed dec d n c l = 0"
begin

lemma decayed_le: "decayed dec d n c l \<le> n"
  using dec_le by (auto simp: decayed_def split: option.splits)

lemma decayed_same_block: "n \<le> u128_max \<Longrightarrow> decayed dec d n c c = n"
  using dec_rate [of n d c c] decayed_le [of d n c c] by simp

text \<open>
  The rate limit of a minter that is charged what it mints: what was minted up to now, against
  the penalty stored and the time that has passed.
\<close>

lemma charge_bound:
  assumes "minted \<le> pen + rate d * (l - start)" "pen \<le> u128_max" "start \<le> l" "l \<le> c"
  shows "minted + amount \<le> decayed dec d pen c l + amount + rate d * (c - start)"
proof -
  have "pen + rate d * (l - start) \<le> decayed dec d pen c l + rate d * (c - l) + rate d * (l - start)"
    using dec_rate [OF assms(2), of d c l] by simp
  also have "\<dots> = decayed dec d pen c l + rate d * (c - start)"
    using assms(3,4) by (simp add: add_mult_distrib2 [symmetric])
  finally show ?thesis using assms(1) by simp
qed

end

interpretation linear_dec: decayer linear_checked_decay linear_full_recovery_period factor
proof
  fix d n m c c' l p
  show "linear_checked_decay d n c l = Some m \<Longrightarrow> m \<le> n"
    by (auto simp: linear_checked_decay_def saturating_sub_def Let_def split: option.splits)
  show "n \<le> u128_max \<Longrightarrow> n \<le> decayed linear_checked_decay d n c l + factor d * (c - l)"
    by (auto simp: decayed_def linear_checked_decay_def saturating_sub_def checked_mul_def Let_def
        mult.commute)
  show "decayed linear_checked_decay d n c' l \<le> decayed linear_checked_decay d n c l" if "c \<le> c'"
  proof -
    define x y where "x = (c - l) * factor d" and "y = (c' - l) * factor d"
    then have "x \<le> y" using that by (simp add: diff_le_mono)
    then have "(if y \<le> u128_max then n - y else 0) \<le> (if x \<le> u128_max then n - x else 0)"
      by auto
    then show ?thesis
      unfolding x_def y_def by (simp add: decayed_def linear_checked_decay_def saturating_sub_def
          checked_mul_def Let_def split: if_splits)
  qed
  assume rec: "linear_full_recovery_period d n = Some p" and c: "l + p \<le> c"
  then have f: "0 < factor d" and p: "p = n div factor d + 1"
    by (auto simp: linear_full_recovery_period_def checked_div_def checked_add_def
        split: option.splits if_splits)
  have "n < p * factor d"
    using f p by (simp add: dividend_less_div_times)
  also have "\<dots> \<le> (c - l) * factor d"
    using c by (intro mult_le_mono1) simp
  finally show "decayed linear_checked_decay d n c l = 0"
    by (simp add: decayed_def linear_checked_decay_def saturating_sub_def checked_mul_def Let_def)
qed

text \<open>The bound on the recovery per block of the wrapping enum.\<close>

definition decay_rate :: "budget_penalty_decayer \<Rightarrow> balance" where
  "decay_rate d = (case d of Linear lin \<Rightarrow> factor lin)"

lemma decayed_wrap: "decayed checked_decay (Linear lin) = decayed linear_checked_decay lin"
  by (simp add: decayed_def checked_decay_def fun_eq_iff)

interpretation penalty_dec: decayer checked_decay full_recovery_period decay_rate
proof
  fix d n m c c' l p
  obtain lin where d: "d = Linear lin" by (cases d)
  show "checked_decay d n c l = Some m \<Longrightarrow> m \<le> n"
    by (simp add: d checked_decay_def linear_dec.dec_le)
  show "n \<le> u128_max \<Longrightarrow> n \<le> decayed checked_decay d n c l + decay_rate d * (c - l)"
    by (simp add: d decayed_wrap decay_rate_def linear_dec.dec_rate)
  show "c \<le> c' \<Longrightarrow> decayed checked_decay d n c' l \<le> decayed checked_decay d n c l"
    by (simp add: d decayed_wrap linear_dec.dec_mono)
  show "full_recovery_period d n = Some p \<Longrightarrow> l + p \<le> c \<Longrightarrow> decayed checked_decay d n c l = 0"
    by (simp add: d decayed_wrap full_recovery_period_def linear_dec.dec_recovered)
qed

end
