(* ===== verification/Mosaic.thy ===== *)
theory Mosaic
  imports Currency Mosaic_Relayer
begin

text \<open>
  The bridge pallet (frame/mosaic/src/lib.rs). Users lock funds for an outgoing transfer, which
  the relayer accepts (the funds are burned) or the user takes back after the lock period; the
  relayer mints incoming funds within a budget, which the user claims after a lock period or the
  relayer rescinds. Locked funds are kept in accounts derived from the pallet and the user. The
  currency, the account derivation and the hash are code outside the repository: they are fields
  of the configuration.
\<close>

section \<open>Data\<close>

type_synonym network_id = nat
type_synonym remote_asset_id = nat
type_synonym ethereum_address = nat
type_synonym tx_id = nat

datatype transaction_type = Incoming | Outgoing

record sub_account =
  transaction_type :: transaction_type
  sub_account_of :: account_id

definition new_outgoing :: "account_id \<Rightarrow> sub_account" where
  "new_outgoing acc = \<lparr>transaction_type = Outgoing, sub_account_of = acc\<rparr>"

definition new_incoming :: "account_id \<Rightarrow> sub_account" where
  "new_incoming acc = \<lparr>transaction_type = Incoming, sub_account_of = acc\<rparr>"

definition to_id :: "sub_account \<Rightarrow> string \<times> account_id" where
  "to_id self =
     (case transaction_type self of Incoming \<Rightarrow> ''incoming________'' | Outgoing \<Rightarrow> ''outgoing________'',
      sub_account_of self)"

record asset_info =
  last_mint_block :: block_number
  budget :: balance
  penalty :: balance
  penalty_decayer :: budget_penalty_decayer

record network_info =
  enabled :: bool
  max_transfer_size :: balance

datatype mosaic_event =
    RelayerSet account_id
  | RelayerRotated block_number account_id
  | BudgetUpdated asset_id balance budget_penalty_decayer
  | NetworksUpdated network_id network_info
  | TransferOut tx_id ethereum_address asset_id network_id remote_asset_id balance
  | StaleTxClaimed account_id account_id asset_id balance
  | TransferInto tx_id account_id network_id remote_asset_id asset_id balance
  | TransferIntoRescined account_id balance asset_id
  | PartialTransferAccepted account_id asset_id network_id remote_asset_id balance
  | TransferAccepted account_id asset_id network_id remote_asset_id balance
  | TransferClaimed account_id account_id asset_id balance
  | AssetMappingCreated asset_id network_id remote_asset_id
  | AssetMappingUpdated asset_id network_id remote_asset_id
  | AssetMappingDeleted asset_id network_id remote_asset_id

text \<open>\<open>hash_of\<close> is \<open>Keccak256::hash_of\<close> on the tuple that \<open>generate_id\<close> builds.\<close>

record 'c mosaic_config =
  Assets :: "'c fungibles"
  MinimumTTL :: block_number
  MinimumTimeLockPeriod :: block_number
  ControlOrigin :: "raw_origin \<Rightarrow> bool"
  into_sub_account :: "string \<times> account_id \<Rightarrow> account_id"
  hash_of :: "account_id \<times> network_id \<times> asset_id \<times> ethereum_address \<times> balance \<times> block_number \<times> nat \<Rightarrow> tx_id"

record 'c mosaic =
  Relayer :: "stale_relayer option"
  AssetsInfo :: "asset_id \<rightharpoonup> asset_info"
  NetworkInfos :: "network_id \<rightharpoonup> network_info"
  TimeLockPeriod :: block_number
  Nonce :: nat
  OutgoingTransactions :: "account_id \<times> asset_id \<rightharpoonup> balance \<times> block_number"
  IncomingTransactions :: "account_id \<times> asset_id \<rightharpoonup> balance \<times> block_number"
  LocalToRemoteAsset :: "asset_id \<times> network_id \<rightharpoonup> remote_asset_id"
  RemoteToLocalAsset :: "remote_asset_id \<times> network_id \<rightharpoonup> asset_id"
  mosaic_events :: "mosaic_event list"
  mosaic_block :: block_number
  mosaic_currency :: 'c

definition mosaic_genesis :: "'c mosaic_config \<Rightarrow> 'c \<Rightarrow> 'c mosaic" where
  "mosaic_genesis cfg c =
     \<lparr>Relayer = None, AssetsInfo = Map.empty, NetworkInfos = Map.empty,
      TimeLockPeriod = MinimumTimeLockPeriod cfg, Nonce = 0,
      OutgoingTransactions = Map.empty, IncomingTransactions = Map.empty,
      LocalToRemoteAsset = Map.empty, RemoteToLocalAsset = Map.empty,
      mosaic_events = [], mosaic_block = 0, mosaic_currency = c\<rparr>"

section \<open>Helpers of the pallet\<close>

definition mosaic_assets :: "('c, 'a) call \<Rightarrow> ('c mosaic, 'a) call" where
  "mosaic_assets m = zoom mosaic_currency (\<lambda>c s. s\<lparr>mosaic_currency := c\<rparr>) m"

definition mosaic_deposit_event :: "mosaic_event \<Rightarrow> ('c mosaic, unit) call" where
  "mosaic_deposit_event e = modifies (\<lambda>s. s\<lparr>mosaic_events := mosaic_events s @ [e]\<rparr>)"

definition sub_account_id :: "'c mosaic_config \<Rightarrow> sub_account \<Rightarrow> account_id" where
  "sub_account_id cfg sub = into_sub_account cfg (to_id sub)"

definition relayer_account_id :: "('c mosaic, account_id) call" where
  "relayer_account_id =
     bindM (reads mosaic_block) (\<lambda>current_block.
     bindM (reads Relayer) (\<lambda>r.
     bindM (ok_or r (MosaicErr RelayerNotSet)) (\<lambda>stale.
     ret (current_relayer (update_relayer stale current_block)))))"

definition ensure_relayer :: "raw_origin \<Rightarrow> ('c mosaic, relayer_config \<times> block_number) call" where
  "ensure_relayer orig =
     bindM (map_err (\<lambda>_. BadOrigin) (ensure_signed orig)) (\<lambda>acc.
     bindM (reads mosaic_block) (\<lambda>current_block.
     bindM (reads Relayer) (\<lambda>r.
     bindM (ok_or r (MosaicErr RelayerNotSet)) (\<lambda>stale.
     let relayer = update_relayer stale current_block in
     thenM (ensure (is_relayer relayer acc) BadOrigin)
       (ret (relayer, current_block))))))"

definition get_local_mapping :: "remote_asset_id \<Rightarrow> network_id \<Rightarrow> ('c mosaic, asset_id) call" where
  "get_local_mapping remote_asset_id network_id =
     bindM (reads (\<lambda>s. RemoteToLocalAsset s (remote_asset_id, network_id)))
       (\<lambda>a. ok_or a (MosaicErr AssetNotMapped))"

definition get_remote_mapping :: "asset_id \<Rightarrow> network_id \<Rightarrow> ('c mosaic, remote_asset_id) call" where
  "get_remote_mapping asset_id network_id =
     bindM (reads (\<lambda>s. LocalToRemoteAsset s (asset_id, network_id)))
       (\<lambda>a. ok_or a (MosaicErr AssetNotMapped))"

definition generate_id ::
  "'c mosaic_config \<Rightarrow> account_id \<Rightarrow> network_id \<Rightarrow> asset_id \<Rightarrow> ethereum_address \<Rightarrow> balance \<Rightarrow>
     block_number \<Rightarrow> ('c mosaic, tx_id) call" where
  "generate_id cfg to network_id asset_id address amount block_number =
     thenM (modifies (\<lambda>s. s\<lparr>Nonce := wrapping_add u128_max (Nonce s) 1\<rparr>))
       (bindM (reads Nonce) (\<lambda>nonce.
        ret (hash_of cfg (to, network_id, asset_id, address, amount, block_number, nonce))))"

section \<open>The dispatchables\<close>

definition set_relayer :: "'c mosaic_config \<Rightarrow> raw_origin \<Rightarrow> account_id \<Rightarrow> ('c mosaic, unit) call" where
  "set_relayer cfg orig relayer =
     thenM (ensure_origin (ControlOrigin cfg) orig)
     (thenM (modifies (\<lambda>s. s\<lparr>Relayer := Some (stale_relayer_new relayer)\<rparr>))
       (mosaic_deposit_event (RelayerSet relayer)))"

definition rotate_relayer ::
  "'c mosaic_config \<Rightarrow> raw_origin \<Rightarrow> account_id \<Rightarrow> block_number \<Rightarrow> ('c mosaic, unit) call" where
  "rotate_relayer cfg orig new ttl =
     thenM (ensure (MinimumTTL cfg < ttl) (MosaicErr BadTTL))
     (bindM (ensure_relayer orig) (\<lambda>(relayer, current_block).
      let ttl' = saturating_add u32_max current_block ttl in
      thenM (modifies (\<lambda>s. s\<lparr>Relayer := Some (StaleRelayer (rotate relayer new ttl'))\<rparr>))
        (mosaic_deposit_event (RelayerRotated ttl' new))))"

definition set_network :: "raw_origin \<Rightarrow> network_id \<Rightarrow> network_info \<Rightarrow> ('c mosaic, unit) call" where
  "set_network orig network_id network_info =
     thenM (ensure_relayer orig)
     (thenM (modifies (\<lambda>s. s\<lparr>NetworkInfos := (NetworkInfos s)(network_id \<mapsto> network_info)\<rparr>))
       (mosaic_deposit_event (NetworksUpdated network_id network_info)))"

definition set_budget ::
  "'c mosaic_config \<Rightarrow> raw_origin \<Rightarrow> asset_id \<Rightarrow> balance \<Rightarrow> budget_penalty_decayer \<Rightarrow> ('c mosaic, unit) call" where
  "set_budget cfg orig asset_id amount decay =
     transactional
     (thenM (ensure_origin (ControlOrigin cfg) orig)
     (bindM (reads mosaic_block) (\<lambda>current_block.
      thenM (modifies (\<lambda>s. s\<lparr>AssetsInfo := (AssetsInfo s)(asset_id \<mapsto>
               (case AssetsInfo s asset_id of
                  Some info \<Rightarrow> info\<lparr>budget := amount, penalty_decayer := decay\<rparr>
                | None \<Rightarrow> \<lparr>last_mint_block = current_block, budget = amount, penalty = 0,
                           penalty_decayer = decay\<rparr>))\<rparr>))
        (mosaic_deposit_event (BudgetUpdated asset_id amount decay)))))"

definition transfer_to ::
  "'c mosaic_config \<Rightarrow> raw_origin \<Rightarrow> network_id \<Rightarrow> asset_id \<Rightarrow> ethereum_address \<Rightarrow> balance \<Rightarrow> bool \<Rightarrow>
     ('c mosaic, unit) call" where
  "transfer_to cfg orig network_id asset_id address amount keep_alive =
     transactional
     (bindM (ensure_signed orig) (\<lambda>caller.
      bindM (reads AssetsInfo) (\<lambda>infos.
      thenM (ensure (infos asset_id \<noteq> None) (MosaicErr UnsupportedAsset))
     (bindM (get_remote_mapping asset_id network_id) (\<lambda>remote_asset_id.
      bindM (reads NetworkInfos) (\<lambda>nets.
      bindM (ok_or (nets network_id) (MosaicErr UnsupportedNetwork)) (\<lambda>info.
      thenM (ensure (enabled info) (MosaicErr NetworkDisabled))
     (thenM (ensure (amount \<le> max_transfer_size info) (MosaicErr ExceedsMaxTransferSize))
     (thenM (mosaic_assets (f_transfer (Assets cfg) asset_id caller
              (sub_account_id cfg (new_outgoing caller)) amount keep_alive))
     (bindM (reads mosaic_block) (\<lambda>now.
      bindM (reads TimeLockPeriod) (\<lambda>period.
      bindM (lift_arith (safe_add u32_max now period)) (\<lambda>lock_until.
      thenM (try_mutate (\<lambda>s. OutgoingTransactions s (caller, asset_id))
              (\<lambda>tx s. s\<lparr>OutgoingTransactions := (OutgoingTransactions s)((caller, asset_id) := tx)\<rparr>)
              (\<lambda>tx. case tx of
                  Some (already_locked, _) \<Rightarrow>
                    bindM (lift_arith (safe_add u128_max amount already_locked)) (\<lambda>total.
                    ret ((), Some (total, lock_until)))
                | None \<Rightarrow> ret ((), Some (amount, lock_until))))
     (bindM (generate_id cfg caller network_id asset_id address amount now) (\<lambda>i.
      mosaic_deposit_event (TransferOut i address asset_id network_id remote_asset_id amount)
     )))))))))))))))"

definition accept_transfer ::
  "'c mosaic_config \<Rightarrow> raw_origin \<Rightarrow> account_id \<Rightarrow> network_id \<Rightarrow> remote_asset_id \<Rightarrow> balance \<Rightarrow>
     ('c mosaic, unit) call" where
  "accept_transfer cfg orig from network_id remote_asset_id amount =
     transactional
     (thenM (ensure_relayer orig)
     (bindM (get_local_mapping remote_asset_id network_id) (\<lambda>asset_id.
      try_mutate (\<lambda>s. OutgoingTransactions s (from, asset_id))
        (\<lambda>tx s. s\<lparr>OutgoingTransactions := (OutgoingTransactions s)((from, asset_id) := tx)\<rparr>)
        (\<lambda>maybe_tx. case maybe_tx of
           Some (balance, lock_period) \<Rightarrow>
             thenM (ensure (amount \<le> balance) (MosaicErr AmountMismatch))
            (thenM (mosaic_assets (f_burn_from (Assets cfg) asset_id
                     (sub_account_id cfg (new_outgoing from)) amount))
            (if amount = balance
             then thenM (mosaic_deposit_event
                          (TransferAccepted from asset_id network_id remote_asset_id amount))
                    (ret ((), None))
             else bindM (ok_or (checked_sub balance amount) (MosaicErr AmountMismatch)) (\<lambda>new_balance.
                  thenM (mosaic_deposit_event
                          (PartialTransferAccepted from asset_id network_id remote_asset_id amount))
                    (ret ((), Some (new_balance, lock_period))))))
         | None \<Rightarrow> fail (MosaicErr NoOutgoingTx)))))"

definition claim_stale_to ::
  "'c mosaic_config \<Rightarrow> raw_origin \<Rightarrow> asset_id \<Rightarrow> account_id \<Rightarrow> ('c mosaic, unit) call" where
  "claim_stale_to cfg orig asset_id to =
     transactional
     (bindM (ensure_signed orig) (\<lambda>caller.
      bindM (reads mosaic_block) (\<lambda>now.
      try_mutate (\<lambda>s. OutgoingTransactions s (caller, asset_id))
        (\<lambda>tx s. s\<lparr>OutgoingTransactions := (OutgoingTransactions s)((caller, asset_id) := tx)\<rparr>)
        (\<lambda>prev.
           bindM (case prev of
                    Some (balance, lock_time) \<Rightarrow>
                      if now \<le> lock_time then fail (MosaicErr TxStillLocked)
                      else thenM (mosaic_assets (f_transfer (Assets cfg) asset_id
                                   (sub_account_id cfg (new_outgoing caller)) to balance False))
                             (ret balance)
                  | None \<Rightarrow> fail (MosaicErr NoStaleTransactions))
             (\<lambda>amount.
               thenM (mosaic_deposit_event (StaleTxClaimed to caller asset_id amount))
                 (ret ((), None)))))))"

definition timelocked_mint ::
  "'c mosaic_config \<Rightarrow> raw_origin \<Rightarrow> network_id \<Rightarrow> remote_asset_id \<Rightarrow> account_id \<Rightarrow> balance \<Rightarrow>
     block_number \<Rightarrow> tx_id \<Rightarrow> ('c mosaic, unit) call" where
  "timelocked_mint cfg orig network_id remote_asset_id to amount lock_time i =
     bindM (ensure_relayer orig) (\<lambda>(_, current_block).
     bindM (get_local_mapping remote_asset_id network_id) (\<lambda>asset_id.
     try_mutate (\<lambda>s. AssetsInfo s asset_id)
       (\<lambda>info s. s\<lparr>AssetsInfo := (AssetsInfo s)(asset_id := info)\<rparr>)
       (\<lambda>info_opt.
         bindM (ok_or info_opt (MosaicErr UnsupportedAsset)) (\<lambda>info.
         let new_penalty =
               (case checked_decay (penalty_decayer info) (penalty info) current_block
                       (last_mint_block info) of
                  Some p \<Rightarrow> p | None \<Rightarrow> 0);
             penalised_budget = saturating_sub (budget info) new_penalty
         in thenM (ensure (amount \<le> penalised_budget) (MosaicErr InsufficientBudget))
           (thenM (mosaic_assets (f_mint_into (Assets cfg) asset_id
                    (sub_account_id cfg (new_incoming to)) amount))
           (let lock_at = saturating_add u32_max current_block lock_time in
            thenM (modifies (\<lambda>s. s\<lparr>IncomingTransactions := (IncomingTransactions s)((to, asset_id) \<mapsto>
                     (case IncomingTransactions s (to, asset_id) of
                        Some (balance, _) \<Rightarrow> (saturating_add u128_max balance amount, lock_at)
                      | None \<Rightarrow> (amount, lock_at)))\<rparr>))
           (thenM (mosaic_deposit_event
                    (TransferInto i to network_id remote_asset_id asset_id amount))
             (ret ((), Some \<lparr>last_mint_block = current_block, budget = budget info,
                             penalty = saturating_add u128_max new_penalty amount,
                             penalty_decayer = penalty_decayer info\<rparr>)))))))))"

definition set_timelock_duration ::
  "'c mosaic_config \<Rightarrow> raw_origin \<Rightarrow> block_number \<Rightarrow> ('c mosaic, unit) call" where
  "set_timelock_duration cfg orig period =
     thenM (ensure_origin (ControlOrigin cfg) orig)
     (thenM (ensure (MinimumTimeLockPeriod cfg < period) (MosaicErr BadTimelockPeriod))
       (modifies (\<lambda>s. s\<lparr>TimeLockPeriod := period\<rparr>)))"

definition rescind_timelocked_mint ::
  "'c mosaic_config \<Rightarrow> raw_origin \<Rightarrow> network_id \<Rightarrow> remote_asset_id \<Rightarrow> account_id \<Rightarrow> balance \<Rightarrow>
     ('c mosaic, unit) call" where
  "rescind_timelocked_mint cfg orig network_id remote_asset_id account untrusted_amount =
     transactional
     (thenM (ensure_relayer orig)
     (bindM (get_local_mapping remote_asset_id network_id) (\<lambda>asset_id.
      try_mutate (\<lambda>s. IncomingTransactions s (account, asset_id))
        (\<lambda>tx s. s\<lparr>IncomingTransactions := (IncomingTransactions s)((account, asset_id) := tx)\<rparr>)
        (\<lambda>prev.
          bindM (ok_or prev (MosaicErr NoClaimableTx)) (\<lambda>(balance, lock).
          let new_tx = (if balance = untrusted_amount then None
                        else Some (saturating_sub balance untrusted_amount, lock))
          in thenM (mosaic_assets (f_burn_from (Assets cfg) asset_id
                     (sub_account_id cfg (new_incoming account)) untrusted_amount))
            (thenM (mosaic_deposit_event (TransferIntoRescined account untrusted_amount asset_id))
              (ret ((), new_tx))))))))"

definition claim_to ::
  "'c mosaic_config \<Rightarrow> raw_origin \<Rightarrow> asset_id \<Rightarrow> account_id \<Rightarrow> ('c mosaic, unit) call" where
  "claim_to cfg orig asset_id to =
     bindM (ensure_signed orig) (\<lambda>caller.
     bindM (reads mosaic_block) (\<lambda>now.
     try_mutate (\<lambda>s. IncomingTransactions s (caller, asset_id))
       (\<lambda>tx s. s\<lparr>IncomingTransactions := (IncomingTransactions s)((caller, asset_id) := tx)\<rparr>)
       (\<lambda>deposit.
         bindM (ok_or deposit (MosaicErr NoClaimableTx)) (\<lambda>(amount, unlock_after).
         thenM (ensure (unlock_after < now) (MosaicErr TxStillLocked))
        (thenM (mosaic_assets (f_transfer (Assets cfg) asset_id
                 (sub_account_id cfg (new_incoming caller)) to amount False))
        (thenM (mosaic_deposit_event (TransferClaimed caller to asset_id amount))
          (ret ((), None))))))))"

definition insert_mapping :: "asset_id \<Rightarrow> network_id \<Rightarrow> remote_asset_id \<Rightarrow> 'c mosaic \<Rightarrow> 'c mosaic" where
  "insert_mapping asset_id network_id remote_asset_id s =
     s\<lparr>LocalToRemoteAsset := (LocalToRemoteAsset s)((asset_id, network_id) \<mapsto> remote_asset_id),
       RemoteToLocalAsset := (RemoteToLocalAsset s)((remote_asset_id, network_id) \<mapsto> asset_id)\<rparr>"

definition update_asset_mapping ::
  "'c mosaic_config \<Rightarrow> raw_origin \<Rightarrow> asset_id \<Rightarrow> network_id \<Rightarrow> remote_asset_id option \<Rightarrow> ('c mosaic, unit) call" where
  "update_asset_mapping cfg orig asset_id network_id remote_opt =
     thenM (ensure_origin (ControlOrigin cfg) orig)
     (bindM (reads NetworkInfos) (\<lambda>nets.
      thenM (ok_or (nets network_id) (MosaicErr UnsupportedNetwork))
     (bindM (reads (\<lambda>s. LocalToRemoteAsset s (asset_id, network_id))) (\<lambda>entry.
      case (entry, remote_opt) of
        (None, None) \<Rightarrow> ret ()
      | (None, Some remote_asset_id) \<Rightarrow>
          thenM (modifies (insert_mapping asset_id network_id remote_asset_id))
            (mosaic_deposit_event (AssetMappingCreated asset_id network_id remote_asset_id))
      | (Some remote_asset_id, None) \<Rightarrow>
          thenM (modifies (\<lambda>s. s\<lparr>
              LocalToRemoteAsset := (LocalToRemoteAsset s)((asset_id, network_id) := None),
              RemoteToLocalAsset := (RemoteToLocalAsset s)((remote_asset_id, network_id) := None)\<rparr>))
            (mosaic_deposit_event (AssetMappingDeleted asset_id network_id remote_asset_id))
      | (Some old_remote, Some new_remote) \<Rightarrow>
          thenM (modifies (\<lambda>s. s\<lparr>
              LocalToRemoteAsset := (LocalToRemoteAsset s)((asset_id, network_id) \<mapsto> new_remote),
              RemoteToLocalAsset := ((RemoteToLocalAsset s)((old_remote, network_id) := None))
                                      ((new_remote, network_id) \<mapsto> asset_id)\<rparr>))
            (mosaic_deposit_event (AssetMappingUpdated asset_id network_id new_remote))))))"

section \<open>All dispatchables\<close>

datatype mosaic_call =
    Call_set_relayer account_id
  | Call_rotate_relayer account_id block_number
  | Call_set_network network_id network_info
  | Call_set_budget asset_id balance budget_penalty_decayer
  | Call_transfer_to network_id asset_id ethereum_address balance bool
  | Call_accept_transfer account_id network_id remote_asset_id balance
  | Call_claim_stale_to asset_id account_id
  | Call_timelocked_mint network_id remote_asset_id account_id balance block_number tx_id
  | Call_set_timelock_duration block_number
  | Call_rescind_timelocked_mint network_id remote_asset_id account_id balance
  | Call_claim_to asset_id account_id
  | Call_update_asset_mapping asset_id network_id "remote_asset_id option"

fun mosaic_dispatch :: "'c mosaic_config \<Rightarrow> raw_origin \<Rightarrow> mosaic_call \<Rightarrow> ('c mosaic, unit) call" where
  "mosaic_dispatch cfg orig (Call_set_relayer r) = set_relayer cfg orig r"
| "mosaic_dispatch cfg orig (Call_rotate_relayer r ttl) = rotate_relayer cfg orig r ttl"
| "mosaic_dispatch cfg orig (Call_set_network n i) = set_network orig n i"
| "mosaic_dispatch cfg orig (Call_set_budget a n d) = set_budget cfg orig a n d"
| "mosaic_dispatch cfg orig (Call_transfer_to net a to n k) = transfer_to cfg orig net a to n k"
| "mosaic_dispatch cfg orig (Call_accept_transfer u net r n) = accept_transfer cfg orig u net r n"
| "mosaic_dispatch cfg orig (Call_claim_stale_to a to) = claim_stale_to cfg orig a to"
| "mosaic_dispatch cfg orig (Call_timelocked_mint net r to n l i) =
     timelocked_mint cfg orig net r to n l i"
| "mosaic_dispatch cfg orig (Call_set_timelock_duration p) = set_timelock_duration cfg orig p"
| "mosaic_dispatch cfg orig (Call_rescind_timelocked_mint net r u n) =
     rescind_timelocked_mint cfg orig net r u n"
| "mosaic_dispatch cfg orig (Call_claim_to a to) = claim_to cfg orig a to"
| "mosaic_dispatch cfg orig (Call_update_asset_mapping a net r) =
     update_asset_mapping cfg orig a net r"

end
