(* ===== verification/Currency_Factory.thy ===== *)
theory Currency_Factory
  imports Prelude
begin

text \<open>
  The currency factory (frame/currency-factory) hands out asset identifiers. It keeps a bounded
  list of ranges; \<open>create\<close> takes the next identifier of one range and \<open>add_range\<close> appends a
  range after the last one. The theory models both files of the pallet and shows that the
  ranges stay ordered and disjoint and that no identifier is ever handed out twice.
\<close>

section \<open>Ranges\<close>

type_synonym range_id = nat

definition LP_TOKENS :: range_id where "LP_TOKENS = 0"
definition TOKENS :: range_id where "TOKENS = 1"
definition FOREIGN_ASSETS :: range_id where "FOREIGN_ASSETS = 2"

text \<open>\<open>Range\<close>: the next identifier to hand out and the end of the range.\<close>

record id_range =
  range_current :: asset_id
  range_end :: asset_id

definition max_ranges :: nat where "max_ranges = 256"

definition range_lp_tokens :: id_range where
  "range_lp_tokens = \<lparr>range_current = 100000000001, range_end = 200000000000\<rparr>"

definition range_tokens :: id_range where
  "range_tokens = \<lparr>range_current = 200000000001, range_end = 300000000000\<rparr>"

definition range_foreign_assets :: id_range where
  "range_foreign_assets = \<lparr>range_current = 300000000001, range_end = 400000000000\<rparr>"

definition range_new :: "asset_id \<Rightarrow> asset_id option \<Rightarrow> dispatch_error + id_range" where
  "range_new at end_opt =
     (case end_opt of
        Some e \<Rightarrow>
          if saturating_add u128_max at e < 100000000
          then Inl (Other ''range does not have the minimum length'')
          else Inr \<lparr>range_current = at, range_end = e\<rparr>
      | None \<Rightarrow>
          Inr \<lparr>range_current = at, range_end = saturating_add u128_max 100000000000 at\<rparr>)"

definition range_increment :: "id_range \<Rightarrow> dispatch_error + asset_id \<times> id_range" where
  "range_increment r =
     (if range_current r = range_end r then Inl (Other ''range exhausted'')
      else Inr (range_current r, r\<lparr>range_current := saturating_add u128_max (range_current r) 1\<rparr>))"

text \<open>\<open>Ranges\<close>: a \<open>BoundedVec\<close> of at most \<open>MaxRanges\<close> ranges.\<close>

definition ranges_last :: "id_range list \<Rightarrow> id_range option" where
  "ranges_last rs = (if rs = [] then None else Some (last rs))"

definition ranges_end :: "id_range list \<Rightarrow> asset_id" where
  "ranges_end rs = (case ranges_last rs of Some r \<Rightarrow> range_end r | None \<Rightarrow> 0)"

definition ranges_get :: "id_range list \<Rightarrow> range_id \<Rightarrow> id_range option" where
  "ranges_get rs i = (if i < length rs then Some (rs ! i) else None)"

definition try_push :: "id_range list \<Rightarrow> id_range \<Rightarrow> unit + id_range list" where
  "try_push rs r = (if length rs < max_ranges then Inr (rs @ [r]) else Inl ())"

definition ranges_add :: "id_range list \<Rightarrow> id_range \<Rightarrow> unit + id_range list" where
  "ranges_add rs r =
     (case ranges_last rs of
        Some l \<Rightarrow> if range_current r \<le> range_end l then Inl () else try_push rs r
      | None \<Rightarrow> try_push rs r)"

text \<open>\<open>expect\<close> on a result: the list is kept as it was where the code would panic.\<close>

definition ranges_expect :: "id_range list \<Rightarrow> unit + id_range list \<Rightarrow> id_range list" where
  "ranges_expect rs r = (case r of Inl _ \<Rightarrow> rs | Inr rs' \<Rightarrow> rs')"

definition ranges_new :: "id_range list" where
  "ranges_new =
     (if 3 \<le> max_ranges then
        let a = ranges_expect [] (ranges_add [] range_lp_tokens);
            b = ranges_expect a (ranges_add a range_tokens)
        in ranges_expect b (ranges_add b range_foreign_assets)
      else [])"

definition ranges_append :: "id_range list \<Rightarrow> nat \<Rightarrow> dispatch_error + id_range list" where
  "ranges_append rs len =
     (case checked_add u128_max (ranges_end rs) 1 of
        None \<Rightarrow> Inl (Arithmetic arithmetic_error.Overflow)
      | Some start \<Rightarrow>
          (case checked_add u128_max start len of
             None \<Rightarrow> Inl (Arithmetic arithmetic_error.Overflow)
           | Some e \<Rightarrow>
               (case range_new start (Some e) of
                  Inl err \<Rightarrow> Inl err
                | Inr r \<Rightarrow>
                    (case ranges_add rs r of
                       Inl _ \<Rightarrow> Inl (Arithmetic arithmetic_error.Overflow)
                     | Inr rs' \<Rightarrow> Inr rs'))))"

definition ranges_increment :: "id_range list \<Rightarrow> range_id \<Rightarrow> dispatch_error + asset_id \<times> id_range list" where
  "ranges_increment rs i =
     (case ranges_get rs i of
        None \<Rightarrow> Inl (Other ''range not found'')
      | Some r \<Rightarrow>
          (case range_increment r of
             Inl e \<Rightarrow> Inl e
           | Inr (n, r') \<Rightarrow> Inr (n, rs[i := r'])))"

section \<open>The pallet\<close>

datatype factory_event = RangeCreated id_range

record currency_factory =
  AssetIdRanges :: "id_range list"
  factory_events :: "factory_event list"

definition factory_genesis :: currency_factory where
  "factory_genesis = \<lparr>AssetIdRanges = ranges_new, factory_events = []\<rparr>"

text \<open>\<open>length\<close> is a \<open>u64\<close>.\<close>

definition add_range ::
  "(raw_origin \<Rightarrow> bool) \<Rightarrow> raw_origin \<Rightarrow> nat \<Rightarrow> (currency_factory, unit) call" where
  "add_range add_origin orig len =
     thenM (ensure_origin add_origin orig)
       (bindM
         (try_mutate AssetIdRanges (\<lambda>rs s. s\<lparr>AssetIdRanges := rs\<rparr>)
           (\<lambda>rs. bindM (lift_result (ranges_append rs len)) (\<lambda>rs'. ret (ranges_last rs', rs'))))
         (\<lambda>created. case created of
            Some r \<Rightarrow> modifies (\<lambda>s. s\<lparr>factory_events := factory_events s @ [RangeCreated r]\<rparr>)
          | None \<Rightarrow> ret ()))"

definition create :: "range_id \<Rightarrow> (currency_factory, asset_id) call" where
  "create i s =
     (case ranges_increment (AssetIdRanges s) i of
        Inl e \<Rightarrow> (Inl e, s)
      | Inr (n, rs') \<Rightarrow> (Inr n, s\<lparr>AssetIdRanges := rs'\<rparr>))"

definition reserve_lp_token_id :: "(currency_factory, asset_id) call" where
  "reserve_lp_token_id = create LP_TOKENS"

text \<open>\<open>LocalAssets\<close>: the decimals of every asset, and the unit they give (\<open>10_u64.pow\<close>).\<close>

definition decimals :: "asset_id \<Rightarrow> dispatch_error + nat" where
  "decimals _ = Inr 12"

definition unit_amount :: "asset_id \<Rightarrow> dispatch_error + nat" where
  "unit_amount a = (case decimals a of Inl e \<Rightarrow> Inl e | Inr x \<Rightarrow> Inr (10 ^ x mod (u64_max + 1)))"

section \<open>Sequences of calls\<close>

text \<open>What the other pallets and the add origin can do to the factory, in any order.\<close>

datatype factory_call = CallAddRange "raw_origin \<Rightarrow> bool" raw_origin nat | CallCreate range_id

fun run_factory :: "factory_call list \<Rightarrow> currency_factory \<Rightarrow> asset_id list \<times> currency_factory" where
  "run_factory [] s = ([], s)"
| "run_factory (CallAddRange acc orig len # cs) s = run_factory cs (snd (add_range acc orig len s))"
| "run_factory (CallCreate i # cs) s =
     (case create i s of
        (Inl _, s') \<Rightarrow> run_factory cs s'
      | (Inr n, s') \<Rightarrow> (let (ns, t) = run_factory cs s' in (n # ns, t)))"

section \<open>The invariant of the ranges\<close>

text \<open>
  Every range is within its bounds, ranges follow each other without overlap, and there are no
  more of them than the vector can hold.
\<close>

definition range_before :: "id_range \<Rightarrow> id_range \<Rightarrow> bool" where
  "range_before r q \<longleftrightarrow> range_end r < range_current q"

definition ranges_ok :: "id_range list \<Rightarrow> bool" where
  "ranges_ok rs \<longleftrightarrow>
     length rs \<le> max_ranges \<and> sorted_wrt range_before rs \<and>
     list_all (\<lambda>r. range_current r \<le> range_end r \<and> range_end r \<le> u128_max) rs"

text \<open>The identifiers that are still to be handed out.\<close>

definition range_ids :: "id_range \<Rightarrow> asset_id set" where
  "range_ids r = {range_current r..<range_end r}"

definition available :: "id_range list \<Rightarrow> asset_id set" where
  "available rs = (\<Union>r\<in>set rs. range_ids r)"

lemmas range_defs = range_lp_tokens_def range_tokens_def range_foreign_assets_def

lemma ranges_new_eq: "ranges_new = [range_lp_tokens, range_tokens, range_foreign_assets]"
  by (simp add: ranges_new_def ranges_add_def ranges_last_def try_push_def ranges_expect_def
      max_ranges_def range_defs Let_def)

lemma ranges_ok_new: "ranges_ok ranges_new"
  by (simp add: ranges_new_eq ranges_ok_def range_defs range_before_def max_ranges_def u128_max_def)

lemma ranges_append_ok:
  "ranges_append rs len = Inr rs' \<longleftrightarrow>
     length rs < max_ranges \<and> ranges_end rs + 1 + len \<le> u128_max \<and>
     100000000 \<le> 2 * (ranges_end rs + 1) + len \<and>
     rs' = rs @ [\<lparr>range_current = ranges_end rs + 1, range_end = ranges_end rs + 1 + len\<rparr>]"
proof -
  have "saturating_add u128_max a b < 100000000 \<longleftrightarrow> a + b < 100000000" for a b
    by (auto simp: saturating_add_def u128_max_def)
  then show ?thesis
    by (auto simp: ranges_append_def checked_add_def range_new_def ranges_add_def ranges_last_def
        ranges_end_def try_push_def split: option.splits if_splits)
qed

lemma ranges_end_ge:
  assumes "sorted_wrt range_before rs" "\<forall>r\<in>set rs. range_current r \<le> range_end r" "r \<in> set rs"
  shows "range_end r \<le> ranges_end rs"
  using assms
proof (induction rs rule: rev_induct)
  case (snoc q qs)
  then show ?case
    by (auto simp: ranges_end_def ranges_last_def sorted_wrt_append range_before_def)
qed simp

lemma ranges_ok_append:
  assumes "ranges_ok rs" "ranges_append rs len = Inr rs'"
  shows "ranges_ok rs'"
  using assms ranges_end_ge [of rs]
  by (fastforce simp: ranges_ok_def ranges_append_ok sorted_wrt_append range_before_def
      list_all_iff less_Suc_eq_le)

lemma ranges_increment_ok:
  "ranges_increment rs i = Inr (n, rs') \<longleftrightarrow>
     i < length rs \<and> range_current (rs ! i) \<noteq> range_end (rs ! i) \<and> n = range_current (rs ! i) \<and>
     rs' = rs[i := (rs ! i)\<lparr>range_current := saturating_add u128_max n 1\<rparr>]"
  by (auto simp: ranges_increment_def ranges_get_def range_increment_def
      split: option.splits sum.splits if_splits)

lemma range_bounds:
  "ranges_ok rs \<Longrightarrow> r \<in> set rs \<Longrightarrow> range_current r \<le> range_end r \<and> range_end r \<le> u128_max"
  by (auto simp: ranges_ok_def list_all_iff)

lemma range_next:
  assumes "ranges_ok rs" "i < length rs" "range_current (rs ! i) \<noteq> range_end (rs ! i)"
  shows "saturating_add u128_max (range_current (rs ! i)) 1 = range_current (rs ! i) + 1"
    and "range_current (rs ! i) + 1 \<le> range_end (rs ! i)"
  using range_bounds [OF assms(1), of "rs ! i"] assms(2,3) by (auto simp: saturating_add_def)

lemma ranges_ok_increment:
  assumes "ranges_ok rs" "ranges_increment rs i = Inr (n, rs')"
  shows "ranges_ok rs'"
proof -
  have *: "i < length rs" "n = range_current (rs ! i)"
    "rs' = rs[i := (rs ! i)\<lparr>range_current := n + 1\<rparr>]" "n + 1 \<le> range_end (rs ! i)"
    using assms range_next [OF assms(1), of i] by (auto simp: ranges_increment_ok)
  have "sorted_wrt range_before rs'"
    using assms(1) * unfolding ranges_ok_def sorted_wrt_iff_nth_less
    by (auto simp: nth_list_update range_before_def) (metis less_SucI)
  moreover have "list_all (\<lambda>r. range_current r \<le> range_end r \<and> range_end r \<le> u128_max) rs'"
    using assms(1) * by (auto simp: ranges_ok_def list_all_length nth_list_update)
  ultimately show ?thesis
    using assms(1) * by (simp add: ranges_ok_def)
qed

lemma range_ids_disjoint:
  assumes "ranges_ok rs" "i < length rs" "j < length rs" "i \<noteq> j"
  shows "range_ids (rs ! i) \<inter> range_ids (rs ! j) = {}"
proof -
  have "range_before (rs ! i) (rs ! j) \<or> range_before (rs ! j) (rs ! i)"
    using assms by (cases "i < j") (auto simp: ranges_ok_def sorted_wrt_iff_nth_less)
  then show ?thesis
    by (auto simp: range_ids_def range_before_def)
qed

text \<open>A created identifier was available, and afterwards exactly that one is not.\<close>

lemma available_increment:
  assumes "ranges_ok rs" "ranges_increment rs i = Inr (n, rs')"
  shows "n \<in> available rs" and "available rs' = available rs - {n}"
proof -
  let ?r = "rs ! i"
  have *: "i < length rs" "n = range_current ?r" "rs' = rs[i := ?r\<lparr>range_current := n + 1\<rparr>]"
    "n + 1 \<le> range_end ?r"
    using assms range_next [OF assms(1), of i] by (auto simp: ranges_increment_ok)
  have nth: "available xs = (\<Union>k<length xs. range_ids (xs ! k))" for xs
    by (auto simp: available_def set_conv_nth)
  have n: "n \<in> range_ids ?r"
    using * by (auto simp: range_ids_def)
  then show "n \<in> available rs"
    using * by (auto simp: nth)
  have "n \<notin> range_ids (rs ! k)" if "k < length rs" "k \<noteq> i" for k
    using range_ids_disjoint [OF assms(1) *(1) that(1)] that n by auto
  moreover have "range_ids (rs' ! k) = (if k = i then range_ids ?r - {n} else range_ids (rs ! k))"
    if "k < length rs" for k
    using that * by (auto simp: range_ids_def nth_list_update)
  ultimately show "available rs' = available rs - {n}"
    using * by (auto simp: nth split: if_splits)
qed

lemma available_append:
  assumes "ranges_ok rs" "ranges_append rs len = Inr rs'"
  shows "available rs' = available rs \<union> {ranges_end rs + 1..<ranges_end rs + 1 + len}"
    and "ranges_end rs' = ranges_end rs + 1 + len"
  using assms by (auto simp: ranges_append_ok available_def range_ids_def ranges_end_def ranges_last_def)

section \<open>The interface for the pallets that create assets\<close>

text \<open>
  What a client of the factory relies on: identifiers that are spent, because they were handed
  out or were never in a range, are not handed out, and a created one is spent from then on.
\<close>

locale id_factory =
  fixes new_id :: "range_id \<Rightarrow> ('s, asset_id) call"
    and good :: "'s \<Rightarrow> bool"
    and spent :: "'s \<Rightarrow> asset_id set"
  assumes new_id_atomic: "atomic (new_id i)"
    and new_id_good: "good s \<Longrightarrow> new_id i s = (Inr n, t) \<Longrightarrow> good t"
    and new_id_fresh: "good s \<Longrightarrow> new_id i s = (Inr n, t) \<Longrightarrow> n \<notin> spent s"
    and new_id_spent: "good s \<Longrightarrow> new_id i s = (Inr n, t) \<Longrightarrow> spent t = insert n (spent s)"
begin

lemma new_id_error: "new_id i s = (Inl e, t) \<Longrightarrow> t = s"
  using new_id_atomic by (rule atomicD)

text \<open>A table of identifiers all of which are spent keeps distinct entries when a new one is added.\<close>

lemma new_id_distinct:
  assumes "good s" "new_id i s = (Inr n, t)" "set ids \<subseteq> spent s" "distinct ids"
  shows "distinct (n # ids)" and "set (n # ids) \<subseteq> spent t"
  using assms new_id_fresh new_id_spent by auto

lemma new_ids_distinct:
  assumes "good s" "new_id i s = (Inr n, t)" "set ids \<inter> spent t = {}" "distinct ids"
  shows "distinct (n # ids)" and "set (n # ids) \<inter> spent s = {}"
  using new_id_spent [OF assms(1,2)] new_id_fresh [OF assms(1,2)] assms(3,4) by auto

end

definition factory_ok :: "currency_factory \<Rightarrow> bool" where
  "factory_ok s \<longleftrightarrow> ranges_ok (AssetIdRanges s)"

definition spent_ids :: "currency_factory \<Rightarrow> asset_id set" where
  "spent_ids s = {n. n \<le> ranges_end (AssetIdRanges s)} - available (AssetIdRanges s)"

lemma create_ok:
  "create i s = (Inr n, t) \<longleftrightarrow>
     (\<exists>rs. ranges_increment (AssetIdRanges s) i = Inr (n, rs) \<and> t = s\<lparr>AssetIdRanges := rs\<rparr>)"
  by (auto simp: create_def split: sum.splits)

lemma create_atomic: "atomic (create i)"
  by (auto simp: atomic_def create_def split: sum.splits)

lemma ranges_end_increment:
  "ranges_increment rs i = Inr (n, rs') \<Longrightarrow> ranges_end rs' = ranges_end rs"
  by (auto simp: ranges_increment_ok ranges_end_def ranges_last_def last_conv_nth nth_list_update)

lemma available_le_end:
  assumes "ranges_ok rs" "n \<in> available rs"
  shows "n \<le> ranges_end rs"
proof -
  obtain r where r: "r \<in> set rs" "n < range_end r"
    using assms(2) by (auto simp: available_def range_ids_def)
  have "range_end r \<le> ranges_end rs"
    using assms(1) r(1) by (intro ranges_end_ge) (auto simp: ranges_ok_def list_all_iff)
  with r(2) show ?thesis by simp
qed

interpretation factory: id_factory create factory_ok spent_ids
proof
  fix i s n t
  show "atomic (create i)" by (rule create_atomic)
  assume ok: "factory_ok s" and run: "create i s = (Inr n, t)"
  then obtain rs where rs: "ranges_increment (AssetIdRanges s) i = Inr (n, rs)"
    and t: "t = s\<lparr>AssetIdRanges := rs\<rparr>"
    by (auto simp: create_ok)
  from ok have r: "ranges_ok (AssetIdRanges s)" by (simp add: factory_ok_def)
  note av = available_increment [OF r rs]
  show "factory_ok t" using ranges_ok_increment [OF r rs] t by (simp add: factory_ok_def)
  show "n \<notin> spent_ids s" using av(1) by (simp add: spent_ids_def)
  show "spent_ids t = insert n (spent_ids s)"
    using av available_le_end [OF r] ranges_end_increment [OF rs] t by (auto simp: spent_ids_def)
qed

text \<open>Adding a range keeps the invariant and what is spent.\<close>

lemma add_range_eq:
  "add_range acc orig len s =
     (if \<not> acc orig then (Inl BadOrigin, s)
      else case ranges_append (AssetIdRanges s) len of
             Inl e \<Rightarrow> (Inl e, s)
           | Inr rs \<Rightarrow> (Inr (), s\<lparr>AssetIdRanges := rs,
                                factory_events := factory_events s @ [RangeCreated (last rs)]\<rparr>))"
proof (cases "ranges_append (AssetIdRanges s) len")
  case (Inr rs)
  then have "rs \<noteq> []" by (auto simp: ranges_append_ok)
  with Inr show ?thesis
    by (simp add: add_range_def call_eval ranges_last_def)
qed (simp add: add_range_def call_eval)

lemma add_range_ok:
  assumes "factory_ok s"
  shows "factory_ok (snd (add_range acc orig len s))"
    and "spent_ids s \<subseteq> spent_ids (snd (add_range acc orig len s))"
  using assms ranges_ok_append available_append
  by (auto simp: add_range_eq factory_ok_def spent_ids_def split: sum.splits)

lemma run_factory_fresh:
  assumes "factory_ok s"
  shows "distinct (fst (run_factory cs s)) \<and> set (fst (run_factory cs s)) \<inter> spent_ids s = {} \<and>
    factory_ok (snd (run_factory cs s))"
  using assms
proof (induction cs s rule: run_factory.induct)
  case (2 acc orig len cs s)
  then show ?case
    using add_range_ok [OF 2(2), of acc orig len] by auto
next
  case (3 i cs s)
  obtain r t where run: "create i s = (r, t)" by fastforce
  show ?case
  proof (cases r)
    case (Inl e)
    with 3 run factory.new_id_error [of i s e t] show ?thesis by auto
  next
    case (Inr n)
    with 3 run have IH: "distinct (fst (run_factory cs t))"
        "set (fst (run_factory cs t)) \<inter> spent_ids t = {}" "factory_ok (snd (run_factory cs t))"
      using factory.new_id_good by auto
    show ?thesis
      using factory.new_ids_distinct [OF 3(3) run [unfolded Inr] IH(2,1)] IH(3) run Inr
      by (auto simp: split_beta)
  qed
qed auto

section \<open>Properties\<close>

text \<open>
  C7. Whatever sequence of \<open>create\<close> and \<open>add_range\<close> calls runs from genesis, the identifiers
  handed out are pairwise distinct and the ranges stay within their bounds, ordered and disjoint.
\<close>

theorem created_ids_distinct:
  "distinct (fst (run_factory cs factory_genesis)) \<and>
   ranges_ok (AssetIdRanges (snd (run_factory cs factory_genesis)))"
  using run_factory_fresh [of factory_genesis cs] ranges_ok_new
  by (simp add: factory_ok_def factory_genesis_def)

text \<open>
  \<open>add_range\<close> on every branch: an origin that is not the add origin, an identifier space
  that is used up and a full vector are errors that leave storage unchanged; otherwise one range
  of the given length is appended right after the last one and announced.
\<close>

theorem add_range_branches:
  "add_range acc orig len s =
     (let start = ranges_end (AssetIdRanges s) + 1;
          r = \<lparr>range_current = start, range_end = start + len\<rparr>
      in if \<not> acc orig then (Inl BadOrigin, s)
         else if u128_max < start + len then (Inl (Arithmetic arithmetic_error.Overflow), s)
         else if start + (start + len) < 100000000
         then (Inl (Other ''range does not have the minimum length''), s)
         else if max_ranges \<le> length (AssetIdRanges s)
         then (Inl (Arithmetic arithmetic_error.Overflow), s)
         else (Inr (), s\<lparr>AssetIdRanges := AssetIdRanges s @ [r],
                        factory_events := factory_events s @ [RangeCreated r]\<rparr>))"
proof -
  have sat: "saturating_add u128_max a b < 100000000 \<longleftrightarrow> a + b < 100000000" for a b
    by (auto simp: saturating_add_def u128_max_def)
  show ?thesis
    by (auto simp: add_range_eq ranges_append_def range_new_def sat ranges_add_def ranges_last_def
        try_push_def ranges_end_def checked_add_def Let_def split: option.splits if_splits)
qed

text \<open>
  The length check of \<open>Range::new\<close> adds the two ends where it means to take their difference:
  behind the ranges of genesis it never refuses, and a range of length zero is accepted although
  no identifier can be created in it.
\<close>

theorem empty_range_accepted:
  "\<exists>s. add_range (\<lambda>_. True) RootOrigin 0 factory_genesis = (Inr (), s) \<and>
     create 3 s = (Inl (Other ''range exhausted''), s)"
  by (simp add: add_range_eq ranges_append_def range_new_def saturating_add_def ranges_add_def
      ranges_last_def try_push_def ranges_end_def checked_add_def factory_genesis_def ranges_new_eq
      range_defs u128_max_def max_ranges_def create_def ranges_increment_def ranges_get_def
      range_increment_def)

end
