(* ===== verification/Governance_Registry.thy ===== *)
theory Governance_Registry
  imports Prelude
begin

text \<open>
  The governance registry (frame/governance-registry): for each asset, the origin that may mint
  and burn it. Only root changes it through the dispatchables; the assets pallet sets the entry
  of an asset it creates through the \<open>GovernanceRegistry\<close> trait.
\<close>

datatype signed_raw_origin = GovRoot | GovSigned account_id

definition from_signed_raw_origin :: "signed_raw_origin \<Rightarrow> raw_origin" where
  "from_signed_raw_origin this =
     (case this of GovRoot \<Rightarrow> RootOrigin | GovSigned x \<Rightarrow> SignedOrigin x)"

datatype registry_event =
    RegistrySet asset_id account_id
  | RegistryGrantRoot asset_id
  | RegistryRemove asset_id

record governance_registry =
  OriginsByAssetId :: "asset_id \<rightharpoonup> signed_raw_origin"
  registry_events :: "registry_event list"

definition registry_deposit_event :: "registry_event \<Rightarrow> (governance_registry, unit) call" where
  "registry_deposit_event e = modifies (\<lambda>s. s\<lparr>registry_events := registry_events s @ [e]\<rparr>)"

definition set_governance :: "asset_id \<Rightarrow> signed_raw_origin \<Rightarrow> (governance_registry, unit) call" where
  "set_governance k v = modifies (\<lambda>s. s\<lparr>OriginsByAssetId := (OriginsByAssetId s)(k \<mapsto> v)\<rparr>)"

definition registry_set ::
  "raw_origin \<Rightarrow> asset_id \<Rightarrow> account_id \<Rightarrow> (governance_registry, unit) call" where
  "registry_set orig a acc =
     thenM (ensure_root orig)
       (thenM (modifies (\<lambda>s. s\<lparr>OriginsByAssetId := (OriginsByAssetId s)(a \<mapsto> GovSigned acc)\<rparr>))
         (registry_deposit_event (RegistrySet a acc)))"

definition grant_root :: "raw_origin \<Rightarrow> asset_id \<Rightarrow> (governance_registry, unit) call" where
  "grant_root orig a =
     thenM (ensure_root orig)
       (thenM (modifies (\<lambda>s. s\<lparr>OriginsByAssetId := (OriginsByAssetId s)(a \<mapsto> GovRoot)\<rparr>))
         (registry_deposit_event (RegistryGrantRoot a)))"

definition registry_remove :: "raw_origin \<Rightarrow> asset_id \<Rightarrow> (governance_registry, unit) call" where
  "registry_remove orig a =
     thenM (ensure_root orig)
       (thenM (modifies (\<lambda>s. s\<lparr>OriginsByAssetId := (OriginsByAssetId s)(a := None)\<rparr>))
         (registry_deposit_event (RegistryRemove a)))"

definition registry_get :: "asset_id \<Rightarrow> governance_registry \<Rightarrow> dispatch_error + signed_raw_origin" where
  "registry_get a s =
     (case OriginsByAssetId s a of
        None \<Rightarrow> Inl (GovernanceRegistryErr NoneError)
      | Some v \<Rightarrow> Inr v)"

lemmas registry_defs =
  registry_deposit_event_def set_governance_def registry_set_def grant_root_def registry_remove_def

lemma registry_calls_atomic [atomic_intros]:
  "atomic (registry_set orig a acc)" "atomic (grant_root orig a)" "atomic (registry_remove orig a)"
  unfolding registry_defs
  by (intro atomic_thenM_keeps keeps_intros atomic_succeeds succeeds_intros)+

lemma registry_get_set [simp]:
  "registry_get b (snd (set_governance a v s)) = (if b = a then Inr v else registry_get b s)"
  by (simp add: registry_get_def set_governance_def modifies_def)

lemma registry_events_get [simp]: "registry_get b (s\<lparr>registry_events := es\<rparr>) = registry_get b s"
  by (simp add: registry_get_def)

end
