(* ===== verification/Assets.thy ===== *)
theory Assets
  imports Currency Currency_Factory Governance_Registry
begin

text \<open>
  The assets pallet (frame/assets): one multi-asset interface over the native currency and
  another multi-asset currency, and the dispatchables that transfer, create, mint and burn
  assets. An operation on the native asset goes to the native currency, every other one to the
  multi-asset currency. The pallet keeps no storage of its own; its state here is that of the
  components it is configured with. The two currencies are pallets outside the repository and
  are parameters.
\<close>

section \<open>Configuration and state\<close>

record ('n, 'm) assets_config =
  NativeAssetId :: asset_id
  NativeCurrency :: "'n fungible"
  MultiCurrency :: "'m fungibles"
  AdminOrigin :: "raw_origin \<Rightarrow> bool"
  Lookup :: "nat \<Rightarrow> account_id option"

record ('n, 'm) assets_state =
  currencies :: "'n \<times> 'm"
  assets_factory :: currency_factory
  assets_registry :: governance_registry

definition lookup :: "('n, 'm) assets_config \<Rightarrow> nat \<Rightarrow> ('s, account_id) call" where
  "lookup cfg src = ok_or (Lookup cfg src) CannotLookup"

section \<open>The currency interfaces\<close>

text \<open>A call of one of the two currencies.\<close>

definition on_native :: "('n, 'a) call \<Rightarrow> ('n \<times> 'm, 'a) call" where
  "on_native m = zoom fst (\<lambda>n (_, c). (n, c)) m"

definition on_multi :: "('m, 'a) call \<Rightarrow> ('n \<times> 'm, 'a) call" where
  "on_multi m = zoom snd (\<lambda>c (n, _). (n, c)) m"

text \<open>\<open>impl fungible::{Transfer, Inspect} for Pallet\<close>: the native currency alone.\<close>

definition native_transfer ::
  "('n, 'm) assets_config \<Rightarrow> account_id \<Rightarrow> account_id \<Rightarrow> balance \<Rightarrow> bool \<Rightarrow> ('n \<times> 'm, balance) call" where
  "native_transfer cfg src dst amount keep_alive =
     on_native (n_transfer (NativeCurrency cfg) src dst amount keep_alive)"

definition native_reducible_balance ::
  "('n, 'm) assets_config \<Rightarrow> account_id \<Rightarrow> bool \<Rightarrow> 'n \<times> 'm \<Rightarrow> balance" where
  "native_reducible_balance cfg who keep_alive c =
     n_reducible_balance (NativeCurrency cfg) who keep_alive (fst c)"

definition native_mint_into ::
  "('n, 'm) assets_config \<Rightarrow> account_id \<Rightarrow> balance \<Rightarrow> ('n \<times> 'm, unit) call" where
  "native_mint_into cfg who amount = on_native (n_mint_into (NativeCurrency cfg) who amount)"

definition native_burn_from ::
  "('n, 'm) assets_config \<Rightarrow> account_id \<Rightarrow> balance \<Rightarrow> ('n \<times> 'm, balance) call" where
  "native_burn_from cfg who amount = on_native (n_burn_from (NativeCurrency cfg) who amount)"

definition assets_fungible :: "('n, 'm) assets_config \<Rightarrow> ('n \<times> 'm) fungible" where
  "assets_fungible cfg =
     \<lparr>n_total_issuance = (\<lambda>c. n_total_issuance (NativeCurrency cfg) (fst c)),
      n_minimum_balance = n_minimum_balance (NativeCurrency cfg),
      n_balance = (\<lambda>who c. n_balance (NativeCurrency cfg) who (fst c)),
      n_reducible_balance = native_reducible_balance cfg,
      n_can_deposit = (\<lambda>who amount c. n_can_deposit (NativeCurrency cfg) who amount (fst c)),
      n_can_withdraw = (\<lambda>who amount c. n_can_withdraw (NativeCurrency cfg) who amount (fst c)),
      n_transfer = native_transfer cfg,
      n_mint_into = native_mint_into cfg,
      n_burn_from = native_burn_from cfg\<rparr>"

text \<open>\<open>impl fungibles::{Inspect, Transfer, Mutate} for Pallet\<close>.\<close>

definition total_issuance :: "('n, 'm) assets_config \<Rightarrow> asset_id \<Rightarrow> 'n \<times> 'm \<Rightarrow> balance" where
  "total_issuance cfg asset c =
     (if asset = NativeAssetId cfg then n_total_issuance (NativeCurrency cfg) (fst c)
      else f_total_issuance (MultiCurrency cfg) asset (snd c))"

definition minimum_balance :: "('n, 'm) assets_config \<Rightarrow> asset_id \<Rightarrow> balance" where
  "minimum_balance cfg asset =
     (if asset = NativeAssetId cfg then n_minimum_balance (NativeCurrency cfg)
      else f_minimum_balance (MultiCurrency cfg) asset)"

definition balance_of :: "('n, 'm) assets_config \<Rightarrow> asset_id \<Rightarrow> account_id \<Rightarrow> 'n \<times> 'm \<Rightarrow> balance" where
  "balance_of cfg asset who c =
     (if asset = NativeAssetId cfg then n_balance (NativeCurrency cfg) who (fst c)
      else f_balance (MultiCurrency cfg) asset who (snd c))"

definition reducible_balance ::
  "('n, 'm) assets_config \<Rightarrow> asset_id \<Rightarrow> account_id \<Rightarrow> bool \<Rightarrow> 'n \<times> 'm \<Rightarrow> balance" where
  "reducible_balance cfg asset who keep_alive c =
     (if asset = NativeAssetId cfg then n_reducible_balance (NativeCurrency cfg) who keep_alive (fst c)
      else f_reducible_balance (MultiCurrency cfg) asset who keep_alive (snd c))"

definition can_deposit ::
  "('n, 'm) assets_config \<Rightarrow> asset_id \<Rightarrow> account_id \<Rightarrow> balance \<Rightarrow> 'n \<times> 'm \<Rightarrow> bool" where
  "can_deposit cfg asset who amount c =
     (if asset = NativeAssetId cfg then n_can_deposit (NativeCurrency cfg) who amount (fst c)
      else f_can_deposit (MultiCurrency cfg) asset who amount (snd c))"

definition can_withdraw ::
  "('n, 'm) assets_config \<Rightarrow> asset_id \<Rightarrow> account_id \<Rightarrow> balance \<Rightarrow> 'n \<times> 'm \<Rightarrow> bool" where
  "can_withdraw cfg asset who amount c =
     (if asset = NativeAssetId cfg then n_can_withdraw (NativeCurrency cfg) who amount (fst c)
      else f_can_withdraw (MultiCurrency cfg) asset who amount (snd c))"

definition transfer ::
  "('n, 'm) assets_config \<Rightarrow> asset_id \<Rightarrow> account_id \<Rightarrow> account_id \<Rightarrow> balance \<Rightarrow> bool \<Rightarrow>
     ('n \<times> 'm, balance) call" where
  "transfer cfg asset src dst amount keep_alive =
     (if asset = NativeAssetId cfg
      then on_native (n_transfer (NativeCurrency cfg) src dst amount keep_alive)
      else on_multi (f_transfer (MultiCurrency cfg) asset src dst amount keep_alive))"

definition mint_into ::
  "('n, 'm) assets_config \<Rightarrow> asset_id \<Rightarrow> account_id \<Rightarrow> balance \<Rightarrow> ('n \<times> 'm, unit) call" where
  "mint_into cfg asset who amount =
     (if asset = NativeAssetId cfg then on_native (n_mint_into (NativeCurrency cfg) who amount)
      else on_multi (f_mint_into (MultiCurrency cfg) asset who amount))"

definition burn_from ::
  "('n, 'm) assets_config \<Rightarrow> asset_id \<Rightarrow> account_id \<Rightarrow> balance \<Rightarrow> ('n \<times> 'm, balance) call" where
  "burn_from cfg asset who amount =
     (if asset = NativeAssetId cfg then on_native (n_burn_from (NativeCurrency cfg) who amount)
      else on_multi (f_burn_from (MultiCurrency cfg) asset who amount))"

definition assets_fungibles :: "('n, 'm) assets_config \<Rightarrow> ('n \<times> 'm) fungibles" where
  "assets_fungibles cfg =
     \<lparr>f_total_issuance = total_issuance cfg,
      f_minimum_balance = minimum_balance cfg,
      f_balance = balance_of cfg,
      f_reducible_balance = reducible_balance cfg,
      f_can_deposit = can_deposit cfg,
      f_can_withdraw = can_withdraw cfg,
      f_transfer = transfer cfg,
      f_mint_into = mint_into cfg,
      f_burn_from = burn_from cfg\<rparr>"

section \<open>The dispatchables\<close>

definition with_currencies :: "('n \<times> 'm, 'a) call \<Rightarrow> (('n, 'm) assets_state, 'a) call" where
  "with_currencies m = zoom currencies (\<lambda>c s. s\<lparr>currencies := c\<rparr>) m"

definition with_factory :: "(currency_factory, 'a) call \<Rightarrow> (('n, 'm) assets_state, 'a) call" where
  "with_factory m = zoom assets_factory (\<lambda>c s. s\<lparr>assets_factory := c\<rparr>) m"

definition with_registry :: "(governance_registry, 'a) call \<Rightarrow> (('n, 'm) assets_state, 'a) call" where
  "with_registry m = zoom assets_registry (\<lambda>c s. s\<lparr>assets_registry := c\<rparr>) m"

definition ensure_admin_or_governance ::
  "('n, 'm) assets_config \<Rightarrow> raw_origin \<Rightarrow> asset_id \<Rightarrow> (('n, 'm) assets_state, unit) call" where
  "ensure_admin_or_governance cfg orig asset =
     (if AdminOrigin cfg orig then ret ()
      else case orig of
        SignedOrigin account \<Rightarrow>
          bindM (reads (\<lambda>s. registry_get asset (assets_registry s)))
            (\<lambda>g. case g of
               Inr GovRoot \<Rightarrow> ret ()
             | Inr (GovSigned acc) \<Rightarrow> if acc = account then ret () else fail (AssetsErr BadAssetOrigin)
             | Inl _ \<Rightarrow> fail (AssetsErr BadAssetOrigin))
      | RootOrigin \<Rightarrow> ret ()
      | NoneOrigin \<Rightarrow> fail (AssetsErr BadAssetOrigin))"

definition transfer_call ::
  "('n, 'm) assets_config \<Rightarrow> raw_origin \<Rightarrow> asset_id \<Rightarrow> nat \<Rightarrow> balance \<Rightarrow> bool \<Rightarrow>
     (('n, 'm) assets_state, unit) call" where
  "transfer_call cfg orig asset dest amount keep_alive =
     bindM (ensure_signed orig) (\<lambda>src.
     bindM (lookup cfg dest) (\<lambda>dst.
     thenM (with_currencies (transfer cfg asset src dst amount keep_alive))
       (ret ())))"

definition transfer_native_call ::
  "('n, 'm) assets_config \<Rightarrow> raw_origin \<Rightarrow> nat \<Rightarrow> balance \<Rightarrow> bool \<Rightarrow> (('n, 'm) assets_state, unit) call" where
  "transfer_native_call cfg orig dest amount keep_alive =
     bindM (ensure_signed orig) (\<lambda>src.
     bindM (lookup cfg dest) (\<lambda>dst.
     thenM (with_currencies (native_transfer cfg src dst amount keep_alive))
       (ret ())))"

definition force_transfer_call ::
  "('n, 'm) assets_config \<Rightarrow> raw_origin \<Rightarrow> asset_id \<Rightarrow> nat \<Rightarrow> nat \<Rightarrow> balance \<Rightarrow> bool \<Rightarrow>
     (('n, 'm) assets_state, unit) call" where
  "force_transfer_call cfg orig asset source dest amount keep_alive =
     thenM (ensure_root orig)
     (bindM (lookup cfg source) (\<lambda>src.
      bindM (lookup cfg dest) (\<lambda>dst.
      thenM (with_currencies (transfer cfg asset src dst amount keep_alive))
        (ret ()))))"

definition force_transfer_native_call ::
  "('n, 'm) assets_config \<Rightarrow> raw_origin \<Rightarrow> nat \<Rightarrow> nat \<Rightarrow> balance \<Rightarrow> bool \<Rightarrow>
     (('n, 'm) assets_state, unit) call" where
  "force_transfer_native_call cfg orig source dest amount keep_alive =
     thenM (ensure_root orig)
     (bindM (lookup cfg source) (\<lambda>src.
      bindM (lookup cfg dest) (\<lambda>dst.
      thenM (with_currencies (native_transfer cfg src dst amount keep_alive))
        (ret ()))))"

definition transfer_all_call ::
  "('n, 'm) assets_config \<Rightarrow> raw_origin \<Rightarrow> asset_id \<Rightarrow> nat \<Rightarrow> bool \<Rightarrow> (('n, 'm) assets_state, unit) call" where
  "transfer_all_call cfg orig asset dest keep_alive =
     bindM (ensure_signed orig) (\<lambda>transactor.
     bindM (reads (\<lambda>s. reducible_balance cfg asset transactor keep_alive (currencies s))) (\<lambda>amount.
     bindM (lookup cfg dest) (\<lambda>dst.
     thenM (with_currencies (transfer cfg asset transactor dst amount keep_alive))
       (ret ()))))"

definition transfer_all_native_call ::
  "('n, 'm) assets_config \<Rightarrow> raw_origin \<Rightarrow> nat \<Rightarrow> bool \<Rightarrow> (('n, 'm) assets_state, unit) call" where
  "transfer_all_native_call cfg orig dest keep_alive =
     bindM (ensure_signed orig) (\<lambda>transactor.
     bindM (reads (\<lambda>s. native_reducible_balance cfg transactor keep_alive (currencies s))) (\<lambda>amount.
     bindM (lookup cfg dest) (\<lambda>dst.
     thenM (with_currencies (native_transfer cfg transactor dst amount keep_alive))
       (ret ()))))"

definition mint_initialize ::
  "('n, 'm) assets_config \<Rightarrow> raw_origin \<Rightarrow> balance \<Rightarrow> nat \<Rightarrow> (('n, 'm) assets_state, unit) call" where
  "mint_initialize cfg orig amount dest =
     thenM (ensure_root orig)
     (bindM (with_factory (create TOKENS)) (\<lambda>i.
      bindM (lookup cfg dest) (\<lambda>dst.
      with_currencies (mint_into cfg i dst amount))))"

definition mint_initialize_with_governance ::
  "('n, 'm) assets_config \<Rightarrow> raw_origin \<Rightarrow> balance \<Rightarrow> nat \<Rightarrow> nat \<Rightarrow> (('n, 'm) assets_state, unit) call" where
  "mint_initialize_with_governance cfg orig amount governance_origin dest =
     thenM (ensure_root orig)
     (bindM (with_factory (create TOKENS)) (\<lambda>i.
      bindM (lookup cfg governance_origin) (\<lambda>gov.
      thenM (with_registry (set_governance i (GovSigned gov)))
      (bindM (lookup cfg dest) (\<lambda>dst.
       with_currencies (mint_into cfg i dst amount))))))"

definition mint_into_call ::
  "('n, 'm) assets_config \<Rightarrow> raw_origin \<Rightarrow> asset_id \<Rightarrow> nat \<Rightarrow> balance \<Rightarrow> (('n, 'm) assets_state, unit) call" where
  "mint_into_call cfg orig asset dest amount =
     thenM (ensure_admin_or_governance cfg orig asset)
     (bindM (lookup cfg dest) (\<lambda>dst.
      with_currencies (mint_into cfg asset dst amount)))"

definition burn_from_call ::
  "('n, 'm) assets_config \<Rightarrow> raw_origin \<Rightarrow> asset_id \<Rightarrow> nat \<Rightarrow> balance \<Rightarrow> (('n, 'm) assets_state, unit) call" where
  "burn_from_call cfg orig asset dest amount =
     thenM (ensure_admin_or_governance cfg orig asset)
     (bindM (lookup cfg dest) (\<lambda>dst.
      thenM (with_currencies (burn_from cfg asset dst amount))
        (ret ())))"

section \<open>The interface is a ledger\<close>

lemmas assets_ops =
  total_issuance_def minimum_balance_def balance_of_def transfer_def mint_into_def burn_from_def

lemma on_native_ok:
  "on_native m (n, c) = (Inr x, t) \<longleftrightarrow> (\<exists>n'. m n = (Inr x, n') \<and> t = (n', c))"
  by (auto simp: on_native_def ok_simps)

lemma on_multi_ok:
  "on_multi m (n, c) = (Inr x, t) \<longleftrightarrow> (\<exists>c'. m c = (Inr x, c') \<and> t = (n, c'))"
  by (auto simp: on_multi_def ok_simps)

lemma on_currency_atomic [atomic_intros]:
  "atomic m \<Longrightarrow> atomic (on_native m)" "atomic k \<Longrightarrow> atomic (on_multi k)"
  by (auto simp: on_native_def on_multi_def intro!: atomic_zoom)

text \<open>
  When both currencies keep their books, so does the interface that chooses between them.
\<close>

locale assets_currencies =
  native: fungible_ledger N + multi: fungibles_ledger M
  for N :: "'n fungible" and M :: "'m fungibles" +
  fixes cfg :: "('n, 'm) assets_config"
  assumes cfg_native: "NativeCurrency cfg = N" and cfg_multi: "MultiCurrency cfg = M"

sublocale assets_currencies \<subseteq> routed: fungibles_ledger "assets_fungibles cfg"
proof
  fix a x y n k c m c'
  show "atomic (f_transfer (assets_fungibles cfg) a x y n k)"
    by (simp add: assets_fungibles_def transfer_def cfg_native cfg_multi on_currency_atomic
        native.n_transfer_atomic multi.transfer_atomic)
  show "atomic (f_mint_into (assets_fungibles cfg) a x n)"
    by (simp add: assets_fungibles_def mint_into_def cfg_native cfg_multi on_currency_atomic
        native.n_mint_atomic multi.mint_atomic)
  show "atomic (f_burn_from (assets_fungibles cfg) a x n)"
    by (simp add: assets_fungibles_def burn_from_def cfg_native cfg_multi on_currency_atomic
        native.n_burn_atomic multi.burn_atomic)
qed (auto simp: assets_fungibles_def assets_ops cfg_native cfg_multi on_native_ok on_multi_ok
      balances_def issuance_def moved_def credited_def debited_def dust_free_def fun_eq_iff
      native.n_transfer_balances native.n_transfer_issuance native.n_mint_balances native.n_mint_issuance
      native.n_burn_balances native.n_burn_issuance multi.transfer_balance multi.transfer_total
      multi.mint_balance multi.mint_total multi.burn_balance multi.burn_total
      dest: native.n_transfer_enough native.n_burn_enough multi.transfer_enough multi.burn_enough
      split: if_splits prod.splits)

sublocale assets_currencies \<subseteq> routed_native: fungible_ledger "assets_fungible cfg"
proof
  fix x y n k
  show "atomic (n_transfer (assets_fungible cfg) x y n k)"
    by (simp add: assets_fungible_def native_transfer_def cfg_native on_currency_atomic
        native.n_transfer_atomic)
  show "atomic (n_mint_into (assets_fungible cfg) x n)"
    by (simp add: assets_fungible_def native_mint_into_def cfg_native on_currency_atomic
        native.n_mint_atomic)
  show "atomic (n_burn_from (assets_fungible cfg) x n)"
    by (simp add: assets_fungible_def native_burn_from_def cfg_native on_currency_atomic
        native.n_burn_atomic)
qed (auto simp: assets_fungible_def native_transfer_def native_mint_into_def native_burn_from_def
      cfg_native on_native_ok native.n_transfer_balances native.n_transfer_issuance
      native.n_mint_balances native.n_mint_issuance native.n_burn_balances native.n_burn_issuance
      dest: native.n_transfer_enough native.n_burn_enough)

context assets_currencies
begin

lemma routed_native_ledger: "fungible_ledger (assets_fungible cfg)"
  by (rule routed_native.fungible_ledger_axioms)

lemma routed_ledger: "fungibles_ledger (assets_fungibles cfg)"
  by (rule routed.fungibles_ledger_axioms)

end

lemma assets_routed:
  assumes "fungible_ledger (NativeCurrency cfg)" "fungibles_ledger (MultiCurrency cfg)"
  shows "fungibles_ledger (assets_fungibles cfg)"
  using assms
  by (intro assets_currencies.routed_ledger [of "NativeCurrency cfg" "MultiCurrency cfg"])
     (simp add: assets_currencies_def assets_currencies_axioms_def)

definition ledger_assets :: "(ledger, ledger) assets_config" where
  "ledger_assets =
     \<lparr>NativeAssetId = 1, NativeCurrency = ledger_fungible, MultiCurrency = ledger_fungibles,
      AdminOrigin = (\<lambda>orig. orig = SignedOrigin 9), Lookup = (\<lambda>n. if n < 100 then Some n else None)\<rparr>"

interpretation ledger_assets: assets_currencies ledger_fungible ledger_fungibles ledger_assets
  by unfold_locales (simp_all add: ledger_assets_def)

lemma ledger_assets_cfg [simp]:
  "NativeCurrency ledger_assets = ledger_fungible" "MultiCurrency ledger_assets = ledger_fungibles"
  by (simp_all add: ledger_assets_def)

lemma ledger_assets_minimum [simp]: "minimum_balance ledger_assets b = 0"
  by (simp add: minimum_balance_def ledger_assets_def ledger_fungible_def ledger_fungibles_def)

section \<open>All dispatchables\<close>

datatype assets_call =
    Call_transfer asset_id nat balance bool
  | Call_transfer_native nat balance bool
  | Call_force_transfer asset_id nat nat balance bool
  | Call_force_transfer_native nat nat balance bool
  | Call_transfer_all asset_id nat bool
  | Call_transfer_all_native nat bool
  | Call_mint_initialize balance nat
  | Call_mint_initialize_with_governance balance nat nat
  | Call_mint_into asset_id nat balance
  | Call_burn_from asset_id nat balance

fun assets_dispatch ::
  "('n, 'm) assets_config \<Rightarrow> raw_origin \<Rightarrow> assets_call \<Rightarrow> (('n, 'm) assets_state, unit) call" where
  "assets_dispatch cfg orig (Call_transfer a d n k) = transfer_call cfg orig a d n k"
| "assets_dispatch cfg orig (Call_transfer_native d n k) = transfer_native_call cfg orig d n k"
| "assets_dispatch cfg orig (Call_force_transfer a x d n k) = force_transfer_call cfg orig a x d n k"
| "assets_dispatch cfg orig (Call_force_transfer_native x d n k) =
     force_transfer_native_call cfg orig x d n k"
| "assets_dispatch cfg orig (Call_transfer_all a d k) = transfer_all_call cfg orig a d k"
| "assets_dispatch cfg orig (Call_transfer_all_native d k) = transfer_all_native_call cfg orig d k"
| "assets_dispatch cfg orig (Call_mint_initialize n d) = mint_initialize cfg orig n d"
| "assets_dispatch cfg orig (Call_mint_initialize_with_governance n g d) =
     mint_initialize_with_governance cfg orig n g d"
| "assets_dispatch cfg orig (Call_mint_into a d n) = mint_into_call cfg orig a d n"
| "assets_dispatch cfg orig (Call_burn_from a d n) = burn_from_call cfg orig a d n"

text \<open>Who may mint and burn an asset.\<close>

definition governs :: "('n, 'm) assets_config \<Rightarrow> raw_origin \<Rightarrow> asset_id \<Rightarrow> ('n, 'm) assets_state \<Rightarrow> bool" where
  "governs cfg orig asset s \<longleftrightarrow>
     AdminOrigin cfg orig \<or> orig = RootOrigin \<or>
     (\<exists>who. orig = SignedOrigin who \<and>
        OriginsByAssetId (assets_registry s) asset \<in> {Some GovRoot, Some (GovSigned who)})"

lemma ensure_admin_or_governance_eq:
  "ensure_admin_or_governance cfg orig asset s =
     (if governs cfg orig asset s then (Inr (), s) else (Inl (AssetsErr BadAssetOrigin), s))"
  by (auto simp: ensure_admin_or_governance_def governs_def call_eval registry_get_def
      split: raw_origin.splits option.splits sum.splits signed_raw_origin.splits)

lemma keeps_ensure_admin_or_governance [keeps_intros]:
  "keeps (ensure_admin_or_governance cfg orig asset)"
  by (simp add: keeps_def ensure_admin_or_governance_eq)

lemma keeps_lookup [keeps_intros]: "keeps (lookup cfg x)"
  by (simp add: lookup_def keeps_ok_or)

lemma lookup_ok [ok_simps]: "lookup cfg x s = (Inr y, t) \<longleftrightarrow> Lookup cfg x = Some y \<and> t = s"
  by (auto simp: lookup_def ok_simps)

lemma with_currencies_ok [ok_simps]:
  "with_currencies m s = (Inr y, t) \<longleftrightarrow>
     (\<exists>c. m (currencies s) = (Inr y, c) \<and> t = s\<lparr>currencies := c\<rparr>)"
  by (simp add: with_currencies_def ok_simps)

lemma with_currencies_atomic [atomic_intros]: "atomic m \<Longrightarrow> atomic (with_currencies m)"
  by (simp add: with_currencies_def atomic_zoom)

lemma native_transfer_eq: "native_transfer cfg = transfer cfg (NativeAssetId cfg)"
  by (simp add: native_transfer_def transfer_def fun_eq_iff)

lemma assets_fungibles_simps [simp]:
  "f_transfer (assets_fungibles cfg) = transfer cfg" "f_mint_into (assets_fungibles cfg) = mint_into cfg"
  "f_burn_from (assets_fungibles cfg) = burn_from cfg" "f_balance (assets_fungibles cfg) = balance_of cfg"
  "f_total_issuance (assets_fungibles cfg) = total_issuance cfg"
  "f_minimum_balance (assets_fungibles cfg) = minimum_balance cfg"
  by (simp_all add: assets_fungibles_def)

text \<open>What a signed transfer does, on success and on failure, for an asset without dust.\<close>

definition only_paid_by :: "('n, 'm) assets_config \<Rightarrow> account_id \<Rightarrow> 'n \<times> 'm \<Rightarrow> 'n \<times> 'm \<Rightarrow> asset_id \<Rightarrow> bool" where
  "only_paid_by cfg who c d a \<longleftrightarrow>
     total_issuance cfg a d = total_issuance cfg a c \<and>
     (\<forall>z. z = who \<or> balance_of cfg a z c \<le> balance_of cfg a z d)"

lemma only_paid_by_refl: "only_paid_by cfg who c c a"
  by (simp add: only_paid_by_def)

locale routed_ledger = fungibles_ledger "assets_fungibles cfg" for cfg :: "('n, 'm) assets_config"
begin

lemma transfer_paid:
  assumes "transfer cfg a src dst n k c = (Inr m, d)" "\<And>b. minimum_balance cfg b \<le> 1"
  shows "only_paid_by cfg src c d b"
  using transfer_balance [of a src dst n k c m d] transfer_total [of a src dst n k c m d] assms
  by (auto simp: only_paid_by_def dust_free_def)

lemma mint_elsewhere:
  assumes "mint_into cfg b x n c = (Inr u, d)" "a \<noteq> b"
  shows "only_paid_by cfg who c d a"
  using mint_balance [of b x n c u d] mint_total [of b x n c u d] assms
  by (simp add: only_paid_by_def)

lemma burn_elsewhere:
  assumes "burn_from cfg b x n c = (Inr u, d)" "a \<noteq> b" "minimum_balance cfg b \<le> 1"
  shows "only_paid_by cfg who c d a"
  using burn_balance [of b x n c u d] burn_total [of b x n c u d] assms
  by (simp add: only_paid_by_def dust_free_def)

lemma currencies_atomic [atomic_intros]:
  "atomic (transfer cfg a src dst n k)" "atomic (mint_into cfg a src n)" "atomic (burn_from cfg a src n)"
  using transfer_atomic mint_atomic burn_atomic by auto

lemma mint_into_call_atomic: "atomic (mint_into_call cfg orig a d n)"
  unfolding mint_into_call_def
  by (intro atomic_thenM_keeps atomic_bindM_keeps keeps_intros with_currencies_atomic currencies_atomic)

lemma burn_from_call_atomic: "atomic (burn_from_call cfg orig a d n)"
  unfolding burn_from_call_def
  by (intro atomic_thenM_keeps atomic_bindM_keeps keeps_intros atomic_thenM_succeeds succeeds_ret
      with_currencies_atomic currencies_atomic)

lemma transfer_calls_atomic:
  "atomic (transfer_call cfg orig a d n k)" "atomic (transfer_native_call cfg orig d n k)"
  "atomic (force_transfer_call cfg orig a x d n k)" "atomic (force_transfer_native_call cfg orig x d n k)"
  "atomic (transfer_all_call cfg orig a d k)" "atomic (transfer_all_native_call cfg orig d k)"
  unfolding transfer_call_def transfer_native_call_def force_transfer_call_def
    force_transfer_native_call_def transfer_all_call_def transfer_all_native_call_def native_transfer_eq
  by (intro atomic_bindM_keeps atomic_thenM_keeps keeps_intros atomic_thenM_succeeds succeeds_ret
      with_currencies_atomic currencies_atomic)+

lemma signed_dispatch_atomic: "atomic (assets_dispatch cfg (SignedOrigin who) call)"
proof -
  have root: "thenM (ensure_root (SignedOrigin who)) m = fail BadOrigin" for m
    by (simp add: call_eval fun_eq_iff)
  show ?thesis
    by (cases call) (simp_all add: transfer_calls_atomic mint_into_call_atomic burn_from_call_atomic
        mint_initialize_def mint_initialize_with_governance_def root keeps_fail keeps_atomic)
qed

lemma mint_into_call_effect:
  assumes "mint_into_call cfg orig a dest n s = (Inr u, t)"
  shows "\<exists>dst. Lookup cfg dest = Some dst \<and> governs cfg orig a s \<and>
      t = s\<lparr>currencies := currencies t\<rparr> \<and>
      balances (assets_fungibles cfg) (currencies t) =
        credited a dst n (balances (assets_fungibles cfg) (currencies s)) \<and>
      total_issuance cfg a (currencies t) = total_issuance cfg a (currencies s) + n"
proof -
  obtain dst c where run: "mint_into cfg a dst n (currencies s) = (Inr u, c)"
    and "Lookup cfg dest = Some dst" "governs cfg orig a s" "t = s\<lparr>currencies := c\<rparr>"
    using assms by (auto simp: mint_into_call_def ok_simps ensure_admin_or_governance_eq
        split: if_splits)
  then show ?thesis
    using mint_balances [of a dst n "currencies s" u c] mint_total [of a dst n "currencies s" u c a]
    by auto
qed

lemma burn_from_call_effect:
  assumes "burn_from_call cfg orig a dest n s = (Inr u, t)" "minimum_balance cfg a \<le> 1"
  shows "\<exists>dst. Lookup cfg dest = Some dst \<and> governs cfg orig a s \<and>
      t = s\<lparr>currencies := currencies t\<rparr> \<and> n \<le> balance_of cfg a dst (currencies s) \<and>
      balances (assets_fungibles cfg) (currencies t) =
        debited a dst n (balances (assets_fungibles cfg) (currencies s)) \<and>
      total_issuance cfg a (currencies t) = total_issuance cfg a (currencies s) - n"
proof -
  obtain dst c m where run: "burn_from cfg a dst n (currencies s) = (Inr m, c)"
    and "Lookup cfg dest = Some dst" "governs cfg orig a s" "t = s\<lparr>currencies := c\<rparr>"
    using assms by (auto simp: burn_from_call_def ok_simps ensure_admin_or_governance_eq
        split: if_splits)
  then show ?thesis
    using burn_balances [of a dst n "currencies s" m c] burn_total [of a dst n "currencies s" m c a]
      burn_enough [of a dst n "currencies s" m c] assms(2)
    by (auto simp: dust_free_def)
qed

lemma mint_initialize_effect:
  assumes "mint_initialize cfg orig n dest s = (Inr u, t)" "factory_ok (assets_factory s)"
  shows "\<exists>i dst. Lookup cfg dest = Some dst \<and> orig = RootOrigin \<and>
      i \<notin> spent_ids (assets_factory s) \<and> i \<in> spent_ids (assets_factory t) \<and>
      factory_ok (assets_factory t) \<and> assets_registry t = assets_registry s \<and>
      balances (assets_fungibles cfg) (currencies t) =
        credited i dst n (balances (assets_fungibles cfg) (currencies s))"
proof -
  obtain i f dst c where *: "create TOKENS (assets_factory s) = (Inr i, f)"
    "mint_into cfg i dst n (currencies s) = (Inr u, c)" "Lookup cfg dest = Some dst"
    "orig = RootOrigin" "t = s\<lparr>assets_factory := f, currencies := c\<rparr>"
    using assms(1) by (auto simp: mint_initialize_def ok_simps with_factory_def)
  then show ?thesis
    using mint_balances [of i dst n "currencies s" u c] factory.new_id_fresh [OF assms(2) *(1)]
      factory.new_id_spent [OF assms(2) *(1)] factory.new_id_good [OF assms(2) *(1)]
    by auto
qed

text \<open>A dispatchable from a signed origin with no say over the asset.\<close>

lemma signed_dispatch_paid:
  assumes run: "assets_dispatch cfg (SignedOrigin who) call s = (Inr u, t)"
    and dust: "\<And>b. minimum_balance cfg b \<le> 1"
    and gov: "\<not> governs cfg (SignedOrigin who) a s"
  shows "only_paid_by cfg who (currencies s) (currencies t) a"
proof (cases call)
  case (Call_mint_into b d n)
  with run gov show ?thesis
    by (cases "a = b") (auto simp: mint_into_call_def ok_simps ensure_admin_or_governance_eq
        intro: mint_elsewhere split: if_splits)
next
  case (Call_burn_from b d n)
  with run gov show ?thesis
    by (cases "a = b") (auto simp: burn_from_call_def ok_simps ensure_admin_or_governance_eq
        intro: burn_elsewhere [OF _ _ dust] split: if_splits)
qed (use run in \<open>auto simp: transfer_call_def transfer_native_call_def
      transfer_all_call_def transfer_all_native_call_def force_transfer_call_def
      force_transfer_native_call_def mint_initialize_def mint_initialize_with_governance_def
      native_transfer_eq ok_simps intro: transfer_paid [OF _ dust]\<close>)

end

text \<open>A state of the assets pallet over two ledgers, for the witnesses.\<close>

definition assets_example :: "(ledger, ledger) assets_state" where
  "assets_example =
     \<lparr>currencies = (snd (ledger_mint 0 5 100 empty_ledger), snd (ledger_mint 7 5 40 empty_ledger)),
      assets_factory = factory_genesis,
      assets_registry = \<lparr>OriginsByAssetId = [7 \<mapsto> GovSigned 8], registry_events = []\<rparr>\<rparr>"

lemmas assets_eval =
  assets_example_def ledger_assets_def empty_ledger_def u128_max_def ledger_fungibles_def
  ledger_fungible_def ledger_transfer_def ledger_mint_def ledger_burn_def moved_def credited_def
  debited_def call_eval lookup_def with_currencies_def with_factory_def with_registry_def
  on_native_def on_multi_def assets_ops

section \<open>Properties\<close>

text \<open>
  C32. The multi-asset interface of the assets pallet keeps its books whenever the native and the
  multi-asset currency it routes to keep theirs: errors change nothing, transfers move, mints
  add and burns remove exactly the amount in the one asset they name.
\<close>

theorem assets_interface_ledger:
  assumes "fungible_ledger (NativeCurrency cfg)" "fungibles_ledger (MultiCurrency cfg)"
  shows "fungibles_ledger (assets_fungibles cfg)"
  using assms by (rule assets_routed)

theorem assets_interface_ledger_witness: "fungibles_ledger (assets_fungibles ledger_assets)"
  by (rule assets_interface_ledger)
     (simp_all add: ledger_N.fungible_ledger_axioms ledger_F.fungibles_ledger_axioms)

text \<open>
  C10. No dispatchable of the assets pallet, sent by a signed account that neither passes the
  admin check nor governs the asset, changes the issuance of the asset or takes any of it from
  another account.
\<close>

theorem signed_dispatch_safe:
  assumes "fungible_ledger (NativeCurrency cfg)" "fungibles_ledger (MultiCurrency cfg)"
    and "\<forall>b. minimum_balance cfg b \<le> 1"
    and "\<not> governs cfg (SignedOrigin who) a s"
    and "assets_dispatch cfg (SignedOrigin who) call s = (r, t)"
  shows "total_issuance cfg a (currencies t) = total_issuance cfg a (currencies s) \<and>
    (\<forall>z. z = who \<or> balance_of cfg a z (currencies s) \<le> balance_of cfg a z (currencies t))"
proof -
  have L: "routed_ledger cfg"
    using assms(1,2) by (simp add: routed_ledger_def assets_routed)
  show ?thesis
  proof (cases r)
    case (Inl e)
    then have "t = s"
      using assms(5) atomicD [OF routed_ledger.signed_dispatch_atomic [OF L]] by blast
    then show ?thesis by simp
  next
    case (Inr u)
    then show ?thesis
      using routed_ledger.signed_dispatch_paid [OF L] assms by (auto simp: only_paid_by_def)
  qed
qed

theorem signed_dispatch_safe_witness:
  "40 \<le> balance_of ledger_assets 7 5
     (currencies (snd (assets_dispatch ledger_assets (SignedOrigin 6) (Call_burn_from 7 5 30) assets_example)))"
proof -
  obtain r t where run:
    "assets_dispatch ledger_assets (SignedOrigin 6) (Call_burn_from 7 5 30) assets_example = (r, t)"
    by fastforce
  have held: "balance_of ledger_assets 7 5 (currencies assets_example) = 40"
    by (simp add: assets_eval)
  have "\<not> governs ledger_assets (SignedOrigin 6) 7 assets_example"
    by (simp add: governs_def ledger_assets_def assets_example_def)
  then have "40 \<le> balance_of ledger_assets 7 5 (currencies t)"
    using signed_dispatch_safe [OF _ _ _ _ run, of 7] ledger_N.fungible_ledger_axioms
      ledger_F.fungibles_ledger_axioms held
    by (auto dest: spec [of _ 5])
  then show ?thesis unfolding run by simp
qed

text \<open>
  \<open>mint_into\<close> and \<open>burn_from\<close> go through only for the admin origin, for root, or for a signed
  account when the registry names root or that account for the asset; the balance of the looked-up
  destination and the issuance of the asset change by exactly the amount, and nothing else does.
\<close>

theorem mint_and_burn_governed:
  assumes "fungible_ledger (NativeCurrency cfg)" "fungibles_ledger (MultiCurrency cfg)"
    and "minimum_balance cfg a \<le> 1"
  shows "(mint_into_call cfg orig a dest n s = (Inr (), t) \<longrightarrow>
      (\<exists>dst. Lookup cfg dest = Some dst \<and> governs cfg orig a s \<and>
        t = s\<lparr>currencies := currencies t\<rparr> \<and>
        balances (assets_fungibles cfg) (currencies t) =
          credited a dst n (balances (assets_fungibles cfg) (currencies s)) \<and>
        total_issuance cfg a (currencies t) = total_issuance cfg a (currencies s) + n)) \<and>
    (burn_from_call cfg orig a dest n s = (Inr (), t) \<longrightarrow>
      (\<exists>dst. Lookup cfg dest = Some dst \<and> governs cfg orig a s \<and>
        t = s\<lparr>currencies := currencies t\<rparr> \<and> n \<le> balance_of cfg a dst (currencies s) \<and>
        balances (assets_fungibles cfg) (currencies t) =
          debited a dst n (balances (assets_fungibles cfg) (currencies s)) \<and>
        total_issuance cfg a (currencies t) = total_issuance cfg a (currencies s) - n))"
proof -
  have L: "routed_ledger cfg"
    using assms(1,2) by (simp add: routed_ledger_def assets_routed)
  show ?thesis
    using routed_ledger.mint_into_call_effect [OF L] routed_ledger.burn_from_call_effect [OF L _ assms(3)]
    by blast
qed

theorem mint_and_burn_governed_witness:
  "\<exists>t dst. mint_into_call ledger_assets (SignedOrigin 8) 7 5 2 assets_example = (Inr (), t) \<and>
     Lookup ledger_assets 5 = Some dst \<and>
     total_issuance ledger_assets 7 (currencies t) = 42"
proof -
  obtain t where run: "mint_into_call ledger_assets (SignedOrigin 8) 7 5 2 assets_example = (Inr (), t)"
    by (simp add: mint_into_call_def bindM_def thenM_def ensure_admin_or_governance_eq governs_def assets_eval)
  have "total_issuance ledger_assets 7 (currencies assets_example) = 40"
    by (simp add: assets_eval)
  with run show ?thesis
    using mint_and_burn_governed [of ledger_assets 7 "SignedOrigin 8" 5 2 assets_example t]
      ledger_N.fungible_ledger_axioms ledger_F.fungibles_ledger_axioms
    by auto
qed

text \<open>
  \<open>mint_initialize\<close> is for root alone; the asset it mints has an identifier that the factory
  had not handed out before and will not hand out again, and the minted amount goes to the
  destination in that asset.
\<close>

theorem mint_initialize_fresh:
  assumes "fungible_ledger (NativeCurrency cfg)" "fungibles_ledger (MultiCurrency cfg)"
    and "factory_ok (assets_factory s)"
    and "mint_initialize cfg orig n dest s = (Inr (), t)"
  shows "\<exists>i dst. Lookup cfg dest = Some dst \<and> orig = RootOrigin \<and>
      i \<notin> spent_ids (assets_factory s) \<and> i \<in> spent_ids (assets_factory t) \<and>
      factory_ok (assets_factory t) \<and> assets_registry t = assets_registry s \<and>
      balances (assets_fungibles cfg) (currencies t) =
        credited i dst n (balances (assets_fungibles cfg) (currencies s))"
  using assms by (intro routed_ledger.mint_initialize_effect) (simp_all add: routed_ledger_def assets_routed)

theorem mint_initialize_fresh_witness:
  "\<exists>t i. mint_initialize ledger_assets RootOrigin 12 5 assets_example = (Inr (), t) \<and>
     i \<in> spent_ids (assets_factory t)"
proof -
  obtain t where run: "mint_initialize ledger_assets RootOrigin 12 5 assets_example = (Inr (), t)"
    by (simp add: mint_initialize_def TOKENS_def create_def ranges_increment_def ranges_get_def
        range_increment_def factory_genesis_def ranges_new_eq range_defs saturating_add_def assets_eval)
  have "factory_ok (assets_factory assets_example)"
    by (simp add: factory_ok_def assets_example_def factory_genesis_def ranges_ok_new)
  with run show ?thesis
    using mint_initialize_fresh [of ledger_assets assets_example RootOrigin 12 5 t]
      ledger_N.fungible_ledger_axioms ledger_F.fungibles_ledger_axioms
    by auto
qed

section \<open>What the origin check lets through\<close>

text \<open>
  \<open>ensure_admin_or_governance\<close> looks at the origin registered for the asset before it looks at
  the caller: once root has registered itself with \<open>grant_root\<close>, every signed account passes.
  Here account \<open>6\<close> burns what account \<open>5\<close> holds of asset \<open>7\<close>.
\<close>

lemma root_governed_asset_open_to_all:
  "\<exists>s t. with_registry (grant_root RootOrigin 7) assets_example = (Inr (), s) \<and>
     assets_dispatch ledger_assets (SignedOrigin 6) (Call_burn_from 7 5 30) s = (Inr (), t) \<and>
     balance_of ledger_assets 7 5 (currencies s) = 40 \<and> balance_of ledger_assets 7 5 (currencies t) = 10"
  by (simp add: grant_root_def burn_from_call_def ensure_admin_or_governance_def registry_get_def
      registry_deposit_event_def assets_eval)

end
