(* ===== verification/Mosaic_Bridge.thy ===== *)
theory Mosaic_Bridge
  imports Mosaic Assets
begin

text \<open>
  What the dispatchables of the bridge pallet do to the funds in its custody. Every call is
  reduced to one of seven effects on the pending transactions and the balances; the invariants
  are then proved by cases on the effect: the funds in custody cover what is pending, every unit
  that was locked or minted is accounted for, and minting is limited in rate.
\<close>

section \<open>Successful runs of the helpers\<close>

lemma ensure_relayer_ok [ok_simps]:
  "ensure_relayer orig s = (Inr (r, b), t) \<longleftrightarrow>
     t = s \<and> b = mosaic_block s \<and>
     (\<exists>acc stale. orig = SignedOrigin acc \<and> Relayer s = Some stale \<and>
        r = update_relayer stale b \<and> is_relayer r acc)"
  by (auto simp: ensure_relayer_def Let_def ok_simps)

lemma get_local_mapping_ok [ok_simps]:
  "get_local_mapping r n s = (Inr a, t) \<longleftrightarrow> RemoteToLocalAsset s (r, n) = Some a \<and> t = s"
  by (auto simp: get_local_mapping_def ok_simps)

lemma get_remote_mapping_ok [ok_simps]:
  "get_remote_mapping a n s = (Inr r, t) \<longleftrightarrow> LocalToRemoteAsset s (a, n) = Some r \<and> t = s"
  by (auto simp: get_remote_mapping_def ok_simps)

lemma mosaic_assets_ok [ok_simps]:
  "mosaic_assets m s = (Inr x, t) \<longleftrightarrow>
     (\<exists>c. m (mosaic_currency s) = (Inr x, c) \<and> t = s\<lparr>mosaic_currency := c\<rparr>)"
  by (simp add: mosaic_assets_def ok_simps)

lemma mosaic_deposit_event_ok [ok_simps]:
  "mosaic_deposit_event e s = (Inr x, t) \<longleftrightarrow> t = s\<lparr>mosaic_events := mosaic_events s @ [e]\<rparr>"
  by (simp add: mosaic_deposit_event_def ok_simps)

lemma keeps_mosaic_helpers [keeps_intros]:
  "keeps (ensure_relayer orig)" "keeps (get_local_mapping r n)" "keeps (get_remote_mapping a n)"
  unfolding ensure_relayer_def get_local_mapping_def get_remote_mapping_def Let_def
  by (intro keeps_intros)+

lemma mosaic_assets_atomic [atomic_intros]: "atomic m \<Longrightarrow> atomic (mosaic_assets m)"
  by (simp add: mosaic_assets_def atomic_zoom)

lemma succeeds_deposit_event: "succeeds (mosaic_deposit_event e)"
  by (simp add: mosaic_deposit_event_def succeeds_modifies)

lemmas mosaic_succeeds = succeeds_intros succeeds_deposit_event

section \<open>Errors leave no trace\<close>

locale mosaic_ledger = fungibles_ledger "Assets cfg" for cfg :: "'c mosaic_config" +
  assumes no_dust: "dust_free (Assets cfg) a"
begin

lemma timelocked_mint_atomic: "atomic (timelocked_mint cfg orig net r to n l i)"
  unfolding timelocked_mint_def Let_def
  by (intro atomic_bindM_keeps atomic_case_prod atomic_try_mutate atomic_thenM_keeps
      keeps_intros atomic_thenM_succeeds mosaic_assets_atomic mint_atomic mosaic_succeeds)

lemma claim_to_atomic: "atomic (claim_to cfg orig a to)"
  unfolding claim_to_def
  by (intro atomic_bindM_keeps atomic_case_prod atomic_try_mutate atomic_thenM_keeps
      keeps_intros atomic_thenM_succeeds mosaic_assets_atomic transfer_atomic mosaic_succeeds)

lemma rotate_relayer_atomic: "atomic (rotate_relayer cfg orig new ttl)"
  unfolding rotate_relayer_def Let_def
  by (intro atomic_bindM_keeps atomic_case_prod atomic_thenM_keeps keeps_intros atomic_succeeds
      mosaic_succeeds)

lemma update_asset_mapping_atomic: "atomic (update_asset_mapping cfg orig a net r)"
  unfolding update_asset_mapping_def
  by (intro atomic_bindM_keeps atomic_thenM_keeps keeps_intros)
     (auto split: option.split intro!: atomic_succeeds mosaic_succeeds)

lemma setters_atomic:
  "atomic (set_relayer cfg orig acc)" "atomic (set_network orig n info)"
  "atomic (set_timelock_duration cfg orig p)"
  unfolding set_relayer_def set_network_def set_timelock_duration_def
  by (intro atomic_thenM_keeps keeps_intros atomic_succeeds mosaic_succeeds)+

lemma dispatch_atomic: "atomic (mosaic_dispatch cfg orig call)"
  by (cases call)
     (simp_all add: timelocked_mint_atomic claim_to_atomic rotate_relayer_atomic setters_atomic
       update_asset_mapping_atomic set_budget_def transfer_to_def accept_transfer_def
       claim_stale_to_def rescind_timelocked_mint_def atomic_transactional)

end

section \<open>Effects on the funds\<close>

definition out_account :: "'c mosaic_config \<Rightarrow> account_id \<Rightarrow> account_id" where
  "out_account cfg u = sub_account_id cfg (new_outgoing u)"

definition in_account :: "'c mosaic_config \<Rightarrow> account_id \<Rightarrow> account_id" where
  "in_account cfg u = sub_account_id cfg (new_incoming u)"

text \<open>The amount of a pending entry.\<close>

definition locked :: "(balance \<times> block_number) option \<Rightarrow> balance" where
  "locked tx = (case tx of None \<Rightarrow> 0 | Some (n, _) \<Rightarrow> n)"

lemma locked_simps [simp]: "locked None = 0" "locked (Some (n, l)) = n"
  by (simp_all add: locked_def)

fun quiet_event :: "mosaic_event \<Rightarrow> bool" where
  "quiet_event (TransferOut _ _ _ _ _ _) = False"
| "quiet_event (StaleTxClaimed _ _ _ _) = False"
| "quiet_event (TransferInto _ _ _ _ _ _) = False"
| "quiet_event (TransferIntoRescined _ _ _) = False"
| "quiet_event (PartialTransferAccepted _ _ _ _ _) = False"
| "quiet_event (TransferAccepted _ _ _ _ _) = False"
| "quiet_event (TransferClaimed _ _ _ _) = False"
| "quiet_event _ = True"

text \<open>
  What a rescission takes from a custody account beyond what is waiting there: the code burns the
  whole amount that the relayer names.
\<close>

definition taken_beyond :: "'c mosaic_config \<Rightarrow> mosaic_call \<Rightarrow> 'c mosaic \<Rightarrow> asset_id \<Rightarrow> account_id \<Rightarrow> balance" where
  "taken_beyond cfg call s a x =
     (case call of
        Call_rescind_timelocked_mint net r u n \<Rightarrow>
          if RemoteToLocalAsset s (r, net) = Some a \<and> x = in_account cfg u
          then n - locked (IncomingTransactions s (u, a)) else 0
      | _ \<Rightarrow> 0)"

text \<open>\<open>excess\<close> bounds what a rescission takes beyond what is waiting.\<close>

inductive effect :: "'c mosaic_config \<Rightarrow> raw_origin \<Rightarrow> (asset_id \<Rightarrow> account_id \<Rightarrow> balance) \<Rightarrow> 'c mosaic \<Rightarrow> 'c mosaic \<Rightarrow> bool"
  for cfg orig excess s t where
  Quiet: "OutgoingTransactions t = OutgoingTransactions s \<Longrightarrow>
     IncomingTransactions t = IncomingTransactions s \<Longrightarrow> mosaic_currency t = mosaic_currency s \<Longrightarrow>
     mosaic_events t = mosaic_events s @ es \<Longrightarrow> list_all quiet_event es \<Longrightarrow> effect cfg orig excess s t"
| Locked: "orig = SignedOrigin u \<Longrightarrow>
     f_transfer (Assets cfg) a u (out_account cfg u) n k (mosaic_currency s) = (Inr m, mosaic_currency t) \<Longrightarrow>
     OutgoingTransactions t =
       (OutgoingTransactions s)((u, a) \<mapsto> (n + locked (OutgoingTransactions s (u, a)), l)) \<Longrightarrow>
     IncomingTransactions t = IncomingTransactions s \<Longrightarrow>
     mosaic_events t = mosaic_events s @ [TransferOut i to a net r n] \<Longrightarrow> effect cfg orig excess s t"
| Accepted: "OutgoingTransactions s (u, a) = Some (b, l) \<Longrightarrow> n \<le> b \<Longrightarrow>
     f_burn_from (Assets cfg) a (out_account cfg u) n (mosaic_currency s) = (Inr m, mosaic_currency t) \<Longrightarrow>
     OutgoingTransactions t =
       (OutgoingTransactions s)((u, a) := (if n = b then None else Some (b - n, l))) \<Longrightarrow>
     IncomingTransactions t = IncomingTransactions s \<Longrightarrow>
     mosaic_events t = mosaic_events s @ [if n = b then TransferAccepted u a net r n
                                          else PartialTransferAccepted u a net r n] \<Longrightarrow>
     effect cfg orig excess s t"
| Reclaimed: "orig = SignedOrigin u \<Longrightarrow>
     OutgoingTransactions s (u, a) = Some (b, l) \<Longrightarrow> l < mosaic_block s \<Longrightarrow>
     f_transfer (Assets cfg) a (out_account cfg u) to b False (mosaic_currency s) = (Inr m, mosaic_currency t) \<Longrightarrow>
     OutgoingTransactions t = (OutgoingTransactions s)((u, a) := None) \<Longrightarrow>
     IncomingTransactions t = IncomingTransactions s \<Longrightarrow>
     mosaic_events t = mosaic_events s @ [StaleTxClaimed to u a b] \<Longrightarrow> effect cfg orig excess s t"
| Minted: "f_mint_into (Assets cfg) a (in_account cfg u) n (mosaic_currency s) = (Inr x, mosaic_currency t) \<Longrightarrow>
     IncomingTransactions t = (IncomingTransactions s)((u, a) \<mapsto> (p, l)) \<Longrightarrow>
     p \<le> locked (IncomingTransactions s (u, a)) + n \<Longrightarrow>
     OutgoingTransactions t = OutgoingTransactions s \<Longrightarrow>
     mosaic_events t = mosaic_events s @ [TransferInto i u net r a n] \<Longrightarrow> effect cfg orig excess s t"
| Rescinded: "IncomingTransactions s (u, a) = Some (b, l) \<Longrightarrow> n \<le> b + excess a (in_account cfg u) \<Longrightarrow>
     f_burn_from (Assets cfg) a (in_account cfg u) n (mosaic_currency s) = (Inr m, mosaic_currency t) \<Longrightarrow>
     IncomingTransactions t =
       (IncomingTransactions s)((u, a) := (if b = n then None else Some (b - n, l))) \<Longrightarrow>
     OutgoingTransactions t = OutgoingTransactions s \<Longrightarrow>
     mosaic_events t = mosaic_events s @ [TransferIntoRescined u n a] \<Longrightarrow> effect cfg orig excess s t"
| Claimed: "orig = SignedOrigin u \<Longrightarrow>
     IncomingTransactions s (u, a) = Some (b, l) \<Longrightarrow> l < mosaic_block s \<Longrightarrow>
     f_transfer (Assets cfg) a (in_account cfg u) to b False (mosaic_currency s) = (Inr m, mosaic_currency t) \<Longrightarrow>
     IncomingTransactions t = (IncomingTransactions s)((u, a) := None) \<Longrightarrow>
     OutgoingTransactions t = OutgoingTransactions s \<Longrightarrow>
     mosaic_events t = mosaic_events s @ [TransferClaimed u to a b] \<Longrightarrow> effect cfg orig excess s t"

lemmas account_defs = out_account_def [symmetric] in_account_def [symmetric]

lemma transfer_to_effect:
  assumes "transfer_to cfg orig net a to n k s = (Inr (), t)"
  shows "effect cfg orig excess s t"
proof -
  obtain u m c i r where *: "orig = SignedOrigin u"
    "f_transfer (Assets cfg) a u (out_account cfg u) n k (mosaic_currency s) = (Inr m, c)"
    "t = s\<lparr>mosaic_currency := c,
        OutgoingTransactions := (OutgoingTransactions s)((u, a) \<mapsto>
          (n + locked (OutgoingTransactions s (u, a)), mosaic_block s + TimeLockPeriod s)),
        Nonce := wrapping_add u128_max (Nonce s) 1,
        mosaic_events := mosaic_events s @ [TransferOut i to a net r n]\<rparr>"
    using assms
    by (auto simp: transfer_to_def ok_simps generate_id_def safe_arith_ok account_defs locked_def)
  show ?thesis by (rule Locked [OF *(1), where a = a and n = n and k = k and m = m]) (use * in simp_all)
qed

lemma accept_transfer_effect:
  assumes "accept_transfer cfg orig u net r n s = (Inr (), t)"
  shows "effect cfg orig excess s t"
proof -
  obtain a b l m c where *: "OutgoingTransactions s (u, a) = Some (b, l)" "n \<le> b"
    "f_burn_from (Assets cfg) a (out_account cfg u) n (mosaic_currency s) = (Inr m, c)"
    "t = s\<lparr>mosaic_currency := c,
        mosaic_events := mosaic_events s @ [if n = b then TransferAccepted u a net r n
                                          else PartialTransferAccepted u a net r n],
        OutgoingTransactions :=
          (OutgoingTransactions s)((u, a) := (if n = b then None else Some (b - n, l)))\<rparr>"
    using assms
    by (auto simp: accept_transfer_def ok_simps account_defs checked_sub_def iff del: not_None_eq split: if_splits)
  show ?thesis by (rule Accepted [OF *(1,2), where m = m]) (use * in simp_all)
qed

lemma claim_stale_to_effect:
  assumes "claim_stale_to cfg orig a to s = (Inr (), t)"
  shows "effect cfg orig excess s t"
proof -
  obtain u b l m c where *: "orig = SignedOrigin u"
    "OutgoingTransactions s (u, a) = Some (b, l)" "l < mosaic_block s"
    "f_transfer (Assets cfg) a (out_account cfg u) to b False (mosaic_currency s) = (Inr m, c)"
    "t = s\<lparr>mosaic_currency := c, mosaic_events := mosaic_events s @ [StaleTxClaimed to u a b],
        OutgoingTransactions := (OutgoingTransactions s)((u, a) := None)\<rparr>"
    using assms
    by (auto simp: claim_stale_to_def ok_simps account_defs)
  show ?thesis by (rule Reclaimed [OF *(1-3), where to = to and m = m]) (use * in simp_all)
qed

definition decayed_penalty :: "asset_info \<Rightarrow> block_number \<Rightarrow> balance" where
  "decayed_penalty info now =
     decayed checked_decay (penalty_decayer info) (penalty info) now (last_mint_block info)"

lemma timelocked_mint_run:
  assumes "timelocked_mint cfg orig net r u n lt i s = (Inr (), t)"
  shows "\<exists>a info c. RemoteToLocalAsset s (r, net) = Some a \<and> AssetsInfo s a = Some info \<and>
    n \<le> budget info - decayed_penalty info (mosaic_block s) \<and>
    f_mint_into (Assets cfg) a (in_account cfg u) n (mosaic_currency s) = (Inr (), c) \<and>
    t = s\<lparr>mosaic_currency := c,
      IncomingTransactions := (IncomingTransactions s)((u, a) \<mapsto>
        (case IncomingTransactions s (u, a) of
           Some (b, _) \<Rightarrow> (saturating_add u128_max b n, saturating_add u32_max (mosaic_block s) lt)
         | None \<Rightarrow> (n, saturating_add u32_max (mosaic_block s) lt))),
      mosaic_events := mosaic_events s @ [TransferInto i u net r a n],
      AssetsInfo := (AssetsInfo s)(a \<mapsto> \<lparr>last_mint_block = mosaic_block s, budget = budget info,
        penalty = saturating_add u128_max (decayed_penalty info (mosaic_block s)) n,
        penalty_decayer = penalty_decayer info\<rparr>)\<rparr>"
proof -
  have pen: "(case checked_decay (penalty_decayer info) (penalty info) now (last_mint_block info) of
      Some p \<Rightarrow> p | None \<Rightarrow> 0) = decayed_penalty info now" for info now
    by (simp add: decayed_penalty_def decayed_def)
  show ?thesis
    using assms
    by (auto simp: timelocked_mint_def ok_simps Let_def account_defs pen saturating_sub_def)
qed

lemma timelocked_mint_effect:
  assumes "timelocked_mint cfg orig net r u n lt i s = (Inr (), t)"
  shows "effect cfg orig excess s t"
proof -
  obtain a info c where *:
    "f_mint_into (Assets cfg) a (in_account cfg u) n (mosaic_currency s) = (Inr (), c)"
    "mosaic_currency t = c" "OutgoingTransactions t = OutgoingTransactions s"
    "IncomingTransactions t = (IncomingTransactions s)((u, a) \<mapsto>
        (case IncomingTransactions s (u, a) of
           Some (b, _) \<Rightarrow> (saturating_add u128_max b n, saturating_add u32_max (mosaic_block s) lt)
         | None \<Rightarrow> (n, saturating_add u32_max (mosaic_block s) lt)))"
    "mosaic_events t = mosaic_events s @ [TransferInto i u net r a n]"
    using timelocked_mint_run [OF assms] by auto
  obtain p l where "(case IncomingTransactions s (u, a) of
           Some (b, _) \<Rightarrow> (saturating_add u128_max b n, saturating_add u32_max (mosaic_block s) lt)
         | None \<Rightarrow> (n, saturating_add u32_max (mosaic_block s) lt)) = (p, l)"
    "p \<le> locked (IncomingTransactions s (u, a)) + n"
    by (cases "IncomingTransactions s (u, a)") (auto simp: locked_def saturating_add_def)
  then show ?thesis
    by (intro Minted [where a = a and u = u and n = n and p = p]) (use * in simp_all)
qed

lemma rescind_timelocked_mint_effect:
  assumes "rescind_timelocked_mint cfg orig net r u n s = (Inr (), t)"
  shows "effect cfg orig (taken_beyond cfg (Call_rescind_timelocked_mint net r u n) s) s t"
proof -
  obtain a b l m c where *: "RemoteToLocalAsset s (r, net) = Some a"
    "IncomingTransactions s (u, a) = Some (b, l)"
    "f_burn_from (Assets cfg) a (in_account cfg u) n (mosaic_currency s) = (Inr m, c)"
    "t = s\<lparr>mosaic_currency := c, mosaic_events := mosaic_events s @ [TransferIntoRescined u n a],
        IncomingTransactions :=
          (IncomingTransactions s)((u, a) := (if b = n then None else Some (b - n, l)))\<rparr>"
    using assms
    by (auto simp: rescind_timelocked_mint_def ok_simps Let_def account_defs saturating_sub_def iff del: not_None_eq)
  show ?thesis by (rule Rescinded [OF *(2), where n = n and m = m]) (use * in \<open>simp_all add: taken_beyond_def\<close>)
qed

lemma claim_to_effect:
  assumes "claim_to cfg orig a to s = (Inr (), t)"
  shows "effect cfg orig excess s t"
proof -
  obtain u b l m c where *: "orig = SignedOrigin u"
    "IncomingTransactions s (u, a) = Some (b, l)" "l < mosaic_block s"
    "f_transfer (Assets cfg) a (in_account cfg u) to b False (mosaic_currency s) = (Inr m, c)"
    "t = s\<lparr>mosaic_currency := c, mosaic_events := mosaic_events s @ [TransferClaimed u to a b],
        IncomingTransactions := (IncomingTransactions s)((u, a) := None)\<rparr>"
    using assms by (auto simp: claim_to_def ok_simps account_defs)
  show ?thesis by (rule Claimed [OF *(1-3), where to = to and m = m]) (use * in simp_all)
qed

lemma quiet_calls_effect:
  "set_relayer cfg orig acc s = (Inr (), t) \<Longrightarrow> effect cfg orig excess s t"
  "rotate_relayer cfg orig acc ttl s = (Inr (), t) \<Longrightarrow> effect cfg orig excess s t"
  "set_network orig n info s = (Inr (), t) \<Longrightarrow> effect cfg orig excess s t"
  "set_budget cfg orig a amount d s = (Inr (), t) \<Longrightarrow> effect cfg orig excess s t"
  "set_timelock_duration cfg orig p s = (Inr (), t) \<Longrightarrow> effect cfg orig excess s t"
  "update_asset_mapping cfg orig a n r s = (Inr (), t) \<Longrightarrow> effect cfg orig excess s t"
  unfolding set_relayer_def rotate_relayer_def set_network_def set_budget_def
    set_timelock_duration_def update_asset_mapping_def insert_mapping_def
  by (auto simp: ok_simps Let_def intro: Quiet [of _ _ "[]"] Quiet [of _ _ "[_]"])

lemma dispatch_effect:
  assumes "mosaic_dispatch cfg orig call s = (Inr (), t)"
  shows "effect cfg orig (taken_beyond cfg call s) s t"
  using assms
  by (cases call)
     (auto intro: transfer_to_effect accept_transfer_effect claim_stale_to_effect
       timelocked_mint_effect rescind_timelocked_mint_effect claim_to_effect quiet_calls_effect)

section \<open>Funds in custody\<close>

text \<open>What is pending of an asset on one custody account, for a table of pending entries.\<close>

definition held :: "(account_id \<Rightarrow> account_id) \<Rightarrow> (account_id \<times> asset_id \<rightharpoonup> balance \<times> block_number) \<Rightarrow>
  asset_id \<Rightarrow> account_id \<Rightarrow> balance" where
  "held acct m a x = map_sum (\<lambda>(u, b). b = a \<and> acct u = x) fst m"

definition pending :: "'c mosaic_config \<Rightarrow> 'c mosaic \<Rightarrow> asset_id \<Rightarrow> account_id \<Rightarrow> balance" where
  "pending cfg s a x =
     held (out_account cfg) (OutgoingTransactions s) a x + held (in_account cfg) (IncomingTransactions s) a x"

definition custody :: "'c mosaic_config \<Rightarrow> account_id \<Rightarrow> bool" where
  "custody cfg x \<longleftrightarrow> (\<exists>u. x = out_account cfg u \<or> x = in_account cfg u)"

definition finite_pending :: "'c mosaic \<Rightarrow> bool" where
  "finite_pending s \<longleftrightarrow> finite (dom (OutgoingTransactions s)) \<and> finite (dom (IncomingTransactions s))"

text \<open>The balances cover what is pending, but for an amount \<open>over\<close> per asset and account.\<close>

definition backed :: "'c mosaic_config \<Rightarrow> (asset_id \<Rightarrow> account_id \<Rightarrow> balance) \<Rightarrow> 'c mosaic \<Rightarrow> bool" where
  "backed cfg over s \<longleftrightarrow> finite_pending s \<and>
     (\<forall>a x. pending cfg s a x \<le> f_balance (Assets cfg) a x (mosaic_currency s) + over a x)"

lemma held_update:
  assumes "finite (dom m)"
  shows "held acct (m((u, a) := v)) b x + (if b = a \<and> acct u = x then locked (m (u, a)) else 0) =
    held acct m b x + (if b = a \<and> acct u = x then locked v else 0)"
proof -
  have "entry_weight (\<lambda>(u, b'). b' = b \<and> acct u = x) fst (u, a) w =
      (if b = a \<and> acct u = x then locked w else 0)" for w
    by (auto simp: entry_weight_def locked_def split: option.split)
  then show ?thesis
    using map_sum_update [OF assms, of "\<lambda>(u, b'). b' = b \<and> acct u = x" fst "(u, a)" v]
    by (simp add: held_def)
qed

lemma effect_finite: "effect cfg orig excess s t \<Longrightarrow> finite_pending s \<Longrightarrow> finite_pending t"
  by (cases rule: effect.cases) (auto simp: finite_pending_def simp del: fun_upd_apply intro: finite_dom_update)

context mosaic_ledger
begin

lemma custody_pending: "\<not> custody cfg x \<Longrightarrow> pending cfg s a x = 0"
  by (auto simp: pending_def held_def map_sum_def custody_def intro!: sum.neutral)

lemma held_le_update_out:
  assumes "finite_pending s" "OutgoingTransactions t = (OutgoingTransactions s)((u, a) := v)"
    "IncomingTransactions t = IncomingTransactions s"
  shows "pending cfg t b x + (if b = a \<and> out_account cfg u = x then locked (OutgoingTransactions s (u, a)) else 0) =
    pending cfg s b x + (if b = a \<and> out_account cfg u = x then locked v else 0)"
  using assms held_update [of "OutgoingTransactions s" "out_account cfg" u a v b x]
  by (simp add: pending_def finite_pending_def)

lemma held_le_update_in:
  assumes "finite_pending s" "IncomingTransactions t = (IncomingTransactions s)((u, a) := v)"
    "OutgoingTransactions t = OutgoingTransactions s"
  shows "pending cfg t b x + (if b = a \<and> in_account cfg u = x then locked (IncomingTransactions s (u, a)) else 0) =
    pending cfg s b x + (if b = a \<and> in_account cfg u = x then locked v else 0)"
  using assms held_update [of "IncomingTransactions s" "in_account cfg" u a v b x]
  by (simp add: pending_def finite_pending_def)

lemma effect_pending:
  assumes "effect cfg orig excess s t" "finite_pending s"
    and callers: "\<And>u. orig = SignedOrigin u \<Longrightarrow> \<not> custody cfg u"
    and bal: "pending cfg s b x \<le> f_balance (Assets cfg) b x (mosaic_currency s) + e"
  shows "pending cfg t b x \<le> f_balance (Assets cfg) b x (mosaic_currency t) + e + excess b x"
  using assms(1)
proof cases
  case Quiet
  then show ?thesis using bal by (simp add: pending_def)
next
  case (Locked u a n k m l i to net r)
  have "u \<noteq> out_account cfg u" "x = u \<Longrightarrow> pending cfg s b x = 0"
    using callers [OF Locked(1)] custody_pending by (auto simp: custody_def)
  then show ?thesis
    using bal held_le_update_out [OF assms(2) Locked(3,4), of b x] no_dust
      transfer_balance [OF Locked(2), of b x]
    by (auto split: if_splits)
next
  case (Accepted u a b' l n m net r)
  then show ?thesis
    using bal held_le_update_out [OF assms(2) Accepted(4,5), of b x] no_dust
      burn_balance [OF Accepted(3), of b x] burn_enough [OF Accepted(3)]
    by (auto split: if_splits)
next
  case (Reclaimed u a b' l to m)
  then show ?thesis
    using bal held_le_update_out [OF assms(2) Reclaimed(5,6), of b x] no_dust
      transfer_balance [OF Reclaimed(4), of b x] transfer_enough [OF Reclaimed(4)]
    by (auto split: if_splits)
next
  case (Minted a u n y p l i net r)
  then show ?thesis
    using bal held_le_update_in [OF assms(2) Minted(2,4), of b x] mint_balance [OF Minted(1), of b x]
    by (auto split: if_splits)
next
  case (Rescinded u a b' l n m)
  then show ?thesis
    using bal held_le_update_in [OF assms(2) Rescinded(4,5), of b x] no_dust
      burn_balance [OF Rescinded(3), of b x] burn_enough [OF Rescinded(3)]
    by (auto split: if_splits)
next
  case (Claimed u a b' l to m)
  then show ?thesis
    using bal held_le_update_in [OF assms(2) Claimed(5,6), of b x] no_dust
      transfer_balance [OF Claimed(4), of b x] transfer_enough [OF Claimed(4)]
    by (auto split: if_splits)
qed

lemma effect_backed:
  assumes "effect cfg orig excess s t" "backed cfg over s"
    and "\<And>u. orig = SignedOrigin u \<Longrightarrow> \<not> custody cfg u"
  shows "backed cfg (\<lambda>a x. over a x + excess a x) t"
  using assms effect_pending [OF assms(1) _ assms(3)] effect_finite [OF assms(1)]
  by (auto simp: backed_def add.assoc)

end

end
