(* ===== verification/Mosaic_Runs.thy ===== *)
theory Mosaic_Runs
  imports Mosaic_Bridge
begin

text \<open>
  Runs of the bridge: any sequence of its dispatchables, of blocks passing, and of changes to the
  currency made by the rest of the chain. The theory holds the properties of the bridge pallet.
\<close>

section \<open>Steps\<close>

text \<open>
  Nobody can sign for a custody account: it is derived from the pallet and has no key. The rest
  of the chain may change balances as it likes except that it takes nothing out of custody.
\<close>

datatype bridge_label = ByCall raw_origin mosaic_call | ByBlock | ByEnvironment

definition outsider :: "'c mosaic_config \<Rightarrow> raw_origin \<Rightarrow> bool" where
  "outsider cfg orig \<longleftrightarrow> (\<forall>u. orig = SignedOrigin u \<longrightarrow> \<not> custody cfg u)"

lemma outsider_root: "outsider cfg RootOrigin"
  by (simp add: outsider_def)

inductive bridge_step :: "'c mosaic_config \<Rightarrow> bridge_label \<Rightarrow> 'c mosaic \<Rightarrow> 'c mosaic \<Rightarrow> bool"
  for cfg where
  Step_Call: "outsider cfg orig \<Longrightarrow>
    mosaic_dispatch cfg orig call s = (r, t) \<Longrightarrow> bridge_step cfg (ByCall orig call) s t"
| Step_Block: "mosaic_block s \<le> b \<Longrightarrow> bridge_step cfg ByBlock s (s\<lparr>mosaic_block := b\<rparr>)"
| Step_Environment:
    "(\<And>a x. custody cfg x \<Longrightarrow>
       f_balance (Assets cfg) a x (mosaic_currency s) \<le> f_balance (Assets cfg) a x c) \<Longrightarrow>
     bridge_step cfg ByEnvironment s (s\<lparr>mosaic_currency := c\<rparr>)"

inductive_cases call_stepE: "bridge_step cfg (ByCall orig call) s t"
inductive_cases block_stepE: "bridge_step cfg ByBlock s t"
inductive_cases environment_stepE: "bridge_step cfg ByEnvironment s t"

definition bridge_reaches :: "'c mosaic_config \<Rightarrow> (bridge_label \<Rightarrow> bool) \<Rightarrow> 'c mosaic \<Rightarrow> 'c mosaic \<Rightarrow> bool" where
  "bridge_reaches cfg allowed = (\<lambda>s t. \<exists>l. allowed l \<and> bridge_step cfg l s t)\<^sup>*\<^sup>*"

lemma bridge_reaches_refl: "bridge_reaches cfg allowed s s"
  by (simp add: bridge_reaches_def)

lemma bridge_reaches_step:
  "bridge_reaches cfg allowed s t \<Longrightarrow> bridge_step cfg l t u \<Longrightarrow> allowed l \<Longrightarrow> bridge_reaches cfg allowed s u"
  unfolding bridge_reaches_def by (metis (mono_tags, lifting) rtranclp.rtrancl_into_rtrancl)

lemma bridge_reaches_induct [consumes 1, case_names Start Step]:
  assumes "bridge_reaches cfg allowed s t" "P s"
    and "\<And>t l u. bridge_reaches cfg allowed s t \<Longrightarrow> P t \<Longrightarrow> allowed l \<Longrightarrow> bridge_step cfg l t u \<Longrightarrow> P u"
  shows "P t"
  using assms(1) unfolding bridge_reaches_def
  by (induction rule: rtranclp_induct) (use assms(2,3) in \<open>auto simp: bridge_reaches_def\<close>)

section \<open>Accounts of the events\<close>

text \<open>What the events say was sent out, accepted or taken back, minted or claimed.\<close>

fun sent_out :: "asset_id \<Rightarrow> mosaic_event \<Rightarrow> balance" where
  "sent_out a (TransferOut _ _ b _ _ n) = (if b = a then n else 0)"
| "sent_out a _ = 0"

fun settled_out :: "asset_id \<Rightarrow> mosaic_event \<Rightarrow> balance" where
  "settled_out a (TransferAccepted _ b _ _ n) = (if b = a then n else 0)"
| "settled_out a (PartialTransferAccepted _ b _ _ n) = (if b = a then n else 0)"
| "settled_out a (StaleTxClaimed _ _ b n) = (if b = a then n else 0)"
| "settled_out a _ = 0"

fun minted_in :: "asset_id \<Rightarrow> mosaic_event \<Rightarrow> balance" where
  "minted_in a (TransferInto _ _ _ _ b n) = (if b = a then n else 0)"
| "minted_in a _ = 0"

fun claimed_in :: "asset_id \<Rightarrow> mosaic_event \<Rightarrow> balance" where
  "claimed_in a (TransferClaimed _ _ b n) = (if b = a then n else 0)"
| "claimed_in a _ = 0"

definition event_total :: "(mosaic_event \<Rightarrow> balance) \<Rightarrow> 'c mosaic \<Rightarrow> balance" where
  "event_total f s = sum_list (map f (mosaic_events s))"

definition waiting :: "(account_id \<times> asset_id \<rightharpoonup> balance \<times> block_number) \<Rightarrow> asset_id \<Rightarrow> balance" where
  "waiting m a = held (\<lambda>_. 0) m a 0"

definition accounted :: "'c mosaic \<Rightarrow> asset_id \<Rightarrow> bool" where
  "accounted s a \<longleftrightarrow>
     event_total (sent_out a) s = event_total (settled_out a) s + waiting (OutgoingTransactions s) a \<and>
     event_total (claimed_in a) s + waiting (IncomingTransactions s) a \<le> event_total (minted_in a) s"

lemma quiet_zero:
  "list_all quiet_event es \<Longrightarrow> sum_list (map (sent_out a) es) = 0"
  "list_all quiet_event es \<Longrightarrow> sum_list (map (settled_out a) es) = 0"
  "list_all quiet_event es \<Longrightarrow> sum_list (map (minted_in a) es) = 0"
  "list_all quiet_event es \<Longrightarrow> sum_list (map (claimed_in a) es) = 0"
  by (auto simp: list_all_iff sum_list_eq_0_iff elim!: quiet_event.elims)

lemma waiting_update:
  "finite (dom m) \<Longrightarrow> waiting (m((u, a) := v)) b + (if b = a then locked (m (u, a)) else 0) =
     waiting m b + (if b = a then locked v else 0)"
  using held_update [of m "\<lambda>_. 0" u a v b 0] by (simp add: waiting_def)

lemma effect_accounted:
  assumes "effect cfg orig excess s t" "finite_pending s" "accounted s b"
  shows "accounted t b"
  using assms(1)
proof cases
  case (Quiet es)
  then show ?thesis
    using assms(3) by (simp add: accounted_def event_total_def quiet_zero)
next
  case (Locked u a n k m l i to net r)
  then show ?thesis
    using assms(2,3) waiting_update [of "OutgoingTransactions s" u a "Some (n + locked (OutgoingTransactions s (u, a)), l)" b]
    by (auto simp: accounted_def event_total_def finite_pending_def simp del: fun_upd_apply)
next
  case (Accepted u a b' l n m net r)
  then show ?thesis
    using assms(2,3) waiting_update [of "OutgoingTransactions s" u a "if n = b' then None else Some (b' - n, l)" b]
    by (auto simp: accounted_def event_total_def finite_pending_def simp del: fun_upd_apply split: if_splits)
next
  case (Reclaimed u a b' l to m)
  then show ?thesis
    using assms(2,3) waiting_update [of "OutgoingTransactions s" u a None b]
    by (auto simp: accounted_def event_total_def finite_pending_def simp del: fun_upd_apply)
next
  case (Minted a u n y p l i net r)
  then show ?thesis
    using assms(2,3) waiting_update [of "IncomingTransactions s" u a "Some (p, l)" b]
    by (auto simp: accounted_def event_total_def finite_pending_def simp del: fun_upd_apply split: if_splits)
next
  case (Rescinded u a b' l n m)
  then show ?thesis
    using assms(2,3) waiting_update [of "IncomingTransactions s" u a "if b' = n then None else Some (b' - n, l)" b]
    by (auto simp: accounted_def event_total_def finite_pending_def simp del: fun_upd_apply split: if_splits)
next
  case (Claimed u a b' l to m)
  then show ?thesis
    using assms(2,3) waiting_update [of "IncomingTransactions s" u a None b]
    by (auto simp: accounted_def event_total_def finite_pending_def simp del: fun_upd_apply)
qed

section \<open>Invariants of runs\<close>

text \<open>
  A run from the genesis, with what rescissions have taken from each custody account beyond what
  was waiting there.
\<close>

definition step_beyond :: "'c mosaic_config \<Rightarrow> bridge_label \<Rightarrow> 'c mosaic \<Rightarrow> asset_id \<Rightarrow> account_id \<Rightarrow> balance" where
  "step_beyond cfg l s a x =
     (case l of
        ByCall orig call \<Rightarrow> if is_ok (mosaic_dispatch cfg orig call s) then taken_beyond cfg call s a x else 0
      | _ \<Rightarrow> 0)"

inductive bridge_run ::
  "'c mosaic_config \<Rightarrow> 'c \<Rightarrow> (asset_id \<Rightarrow> account_id \<Rightarrow> balance) \<Rightarrow> 'c mosaic \<Rightarrow> bool" for cfg c where
  run_start: "bridge_run cfg c (\<lambda>_ _. 0) (mosaic_genesis cfg c)"
| run_step: "bridge_run cfg c over s \<Longrightarrow> bridge_step cfg l s t \<Longrightarrow>
    bridge_run cfg c (\<lambda>a x. over a x + step_beyond cfg l s a x) t"

lemma reaches_run:
  assumes "bridge_reaches cfg allowed (mosaic_genesis cfg c) s"
  shows "\<exists>over. bridge_run cfg c over s"
  using assms by (induction rule: bridge_reaches_induct) (auto intro: bridge_run.intros)

definition bridge_ok :: "'c mosaic_config \<Rightarrow> (asset_id \<Rightarrow> account_id \<Rightarrow> balance) \<Rightarrow> 'c mosaic \<Rightarrow> bool" where
  "bridge_ok cfg over s \<longleftrightarrow> backed cfg over s \<and> (\<forall>a. accounted s a)"

lemma bridge_ok_genesis: "bridge_ok cfg over (mosaic_genesis cfg c)"
  by (simp add: bridge_ok_def backed_def finite_pending_def pending_def held_def accounted_def
      waiting_def event_total_def mosaic_genesis_def)

context mosaic_ledger
begin

lemma call_step_cases:
  assumes "bridge_step cfg (ByCall orig call) s t"
  shows "t = s \<or> (mosaic_dispatch cfg orig call s = (Inr (), t) \<and> effect cfg orig (taken_beyond cfg call s) s t)"
  using assms
proof (rule call_stepE)
  fix r
  assume run: "mosaic_dispatch cfg orig call s = (r, t)"
  show ?thesis
  proof (cases r)
    case (Inl e)
    with run show ?thesis using atomicD [OF dispatch_atomic] by blast
  next
    case (Inr u)
    with run show ?thesis using dispatch_effect [of cfg orig call s t] by simp
  qed
qed

lemma effect_bridge_ok:
  assumes "effect cfg orig excess s t" "bridge_ok cfg over s" "\<And>u. orig = SignedOrigin u \<Longrightarrow> \<not> custody cfg u"
  shows "bridge_ok cfg (\<lambda>a x. over a x + excess a x) t"
  using effect_backed [OF assms(1) _ assms(3), of over] effect_accounted [OF assms(1)] assms(2)
  by (auto simp: bridge_ok_def backed_def)

lemma bridge_ok_mono:
  assumes "bridge_ok cfg over s" "\<And>a x. over a x \<le> wide a x"
  shows "bridge_ok cfg wide s"
  using assms unfolding bridge_ok_def backed_def by (meson add_left_mono order_trans)

lemma step_bridge_ok:
  assumes "bridge_step cfg l s t" "bridge_ok cfg over s"
  shows "bridge_ok cfg (\<lambda>a x. over a x + step_beyond cfg l s a x) t"
proof (cases l)
  case (ByCall orig call)
  then have step: "bridge_step cfg (ByCall orig call) s t" using assms(1) by simp
  then have out: "\<And>u. orig = SignedOrigin u \<Longrightarrow> \<not> custody cfg u"
    by (auto simp: outsider_def elim: call_stepE)
  from call_step_cases [OF step] show ?thesis
  proof (elim disjE conjE)
    assume "t = s"
    then show ?thesis using bridge_ok_mono [OF assms(2)] by simp
  next
    assume run: "mosaic_dispatch cfg orig call s = (Inr (), t)" and eff: "effect cfg orig (taken_beyond cfg call s) s t"
    then have "step_beyond cfg l s = taken_beyond cfg call s"
      by (intro ext) (simp add: step_beyond_def ByCall is_ok_def)
    then show ?thesis using effect_bridge_ok [OF eff assms(2) out] by simp
  qed
next
  case ByBlock
  then show ?thesis
    using assms by (auto simp: bridge_ok_def backed_def finite_pending_def pending_def accounted_def
        event_total_def step_beyond_def elim!: block_stepE)
next
  case ByEnvironment
  then obtain c where t: "t = s\<lparr>mosaic_currency := c\<rparr>" and env:
    "\<And>a x. custody cfg x \<Longrightarrow> f_balance (Assets cfg) a x (mosaic_currency s) \<le> f_balance (Assets cfg) a x c"
    using assms(1) by (auto elim: environment_stepE)
  have "pending cfg t a x \<le> f_balance (Assets cfg) a x c + over a x" for a x
  proof (cases "custody cfg x")
    case True
    have "pending cfg t a x \<le> f_balance (Assets cfg) a x (mosaic_currency s) + over a x"
      using assms(2) by (simp add: t bridge_ok_def backed_def pending_def)
    then show ?thesis using env [OF True, of a] by simp
  qed (simp add: custody_pending)
  then show ?thesis
    using assms(2) t by (auto simp: bridge_ok_def backed_def finite_pending_def accounted_def event_total_def
        step_beyond_def ByEnvironment)
qed

lemma run_bridge_ok: "bridge_run cfg c over s \<Longrightarrow> bridge_ok cfg over s"
  by (induction rule: bridge_run.induct) (auto intro: bridge_ok_genesis step_bridge_ok)

end

text \<open>Only accounts for incoming funds are ever short.\<close>

lemma run_beyond_incoming: "bridge_run cfg c over s \<Longrightarrow> over a x \<noteq> 0 \<Longrightarrow> \<exists>u. x = in_account cfg u"
  by (induction rule: bridge_run.induct)
     (auto simp: step_beyond_def taken_beyond_def split: bridge_label.splits mosaic_call.splits if_splits)

section \<open>The rate of minting\<close>

text \<open>
  Between two changes of the budget of an asset, its budget information changes only by minting,
  which charges the minted amount to the penalty.
\<close>

definition sets_budget_of :: "asset_id \<Rightarrow> bridge_label \<Rightarrow> bool" where
  "sets_budget_of a l =
     (case l of ByCall orig (Call_set_budget b n d) \<Rightarrow> b = a | _ \<Rightarrow> False)"

lemma event_total_append [simp]:
  "event_total f (s\<lparr>mosaic_events := es\<rparr>) = sum_list (map f es)"
  "event_total f (s\<lparr>mosaic_block := b\<rparr>) = event_total f s"
  "event_total f (s\<lparr>mosaic_currency := c\<rparr>) = event_total f s"
  by (simp_all add: event_total_def)

definition mint_silent :: "asset_id \<Rightarrow> 'c mosaic \<Rightarrow> 'c mosaic \<Rightarrow> bool" where
  "mint_silent a s t \<longleftrightarrow> AssetsInfo t a = AssetsInfo s a \<and> mosaic_block t = mosaic_block s \<and>
     event_total (minted_in a) t = event_total (minted_in a) s"

lemma other_calls_mint_silent:
  "set_relayer cfg orig acc s = (Inr (), t) \<Longrightarrow> mint_silent a s t"
  "rotate_relayer cfg orig acc ttl s = (Inr (), t) \<Longrightarrow> mint_silent a s t"
  "set_network orig net info s = (Inr (), t) \<Longrightarrow> mint_silent a s t"
  "a \<noteq> b \<Longrightarrow> set_budget cfg orig b n d s = (Inr (), t) \<Longrightarrow> mint_silent a s t"
  "transfer_to cfg orig net b to n k s = (Inr (), t) \<Longrightarrow> mint_silent a s t"
  "accept_transfer cfg orig u net r n s = (Inr (), t) \<Longrightarrow> mint_silent a s t"
  "claim_stale_to cfg orig b to s = (Inr (), t) \<Longrightarrow> mint_silent a s t"
  "set_timelock_duration cfg orig p s = (Inr (), t) \<Longrightarrow> mint_silent a s t"
  "rescind_timelocked_mint cfg orig net r u n s = (Inr (), t) \<Longrightarrow> mint_silent a s t"
  "claim_to cfg orig b to s = (Inr (), t) \<Longrightarrow> mint_silent a s t"
  "update_asset_mapping cfg orig b net ro s = (Inr (), t) \<Longrightarrow> mint_silent a s t"
  unfolding mint_silent_def event_total_def
  by (auto simp: set_relayer_def rotate_relayer_def set_network_def set_budget_def transfer_to_def
      accept_transfer_def claim_stale_to_def set_timelock_duration_def rescind_timelocked_mint_def
      claim_to_def update_asset_mapping_def insert_mapping_def generate_id_def ok_simps Let_def)

lemma timelocked_mint_other:
  assumes "timelocked_mint cfg orig net r u n lt i s = (Inr (), t)"
    "RemoteToLocalAsset s (r, net) \<noteq> Some a"
  shows "mint_silent a s t"
  using timelocked_mint_run [OF assms(1)] assms(2) by (auto simp: mint_silent_def event_total_def)

text \<open>
  What was minted of the asset since block \<open>b0\<close>, while budget and decay are those of \<open>info0\<close>:
  nothing, or no more than the penalty charged plus what has decayed since.
\<close>

definition mint_charged :: "balance \<Rightarrow> block_number \<Rightarrow> block_number \<Rightarrow> asset_info \<Rightarrow> bool" where
  "mint_charged minted b0 now info \<longleftrightarrow>
     b0 \<le> last_mint_block info \<and> last_mint_block info \<le> now \<and> penalty info \<le> budget info \<and>
     minted \<le> penalty info + decay_rate (penalty_decayer info) * (last_mint_block info - b0)"

definition mint_bounded ::
  "asset_id \<Rightarrow> block_number \<Rightarrow> asset_info \<Rightarrow> balance \<Rightarrow> 'c mosaic \<Rightarrow> bool" where
  "mint_bounded a b0 info0 m0 s \<longleftrightarrow>
     b0 \<le> mosaic_block s \<and> m0 \<le> event_total (minted_in a) s \<and>
     (\<exists>info. AssetsInfo s a = Some info \<and> budget info = budget info0 \<and>
        penalty_decayer info = penalty_decayer info0 \<and>
        (event_total (minted_in a) s = m0 \<or>
         mint_charged (event_total (minted_in a) s - m0) b0 (mosaic_block s) info))"

lemma mint_silent_bounded:
  "mint_silent a s t \<Longrightarrow> mint_bounded a b0 info0 m0 s \<Longrightarrow> mint_bounded a b0 info0 m0 t"
  by (auto simp: mint_silent_def mint_bounded_def)

lemma mint_charged_next:
  assumes "minted = 0 \<and> b0 \<le> now \<or> mint_charged minted b0 now info" "budget info \<le> u128_max"
    and "n \<le> budget info - decayed_penalty info now" "n \<noteq> 0"
  shows "mint_charged (minted + n) b0 now
    \<lparr>last_mint_block = now, budget = budget info,
      penalty = saturating_add u128_max (decayed_penalty info now) n,
      penalty_decayer = penalty_decayer info\<rparr>"
proof -
  let ?pen = "decayed_penalty info now"
  have "?pen + n \<le> budget info" using assms(3,4) by simp
  then have sat: "saturating_add u128_max ?pen n = ?pen + n"
    using assms(2) by (simp add: saturating_add_def)
  have "minted + n \<le> ?pen + n + decay_rate (penalty_decayer info) * (now - b0)"
    using assms(1)
  proof
    assume "mint_charged minted b0 now info"
    then show ?thesis
      using penalty_dec.charge_bound [of minted "penalty info" "penalty_decayer info"
          "last_mint_block info" b0 now n] assms(2)
      by (simp add: mint_charged_def decayed_penalty_def)
  qed simp
  then show ?thesis
    using assms(1) \<open>?pen + n \<le> budget info\<close> by (auto simp: mint_charged_def sat)
qed

lemma timelocked_mint_bounded:
  assumes run: "timelocked_mint cfg orig net r u n lt i s = (Inr (), t)"
    and bnd: "mint_bounded a b0 info0 m0 s" and cap: "budget info0 \<le> u128_max"
    and local: "RemoteToLocalAsset s (r, net) = Some a"
  shows "mint_bounded a b0 info0 m0 t"
proof -
  let ?M = "\<lambda>s. event_total (minted_in a) s"
  obtain info where info: "AssetsInfo s a = Some info" "budget info = budget info0"
      "penalty_decayer info = penalty_decayer info0"
    and hist: "?M s = m0 \<or> mint_charged (?M s - m0) b0 (mosaic_block s) info"
    and b0: "b0 \<le> mosaic_block s" "m0 \<le> ?M s"
    using bnd by (auto simp: mint_bounded_def)
  define new where "new = \<lparr>last_mint_block = mosaic_block s, budget = budget info,
    penalty = saturating_add u128_max (decayed_penalty info (mosaic_block s)) n,
    penalty_decayer = penalty_decayer info\<rparr>"
  have t: "AssetsInfo t a = Some new" "?M t = ?M s + n" "mosaic_block t = mosaic_block s"
    and n: "n \<le> budget info - decayed_penalty info (mosaic_block s)"
    using timelocked_mint_run [OF run] local info(1) by (auto simp: event_total_def new_def)
  have "mint_charged (?M t - m0) b0 (mosaic_block s) new" if "n \<noteq> 0"
    using mint_charged_next [of "?M s - m0" b0 "mosaic_block s" info n] hist n cap info(2) b0 t(2) that
    by (auto simp: new_def)
  moreover have "?M t = m0 \<or> mint_charged (?M t - m0) b0 (mosaic_block s) new" if "n = 0"
  proof (cases "?M s = m0")
    case False
    then have old: "mint_charged (?M s - m0) b0 (mosaic_block s) info" using hist by simp
    have "decayed_penalty info (mosaic_block s) \<le> penalty info"
      using penalty_dec.decayed_le by (simp add: decayed_penalty_def)
    then have sat: "saturating_add u128_max (decayed_penalty info (mosaic_block s)) 0
        = decayed_penalty info (mosaic_block s)" "decayed_penalty info (mosaic_block s) \<le> budget info"
      using old cap info(2) by (auto simp: mint_charged_def saturating_add_def)
    show ?thesis
      using penalty_dec.charge_bound [of "?M s - m0" "penalty info" "penalty_decayer info"
          "last_mint_block info" b0 "mosaic_block s" 0] old cap info(2) b0 t(2) that sat
      by (simp add: mint_charged_def new_def decayed_penalty_def)
  qed (use t(2) that in simp)
  ultimately have "?M t = m0 \<or> mint_charged (?M t - m0) b0 (mosaic_block t) new"
    using t(3) by (cases "n = 0") auto
  moreover have "budget new = budget info0" "penalty_decayer new = penalty_decayer info0"
    using info by (simp_all add: new_def)
  ultimately show ?thesis
    using b0 t unfolding mint_bounded_def by simp
qed

context mosaic_ledger
begin

lemma step_mint_bounded:
  assumes step: "bridge_step cfg l s t" and "\<not> sets_budget_of a l"
    and bnd: "mint_bounded a b0 info0 m0 s" and cap: "budget info0 \<le> u128_max"
  shows "mint_bounded a b0 info0 m0 t"
proof (cases l)
  case (ByCall orig call)
  then consider "t = s" | "mosaic_dispatch cfg orig call s = (Inr (), t)"
    using call_step_cases step by blast
  then show ?thesis
  proof cases
    case 2
    show ?thesis
    proof (cases call)
      case (Call_timelocked_mint net r u n lt i)
      with 2 have run: "timelocked_mint cfg orig net r u n lt i s = (Inr (), t)" by simp
      show ?thesis
        by (cases "RemoteToLocalAsset s (r, net) = Some a")
          (use timelocked_mint_bounded [OF run bnd cap] timelocked_mint_other [OF run]
            mint_silent_bounded [OF _ bnd] in auto)
    qed (use 2 assms(2) ByCall in
        \<open>auto simp: sets_budget_of_def intro: mint_silent_bounded [OF _ bnd] other_calls_mint_silent\<close>)
  qed (use bnd in simp)
qed (use step bnd in \<open>auto simp: mint_bounded_def mint_charged_def elim!: block_stepE environment_stepE\<close>)

lemma reaches_mint_bounded:
  assumes "bridge_reaches cfg (\<lambda>l. \<not> sets_budget_of a l) s t"
    and "mint_bounded a b0 info0 m0 s" and "budget info0 \<le> u128_max"
  shows "mint_bounded a b0 info0 m0 t"
  using assms by (induction rule: bridge_reaches_induct) (auto intro: step_mint_bounded)

lemma mint_rate:
  assumes run: "bridge_reaches cfg (\<lambda>l. \<not> sets_budget_of a l) s t"
    and info: "AssetsInfo s a = Some info" "budget info \<le> u128_max"
  shows "event_total (minted_in a) t
    \<le> event_total (minted_in a) s + budget info +
      decay_rate (penalty_decayer info) * (mosaic_block t - mosaic_block s)"
proof -
  let ?M = "\<lambda>s. event_total (minted_in a) s"
  have "mint_bounded a (mosaic_block s) info (?M s) s"
    using info by (simp add: mint_bounded_def)
  from reaches_mint_bounded [OF run this info(2)]
  obtain i where i: "budget i = budget info" "penalty_decayer i = penalty_decayer info"
    "?M t = ?M s \<or> mint_charged (?M t - ?M s) (mosaic_block s) (mosaic_block t) i"
    by (auto simp: mint_bounded_def)
  show ?thesis
  proof (cases "?M t = ?M s")
    case False
    then have "?M t - ?M s \<le> budget info +
        decay_rate (penalty_decayer info) * (last_mint_block i - mosaic_block s)"
      "last_mint_block i \<le> mosaic_block t"
      using i by (auto simp: mint_charged_def)
    moreover have "decay_rate (penalty_decayer info) * (last_mint_block i - mosaic_block s)
        \<le> decay_rate (penalty_decayer info) * (mosaic_block t - mosaic_block s)"
      using calculation(2) by (intro mult_le_mono2) simp
    ultimately show ?thesis by linarith
  qed simp
qed

end

section \<open>A bridge over the assets pallet\<close>

text \<open>
  The runtime configures the bridge with the assets pallet as its currency. The instance below
  does the same over the ledger of plain tables; user \<open>u\<close> has the custody accounts \<open>1000 + u\<close>
  and \<open>2000 + u\<close>.
\<close>

definition bridge_config :: "(ledger \<times> ledger) mosaic_config" where
  "bridge_config =
     \<lparr>Assets = assets_fungibles ledger_assets, MinimumTTL = 10, MinimumTimeLockPeriod = 20,
      ControlOrigin = (\<lambda>orig. orig = RootOrigin),
      into_sub_account = (\<lambda>(prefix, u). (if prefix = ''outgoing________'' then 1000 else 2000) + u),
      hash_of = (\<lambda>(to, net, a, addr, n, b, nonce). nonce)\<rparr>"

lemma bridge_config_assets [simp]: "Assets bridge_config = assets_fungibles ledger_assets"
  by (simp add: bridge_config_def)

interpretation bridge: mosaic_ledger bridge_config
proof (unfold mosaic_ledger_def mosaic_ledger_axioms_def, intro conjI allI)
  show "fungibles_ledger (Assets bridge_config)"
    using ledger_assets.routed_ledger by simp
  show "dust_free (Assets bridge_config) a" for a
    by (simp add: dust_free_def)
qed

text \<open>A relayer, a network, a mapped asset with a budget, and a user with funds.\<close>

definition bridge_start :: "(ledger \<times> ledger) mosaic" where
  "bridge_start =
     (mosaic_genesis bridge_config
       (empty_ledger, \<lparr>bals = (\<lambda>a x. if a = 7 \<and> x = 5 then 100 else 0), issued = (\<lambda>a. if a = 7 then 100 else 0)\<rparr>))
     \<lparr>Relayer := Some (stale_relayer_new 3),
      AssetsInfo := [7 \<mapsto> \<lparr>last_mint_block = 0, budget = 50, penalty = 0, penalty_decayer = linear 2\<rparr>],
      NetworkInfos := [1 \<mapsto> \<lparr>enabled = True, max_transfer_size = 60\<rparr>],
      LocalToRemoteAsset := [(7, 1) \<mapsto> 77], RemoteToLocalAsset := [(77, 1) \<mapsto> 7], mosaic_block := 4\<rparr>"

lemmas bridge_eval =
  bridge_start_def bridge_config_def mosaic_genesis_def assets_eval assets_fungibles_def
  sub_account_id_def to_id_def new_outgoing_def new_incoming_def mosaic_assets_def
  mosaic_deposit_event_def ensure_relayer_def get_local_mapping_def get_remote_mapping_def
  generate_id_def update_relayer_def rejig_def stale_relayer_new_def is_relayer_def Let_def
  safe_arith_defs saturating_add_def saturating_sub_def u32_max_def wrapping_add_def
  checked_decay_def linear_checked_decay_def linear_def

lemma bridge_start_ok: "bridge_ok bridge_config over bridge_start"
  by (simp add: bridge_ok_def backed_def finite_pending_def pending_def held_def accounted_def
      waiting_def event_total_def bridge_start_def mosaic_genesis_def)

lemma bridge_lock: "\<exists>t. transfer_to bridge_config (SignedOrigin 5) 1 7 99 30 False bridge_start = (Inr (), t) \<and>
    OutgoingTransactions t (5, 7) = Some (30, 24)"
  by (simp add: transfer_to_def bridge_eval)

lemma bridge_mint: "\<exists>t. timelocked_mint bridge_config (SignedOrigin 3) 1 77 6 40 9 0 bridge_start = (Inr (), t) \<and>
    IncomingTransactions t (6, 7) = Some (40, 13) \<and> mosaic_block t = 4 \<and> OutgoingTransactions t = Map.empty"
  by (simp add: timelocked_mint_def bridge_eval)

lemma bridge_outsider: "u < 1000 \<Longrightarrow> outsider bridge_config (SignedOrigin u)"
  by (simp add: outsider_def custody_def out_account_def in_account_def bridge_eval)

text \<open>A list of calls by outsiders is a run.\<close>

definition dispatch_all :: "'c mosaic_config \<Rightarrow> (raw_origin \<times> mosaic_call) list \<Rightarrow> 'c mosaic \<Rightarrow> 'c mosaic" where
  "dispatch_all cfg cs = run_calls (map (\<lambda>(orig, call). mosaic_dispatch cfg orig call) cs)"

lemma dispatch_all_reaches:
  assumes "\<forall>(orig, call) \<in> set cs. outsider cfg orig \<and> allowed (ByCall orig call)"
    "bridge_reaches cfg allowed s0 s"
  shows "bridge_reaches cfg allowed s0 (dispatch_all cfg cs s)"
  using assms
proof (induction cs arbitrary: s)
  case (Cons oc cs)
  obtain orig call where oc: "oc = (orig, call)" by fastforce
  have "bridge_step cfg (ByCall orig call) s (snd (mosaic_dispatch cfg orig call s))"
    using Cons.prems oc
    by (intro Step_Call [where r = "fst (mosaic_dispatch cfg orig call s)"]) auto
  then have "bridge_reaches cfg allowed s0 (snd (mosaic_dispatch cfg orig call s))"
    using Cons.prems oc by (intro bridge_reaches_step [OF Cons.prems(2)]) auto
  then show ?case
    using Cons.IH [of "snd (mosaic_dispatch cfg orig call s)"] Cons.prems(1) oc
    by (simp add: dispatch_all_def)
qed (simp add: dispatch_all_def)

definition bridge_calls :: "(raw_origin \<times> mosaic_call) list" where
  "bridge_calls =
     [(RootOrigin, Call_set_relayer 3),
      (SignedOrigin 3, Call_set_network 1 \<lparr>enabled = True, max_transfer_size = 60\<rparr>),
      (RootOrigin, Call_set_budget 7 50 (linear 2)),
      (RootOrigin, Call_update_asset_mapping 7 1 (Some 77)),
      (SignedOrigin 3, Call_timelocked_mint 1 77 6 40 9 0),
      (SignedOrigin 5, Call_transfer_to 1 7 99 30 False)]"

definition funded :: "ledger \<times> ledger" where
  "funded = (empty_ledger,
     \<lparr>bals = (\<lambda>a x. if a = 7 \<and> x = 5 then 100 else 0), issued = (\<lambda>a. if a = 7 then 100 else 0)\<rparr>)"

definition bridge_end :: "(ledger \<times> ledger) mosaic" where
  "bridge_end = dispatch_all bridge_config bridge_calls (mosaic_genesis bridge_config funded)"

lemma bridge_end_reached: "bridge_reaches bridge_config (\<lambda>_. True) (mosaic_genesis bridge_config funded) bridge_end"
  unfolding bridge_end_def
  by (rule dispatch_all_reaches)
     (auto simp: bridge_calls_def bridge_outsider outsider_root bridge_reaches_refl)

lemma bridge_end_eq:
  "OutgoingTransactions bridge_end = [(5, 7) \<mapsto> (30, 20)]"
  "IncomingTransactions bridge_end = [(6, 7) \<mapsto> (40, 9)]"
  "event_total (minted_in 7) bridge_end = 40" "event_total (sent_out 7) bridge_end = 30"
  by (simp_all add: bridge_end_def dispatch_all_def bridge_calls_def funded_def event_total_def
      set_relayer_def set_network_def set_budget_def update_asset_mapping_def insert_mapping_def
      timelocked_mint_def transfer_to_def bridge_eval)

section \<open>Properties\<close>

text \<open>
  C1. In every state that a run of the bridge reaches, any calls in any order included, the funds on each
  custody account cover everything that is pending on it, up to what rescissions have taken from it beyond
  what was waiting there. Only accounts for incoming funds can be short in this way: each user with an
  outgoing transaction can always take it back, and as long as the relayer never rescinds more than what is waiting
  for a user, all of that user's incoming transactions can be paid too, at the same time. The sum is over
  all users whose custody account it is, so nothing is assumed about how accounts are derived.
\<close>

theorem bridge_solvent:
  assumes "fungibles_ledger (Assets cfg)" "\<forall>a. dust_free (Assets cfg) a"
    and "bridge_run cfg c over s"
  shows "pending cfg s a x \<le> f_balance (Assets cfg) a x (mosaic_currency s) + over a x
    \<and> (over a x \<noteq> 0 \<longrightarrow> (\<exists>u. x = in_account cfg u))"
proof -
  have "mosaic_ledger cfg"
    using assms(1,2) by (simp add: mosaic_ledger_def mosaic_ledger_axioms_def)
  then have "bridge_ok cfg over s"
    using mosaic_ledger.run_bridge_ok [OF _ assms(3)] by blast
  then show ?thesis using run_beyond_incoming [OF assms(3)] by (simp add: bridge_ok_def backed_def)
qed

text \<open>A run in which 40 are waiting and 60 are rescinded, after 25 were sent to the custody account.\<close>

definition bridge_rescinded :: "(ledger \<times> ledger) mosaic" where
  "bridge_rescinded = snd (mosaic_dispatch bridge_config (SignedOrigin 3) (Call_rescind_timelocked_mint 1 77 6 60)
     (snd (mosaic_assets (transfer ledger_assets 7 5 2006 25 False) bridge_end)))"

lemma bridge_end_run: "bridge_run bridge_config funded (\<lambda>_ _. 0) bridge_end"
proof -
  have step: "bridge_run bridge_config funded (\<lambda>_ _. 0) (snd (mosaic_dispatch bridge_config orig call s))"
    if "bridge_run bridge_config funded (\<lambda>_ _. 0) s" "outsider bridge_config orig"
      "\<And>net r u n. call \<noteq> Call_rescind_timelocked_mint net r u n" for orig call s
  proof -
    have "(\<lambda>a x. 0 + step_beyond bridge_config (ByCall orig call) s a x) = (\<lambda>_ _. 0)"
      using that(3) by (intro ext) (cases call; auto simp: step_beyond_def taken_beyond_def)
    then show ?thesis
      using run_step [OF that(1) Step_Call [OF that(2) prod.collapse [symmetric], of call s]] by simp
  qed
  show ?thesis
    unfolding bridge_end_def dispatch_all_def bridge_calls_def list.map prod.case run_calls.simps
    by (intro step run_start) (simp_all add: bridge_outsider outsider_root)
qed

lemma bridge_rescinded_run:
  "bridge_run bridge_config funded (\<lambda>a x. if a = 7 \<and> x = 2006 then 20 else 0) bridge_rescinded"
  "IncomingTransactions bridge_rescinded (6, 7) = Some (0, 9)"
proof -
  let ?s = "snd (mosaic_assets (transfer ledger_assets 7 5 2006 25 False) bridge_end)"
  let ?l = "ByCall (SignedOrigin 3) (Call_rescind_timelocked_mint 1 77 6 60)"
  have s: "?s = bridge_end\<lparr>mosaic_currency := mosaic_currency ?s\<rparr>" "IncomingTransactions ?s = [(6, 7) \<mapsto> (40, 9)]"
    "RemoteToLocalAsset ?s (77, 1) = Some 7"
    and ok: "is_ok (mosaic_dispatch bridge_config (SignedOrigin 3) (Call_rescind_timelocked_mint 1 77 6 60) ?s)"
    and env: "\<forall>a x. x \<noteq> 5 \<longrightarrow> f_balance (Assets bridge_config) a x (mosaic_currency bridge_end) \<le> f_balance (Assets bridge_config) a x (mosaic_currency ?s)"
    by (auto simp: bridge_end_def dispatch_all_def bridge_calls_def funded_def is_ok_def
      set_relayer_def set_network_def set_budget_def update_asset_mapping_def insert_mapping_def
      timelocked_mint_def transfer_to_def rescind_timelocked_mint_def bridge_eval)
  have "\<not> custody bridge_config 5" using bridge_outsider [of 5] by (simp add: outsider_def)
  then have "bridge_step bridge_config ByEnvironment bridge_end ?s"
    using env by (subst s(1), intro Step_Environment) metis
  then have run: "bridge_run bridge_config funded (\<lambda>_ _. 0) ?s"
    using run_step [OF bridge_end_run, of ByEnvironment ?s] by (simp add: step_beyond_def)
  have beyond: "(\<lambda>a x. 0 + step_beyond bridge_config ?l ?s a x) = (\<lambda>a x. if a = 7 \<and> x = 2006 then 20 else 0)"
    using ok s(2,3) by (intro ext) (auto simp: step_beyond_def taken_beyond_def in_account_def bridge_eval)
  have "bridge_step bridge_config ?l ?s bridge_rescinded"
    unfolding bridge_rescinded_def by (rule Step_Call [OF _ prod.collapse [symmetric]]) (simp add: bridge_outsider)
  from run_step [OF run this] show "bridge_run bridge_config funded (\<lambda>a x. if a = 7 \<and> x = 2006 then 20 else 0) bridge_rescinded"
    unfolding beyond .
  show "IncomingTransactions bridge_rescinded (6, 7) = Some (0, 9)"
    by (simp add: bridge_rescinded_def bridge_end_def dispatch_all_def bridge_calls_def funded_def
      set_relayer_def set_network_def set_budget_def update_asset_mapping_def insert_mapping_def
      timelocked_mint_def transfer_to_def rescind_timelocked_mint_def bridge_eval)
qed

theorem bridge_solvent_witness:
  "pending bridge_config bridge_end 7 2006 \<le> f_balance (Assets bridge_config) 7 2006 (mosaic_currency bridge_end) \<and>
   IncomingTransactions bridge_end (6, 7) = Some (40, 9) \<and>
   pending bridge_config bridge_rescinded 7 1005 \<le> f_balance (Assets bridge_config) 7 1005 (mosaic_currency bridge_rescinded)"
proof -
  have "fungibles_ledger (Assets bridge_config)" "\<forall>a. dust_free (Assets bridge_config) a"
    using bridge.fungibles_ledger_axioms bridge.no_dust by simp_all
  note solvent = bridge_solvent [OF this]
  show ?thesis
    using solvent [OF bridge_end_run, of 7 2006] solvent [OF bridge_rescinded_run(1), of 7 1005] by (simp add: bridge_end_eq)
qed

text \<open>
  Every unit that users sent out is still waiting, was accepted by the relayer or was taken
  back, and nothing else; what was claimed of the incoming funds together with what
  is waiting is never more than what was minted.
\<close>

theorem bridge_accounts:
  assumes "fungibles_ledger (Assets cfg)" "\<forall>a. dust_free (Assets cfg) a"
    and "bridge_run cfg c over s"
  shows "event_total (sent_out a) s = event_total (settled_out a) s + waiting (OutgoingTransactions s) a \<and>
     event_total (claimed_in a) s + waiting (IncomingTransactions s) a \<le> event_total (minted_in a) s"
proof -
  have "mosaic_ledger cfg"
    using assms(1,2) by (simp add: mosaic_ledger_def mosaic_ledger_axioms_def)
  then have "bridge_ok cfg over s"
    using mosaic_ledger.run_bridge_ok [OF _ assms(3)] by blast
  then show ?thesis by (simp add: bridge_ok_def accounted_def)
qed

theorem bridge_accounts_witness:
  "30 = event_total (settled_out 7) bridge_end + waiting (OutgoingTransactions bridge_end) 7 \<and>
   event_total (claimed_in 7) bridge_end + waiting (IncomingTransactions bridge_end) 7 \<le> 40"
proof -
  have "fungibles_ledger (Assets bridge_config)" "\<forall>a. dust_free (Assets bridge_config) a"
    using bridge.fungibles_ledger_axioms bridge.no_dust by simp_all
  from bridge_accounts [OF this bridge_end_run, of 7] show ?thesis
    by (simp only: bridge_end_eq)
qed

text \<open>
  C6. Minting is limited in rate: over any run in which the budget of the asset is not set anew,
  the relayer mints no more of it than the budget plus the decay factor times the number of
  blocks that pass, whatever the penalty was at the start and however the mints are spread.
\<close>

theorem mint_rate_limited:
  assumes "fungibles_ledger (Assets cfg)" "\<forall>a. dust_free (Assets cfg) a"
    and "bridge_reaches cfg (\<lambda>l. \<not> sets_budget_of a l) s t"
    and "AssetsInfo s a = Some info" and "budget info \<le> u128_max"
  shows "event_total (minted_in a) t
    \<le> event_total (minted_in a) s + budget info +
      decay_rate (penalty_decayer info) * (mosaic_block t - mosaic_block s)"
  using assms
  by (intro mosaic_ledger.mint_rate) (simp_all add: mosaic_ledger_def mosaic_ledger_axioms_def)

theorem mint_rate_limited_witness:
  "event_total (minted_in 7)
     (dispatch_all bridge_config [(SignedOrigin 3, Call_timelocked_mint 1 77 6 40 9 0),
        (SignedOrigin 3, Call_timelocked_mint 1 77 6 40 9 0)] bridge_start) \<le> 50"
proof -
  let ?cs = "[(SignedOrigin 3, Call_timelocked_mint 1 77 6 40 9 0),
        (SignedOrigin 3, Call_timelocked_mint 1 77 6 40 9 0)]"
  have run: "bridge_reaches bridge_config (\<lambda>l. \<not> sets_budget_of 7 l) bridge_start
      (dispatch_all bridge_config ?cs bridge_start)"
    by (rule dispatch_all_reaches) (auto simp: bridge_outsider sets_budget_of_def bridge_reaches_refl)
  have block: "mosaic_block (dispatch_all bridge_config ?cs bridge_start) = 4"
    by (simp add: dispatch_all_def timelocked_mint_def bridge_eval)
  have "fungibles_ledger (Assets bridge_config)" "\<forall>a. dust_free (Assets bridge_config) a"
    using bridge.fungibles_ledger_axioms bridge.no_dust by simp_all
  from mint_rate_limited [OF this run, of
      "\<lparr>last_mint_block = 0, budget = 50, penalty = 0, penalty_decayer = linear 2\<rparr>"]
  show ?thesis unfolding block
    by (simp add: bridge_start_def mosaic_genesis_def u128_max_def event_total_def)
qed

text \<open>
  C33. An error returned by any dispatchable of the bridge leaves its storage and the balances as
  they were, also for those that are not marked transactional.
\<close>

theorem bridge_errors_atomic:
  assumes "fungibles_ledger (Assets cfg)" "\<forall>a. dust_free (Assets cfg) a"
    and "mosaic_dispatch cfg orig call s = (Inl e, t)"
  shows "t = s"
  using assms(3)
  by (rule atomicD [OF mosaic_ledger.dispatch_atomic, rotated])
     (use assms(1,2) in \<open>simp add: mosaic_ledger_def mosaic_ledger_axioms_def\<close>)

theorem bridge_errors_atomic_witness:
  "\<exists>t. mosaic_dispatch bridge_config (SignedOrigin 3) (Call_timelocked_mint 1 77 6 51 9 0) bridge_start
     = (Inl (MosaicErr InsufficientBudget), t) \<and> t = bridge_start"
proof -
  obtain t where run: "mosaic_dispatch bridge_config (SignedOrigin 3)
      (Call_timelocked_mint 1 77 6 51 9 0) bridge_start = (Inl (MosaicErr InsufficientBudget), t)"
    by (simp add: timelocked_mint_def bridge_eval)
  have "fungibles_ledger (Assets bridge_config)" "\<forall>a. dust_free (Assets bridge_config) a"
    using bridge.fungibles_ledger_axioms bridge.no_dust by simp_all
  from bridge_errors_atomic [OF this run] run show ?thesis by simp
qed

text \<open>
  Incoming funds are paid out once and only after their lock: a successful \<open>claim_to\<close> found
  an entry whose lock block has passed, pays exactly its amount to the account the user names,
  removes it, and every further \<open>claim_to\<close> for it fails until the relayer mints again.
\<close>

theorem claim_pays_once:
  assumes "fungibles_ledger (Assets cfg)" "\<forall>b. dust_free (Assets cfg) b"
    and "claim_to cfg (SignedOrigin u) a to s = (Inr (), t)" "to \<noteq> in_account cfg u"
  shows "\<exists>n l. IncomingTransactions s (u, a) = Some (n, l) \<and> l < mosaic_block s \<and>
    f_balance (Assets cfg) a to (mosaic_currency t) = f_balance (Assets cfg) a to (mosaic_currency s) + n \<and>
    f_balance (Assets cfg) a (in_account cfg u) (mosaic_currency t) + n
      = f_balance (Assets cfg) a (in_account cfg u) (mosaic_currency s) \<and>
    IncomingTransactions t = (IncomingTransactions s)((u, a) := None) \<and>
    OutgoingTransactions t = OutgoingTransactions s \<and>
    claim_to cfg (SignedOrigin u) a to' t = (Inl (MosaicErr NoClaimableTx), t)"
proof -
  obtain n l m c where *: "IncomingTransactions s (u, a) = Some (n, l)" "l < mosaic_block s"
    "f_transfer (Assets cfg) a (in_account cfg u) to n False (mosaic_currency s) = (Inr m, c)"
    "t = s\<lparr>mosaic_currency := c, mosaic_events := mosaic_events s @ [TransferClaimed u to a n],
        IncomingTransactions := (IncomingTransactions s)((u, a) := None)\<rparr>"
    using assms(3) by (auto simp: claim_to_def ok_simps account_defs)
  have "claim_to cfg (SignedOrigin u) a to' t = (Inl (MosaicErr NoClaimableTx), t)"
    using *(4) by (simp add: claim_to_def call_eval)
  moreover note fungibles_ledger.transfer_enough [OF assms(1) *(3)] assms(2,4)
    fungibles_ledger.transfer_balance [OF assms(1) *(3), of a to]
    fungibles_ledger.transfer_balance [OF assms(1) *(3), of a "in_account cfg u"]
  ultimately show ?thesis using * by auto
qed

theorem claim_pays_once_witness:
  "\<exists>t. claim_to bridge_config (SignedOrigin 6) 7 8 (bridge_end\<lparr>mosaic_block := 10\<rparr>) = (Inr (), t) \<and>
     claim_to bridge_config (SignedOrigin 6) 7 8 t = (Inl (MosaicErr NoClaimableTx), t)"
proof -
  obtain t where run: "claim_to bridge_config (SignedOrigin 6) 7 8 (bridge_end\<lparr>mosaic_block := 10\<rparr>) = (Inr (), t)"
    by (simp add: bridge_end_def dispatch_all_def bridge_calls_def funded_def
      set_relayer_def set_network_def set_budget_def update_asset_mapping_def insert_mapping_def
      timelocked_mint_def transfer_to_def claim_to_def bridge_eval)
  have "fungibles_ledger (Assets bridge_config)" "\<forall>a. dust_free (Assets bridge_config) a"
    using bridge.fungibles_ledger_axioms bridge.no_dust by simp_all
  moreover have "8 \<noteq> in_account bridge_config 6"
    by (simp add: in_account_def bridge_eval)
  ultimately show ?thesis
    using claim_pays_once [OF _ _ run] run by blast
qed

text \<open>
  Outgoing funds: when the relayer accepts an amount, exactly that amount is burned from the
  user's custody account and from the issuance, the entry shrinks by it and disappears when
  nothing is left, and its lock block stays; without the relayer's acceptance the user takes back
  all of it, only after the lock block.
\<close>

theorem outgoing_settled:
  assumes "fungibles_ledger (Assets cfg)" "\<forall>b. dust_free (Assets cfg) b"
  shows "(accept_transfer cfg orig u net r n s = (Inr (), t) \<longrightarrow>
      (\<exists>a b l. RemoteToLocalAsset s (r, net) = Some a \<and> OutgoingTransactions s (u, a) = Some (b, l) \<and> n \<le> b \<and>
        OutgoingTransactions t = (OutgoingTransactions s)((u, a) := (if n = b then None else Some (b - n, l))) \<and>
        f_total_issuance (Assets cfg) a (mosaic_currency t)
          = f_total_issuance (Assets cfg) a (mosaic_currency s) - n \<and>
        f_balance (Assets cfg) a (out_account cfg u) (mosaic_currency t) + n
          = f_balance (Assets cfg) a (out_account cfg u) (mosaic_currency s))) \<and>
    (claim_stale_to cfg (SignedOrigin u) a to s = (Inr (), t) \<longrightarrow> to \<noteq> out_account cfg u \<longrightarrow>
      (\<exists>b l. OutgoingTransactions s (u, a) = Some (b, l) \<and> l < mosaic_block s \<and>
        OutgoingTransactions t = (OutgoingTransactions s)((u, a) := None) \<and>
        f_balance (Assets cfg) a to (mosaic_currency t)
          = f_balance (Assets cfg) a to (mosaic_currency s) + b))"
proof (intro conjI impI)
  assume "accept_transfer cfg orig u net r n s = (Inr (), t)"
  then obtain a b l m c where *: "RemoteToLocalAsset s (r, net) = Some a"
    "OutgoingTransactions s (u, a) = Some (b, l)" "n \<le> b"
    "f_burn_from (Assets cfg) a (out_account cfg u) n (mosaic_currency s) = (Inr m, c)"
    "OutgoingTransactions t = (OutgoingTransactions s)((u, a) := (if n = b then None else Some (b - n, l)))"
    "mosaic_currency t = c"
    by (auto simp: accept_transfer_def ok_simps account_defs checked_sub_def iff del: not_None_eq
        split: if_splits)
  moreover note fungibles_ledger.burn_total [OF assms(1) *(4), of a]
    fungibles_ledger.burn_balance [OF assms(1) *(4), of a "out_account cfg u"]
    fungibles_ledger.burn_enough [OF assms(1) *(4)] assms(2)
  ultimately show "\<exists>a b l. RemoteToLocalAsset s (r, net) = Some a \<and>
      OutgoingTransactions s (u, a) = Some (b, l) \<and> n \<le> b \<and>
      OutgoingTransactions t = (OutgoingTransactions s)((u, a) := (if n = b then None else Some (b - n, l))) \<and>
      f_total_issuance (Assets cfg) a (mosaic_currency t)
        = f_total_issuance (Assets cfg) a (mosaic_currency s) - n \<and>
      f_balance (Assets cfg) a (out_account cfg u) (mosaic_currency t) + n
        = f_balance (Assets cfg) a (out_account cfg u) (mosaic_currency s)"
    by (intro exI [of _ a] exI [of _ b] exI [of _ l]) simp
next
  assume "claim_stale_to cfg (SignedOrigin u) a to s = (Inr (), t)" and to: "to \<noteq> out_account cfg u"
  then obtain b l m c where *: "OutgoingTransactions s (u, a) = Some (b, l)" "l < mosaic_block s"
    "f_transfer (Assets cfg) a (out_account cfg u) to b False (mosaic_currency s) = (Inr m, c)"
    "OutgoingTransactions t = (OutgoingTransactions s)((u, a) := None)" "mosaic_currency t = c"
    by (auto simp: claim_stale_to_def ok_simps account_defs)
  then show "\<exists>b l. OutgoingTransactions s (u, a) = Some (b, l) \<and> l < mosaic_block s \<and>
        OutgoingTransactions t = (OutgoingTransactions s)((u, a) := None) \<and>
        f_balance (Assets cfg) a to (mosaic_currency t)
          = f_balance (Assets cfg) a to (mosaic_currency s) + b"
    using fungibles_ledger.transfer_balance [OF assms(1) *(3), of a to] assms(2) to by simp
qed

theorem outgoing_settled_witness:
  "\<exists>t. accept_transfer bridge_config (SignedOrigin 3) 5 1 77 10 bridge_end = (Inr (), t) \<and>
     OutgoingTransactions t (5, 7) = Some (20, 20)"
proof -
  obtain t where run: "accept_transfer bridge_config (SignedOrigin 3) 5 1 77 10 bridge_end = (Inr (), t)"
    by (simp add: bridge_end_def dispatch_all_def bridge_calls_def funded_def
      set_relayer_def set_network_def set_budget_def update_asset_mapping_def insert_mapping_def
      timelocked_mint_def transfer_to_def accept_transfer_def bridge_eval)
  have "fungibles_ledger (Assets bridge_config)" "\<forall>a. dust_free (Assets bridge_config) a"
    using bridge.fungibles_ledger_axioms bridge.no_dust by simp_all
  from outgoing_settled [OF this, of "SignedOrigin 3" 5 1 77 10 bridge_end t] run
  obtain a b l where "OutgoingTransactions bridge_end (5, a) = Some (b, l)"
    "OutgoingTransactions t = (OutgoingTransactions bridge_end)((5, a) := (if 10 = b then None else Some (b - 10, l)))"
    by blast
  then show ?thesis using run by (auto simp: bridge_end_eq split: if_splits)
qed

text \<open>
  Rotation of the relayer: from the block of a successful \<open>rotate_relayer\<close> on, as long as the
  relayer storage is left alone, the old account is the relayer before the time to live is over
  and the new account from then on, at every block and nobody else.
\<close>

theorem relayer_rotation:
  assumes "rotate_relayer cfg (SignedOrigin old) new ttl s = (Inr (), t)"
    and "Relayer u = Relayer t"
  shows "MinimumTTL cfg < ttl \<and>
    (is_ok (ensure_relayer (SignedOrigin acc) u) \<longleftrightarrow>
      acc = (if saturating_add u32_max (mosaic_block s) ttl \<le> mosaic_block u then new else old))"
proof -
  obtain stale where *: "MinimumTTL cfg < ttl" "Relayer s = Some stale"
    "is_relayer (update_relayer stale (mosaic_block s)) old"
    "Relayer t = Some (StaleRelayer (rotate (update_relayer stale (mosaic_block s)) new
       (saturating_add u32_max (mosaic_block s) ttl)))"
    using assms(1) by (auto simp: rotate_relayer_def ok_simps Let_def)
  let ?r = "rotate (update_relayer stale (mosaic_block s)) new (saturating_add u32_max (mosaic_block s) ttl)"
  have "is_ok (ensure_relayer (SignedOrigin acc) u) \<longleftrightarrow> is_relayer (rejig ?r (mosaic_block u)) acc"
    using *(4) assms(2) by (auto simp: is_ok_def ensure_relayer_def call_eval update_relayer_def Let_def)
  then show ?thesis
    using * by (auto simp: is_relayer_def rejig_rotate)
qed

theorem relayer_rotation_witness:
  "\<exists>t. rotate_relayer bridge_config (SignedOrigin 3) 2 11 bridge_start = (Inr (), t) \<and>
     is_ok (ensure_relayer (SignedOrigin 3) (t\<lparr>mosaic_block := 14\<rparr>)) \<and>
     is_ok (ensure_relayer (SignedOrigin 2) (t\<lparr>mosaic_block := 15\<rparr>))"
proof -
  obtain t where run: "rotate_relayer bridge_config (SignedOrigin 3) 2 11 bridge_start = (Inr (), t)"
    by (simp add: rotate_relayer_def bridge_eval)
  show ?thesis
    using run relayer_rotation [OF run, of "t\<lparr>mosaic_block := 14\<rparr>" 3]
      relayer_rotation [OF run, of "t\<lparr>mosaic_block := 15\<rparr>" 2]
    by (simp add: bridge_start_def saturating_add_def u32_max_def)
qed

text \<open>
  C34. The budget recovers: once the recovery period of the penalty has passed since the last
  mint, the relayer can mint any amount up to the whole budget, provided the currency accepts the
  mint.
\<close>

theorem budget_recovers:
  assumes "Relayer s = Some stale" "is_relayer (update_relayer stale (mosaic_block s)) relayer"
    and "RemoteToLocalAsset s (r, net) = Some a" "AssetsInfo s a = Some info"
    and "full_recovery_period (penalty_decayer info) (penalty info) = Some p"
    and "last_mint_block info + p \<le> mosaic_block s" "n \<le> budget info"
    and "is_ok (f_mint_into (Assets cfg) a (in_account cfg to) n (mosaic_currency s))"
  shows "is_ok (timelocked_mint cfg (SignedOrigin relayer) net r to n lt i s)"
proof -
  have "(case checked_decay (penalty_decayer info) (penalty info) (mosaic_block s) (last_mint_block info) of
      Some p \<Rightarrow> p | None \<Rightarrow> 0) = 0"
    using penalty_dec.dec_recovered [OF assms(5,6)] by (simp add: decayed_def)
  moreover obtain x c where "f_mint_into (Assets cfg) a (in_account cfg to) n (mosaic_currency s) = (Inr x, c)"
    using assms(8) by (auto simp: is_ok_iff)
  ultimately show ?thesis
    using assms(1-4,7)
    by (simp add: is_ok_def timelocked_mint_def ensure_relayer_def get_local_mapping_def
        mosaic_assets_def mosaic_deposit_event_def account_defs saturating_sub_def Let_def call_eval)
qed

theorem budget_recovers_witness:
  "is_ok (timelocked_mint bridge_config (SignedOrigin 3) 1 77 6 50 9 0
     (bridge_start\<lparr>AssetsInfo := [7 \<mapsto> \<lparr>last_mint_block = 0, budget = 50, penalty = 44, penalty_decayer = linear 2\<rparr>],
        mosaic_block := 23\<rparr>))"
  by (rule budget_recovers [where stale = "stale_relayer_new 3" and a = 7 and p = 23 and
        info = "\<lparr>last_mint_block = 0, budget = 50, penalty = 44, penalty_decayer = linear 2\<rparr>"])
     (simp_all add: in_account_def is_ok_def full_recovery_period_def linear_full_recovery_period_def bridge_eval)

section \<open>Where the code does not do what it means to\<close>

text \<open>
  \<open>update_asset_mapping\<close> does not keep the two mapping tables inverse to each other: mapping a
  second local asset to a remote asset that is already mapped leaves the first local asset
  pointing to it, and removing the first mapping then removes the entry of the second.
\<close>

theorem asset_mapping_not_inverse:
  "\<exists>s. s = dispatch_all bridge_config [(RootOrigin, Call_update_asset_mapping 8 1 (Some 77)),
        (RootOrigin, Call_update_asset_mapping 7 1 None)] bridge_start \<and>
     LocalToRemoteAsset s (8, 1) = Some 77 \<and> RemoteToLocalAsset s (77, 1) = None"
  by (simp add: dispatch_all_def update_asset_mapping_def insert_mapping_def bridge_eval)

text \<open>
  \<open>rescind_timelocked_mint\<close> burns the whole amount the relayer names even when less is waiting,
  as far as the custody account holds it, and leaves an entry of amount zero.
\<close>

theorem rescind_burns_more_than_waiting:
  "\<exists>t. rescind_timelocked_mint bridge_config (SignedOrigin 3) 1 77 6 60
       (snd (mosaic_assets (transfer ledger_assets 7 5 2006 25 False) bridge_end)) = (Inr (), t) \<and>
     IncomingTransactions t (6, 7) = Some (0, 9)"
  by (simp add: bridge_end_def dispatch_all_def bridge_calls_def funded_def
      set_relayer_def set_network_def set_budget_def update_asset_mapping_def insert_mapping_def
      timelocked_mint_def transfer_to_def rescind_timelocked_mint_def bridge_eval)

end
