(* ===== verification/Vault_Model.thy ===== *)
theory Vault_Model
  imports Prelude "HOL-Library.Word"
begin

text \<open>
  The helpers of the vault pallet: the capability flags of a vault (capabilities.rs), its stored
  data (models.rs and the traits), the rent it pays (rent.rs) and the validation of inputs
  (validation.rs).
\<close>

unbundle bit_operations_syntax

section \<open>Capabilities\<close>

text \<open>\<open>bitflags!\<close> over a \<open>u32\<close>: \<open>contains\<close>, \<open>insert\<close> and \<open>remove\<close> are bitwise.\<close>

type_synonym capabilities = "32 word"

definition TOMBSTONED :: capabilities where "TOMBSTONED = 0b000000001"
definition STOPPED :: capabilities where "STOPPED = 0b000000010"
definition WITHDRAWALS_STOPPED :: capabilities where "WITHDRAWALS_STOPPED = 0b000000100"
definition DEPOSITS_STOPPED :: capabilities where "DEPOSITS_STOPPED = 0b000001000"

definition flag_contains :: "capabilities \<Rightarrow> capabilities \<Rightarrow> bool" where
  "flag_contains self other \<longleftrightarrow> self AND other = other"

definition flag_insert :: "capabilities \<Rightarrow> capabilities \<Rightarrow> capabilities" where
  "flag_insert self other = self OR other"

definition flag_remove :: "capabilities \<Rightarrow> capabilities \<Rightarrow> capabilities" where
  "flag_remove self other = self AND NOT other"

definition default_capabilities :: capabilities where "default_capabilities = 0"

definition is_stopped :: "capabilities \<Rightarrow> bool" where "is_stopped c = flag_contains c STOPPED"
definition is_tombstoned :: "capabilities \<Rightarrow> bool" where "is_tombstoned c = flag_contains c TOMBSTONED"
definition is_inactive :: "capabilities \<Rightarrow> bool" where
  "is_inactive c \<longleftrightarrow> flag_contains c TOMBSTONED \<or> is_stopped c"
definition is_active :: "capabilities \<Rightarrow> bool" where "is_active c \<longleftrightarrow> \<not> is_inactive c"
definition set_tombstoned :: "capabilities \<Rightarrow> capabilities" where "set_tombstoned c = flag_insert c TOMBSTONED"
definition untombstone :: "capabilities \<Rightarrow> capabilities" where "untombstone c = flag_remove c TOMBSTONED"
definition set_stopped :: "capabilities \<Rightarrow> capabilities" where "set_stopped c = flag_insert c STOPPED"
definition cap_start :: "capabilities \<Rightarrow> capabilities" where "cap_start c = flag_remove c STOPPED"
definition stop_deposits :: "capabilities \<Rightarrow> capabilities" where
  "stop_deposits c = flag_insert c DEPOSITS_STOPPED"
definition stop_withdrawals :: "capabilities \<Rightarrow> capabilities" where
  "stop_withdrawals c = flag_insert c WITHDRAWALS_STOPPED"
definition allow_deposits :: "capabilities \<Rightarrow> capabilities" where
  "allow_deposits c = flag_remove c DEPOSITS_STOPPED"
definition allow_withdrawals :: "capabilities \<Rightarrow> capabilities" where
  "allow_withdrawals c = flag_remove c WITHDRAWALS_STOPPED"
definition withdrawals_stopped :: "capabilities \<Rightarrow> bool" where
  "withdrawals_stopped c \<longleftrightarrow> flag_contains c WITHDRAWALS_STOPPED \<or> is_stopped c"
definition withdrawals_allowed :: "capabilities \<Rightarrow> bool" where
  "withdrawals_allowed c \<longleftrightarrow> \<not> withdrawals_stopped c"
definition deposits_stopped :: "capabilities \<Rightarrow> bool" where
  "deposits_stopped c \<longleftrightarrow> flag_contains c DEPOSITS_STOPPED \<or> is_inactive c"
definition deposits_allowed :: "capabilities \<Rightarrow> bool" where
  "deposits_allowed c \<longleftrightarrow> \<not> deposits_stopped c"

text \<open>The four flags as a set: the abstract view of the bits.\<close>

datatype capability = Tombstoned | Stopped | WithdrawalsStopped | DepositsStopped

fun flag_bit :: "capability \<Rightarrow> nat" where
  "flag_bit Tombstoned = 0"
| "flag_bit Stopped = 1"
| "flag_bit WithdrawalsStopped = 2"
| "flag_bit DepositsStopped = 3"

fun flag_of :: "capability \<Rightarrow> capabilities" where
  "flag_of Tombstoned = TOMBSTONED"
| "flag_of Stopped = STOPPED"
| "flag_of WithdrawalsStopped = WITHDRAWALS_STOPPED"
| "flag_of DepositsStopped = DEPOSITS_STOPPED"

definition flags :: "capabilities \<Rightarrow> capability set" where
  "flags c = {f. bit c (flag_bit f)}"

lemmas flag_defs = TOMBSTONED_def STOPPED_def WITHDRAWALS_STOPPED_def DEPOSITS_STOPPED_def

lemma flag_of_mask: "flag_of f = push_bit (flag_bit f) 1"
  by (cases f) (simp_all add: flag_defs)

lemma bit_flag_of: "bit (flag_of f) n \<longleftrightarrow> n = flag_bit f"
proof -
  have "flag_bit f < 32" by (cases f) simp_all
  then show ?thesis
    by (auto simp: flag_of_mask bit_push_bit_iff bit_1_iff simp del: push_bit_of_1)
qed

lemma flag_bit_inject [simp]: "flag_bit f = flag_bit g \<longleftrightarrow> f = g"
  by (cases f; cases g) simp_all

lemma flag_contains_iff: "flag_contains c (flag_of f) \<longleftrightarrow> f \<in> flags c"
proof -
  have "flag_bit f < 32" by (cases f) simp_all
  then show ?thesis
    by (auto simp: flag_contains_def flags_def bit_and_iff bit_flag_of intro!: bit_word_eqI
        dest!: arg_cong [where f = "\<lambda>w. bit w (flag_bit f)"])
qed

lemma flags_insert: "flags (flag_insert c (flag_of f)) = insert f (flags c)"
  by (auto simp: flags_def flag_insert_def bit_or_iff bit_flag_of)

lemma flags_remove: "flags (flag_remove c (flag_of f)) = flags c - {f}"
proof -
  have "flag_bit g < 32" for g by (cases g) simp_all
  then show ?thesis
    by (auto simp: flags_def flag_remove_def bit_and_iff bit_not_iff bit_flag_of)
qed

lemma flags_default: "flags default_capabilities = {}"
  by (simp add: flags_def default_capabilities_def)

text \<open>The operations on the bits are the operations on the set of flags.\<close>

lemma flags_simps [simp]:
  "flags default_capabilities = {}"
  "flags (set_tombstoned c) = insert Tombstoned (flags c)"
  "flags (untombstone c) = flags c - {Tombstoned}"
  "flags (set_stopped c) = insert Stopped (flags c)"
  "flags (cap_start c) = flags c - {Stopped}"
  "flags (stop_deposits c) = insert DepositsStopped (flags c)"
  "flags (allow_deposits c) = flags c - {DepositsStopped}"
  "flags (stop_withdrawals c) = insert WithdrawalsStopped (flags c)"
  "flags (allow_withdrawals c) = flags c - {WithdrawalsStopped}"
  using flags_default flags_insert [of c Tombstoned] flags_insert [of c Stopped]
    flags_insert [of c DepositsStopped] flags_insert [of c WithdrawalsStopped]
    flags_remove [of c Tombstoned] flags_remove [of c Stopped]
    flags_remove [of c DepositsStopped] flags_remove [of c WithdrawalsStopped]
  by (simp_all add: set_tombstoned_def untombstone_def set_stopped_def cap_start_def stop_deposits_def
      allow_deposits_def stop_withdrawals_def allow_withdrawals_def)

lemma capability_tests:
  "is_tombstoned c \<longleftrightarrow> Tombstoned \<in> flags c"
  "is_stopped c \<longleftrightarrow> Stopped \<in> flags c"
  "withdrawals_allowed c \<longleftrightarrow> flags c \<inter> {WithdrawalsStopped, Stopped} = {}"
  "deposits_allowed c \<longleftrightarrow> flags c \<inter> {DepositsStopped, Tombstoned, Stopped} = {}"
  using flag_contains_iff [of c Tombstoned] flag_contains_iff [of c Stopped]
    flag_contains_iff [of c WithdrawalsStopped] flag_contains_iff [of c DepositsStopped]
  by (auto simp: is_tombstoned_def is_stopped_def withdrawals_allowed_def withdrawals_stopped_def
      deposits_allowed_def deposits_stopped_def is_inactive_def)

section \<open>Stored data\<close>

datatype vault_deposit = Existential | Rent balance block_number

definition is_existential :: "vault_deposit \<Rightarrow> bool" where
  "is_existential d = (case d of Existential \<Rightarrow> True | Rent _ _ \<Rightarrow> False)"

datatype funds_availability = Withdrawable balance | Depositable balance | MustLiquidate

text \<open>A \<open>Perquintill\<close> is its number of parts, out of \<open>10 ^ 18\<close>.\<close>

type_synonym perquintill = nat

definition perquintill_one :: perquintill where "perquintill_one = 10 ^ 18"

record vault_setup =
  setup_asset_id :: asset_id
  setup_reserved :: perquintill
  setup_manager :: account_id
  setup_strategies :: "(account_id \<times> perquintill) list"

record vault_info =
  vault_asset_id :: asset_id
  lp_token_id :: asset_id
  manager :: account_id
  deposit :: vault_deposit
  capabilities :: capabilities

record strategy_overview =
  allocation :: perquintill
  strategy_balance :: balance
  lifetime_withdrawn :: balance
  lifetime_deposited :: balance

definition default_overview :: strategy_overview where
  "default_overview = \<lparr>allocation = 0, strategy_balance = 0, lifetime_withdrawn = 0, lifetime_deposited = 0\<rparr>"

section \<open>Rent\<close>

datatype verdict = Exempt | Charge balance balance | Evict

definition deposit_from_balance :: "balance \<Rightarrow> block_number \<Rightarrow> balance \<Rightarrow> vault_deposit" where
  "deposit_from_balance existential_deposit now amount =
     (if existential_deposit < amount then Existential else Rent amount now)"

definition evaluate_deletion :: "block_number \<Rightarrow> block_number \<Rightarrow> vault_deposit \<Rightarrow> bool" where
  "evaluate_deletion tombstone_duration current_block d =
     (case d of
        Existential \<Rightarrow> False
      | Rent _ at \<Rightarrow> tombstone_duration \<le> saturating_sub current_block at)"

definition evaluate_eviction :: "balance \<Rightarrow> block_number \<Rightarrow> vault_deposit \<Rightarrow> verdict" where
  "evaluate_eviction rent_per_block current_block d =
     (case d of
        Existential \<Rightarrow> Exempt
      | Rent amount at \<Rightarrow>
          if current_block \<le> at then Exempt
          else let num_blocks = min u32_max (saturating_sub current_block at);
                   rent_due = saturating_mul u128_max rent_per_block num_blocks
               in if amount \<le> rent_due then Evict
                  else Charge (saturating_sub amount rent_due) rent_due)"

section \<open>Validation\<close>

definition validate_creation_deposit :: "balance \<Rightarrow> balance \<Rightarrow> string + balance" where
  "validate_creation_deposit creation_deposit input =
     (if input < creation_deposit then Inl ''Insufficent Creation Deposit'' else Inr input)"

definition validate_max_strategies :: "nat \<Rightarrow> vault_setup \<Rightarrow> string + vault_setup" where
  "validate_max_strategies max_strategies input =
     (if max_strategies < length (setup_strategies input) then Inl ''Too Many Strategies'' else Inr input)"

text \<open>
  Charging rent in instalments: what a charge takes and what it leaves is what was there, and a
  deposit that is charged at some block on the way is never left with more, nor evicted later,
  than one that is charged once.
\<close>

lemma charge_splits:
  "evaluate_eviction rent now d = Charge remaining payable \<Longrightarrow>
     \<exists>at. d = Rent (remaining + payable) at \<and> at < now \<and> 0 < remaining"
  by (auto simp: evaluate_eviction_def saturating_sub_def Let_def split: vault_deposit.splits if_splits)

lemma charge_exact:
  assumes "now \<le> u32_max" "amount \<le> u128_max" "at < now"
  shows "evaluate_eviction rent now (Rent amount at) =
    (if amount \<le> rent * (now - at) then Evict
     else Charge (amount - rent * (now - at)) (rent * (now - at)))"
proof -
  have "min u32_max (now - at) = now - at" using assms(1) by simp
  then show ?thesis
    using assms(2,3)
    by (auto simp: evaluate_eviction_def saturating_sub_def saturating_mul_def Let_def min_def)
qed

lemma charge_in_instalments:
  assumes "at < mid" "mid < now" "now \<le> u32_max" "amount \<le> u128_max"
    and "evaluate_eviction rent mid (Rent amount at) = Charge remaining payable"
  shows "evaluate_eviction rent now (Rent remaining mid) =
    (case evaluate_eviction rent now (Rent amount at) of
       Charge r p \<Rightarrow> Charge r (p - payable) | v \<Rightarrow> v)"
proof -
  define x y where "x = rent * (mid - at)" and "y = rent * (now - mid)"
  have z: "rent * (now - at) = x + y"
    using assms(1,2) by (simp add: x_def y_def add_mult_distrib2 [symmetric])
  have x: "x < amount" "remaining = amount - x" "payable = x"
    using assms charge_exact [of mid amount at rent] by (auto simp: x_def split: if_splits)
  have "evaluate_eviction rent now (Rent remaining mid) =
      (if remaining \<le> y then Evict else Charge (remaining - y) y)"
    using charge_exact [of now remaining mid rent] assms(2-4) x by (simp add: y_def)
  moreover have "evaluate_eviction rent now (Rent amount at) =
      (if amount \<le> x + y then Evict else Charge (amount - (x + y)) (x + y))"
    using charge_exact [of now amount at rent] assms(1-4) by (simp add: z)
  ultimately show ?thesis using x by auto
qed

end
