(* ===== verification/Vault.thy ===== *)
theory Vault
  imports Assets Vault_Model
begin

text \<open>
  The vault pallet (frame/vault/src/lib.rs). A vault pools one asset: depositors receive LP
  tokens in proportion to the assets under management, strategies borrow from the pool, and the
  vault pays rent from a native deposit until it is tombstoned and deleted. The currencies, the
  derivation of accounts, \<open>multiply_by_rational\<close>, \<open>Perquintill::mul_floor\<close> and the fixed-point
  division are code outside the repository and fields of the configuration. \<open>VaultId\<close> is the
  \<open>u64\<close> of the runtime. Both currencies act on one state, since the multi-asset currency of the
  runtime contains the native one.
\<close>

section \<open>Configuration and state\<close>

type_synonym vault_id = nat

datatype vault_event =
    VaultCreated vault_id
  | Deposited account_id balance balance
  | LiquidateStrategy account_id balance
  | Withdrawn account_id balance balance
  | EmergencyShutdown vault_id
  | VaultStarted vault_id

record 'c vault_config =
  VCurrency :: "'c fungibles"
  VNativeCurrency :: "'c fungible"
  MaxStrategies :: nat
  MinimumDeposit :: balance
  MinimumWithdrawal :: balance
  CreationDeposit :: balance
  ExistentialDeposit :: balance
  TombstoneDuration :: block_number
  RentPerBlock :: balance
  vault_sub_account :: "string \<times> vault_id \<Rightarrow> account_id"
  multiply_by_rational :: mul_div
  mul_floor :: "perquintill \<Rightarrow> nat \<Rightarrow> nat"
  checked_from_rational :: "nat \<Rightarrow> nat \<Rightarrow> nat option"

text \<open>
  \<open>CapitalStructure\<close> is iterated by its first key, so it is an association list; iteration
  order does not matter to the code, which adds the balances up.
\<close>

record 'c vaults =
  VaultCount :: vault_id
  Vaults :: "vault_id \<rightharpoonup> vault_info"
  LpTokensToVaults :: "asset_id \<rightharpoonup> vault_id"
  CapitalStructure :: "((vault_id \<times> account_id) \<times> strategy_overview) list"
  vault_events :: "vault_event list"
  vault_block :: block_number
  vault_currency :: 'c
  vault_factory :: currency_factory

definition on_currency :: "('c, 'a) call \<Rightarrow> ('c vaults, 'a) call" where
  "on_currency m = zoom vault_currency (\<lambda>c s. s\<lparr>vault_currency := c\<rparr>) m"

definition on_factory :: "(currency_factory, 'a) call \<Rightarrow> ('c vaults, 'a) call" where
  "on_factory m = zoom vault_factory (\<lambda>f s. s\<lparr>vault_factory := f\<rparr>) m"

definition vault_deposit_event :: "vault_event \<Rightarrow> ('c vaults, unit) call" where
  "vault_deposit_event e = modifies (\<lambda>s. s\<lparr>vault_events := vault_events s @ [e]\<rparr>)"

definition set_vault :: "vault_id \<Rightarrow> vault_info option \<Rightarrow> 'c vaults \<Rightarrow> 'c vaults" where
  "set_vault i v s = s\<lparr>Vaults := (Vaults s)(i := v)\<rparr>"

definition capital :: "vault_id \<Rightarrow> account_id \<Rightarrow> 'c vaults \<Rightarrow> strategy_overview option" where
  "capital i acc s = map_of (CapitalStructure s) (i, acc)"

definition capital_or_default :: "vault_id \<Rightarrow> account_id \<Rightarrow> 'c vaults \<Rightarrow> strategy_overview" where
  "capital_or_default i acc s = (case capital i acc s of Some ov \<Rightarrow> ov | None \<Rightarrow> default_overview)"

definition set_capital :: "vault_id \<Rightarrow> account_id \<Rightarrow> strategy_overview \<Rightarrow> 'c vaults \<Rightarrow> 'c vaults" where
  "set_capital i acc ov s = s\<lparr>CapitalStructure := AList.update (i, acc) ov (CapitalStructure s)\<rparr>"

definition strategies_of :: "vault_id \<Rightarrow> 'c vaults \<Rightarrow> strategy_overview list" where
  "strategies_of i s = map snd (filter (\<lambda>((j, _), _). j = i) (CapitalStructure s))"

section \<open>Accounts and assets under management\<close>

definition account_id :: "'c vault_config \<Rightarrow> vault_id \<Rightarrow> account_id" where
  "account_id cfg i = vault_sub_account cfg ('''', i)"

definition rent_account :: "'c vault_config \<Rightarrow> vault_id \<Rightarrow> account_id" where
  "rent_account cfg i = vault_sub_account cfg (''rent_account____'', i)"

definition deletion_reward_account :: "'c vault_config \<Rightarrow> vault_id \<Rightarrow> account_id" where
  "deletion_reward_account cfg i = vault_sub_account cfg (''deletion_account'', i)"

definition get_vault_info :: "vault_id \<Rightarrow> ('c vaults, vault_info) call" where
  "get_vault_info i = bindM (reads Vaults) (\<lambda>vs. ok_or (vs i) (VaultErr VaultDoesNotExist))"

definition vault_asset :: "vault_id \<Rightarrow> ('c vaults, asset_id) call" where
  "vault_asset i = bindM (get_vault_info i) (\<lambda>v. ret (vault_asset_id v))"

definition vault_lp_asset :: "vault_id \<Rightarrow> ('c vaults, asset_id) call" where
  "vault_lp_asset i = bindM (get_vault_info i) (\<lambda>v. ret (lp_token_id v))"

definition do_assets_under_management :: "'c vault_config \<Rightarrow> vault_id \<Rightarrow> vault_info \<Rightarrow> 'c vaults \<Rightarrow> balance" where
  "do_assets_under_management cfg i v s =
     (let owned = f_balance (VCurrency cfg) (vault_asset_id v) (account_id cfg i) (vault_currency s);
          outstanding = foldl (\<lambda>sum item. wrapping_add u128_max sum (strategy_balance item)) 0 (strategies_of i s)
      in wrapping_add u128_max owned outstanding)"

definition assets_under_management :: "'c vault_config \<Rightarrow> vault_id \<Rightarrow> ('c vaults, balance) call" where
  "assets_under_management cfg i =
     bindM (get_vault_info i) (\<lambda>v. reads (do_assets_under_management cfg i v))"

definition do_lp_share_value ::
  "'c vault_config \<Rightarrow> vault_id \<Rightarrow> vault_info \<Rightarrow> balance \<Rightarrow> ('c vaults, balance) call" where
  "do_lp_share_value cfg i v lp_amount =
     bindM (reads (do_assets_under_management cfg i v)) (\<lambda>vault_aum.
     bindM (reads (\<lambda>s. f_total_issuance (VCurrency cfg) (lp_token_id v) (vault_currency s))) (\<lambda>issuance.
     ok_or (multiply_by_rational cfg lp_amount vault_aum issuance) (Arithmetic arithmetic_error.Overflow)))"

section \<open>Deposits and withdrawals of users\<close>

definition do_deposit ::
  "'c vault_config \<Rightarrow> vault_id \<Rightarrow> account_id \<Rightarrow> balance \<Rightarrow> ('c vaults, balance) call" where
  "do_deposit cfg i from amount =
     bindM (get_vault_info i) (\<lambda>v.
     thenM (ensure (deposits_allowed (capabilities v)) (VaultErr DepositsHalted))
    (bindM (reads (\<lambda>s. f_can_withdraw (VCurrency cfg) (vault_asset_id v) from amount (vault_currency s))) (\<lambda>can.
     thenM (ensure can (VaultErr TransferFromFailed))
    (bindM (assets_under_management cfg i) (\<lambda>vault_aum.
     if vault_aum = 0 then
       bindM (reads (\<lambda>s. f_can_deposit (VCurrency cfg) (lp_token_id v) from amount (vault_currency s))) (\<lambda>can_mint.
       thenM (ensure can_mint (VaultErr MintFailed))
      (thenM (map_err (\<lambda>_. VaultErr TransferFromFailed)
               (on_currency (f_transfer (VCurrency cfg) (vault_asset_id v) from (account_id cfg i) amount True)))
      (thenM (map_err (\<lambda>_. VaultErr MintFailed)
               (on_currency (f_mint_into (VCurrency cfg) (lp_token_id v) from amount)))
        (ret amount))))
     else
       bindM (reads (\<lambda>s. f_total_issuance (VCurrency cfg) (lp_token_id v) (vault_currency s))) (\<lambda>outstanding.
       bindM (ok_or (multiply_by_rational cfg amount outstanding vault_aum) (VaultErr NoFreeVaultAllocation)) (\<lambda>lp.
       thenM (ensure (0 < lp) (VaultErr InsufficientCreationDeposit))
      (bindM (reads (\<lambda>s. f_can_deposit (VCurrency cfg) (lp_token_id v) from lp (vault_currency s))) (\<lambda>can_mint.
       thenM (ensure can_mint (VaultErr MintFailed))
      (thenM (map_err (\<lambda>_. VaultErr TransferFromFailed)
               (on_currency (f_transfer (VCurrency cfg) (vault_asset_id v) from (account_id cfg i) amount True)))
      (thenM (map_err (\<lambda>_. VaultErr MintFailed)
               (on_currency (f_mint_into (VCurrency cfg) (lp_token_id v) from lp)))
        (ret lp))))))))))))"

definition do_withdraw ::
  "'c vault_config \<Rightarrow> vault_id \<Rightarrow> account_id \<Rightarrow> balance \<Rightarrow> ('c vaults, balance) call" where
  "do_withdraw cfg i to lp_amount =
     bindM (get_vault_info i) (\<lambda>v.
     thenM (ensure (withdrawals_allowed (capabilities v)) (VaultErr WithdrawalsHalted))
    (bindM (do_lp_share_value cfg i v lp_amount) (\<lambda>amount.
     bindM (reads (\<lambda>s. f_balance (VCurrency cfg) (vault_asset_id v) (account_id cfg i) (vault_currency s))) (\<lambda>owned.
     thenM (ensure (amount \<le> owned) (VaultErr NotEnoughLiquidity))
    (bindM (reads (\<lambda>s. f_can_withdraw (VCurrency cfg) (lp_token_id v) to lp_amount (vault_currency s))) (\<lambda>can_burn.
     thenM (ensure can_burn (VaultErr InsufficientLpTokens))
    (bindM (reads (\<lambda>s. f_can_withdraw (VCurrency cfg) (vault_asset_id v) (account_id cfg i) amount (vault_currency s))) (\<lambda>can.
     thenM (ensure can (VaultErr TransferFromFailed))
    (thenM (map_err (\<lambda>_. VaultErr InsufficientLpTokens)
             (on_currency (f_burn_from (VCurrency cfg) (lp_token_id v) to lp_amount)))
    (thenM (map_err (\<lambda>_. VaultErr TransferFromFailed)
             (on_currency (f_transfer (VCurrency cfg) (vault_asset_id v) (account_id cfg i) to amount True)))
      (ret amount)))))))))))"

section \<open>Creation\<close>

definition allocation_sum :: "vault_setup \<Rightarrow> nat option" where
  "allocation_sum config =
     foldl (\<lambda>sum (_, part). case sum of None \<Rightarrow> None | Some n \<Rightarrow> checked_add u64_max n part)
       (Some (setup_reserved config)) (setup_strategies config)"

definition do_create_vault ::
  "'c vault_config \<Rightarrow> vault_deposit \<Rightarrow> vault_setup \<Rightarrow> ('c vaults, vault_id \<times> vault_info) call" where
  "do_create_vault cfg dep config =
     try_mutate VaultCount (\<lambda>n s. s\<lparr>VaultCount := n\<rparr>)
       (\<lambda>count.
         let i = wrapping_add u64_max count 1 in
         bindM (ok_or (allocation_sum config) (VaultErr AllocationMustSumToOne)) (\<lambda>sum.
         thenM (ensure (sum = perquintill_one) (VaultErr AllocationMustSumToOne))
        (bindM (map_err (\<lambda>_. VaultErr CannotCreateAsset) (on_factory (create LP_TOKENS))) (\<lambda>lp.
         thenM (modifies (\<lambda>s. foldl (\<lambda>s (acc, part). set_capital i acc
                   \<lparr>allocation = part, strategy_balance = 0, lifetime_withdrawn = 0, lifetime_deposited = 0\<rparr> s)
                 s (setup_strategies config)))
        (let info = \<lparr>vault_asset_id = setup_asset_id config, lp_token_id = lp, manager = setup_manager config,
                     deposit = dep, capabilities = default_capabilities\<rparr>
         in thenM (modifies (set_vault i (Some info)))
           (thenM (modifies (\<lambda>s. s\<lparr>LpTokensToVaults := (LpTokensToVaults s)(lp \<mapsto> i)\<rparr>))
             (ret ((i, info), i))))))))"

text \<open>\<open>Vault::create\<close> of the trait.\<close>

definition vault_create ::
  "'c vault_config \<Rightarrow> vault_deposit \<Rightarrow> vault_setup \<Rightarrow> ('c vaults, vault_id) call" where
  "vault_create cfg dep config =
     (case validate_max_strategies (MaxStrategies cfg) config of
        Inr validated \<Rightarrow> bindM (do_create_vault cfg dep validated) (\<lambda>(i, _). ret i)
      | Inl _ \<Rightarrow> fail (VaultErr TooManyStrategies))"

definition vault_deposit_call ::
  "'c vault_config \<Rightarrow> vault_id \<Rightarrow> account_id \<Rightarrow> balance \<Rightarrow> ('c vaults, balance) call" where
  "vault_deposit_call cfg i from amount =
     thenM (ensure (MinimumDeposit cfg < amount) (VaultErr AmountMustGteMinimumDeposit))
       (do_deposit cfg i from amount)"

definition vault_withdraw_call ::
  "'c vault_config \<Rightarrow> vault_id \<Rightarrow> account_id \<Rightarrow> balance \<Rightarrow> ('c vaults, balance) call" where
  "vault_withdraw_call cfg i to lp_amount =
     thenM (ensure (MinimumWithdrawal cfg < lp_amount) (VaultErr AmountMustGteMinimumWithdrawal))
       (do_withdraw cfg i to lp_amount)"

text \<open>\<open>Rate\<close> is \<open>FixedU128\<close>: a number of \<open>10 ^ 18\<close>-th parts.\<close>

definition stock_dilution_rate :: "'c vault_config \<Rightarrow> vault_id \<Rightarrow> ('c vaults, nat) call" where
  "stock_dilution_rate cfg i =
     bindM (get_vault_info i) (\<lambda>v.
     bindM (reads (\<lambda>s. f_total_issuance (VCurrency cfg) (lp_token_id v) (vault_currency s))) (\<lambda>issuance.
     if issuance = 0 then ret (10 ^ 18)
     else bindM (reads (do_assets_under_management cfg i v)) (\<lambda>aum.
          ret (case checked_from_rational cfg aum issuance of Some r \<Rightarrow> r | None \<Rightarrow> 0))))"

definition token_vault :: "asset_id \<Rightarrow> ('c vaults, vault_id) call" where
  "token_vault token =
     bindM (reads LpTokensToVaults) (\<lambda>m. ok_or (m token) (VaultErr NotVaultLpToken))"

section \<open>Strategies\<close>

definition available_funds :: "'c vault_config \<Rightarrow> vault_id \<Rightarrow> account_id \<Rightarrow> ('c vaults, funds_availability) call" where
  "available_funds cfg i acc =
     bindM (reads Vaults) (\<lambda>vs.
     bindM (reads (capital i acc)) (\<lambda>cap.
     case (vs i, cap) of
       (Some v, Some ov) \<Rightarrow>
         if \<not> is_stopped (capabilities v) \<and> \<not> is_tombstoned (capabilities v) then
           bindM (assets_under_management cfg i) (\<lambda>aum.
           let max_allowed = mul_floor cfg (allocation ov) aum in
           ret (if max_allowed \<le> strategy_balance ov then Depositable (strategy_balance ov - max_allowed)
                else Withdrawable (max_allowed - strategy_balance ov)))
         else ret MustLiquidate
     | _ \<Rightarrow> ret MustLiquidate))"

definition strategy_withdraw ::
  "'c vault_config \<Rightarrow> vault_id \<Rightarrow> account_id \<Rightarrow> balance \<Rightarrow> ('c vaults, unit) call" where
  "strategy_withdraw cfg i to amount =
     bindM (get_vault_info i) (\<lambda>v.
     try_mutate (capital_or_default i to) (set_capital i to)
       (\<lambda>state.
         bindM (ok_or (checked_add u128_max (strategy_balance state) amount) (Arithmetic arithmetic_error.Overflow)) (\<lambda>bal.
         bindM (ok_or (checked_add u128_max (lifetime_withdrawn state) amount) (Arithmetic arithmetic_error.Overflow)) (\<lambda>life.
         thenM (map_err (\<lambda>_. VaultErr vault_error.InsufficientFunds)
                 (on_currency (f_transfer (VCurrency cfg) (vault_asset_id v) (account_id cfg i) to amount True)))
           (ret ((), state\<lparr>strategy_balance := bal, lifetime_withdrawn := life\<rparr>))))))"

definition strategy_deposit ::
  "'c vault_config \<Rightarrow> vault_id \<Rightarrow> account_id \<Rightarrow> balance \<Rightarrow> ('c vaults, unit) call" where
  "strategy_deposit cfg i from amount =
     bindM (get_vault_info i) (\<lambda>v.
     try_mutate (capital_or_default i from) (set_capital i from)
       (\<lambda>state.
         bindM (ok_or (checked_add u128_max (lifetime_deposited state) amount) (Arithmetic arithmetic_error.Overflow)) (\<lambda>life.
         thenM (map_err (\<lambda>_. VaultErr vault_error.InsufficientFunds)
                 (on_currency (f_transfer (VCurrency cfg) (vault_asset_id v) from (account_id cfg i) amount True)))
           (ret ((), state\<lparr>strategy_balance := saturating_sub (strategy_balance state) amount,
                           lifetime_deposited := life\<rparr>)))))"

definition update_strategy_report :: "vault_id \<Rightarrow> account_id \<Rightarrow> balance \<Rightarrow> ('c vaults, unit) call" where
  "update_strategy_report i acc report =
     modifies (\<lambda>s. set_capital i acc ((capital_or_default i acc s)\<lparr>strategy_balance := report\<rparr>) s)"

section \<open>Capabilities of a stored vault\<close>

text \<open>The shape all the operations of \<open>CapabilityVault\<close> share.\<close>

definition mutate_capabilities ::
  "(capabilities \<Rightarrow> bool) \<Rightarrow> string \<Rightarrow> (capabilities \<Rightarrow> capabilities) \<Rightarrow> vault_id \<Rightarrow> ('c vaults, unit) call" where
  "mutate_capabilities allowed msg f i =
     try_mutate (\<lambda>s. Vaults s i) (set_vault i)
       (\<lambda>vault. case vault of
          Some v \<Rightarrow> thenM (ensure (allowed (capabilities v)) (Other msg))
                     (ret ((), Some (v\<lparr>capabilities := f (capabilities v)\<rparr>)))
        | None \<Rightarrow> fail CannotLookup)"

definition vault_stop :: "vault_id \<Rightarrow> ('c vaults, unit) call" where
  "vault_stop = mutate_capabilities (\<lambda>c. \<not> is_tombstoned c) ''cannot stop a tombstoned vault'' set_stopped"

definition vault_start :: "vault_id \<Rightarrow> ('c vaults, unit) call" where
  "vault_start = mutate_capabilities (\<lambda>c. \<not> is_tombstoned c) ''cannot start a tombstoned vault'' cap_start"

definition vault_tombstone :: "vault_id \<Rightarrow> ('c vaults, unit) call" where
  "vault_tombstone =
     mutate_capabilities (\<lambda>c. \<not> is_tombstoned c) ''cannot tombstone a tombstoned vault'' set_tombstoned"

definition vault_untombstone :: "vault_id \<Rightarrow> ('c vaults, unit) call" where
  "vault_untombstone =
     mutate_capabilities is_tombstoned ''cannot untombstone a non-tombstoned vault'' untombstone"

definition vault_stop_withdrawals :: "vault_id \<Rightarrow> ('c vaults, unit) call" where
  "vault_stop_withdrawals = mutate_capabilities (\<lambda>_. True) '''' stop_withdrawals"

definition vault_allow_withdrawals :: "vault_id \<Rightarrow> ('c vaults, unit) call" where
  "vault_allow_withdrawals = mutate_capabilities (\<lambda>_. True) '''' allow_withdrawals"

definition vault_stop_deposits :: "vault_id \<Rightarrow> ('c vaults, unit) call" where
  "vault_stop_deposits = mutate_capabilities (\<lambda>_. True) '''' stop_deposits"

definition vault_allow_deposits :: "vault_id \<Rightarrow> ('c vaults, unit) call" where
  "vault_allow_deposits =
     mutate_capabilities (\<lambda>c. \<not> is_tombstoned c) ''cannot allow deposits of a tombstoned vault'' allow_deposits"

section \<open>The dispatchables\<close>

definition create_vault ::
  "'c vault_config \<Rightarrow> raw_origin \<Rightarrow> vault_setup \<Rightarrow> balance \<Rightarrow> ('c vaults, unit) call" where
  "create_vault cfg orig setup deposit_amount =
     transactional
     (bindM (ensure_signed orig) (\<lambda>from.
      let deletion_reward = CreationDeposit cfg in
      bindM (ok_or (checked_sub deposit_amount deletion_reward) (VaultErr InsufficientCreationDeposit)) (\<lambda>amount.
      bindM (reads (\<lambda>s. deposit_from_balance (ExistentialDeposit cfg) (vault_block s) amount)) (\<lambda>dep.
      bindM (vault_create cfg dep setup) (\<lambda>i.
      thenM (on_currency (n_transfer (VNativeCurrency cfg) from (deletion_reward_account cfg i) deletion_reward True))
     (thenM (on_currency (n_transfer (VNativeCurrency cfg) from (rent_account cfg i) amount True))
       (vault_deposit_event (VaultCreated i))))))))"

definition reward_address :: "raw_origin \<Rightarrow> account_id option \<Rightarrow> ('s, account_id) call" where
  "reward_address orig address =
     (case (orig, address) of
        (SignedOrigin account, None) \<Rightarrow> ret account
      | (NoneOrigin, Some account) \<Rightarrow> ret account
      | _ \<Rightarrow> fail (VaultErr InvalidSurchargeClaim))"

definition claim_surcharge ::
  "'c vault_config \<Rightarrow> raw_origin \<Rightarrow> vault_id \<Rightarrow> account_id option \<Rightarrow> ('c vaults, unit) call" where
  "claim_surcharge cfg orig dest address =
     bindM (reward_address orig address) (\<lambda>reward_acc.
     try_mutate (\<lambda>s. Vaults s dest) (set_vault dest)
       (\<lambda>vault.
         bindM (ok_or vault (VaultErr VaultDoesNotExist)) (\<lambda>v.
         bindM (reads vault_block) (\<lambda>now.
         case evaluate_eviction (RentPerBlock cfg) now (deposit v) of
           Exempt \<Rightarrow> ret ((), Some v)
         | Evict \<Rightarrow>
             bindM (reads (\<lambda>s. n_reducible_balance (VNativeCurrency cfg) (rent_account cfg dest) False (vault_currency s))) (\<lambda>reward.
             thenM (on_currency (n_transfer (VNativeCurrency cfg) (rent_account cfg dest) reward_acc reward False))
               (ret ((), Some (v\<lparr>deposit := Rent 0 now, capabilities := set_tombstoned (capabilities v)\<rparr>))))
         | Charge remaining payable \<Rightarrow>
             thenM (on_currency (n_transfer (VNativeCurrency cfg) (rent_account cfg dest) reward_acc payable True))
               (ret ((), Some (v\<lparr>deposit := Rent remaining now\<rparr>)))))))"

definition add_surcharge ::
  "'c vault_config \<Rightarrow> raw_origin \<Rightarrow> vault_id \<Rightarrow> balance \<Rightarrow> ('c vaults, unit) call" where
  "add_surcharge cfg orig dest raw_amount =
     (case validate_creation_deposit (CreationDeposit cfg) raw_amount of
        Inl msg \<Rightarrow> fail (Other msg)
      | Inr amount \<Rightarrow>
          bindM (ensure_signed orig) (\<lambda>payer.
          try_mutate (\<lambda>s. Vaults s dest) (set_vault dest)
            (\<lambda>vault.
              bindM (ok_or vault (VaultErr VaultDoesNotExist)) (\<lambda>v.
              case deposit v of
                Existential \<Rightarrow> fail (VaultErr InvalidAddSurcharge)
              | Rent current _ \<Rightarrow>
                  thenM (on_currency (n_transfer (VNativeCurrency cfg) payer (rent_account cfg dest) amount False))
                 (bindM (reads (\<lambda>s. deposit_from_balance (ExistentialDeposit cfg) (vault_block s)
                            (wrapping_add u128_max amount current))) (\<lambda>dep.
                  ret ((), Some (v\<lparr>deposit := dep, capabilities := untombstone (capabilities v)\<rparr>)))))))
     )"

definition delete_tombstoned ::
  "'c vault_config \<Rightarrow> raw_origin \<Rightarrow> vault_id \<Rightarrow> account_id option \<Rightarrow> ('c vaults, unit) call" where
  "delete_tombstoned cfg orig dest address =
     bindM (reward_address orig address) (\<lambda>reward_acc.
     try_mutate (\<lambda>s. Vaults s dest) (set_vault dest)
       (\<lambda>vault.
         bindM (ok_or vault (VaultErr VaultDoesNotExist)) (\<lambda>v.
         thenM (ensure (is_tombstoned (capabilities v)) (VaultErr VaultNotTombstoned))
        (bindM (reads vault_block) (\<lambda>now.
         if \<not> evaluate_deletion (TombstoneDuration cfg) now (deposit v)
         then fail (VaultErr TombstoneDurationNotExceeded)
         else
           bindM (reads (\<lambda>s. n_reducible_balance (VNativeCurrency cfg) (deletion_reward_account cfg dest) False (vault_currency s))) (\<lambda>reward.
           thenM (on_currency (n_transfer (VNativeCurrency cfg) (deletion_reward_account cfg dest) reward_acc reward False))
          (thenM (modifies (\<lambda>s. s\<lparr>LpTokensToVaults := (LpTokensToVaults s)(vault_asset_id v := None)\<rparr>))
            (ret ((), None)))))))))"

definition deposit_into_vault ::
  "'c vault_config \<Rightarrow> raw_origin \<Rightarrow> vault_id \<Rightarrow> balance \<Rightarrow> ('c vaults, unit) call" where
  "deposit_into_vault cfg orig i asset_amount =
     bindM (ensure_signed orig) (\<lambda>from.
     bindM (vault_deposit_call cfg i from asset_amount) (\<lambda>lp_amount.
     vault_deposit_event (Deposited from asset_amount lp_amount)))"

definition withdraw_from_vault ::
  "'c vault_config \<Rightarrow> raw_origin \<Rightarrow> vault_id \<Rightarrow> balance \<Rightarrow> ('c vaults, unit) call" where
  "withdraw_from_vault cfg orig i lp_amount =
     bindM (ensure_signed orig) (\<lambda>to.
     bindM (vault_withdraw_call cfg i to lp_amount) (\<lambda>asset_amount.
     vault_deposit_event (Withdrawn to lp_amount asset_amount)))"

definition emergency_shutdown :: "raw_origin \<Rightarrow> vault_id \<Rightarrow> ('c vaults, unit) call" where
  "emergency_shutdown orig i =
     thenM (ensure_root orig) (thenM (vault_stop i) (vault_deposit_event (EmergencyShutdown i)))"

definition start_vault :: "raw_origin \<Rightarrow> vault_id \<Rightarrow> ('c vaults, unit) call" where
  "start_vault orig i =
     thenM (ensure_root orig) (thenM (vault_start i) (vault_deposit_event (VaultStarted i)))"

definition liquidate_strategy :: "raw_origin \<Rightarrow> vault_id \<Rightarrow> account_id \<Rightarrow> ('c vaults, unit) call" where
  "liquidate_strategy orig i strategy =
     bindM (ensure_signed orig) (\<lambda>from.
     bindM (get_vault_info i) (\<lambda>v.
     thenM (ensure (manager v = from) (VaultErr AccountIsNotManager))
    (bindM (reads (capital i strategy)) (\<lambda>cap.
     bindM (ok_or cap CannotLookup) (\<lambda>ov.
     thenM (modifies (\<lambda>s. s\<lparr>CapitalStructure := AList.delete (i, strategy) (CapitalStructure s)\<rparr>))
       (vault_deposit_event (LiquidateStrategy strategy (strategy_balance ov))))))))"

end
