(* ===== verification/Vault_Shares.thy ===== *)
theory Vault_Shares
  imports Vault
begin

text \<open>
  What the vault pallet promises its depositors: an LP token never loses value through the
  operations of other users or of strategies that return what they borrowed, a deposit followed
  by a withdrawal is no profit, and a new vault has an identifier and an LP token of its own.
\<close>

section \<open>Successful runs\<close>

lemma get_vault_info_ok [ok_simps]:
  "get_vault_info i s = (Inr v, t) \<longleftrightarrow> Vaults s i = Some v \<and> t = s"
  by (auto simp: get_vault_info_def ok_simps)

lemma keeps_get_vault_info [keeps_intros]: "keeps (get_vault_info i)"
  unfolding get_vault_info_def by (intro keeps_intros)

lemma assets_under_management_ok [ok_simps]:
  "assets_under_management cfg i s = (Inr n, t) \<longleftrightarrow>
     (\<exists>v. Vaults s i = Some v \<and> n = do_assets_under_management cfg i v s) \<and> t = s"
  by (auto simp: assets_under_management_def ok_simps)

lemma on_currency_ok [ok_simps]:
  "on_currency m s = (Inr x, t) \<longleftrightarrow>
     (\<exists>c. m (vault_currency s) = (Inr x, c) \<and> t = s\<lparr>vault_currency := c\<rparr>)"
  by (simp add: on_currency_def ok_simps)

lemma vault_deposit_event_ok [ok_simps]:
  "vault_deposit_event e s = (Inr x, t) \<longleftrightarrow> t = s\<lparr>vault_events := vault_events s @ [e]\<rparr>"
  by (simp add: vault_deposit_event_def ok_simps)

section \<open>Assets under management\<close>

text \<open>The sum without wrap-around; the code computes it modulo the width of the balance.\<close>

definition strategy_total :: "vault_id \<Rightarrow> ((vault_id \<times> account_id) \<times> strategy_overview) list \<Rightarrow> balance" where
  "strategy_total i xs = sum_list (map (strategy_balance \<circ> snd) (filter (\<lambda>((j, _), _). j = i) xs))"

definition aum :: "'c vault_config \<Rightarrow> vault_id \<Rightarrow> vault_info \<Rightarrow> 'c vaults \<Rightarrow> balance" where
  "aum cfg i v s =
     f_balance (VCurrency cfg) (vault_asset_id v) (account_id cfg i) (vault_currency s) +
     strategy_total i (CapitalStructure s)"

definition lp_issued :: "'c vault_config \<Rightarrow> vault_info \<Rightarrow> 'c vaults \<Rightarrow> balance" where
  "lp_issued cfg v s = f_total_issuance (VCurrency cfg) (lp_token_id v) (vault_currency s)"

lemma foldl_wrapping:
  "foldl (\<lambda>sum item. wrapping_add mx sum (f item)) a xs mod (mx + 1) = (a + sum_list (map f xs)) mod (mx + 1)"
proof (induction xs arbitrary: a)
  case (Cons x xs)
  show ?case
    by (simp add: Cons.IH [of "wrapping_add mx a (f x)", simplified]) (simp add: wrapping_add_def mod_add_left_eq add.assoc)
qed simp

lemma do_aum_eq: "do_assets_under_management cfg i v s = aum cfg i v s mod (u128_max + 1)"
proof -
  let ?o = "f_balance (VCurrency cfg) (vault_asset_id v) (account_id cfg i) (vault_currency s)"
  let ?f = "foldl (\<lambda>sum item. wrapping_add u128_max sum (strategy_balance item)) 0 (strategies_of i s)"
  have "?f mod (u128_max + 1) = strategy_total i (CapitalStructure s) mod (u128_max + 1)"
    by (simp only: foldl_wrapping) (simp add: strategies_of_def strategy_total_def)
  then have "(?o + ?f) mod (u128_max + 1) = (?o + strategy_total i (CapitalStructure s)) mod (u128_max + 1)"
    by (metis mod_add_right_eq)
  then show ?thesis
    by (simp add: do_assets_under_management_def wrapping_add_def aum_def)
qed

lemma do_aum_exact: "aum cfg i v s \<le> u128_max \<Longrightarrow> do_assets_under_management cfg i v s = aum cfg i v s"
  by (simp add: do_aum_eq)

lemma capital_currency [simp]:
  "capital_or_default i acc (s\<lparr>vault_currency := c\<rparr>) = capital_or_default i acc s"
  by (simp add: capital_or_default_def capital_def)

lemma strategy_total_update:
  "strategy_total i (AList.update (j, acc) ov xs) +
     (if j = i then case map_of xs (j, acc) of Some old \<Rightarrow> strategy_balance old | None \<Rightarrow> 0 else 0) =
   strategy_total i xs + (if j = i then strategy_balance ov else 0)"
  by (induction xs) (auto simp: strategy_total_def split: option.split)

lemma strategy_total_set_capital:
  "strategy_total i (CapitalStructure (set_capital i acc ov s)) + strategy_balance (capital_or_default i acc s) =
     strategy_total i (CapitalStructure s) + strategy_balance ov"
  using strategy_total_update [of i i acc ov "CapitalStructure s"]
  by (auto simp: set_capital_def capital_or_default_def capital_def default_overview_def split: option.splits)

section \<open>Deposits and withdrawals\<close>

lemma do_deposit_run:
  assumes "do_deposit cfg i from amount s = (Inr lp, t)" "Vaults s i = Some v"
  shows "\<exists>m u c1 c2. deposits_allowed (capabilities v) \<and>
    f_transfer (VCurrency cfg) (vault_asset_id v) from (account_id cfg i) amount True (vault_currency s) = (Inr m, c1) \<and>
    f_mint_into (VCurrency cfg) (lp_token_id v) from lp c1 = (Inr u, c2) \<and>
    t = s\<lparr>vault_currency := c2\<rparr> \<and>
    (if do_assets_under_management cfg i v s = 0 then lp = amount
     else multiply_by_rational cfg amount (lp_issued cfg v s) (do_assets_under_management cfg i v s) = Some lp \<and> 0 < lp)"
  using assms by (auto simp: do_deposit_def ok_simps lp_issued_def)

lemma do_withdraw_run:
  assumes "do_withdraw cfg i to lp s = (Inr amount, t)" "Vaults s i = Some v"
  shows "\<exists>m u c1 c2. withdrawals_allowed (capabilities v) \<and>
    multiply_by_rational cfg lp (do_assets_under_management cfg i v s) (lp_issued cfg v s) = Some amount \<and>
    amount \<le> f_balance (VCurrency cfg) (vault_asset_id v) (account_id cfg i) (vault_currency s) \<and>
    f_burn_from (VCurrency cfg) (lp_token_id v) to lp (vault_currency s) = (Inr m, c1) \<and>
    f_transfer (VCurrency cfg) (vault_asset_id v) (account_id cfg i) to amount True c1 = (Inr u, c2) \<and>
    t = s\<lparr>vault_currency := c2\<rparr>"
  using assms by (auto simp: do_withdraw_def do_lp_share_value_def ok_simps lp_issued_def)

text \<open>
  A vault whose books can be computed: its LP token is not its asset, and its assets fit the
  balance type.
\<close>

definition sound_vault :: "'c vault_config \<Rightarrow> vault_id \<Rightarrow> vault_info \<Rightarrow> 'c vaults \<Rightarrow> bool" where
  "sound_vault cfg i v s \<longleftrightarrow>
     Vaults s i = Some v \<and> lp_token_id v \<noteq> vault_asset_id v \<and> aum cfg i v s \<le> u128_max"

text \<open>The value of an LP token does not fall: the ratios compared by cross multiplication.\<close>

definition price_kept :: "balance \<Rightarrow> balance \<Rightarrow> balance \<Rightarrow> balance \<Rightarrow> bool" where
  "price_kept assets shares assets' shares' \<longleftrightarrow> assets * shares' \<le> assets' * shares"

lemma price_kept_refl: "price_kept a s a s"
  by (simp add: price_kept_def)

lemma price_kept_trans:
  assumes "price_kept a s b t" "price_kept b t c u" "0 < t"
  shows "price_kept a s c u"
proof -
  have "a * u * t \<le> b * s * u" using assms(1) by (simp add: price_kept_def mult.commute mult.left_commute)
  also have "\<dots> \<le> c * t * s" using assms(2) by (simp add: price_kept_def mult.commute mult.left_commute)
  finally show ?thesis using assms(3) by (simp add: price_kept_def mult.commute mult.left_commute)
qed

lemma price_kept_value:
  assumes "price_kept a s b t" "0 < s" "0 < t"
  shows "k * a div s \<le> k * b div t"
proof -
  have "k * a div s = k * a * t div (s * t)" using assms(3) by (simp add: div_mult_mult2)
  also have "\<dots> \<le> k * b * s div (s * t)"
    using assms(1) by (intro div_le_mono) (simp add: price_kept_def mult.assoc)
  also have "\<dots> = k * b div t" using assms(2) by (simp add: mult.commute [of s t] div_mult_mult2)
  finally show ?thesis .
qed

lemma price_kept_deposit:
  assumes "0 < a" "lp = n * s div a"
  shows "price_kept a s (a + n) (s + lp)"
proof -
  have "lp * a \<le> n * s" using assms by (simp add: div_times_less_eq_dividend)
  then show ?thesis by (simp add: price_kept_def algebra_simps)
qed

lemma price_kept_withdraw:
  assumes "0 < s" "n = lp * a div s"
  shows "price_kept a s (a - n) (s - lp)"
proof -
  have "n * s \<le> lp * a" using assms by (simp add: div_times_less_eq_dividend)
  then show ?thesis by (simp add: price_kept_def diff_mult_distrib diff_mult_distrib2 mult.commute)
qed

locale vault_ledger = fungibles_ledger "VCurrency cfg" for cfg :: "'c vault_config" +
  assumes mul_div: "exact_mul_div (multiply_by_rational cfg)"
begin

lemma do_deposit_effect:
  assumes run: "do_deposit cfg i from amount s = (Inr lp, t)" and "sound_vault cfg i v s"
    and "from \<noteq> account_id cfg i"
  shows "aum cfg i v t = aum cfg i v s + amount" "lp_issued cfg v t = lp_issued cfg v s + lp"
    "Vaults t = Vaults s" "CapitalStructure t = CapitalStructure s"
    "aum cfg i v s = 0 \<Longrightarrow> lp = amount" "0 < aum cfg i v s \<Longrightarrow> lp = amount * lp_issued cfg v s div aum cfg i v s"
proof -
  have v: "Vaults s i = Some v" "lp_token_id v \<noteq> vault_asset_id v"
    and A: "do_assets_under_management cfg i v s = aum cfg i v s"
    using assms(2) by (auto simp: sound_vault_def do_aum_exact)
  obtain m u c1 c2 where
    tr: "f_transfer (VCurrency cfg) (vault_asset_id v) from (account_id cfg i) amount True (vault_currency s) = (Inr m, c1)"
    and mint: "f_mint_into (VCurrency cfg) (lp_token_id v) from lp c1 = (Inr u, c2)"
    and t: "t = s\<lparr>vault_currency := c2\<rparr>"
    and lp: "if aum cfg i v s = 0 then lp = amount
      else multiply_by_rational cfg amount (lp_issued cfg v s) (aum cfg i v s) = Some lp \<and> 0 < lp"
    using do_deposit_run [OF run v(1)] unfolding A by blast
  have bal: "f_balance (VCurrency cfg) (vault_asset_id v) (account_id cfg i) c2 =
      f_balance (VCurrency cfg) (vault_asset_id v) (account_id cfg i) (vault_currency s) + amount"
    using transfer_balance [OF tr, of "vault_asset_id v" "account_id cfg i"]
      mint_balance [OF mint, of "vault_asset_id v" "account_id cfg i"] v(2) assms(3) by simp
  have iss: "f_total_issuance (VCurrency cfg) (lp_token_id v) c2 =
      f_total_issuance (VCurrency cfg) (lp_token_id v) (vault_currency s) + lp"
    using transfer_total [OF tr, of "lp_token_id v"] mint_total [OF mint, of "lp_token_id v"] by simp
  show "aum cfg i v t = aum cfg i v s + amount" "lp_issued cfg v t = lp_issued cfg v s + lp"
    "Vaults t = Vaults s" "CapitalStructure t = CapitalStructure s"
    using bal iss t by (simp_all add: aum_def lp_issued_def)
  show "aum cfg i v s = 0 \<Longrightarrow> lp = amount" using lp by simp
  show "0 < aum cfg i v s \<Longrightarrow> lp = amount * lp_issued cfg v s div aum cfg i v s"
    using lp exact_mul_divD [OF mul_div] by simp
qed

lemma do_withdraw_effect:
  assumes run: "do_withdraw cfg i to lp s = (Inr amount, t)" and "sound_vault cfg i v s"
    and "to \<noteq> account_id cfg i" "dust_free (VCurrency cfg) (lp_token_id v)" "0 < lp_issued cfg v s"
  shows "aum cfg i v t = aum cfg i v s - amount" "lp_issued cfg v t = lp_issued cfg v s - lp"
    "Vaults t = Vaults s" "CapitalStructure t = CapitalStructure s"
    "amount = lp * aum cfg i v s div lp_issued cfg v s" "amount \<le> aum cfg i v s"
    "lp \<le> f_balance (VCurrency cfg) (lp_token_id v) to (vault_currency s)"
proof -
  have v: "Vaults s i = Some v" "lp_token_id v \<noteq> vault_asset_id v"
    and A: "do_assets_under_management cfg i v s = aum cfg i v s"
    using assms(2) by (auto simp: sound_vault_def do_aum_exact)
  obtain m u c1 c2 where
    share: "multiply_by_rational cfg lp (aum cfg i v s) (lp_issued cfg v s) = Some amount"
    and enough: "amount \<le> f_balance (VCurrency cfg) (vault_asset_id v) (account_id cfg i) (vault_currency s)"
    and burn: "f_burn_from (VCurrency cfg) (lp_token_id v) to lp (vault_currency s) = (Inr m, c1)"
    and tr: "f_transfer (VCurrency cfg) (vault_asset_id v) (account_id cfg i) to amount True c1 = (Inr u, c2)"
    and t: "t = s\<lparr>vault_currency := c2\<rparr>"
    using do_withdraw_run [OF run v(1)] unfolding A by blast
  have bal: "f_balance (VCurrency cfg) (vault_asset_id v) (account_id cfg i) c2 =
      f_balance (VCurrency cfg) (vault_asset_id v) (account_id cfg i) (vault_currency s) - amount"
    using transfer_balance [OF tr, of "vault_asset_id v" "account_id cfg i"]
      burn_balance [OF burn assms(4), of "vault_asset_id v" "account_id cfg i"] v(2) assms(3) by simp
  have iss: "f_total_issuance (VCurrency cfg) (lp_token_id v) c2 =
      f_total_issuance (VCurrency cfg) (lp_token_id v) (vault_currency s) - lp"
    using transfer_total [OF tr, of "lp_token_id v"] burn_total [OF burn assms(4), of "lp_token_id v"] by simp
  show "aum cfg i v t = aum cfg i v s - amount" "lp_issued cfg v t = lp_issued cfg v s - lp"
    "Vaults t = Vaults s" "CapitalStructure t = CapitalStructure s" "amount \<le> aum cfg i v s"
    using bal iss t enough by (simp_all add: aum_def lp_issued_def)
  show "amount = lp * aum cfg i v s div lp_issued cfg v s"
    using share exact_mul_divD [OF mul_div assms(5)] by simp
  show "lp \<le> f_balance (VCurrency cfg) (lp_token_id v) to (vault_currency s)"
    using burn_enough [OF burn] .
qed

lemma strategy_withdraw_effect:
  assumes run: "strategy_withdraw cfg i to amount s = (Inr u, t)" and "sound_vault cfg i v s"
    and "to \<noteq> account_id cfg i"
  shows "aum cfg i v t = aum cfg i v s" "lp_issued cfg v t = lp_issued cfg v s" "Vaults t = Vaults s"
    "strategy_balance (capital_or_default i to t) = strategy_balance (capital_or_default i to s) + amount"
proof -
  have v: "Vaults s i = Some v" "lp_token_id v \<noteq> vault_asset_id v"
    using assms(2) by (auto simp: sound_vault_def)
  let ?ov = "capital_or_default i to s"
  obtain m c where
    tr: "f_transfer (VCurrency cfg) (vault_asset_id v) (account_id cfg i) to amount True (vault_currency s) = (Inr m, c)"
    and t: "t = set_capital i to (?ov\<lparr>strategy_balance := strategy_balance ?ov + amount,
        lifetime_withdrawn := lifetime_withdrawn ?ov + amount\<rparr>) (s\<lparr>vault_currency := c\<rparr>)"
    using run v(1) by (auto simp: strategy_withdraw_def ok_simps checked_add_def split: if_splits)
  have "amount \<le> f_balance (VCurrency cfg) (vault_asset_id v) (account_id cfg i) (vault_currency s)"
    using transfer_enough [OF tr] assms(3) by simp
  moreover have "f_balance (VCurrency cfg) (vault_asset_id v) (account_id cfg i) c =
      f_balance (VCurrency cfg) (vault_asset_id v) (account_id cfg i) (vault_currency s) - amount"
    using transfer_balance [OF tr, of "vault_asset_id v" "account_id cfg i"] assms(3) by simp
  moreover have "strategy_total i (CapitalStructure t) = strategy_total i (CapitalStructure s) + amount"
    using strategy_total_set_capital [of i to "?ov\<lparr>strategy_balance := strategy_balance ?ov + amount,
        lifetime_withdrawn := lifetime_withdrawn ?ov + amount\<rparr>" "s\<lparr>vault_currency := c\<rparr>"] t by simp
  ultimately show "aum cfg i v t = aum cfg i v s"
    using t by (simp add: aum_def set_capital_def)
  show "lp_issued cfg v t = lp_issued cfg v s" "Vaults t = Vaults s"
    using transfer_total [OF tr, of "lp_token_id v"] t by (simp_all add: lp_issued_def set_capital_def)
  show "strategy_balance (capital_or_default i to t) = strategy_balance ?ov + amount"
    using t by (simp add: capital_or_default_def capital_def set_capital_def update_conv)
qed

lemma strategy_deposit_effect:
  assumes run: "strategy_deposit cfg i acc amount s = (Inr u, t)" and "sound_vault cfg i v s"
    and "acc \<noteq> account_id cfg i"
  shows "aum cfg i v t = aum cfg i v s + (amount - strategy_balance (capital_or_default i acc s))"
    "lp_issued cfg v t = lp_issued cfg v s" "Vaults t = Vaults s"
proof -
  have v: "Vaults s i = Some v" "lp_token_id v \<noteq> vault_asset_id v"
    using assms(2) by (auto simp: sound_vault_def)
  let ?ov = "capital_or_default i acc s"
  obtain m c where
    tr: "f_transfer (VCurrency cfg) (vault_asset_id v) acc (account_id cfg i) amount True (vault_currency s) = (Inr m, c)"
    and t: "t = set_capital i acc (?ov\<lparr>strategy_balance := strategy_balance ?ov - amount,
        lifetime_deposited := lifetime_deposited ?ov + amount\<rparr>) (s\<lparr>vault_currency := c\<rparr>)"
    using run v(1)
    by (auto simp: strategy_deposit_def ok_simps checked_add_def saturating_sub_def split: if_splits)
  have "f_balance (VCurrency cfg) (vault_asset_id v) (account_id cfg i) c =
      f_balance (VCurrency cfg) (vault_asset_id v) (account_id cfg i) (vault_currency s) + amount"
    using transfer_balance [OF tr, of "vault_asset_id v" "account_id cfg i"] assms(3) by simp
  moreover have "strategy_total i (CapitalStructure t) + strategy_balance ?ov =
      strategy_total i (CapitalStructure s) + (strategy_balance ?ov - amount)"
    using strategy_total_set_capital [of i acc "?ov\<lparr>strategy_balance := strategy_balance ?ov - amount,
        lifetime_deposited := lifetime_deposited ?ov + amount\<rparr>" "s\<lparr>vault_currency := c\<rparr>"] t by simp
  ultimately show "aum cfg i v t = aum cfg i v s + (amount - strategy_balance ?ov)"
    using t by (simp add: aum_def set_capital_def)
  show "lp_issued cfg v t = lp_issued cfg v s" "Vaults t = Vaults s"
    using transfer_total [OF tr, of "lp_token_id v"] t by (simp_all add: lp_issued_def set_capital_def)
qed

end

section \<open>Runs of a vault\<close>

text \<open>
  What users and strategies do to one vault. Nobody signs for the account of the vault. LP tokens
  exist before and after each step, and the assets fit the balance type.
\<close>

inductive vault_step :: "'c vault_config \<Rightarrow> vault_id \<Rightarrow> vault_info \<Rightarrow> 'c vaults \<Rightarrow> 'c vaults \<Rightarrow> bool"
  for cfg i v where
  User_Deposit: "deposit_into_vault cfg (SignedOrigin u) i n s = (Inr (), t) \<Longrightarrow> u \<noteq> account_id cfg i \<Longrightarrow>
     vault_step cfg i v s t"
| User_Withdraw: "withdraw_from_vault cfg (SignedOrigin u) i n s = (Inr (), t) \<Longrightarrow> u \<noteq> account_id cfg i \<Longrightarrow>
     vault_step cfg i v s t"
| Strategy_Withdraw: "strategy_withdraw cfg i acc n s = (Inr (), t) \<Longrightarrow> acc \<noteq> account_id cfg i \<Longrightarrow>
     vault_step cfg i v s t"
| Strategy_Deposit: "strategy_deposit cfg i acc n s = (Inr (), t) \<Longrightarrow> acc \<noteq> account_id cfg i \<Longrightarrow>
     vault_step cfg i v s t"

definition priced :: "'c vault_config \<Rightarrow> vault_id \<Rightarrow> vault_info \<Rightarrow> 'c vaults \<Rightarrow> bool" where
  "priced cfg i v s \<longleftrightarrow> sound_vault cfg i v s \<and> 0 < lp_issued cfg v s"

definition vault_run :: "'c vault_config \<Rightarrow> vault_id \<Rightarrow> vault_info \<Rightarrow> 'c vaults \<Rightarrow> 'c vaults \<Rightarrow> bool" where
  "vault_run cfg i v = (\<lambda>s t. vault_step cfg i v s t \<and> priced cfg i v t)\<^sup>*\<^sup>*"

lemma deposit_into_vault_run:
  assumes "deposit_into_vault cfg (SignedOrigin u) i n s = (Inr (), t)"
  shows "\<exists>lp w. MinimumDeposit cfg < n \<and> do_deposit cfg i u n s = (Inr lp, w) \<and>
    t = w\<lparr>vault_events := vault_events w @ [Deposited u n lp]\<rparr>"
  using assms by (auto simp: deposit_into_vault_def vault_deposit_call_def ok_simps)

lemma withdraw_from_vault_run:
  assumes "withdraw_from_vault cfg (SignedOrigin u) i lp s = (Inr (), t)"
  shows "\<exists>n w. MinimumWithdrawal cfg < lp \<and> do_withdraw cfg i u lp s = (Inr n, w) \<and>
    t = w\<lparr>vault_events := vault_events w @ [Withdrawn u lp n]\<rparr>"
  using assms by (auto simp: withdraw_from_vault_def vault_withdraw_call_def ok_simps)

lemma event_irrelevant [simp]:
  "aum cfg i v (s\<lparr>vault_events := es\<rparr>) = aum cfg i v s"
  "lp_issued cfg v (s\<lparr>vault_events := es\<rparr>) = lp_issued cfg v s"
  by (simp_all add: aum_def lp_issued_def)

context vault_ledger
begin

lemma deposit_keeps_price:
  assumes "do_deposit cfg i u n s = (Inr lp, t)" "u \<noteq> account_id cfg i" "priced cfg i v s"
  shows "price_kept (aum cfg i v s) (lp_issued cfg v s) (aum cfg i v t) (lp_issued cfg v t)"
proof (cases "aum cfg i v s = 0")
  case False
  have "sound_vault cfg i v s" using assms(3) by (simp add: priced_def)
  note eff = do_deposit_effect [OF assms(1) this assms(2)]
  show ?thesis
    unfolding eff(1,2) using False eff(6) by (intro price_kept_deposit) simp_all
qed (simp add: price_kept_def)

lemma withdraw_keeps_price:
  assumes "do_withdraw cfg i u lp s = (Inr n, t)" "u \<noteq> account_id cfg i" "priced cfg i v s"
    and "dust_free (VCurrency cfg) (lp_token_id v)"
  shows "price_kept (aum cfg i v s) (lp_issued cfg v s) (aum cfg i v t) (lp_issued cfg v t)"
proof -
  have p: "sound_vault cfg i v s" "0 < lp_issued cfg v s" using assms(3) by (simp_all add: priced_def)
  note eff = do_withdraw_effect [OF assms(1) p(1) assms(2,4) p(2)]
  show ?thesis
    unfolding eff(1,2) using p(2) eff(5) by (intro price_kept_withdraw) simp_all
qed

lemma step_keeps_price:
  assumes "vault_step cfg i v s t" "priced cfg i v s" "dust_free (VCurrency cfg) (lp_token_id v)"
  shows "price_kept (aum cfg i v s) (lp_issued cfg v s) (aum cfg i v t) (lp_issued cfg v t)"
  using assms(1)
proof cases
  case (User_Deposit u n)
  obtain lp w where "do_deposit cfg i u n s = (Inr lp, w)"
    "t = w\<lparr>vault_events := vault_events w @ [Deposited u n lp]\<rparr>"
    using deposit_into_vault_run [OF User_Deposit(1)] by blast
  then show ?thesis using deposit_keeps_price User_Deposit(2) assms(2) by simp
next
  case (User_Withdraw u n)
  obtain x w where "do_withdraw cfg i u n s = (Inr x, w)"
    "t = w\<lparr>vault_events := vault_events w @ [Withdrawn u n x]\<rparr>"
    using withdraw_from_vault_run [OF User_Withdraw(1)] by blast
  then show ?thesis using withdraw_keeps_price User_Withdraw(2) assms(2,3) by simp
next
  case (Strategy_Withdraw acc n)
  have "sound_vault cfg i v s" using assms(2) by (simp add: priced_def)
  then show ?thesis
    using strategy_withdraw_effect [OF Strategy_Withdraw(1) _ Strategy_Withdraw(2)]
    by (simp add: price_kept_refl)
next
  case (Strategy_Deposit acc n)
  have "sound_vault cfg i v s" using assms(2) by (simp add: priced_def)
  then show ?thesis
    using strategy_deposit_effect [OF Strategy_Deposit(1) _ Strategy_Deposit(2)]
    by (simp add: price_kept_def)
qed

lemma run_keeps_price:
  assumes "vault_run cfg i v s t" "priced cfg i v s" "dust_free (VCurrency cfg) (lp_token_id v)"
  shows "priced cfg i v t \<and>
    price_kept (aum cfg i v s) (lp_issued cfg v s) (aum cfg i v t) (lp_issued cfg v t)"
  using assms(1) unfolding vault_run_def
proof (induction rule: rtranclp_induct)
  case (step w t)
  then show ?case
    using step_keeps_price [OF _ _ assms(3)] price_kept_trans by (auto simp: priced_def)
qed (use assms(2) in \<open>simp add: price_kept_refl\<close>)

lemma share_value:
  assumes "do_lp_share_value cfg i v k s = (Inr x, t)" "priced cfg i v s"
  shows "x = k * aum cfg i v s div lp_issued cfg v s"
  using assms exact_mul_divD [OF mul_div]
  by (auto simp: do_lp_share_value_def ok_simps priced_def sound_vault_def do_aum_exact lp_issued_def)

lemma no_profit:
  assumes dep: "do_deposit cfg i u n s = (Inr lp, t)" and wit: "do_withdraw cfg i u lp t = (Inr m, w)"
    and "u \<noteq> account_id cfg i" "sound_vault cfg i v s" "aum cfg i v t \<le> u128_max" "0 < lp"
    and "dust_free (VCurrency cfg) (lp_token_id v)"
  shows "m \<le> n"
proof -
  note eff = do_deposit_effect [OF dep assms(4,3)]
  let ?A = "aum cfg i v s" and ?S = "lp_issued cfg v s"
  have t: "sound_vault cfg i v t" "0 < lp_issued cfg v t"
    using assms(4-6) eff by (auto simp: sound_vault_def)
  have m: "m = lp * (?A + n) div (?S + lp)"
    using do_withdraw_effect(5) [OF wit t(1) assms(3,7) t(2)] eff by simp
  have "lp * ?A \<le> n * ?S"
  proof (cases "?A = 0")
    case False
    then show ?thesis using eff(6) by (simp add: div_times_less_eq_dividend)
  qed simp
  then have "lp * (?A + n) \<le> n * (?S + lp)" by (simp add: algebra_simps)
  then have "m \<le> n * (?S + lp) div (?S + lp)" unfolding m by (rule div_le_mono)
  then show ?thesis using assms(6) by simp
qed

end

end
