(* ===== verification/Vault_Properties.thy ===== *)
theory Vault_Properties
  imports Vault_Shares
begin

text \<open>
  Creation and shut-down of vaults, an instance of the pallet over the assets pallet, and the
  properties of the vault pallet.
\<close>

section \<open>Creation\<close>

lemma allocation_sum_eq:
  assumes "allocation_sum config = Some n"
  shows "n = setup_reserved config + sum_list (map snd (setup_strategies config))"
proof -
  have none: "foldl (\<lambda>sum (_, part). case sum of None \<Rightarrow> None | Some n \<Rightarrow> checked_add u64_max n part) None xs = None"
    for xs :: "(account_id \<times> perquintill) list"
    by (induction xs) auto
  have "foldl (\<lambda>sum (_, part). case sum of None \<Rightarrow> None | Some n \<Rightarrow> checked_add u64_max n part) (Some m) xs = Some n
      \<Longrightarrow> n = m + sum_list (map snd xs)" for m and xs :: "(account_id \<times> perquintill) list"
    by (induction xs arbitrary: m) (fastforce simp: checked_add_def none split: if_splits)+
  then show ?thesis using assms by (simp add: allocation_sum_def)
qed

lemma foldl_set_capital:
  "\<exists>cs. foldl (\<lambda>s (acc, part). set_capital i acc (f part) s) s xs = s\<lparr>CapitalStructure := cs\<rparr>"
proof (induction xs arbitrary: s)
  case Nil
  show ?case by (rule exI [of _ "CapitalStructure s"]) simp
next
  case (Cons x xs)
  obtain acc part where x: "x = (acc, part)" by fastforce
  obtain cs where "foldl (\<lambda>s (acc, part). set_capital i acc (f part) s) (set_capital i acc (f part) s) xs
      = (set_capital i acc (f part) s)\<lparr>CapitalStructure := cs\<rparr>"
    using Cons.IH by blast
  then show ?case unfolding x by (intro exI [of _ cs]) (simp add: set_capital_def)
qed

lemma do_create_vault_run:
  assumes "do_create_vault cfg dep config s = (Inr (i, info), t)"
  shows "\<exists>lp f cs. create LP_TOKENS (vault_factory s) = (Inr lp, f) \<and>
    setup_reserved config + sum_list (map snd (setup_strategies config)) = perquintill_one \<and>
    i = wrapping_add u64_max (VaultCount s) 1 \<and>
    info = \<lparr>vault_asset_id = setup_asset_id config, lp_token_id = lp, manager = setup_manager config,
            deposit = dep, capabilities = default_capabilities\<rparr> \<and>
    t = s\<lparr>vault_factory := f, CapitalStructure := cs, Vaults := (Vaults s)(i \<mapsto> info),
          LpTokensToVaults := (LpTokensToVaults s)(lp \<mapsto> i), VaultCount := i\<rparr>"
proof -
  let ?f = "\<lambda>part. \<lparr>allocation = part, strategy_balance = 0, lifetime_withdrawn = 0, lifetime_deposited = 0\<rparr>"
  obtain lp f where *: "allocation_sum config = Some perquintill_one"
    "create LP_TOKENS (vault_factory s) = (Inr lp, f)" "i = wrapping_add u64_max (VaultCount s) 1"
    "info = \<lparr>vault_asset_id = setup_asset_id config, lp_token_id = lp, manager = setup_manager config,
            deposit = dep, capabilities = default_capabilities\<rparr>"
    "t = (let w = set_vault i (Some info) (foldl (\<lambda>s (acc, part). set_capital i acc (?f part) s)
            (s\<lparr>vault_factory := f\<rparr>) (setup_strategies config))
          in w\<lparr>LpTokensToVaults := (LpTokensToVaults w)(lp \<mapsto> i), VaultCount := i\<rparr>)"
    using assms by (auto simp: do_create_vault_def ok_simps Let_def on_factory_def)
  obtain cs where "foldl (\<lambda>s (acc, part). set_capital i acc (?f part) s)
      (s\<lparr>vault_factory := f\<rparr>) (setup_strategies config) = s\<lparr>vault_factory := f, CapitalStructure := cs\<rparr>"
    using foldl_set_capital by metis
  with *(5) have "t = s\<lparr>vault_factory := f, CapitalStructure := cs, Vaults := (Vaults s)(i \<mapsto> info),
      LpTokensToVaults := (LpTokensToVaults s)(lp \<mapsto> i), VaultCount := i\<rparr>"
    by (simp add: set_vault_def Let_def)
  then show ?thesis
    using *(2-4) allocation_sum_eq [OF *(1)] by auto
qed

text \<open>
  Every vault has an LP token of its own, handed out by the factory, and an identifier that was
  counted.
\<close>

definition lp_tokens_ok :: "'c vaults \<Rightarrow> bool" where
  "lp_tokens_ok s \<longleftrightarrow> factory_ok (vault_factory s) \<and>
     (\<forall>i v. Vaults s i = Some v \<longrightarrow> i \<le> VaultCount s \<and> lp_token_id v \<in> spent_ids (vault_factory s)) \<and>
     (\<forall>i j v w. Vaults s i = Some v \<longrightarrow> Vaults s j = Some w \<longrightarrow> lp_token_id v = lp_token_id w \<longrightarrow> i = j)"

lemma lp_tokens_ok_add:
  assumes "lp_tokens_ok s" "create LP_TOKENS (vault_factory s) = (Inr lp, f)" "lp_token_id info = lp"
    and "Vaults t = (Vaults s)(VaultCount s + 1 \<mapsto> info)" "VaultCount t = VaultCount s + 1" "vault_factory t = f"
  shows "lp_tokens_ok t"
proof -
  have ok: "factory_ok (vault_factory s)" using assms(1) by (simp add: lp_tokens_ok_def)
  have lp: "factory_ok f" "lp \<notin> spent_ids (vault_factory s)"
    "spent_ids f = insert lp (spent_ids (vault_factory s))"
    using factory.new_id_good [OF ok assms(2)] factory.new_id_fresh [OF ok assms(2)]
      factory.new_id_spent [OF ok assms(2)] by simp_all
  have old: "i \<le> VaultCount s" "lp_token_id v \<in> spent_ids (vault_factory s)" "lp_token_id v \<noteq> lp"
    if "Vaults s i = Some v" for i v
    using assms(1) lp(2) that by (auto simp: lp_tokens_ok_def)
  show ?thesis
    using assms(1,3-6) lp(1,3) old unfolding lp_tokens_ok_def by (fastforce split: if_splits)
qed

section \<open>Shut-down\<close>

lemma mutate_capabilities_ok:
  "mutate_capabilities allowed msg f i s = (Inr u, t) \<longleftrightarrow>
     (\<exists>v. Vaults s i = Some v \<and> allowed (capabilities v) \<and>
        t = set_vault i (Some (v\<lparr>capabilities := f (capabilities v)\<rparr>)) s)"
  by (auto simp: mutate_capabilities_def ok_simps)

lemma halted_deposit:
  assumes "Vaults s i = Some v" "\<not> deposits_allowed (capabilities v)"
  shows "\<not> is_ok (deposit_into_vault cfg (SignedOrigin u) i n s)"
  using assms by (auto simp: is_ok_iff deposit_into_vault_def vault_deposit_call_def do_deposit_def ok_simps)

lemma halted_withdraw:
  assumes "Vaults s i = Some v" "\<not> withdrawals_allowed (capabilities v)"
  shows "\<not> is_ok (withdraw_from_vault cfg (SignedOrigin u) i n s)"
  using assms by (auto simp: is_ok_iff withdraw_from_vault_def vault_withdraw_call_def do_withdraw_def ok_simps)

section \<open>A vault over the assets pallet\<close>

text \<open>
  As in the runtime, the vault's currency is the assets pallet and its native currency the native
  currency below it.
\<close>

definition ledger_vault :: "(ledger \<times> ledger) vault_config" where
  "ledger_vault =
     \<lparr>VCurrency = assets_fungibles ledger_assets, VNativeCurrency = assets_fungible ledger_assets,
      MaxStrategies = 5, MinimumDeposit = 10, MinimumWithdrawal = 1, CreationDeposit = 20,
      ExistentialDeposit = 1000, TombstoneDuration = 42, RentPerBlock = 3,
      vault_sub_account = (\<lambda>(p, i). (if p = '''' then 1000 else if p = ''rent_account____'' then 2000 else 3000) + i),
      multiply_by_rational = reference_mul_div, mul_floor = (\<lambda>p n. p * n div 10 ^ 18),
      checked_from_rational = (\<lambda>n d. if d = 0 then None else Some (n * 10 ^ 18 div d))\<rparr>"

lemma ledger_vault_simps [simp]:
  "VCurrency ledger_vault = assets_fungibles ledger_assets"
  "multiply_by_rational ledger_vault = reference_mul_div"
  by (simp_all add: ledger_vault_def)

interpretation vault: vault_ledger ledger_vault
  by (simp add: vault_ledger_def vault_ledger_axioms_def ledger_assets.routed_ledger exact_reference_mul_div)

definition vault_genesis :: "(ledger \<times> ledger) vaults" where
  "vault_genesis =
     \<lparr>VaultCount = 0, Vaults = Map.empty, LpTokensToVaults = Map.empty, CapitalStructure = [],
      vault_events = [], vault_block = 1,
      vault_currency =
        (\<lparr>bals = (\<lambda>a x. if a = 0 \<and> x = 5 then 500 else 0), issued = (\<lambda>a. if a = 0 then 500 else 0)\<rparr>,
         \<lparr>bals = (\<lambda>a x. if a = 7 \<and> (x = 5 \<or> x = 6) then 400 else 0), issued = (\<lambda>a. if a = 7 then 800 else 0)\<rparr>),
      vault_factory = factory_genesis\<rparr>"

definition vault_setup_7 :: vault_setup where
  "vault_setup_7 = \<lparr>setup_asset_id = 7, setup_reserved = 400000000000000000, setup_manager = 9,
     setup_strategies = [(50, 600000000000000000)]\<rparr>"

definition vault_7 :: vault_info where
  "vault_7 = \<lparr>vault_asset_id = 7, lp_token_id = 100000000001, manager = 9, deposit = Rent 80 1, capabilities = 0\<rparr>"

definition vault_open :: "(ledger \<times> ledger) vaults" where
  "vault_open = snd (create_vault ledger_vault (SignedOrigin 5) vault_setup_7 100 vault_genesis)"

definition vault_funded :: "(ledger \<times> ledger) vaults" where
  "vault_funded = snd (deposit_into_vault ledger_vault (SignedOrigin 5) 1 100 vault_open)"

lemmas vault_eval =
  vault_genesis_def vault_setup_7_def ledger_vault_def assets_eval assets_fungibles_def
  assets_fungible_def native_transfer_def reducible_balance_def can_deposit_def can_withdraw_def
  native_reducible_balance_def account_id_def rent_account_def deletion_reward_account_def
  get_vault_info_def do_assets_under_management_def assets_under_management_def
  do_lp_share_value_def do_deposit_def do_withdraw_def allocation_sum_def do_create_vault_def
  vault_create_def vault_deposit_call_def vault_withdraw_call_def create_vault_def
  deposit_into_vault_def withdraw_from_vault_def deposit_from_balance_def on_currency_def
  on_factory_def vault_deposit_event_def set_vault_def set_capital_def strategies_of_def capital_def
  validate_max_strategies_def safe_arith_defs wrapping_add_def u64_max_def perquintill_one_def
  LP_TOKENS_def create_def ranges_increment_def ranges_get_def range_increment_def
  factory_genesis_def ranges_new_eq range_defs saturating_add_def Let_def default_capabilities_def
  deposits_allowed_def deposits_stopped_def withdrawals_allowed_def withdrawals_stopped_def
  is_inactive_def is_stopped_def flag_contains_def flag_defs reference_mul_div_def

lemma vault_open_ok:
  "create_vault ledger_vault (SignedOrigin 5) vault_setup_7 100 vault_genesis = (Inr (), vault_open)"
  "Vaults vault_open = [1 \<mapsto> vault_7]" "CapitalStructure vault_open = [((1, 50), \<lparr>allocation = 600000000000000000,
     strategy_balance = 0, lifetime_withdrawn = 0, lifetime_deposited = 0\<rparr>)]"
  "bals (snd (vault_currency vault_open)) = bals (snd (vault_currency vault_genesis))"
  "issued (snd (vault_currency vault_open)) = issued (snd (vault_currency vault_genesis))"
  by (simp_all add: vault_open_def vault_7_def vault_eval)

lemma vault_funded_ok:
  "deposit_into_vault ledger_vault (SignedOrigin 5) 1 100 vault_open = (Inr (), vault_funded)"
  "Vaults vault_funded = [1 \<mapsto> vault_7]"
  "aum ledger_vault 1 vault_7 vault_funded = 100" "lp_issued ledger_vault vault_7 vault_funded = 100"
  by (simp_all add: vault_funded_def vault_open_def vault_7_def aum_def lp_issued_def strategy_total_def vault_eval)

definition vault_shared :: "(ledger \<times> ledger) vaults" where
  "vault_shared = snd (deposit_into_vault ledger_vault (SignedOrigin 6) 1 50 vault_funded)"

lemma vault_shared_ok:
  "deposit_into_vault ledger_vault (SignedOrigin 6) 1 50 vault_funded = (Inr (), vault_shared)"
  "Vaults vault_shared = [1 \<mapsto> vault_7]"
  "aum ledger_vault 1 vault_7 vault_shared = 150" "lp_issued ledger_vault vault_7 vault_shared = 150"
  by (simp_all add: vault_shared_def vault_funded_def vault_open_def vault_7_def aum_def lp_issued_def
      strategy_total_def vault_eval)

lemma vault_priced: "priced ledger_vault 1 vault_7 vault_funded" "priced ledger_vault 1 vault_7 vault_shared"
  using vault_funded_ok vault_shared_ok
  by (simp_all add: priced_def sound_vault_def u128_max_def) (simp_all add: vault_7_def)

lemma vault_dust: "dust_free (VCurrency ledger_vault) a"
  by (simp add: dust_free_def)

section \<open>Properties\<close>

text \<open>
  C2. The value of an LP token never falls: over any run of deposits and withdrawals by users and
  of strategies that borrow and return, what \<open>do_lp_share_value\<close> pays for any amount of LP tokens
  is at the end at least what it was at the start.
\<close>

theorem lp_token_keeps_value:
  assumes "fungibles_ledger (VCurrency cfg)" "exact_mul_div (multiply_by_rational cfg)"
    and "dust_free (VCurrency cfg) (lp_token_id v)" "priced cfg i v s" "vault_run cfg i v s t"
    and "do_lp_share_value cfg i v k s = (Inr x, s')" "do_lp_share_value cfg i v k t = (Inr y, t')"
  shows "x \<le> y"
proof -
  have L: "vault_ledger cfg" using assms(1,2) by (simp add: vault_ledger_def vault_ledger_axioms_def)
  note kept = vault_ledger.run_keeps_price [OF L assms(5,4,3)]
  have "x = k * aum cfg i v s div lp_issued cfg v s" "y = k * aum cfg i v t div lp_issued cfg v t"
    using vault_ledger.share_value [OF L] assms(4,6,7) kept by blast+
  then show ?thesis
    using price_kept_value kept assms(4) by (simp add: priced_def)
qed

theorem lp_token_keeps_value_witness:
  "\<exists>x y. do_lp_share_value ledger_vault 1 vault_7 100 vault_funded = (Inr x, vault_funded) \<and>
     do_lp_share_value ledger_vault 1 vault_7 100 vault_shared = (Inr y, vault_shared) \<and> x \<le> y"
proof -
  have run: "vault_run ledger_vault 1 vault_7 vault_funded vault_shared"
    unfolding vault_run_def
    by (rule r_into_rtranclp)
       (use User_Deposit [OF vault_shared_ok(1)] vault_priced(2) in \<open>simp add: account_id_def ledger_vault_def\<close>)
  have "do_lp_share_value ledger_vault 1 vault_7 100 vault_funded = (Inr 100, vault_funded)"
    "do_lp_share_value ledger_vault 1 vault_7 100 vault_shared = (Inr 100, vault_shared)"
    using vault_funded_ok(3,4) vault_shared_ok(3,4) do_aum_exact [of ledger_vault 1 vault_7]
    by (simp_all add: do_lp_share_value_def call_eval lp_issued_def reference_mul_div_def u128_max_def)
  with lp_token_keeps_value [OF _ _ vault_dust vault_priced(1) run] show ?thesis
    using vault.fungibles_ledger_axioms vault.mul_div by blast
qed

text \<open>
  C31. A deposit followed at once by a withdrawal of the LP tokens it gave is no profit: the user
  never gets back more than was deposited, whatever the rounding.
\<close>

theorem deposit_withdraw_no_profit:
  assumes "fungibles_ledger (VCurrency cfg)" "exact_mul_div (multiply_by_rational cfg)"
    and "dust_free (VCurrency cfg) (lp_token_id v)" "sound_vault cfg i v s" "aum cfg i v t \<le> u128_max"
    and "do_deposit cfg i u n s = (Inr lp, t)" "do_withdraw cfg i u lp t = (Inr m, w)"
    and "u \<noteq> account_id cfg i" "0 < lp"
  shows "m \<le> n"
  using assms by (intro vault_ledger.no_profit [of cfg i u n s lp t m w v])
    (simp_all add: vault_ledger_def vault_ledger_axioms_def)

theorem deposit_withdraw_no_profit_witness:
  "\<exists>t m w. do_deposit ledger_vault 1 6 50 vault_funded = (Inr 50, t) \<and>
     do_withdraw ledger_vault 1 6 50 t = (Inr m, w) \<and> m \<le> 50"
proof -
  obtain t m w where run: "do_deposit ledger_vault 1 6 50 vault_funded = (Inr 50, t)"
    "do_withdraw ledger_vault 1 6 50 t = (Inr m, w)" "aum ledger_vault 1 vault_7 t = 150"
    by (simp add: vault_funded_def vault_open_def vault_7_def aum_def strategy_total_def vault_eval)
  have "sound_vault ledger_vault 1 vault_7 vault_funded" using vault_priced by (simp add: priced_def)
  then have "m \<le> 50"
    using deposit_withdraw_no_profit [OF vault.fungibles_ledger_axioms vault.mul_div vault_dust _ _ run(1,2)]
      run(3) by (simp add: account_id_def u128_max_def ledger_vault_def)
  with run show ?thesis by blast
qed

text \<open>
  Strategies: borrowing moves assets between the vault and the strategy's books without
  changing the assets under management; returning up to what was borrowed does not change them
  either, and returning more raises them by exactly the surplus. LP tokens are not touched.
\<close>

theorem strategies_conserve_assets:
  assumes "fungibles_ledger (VCurrency cfg)" "exact_mul_div (multiply_by_rational cfg)"
    and "sound_vault cfg i v s" "acc \<noteq> account_id cfg i"
  shows "(strategy_withdraw cfg i acc n s = (Inr (), t) \<longrightarrow>
      aum cfg i v t = aum cfg i v s \<and> lp_issued cfg v t = lp_issued cfg v s \<and>
      strategy_balance (capital_or_default i acc t) = strategy_balance (capital_or_default i acc s) + n) \<and>
    (strategy_deposit cfg i acc n s = (Inr (), t) \<longrightarrow>
      aum cfg i v t = aum cfg i v s + (n - strategy_balance (capital_or_default i acc s)) \<and>
      lp_issued cfg v t = lp_issued cfg v s)"
  using vault_ledger.strategy_withdraw_effect [of cfg i acc n s "()" t v]
    vault_ledger.strategy_deposit_effect [of cfg i acc n s "()" t v] assms
  by (simp add: vault_ledger_def vault_ledger_axioms_def)

theorem strategies_conserve_assets_witness:
  "\<exists>t. strategy_withdraw ledger_vault 1 50 30 vault_funded = (Inr (), t) \<and>
     aum ledger_vault 1 vault_7 t = 100"
proof -
  obtain t where run: "strategy_withdraw ledger_vault 1 50 30 vault_funded = (Inr (), t)"
    by (simp add: strategy_withdraw_def capital_or_default_def vault_funded_def vault_open_def vault_eval)
  have "sound_vault ledger_vault 1 vault_7 vault_funded" "50 \<noteq> account_id ledger_vault 1"
    using vault_priced by (simp_all add: priced_def account_id_def ledger_vault_def)
  then show ?thesis
    using strategies_conserve_assets [OF vault.fungibles_ledger_axioms vault.mul_div, of 1 vault_7 vault_funded 50 30 t]
      run vault_funded_ok(3) by auto
qed

text \<open>
  A created vault is new: its identifier is the next one and was not in use, its LP token was
  never handed out before, its allocations add up to exactly one, its deposit is what the creator
  paid beyond the creation deposit, and all vaults still have LP tokens of their own.
\<close>

theorem create_vault_fresh:
  assumes "lp_tokens_ok s" "VaultCount s < u64_max"
    and "create_vault cfg (SignedOrigin u) setup n s = (Inr (), t)"
  shows "\<exists>v. Vaults s (VaultCount s + 1) = None \<and> Vaults t = (Vaults s)(VaultCount s + 1 \<mapsto> v) \<and>
    VaultCount t = VaultCount s + 1 \<and> LpTokensToVaults t (lp_token_id v) = Some (VaultCount s + 1) \<and>
    lp_token_id v \<notin> spent_ids (vault_factory s) \<and> lp_tokens_ok t \<and>
    setup_reserved setup + sum_list (map snd (setup_strategies setup)) = perquintill_one \<and>
    length (setup_strategies setup) \<le> MaxStrategies cfg \<and> CreationDeposit cfg \<le> n \<and>
    deposit v = deposit_from_balance (ExistentialDeposit cfg) (vault_block s) (n - CreationDeposit cfg) \<and>
    deposits_allowed (capabilities v) \<and> withdrawals_allowed (capabilities v)"
proof -
  let ?dep = "deposit_from_balance (ExistentialDeposit cfg) (vault_block s) (n - CreationDeposit cfg)"
  obtain i info w where run: "do_create_vault cfg ?dep setup s = (Inr (i, info), w)"
    and n: "CreationDeposit cfg \<le> n" "length (setup_strategies setup) \<le> MaxStrategies cfg"
    and t: "Vaults t = Vaults w" "VaultCount t = VaultCount w" "LpTokensToVaults t = LpTokensToVaults w"
      "vault_factory t = vault_factory w"
    using assms(3)
    by (auto simp: create_vault_def ok_simps Let_def checked_sub_def vault_create_def validate_max_strategies_def
        split: if_splits)
  obtain lp f where *: "create LP_TOKENS (vault_factory s) = (Inr lp, f)"
    "setup_reserved setup + sum_list (map snd (setup_strategies setup)) = perquintill_one"
    "i = wrapping_add u64_max (VaultCount s) 1"
    "info = \<lparr>vault_asset_id = setup_asset_id setup, lp_token_id = lp, manager = setup_manager setup,
            deposit = ?dep, capabilities = default_capabilities\<rparr>"
    "Vaults w = (Vaults s)(i \<mapsto> info)" "LpTokensToVaults w = (LpTokensToVaults s)(lp \<mapsto> i)"
    "VaultCount w = i" "vault_factory w = f"
    using do_create_vault_run [OF run] by auto
  have i: "i = VaultCount s + 1"
    using *(3) assms(2) by (simp add: wrapping_add_def)
  have ok: "factory_ok (vault_factory s)" using assms(1) by (simp add: lp_tokens_ok_def)
  have "lp \<notin> spent_ids (vault_factory s)" by (rule factory.new_id_fresh [OF ok *(1)])
  moreover have "lp_tokens_ok t"
    by (rule lp_tokens_ok_add [OF assms(1) *(1), where info = info]) (use * t i in simp_all)
  moreover have "Vaults s (VaultCount s + 1) = None"
    using assms(1) by (cases "Vaults s (VaultCount s + 1)") (force simp: lp_tokens_ok_def)+
  moreover have "deposits_allowed default_capabilities" "withdrawals_allowed default_capabilities"
    by (simp_all add: capability_tests)
  ultimately show ?thesis
    using * i t n by (intro exI [of _ info]) simp
qed

theorem create_vault_fresh_witness:
  "lp_tokens_ok vault_open \<and> Vaults vault_open 1 = Some vault_7"
proof -
  have "lp_tokens_ok vault_genesis" "VaultCount vault_genesis < u64_max" "VaultCount vault_genesis = 0"
    by (simp_all add: lp_tokens_ok_def vault_genesis_def factory_ok_def factory_genesis_def ranges_ok_new u64_max_def)
  with create_vault_fresh [OF _ _ vault_open_ok(1)] vault_open_ok(2) show ?thesis by auto
qed

text \<open>
  The capability bits behave as a set of four independent flags: every operation adds or
  removes its own flag and no other, and the tests read exactly the flags the code names.
\<close>

theorem capability_bits_refine_flags:
  "flags default_capabilities = {} \<and>
   flags (set_tombstoned c) = insert Tombstoned (flags c) \<and> flags (untombstone c) = flags c - {Tombstoned} \<and>
   flags (set_stopped c) = insert Stopped (flags c) \<and> flags (cap_start c) = flags c - {Stopped} \<and>
   flags (stop_deposits c) = insert DepositsStopped (flags c) \<and>
   flags (allow_deposits c) = flags c - {DepositsStopped} \<and>
   flags (stop_withdrawals c) = insert WithdrawalsStopped (flags c) \<and>
   flags (allow_withdrawals c) = flags c - {WithdrawalsStopped} \<and>
   (withdrawals_allowed c \<longleftrightarrow> flags c \<inter> {WithdrawalsStopped, Stopped} = {}) \<and>
   (deposits_allowed c \<longleftrightarrow> flags c \<inter> {DepositsStopped, Tombstoned, Stopped} = {})"
  by (simp add: capability_tests)

text \<open>
  Emergency shutdown: it is for root, refuses a tombstoned vault, and afterwards no user can
  deposit or withdraw and every strategy is told to liquidate; restarting gives back the
  capabilities the vault had.
\<close>

theorem emergency_shutdown_halts:
  assumes "Vaults s i = Some v" "emergency_shutdown orig i s = (Inr (), t)"
  shows "orig = RootOrigin \<and> \<not> is_tombstoned (capabilities v) \<and>
    \<not> is_ok (deposit_into_vault cfg (SignedOrigin u) i n t) \<and>
    \<not> is_ok (withdraw_from_vault cfg (SignedOrigin u) i n t) \<and>
    available_funds cfg i acc t = (Inr MustLiquidate, t) \<and>
    (\<exists>w. start_vault RootOrigin i t = (Inr (), w) \<and>
       (\<exists>v'. Vaults w i = Some v' \<and> flags (capabilities v') = flags (capabilities v) - {Stopped}))"
proof -
  have t: "orig = RootOrigin" "\<not> is_tombstoned (capabilities v)"
      "t = (set_vault i (Some (v\<lparr>capabilities := set_stopped (capabilities v)\<rparr>)) s)
        \<lparr>vault_events := vault_events s @ [EmergencyShutdown i]\<rparr>"
    using assms by (auto simp: emergency_shutdown_def ok_simps vault_stop_def mutate_capabilities_ok set_vault_def)
  let ?v = "v\<lparr>capabilities := set_stopped (capabilities v)\<rparr>"
  have v: "Vaults t i = Some ?v" using t by (simp add: set_vault_def)
  have caps: "\<not> deposits_allowed (capabilities ?v)" "\<not> withdrawals_allowed (capabilities ?v)"
    "is_stopped (capabilities ?v)" "\<not> is_tombstoned (capabilities ?v)"
    using t(2) by (simp_all add: capability_tests)
  obtain w where w: "vault_start i t = (Inr (), w)"
      "Vaults w i = Some (?v\<lparr>capabilities := cap_start (capabilities ?v)\<rparr>)"
    using v caps(4) by (auto simp: vault_start_def mutate_capabilities_ok set_vault_def)
  have "available_funds cfg i acc t = (Inr MustLiquidate, t)"
    using v caps(3) by (simp add: available_funds_def call_eval split: option.split)
  moreover have "start_vault RootOrigin i t = (Inr (), w\<lparr>vault_events := vault_events w @ [VaultStarted i]\<rparr>)"
    using w(1) by (simp add: start_vault_def call_eval vault_deposit_event_def)
  moreover have "flags (cap_start (capabilities ?v)) = flags (capabilities v) - {Stopped}"
    by auto
  ultimately show ?thesis
    using t(1,2) halted_deposit [OF v caps(1)] halted_withdraw [OF v caps(2)] w(2) by auto
qed

theorem emergency_shutdown_halts_witness:
  "\<exists>t. emergency_shutdown RootOrigin 1 vault_funded = (Inr (), t) \<and>
     \<not> is_ok (withdraw_from_vault ledger_vault (SignedOrigin 5) 1 50 t)"
proof -
  obtain t where run: "emergency_shutdown RootOrigin 1 vault_funded = (Inr (), t)"
    using vault_funded_ok(2)
    by (auto simp: emergency_shutdown_def vault_stop_def mutate_capabilities_def call_eval vault_deposit_event_def
        vault_7_def is_tombstoned_def flag_contains_def flag_defs)
  have "Vaults vault_funded 1 = Some vault_7" using vault_funded_ok(2) by simp
  from emergency_shutdown_halts [OF this run] run show ?thesis by blast
qed

text \<open>
  Rent: a charge splits the deposit into what is paid and what remains, and charging in
  instalments comes to the same as charging at once: the same blocks evict, and where neither
  evicts the same amount remains.
\<close>

theorem rent_in_instalments:
  assumes "at < mid" "mid < now" "now \<le> u32_max" "amount \<le> u128_max"
    and "evaluate_eviction rent mid (Rent amount at) = Charge remaining payable"
  shows "remaining + payable = amount \<and> 0 < remaining \<and>
    evaluate_eviction rent now (Rent remaining mid) =
      (case evaluate_eviction rent now (Rent amount at) of
         Charge r p \<Rightarrow> Charge r (p - payable) | verdict \<Rightarrow> verdict)"
  using charge_splits [OF assms(5)] charge_in_instalments [OF assms] by auto

theorem rent_in_instalments_witness:
  "evaluate_eviction 3 30 (Rent 50 11) = Evict"
proof -
  have "evaluate_eviction 3 11 (Rent 80 1) = Charge 50 30" "evaluate_eviction 3 30 (Rent 80 1) = Evict"
    by (simp_all add: evaluate_eviction_def saturating_sub_def saturating_mul_def u32_max_def u128_max_def)
  with rent_in_instalments [of 1 11 30 80 3 50 30] show ?thesis
    by (simp add: u32_max_def u128_max_def)
qed

section \<open>Where the code does not do what it means to\<close>

text \<open>
  \<open>delete_tombstoned\<close> removes the entry of the vault's asset from the table of LP tokens instead
  of the entry of its LP token: after the deletion the LP token still names the deleted vault.
\<close>

theorem deleted_vault_keeps_lp_entry:
  assumes "delete_tombstoned cfg (SignedOrigin u) i None s = (Inr (), t)" "Vaults s i = Some v"
    and "LpTokensToVaults s (lp_token_id v) = Some i" "lp_token_id v \<noteq> vault_asset_id v"
  shows "Vaults t i = None \<and> token_vault (lp_token_id v) t = (Inr i, t)"
proof -
  have "LpTokensToVaults t = (LpTokensToVaults s)(vault_asset_id v := None)" "Vaults t i = None"
    using assms(1,2)
    by (auto simp: delete_tombstoned_def reward_address_def ok_simps set_vault_def)
  then show ?thesis using assms(3,4) by (simp add: token_vault_def call_eval)
qed

end
