(* ===== verification/Assets_Orml.thy ===== *)
theory Assets_Orml
  imports Assets
begin

text \<open>
  The assets pallet as an orml currency (frame/assets/src/orml.rs): \<open>MultiCurrency\<close>,
  \<open>MultiLockableCurrency\<close> and \<open>MultiReservableCurrency\<close>, each operation sent to the native
  currency or to the configured multi-asset one. Both are code outside the repository, so they
  are records of operations with the laws of the two locales; the pallet provides the
  multi-asset laws from them, which is what the vesting pallet relies on.
\<close>

section \<open>The operations\<close>

type_synonym lock_identifier = string

datatype existence_requirement = KeepAlive | AllowDeath

datatype balance_status = Free | Reserved

text \<open>\<open>WithdrawReasons\<close>: a set of five flags.\<close>

type_synonym withdraw_reasons = nat

definition withdraw_reasons_all :: withdraw_reasons where
  "withdraw_reasons_all = 31"

text \<open>
  \<open>Currency\<close>, \<open>LockableCurrency\<close> and \<open>ReservableCurrency\<close> of FRAME. Operations that cannot
  fail are functions on the state. \<open>nc_slash\<close> returns the imbalance and what could not be
  slashed; \<open>nc_locked\<close> reads the amount of a lock, which the pallets themselves never do.
\<close>

record 'n native_currency =
  nc_minimum_balance :: balance
  nc_total_issuance :: "'n \<Rightarrow> balance"
  nc_total_balance :: "account_id \<Rightarrow> 'n \<Rightarrow> balance"
  nc_free_balance :: "account_id \<Rightarrow> 'n \<Rightarrow> balance"
  nc_ensure_can_withdraw :: "account_id \<Rightarrow> balance \<Rightarrow> withdraw_reasons \<Rightarrow> balance \<Rightarrow> ('n, unit) call"
  nc_transfer :: "account_id \<Rightarrow> account_id \<Rightarrow> balance \<Rightarrow> existence_requirement \<Rightarrow> ('n, unit) call"
  nc_deposit_into_existing :: "account_id \<Rightarrow> balance \<Rightarrow> ('n, balance) call"
  nc_deposit_creating :: "account_id \<Rightarrow> balance \<Rightarrow> 'n \<Rightarrow> 'n"
  nc_withdraw :: "account_id \<Rightarrow> balance \<Rightarrow> withdraw_reasons \<Rightarrow> existence_requirement \<Rightarrow> ('n, balance) call"
  nc_can_slash :: "account_id \<Rightarrow> balance \<Rightarrow> 'n \<Rightarrow> bool"
  nc_slash :: "account_id \<Rightarrow> balance \<Rightarrow> 'n \<Rightarrow> (balance \<times> balance) \<times> 'n"
  nc_set_lock :: "lock_identifier \<Rightarrow> account_id \<Rightarrow> balance \<Rightarrow> withdraw_reasons \<Rightarrow> 'n \<Rightarrow> 'n"
  nc_extend_lock :: "lock_identifier \<Rightarrow> account_id \<Rightarrow> balance \<Rightarrow> withdraw_reasons \<Rightarrow> 'n \<Rightarrow> 'n"
  nc_remove_lock :: "lock_identifier \<Rightarrow> account_id \<Rightarrow> 'n \<Rightarrow> 'n"
  nc_locked :: "lock_identifier \<Rightarrow> account_id \<Rightarrow> 'n \<Rightarrow> balance"
  nc_can_reserve :: "account_id \<Rightarrow> balance \<Rightarrow> 'n \<Rightarrow> bool"
  nc_slash_reserved :: "account_id \<Rightarrow> balance \<Rightarrow> 'n \<Rightarrow> (balance \<times> balance) \<times> 'n"
  nc_reserved_balance :: "account_id \<Rightarrow> 'n \<Rightarrow> balance"
  nc_reserve :: "account_id \<Rightarrow> balance \<Rightarrow> ('n, unit) call"
  nc_unreserve :: "account_id \<Rightarrow> balance \<Rightarrow> 'n \<Rightarrow> balance \<times> 'n"
  nc_repatriate_reserved ::
    "account_id \<Rightarrow> account_id \<Rightarrow> balance \<Rightarrow> balance_status \<Rightarrow> ('n, balance) call"

text \<open>The three orml traits.\<close>

record 'c multi_currency =
  l_minimum_balance :: "asset_id \<Rightarrow> balance"
  l_total_issuance :: "asset_id \<Rightarrow> 'c \<Rightarrow> balance"
  l_total_balance :: "asset_id \<Rightarrow> account_id \<Rightarrow> 'c \<Rightarrow> balance"
  l_free_balance :: "asset_id \<Rightarrow> account_id \<Rightarrow> 'c \<Rightarrow> balance"
  l_ensure_can_withdraw :: "asset_id \<Rightarrow> account_id \<Rightarrow> balance \<Rightarrow> ('c, unit) call"
  l_transfer :: "asset_id \<Rightarrow> account_id \<Rightarrow> account_id \<Rightarrow> balance \<Rightarrow> ('c, unit) call"
  l_deposit :: "asset_id \<Rightarrow> account_id \<Rightarrow> balance \<Rightarrow> ('c, unit) call"
  l_withdraw :: "asset_id \<Rightarrow> account_id \<Rightarrow> balance \<Rightarrow> ('c, unit) call"
  l_can_slash :: "asset_id \<Rightarrow> account_id \<Rightarrow> balance \<Rightarrow> 'c \<Rightarrow> bool"
  l_slash :: "asset_id \<Rightarrow> account_id \<Rightarrow> balance \<Rightarrow> 'c \<Rightarrow> balance \<times> 'c"
  l_set_lock :: "lock_identifier \<Rightarrow> asset_id \<Rightarrow> account_id \<Rightarrow> balance \<Rightarrow> ('c, unit) call"
  l_extend_lock :: "lock_identifier \<Rightarrow> asset_id \<Rightarrow> account_id \<Rightarrow> balance \<Rightarrow> ('c, unit) call"
  l_remove_lock :: "lock_identifier \<Rightarrow> asset_id \<Rightarrow> account_id \<Rightarrow> ('c, unit) call"
  l_locked :: "lock_identifier \<Rightarrow> asset_id \<Rightarrow> account_id \<Rightarrow> 'c \<Rightarrow> balance"
  l_can_reserve :: "asset_id \<Rightarrow> account_id \<Rightarrow> balance \<Rightarrow> 'c \<Rightarrow> bool"
  l_slash_reserved :: "asset_id \<Rightarrow> account_id \<Rightarrow> balance \<Rightarrow> 'c \<Rightarrow> balance \<times> 'c"
  l_reserved_balance :: "asset_id \<Rightarrow> account_id \<Rightarrow> 'c \<Rightarrow> balance"
  l_reserve :: "asset_id \<Rightarrow> account_id \<Rightarrow> balance \<Rightarrow> ('c, unit) call"
  l_unreserve :: "asset_id \<Rightarrow> account_id \<Rightarrow> balance \<Rightarrow> 'c \<Rightarrow> balance \<times> 'c"
  l_repatriate_reserved ::
    "asset_id \<Rightarrow> account_id \<Rightarrow> account_id \<Rightarrow> balance \<Rightarrow> balance_status \<Rightarrow> ('c, balance) call"

record ('n, 'm) orml_config =
  OrmlNativeAssetId :: asset_id
  OrmlNativeCurrency :: "'n native_currency"
  OrmlMultiCurrency :: "'m multi_currency"

section \<open>The routing\<close>

text \<open>An operation of one of the two currencies that cannot fail.\<close>

definition native_update :: "('n \<Rightarrow> 'n) \<Rightarrow> ('n \<times> 'm, unit) call" where
  "native_update f = on_native (modifies f)"

definition native_result :: "('n \<Rightarrow> 'a \<times> 'n) \<Rightarrow> 'n \<times> 'm \<Rightarrow> 'a \<times> 'n \<times> 'm" where
  "native_result f c = (case f (fst c) of (x, n) \<Rightarrow> (x, n, snd c))"

definition multi_result :: "('m \<Rightarrow> 'a \<times> 'm) \<Rightarrow> 'n \<times> 'm \<Rightarrow> 'a \<times> 'n \<times> 'm" where
  "multi_result f c = (case f (snd c) of (x, m) \<Rightarrow> (x, fst c, m))"

definition orml_minimum_balance :: "('n, 'm) orml_config \<Rightarrow> asset_id \<Rightarrow> balance" where
  "orml_minimum_balance cfg a =
     (if a = OrmlNativeAssetId cfg then nc_minimum_balance (OrmlNativeCurrency cfg)
      else l_minimum_balance (OrmlMultiCurrency cfg) a)"

definition orml_total_issuance :: "('n, 'm) orml_config \<Rightarrow> asset_id \<Rightarrow> 'n \<times> 'm \<Rightarrow> balance" where
  "orml_total_issuance cfg a c =
     (if a = OrmlNativeAssetId cfg then nc_total_issuance (OrmlNativeCurrency cfg) (fst c)
      else l_total_issuance (OrmlMultiCurrency cfg) a (snd c))"

definition orml_total_balance :: "('n, 'm) orml_config \<Rightarrow> asset_id \<Rightarrow> account_id \<Rightarrow> 'n \<times> 'm \<Rightarrow> balance" where
  "orml_total_balance cfg a who c =
     (if a = OrmlNativeAssetId cfg then nc_total_balance (OrmlNativeCurrency cfg) who (fst c)
      else l_total_balance (OrmlMultiCurrency cfg) a who (snd c))"

definition orml_free_balance :: "('n, 'm) orml_config \<Rightarrow> asset_id \<Rightarrow> account_id \<Rightarrow> 'n \<times> 'm \<Rightarrow> balance" where
  "orml_free_balance cfg a who c =
     (if a = OrmlNativeAssetId cfg then nc_free_balance (OrmlNativeCurrency cfg) who (fst c)
      else l_free_balance (OrmlMultiCurrency cfg) a who (snd c))"

definition orml_ensure_can_withdraw ::
  "('n, 'm) orml_config \<Rightarrow> asset_id \<Rightarrow> account_id \<Rightarrow> balance \<Rightarrow> ('n \<times> 'm, unit) call" where
  "orml_ensure_can_withdraw cfg a who amount =
     (if a = OrmlNativeAssetId cfg then
        bindM (reads (\<lambda>c. checked_sub (nc_free_balance (OrmlNativeCurrency cfg) who (fst c)) amount)) (\<lambda>left.
        bindM (ok_or left (Arithmetic arithmetic_error.Underflow)) (\<lambda>new_balance.
        on_native (nc_ensure_can_withdraw (OrmlNativeCurrency cfg) who amount withdraw_reasons_all new_balance)))
      else on_multi (l_ensure_can_withdraw (OrmlMultiCurrency cfg) a who amount))"

definition orml_transfer ::
  "('n, 'm) orml_config \<Rightarrow> asset_id \<Rightarrow> account_id \<Rightarrow> account_id \<Rightarrow> balance \<Rightarrow> ('n \<times> 'm, unit) call" where
  "orml_transfer cfg a src dst amount =
     (if a = OrmlNativeAssetId cfg then
        on_native (nc_transfer (OrmlNativeCurrency cfg) src dst amount AllowDeath)
      else on_multi (l_transfer (OrmlMultiCurrency cfg) a src dst amount))"

definition orml_deposit ::
  "('n, 'm) orml_config \<Rightarrow> asset_id \<Rightarrow> account_id \<Rightarrow> balance \<Rightarrow> ('n \<times> 'm, unit) call" where
  "orml_deposit cfg a who amount =
     (if a = OrmlNativeAssetId cfg then
        native_update (nc_deposit_creating (OrmlNativeCurrency cfg) who amount)
      else on_multi (l_deposit (OrmlMultiCurrency cfg) a who amount))"

definition orml_withdraw ::
  "('n, 'm) orml_config \<Rightarrow> asset_id \<Rightarrow> account_id \<Rightarrow> balance \<Rightarrow> ('n \<times> 'm, unit) call" where
  "orml_withdraw cfg a who amount =
     (if a = OrmlNativeAssetId cfg then
        thenM (on_native (nc_withdraw (OrmlNativeCurrency cfg) who amount withdraw_reasons_all AllowDeath)) (ret ())
      else on_multi (l_withdraw (OrmlMultiCurrency cfg) a who amount))"

definition orml_can_slash ::
  "('n, 'm) orml_config \<Rightarrow> asset_id \<Rightarrow> account_id \<Rightarrow> balance \<Rightarrow> 'n \<times> 'm \<Rightarrow> bool" where
  "orml_can_slash cfg a who amount c =
     (if a = OrmlNativeAssetId cfg then nc_can_slash (OrmlNativeCurrency cfg) who amount (fst c)
      else l_can_slash (OrmlMultiCurrency cfg) a who amount (snd c))"

definition orml_slash ::
  "('n, 'm) orml_config \<Rightarrow> asset_id \<Rightarrow> account_id \<Rightarrow> balance \<Rightarrow> 'n \<times> 'm \<Rightarrow> balance \<times> 'n \<times> 'm" where
  "orml_slash cfg a who amount c =
     (if a = OrmlNativeAssetId cfg then
        apfst snd (native_result (nc_slash (OrmlNativeCurrency cfg) who amount) c)
      else multi_result (l_slash (OrmlMultiCurrency cfg) a who amount) c)"

definition orml_set_lock ::
  "('n, 'm) orml_config \<Rightarrow> lock_identifier \<Rightarrow> asset_id \<Rightarrow> account_id \<Rightarrow> balance \<Rightarrow> ('n \<times> 'm, unit) call" where
  "orml_set_lock cfg lock_id a who amount =
     (if a = OrmlNativeAssetId cfg then
        native_update (nc_set_lock (OrmlNativeCurrency cfg) lock_id who amount withdraw_reasons_all)
      else on_multi (l_set_lock (OrmlMultiCurrency cfg) lock_id a who amount))"

definition orml_extend_lock ::
  "('n, 'm) orml_config \<Rightarrow> lock_identifier \<Rightarrow> asset_id \<Rightarrow> account_id \<Rightarrow> balance \<Rightarrow> ('n \<times> 'm, unit) call" where
  "orml_extend_lock cfg lock_id a who amount =
     (if a = OrmlNativeAssetId cfg then
        native_update (nc_extend_lock (OrmlNativeCurrency cfg) lock_id who amount withdraw_reasons_all)
      else on_multi (l_extend_lock (OrmlMultiCurrency cfg) lock_id a who amount))"

definition orml_remove_lock ::
  "('n, 'm) orml_config \<Rightarrow> lock_identifier \<Rightarrow> asset_id \<Rightarrow> account_id \<Rightarrow> ('n \<times> 'm, unit) call" where
  "orml_remove_lock cfg lock_id a who =
     (if a = OrmlNativeAssetId cfg then
        native_update (nc_remove_lock (OrmlNativeCurrency cfg) lock_id who)
      else on_multi (l_remove_lock (OrmlMultiCurrency cfg) lock_id a who))"

definition orml_can_reserve ::
  "('n, 'm) orml_config \<Rightarrow> asset_id \<Rightarrow> account_id \<Rightarrow> balance \<Rightarrow> 'n \<times> 'm \<Rightarrow> bool" where
  "orml_can_reserve cfg a who amount c =
     (if a = OrmlNativeAssetId cfg then nc_can_reserve (OrmlNativeCurrency cfg) who amount (fst c)
      else l_can_reserve (OrmlMultiCurrency cfg) a who amount (snd c))"

definition orml_slash_reserved ::
  "('n, 'm) orml_config \<Rightarrow> asset_id \<Rightarrow> account_id \<Rightarrow> balance \<Rightarrow> 'n \<times> 'm \<Rightarrow> balance \<times> 'n \<times> 'm" where
  "orml_slash_reserved cfg a who amount c =
     (if a = OrmlNativeAssetId cfg then
        apfst snd (native_result (nc_slash_reserved (OrmlNativeCurrency cfg) who amount) c)
      else multi_result (l_slash_reserved (OrmlMultiCurrency cfg) a who amount) c)"

definition orml_reserved_balance ::
  "('n, 'm) orml_config \<Rightarrow> asset_id \<Rightarrow> account_id \<Rightarrow> 'n \<times> 'm \<Rightarrow> balance" where
  "orml_reserved_balance cfg a who c =
     (if a = OrmlNativeAssetId cfg then nc_reserved_balance (OrmlNativeCurrency cfg) who (fst c)
      else l_reserved_balance (OrmlMultiCurrency cfg) a who (snd c))"

definition orml_reserve ::
  "('n, 'm) orml_config \<Rightarrow> asset_id \<Rightarrow> account_id \<Rightarrow> balance \<Rightarrow> ('n \<times> 'm, unit) call" where
  "orml_reserve cfg a who amount =
     (if a = OrmlNativeAssetId cfg then on_native (nc_reserve (OrmlNativeCurrency cfg) who amount)
      else on_multi (l_reserve (OrmlMultiCurrency cfg) a who amount))"

definition orml_unreserve ::
  "('n, 'm) orml_config \<Rightarrow> asset_id \<Rightarrow> account_id \<Rightarrow> balance \<Rightarrow> 'n \<times> 'm \<Rightarrow> balance \<times> 'n \<times> 'm" where
  "orml_unreserve cfg a who amount c =
     (if a = OrmlNativeAssetId cfg then native_result (nc_unreserve (OrmlNativeCurrency cfg) who amount) c
      else multi_result (l_unreserve (OrmlMultiCurrency cfg) a who amount) c)"

definition orml_repatriate_reserved ::
  "('n, 'm) orml_config \<Rightarrow> asset_id \<Rightarrow> account_id \<Rightarrow> account_id \<Rightarrow> balance \<Rightarrow> balance_status \<Rightarrow>
     ('n \<times> 'm, balance) call" where
  "orml_repatriate_reserved cfg a slashed beneficiary amount status =
     (if a = OrmlNativeAssetId cfg then
        on_native (nc_repatriate_reserved (OrmlNativeCurrency cfg) slashed beneficiary amount status)
      else on_multi (l_repatriate_reserved (OrmlMultiCurrency cfg) a slashed beneficiary amount status))"

text \<open>The pallet as a currency of that interface.\<close>

definition assets_multi :: "('n, 'm) orml_config \<Rightarrow> ('n \<times> 'm) multi_currency" where
  "assets_multi cfg =
     \<lparr>l_minimum_balance = orml_minimum_balance cfg, l_total_issuance = orml_total_issuance cfg,
      l_total_balance = orml_total_balance cfg, l_free_balance = orml_free_balance cfg,
      l_ensure_can_withdraw = orml_ensure_can_withdraw cfg, l_transfer = orml_transfer cfg,
      l_deposit = orml_deposit cfg, l_withdraw = orml_withdraw cfg, l_can_slash = orml_can_slash cfg,
      l_slash = orml_slash cfg, l_set_lock = orml_set_lock cfg, l_extend_lock = orml_extend_lock cfg,
      l_remove_lock = orml_remove_lock cfg,
      l_locked = (\<lambda>i a x c. if a = OrmlNativeAssetId cfg then nc_locked (OrmlNativeCurrency cfg) i x (fst c)
                  else l_locked (OrmlMultiCurrency cfg) i a x (snd c)),
      l_can_reserve = orml_can_reserve cfg, l_slash_reserved = orml_slash_reserved cfg,
      l_reserved_balance = orml_reserved_balance cfg, l_reserve = orml_reserve cfg,
      l_unreserve = orml_unreserve cfg, l_repatriate_reserved = orml_repatriate_reserved cfg\<rparr>"

section \<open>What the clients rely on\<close>

text \<open>
  Locks: an amount above zero set under an identifier is the amount of that lock, no operation
  changes another lock, extending a lock never lowers it, and locks do not change balances.
  Transfers move the amount and need it; with a minimum balance of at most one unit they move
  nothing else. These are the laws of orml's trait; the native currency has them for itself.
\<close>

locale lockable_ledger =
  fixes L :: "'c multi_currency"
  assumes l_transfer_atomic: "atomic (l_transfer L a x y n)"
    and l_set_lock_atomic: "atomic (l_set_lock L i a x n)"
    and l_extend_lock_atomic: "atomic (l_extend_lock L i a x n)"
    and l_remove_lock_atomic: "atomic (l_remove_lock L i a x)"
    and l_transfer_enough:
      "l_transfer L a x y n c = (Inr u, d) \<Longrightarrow> x \<noteq> y \<Longrightarrow> n \<le> l_free_balance L a x c"
    and l_transfer_balance:
      "l_transfer L a x y n c = (Inr u, d) \<Longrightarrow> l_minimum_balance L a \<le> 1 \<Longrightarrow>
         l_free_balance L b z d =
           (if b = a \<and> x \<noteq> y then
              if z = y then l_free_balance L a y c + n
              else if z = x then l_free_balance L a x c - n else l_free_balance L b z c
            else l_free_balance L b z c)"
    and l_transfer_locked: "l_transfer L a x y n c = (Inr u, d) \<Longrightarrow> l_locked L i b z d = l_locked L i b z c"
    and l_set_lock_locked: "l_set_lock L i a x n c = (Inr u, d) \<Longrightarrow> 0 < n \<Longrightarrow> l_locked L i a x d = n"
    and l_set_lock_others:
      "l_set_lock L i a x n c = (Inr u, d) \<Longrightarrow> \<not> (j = i \<and> b = a \<and> z = x) \<Longrightarrow> l_locked L j b z d = l_locked L j b z c"
    and l_set_lock_balance: "l_set_lock L i a x n c = (Inr u, d) \<Longrightarrow> l_free_balance L b z d = l_free_balance L b z c"
    and l_extend_lock_locked:
      "l_extend_lock L i a x n c = (Inr u, d) \<Longrightarrow> 0 < n \<Longrightarrow>
         l_locked L j b z d = (if j = i \<and> b = a \<and> z = x then max (l_locked L i a x c) n else l_locked L j b z c)"
    and l_remove_lock_locked:
      "l_remove_lock L i a x c = (Inr u, d) \<Longrightarrow>
         l_locked L j b z d = (if j = i \<and> b = a \<and> z = x then 0 else l_locked L j b z c)"
    and l_remove_lock_balance: "l_remove_lock L i a x c = (Inr u, d) \<Longrightarrow> l_free_balance L b z d = l_free_balance L b z c"

locale native_locks =
  fixes N :: "'n native_currency"
  assumes nc_transfer_atomic: "atomic (nc_transfer N x y n k)"
    and nc_transfer_enough:
      "nc_transfer N x y n k c = (Inr u, d) \<Longrightarrow> x \<noteq> y \<Longrightarrow> n \<le> nc_free_balance N x c"
    and nc_transfer_balance:
      "nc_transfer N x y n k c = (Inr u, d) \<Longrightarrow> nc_minimum_balance N \<le> 1 \<Longrightarrow>
         nc_free_balance N z d =
           (if x = y then nc_free_balance N z c else if z = y then nc_free_balance N y c + n
            else if z = x then nc_free_balance N x c - n else nc_free_balance N z c)"
    and nc_transfer_locked: "nc_transfer N x y n k c = (Inr u, d) \<Longrightarrow> nc_locked N i z d = nc_locked N i z c"
    and nc_set_lock_locked: "0 < n \<Longrightarrow> nc_locked N i x (nc_set_lock N i x n withdraw_reasons_all c) = n"
    and nc_set_lock_others:
      "\<not> (j = i \<and> z = x) \<Longrightarrow> nc_locked N j z (nc_set_lock N i x n withdraw_reasons_all c) = nc_locked N j z c"
    and nc_set_lock_balance: "nc_free_balance N z (nc_set_lock N i x n r c) = nc_free_balance N z c"
    and nc_extend_lock_locked:
      "0 < n \<Longrightarrow> nc_locked N j z (nc_extend_lock N i x n withdraw_reasons_all c) =
         (if j = i \<and> z = x then max (nc_locked N i x c) n else nc_locked N j z c)"
    and nc_remove_lock_locked:
      "nc_locked N j z (nc_remove_lock N i x c) = (if j = i \<and> z = x then 0 else nc_locked N j z c)"
    and nc_remove_lock_balance: "nc_free_balance N z (nc_remove_lock N i x c) = nc_free_balance N z c"

lemma native_update_atomic: "atomic (native_update f)"
  unfolding native_update_def by (intro on_currency_atomic(1) atomic_succeeds succeeds_modifies)

lemma native_update_ok: "native_update f c = (Inr u, d) \<longleftrightarrow> d = (f (fst c), snd c)"
  by (cases c) (simp add: native_update_def on_native_ok ok_simps)

lemma orml_calls_ok:
  "orml_transfer cfg a x y n c = (Inr u, d) \<longleftrightarrow>
     (if a = OrmlNativeAssetId cfg
      then \<exists>n'. nc_transfer (OrmlNativeCurrency cfg) x y n AllowDeath (fst c) = (Inr u, n') \<and> d = (n', snd c)
      else \<exists>m'. l_transfer (OrmlMultiCurrency cfg) a x y n (snd c) = (Inr u, m') \<and> d = (fst c, m'))"
  "orml_set_lock cfg i a x n c = (Inr u, d) \<longleftrightarrow>
     (if a = OrmlNativeAssetId cfg
      then d = (nc_set_lock (OrmlNativeCurrency cfg) i x n withdraw_reasons_all (fst c), snd c)
      else \<exists>m'. l_set_lock (OrmlMultiCurrency cfg) i a x n (snd c) = (Inr u, m') \<and> d = (fst c, m'))"
  "orml_extend_lock cfg i a x n c = (Inr u, d) \<longleftrightarrow>
     (if a = OrmlNativeAssetId cfg
      then d = (nc_extend_lock (OrmlNativeCurrency cfg) i x n withdraw_reasons_all (fst c), snd c)
      else \<exists>m'. l_extend_lock (OrmlMultiCurrency cfg) i a x n (snd c) = (Inr u, m') \<and> d = (fst c, m'))"
  "orml_remove_lock cfg i a x c = (Inr u, d) \<longleftrightarrow>
     (if a = OrmlNativeAssetId cfg then d = (nc_remove_lock (OrmlNativeCurrency cfg) i x (fst c), snd c)
      else \<exists>m'. l_remove_lock (OrmlMultiCurrency cfg) i a x (snd c) = (Inr u, m') \<and> d = (fst c, m'))"
  by (cases c; simp add: orml_transfer_def orml_set_lock_def orml_extend_lock_def orml_remove_lock_def
      native_update_ok on_native_ok on_multi_ok)+

locale orml_currencies =
  native: native_locks N + multi: lockable_ledger M
  for N :: "'n native_currency" and M :: "'m multi_currency" +
  fixes cfg :: "('n, 'm) orml_config"
  assumes orml_native: "OrmlNativeCurrency cfg = N" and orml_multi: "OrmlMultiCurrency cfg = M"

sublocale orml_currencies \<subseteq> routed: lockable_ledger "assets_multi cfg"
proof
  fix a x y n i
  show "atomic (l_transfer (assets_multi cfg) a x y n)"
    by (simp add: assets_multi_def orml_transfer_def orml_native orml_multi on_currency_atomic
        native.nc_transfer_atomic multi.l_transfer_atomic)
  show "atomic (l_set_lock (assets_multi cfg) i a x n)"
    by (simp add: assets_multi_def orml_set_lock_def orml_multi on_currency_atomic
        native_update_atomic multi.l_set_lock_atomic)
  show "atomic (l_extend_lock (assets_multi cfg) i a x n)"
    by (simp add: assets_multi_def orml_extend_lock_def orml_multi on_currency_atomic
        native_update_atomic multi.l_extend_lock_atomic)
  show "atomic (l_remove_lock (assets_multi cfg) i a x)"
    by (simp add: assets_multi_def orml_remove_lock_def orml_multi on_currency_atomic
        native_update_atomic multi.l_remove_lock_atomic)
qed (auto simp: assets_multi_def orml_calls_ok orml_native orml_multi orml_free_balance_def orml_minimum_balance_def
      native.nc_transfer_balance native.nc_transfer_locked native.nc_set_lock_locked native.nc_set_lock_others
      native.nc_set_lock_balance native.nc_extend_lock_locked native.nc_remove_lock_locked
      native.nc_remove_lock_balance multi.l_transfer_balance multi.l_transfer_locked multi.l_set_lock_locked
      multi.l_set_lock_others multi.l_set_lock_balance multi.l_extend_lock_locked multi.l_remove_lock_locked
      multi.l_remove_lock_balance
      dest: native.nc_transfer_enough multi.l_transfer_enough split: if_splits)

context orml_currencies
begin

lemma routed_lockable: "lockable_ledger (assets_multi cfg)"
  by (rule routed.lockable_ledger_axioms)

end

lemma assets_multi_lockable:
  assumes "native_locks (OrmlNativeCurrency cfg)" "lockable_ledger (OrmlMultiCurrency cfg)"
  shows "lockable_ledger (assets_multi cfg)"
  using assms
  by (intro orml_currencies.routed_lockable [of "OrmlNativeCurrency cfg" "OrmlMultiCurrency cfg"])
     (simp add: orml_currencies_def orml_currencies_axioms_def)

section \<open>A ledger with locks\<close>

text \<open>
  Plain tables of free balances, reserved balances and locks, with minimum balance zero. It
  stands for the currencies in the witnesses; the native currency is asset \<open>0\<close> of its own.
\<close>

record lock_book =
  free :: balance_table
  held :: balance_table
  locks :: "lock_identifier \<Rightarrow> balance_table"

definition book_transfer :: "asset_id \<Rightarrow> account_id \<Rightarrow> account_id \<Rightarrow> balance \<Rightarrow> (lock_book, unit) call" where
  "book_transfer a x y n B =
     (if x = y then (Inr (), B)
      else if free B a x < n then (Inl (TokenErr 0), B)
      else (Inr (), B\<lparr>free := moved a x y n (free B)\<rparr>))"

definition book_set_lock :: "lock_identifier \<Rightarrow> asset_id \<Rightarrow> account_id \<Rightarrow> balance \<Rightarrow> lock_book \<Rightarrow> lock_book" where
  "book_set_lock i a x n B = B\<lparr>locks := (locks B)(i := (locks B i)(a := (locks B i a)(x := n)))\<rparr>"

definition book_take :: "asset_id \<Rightarrow> account_id \<Rightarrow> balance \<Rightarrow> (lock_book, unit) call" where
  "book_take a x n B =
     (if free B a x < n then (Inl (TokenErr 0), B) else (Inr (), B\<lparr>free := debited a x n (free B)\<rparr>))"

definition book_slash :: "asset_id \<Rightarrow> account_id \<Rightarrow> balance \<Rightarrow> lock_book \<Rightarrow> balance \<times> lock_book" where
  "book_slash a x n B = (n - free B a x, B\<lparr>free := debited a x n (free B)\<rparr>)"

definition book_slash_reserved :: "asset_id \<Rightarrow> account_id \<Rightarrow> balance \<Rightarrow> lock_book \<Rightarrow> balance \<times> lock_book" where
  "book_slash_reserved a x n B = (n - held B a x, B\<lparr>held := debited a x n (held B)\<rparr>)"

definition book_reserve :: "asset_id \<Rightarrow> account_id \<Rightarrow> balance \<Rightarrow> (lock_book, unit) call" where
  "book_reserve a x n B =
     (if free B a x < n then (Inl (TokenErr 0), B)
      else (Inr (), B\<lparr>free := debited a x n (free B), held := credited a x n (held B)\<rparr>))"

definition book_unreserve :: "asset_id \<Rightarrow> account_id \<Rightarrow> balance \<Rightarrow> lock_book \<Rightarrow> balance \<times> lock_book" where
  "book_unreserve a x n B =
     (let m = min n (held B a x)
      in (n - m, B\<lparr>free := credited a x m (free B), held := debited a x m (held B)\<rparr>))"

definition book_repatriate ::
  "asset_id \<Rightarrow> account_id \<Rightarrow> account_id \<Rightarrow> balance \<Rightarrow> balance_status \<Rightarrow> (lock_book, balance) call" where
  "book_repatriate a x y n st B =
     (let m = min n (held B a x); C = B\<lparr>held := debited a x m (held B)\<rparr>
      in (Inr (n - m),
          case st of Free \<Rightarrow> C\<lparr>free := credited a y m (free C)\<rparr> | Reserved \<Rightarrow> C\<lparr>held := credited a y m (held C)\<rparr>))"

definition book_multi :: "lock_book multi_currency" where
  "book_multi =
     \<lparr>l_minimum_balance = (\<lambda>_. 0), l_total_issuance = (\<lambda>_ _. 0),
      l_total_balance = (\<lambda>a x B. free B a x + held B a x), l_free_balance = (\<lambda>a x B. free B a x),
      l_ensure_can_withdraw = (\<lambda>a x n B. (if n \<le> free B a x then Inr () else Inl (TokenErr 0), B)),
      l_transfer = book_transfer, l_deposit = (\<lambda>a x n. modifies (\<lambda>B. B\<lparr>free := credited a x n (free B)\<rparr>)),
      l_withdraw = book_take, l_can_slash = (\<lambda>a x n B. n \<le> free B a x), l_slash = book_slash,
      l_set_lock = (\<lambda>i a x n. modifies (book_set_lock i a x n)),
      l_extend_lock = (\<lambda>i a x n. modifies (\<lambda>B. book_set_lock i a x (max (locks B i a x) n) B)),
      l_remove_lock = (\<lambda>i a x. modifies (book_set_lock i a x 0)), l_locked = (\<lambda>i a x B. locks B i a x),
      l_can_reserve = (\<lambda>a x n B. n \<le> free B a x), l_slash_reserved = book_slash_reserved,
      l_reserved_balance = (\<lambda>a x B. held B a x), l_reserve = book_reserve, l_unreserve = book_unreserve,
      l_repatriate_reserved = book_repatriate\<rparr>"

definition book_native :: "lock_book native_currency" where
  "book_native =
     \<lparr>nc_minimum_balance = 0, nc_total_issuance = (\<lambda>_. 0),
      nc_total_balance = (\<lambda>x B. free B 0 x + held B 0 x), nc_free_balance = (\<lambda>x B. free B 0 x),
      nc_ensure_can_withdraw = (\<lambda>x n _ m B. (if n \<le> free B 0 x then Inr () else Inl (TokenErr 0), B)),
      nc_transfer = (\<lambda>x y n _. book_transfer 0 x y n),
      nc_deposit_into_existing = (\<lambda>x n B. (Inr n, B\<lparr>free := credited 0 x n (free B)\<rparr>)),
      nc_deposit_creating = (\<lambda>x n B. B\<lparr>free := credited 0 x n (free B)\<rparr>),
      nc_withdraw = (\<lambda>x n _ _. thenM (book_take 0 x n) (ret n)), nc_can_slash = (\<lambda>x n B. n \<le> free B 0 x),
      nc_slash = (\<lambda>x n B. let (r, C) = book_slash 0 x n B in ((n - r, r), C)),
      nc_set_lock = (\<lambda>i x n _. book_set_lock i 0 x n),
      nc_extend_lock = (\<lambda>i x n _ B. book_set_lock i 0 x (max (locks B i 0 x) n) B),
      nc_remove_lock = (\<lambda>i x. book_set_lock i 0 x 0), nc_locked = (\<lambda>i x B. locks B i 0 x),
      nc_can_reserve = (\<lambda>x n B. n \<le> free B 0 x),
      nc_slash_reserved = (\<lambda>x n B. let (r, C) = book_slash_reserved 0 x n B in ((n - r, r), C)),
      nc_reserved_balance = (\<lambda>x B. held B 0 x), nc_reserve = book_reserve 0, nc_unreserve = book_unreserve 0,
      nc_repatriate_reserved = book_repatriate 0\<rparr>"

definition book_assets :: "(lock_book, lock_book) orml_config" where
  "book_assets = \<lparr>OrmlNativeAssetId = 1, OrmlNativeCurrency = book_native, OrmlMultiCurrency = book_multi\<rparr>"

lemmas book_defs = book_multi_def book_native_def book_transfer_def book_set_lock_def

interpretation book_N: native_locks book_native
  by unfold_locales
     (auto simp: book_defs moved_def credited_def debited_def atomic_def split: if_splits)

interpretation book_M: lockable_ledger book_multi
  by unfold_locales
     (auto simp: book_defs moved_def credited_def debited_def atomic_def ok_simps modifies_def split: if_splits)

interpretation book_assets: orml_currencies book_native book_multi book_assets
  by unfold_locales (simp_all add: book_assets_def)

end
