(* ===== verification/Vesting.thy ===== *)
theory Vesting
  imports Assets_Orml
begin

text \<open>
  The vesting pallet (frame/vesting) and the schedules it stores (composable-traits/src/vesting.rs).
  A vested transfer moves an amount and locks it; the lock is lowered period by period when the
  receiver claims. The currency is a \<open>MultiLockableCurrency\<close>, the assets pallet in the runtimes
  (theory \<open>Assets_Orml\<close>), and the pallet relies on the laws of \<open>lockable_ledger\<close>.
  A call of \<open>expect\<close> that fails is the error \<open>Panic\<close>.
\<close>

section \<open>Schedules\<close>

record vesting_schedule =
  start :: block_number
  period :: block_number
  period_count :: nat
  per_period :: balance

definition schedule_end :: "vesting_schedule \<Rightarrow> block_number option" where
  "schedule_end self =
     (case checked_mul u32_max (period self) (period_count self) of
        None \<Rightarrow> None
      | Some n \<Rightarrow> checked_add u32_max n (start self))"

definition total_amount :: "vesting_schedule \<Rightarrow> balance option" where
  "total_amount self = checked_mul u128_max (per_period self) (period_count self)"

text \<open>\<open>None\<close> is a panic of one of the two \<open>expect\<close>s.\<close>

definition locked_amount :: "vesting_schedule \<Rightarrow> block_number \<Rightarrow> balance option" where
  "locked_amount self time =
     (case checked_div (saturating_sub time (start self)) (period self) of
        None \<Rightarrow> None
      | Some full \<Rightarrow>
          let unrealized = saturating_sub (period_count self) (min u32_max full)
          in checked_mul u128_max (per_period self) unrealized)"

section \<open>The pallet\<close>

definition VESTING_LOCK_ID :: lock_identifier where
  "VESTING_LOCK_ID = ''compvest''"

datatype vesting_event =
    VestingScheduleAdded account_id account_id asset_id vesting_schedule
  | Claimed account_id asset_id balance
  | VestingSchedulesUpdated account_id

record 'c vesting_config =
  VestingCurrency :: "'c multi_currency"
  MinVestedTransfer :: balance
  VestedTransferOrigin :: "raw_origin \<Rightarrow> account_id option"
  MaxVestingSchedules :: nat
  VestingLookup :: "nat \<Rightarrow> account_id option"

record 'c vesting =
  VestingSchedules :: "account_id \<times> asset_id \<rightharpoonup> vesting_schedule list"
  vesting_events :: "vesting_event list"
  vesting_block :: block_number
  vesting_currency :: 'c

definition on_vesting_currency :: "('c, 'a) call \<Rightarrow> ('c vesting, 'a) call" where
  "on_vesting_currency m = zoom vesting_currency (\<lambda>c s. s\<lparr>vesting_currency := c\<rparr>) m"

definition vesting_deposit_event :: "vesting_event \<Rightarrow> ('c vesting, unit) call" where
  "vesting_deposit_event e = modifies (\<lambda>s. s\<lparr>vesting_events := vesting_events s @ [e]\<rparr>)"

definition set_schedules :: "account_id \<Rightarrow> asset_id \<Rightarrow> vesting_schedule list option \<Rightarrow> 'c vesting \<Rightarrow> 'c vesting" where
  "set_schedules who asset v s = s\<lparr>VestingSchedules := (VestingSchedules s)((who, asset) := v)\<rparr>"

definition ensure_valid_vesting_schedule ::
  "'c vesting_config \<Rightarrow> vesting_schedule \<Rightarrow> ('s, balance) call" where
  "ensure_valid_vesting_schedule cfg schedule =
     thenM (ensure (period schedule \<noteq> 0) (VestingErr ZeroVestingPeriod))
    (thenM (ensure (period_count schedule \<noteq> 0) (VestingErr ZeroVestingPeriodCount))
    (thenM (ensure (schedule_end schedule \<noteq> None) (Arithmetic arithmetic_error.Overflow))
    (bindM (ok_or (total_amount schedule) (Arithmetic arithmetic_error.Overflow)) (\<lambda>total.
     thenM (ensure (MinVestedTransfer cfg \<le> total) (VestingErr AmountLow))
       (ret total)))))"

text \<open>
  \<open>schedules.retain\<close> with the running total: what is kept, and the total with saturation;
  \<open>None\<close> when \<open>locked_amount\<close> panics on one of them.
\<close>

fun retain_locked ::
  "block_number \<Rightarrow> balance \<Rightarrow> vesting_schedule list \<Rightarrow> (balance \<times> vesting_schedule list) option" where
  "retain_locked now acc [] = Some (acc, [])"
| "retain_locked now acc (s # ss) =
     (case locked_amount s now of
        None \<Rightarrow> None
      | Some amount \<Rightarrow>
          (case retain_locked now (saturating_add u128_max acc amount) ss of
             None \<Rightarrow> None
           | Some (t, kept) \<Rightarrow> Some (t, if amount = 0 then kept else s # kept)))"

definition locked_balance :: "account_id \<Rightarrow> asset_id \<Rightarrow> ('c vesting, balance) call" where
  "locked_balance who asset =
     bindM (reads vesting_block) (\<lambda>now.
     bindM (reads (\<lambda>s. VestingSchedules s (who, asset))) (\<lambda>maybe_schedules.
     case maybe_schedules of
       Some schedules \<Rightarrow>
         bindM (ok_or (retain_locked now 0 schedules) (Panic ''locked_amount'')) (\<lambda>(total, kept).
         thenM (modifies (set_schedules who asset (if total = 0 then None else Some kept)))
           (ret total))
     | None \<Rightarrow> thenM (modifies (set_schedules who asset None)) (ret 0)))"

definition do_claim :: "'c vesting_config \<Rightarrow> account_id \<Rightarrow> asset_id \<Rightarrow> ('c vesting, balance) call" where
  "do_claim cfg who asset =
     bindM (locked_balance who asset) (\<lambda>locked.
     thenM
       (if locked = 0 then
          thenM (modifies (set_schedules who asset None))
            (on_vesting_currency (l_remove_lock (VestingCurrency cfg) VESTING_LOCK_ID asset who))
        else on_vesting_currency (l_set_lock (VestingCurrency cfg) VESTING_LOCK_ID asset who locked))
       (ret locked))"

text \<open>\<open>VestedTransfer::vested_transfer\<close> of the trait.\<close>

definition vested_transfer ::
  "'c vesting_config \<Rightarrow> asset_id \<Rightarrow> account_id \<Rightarrow> account_id \<Rightarrow> vesting_schedule \<Rightarrow> ('c vesting, unit) call" where
  "vested_transfer cfg asset from to schedule =
     transactional
     (bindM (ensure_valid_vesting_schedule cfg schedule) (\<lambda>schedule_amount.
      bindM (locked_balance to asset) (\<lambda>locked.
      bindM (ok_or (checked_add u128_max locked schedule_amount) (Arithmetic arithmetic_error.Overflow)) (\<lambda>total.
      thenM (on_vesting_currency (l_transfer (VestingCurrency cfg) asset from to schedule_amount))
     (thenM (on_vesting_currency (l_set_lock (VestingCurrency cfg) VESTING_LOCK_ID asset to total))
     (bindM (reads (\<lambda>s. VestingSchedules s (to, asset))) (\<lambda>stored.
      let schedules = (case stored of None \<Rightarrow> [] | Some ss \<Rightarrow> ss) in
      thenM (ensure (length schedules < MaxVestingSchedules cfg) (VestingErr MaxVestingSchedulesExceeded))
        (modifies (set_schedules to asset (Some (schedules @ [schedule])))))))))))"

fun sum_valid_schedules ::
  "'c vesting_config \<Rightarrow> balance \<Rightarrow> vesting_schedule list \<Rightarrow> ('s, balance) call" where
  "sum_valid_schedules cfg acc_amount [] = ret acc_amount"
| "sum_valid_schedules cfg acc_amount (s # ss) =
     bindM (ensure_valid_vesting_schedule cfg s) (\<lambda>amount.
     sum_valid_schedules cfg (wrapping_add u128_max acc_amount amount) ss)"

definition do_update_vesting_schedules ::
  "'c vesting_config \<Rightarrow> account_id \<Rightarrow> asset_id \<Rightarrow> vesting_schedule list \<Rightarrow> ('c vesting, unit) call" where
  "do_update_vesting_schedules cfg who asset schedules =
     thenM (ensure (length schedules \<le> MaxVestingSchedules cfg) (VestingErr MaxVestingSchedulesExceeded))
    (if schedules = [] then
       thenM (modifies (set_schedules who asset None))
         (on_vesting_currency (l_remove_lock (VestingCurrency cfg) VESTING_LOCK_ID asset who))
     else
       bindM (sum_valid_schedules cfg 0 schedules) (\<lambda>total.
       bindM (reads (\<lambda>s. l_free_balance (VestingCurrency cfg) asset who (vesting_currency s))) (\<lambda>free.
       thenM (ensure (total \<le> free) (VestingErr InsufficientBalanceToLock))
      (thenM (on_vesting_currency (l_set_lock (VestingCurrency cfg) VESTING_LOCK_ID asset who total))
        (modifies (set_schedules who asset (Some schedules)))))))"

text \<open>
  \<open>GenesisConfig::build\<close>: the schedules of the chain specification, each with its asset and
  account. A failed \<open>expect\<close> or \<open>assert\<close> stops the build.
\<close>

definition genesis_build_item ::
  "'c vesting_config \<Rightarrow> asset_id \<times> account_id \<times> vesting_schedule \<Rightarrow> ('c vesting, unit) call" where
  "genesis_build_item cfg item =
     (case item of (asset, who, schedule) \<Rightarrow>
       bindM (reads (\<lambda>s. case VestingSchedules s (who, asset) of None \<Rightarrow> [] | Some ss \<Rightarrow> ss)) (\<lambda>stored.
       thenM (ensure (length stored < MaxVestingSchedules cfg) (Panic ''Max vesting schedules exceeded''))
      (let schedules = stored @ [schedule] in
       bindM (map_err (\<lambda>_. Panic ''Invalid vesting schedule'') (sum_valid_schedules cfg 0 schedules)) (\<lambda>total.
       bindM (reads (\<lambda>s. l_free_balance (VestingCurrency cfg) asset who (vesting_currency s))) (\<lambda>free.
       thenM (ensure (total \<le> free) (Panic ''Account do not have enough balance''))
      (thenM (map_err (\<lambda>_. Panic ''impossible; qed;'')
               (on_vesting_currency (l_set_lock (VestingCurrency cfg) VESTING_LOCK_ID asset who total)))
        (modifies (set_schedules who asset (Some schedules)))))))))"

fun genesis_build ::
  "'c vesting_config \<Rightarrow> (asset_id \<times> account_id \<times> vesting_schedule) list \<Rightarrow> ('c vesting, unit) call" where
  "genesis_build cfg [] = ret ()"
| "genesis_build cfg (item # items) = thenM (genesis_build_item cfg item) (genesis_build cfg items)"

section \<open>The dispatchables\<close>

definition vesting_lookup :: "'c vesting_config \<Rightarrow> nat \<Rightarrow> ('s, account_id) call" where
  "vesting_lookup cfg src = ok_or (VestingLookup cfg src) CannotLookup"

definition vesting_claim :: "'c vesting_config \<Rightarrow> raw_origin \<Rightarrow> asset_id \<Rightarrow> ('c vesting, unit) call" where
  "vesting_claim cfg orig asset =
     bindM (ensure_signed orig) (\<lambda>who.
     bindM (do_claim cfg who asset) (\<lambda>locked_amount.
     vesting_deposit_event (Claimed who asset locked_amount)))"

definition vested_transfer_call ::
  "'c vesting_config \<Rightarrow> raw_origin \<Rightarrow> nat \<Rightarrow> asset_id \<Rightarrow> vesting_schedule \<Rightarrow> ('c vesting, unit) call" where
  "vested_transfer_call cfg orig dest asset schedule =
     bindM (ok_or (VestedTransferOrigin cfg orig) BadOrigin) (\<lambda>from.
     bindM (vesting_lookup cfg dest) (\<lambda>to.
     thenM (vested_transfer cfg asset from to schedule)
       (vesting_deposit_event (VestingScheduleAdded from to asset schedule))))"

definition update_vesting_schedules ::
  "'c vesting_config \<Rightarrow> raw_origin \<Rightarrow> nat \<Rightarrow> asset_id \<Rightarrow> vesting_schedule list \<Rightarrow> ('c vesting, unit) call" where
  "update_vesting_schedules cfg orig who asset schedules =
     thenM (ensure_root orig)
    (bindM (vesting_lookup cfg who) (\<lambda>account.
     thenM (do_update_vesting_schedules cfg account asset schedules)
       (vesting_deposit_event (VestingSchedulesUpdated account))))"

definition claim_for :: "'c vesting_config \<Rightarrow> raw_origin \<Rightarrow> nat \<Rightarrow> asset_id \<Rightarrow> ('c vesting, unit) call" where
  "claim_for cfg orig dest asset =
     thenM (ensure_signed orig)
    (bindM (vesting_lookup cfg dest) (\<lambda>who.
     bindM (do_claim cfg who asset) (\<lambda>locked_amount.
     vesting_deposit_event (Claimed who asset locked_amount))))"

section \<open>Laws of a schedule\<close>

definition valid_schedule :: "vesting_schedule \<Rightarrow> bool" where
  "valid_schedule s \<longleftrightarrow>
     0 < period s \<and> 0 < period_count s \<and> period s * period_count s + start s \<le> u32_max \<and>
     per_period s * period_count s \<le> u128_max"

text \<open>The amount still locked, of a valid schedule.\<close>

definition unvested :: "vesting_schedule \<Rightarrow> block_number \<Rightarrow> balance" where
  "unvested s now = per_period s * (period_count s - (now - start s) div period s)"

lemma ensure_valid_ok [ok_simps]:
  "ensure_valid_vesting_schedule cfg s w = (Inr n, w') \<longleftrightarrow>
     valid_schedule s \<and> n = per_period s * period_count s \<and> MinVestedTransfer cfg \<le> n \<and> w' = w"
  by (auto simp: ensure_valid_vesting_schedule_def ok_simps valid_schedule_def schedule_end_def
      total_amount_def checked_mul_def checked_add_def split: option.splits if_splits)

lemma keeps_ensure_valid [keeps_intros]: "keeps (ensure_valid_vesting_schedule cfg s)"
  unfolding ensure_valid_vesting_schedule_def by (intro keeps_intros)

lemma valid_count: "valid_schedule s \<Longrightarrow> period_count s \<le> u32_max"
  unfolding valid_schedule_def by (cases "period s") (auto intro: le_trans [rotated])

lemma unvested_total: "unvested s now \<le> per_period s * period_count s"
  unfolding unvested_def by (rule mult_le_mono2) simp

lemma locked_amount_valid:
  assumes "valid_schedule s"
  shows "locked_amount s now = Some (unvested s now)"
proof -
  have "period_count s - min u32_max ((now - start s) div period s) = period_count s - (now - start s) div period s"
    using valid_count [OF assms] by (auto simp: min_def)
  moreover have "unvested s now \<le> u128_max"
    using assms unvested_total [of s now] by (simp add: valid_schedule_def)
  ultimately show ?thesis
    using assms by (simp add: locked_amount_def checked_div_def checked_mul_def saturating_sub_def Let_def
        valid_schedule_def unvested_def)
qed

lemma unvested_mono: "now \<le> later \<Longrightarrow> unvested s later \<le> unvested s now"
  unfolding unvested_def by (intro mult_le_mono2 diff_le_mono2 div_le_mono diff_le_mono)

lemma unvested_start: "valid_schedule s \<Longrightarrow> now < start s + period s \<Longrightarrow> unvested s now = per_period s * period_count s"
  by (cases "now - start s < period s") (auto simp: unvested_def valid_schedule_def)

lemma unvested_end:
  assumes "valid_schedule s" "start s + period s * period_count s \<le> now"
  shows "unvested s now = 0"
proof -
  have "period_count s \<le> (now - start s) div period s"
    using assms by (simp add: valid_schedule_def less_eq_div_iff_mult_less_eq mult.commute)
  then show ?thesis by (simp add: unvested_def)
qed

section \<open>Pruning the schedules\<close>

definition unvested_sum :: "vesting_schedule list \<Rightarrow> block_number \<Rightarrow> balance" where
  "unvested_sum ss now = sum_list (map (\<lambda>s. unvested s now) ss)"

lemma unvested_sum_mono: "now \<le> later \<Longrightarrow> unvested_sum ss later \<le> unvested_sum ss now"
  unfolding unvested_sum_def by (induction ss) (auto intro: add_mono unvested_mono)

lemma min_u128_zero [simp]: "min u128_max n = 0 \<longleftrightarrow> n = 0"
  by (simp add: min_def u128_max_def)

lemma retain_locked_valid:
  assumes "list_all valid_schedule ss" "acc \<le> u128_max"
  shows "retain_locked now acc ss =
    Some (min u128_max (acc + unvested_sum ss now), filter (\<lambda>s. 0 < unvested s now) ss)"
  using assms
proof (induction ss arbitrary: acc)
  case (Cons s ss)
  have "min u128_max (min u128_max (acc + unvested s now) + unvested_sum ss now)
      = min u128_max (acc + (unvested s now + unvested_sum ss now))"
    by auto
  then show ?case
    using Cons by (simp add: locked_amount_valid unvested_sum_def saturating_add_def)
qed (simp add: unvested_sum_def)

lemma unvested_sum_retained:
  "unvested_sum (filter (\<lambda>s. 0 < unvested s now) ss) now = unvested_sum ss now"
  by (induction ss) (auto simp: unvested_sum_def)

lemma unvested_sum_zero: "unvested_sum ss now = 0 \<Longrightarrow> filter (\<lambda>s. 0 < unvested s now) ss = []"
  by (induction ss) (auto simp: unvested_sum_def)

end
