(* ===== verification/Vesting_Properties.thy ===== *)
theory Vesting_Properties
  imports Vesting
begin

text \<open>
  The vesting pallet never releases early: in every state it can reach the lock of an account
  covers what its stored schedules have not vested yet, and reading the schedules cannot panic.
  The exceptions, accounts given schedules whose totals together wrap, are kept explicitly.
\<close>

section \<open>Reading the schedules\<close>

definition stored :: "account_id \<Rightarrow> asset_id \<Rightarrow> 'c vesting \<Rightarrow> vesting_schedule list" where
  "stored who asset s = (case VestingSchedules s (who, asset) of None \<Rightarrow> [] | Some ss \<Rightarrow> ss)"

definition locked_now :: "account_id \<Rightarrow> asset_id \<Rightarrow> 'c vesting \<Rightarrow> balance" where
  "locked_now who asset s = min u128_max (unvested_sum (stored who asset s) (vesting_block s))"

definition pruned :: "account_id \<Rightarrow> asset_id \<Rightarrow> 'c vesting \<Rightarrow> 'c vesting" where
  "pruned who asset s =
     set_schedules who asset
       (if locked_now who asset s = 0 then None
        else Some (filter (\<lambda>x. 0 < unvested x (vesting_block s)) (stored who asset s))) s"

definition schedules_ok :: "'c vesting_config \<Rightarrow> 'c vesting \<Rightarrow> bool" where
  "schedules_ok cfg s \<longleftrightarrow>
     (\<forall>who asset. list_all valid_schedule (stored who asset s) \<and>
        length (stored who asset s) \<le> MaxVestingSchedules cfg)"

lemma locked_balance_eq:
  assumes "schedules_ok cfg s"
  shows "locked_balance who asset s = (Inr (locked_now who asset s), pruned who asset s)"
proof (cases "VestingSchedules s (who, asset)")
  case None
  then show ?thesis
    by (simp add: locked_balance_def call_eval locked_now_def stored_def pruned_def unvested_sum_def)
next
  case (Some ss)
  then have "list_all valid_schedule ss"
    using assms by (metis schedules_ok_def stored_def option.simps(5))
  then have "retain_locked (vesting_block s) 0 ss =
      Some (min u128_max (unvested_sum ss (vesting_block s)), filter (\<lambda>x. 0 < unvested x (vesting_block s)) ss)"
    using retain_locked_valid [of ss 0 "vesting_block s"] by simp
  then show ?thesis
    using Some by (simp add: locked_balance_def call_eval locked_now_def stored_def pruned_def)
qed

lemma stored_set_schedules:
  "stored w a (set_schedules who asset v s) =
     (if w = who \<and> a = asset then (case v of None \<Rightarrow> [] | Some ss \<Rightarrow> ss) else stored w a s)"
  by (auto simp: stored_def set_schedules_def)

lemma stored_currency [simp]: "stored w a (s\<lparr>vesting_currency := c\<rparr>) = stored w a s"
  "stored w a (s\<lparr>vesting_block := b\<rparr>) = stored w a s" "stored w a (s\<lparr>vesting_events := es\<rparr>) = stored w a s"
  by (simp_all add: stored_def)

lemma set_schedules_frame [simp]:
  "vesting_currency (set_schedules who asset v s) = vesting_currency s"
  "vesting_block (set_schedules who asset v s) = vesting_block s"
  by (simp_all add: set_schedules_def)

lemma stored_pruned:
  "stored w a (pruned who asset s) =
     (if w = who \<and> a = asset then filter (\<lambda>x. 0 < unvested x (vesting_block s)) (stored who asset s)
      else stored w a s)"
proof -
  have "filter (\<lambda>x. 0 < unvested x (vesting_block s)) (stored who asset s) = []" if "locked_now who asset s = 0"
    using that by (intro unvested_sum_zero) (simp add: locked_now_def)
  then show ?thesis
    by (auto simp: pruned_def stored_set_schedules)
qed

lemma pruned_frame [simp]:
  "vesting_currency (pruned who asset s) = vesting_currency s" "vesting_block (pruned who asset s) = vesting_block s"
  by (simp_all add: pruned_def)

lemma locked_now_pruned [simp]: "locked_now w a (pruned who asset s) = locked_now w a s"
  by (simp add: locked_now_def stored_pruned unvested_sum_retained)

lemma same_currency [simp]: "vesting_currency s = c \<Longrightarrow> s\<lparr>vesting_currency := c\<rparr> = s"
  by auto

lemma schedules_ok_pruned: "schedules_ok cfg s \<Longrightarrow> schedules_ok cfg (pruned who asset s)"
  by (auto simp: schedules_ok_def stored_pruned list_all_iff intro: le_trans [OF length_filter_le])

section \<open>The invariant\<close>

text \<open>
  Every stored schedule is valid, and outside the set \<open>W\<close> of accounts and assets every lock
  covers what is unvested.
\<close>

definition vesting_ok :: "'c vesting_config \<Rightarrow> (account_id \<times> asset_id) set \<Rightarrow> 'c vesting \<Rightarrow> bool" where
  "vesting_ok cfg W s \<longleftrightarrow> schedules_ok cfg s \<and>
     (\<forall>who asset. (who, asset) \<notin> W \<longrightarrow> locked_now who asset s \<le> l_locked (VestingCurrency cfg) VESTING_LOCK_ID asset who (vesting_currency s))"

lemma vesting_ok_mono: "vesting_ok cfg W s \<Longrightarrow> W \<subseteq> W' \<Longrightarrow> vesting_ok cfg W' s"
  by (auto simp: vesting_ok_def)

lemma vesting_ok_pruned: "vesting_ok cfg W s \<Longrightarrow> vesting_ok cfg W (pruned who asset s)"
  by (simp add: vesting_ok_def schedules_ok_pruned)

lemma on_vesting_currency_ok [ok_simps]:
  "on_vesting_currency m s = (Inr x, t) \<longleftrightarrow>
     (\<exists>c. m (vesting_currency s) = (Inr x, c) \<and> t = s\<lparr>vesting_currency := c\<rparr>)"
  by (simp add: on_vesting_currency_def ok_simps)

lemma vesting_deposit_event_ok [ok_simps]:
  "vesting_deposit_event e s = (Inr x, t) \<longleftrightarrow> t = s\<lparr>vesting_events := vesting_events s @ [e]\<rparr>"
  by (simp add: vesting_deposit_event_def ok_simps)

lemma vesting_ok_event [simp]: "vesting_ok cfg W (s\<lparr>vesting_events := es\<rparr>) = vesting_ok cfg W s"
  by (simp add: vesting_ok_def schedules_ok_def locked_now_def)

locale vesting_ledger = lockable_ledger "VestingCurrency cfg" for cfg :: "'c vesting_config"
begin

lemma do_claim_result:
  assumes "schedules_ok cfg s" "do_claim cfg who asset s = (r, t)"
  shows "(\<exists>e. r = Inl e \<and> t = pruned who asset s) \<or>
    (r = Inr (locked_now who asset s) \<and>
     (\<exists>c. t = (pruned who asset s)\<lparr>vesting_currency := c\<rparr> \<and>
        (\<forall>b z. l_locked (VestingCurrency cfg) VESTING_LOCK_ID b z c =
           (if b = asset \<and> z = who then locked_now who asset s
            else l_locked (VestingCurrency cfg) VESTING_LOCK_ID b z (vesting_currency s))) \<and>
        (\<forall>b z. l_free_balance (VestingCurrency cfg) b z c = l_free_balance (VestingCurrency cfg) b z (vesting_currency s))))"
proof (cases "locked_now who asset s = 0")
  case True
  have same: "set_schedules who asset None (pruned who asset s) = pruned who asset s"
    using True by (simp add: pruned_def set_schedules_def)
  obtain q c where run: "l_remove_lock (VestingCurrency cfg) VESTING_LOCK_ID asset who (vesting_currency s) = (q, c)"
    by fastforce
  show ?thesis
  proof (cases q)
    case (Inl e)
    then have "c = vesting_currency s" using run atomicD [OF l_remove_lock_atomic] by blast
    with Inl run assms(2) show ?thesis
      by (auto simp: do_claim_def bindM_def thenM_def locked_balance_eq [OF assms(1)] True
          modifies_def same on_vesting_currency_def zoom_def)
  next
    case (Inr u)
    then have "t = (pruned who asset s)\<lparr>vesting_currency := c\<rparr>" "r = Inr 0"
      using run assms(2)
      by (auto simp: do_claim_def bindM_def thenM_def locked_balance_eq [OF assms(1)] True
          modifies_def same on_vesting_currency_def zoom_def ret_def)
    with run Inr True l_remove_lock_locked l_remove_lock_balance show ?thesis by auto
  qed
next
  case False
  obtain q c where run: "l_set_lock (VestingCurrency cfg) VESTING_LOCK_ID asset who (locked_now who asset s) (vesting_currency s) = (q, c)"
    by fastforce
  show ?thesis
  proof (cases q)
    case (Inl e)
    then have "c = vesting_currency s" using run atomicD [OF l_set_lock_atomic] by blast
    with Inl run assms(2) False show ?thesis
      by (auto simp: do_claim_def bindM_def thenM_def locked_balance_eq [OF assms(1)]
          on_vesting_currency_def zoom_def)
  next
    case (Inr u)
    then have "t = (pruned who asset s)\<lparr>vesting_currency := c\<rparr>" "r = Inr (locked_now who asset s)"
      using run assms(2) False
      by (auto simp: do_claim_def bindM_def thenM_def locked_balance_eq [OF assms(1)]
          on_vesting_currency_def zoom_def ret_def)
    with run Inr False show ?thesis
      by (intro disjI2 conjI exI [of _ c]) (auto simp: l_set_lock_locked l_set_lock_others l_set_lock_balance)
  qed
qed

lemma do_claim_vesting_ok:
  assumes "vesting_ok cfg W s" "do_claim cfg who asset s = (r, t)"
  shows "vesting_ok cfg W t"
proof -
  have ok: "schedules_ok cfg s" using assms(1) by (simp add: vesting_ok_def)
  from do_claim_result [OF ok assms(2)] show ?thesis
  proof (elim disjE exE conjE)
    fix c
    assume t: "t = (pruned who asset s)\<lparr>vesting_currency := c\<rparr>" and
      c: "\<forall>b z. l_locked (VestingCurrency cfg) VESTING_LOCK_ID b z c =
         (if b = asset \<and> z = who then locked_now who asset s
          else l_locked (VestingCurrency cfg) VESTING_LOCK_ID b z (vesting_currency s))"
    have "locked_now w a t = locked_now w a s" for w a
      using locked_now_pruned [of w a who asset s] t by (simp add: locked_now_def)
    moreover have "schedules_ok cfg t"
      using schedules_ok_pruned [OF ok] t by (simp add: schedules_ok_def)
    ultimately show ?thesis
      using assms(1) c t by (simp add: vesting_ok_def)
  qed (use vesting_ok_pruned [OF assms(1)] in auto)
qed

text \<open>A successful vested transfer.\<close>

lemma vested_transfer_effect:
  assumes "vested_transfer cfg asset src to schedule s = (Inr u, t)" "schedules_ok cfg s"
  shows "\<exists>c. valid_schedule schedule \<and>
    MinVestedTransfer cfg \<le> per_period schedule * period_count schedule \<and>
    locked_now to asset s + per_period schedule * period_count schedule \<le> u128_max \<and>
    length (stored to asset (pruned to asset s)) < MaxVestingSchedules cfg \<and>
    t = set_schedules to asset (Some (stored to asset (pruned to asset s) @ [schedule]))
          ((pruned to asset s)\<lparr>vesting_currency := c\<rparr>) \<and>
    (\<exists>c1 v w. l_transfer (VestingCurrency cfg) asset src to (per_period schedule * period_count schedule)
        (vesting_currency s) = (Inr v, c1) \<and>
      l_set_lock (VestingCurrency cfg) VESTING_LOCK_ID asset to (locked_now to asset s + per_period schedule * period_count schedule) c1
        = (Inr w, c))"
  using assms(1)
  by (auto simp: vested_transfer_def ok_simps locked_balance_eq [OF assms(2)] checked_add_def Let_def
      stored_def [symmetric] split: if_splits)

lemma vesting_ok_write:
  assumes "vesting_ok cfg W s" "W \<subseteq> insert (who, asset) W'"
    and "list_all valid_schedule ss" "length ss \<le> MaxVestingSchedules cfg"
    and "\<And>b z. \<not> (b = asset \<and> z = who) \<Longrightarrow> l_locked (VestingCurrency cfg) VESTING_LOCK_ID b z c
           = l_locked (VestingCurrency cfg) VESTING_LOCK_ID b z (vesting_currency s)"
    and "(who, asset) \<in> W' \<or>
      min u128_max (unvested_sum ss (vesting_block s)) \<le> l_locked (VestingCurrency cfg) VESTING_LOCK_ID asset who c"
    and "(case v of None \<Rightarrow> [] | Some xs \<Rightarrow> xs) = ss"
  shows "vesting_ok cfg W' (set_schedules who asset v (s\<lparr>vesting_currency := c\<rparr>))"
proof -
  let ?t = "set_schedules who asset v (s\<lparr>vesting_currency := c\<rparr>)"
  have st: "stored w a ?t = (if w = who \<and> a = asset then ss else stored w a s)" for w a
    using assms(7) by (simp add: stored_set_schedules)
  have "locked_now w a ?t \<le> l_locked (VestingCurrency cfg) VESTING_LOCK_ID a w (vesting_currency ?t)"
    if "(w, a) \<notin> W'" for w a
  proof (cases "w = who \<and> a = asset")
    case False
    then have "(w, a) \<notin> W" using that assms(2) by auto
    with False show ?thesis
      using assms(1,5) st [of w a] by (auto simp: vesting_ok_def locked_now_def)
  qed (use that assms(6) st [of w a] in \<open>auto simp: locked_now_def\<close>)
  moreover have "schedules_ok cfg ?t"
    using assms(1,3,4) by (auto simp: schedules_ok_def vesting_ok_def st)
  ultimately show ?thesis by (simp add: vesting_ok_def)
qed

lemma vested_transfer_vesting_ok:
  assumes "vested_transfer cfg asset src to schedule s = (Inr u, t)" "vesting_ok cfg W s"
  shows "vesting_ok cfg (W - {(to, asset)}) t"
proof -
  let ?p = "pruned to asset s"
  let ?total = "per_period schedule * period_count schedule"
  have ok: "schedules_ok cfg s" using assms(2) by (simp add: vesting_ok_def)
  from vested_transfer_effect [OF assms(1) ok] obtain c c1 v w where
    valid: "valid_schedule schedule" and len: "length (stored to asset ?p) < MaxVestingSchedules cfg"
    and t: "t = set_schedules to asset (Some (stored to asset ?p @ [schedule])) (?p\<lparr>vesting_currency := c\<rparr>)"
    and xfer: "l_transfer (VestingCurrency cfg) asset src to ?total (vesting_currency s) = (Inr v, c1)"
    and lock: "l_set_lock (VestingCurrency cfg) VESTING_LOCK_ID asset to (locked_now to asset s + ?total) c1 = (Inr w, c)"
    by blast
  have others: "l_locked (VestingCurrency cfg) VESTING_LOCK_ID b z c
      = l_locked (VestingCurrency cfg) VESTING_LOCK_ID b z (vesting_currency ?p)" if "\<not> (b = asset \<and> z = to)" for b z
    using that l_set_lock_others [OF lock, of VESTING_LOCK_ID b z] l_transfer_locked [OF xfer] by simp
  have new: "unvested_sum (stored to asset ?p @ [schedule]) (vesting_block ?p)
      = unvested_sum (stored to asset s) (vesting_block s) + unvested schedule (vesting_block s)"
    using unvested_sum_retained [of "vesting_block s" "stored to asset s"]
    by (simp add: unvested_sum_def stored_pruned)
  have le: "min u128_max (unvested_sum (stored to asset ?p @ [schedule]) (vesting_block ?p))
      \<le> locked_now to asset s + ?total"
    unfolding new locked_now_def using unvested_total [of schedule "vesting_block s"] by (simp add: min_def)
  then have "min u128_max (unvested_sum (stored to asset ?p @ [schedule]) (vesting_block ?p))
      \<le> l_locked (VestingCurrency cfg) VESTING_LOCK_ID asset to c"
    using l_set_lock_locked [OF lock] by (cases "0 < locked_now to asset s + ?total") auto
  then show ?thesis
    unfolding t
    using vesting_ok_write [OF vesting_ok_pruned [OF assms(2), of to asset], of to asset "W - {(to, asset)}" "stored to asset ?p @ [schedule]" c
        "Some (stored to asset ?p @ [schedule])"] others
      valid len schedules_ok_pruned [OF ok, of to asset]
    by (auto simp: schedules_ok_def subset_insertI)
qed

end

text \<open>The total of a list of schedules, and when the fold of the code computes it.\<close>

definition total_sum :: "vesting_schedule list \<Rightarrow> balance" where
  "total_sum ss = sum_list (map (\<lambda>s. per_period s * period_count s) ss)"

lemma unvested_total_sum: "unvested_sum ss now \<le> total_sum ss"
  unfolding unvested_sum_def total_sum_def by (induction ss) (auto intro: add_mono unvested_total)

lemma keeps_sum_valid_schedules [keeps_intros]: "keeps (sum_valid_schedules cfg acc ss)"
  by (induction ss arbitrary: acc) (auto intro!: keeps_intros)

lemma sum_valid_schedules_valid:
  "sum_valid_schedules cfg acc ss w = (Inr n, w') \<Longrightarrow> list_all valid_schedule ss"
  by (induction ss arbitrary: acc) (auto simp: ok_simps)

lemma sum_valid_schedules_total:
  assumes "sum_valid_schedules cfg acc ss w = (Inr n, w')" "acc + total_sum ss \<le> u128_max"
  shows "n = acc + total_sum ss"
  using assms
proof (induction ss arbitrary: acc)
  case (Cons x xs)
  have "wrapping_add u128_max acc (per_period x * period_count x) = acc + per_period x * period_count x"
    using Cons.prems(2) by (simp add: wrapping_add_def total_sum_def)
  then show ?case
    using Cons.prems Cons.IH [of "acc + per_period x * period_count x"]
    by (auto simp: ok_simps total_sum_def add.assoc)
qed (simp add: ok_simps total_sum_def)

text \<open>The accounts and assets whose stored schedules together do not fit a balance.\<close>

definition overlisted :: "'c vesting \<Rightarrow> (account_id \<times> asset_id) set" where
  "overlisted s = {(who, asset). u128_max < total_sum (stored who asset s)}"

context vesting_ledger
begin

lemma lock_schedules_vesting_ok:
  assumes ok: "vesting_ok cfg W s" and sum: "sum_valid_schedules cfg 0 ss s = (Inr n, s)"
    and len: "length ss \<le> MaxVestingSchedules cfg"
    and lock: "l_set_lock (VestingCurrency cfg) VESTING_LOCK_ID asset who n (vesting_currency s) = (Inr u, c)"
    and W': "W \<subseteq> W'" "u128_max < total_sum ss \<Longrightarrow> (who, asset) \<in> W'"
  shows "vesting_ok cfg W' (set_schedules who asset (Some ss) (s\<lparr>vesting_currency := c\<rparr>))"
proof (rule vesting_ok_write [OF ok _ sum_valid_schedules_valid [OF sum] len])
  show "(who, asset) \<in> W' \<or>
      min u128_max (unvested_sum ss (vesting_block s)) \<le> l_locked (VestingCurrency cfg) VESTING_LOCK_ID asset who c"
  proof (cases "total_sum ss \<le> u128_max")
    case True
    then have "n = total_sum ss" using sum_valid_schedules_total [OF sum] by simp
    then show ?thesis
      using unvested_total_sum [of ss "vesting_block s"] l_set_lock_locked [OF lock]
      by (cases "0 < total_sum ss") auto
  qed (use W'(2) in auto)
qed (use l_set_lock_others [OF lock] W'(1) in auto)

lemma do_update_vesting_ok:
  assumes "do_update_vesting_schedules cfg who asset ss s = (r, t)" "vesting_ok cfg W s"
    and W': "W \<subseteq> W'" "u128_max < total_sum ss \<Longrightarrow> (who, asset) \<in> W'"
  shows "vesting_ok cfg W' t"
proof (cases "ss = []")
  case True
  obtain q c where run: "l_remove_lock (VestingCurrency cfg) VESTING_LOCK_ID asset who (vesting_currency s) = (q, c)"
    by fastforce
  then have "l_locked (VestingCurrency cfg) VESTING_LOCK_ID b z c
      = l_locked (VestingCurrency cfg) VESTING_LOCK_ID b z (vesting_currency s)" if "\<not> (b = asset \<and> z = who)" for b z
    using that by (cases q) (auto simp: l_remove_lock_locked dest: atomicD [OF l_remove_lock_atomic])
  then have "vesting_ok cfg W' (set_schedules who asset None (s\<lparr>vesting_currency := c\<rparr>))"
    using W'(1) by (intro vesting_ok_write [OF assms(2), of _ _ _ "[]"]) (auto simp: unvested_sum_def)
  moreover have "t = set_schedules who asset None (s\<lparr>vesting_currency := c\<rparr>)"
    using assms(1) run True
    by (cases s) (auto simp: do_update_vesting_schedules_def call_eval on_vesting_currency_def set_schedules_def)
  ultimately show ?thesis by simp
next
  case False
  show ?thesis
  proof (cases r)
    case (Inl e)
    have "atomic (do_update_vesting_schedules cfg who asset ss)"
      unfolding do_update_vesting_schedules_def if_not_P [OF False]
      by (intro atomic_intros keeps_intros atomic_thenM_succeeds succeeds_intros)
         (auto simp: on_vesting_currency_def intro!: atomic_zoom l_set_lock_atomic)
    then show ?thesis using assms(1,2) Inl W'(1) by (metis atomicD vesting_ok_mono)
  next
    case (Inr x)
    then obtain n u c where "sum_valid_schedules cfg 0 ss s = (Inr n, s)" "length ss \<le> MaxVestingSchedules cfg"
      "l_set_lock (VestingCurrency cfg) VESTING_LOCK_ID asset who n (vesting_currency s) = (Inr u, c)"
      "t = set_schedules who asset (Some ss) (s\<lparr>vesting_currency := c\<rparr>)"
      using assms(1) False keepsD [OF keeps_sum_valid_schedules]
      by (fastforce simp: do_update_vesting_schedules_def ok_simps)
    then show ?thesis using lock_schedules_vesting_ok [OF assms(2) _ _ _ W'] by blast
  qed
qed

lemma genesis_item_vesting_ok:
  assumes "genesis_build_item cfg (asset, who, schedule) s = (Inr u, t)" "vesting_ok cfg (overlisted s) s"
  shows "vesting_ok cfg (overlisted t) t"
proof -
  let ?ss = "stored who asset s @ [schedule]"
  obtain n v c where run: "sum_valid_schedules cfg 0 ?ss s = (Inr n, s)" "length ?ss \<le> MaxVestingSchedules cfg"
    "l_set_lock (VestingCurrency cfg) VESTING_LOCK_ID asset who n (vesting_currency s) = (Inr v, c)"
    and t: "t = set_schedules who asset (Some ?ss) (s\<lparr>vesting_currency := c\<rparr>)"
    using assms(1) keepsD [OF keeps_sum_valid_schedules]
    by (fastforce simp: genesis_build_item_def ok_simps Let_def stored_def)
  have "overlisted s \<subseteq> overlisted t" "u128_max < total_sum ?ss \<Longrightarrow> (who, asset) \<in> overlisted t"
    by (auto simp: overlisted_def t stored_set_schedules total_sum_def)
  then show ?thesis
    unfolding t by (rule lock_schedules_vesting_ok [OF assms(2) run])
qed

lemma genesis_vesting_ok:
  "genesis_build cfg items s = (Inr u, t) \<Longrightarrow> vesting_ok cfg (overlisted s) s \<Longrightarrow> vesting_ok cfg (overlisted t) t"
proof (induction items arbitrary: s)
  case (Cons item items)
  obtain asset who schedule where "item = (asset, who, schedule)" by (cases item)
  with Cons show ?case by (auto simp: ok_simps intro: genesis_item_vesting_ok)
qed (simp add: ok_simps)

end

section \<open>The states the pallet reaches\<close>

text \<open>
  From any genesis the build accepts, by the dispatchables, whatever they are given and
  whatever they return, by blocks, and by anything else that changes balances without touching
  the pallet's locks. The code adds the totals of the schedules of a genesis or of a root update
  with a wrapping \<open>+\<close> (see \<open>update_schedules_sum_wraps\<close>): the set beside the state holds the accounts
  and assets that were ever given schedules whose totals together do not fit a balance.
\<close>

inductive vesting_reach :: "'c vesting_config \<Rightarrow> (account_id \<times> asset_id) set \<Rightarrow> 'c vesting \<Rightarrow> bool" for cfg where
  reach_genesis:
    "VestingSchedules s = Map.empty \<Longrightarrow> genesis_build cfg items s = (Inr u, t) \<Longrightarrow> vesting_reach cfg (overlisted t) t"
| reach_claim: "vesting_reach cfg W s \<Longrightarrow> vesting_claim cfg orig asset s = (r, t) \<Longrightarrow> vesting_reach cfg W t"
| reach_claim_for: "vesting_reach cfg W s \<Longrightarrow> claim_for cfg orig dest asset s = (r, t) \<Longrightarrow> vesting_reach cfg W t"
| reach_transfer:
    "vesting_reach cfg W s \<Longrightarrow> vested_transfer_call cfg orig dest asset schedule s = (r, t) \<Longrightarrow> vesting_reach cfg W t"
| reach_update:
    "vesting_reach cfg W s \<Longrightarrow> update_vesting_schedules cfg orig who asset schedules s = (r, t) \<Longrightarrow>
     vesting_reach cfg
       (W \<union> {(x, asset) | x. VestingLookup cfg who = Some x \<and> u128_max < total_sum schedules}) t"
| reach_block: "vesting_reach cfg W s \<Longrightarrow> vesting_block s \<le> n \<Longrightarrow> vesting_reach cfg W (s\<lparr>vesting_block := n\<rparr>)"
| reach_environment:
    "vesting_reach cfg W s \<Longrightarrow>
     \<forall>a x. l_locked (VestingCurrency cfg) VESTING_LOCK_ID a x c
         = l_locked (VestingCurrency cfg) VESTING_LOCK_ID a x (vesting_currency s) \<Longrightarrow>
     vesting_reach cfg W (s\<lparr>vesting_currency := c\<rparr>)"

lemma vesting_ok_block:
  assumes "vesting_ok cfg W s" "vesting_block s \<le> n"
  shows "vesting_ok cfg W (s\<lparr>vesting_block := n\<rparr>)"
proof -
  have "locked_now w a (s\<lparr>vesting_block := n\<rparr>) \<le> locked_now w a s" for w a
    using unvested_sum_mono [OF assms(2), of "stored w a s"] by (auto simp: locked_now_def)
  with assms(1) show ?thesis
    by (simp add: vesting_ok_def schedules_ok_def) (meson le_trans)
qed

text \<open>A dispatchable that runs an operation and then emits an event.\<close>

lemma vesting_call_cases:
  assumes "bindM m (\<lambda>x. vesting_deposit_event (e x)) s = (r, t)"
  obtains e' where "m s = (Inl e', t)" | x u es where "m s = (Inr x, u)" "t = u\<lparr>vesting_events := es\<rparr>"
  using assms by (auto simp: bindM_def vesting_deposit_event_def modifies_def split: prod.splits sum.splits)

context vesting_ledger
begin

lemma claim_vesting_ok:
  assumes "vesting_ok cfg W s" "bindM (do_claim cfg who asset) (\<lambda>x. vesting_deposit_event (e x)) s = (r, t)"
  shows "vesting_ok cfg W t"
  using assms(2) by (rule vesting_call_cases) (auto dest: do_claim_vesting_ok [OF assms(1)])

lemma transfer_vesting_ok:
  assumes "vesting_ok cfg W s"
    "bindM (vested_transfer cfg asset src to schedule) (\<lambda>x. vesting_deposit_event (e x)) s = (r, t)"
  shows "vesting_ok cfg W t"
proof -
  have "vested_transfer cfg asset src to schedule s = (Inl e', u) \<Longrightarrow> u = s" for e' u
    by (erule atomicD [rotated]) (simp add: vested_transfer_def atomic_transactional)
  then show ?thesis
    using assms(2) vested_transfer_vesting_ok [OF _ assms(1), THEN vesting_ok_mono, OF _ Diff_subset] assms(1)
    by (elim vesting_call_cases) auto
qed

lemma update_vesting_ok:
  assumes "vesting_ok cfg W s"
    "bindM (do_update_vesting_schedules cfg who asset ss) (\<lambda>x. vesting_deposit_event (e x)) s = (r, t)"
  shows "vesting_ok cfg (W \<union> {(x, asset) | x. who = x \<and> u128_max < total_sum ss}) t"
proof -
  have "vesting_ok cfg (W \<union> {(x, asset) | x. who = x \<and> u128_max < total_sum ss}) u"
    if "do_update_vesting_schedules cfg who asset ss s = (q, u)" for q u
    using that by (rule do_update_vesting_ok [OF _ assms(1)]) auto
  then show ?thesis
    using assms(2) by (elim vesting_call_cases) auto
qed

lemma vesting_reach_ok: "vesting_reach cfg W s \<Longrightarrow> vesting_ok cfg W s"
proof (induction rule: vesting_reach.induct)
  case (reach_genesis s items u t)
  have "vesting_ok cfg (overlisted s) s"
    using reach_genesis by (simp add: vesting_ok_def schedules_ok_def locked_now_def stored_def unvested_sum_def)
  then show ?case by (rule genesis_vesting_ok [OF reach_genesis(2)])
next
  case (reach_claim W s orig asset r t)
  then show ?case
    by (cases orig) (auto simp: vesting_claim_def ensure_signed_def bindM_def [of "ret _"] bindM_def [of "fail _"]
        ret_def fail_def dest: claim_vesting_ok)
next
  case (reach_claim_for W s orig dest asset r t)
  then show ?case
    by (cases orig; cases "VestingLookup cfg dest")
       (auto simp: claim_for_def thenM_def vesting_lookup_def ok_or_def ensure_signed_def bindM_def [of "ret _"]
        bindM_def [of "fail _"] ret_def fail_def dest: claim_vesting_ok)
next
  case (reach_transfer W s orig dest asset schedule r t)
  then show ?case
    by (cases "VestedTransferOrigin cfg orig"; cases "VestingLookup cfg dest")
       (auto simp: vested_transfer_call_def thenM_def vesting_lookup_def ok_or_def bindM_def [of "ret _"]
        bindM_def [of "fail _"] ret_def fail_def dest: transfer_vesting_ok)
next
  case (reach_update W s orig who asset ss r t)
  then show ?case
    by (cases orig; cases "VestingLookup cfg who")
       (auto simp: update_vesting_schedules_def thenM_def vesting_lookup_def ok_or_def ensure_root_def
        bindM_def [of "ret _"] bindM_def [of "fail _"] ret_def fail_def dest: update_vesting_ok intro: vesting_ok_mono)
next
  case (reach_block W s n)
  then show ?case by (simp add: vesting_ok_block)
next
  case (reach_environment W s c)
  then show ?case by (simp add: vesting_ok_def schedules_ok_def locked_now_def)
qed

end

section \<open>A concrete runtime\<close>

text \<open>
  The assets pallet over plain tables as the currency, as in the runtimes: account \<open>3\<close> is to
  receive \<open>30\<close> of asset \<open>5\<close> from account \<open>2\<close>, \<open>10\<close> every \<open>4\<close> blocks from block \<open>2\<close> on.
\<close>

definition book_vesting :: "(lock_book \<times> lock_book) vesting_config" where
  "book_vesting =
     \<lparr>VestingCurrency = assets_multi book_assets, MinVestedTransfer = 10,
      VestedTransferOrigin = (\<lambda>orig. case orig of SignedOrigin x \<Rightarrow> Some x | _ \<Rightarrow> None),
      MaxVestingSchedules = 2, VestingLookup = (\<lambda>n. Some n)\<rparr>"

definition no_locks :: lock_book where
  "no_locks = \<lparr>free = (\<lambda>a x. if a = 5 \<and> x = 2 then 100 else 0), held = (\<lambda>_ _. 0), locks = (\<lambda>_ _ _. 0)\<rparr>"

definition vesting_example :: "(lock_book \<times> lock_book) vesting" where
  "vesting_example =
     \<lparr>VestingSchedules = Map.empty, vesting_events = [], vesting_block = 1, vesting_currency = (no_locks, no_locks)\<rparr>"

definition schedule_example :: vesting_schedule where
  "schedule_example = \<lparr>start = 2, period = 4, period_count = 3, per_period = 10\<rparr>"

lemma book_vesting_currency [simp]: "VestingCurrency book_vesting = assets_multi book_assets"
  by (simp add: book_vesting_def)

interpretation book_vesting: vesting_ledger book_vesting
  unfolding vesting_ledger_def book_vesting_currency by (rule book_assets.routed_lockable)

definition vested_example :: "(lock_book \<times> lock_book) vesting" where
  "vested_example = snd (vested_transfer_call book_vesting (SignedOrigin 2) 3 5 schedule_example vesting_example)"

lemmas book_vesting_eval =
  book_vesting_def vesting_example_def schedule_example_def no_locks_def assets_multi_def book_assets_def
  book_defs call_eval on_vesting_currency_def set_schedules_def vesting_deposit_event_def vesting_lookup_def
  ensure_valid_vesting_schedule_def schedule_end_def total_amount_def locked_amount_def checked_mul_def
  checked_add_def checked_div_def saturating_sub_def saturating_add_def u32_max_def u128_max_def
  on_multi_def on_native_def moved_def credited_def debited_def

lemma vesting_example_reach: "vesting_reach book_vesting {} vesting_example"
proof -
  have "overlisted vesting_example = {}"
    by (simp add: overlisted_def stored_def vesting_example_def total_sum_def)
  then show ?thesis
    using reach_genesis [of vesting_example book_vesting "[]"] by (simp add: vesting_example_def ret_def)
qed

lemma vested_example_run:
  "vested_transfer book_vesting 5 2 3 schedule_example vesting_example =
     (Inr (), vested_example\<lparr>vesting_events := []\<rparr>)"
  by (simp add: vested_example_def vested_transfer_call_def vested_transfer_def locked_balance_def
      orml_transfer_def orml_set_lock_def book_vesting_eval)

lemma vested_example_reach: "vesting_reach book_vesting {} vested_example"
  unfolding vested_example_def
  by (rule reach_transfer [OF vesting_example_reach]) (rule prod.collapse [symmetric])

section \<open>Properties\<close>

text \<open>
  C4. In every state the pallet reaches, reading the locked balance of an account cannot panic:
  it returns the sum of what the stored schedules have not vested at this block, capped at the
  largest balance. The lock on the account's funds is at least that amount, so nothing is
  released before it has vested, for every account and asset except those that the genesis or
  a root update gave schedules whose totals together exceed the largest balance.
\<close>

theorem lock_covers_unvested:
  assumes "lockable_ledger (VestingCurrency cfg)" "vesting_reach cfg W s"
  shows "\<exists>t. locked_balance who asset s = (Inr (min u128_max (unvested_sum (stored who asset s) (vesting_block s))), t) \<and>
    ((who, asset) \<notin> W \<longrightarrow>
      min u128_max (unvested_sum (stored who asset s) (vesting_block s))
        \<le> l_locked (VestingCurrency cfg) VESTING_LOCK_ID asset who (vesting_currency s))"
proof -
  have "vesting_ok cfg W s"
    using vesting_ledger.vesting_reach_ok [OF vesting_ledger.intro [OF assms(1)] assms(2)] .
  then show ?thesis
    using locked_balance_eq [of cfg s who asset] by (auto simp: vesting_ok_def locked_now_def)
qed

lemma lock_covers_unvested_witness:
  "\<exists>t. locked_balance 3 5 vested_example = (Inr 30, t) \<and>
     30 \<le> l_locked (assets_multi book_assets) VESTING_LOCK_ID 5 3 (vesting_currency vested_example)"
proof -
  have "unvested_sum (stored 3 5 vested_example) (vesting_block vested_example) = 30"
    by (simp add: vested_example_def vested_transfer_call_def vested_transfer_def locked_balance_def stored_def
        orml_transfer_def orml_set_lock_def book_vesting_eval unvested_sum_def unvested_def)
  moreover have "lockable_ledger (VestingCurrency book_vesting)"
    using book_assets.routed_lockable by simp
  ultimately show ?thesis
    using lock_covers_unvested [of book_vesting "{}" vested_example 3 5] vested_example_reach
    by (simp add: u128_max_def)
qed

text \<open>
  A vested transfer that succeeds stores the schedule after the unfinished ones of the
  receiver, moves exactly its total amount (for an asset without dust), and raises the lock to
  what was still locked plus that total; no other lock changes. It is refused for a schedule
  that is not valid, whose total is below the minimum, or that would be one too many.
\<close>

theorem vested_transfer_locks:
  assumes "lockable_ledger (VestingCurrency cfg)" "vesting_reach cfg W s" "0 < MinVestedTransfer cfg"
    and "vested_transfer cfg asset src to schedule s = (Inr u, t)"
  shows "valid_schedule schedule \<and> MinVestedTransfer cfg \<le> per_period schedule * period_count schedule \<and>
    stored to asset t = filter (\<lambda>x. 0 < unvested x (vesting_block s)) (stored to asset s) @ [schedule] \<and>
    length (stored to asset t) \<le> MaxVestingSchedules cfg \<and>
    (\<forall>b z. l_locked (VestingCurrency cfg) VESTING_LOCK_ID b z (vesting_currency t) =
       (if b = asset \<and> z = to
        then min u128_max (unvested_sum (stored to asset s) (vesting_block s)) + per_period schedule * period_count schedule
        else l_locked (VestingCurrency cfg) VESTING_LOCK_ID b z (vesting_currency s))) \<and>
    (src \<noteq> to \<longrightarrow> l_minimum_balance (VestingCurrency cfg) asset \<le> 1 \<longrightarrow>
       l_free_balance (VestingCurrency cfg) asset to (vesting_currency t) =
         l_free_balance (VestingCurrency cfg) asset to (vesting_currency s) + per_period schedule * period_count schedule \<and>
       l_free_balance (VestingCurrency cfg) asset src (vesting_currency t) + per_period schedule * period_count schedule =
         l_free_balance (VestingCurrency cfg) asset src (vesting_currency s))"
proof -
  let ?n = "per_period schedule * period_count schedule"
  have loc: "vesting_ledger cfg" using assms(1) by (rule vesting_ledger.intro)
  have "schedules_ok cfg s"
    using vesting_ledger.vesting_reach_ok [OF loc assms(2)] by (simp add: vesting_ok_def)
  from vesting_ledger.vested_transfer_effect [OF loc assms(4) this] obtain c c1 v w where
    valid: "valid_schedule schedule" and low: "MinVestedTransfer cfg \<le> ?n"
    and len: "length (stored to asset (pruned to asset s)) < MaxVestingSchedules cfg"
    and t: "t = set_schedules to asset (Some (stored to asset (pruned to asset s) @ [schedule]))
              ((pruned to asset s)\<lparr>vesting_currency := c\<rparr>)"
    and xfer: "l_transfer (VestingCurrency cfg) asset src to ?n (vesting_currency s) = (Inr v, c1)"
    and lock: "l_set_lock (VestingCurrency cfg) VESTING_LOCK_ID asset to (locked_now to asset s + ?n) c1 = (Inr w, c)"
    by blast
  have "0 < locked_now to asset s + ?n" using low assms(3) by linarith
  then have "l_locked (VestingCurrency cfg) VESTING_LOCK_ID b z c =
      (if b = asset \<and> z = to then locked_now to asset s + ?n
       else l_locked (VestingCurrency cfg) VESTING_LOCK_ID b z (vesting_currency s))" for b z
    using lockable_ledger.l_set_lock_locked [OF assms(1) lock]
      lockable_ledger.l_set_lock_others [OF assms(1) lock, of VESTING_LOCK_ID b z]
      lockable_ledger.l_transfer_locked [OF assms(1) xfer, of VESTING_LOCK_ID b z]
    by (auto split: if_splits)
  moreover have "l_free_balance (VestingCurrency cfg) asset z c = l_free_balance (VestingCurrency cfg) asset z c1" for z
    by (rule lockable_ledger.l_set_lock_balance [OF assms(1) lock])
  ultimately show ?thesis
    using valid low len lockable_ledger.l_transfer_balance [OF assms(1) xfer, of asset]
      lockable_ledger.l_transfer_enough [OF assms(1) xfer]
    by (auto simp: t stored_set_schedules stored_pruned locked_now_def)
qed

lemma vested_transfer_locks_witness:
  "stored 3 5 vested_example = [schedule_example] \<and>
   l_locked (assets_multi book_assets) VESTING_LOCK_ID 5 3 (vesting_currency vested_example) = 30 \<and>
   l_free_balance (assets_multi book_assets) 5 3 (vesting_currency vested_example) = 30"
proof -
  have "lockable_ledger (VestingCurrency book_vesting)" "0 < MinVestedTransfer book_vesting"
    using book_assets.routed_lockable by (simp_all add: book_vesting_def)
  moreover have "stored 3 5 vesting_example = []" "vesting_block vesting_example = 1"
    "l_minimum_balance (assets_multi book_assets) 5 = 0"
    "l_free_balance (assets_multi book_assets) 5 3 (vesting_currency vesting_example) = 0"
    by (simp_all add: stored_def vesting_example_def assets_multi_def orml_minimum_balance_def orml_free_balance_def
        book_assets_def book_multi_def no_locks_def)
  ultimately show ?thesis
    using vested_transfer_locks [OF _ vesting_example_reach _ vested_example_run]
    by (simp add: unvested_sum_def schedule_example_def)
qed

text \<open>
  A claim that succeeds lowers the lock to exactly what has not vested at this block, to
  nothing once every schedule has ended; it moves no funds, changes no other lock and keeps
  exactly the schedules that still lock something.
\<close>

theorem claim_unlocks_vested:
  assumes "lockable_ledger (VestingCurrency cfg)" "vesting_reach cfg W s"
    and "vesting_claim cfg (SignedOrigin who) asset s = (Inr u, t)"
  shows "(\<forall>b z. l_locked (VestingCurrency cfg) VESTING_LOCK_ID b z (vesting_currency t) =
       (if b = asset \<and> z = who then min u128_max (unvested_sum (stored who asset s) (vesting_block s))
        else l_locked (VestingCurrency cfg) VESTING_LOCK_ID b z (vesting_currency s))) \<and>
    (\<forall>b z. l_free_balance (VestingCurrency cfg) b z (vesting_currency t)
         = l_free_balance (VestingCurrency cfg) b z (vesting_currency s)) \<and>
    (\<forall>w a. stored w a t =
       (if w = who \<and> a = asset then filter (\<lambda>x. 0 < unvested x (vesting_block s)) (stored who asset s)
        else stored w a s)) \<and>
    (list_all (\<lambda>x. start x + period x * period_count x \<le> vesting_block s) (stored who asset s) \<longrightarrow>
       l_locked (VestingCurrency cfg) VESTING_LOCK_ID asset who (vesting_currency t) = 0 \<and> stored who asset t = [])"
proof -
  have loc: "vesting_ledger cfg" using assms(1) by (rule vesting_ledger.intro)
  have ok: "schedules_ok cfg s"
    using vesting_ledger.vesting_reach_ok [OF loc assms(2)] by (simp add: vesting_ok_def)
  from assms(3) obtain n t' where run: "do_claim cfg who asset s = (Inr n, t')"
    and t: "t = t'\<lparr>vesting_events := vesting_events t' @ [Claimed who asset n]\<rparr>"
    by (auto simp: vesting_claim_def ok_simps)
  from vesting_ledger.do_claim_result [OF loc ok run] obtain c where
    c: "t' = (pruned who asset s)\<lparr>vesting_currency := c\<rparr>"
      "\<forall>b z. l_locked (VestingCurrency cfg) VESTING_LOCK_ID b z c =
         (if b = asset \<and> z = who then locked_now who asset s
          else l_locked (VestingCurrency cfg) VESTING_LOCK_ID b z (vesting_currency s))"
      "\<forall>b z. l_free_balance (VestingCurrency cfg) b z c = l_free_balance (VestingCurrency cfg) b z (vesting_currency s)"
    by auto
  have ended: "unvested_sum (stored who asset s) (vesting_block s) = 0"
    if "list_all (\<lambda>x. start x + period x * period_count x \<le> vesting_block s) (stored who asset s)"
  proof -
    have "unvested x (vesting_block s) = 0" if "x \<in> set (stored who asset s)" for x
      using that \<open>list_all _ _\<close> ok by (intro unvested_end) (auto simp: schedules_ok_def list_all_iff)
    then show ?thesis by (simp add: unvested_sum_def)
  qed
  show ?thesis
    using c ended unvested_sum_zero [of "stored who asset s" "vesting_block s"]
    by (auto simp: t stored_pruned locked_now_def)
qed

definition later_example :: "(lock_book \<times> lock_book) vesting" where
  "later_example = vested_example\<lparr>vesting_block := 7\<rparr>"

lemma vested_example_stored:
  "stored 3 5 vested_example = [schedule_example]" "vesting_block vested_example = 1"
  by (simp_all add: vested_example_def vested_transfer_call_def vested_transfer_def locked_balance_def stored_def
      orml_transfer_def orml_set_lock_def book_vesting_eval)

lemma later_example_reach: "vesting_reach book_vesting {} later_example"
  unfolding later_example_def by (rule reach_block [OF vested_example_reach]) (simp add: vested_example_stored)

lemma claim_example_ok: "\<exists>t. vesting_claim book_vesting (SignedOrigin 3) 5 later_example = (Inr (), t)"
  by (simp add: later_example_def vested_example_def vested_transfer_call_def vested_transfer_def locked_balance_def
      vesting_claim_def do_claim_def orml_transfer_def orml_set_lock_def book_vesting_eval)

lemma claim_unlocks_vested_witness:
  "\<exists>t. vesting_claim book_vesting (SignedOrigin 3) 5 later_example = (Inr (), t) \<and>
     l_locked (assets_multi book_assets) VESTING_LOCK_ID 5 3 (vesting_currency t) = 20"
proof -
  obtain t where t: "vesting_claim book_vesting (SignedOrigin 3) 5 later_example = (Inr (), t)"
    using claim_example_ok by blast
  have "unvested_sum (stored 3 5 later_example) (vesting_block later_example) = 20"
    by (simp add: later_example_def vested_example_stored unvested_sum_def unvested_def schedule_example_def)
  then have "l_locked (assets_multi book_assets) VESTING_LOCK_ID 5 3 (vesting_currency t) = 20"
    using claim_unlocks_vested [OF _ later_example_reach t] book_assets.routed_lockable by (simp add: u128_max_def)
  with t show ?thesis by blast
qed

text \<open>
  A schedule the pallet accepts always has a locked amount: the whole until the first
  period has passed, nothing from the end on, never more than the total, and never more at a
  later block.
\<close>

theorem schedule_vests_monotonically:
  assumes "ensure_valid_vesting_schedule cfg schedule w = (Inr n, w')" "now \<le> later"
  shows "\<exists>l m. locked_amount schedule now = Some l \<and> locked_amount schedule later = Some m \<and>
    m \<le> l \<and> l \<le> n \<and> total_amount schedule = Some n \<and>
    (now < start schedule + period schedule \<longrightarrow> l = n) \<and>
    (\<forall>e. schedule_end schedule = Some e \<longrightarrow> e \<le> now \<longrightarrow> l = 0)"
proof -
  have valid: "valid_schedule schedule" and n: "n = per_period schedule * period_count schedule"
    using assms(1) by (auto simp: ok_simps)
  have "schedule_end schedule = Some (period schedule * period_count schedule + start schedule)"
    "total_amount schedule = Some n"
    using valid by (auto simp: valid_schedule_def schedule_end_def total_amount_def checked_mul_def checked_add_def n
        split: option.splits)
  then show ?thesis
    using unvested_mono [OF assms(2), of schedule] unvested_total [of schedule now] unvested_start [OF valid]
      unvested_end [OF valid] by (simp add: locked_amount_valid [OF valid] n add.commute)
qed

lemma schedule_vests_monotonically_witness:
  "locked_amount schedule_example 3 = Some 30 \<and> locked_amount schedule_example 14 = Some 0"
proof -
  have "ensure_valid_vesting_schedule book_vesting schedule_example vesting_example = (Inr 30, vesting_example)"
    by (simp add: book_vesting_eval)
  from schedule_vests_monotonically [OF this, of 3 3] schedule_vests_monotonically [OF this, of 14 14]
  show ?thesis
    by (auto simp: schedule_example_def schedule_end_def checked_mul_def checked_add_def u32_max_def)
qed

section \<open>What the code does not ensure\<close>

text \<open>
  \<open>do_update_vesting_schedules\<close> adds the totals of the schedules with a wrapping \<open>+\<close>: two
  schedules of \<open>2 ^ 127\<close> each are accepted for an account without funds, with a lock of
  nothing, while a single schedule of that amount is refused.
\<close>

definition half_range_schedule :: vesting_schedule where
  "half_range_schedule = \<lparr>start = 2, period = 4, period_count = 1, per_period = 2 ^ 127\<rparr>"

lemma update_schedules_sum_wraps:
  "\<exists>t. update_vesting_schedules book_vesting RootOrigin 3 5 [half_range_schedule, half_range_schedule] vesting_example
     = (Inr (), t) \<and> l_locked (assets_multi book_assets) VESTING_LOCK_ID 5 3 (vesting_currency t) = 0"
  "\<exists>t. update_vesting_schedules book_vesting RootOrigin 3 5 [half_range_schedule] vesting_example
     = (Inl (VestingErr InsufficientBalanceToLock), t)"
  by (simp_all add: update_vesting_schedules_def do_update_vesting_schedules_def half_range_schedule_def
      wrapping_add_def orml_free_balance_def orml_set_lock_def book_vesting_eval)

end
