(* ===== verification/Bonded_Finance.thy ===== *)
theory Bonded_Finance
  imports Vesting_Properties
begin

text \<open>
  The bonded finance pallet (frame/bonded-finance) and the offers it stores
  (composable-traits/src/bonded_finance.rs). An issuer deposits a stake and a reward in the
  account of an offer; a bonder pays the beneficiary and receives a share of the reward, and
  after a finite maturity the payment, both through the vesting pallet. The pallet calls the
  vesting pallet's trait function directly, so its state contains that pallet's state, and with
  it the currencies and the block number.
\<close>

section \<open>Offers\<close>

datatype bond_duration = Finite block_number | Infinite

record bond_offer_reward =
  reward_asset :: asset_id
  reward_amount :: balance
  reward_maturity :: block_number

record bond_offer =
  beneficiary :: account_id
  bond_asset :: asset_id
  bond_price :: balance
  nb_of_bonds :: balance
  bond_maturity :: bond_duration
  bond_reward :: bond_offer_reward

definition completed :: "bond_offer \<Rightarrow> bool" where
  "completed self \<longleftrightarrow> nb_of_bonds self = 0"

definition total_price :: "bond_offer \<Rightarrow> arithmetic_error + balance" where
  "total_price self = safe_mul u128_max (nb_of_bonds self) (bond_price self)"

definition offer_valid :: "bond_offer \<Rightarrow> balance \<Rightarrow> balance \<Rightarrow> bool" where
  "offer_valid self min_transfer min_reward =
     (let nonzero_maturity = (case bond_maturity self of Finite return_in \<Rightarrow> return_in \<noteq> 0 | Infinite \<Rightarrow> True);
          valid_price = (min_transfer \<le> bond_price self);
          nonzero_nb_of_bonds = (nb_of_bonds self \<noteq> 0);
          valid_reward =
            (min_reward \<le> reward_amount (bond_reward self) \<and>
             min_transfer \<le> (case safe_div (reward_amount (bond_reward self)) (nb_of_bonds self) of
                               Inl _ \<Rightarrow> 0 | Inr q \<Rightarrow> q));
          nonzero_reward_maturity = (reward_maturity (bond_reward self) \<noteq> 0);
          valid_total = (case total_price self of Inl _ \<Rightarrow> False | Inr _ \<Rightarrow> True)
      in nonzero_maturity \<and> nonzero_nb_of_bonds \<and> valid_price \<and> nonzero_reward_maturity \<and>
         valid_reward \<and> valid_total)"

section \<open>The pallet\<close>

datatype bonded_event =
    NewOffer nat
  | NewBond nat account_id balance
  | OfferCancelled nat
  | OfferCompleted nat

text \<open>
  \<open>BondSubAccount\<close> is \<open>PalletId::into_sub_account\<close> and \<open>BondMulDiv\<close> is
  \<open>multiply_by_rational\<close>, both of Substrate. \<open>BondVesting\<close> configures the vesting pallet.
\<close>

record 'c bonded_config =
  BondCurrency :: "'c fungibles"
  BondNative :: "'c fungible"
  BondVesting :: "'c vesting_config"
  Stake :: balance
  MinReward :: balance
  BondAdminOrigin :: "raw_origin \<Rightarrow> bool"
  BondSubAccount :: "nat \<Rightarrow> account_id"
  BondMulDiv :: mul_div

record 'c bonded =
  BondOfferCount :: nat
  BondOffers :: "nat \<rightharpoonup> account_id \<times> bond_offer"
  bonded_events :: "bonded_event list"
  bonded_vesting :: "'c vesting"

definition on_vesting :: "('c vesting, 'a) call \<Rightarrow> ('c bonded, 'a) call" where
  "on_vesting m = zoom bonded_vesting (\<lambda>v s. s\<lparr>bonded_vesting := v\<rparr>) m"

definition on_bonded_currency :: "('c, 'a) call \<Rightarrow> ('c bonded, 'a) call" where
  "on_bonded_currency m = on_vesting (on_vesting_currency m)"

definition bonded_deposit_event :: "bonded_event \<Rightarrow> ('c bonded, unit) call" where
  "bonded_deposit_event e = modifies (\<lambda>s. s\<lparr>bonded_events := bonded_events s @ [e]\<rparr>)"

definition set_offer :: "nat \<Rightarrow> (account_id \<times> bond_offer) option \<Rightarrow> 'c bonded \<Rightarrow> 'c bonded" where
  "set_offer i v s = s\<lparr>BondOffers := (BondOffers s)(i := v)\<rparr>"

definition offer_account_id :: "'c bonded_config \<Rightarrow> nat \<Rightarrow> account_id" where
  "offer_account_id cfg offer_id = BondSubAccount cfg offer_id"

definition get_offer :: "nat \<Rightarrow> ('c bonded, account_id \<times> bond_offer) call" where
  "get_offer offer_id =
     bindM (reads (\<lambda>s. BondOffers s offer_id)) (\<lambda>v. ok_or v (BondedFinanceErr BondOfferNotFound))"

definition next_offer_id :: "('c bonded, nat) call" where
  "next_offer_id =
     thenM (modifies (\<lambda>s. s\<lparr>BondOfferCount := wrapping_next u64_max (BondOfferCount s)\<rparr>)) (reads BondOfferCount)"

definition do_offer :: "'c bonded_config \<Rightarrow> account_id \<Rightarrow> bond_offer \<Rightarrow> bool \<Rightarrow> ('c bonded, nat) call" where
  "do_offer cfg src offer keep_alive =
     transactional
     (thenM (ensure (offer_valid offer (MinVestedTransfer (BondVesting cfg)) (MinReward cfg))
               (BondedFinanceErr InvalidBondOffer))
     (bindM next_offer_id (\<lambda>offer_id.
      let offer_account = offer_account_id cfg offer_id in
      thenM (on_bonded_currency (n_transfer (BondNative cfg) src offer_account (Stake cfg) keep_alive))
     (thenM (on_bonded_currency (f_transfer (BondCurrency cfg) (reward_asset (bond_reward offer)) src offer_account
               (reward_amount (bond_reward offer)) keep_alive))
     (thenM (modifies (set_offer offer_id (Some (src, offer))))
     (thenM (bonded_deposit_event (NewOffer offer_id))
        (ret offer_id)))))))"

text \<open>What is left of an offer after a bond: both subtractions wrap in the release build.\<close>

definition take_bonds :: "balance \<Rightarrow> balance \<Rightarrow> bond_offer \<Rightarrow> bond_offer" where
  "take_bonds n share offer =
     offer\<lparr>nb_of_bonds := wrapping_sub u128_max (nb_of_bonds offer) n,
           bond_reward := (bond_reward offer)\<lparr>reward_amount :=
             wrapping_sub u128_max (reward_amount (bond_reward offer)) share\<rparr>\<rparr>"

definition do_bond ::
  "'c bonded_config \<Rightarrow> nat \<Rightarrow> account_id \<Rightarrow> balance \<Rightarrow> bool \<Rightarrow> ('c bonded, balance) call" where
  "do_bond cfg offer_id src n keep_alive =
     transactional
     (try_mutate (\<lambda>s. BondOffers s offer_id) (set_offer offer_id) (\<lambda>v.
      case v of
        None \<Rightarrow> fail (BondedFinanceErr BondOfferNotFound)
      | Some (issuer, offer) \<Rightarrow>
          thenM (ensure (0 < nb_of_bonds offer) (BondedFinanceErr bonded_finance_error.OfferCompleted))
         (thenM (ensure (0 < n \<and> n \<le> nb_of_bonds offer) (BondedFinanceErr InvalidNumberOfBonds))
         (let worth = wrapping_mul u128_max n (bond_price offer) in
          bindM (ok_or (BondMulDiv cfg n (reward_amount (bond_reward offer)) (nb_of_bonds offer))
                   (Arithmetic arithmetic_error.Overflow)) (\<lambda>reward_share.
          let offer_account = offer_account_id cfg offer_id in
          thenM (on_bonded_currency (f_transfer (BondCurrency cfg) (bond_asset offer) src (beneficiary offer) worth keep_alive))
         (bindM (reads (\<lambda>s. vesting_block (bonded_vesting s))) (\<lambda>current_block.
          thenM (on_vesting (vested_transfer (BondVesting cfg) (reward_asset (bond_reward offer)) offer_account src
                   \<lparr>start = current_block, period = reward_maturity (bond_reward offer), period_count = 1,
                    per_period = reward_share\<rparr>))
         (thenM (case bond_maturity offer of
                   Finite return_in \<Rightarrow>
                     on_vesting (vested_transfer (BondVesting cfg) (bond_asset offer) (beneficiary offer) src
                       \<lparr>start = current_block, period = return_in, period_count = 1, per_period = worth\<rparr>)
                 | Infinite \<Rightarrow> ret ())
         (let offer' = take_bonds n reward_share offer in
          thenM (if completed offer' then
                   thenM (on_bonded_currency (n_transfer (BondNative cfg) offer_account issuer (Stake cfg) False))
                  (thenM (bonded_deposit_event (NewBond offer_id src n))
                         (bonded_deposit_event (OfferCompleted offer_id)))
                 else bonded_deposit_event (NewBond offer_id src n))
            (ret (reward_share, Some (issuer, offer'))))))))))))"

section \<open>The dispatchables\<close>

definition offer_call :: "'c bonded_config \<Rightarrow> raw_origin \<Rightarrow> bond_offer \<Rightarrow> bool \<Rightarrow> ('c bonded, unit) call" where
  "offer_call cfg orig offer keep_alive =
     bindM (ensure_signed orig) (\<lambda>src. thenM (do_offer cfg src offer keep_alive) (ret ()))"

definition bond_call ::
  "'c bonded_config \<Rightarrow> raw_origin \<Rightarrow> nat \<Rightarrow> balance \<Rightarrow> bool \<Rightarrow> ('c bonded, unit) call" where
  "bond_call cfg orig offer_id n keep_alive =
     bindM (ensure_signed orig) (\<lambda>src. thenM (do_bond cfg offer_id src n keep_alive) (ret ()))"

text \<open>Who may cancel: the admin origin, or the issuer.\<close>

definition ensure_may_cancel :: "'c bonded_config \<Rightarrow> raw_origin \<Rightarrow> account_id \<Rightarrow> ('s, unit) call" where
  "ensure_may_cancel cfg orig issuer =
     (if BondAdminOrigin cfg orig then ret ()
      else case orig of
        SignedOrigin account \<Rightarrow> if issuer \<noteq> account then fail BadOrigin else ret ()
      | _ \<Rightarrow> fail BadOrigin)"

definition cancel_call :: "'c bonded_config \<Rightarrow> raw_origin \<Rightarrow> nat \<Rightarrow> ('c bonded, unit) call" where
  "cancel_call cfg orig offer_id =
     transactional
     (bindM (get_offer offer_id) (\<lambda>(issuer, offer).
      thenM (ensure_may_cancel cfg orig issuer)
     (let offer_account = offer_account_id cfg offer_id in
      thenM (on_bonded_currency (n_transfer (BondNative cfg) offer_account issuer (Stake cfg) False))
     (thenM (on_bonded_currency (f_transfer (BondCurrency cfg) (reward_asset (bond_reward offer)) offer_account issuer
               (reward_amount (bond_reward offer)) False))
     (thenM (modifies (set_offer offer_id None))
        (bonded_deposit_event (OfferCancelled offer_id)))))))"

end
