(* ===== verification/Bonded_Finance_Properties.thy ===== *)
theory Bonded_Finance_Properties
  imports Bonded_Finance
begin

text \<open>
  Offers stay fundable and the pallet stays solvent: the reward of every stored offer can always
  be divided so that each bond is worth a vested transfer, and the account of every offer holds
  the reward and the stake it owes.
\<close>

section \<open>The arithmetic of a share\<close>

definition offer_ok :: "'c bonded_config \<Rightarrow> bond_offer \<Rightarrow> bool" where
  "offer_ok cfg offer \<longleftrightarrow>
     nb_of_bonds offer * bond_price offer \<le> u128_max \<and>
     MinVestedTransfer (BondVesting cfg) \<le> bond_price offer \<and>
     nb_of_bonds offer * MinVestedTransfer (BondVesting cfg) \<le> reward_amount (bond_reward offer) \<and>
     reward_amount (bond_reward offer) \<le> u128_max \<and>
     nb_of_bonds offer \<le> u128_max \<and>
     (nb_of_bonds offer = 0 \<longrightarrow> reward_amount (bond_reward offer) = 0) \<and>
     reward_maturity (bond_reward offer) \<noteq> 0 \<and> bond_maturity offer \<noteq> Finite 0"

definition share :: "balance \<Rightarrow> bond_offer \<Rightarrow> balance" where
  "share n offer = n * reward_amount (bond_reward offer) div nb_of_bonds offer"

lemma share_le:
  assumes "0 < k" "n \<le> k"
  shows "n * r div k \<le> (r :: nat)"
proof -
  have "n * r div k \<le> k * r div k" using assms(2) by (intro div_le_mono mult_le_mono1)
  then show ?thesis using assms(1) by simp
qed

text \<open>Rounding down leaves the rest at least its own part.\<close>

lemma rest_share:
  assumes "0 < k" "n \<le> k" "k * m \<le> (r :: nat)"
  shows "(k - n) * m \<le> r - n * r div k" "n * m \<le> n * r div k"
proof -
  have up: "k * (n * r div k) \<le> n * r" by simp
  have "k * ((k - n) * m) \<le> (k - n) * r"
    using assms(3) by (metis mult.assoc mult.commute mult_le_mono2)
  also have "\<dots> \<le> k * (r - n * r div k)"
    using diff_le_mono2 [OF up, of "k * r"] by (simp only: diff_mult_distrib diff_mult_distrib2)
  finally show "(k - n) * m \<le> r - n * r div k" using assms(1) by simp
  have "n * (k * m) \<le> n * r" using assms(3) by simp
  then have "n * m * k \<le> n * r" by (simp add: algebra_simps)
  then show "n * m \<le> n * r div k" using assms(1) by (simp add: less_eq_div_iff_mult_less_eq)
qed

lemma take_bonds_ok:
  assumes "offer_ok cfg offer" "0 < n" "n \<le> nb_of_bonds offer"
  shows "take_bonds n (share n offer) offer =
      offer\<lparr>nb_of_bonds := nb_of_bonds offer - n,
        bond_reward := (bond_reward offer)\<lparr>reward_amount := reward_amount (bond_reward offer) - share n offer\<rparr>\<rparr>"
    "offer_ok cfg (take_bonds n (share n offer) offer)"
proof -
  have pos: "0 < nb_of_bonds offer" using assms by simp
  have le: "share n offer \<le> reward_amount (bond_reward offer)"
    unfolding share_def by (rule share_le [OF pos assms(3)])
  show eq: "take_bonds n (share n offer) offer =
      offer\<lparr>nb_of_bonds := nb_of_bonds offer - n,
        bond_reward := (bond_reward offer)\<lparr>reward_amount := reward_amount (bond_reward offer) - share n offer\<rparr>\<rparr>"
    using assms le by (simp add: take_bonds_def offer_ok_def wrapping_sub_le)
  have "(nb_of_bonds offer - n) * MinVestedTransfer (BondVesting cfg)
      \<le> reward_amount (bond_reward offer) - share n offer"
    using assms(1) rest_share(1) [OF pos assms(3)] by (simp add: offer_ok_def share_def)
  moreover have "(nb_of_bonds offer - n) * bond_price offer \<le> u128_max"
    using assms(1) by (auto simp: offer_ok_def diff_mult_distrib intro: le_trans [OF diff_le_self])
  moreover have "share n offer = reward_amount (bond_reward offer)" if "nb_of_bonds offer - n = 0"
    using that assms(3) pos by (simp add: share_def)
  ultimately show "offer_ok cfg (take_bonds n (share n offer) offer)"
    using assms(1) unfolding eq by (auto simp: offer_ok_def)
qed

lemma offer_valid_ok:
  assumes "offer_valid offer (MinVestedTransfer (BondVesting cfg)) (MinReward cfg)"
    and "reward_amount (bond_reward offer) \<le> u128_max" "nb_of_bonds offer \<le> u128_max"
  shows "offer_ok cfg offer"
proof -
  have pos: "nb_of_bonds offer \<noteq> 0" using assms(1) by (simp add: offer_valid_def Let_def)
  have "MinVestedTransfer (BondVesting cfg) \<le> reward_amount (bond_reward offer) div nb_of_bonds offer"
    using assms(1) pos by (simp add: offer_valid_def Let_def safe_arith_defs)
  then have "nb_of_bonds offer * MinVestedTransfer (BondVesting cfg) \<le> reward_amount (bond_reward offer)"
    using pos by (simp add: less_eq_div_iff_mult_less_eq mult.commute)
  then show ?thesis
    using assms pos by (auto simp: offer_ok_def offer_valid_def Let_def total_price_def safe_arith_defs
        split: if_splits bond_duration.splits)
qed

section \<open>What a successful call does\<close>

lemma on_vesting_ok [ok_simps]:
  "on_vesting m s = (Inr x, t) \<longleftrightarrow> (\<exists>v. m (bonded_vesting s) = (Inr x, v) \<and> t = s\<lparr>bonded_vesting := v\<rparr>)"
  by (simp add: on_vesting_def ok_simps)

lemma on_bonded_currency_ok [ok_simps]:
  "on_bonded_currency m s = (Inr x, t) \<longleftrightarrow>
     (\<exists>c. m (vesting_currency (bonded_vesting s)) = (Inr x, c) \<and>
          t = s\<lparr>bonded_vesting := (bonded_vesting s)\<lparr>vesting_currency := c\<rparr>\<rparr>)"
  by (auto simp: on_bonded_currency_def ok_simps)

lemma bonded_deposit_event_ok [ok_simps]:
  "bonded_deposit_event e s = (Inr x, t) \<longleftrightarrow> t = s\<lparr>bonded_events := bonded_events s @ [e]\<rparr>"
  by (simp add: bonded_deposit_event_def ok_simps)

lemma next_offer_id_ok [ok_simps]:
  "next_offer_id s = (Inr i, t) \<longleftrightarrow>
     i = min u64_max (BondOfferCount s + 1) \<and> t = s\<lparr>BondOfferCount := i\<rparr>"
  by (auto simp: next_offer_id_def ok_simps wrapping_next_def saturating_add_def)

lemma ensure_may_cancel_ok [ok_simps]:
  "ensure_may_cancel cfg orig issuer s = (Inr x, t) \<longleftrightarrow>
     (BondAdminOrigin cfg orig \<or> orig = SignedOrigin issuer) \<and> t = s"
  by (auto simp: ensure_may_cancel_def ok_simps split: raw_origin.splits)

lemma locked_balance_currency:
  "locked_balance who asset s = (Inr n, t) \<Longrightarrow> vesting_currency t = vesting_currency s \<and> vesting_block t = vesting_block s"
  by (auto simp: locked_balance_def ok_simps)

lemma vested_transfer_moves:
  assumes "vested_transfer cfg asset src to schedule v = (Inr u, v')"
  shows "\<exists>n c1 x y. l_transfer (VestingCurrency cfg) asset src to (per_period schedule * period_count schedule)
      (vesting_currency v) = (Inr x, c1) \<and>
    l_set_lock (VestingCurrency cfg) VESTING_LOCK_ID asset to n c1 = (Inr y, vesting_currency v')"
  using assms
  by (fastforce simp: vested_transfer_def ok_simps Let_def dest: locked_balance_currency)

text \<open>Every call of the pallet leaves storage as it was when it fails.\<close>

lemma bonded_atomic:
  "atomic (do_offer cfg src offer k)" "atomic (do_bond cfg i src n k)" "atomic (cancel_call cfg orig i)"
  by (simp_all add: do_offer_def do_bond_def cancel_call_def atomic_transactional)

section \<open>Solvency\<close>

text \<open>
  The three currency interfaces of the configuration act on one set of books: transfers of the
  native currency and of the vesting pallet's currency move balances of the multi-asset one, and
  setting a lock moves nothing. No asset has dust (see \<open>dust_free\<close>).
\<close>

locale bonded_ledger = fungibles_ledger F
  for F :: "'c fungibles" +
  fixes N :: "'c fungible" and L :: "'c multi_currency" and native :: asset_id
  assumes no_dust: "dust_free F a"
    and native_moves: "n_transfer N x y n k c = (Inr m, d) \<Longrightarrow> balances F d = moved native x y n (balances F c)"
    and locking_moves: "l_transfer L a x y n c = (Inr u, d) \<Longrightarrow> balances F d = moved a x y n (balances F c)"
    and locks_move_nothing: "l_set_lock L i a x n c = (Inr u, d) \<Longrightarrow> balances F d = balances F c"

definition bonded_configured :: "'c bonded_config \<Rightarrow> asset_id \<Rightarrow> bool" where
  "bonded_configured cfg native \<longleftrightarrow>
     bonded_ledger (BondCurrency cfg) (BondNative cfg) (VestingCurrency (BondVesting cfg)) native"

definition bonded_balance :: "'c bonded_config \<Rightarrow> 'c bonded \<Rightarrow> balance_table" where
  "bonded_balance cfg s = balances (BondCurrency cfg) (vesting_currency (bonded_vesting s))"

text \<open>What the account of an offer owes: the rest of the reward, and the stake until completion.\<close>

definition owed :: "'c bonded_config \<Rightarrow> asset_id \<Rightarrow> bond_offer \<Rightarrow> asset_id \<Rightarrow> balance" where
  "owed cfg native offer a =
     (if a = reward_asset (bond_reward offer) then reward_amount (bond_reward offer) else 0) +
     (if a = native \<and> \<not> completed offer then Stake cfg else 0)"

definition bonded_ok :: "'c bonded_config \<Rightarrow> asset_id \<Rightarrow> 'c bonded \<Rightarrow> bool" where
  "bonded_ok cfg native s \<longleftrightarrow>
     (\<forall>i issuer offer. BondOffers s i = Some (issuer, offer) \<longrightarrow>
        i \<le> BondOfferCount s \<and> offer_ok cfg offer \<and>
        (\<forall>a. owed cfg native offer a \<le> bonded_balance cfg s a (BondSubAccount cfg i)))"

text \<open>A transfer as a bound that needs no subtraction.\<close>

lemma moved_bound:
  "B b z + (if b = a \<and> z = y \<and> x \<noteq> y then n else 0)
     \<le> moved a x y n B b z + (if b = a \<and> z = x then n else 0)"
  by (auto simp: moved_def credited_def debited_def)

lemma moved_other: "z \<noteq> x \<Longrightarrow> B b z \<le> moved a x y n B b z"
  by (auto simp: moved_def credited_def debited_def)

lemma moved_other_twice:
  "z \<noteq> x \<Longrightarrow> z \<noteq> x' \<Longrightarrow> B b z \<le> moved a x y n (moved a' x' y' n' B) b z"
  using moved_other [of z x' B b a' y' n'] moved_other [of z x "moved a' x' y' n' B" b a y n] by simp

context bonded_ledger
begin

lemma vested_transfer_balances:
  assumes "vested_transfer vcfg asset src to schedule v = (Inr u, v')" "VestingCurrency vcfg = L"
  shows "balances F (vesting_currency v') =
    moved asset src to (per_period schedule * period_count schedule) (balances F (vesting_currency v))"
proof -
  obtain n c1 x y where run:
    "l_transfer L asset src to (per_period schedule * period_count schedule) (vesting_currency v) = (Inr x, c1)"
    "l_set_lock L VESTING_LOCK_ID asset to n c1 = (Inr y, vesting_currency v')"
    using vested_transfer_moves [OF assms(1), unfolded assms(2)] by blast
  show ?thesis
    by (simp only: locks_move_nothing [OF run(2)] locking_moves [OF run(1)])
qed

lemma transfer_moves: "f_transfer F a x y n k c = (Inr m, d) \<Longrightarrow> balances F d = moved a x y n (balances F c)"
  by (rule transfer_balances) (simp_all add: no_dust)

end

text \<open>The transfers of a bond, one after the other.\<close>

lemma do_bond_runs:
  assumes "do_bond cfg i src n keep s = (Inr r, t)"
  obtains issuer offer c1 v2 v3 m1 where
    "BondOffers s i = Some (issuer, offer)" "0 < n" "n \<le> nb_of_bonds offer"
    "BondMulDiv cfg n (reward_amount (bond_reward offer)) (nb_of_bonds offer) = Some r"
    "f_transfer (BondCurrency cfg) (bond_asset offer) src (beneficiary offer)
       (wrapping_mul u128_max n (bond_price offer)) keep (vesting_currency (bonded_vesting s)) = (Inr m1, c1)"
    "vested_transfer (BondVesting cfg) (reward_asset (bond_reward offer)) (BondSubAccount cfg i) src
       \<lparr>start = vesting_block (bonded_vesting s), period = reward_maturity (bond_reward offer), period_count = 1,
        per_period = r\<rparr> ((bonded_vesting s)\<lparr>vesting_currency := c1\<rparr>) = (Inr (), v2)"
    "case bond_maturity offer of
       Finite return_in \<Rightarrow>
         vested_transfer (BondVesting cfg) (bond_asset offer) (beneficiary offer) src
           \<lparr>start = vesting_block (bonded_vesting s), period = return_in, period_count = 1,
            per_period = wrapping_mul u128_max n (bond_price offer)\<rparr> v2 = (Inr (), v3)
     | Infinite \<Rightarrow> v3 = v2"
    "if completed (take_bonds n r offer)
     then \<exists>m c4. n_transfer (BondNative cfg) (BondSubAccount cfg i) issuer (Stake cfg) False (vesting_currency v3)
            = (Inr m, c4) \<and> bonded_vesting t = v3\<lparr>vesting_currency := c4\<rparr>
     else bonded_vesting t = v3"
    "BondOffers t = (BondOffers s)(i \<mapsto> (issuer, take_bonds n r offer))" "BondOfferCount t = BondOfferCount s"
proof -
  from assms obtain issuer offer where off: "BondOffers s i = Some (issuer, offer)"
    by (auto simp: do_bond_def ok_simps)
  from assms off show ?thesis
    by (cases "bond_maturity offer"; cases "completed (take_bonds n r offer)")
       (auto simp: do_bond_def ok_simps Let_def set_offer_def offer_account_id_def intro!: that)
qed

text \<open>
  The balances after a bond: payment to the beneficiary, share of the reward, return of the
  payment when the maturity is finite, and the stake back to the issuer with the last bond.
\<close>

definition bond_moves ::
  "'c bonded_config \<Rightarrow> asset_id \<Rightarrow> nat \<Rightarrow> account_id \<Rightarrow> balance \<Rightarrow> account_id \<Rightarrow> bond_offer \<Rightarrow>
     balance_table \<Rightarrow> balance_table" where
  "bond_moves cfg native i src n issuer offer B =
     (let acct = BondSubAccount cfg i;
          paid = moved (bond_asset offer) src (beneficiary offer) (n * bond_price offer) B;
          rewarded = moved (reward_asset (bond_reward offer)) acct src (share n offer) paid;
          returned = (if bond_maturity offer = Infinite then rewarded
                      else moved (bond_asset offer) (beneficiary offer) src (n * bond_price offer) rewarded)
      in if n = nb_of_bonds offer then moved native acct issuer (Stake cfg) returned else returned)"

lemma do_bond_effect:
  assumes cfg: "bonded_configured cfg native" and exact: "exact_mul_div (BondMulDiv cfg)"
    and ok: "bonded_ok cfg native s" and run: "do_bond cfg i src n keep s = (Inr r, t)"
  obtains issuer offer where "BondOffers s i = Some (issuer, offer)" "0 < n" "n \<le> nb_of_bonds offer"
    "r = share n offer" "BondOffers t = (BondOffers s)(i \<mapsto> (issuer, take_bonds n r offer))"
    "BondOfferCount t = BondOfferCount s"
    "bonded_balance cfg t = bond_moves cfg native i src n issuer offer (bonded_balance cfg s)"
proof -
  from run obtain issuer offer c1 v2 v3 m1 where
    off: "BondOffers s i = Some (issuer, offer)" "0 < n" "n \<le> nb_of_bonds offer"
    and md: "BondMulDiv cfg n (reward_amount (bond_reward offer)) (nb_of_bonds offer) = Some r"
    and x1: "f_transfer (BondCurrency cfg) (bond_asset offer) src (beneficiary offer)
       (wrapping_mul u128_max n (bond_price offer)) keep (vesting_currency (bonded_vesting s)) = (Inr m1, c1)"
    and x2: "vested_transfer (BondVesting cfg) (reward_asset (bond_reward offer)) (BondSubAccount cfg i) src
       \<lparr>start = vesting_block (bonded_vesting s), period = reward_maturity (bond_reward offer), period_count = 1,
        per_period = r\<rparr> ((bonded_vesting s)\<lparr>vesting_currency := c1\<rparr>) = (Inr (), v2)"
    and x3: "case bond_maturity offer of
       Finite return_in \<Rightarrow>
         vested_transfer (BondVesting cfg) (bond_asset offer) (beneficiary offer) src
           \<lparr>start = vesting_block (bonded_vesting s), period = return_in, period_count = 1,
            per_period = wrapping_mul u128_max n (bond_price offer)\<rparr> v2 = (Inr (), v3)
     | Infinite \<Rightarrow> v3 = v2"
    and x4: "if completed (take_bonds n r offer)
     then \<exists>m c4. n_transfer (BondNative cfg) (BondSubAccount cfg i) issuer (Stake cfg) False (vesting_currency v3)
            = (Inr m, c4) \<and> bonded_vesting t = v3\<lparr>vesting_currency := c4\<rparr>
     else bonded_vesting t = v3"
    and post: "BondOffers t = (BondOffers s)(i \<mapsto> (issuer, take_bonds n r offer))" "BondOfferCount t = BondOfferCount s"
    by (rule do_bond_runs)
  note L = cfg [unfolded bonded_configured_def]
  have good: "offer_ok cfg offer" using ok off(1) by (simp add: bonded_ok_def)
  have r: "r = share n offer"
    using exact md off by (simp add: exact_mul_div_def share_def split: if_splits)
  have "n * bond_price offer \<le> u128_max"
    using good off(3) by (auto simp: offer_ok_def intro: le_trans [OF mult_le_mono1])
  then have w: "wrapping_mul u128_max n (bond_price offer) = n * bond_price offer" by (rule wrapping_mul_le)
  have fin: "completed (take_bonds n r offer) \<longleftrightarrow> n = nb_of_bonds offer"
    using take_bonds_ok(1) [OF good off(2,3)] off(3) by (auto simp: r completed_def)
  note b1 = bonded_ledger.transfer_moves [OF L x1]
  note b2 = bonded_ledger.vested_transfer_balances [OF L x2 refl]
  have "balances (BondCurrency cfg) (vesting_currency v3) =
      (if bond_maturity offer = Infinite then balances (BondCurrency cfg) (vesting_currency v2)
       else moved (bond_asset offer) (beneficiary offer) src (n * bond_price offer)
              (balances (BondCurrency cfg) (vesting_currency v2)))"
    using x3 bonded_ledger.vested_transfer_balances [OF L _ refl] by (cases "bond_maturity offer") (auto simp: w)
  moreover have "bonded_balance cfg t =
      (if n = nb_of_bonds offer then moved native (BondSubAccount cfg i) issuer (Stake cfg) else id)
        (balances (BondCurrency cfg) (vesting_currency v3))"
    using x4 bonded_ledger.native_moves [OF L] by (auto simp: fin bonded_balance_def)
  ultimately have "bonded_balance cfg t = bond_moves cfg native i src n issuer offer (bonded_balance cfg s)"
    using b1 b2 by (simp add: bond_moves_def bonded_balance_def Let_def w r)
  then show ?thesis using that off r post by blast
qed

lemma bond_moves_bound:
  assumes "z \<noteq> src"
  shows "B b z \<le> bond_moves cfg native i src n issuer offer B b z +
    (if z = BondSubAccount cfg i \<and> b = reward_asset (bond_reward offer) then share n offer else 0) +
    (if z = BondSubAccount cfg i \<and> b = native \<and> n = nb_of_bonds offer then Stake cfg else 0)"
proof -
  let ?acct = "BondSubAccount cfg i" and ?w = "n * bond_price offer"
  define B1 where "B1 = moved (bond_asset offer) src (beneficiary offer) ?w B"
  define B2 where "B2 = moved (reward_asset (bond_reward offer)) ?acct src (share n offer) B1"
  define B3 where "B3 = (if bond_maturity offer = Infinite then B2 else moved (bond_asset offer) (beneficiary offer) src ?w B2)"
  have "B b z + (if b = bond_asset offer \<and> z = beneficiary offer then ?w else 0) \<le> B1 b z"
    using assms moved_bound [of B b z "bond_asset offer" "beneficiary offer" src ?w] by (auto simp: B1_def)
  moreover have "B1 b z \<le> B2 b z + (if z = ?acct \<and> b = reward_asset (bond_reward offer) then share n offer else 0)"
    using assms moved_bound [of B1 b z "reward_asset (bond_reward offer)" src ?acct "share n offer"]
    by (auto simp: B2_def)
  moreover have "B2 b z \<le> B3 b z + (if b = bond_asset offer \<and> z = beneficiary offer then ?w else 0)"
    using assms moved_bound [of B2 b z "bond_asset offer" src "beneficiary offer" ?w] by (auto simp: B3_def)
  moreover have "B3 b z \<le> bond_moves cfg native i src n issuer offer B b z +
      (if z = ?acct \<and> b = native \<and> n = nb_of_bonds offer then Stake cfg else 0)"
    using moved_bound [of B3 b z native issuer ?acct "Stake cfg"]
    by (auto simp: bond_moves_def Let_def B1_def B2_def B3_def split: if_splits)
  ultimately show ?thesis by linarith
qed

lemma do_offer_effect:
  assumes cfg: "bonded_configured cfg native" and run: "do_offer cfg src offer keep s = (Inr i, t)"
  shows "offer_valid offer (MinVestedTransfer (BondVesting cfg)) (MinReward cfg) \<and>
    i = min u64_max (BondOfferCount s + 1) \<and> BondOfferCount t = i \<and>
    BondOffers t = (BondOffers s)(i \<mapsto> (src, offer)) \<and>
    bonded_balance cfg t = moved (reward_asset (bond_reward offer)) src (BondSubAccount cfg i)
      (reward_amount (bond_reward offer)) (moved native src (BondSubAccount cfg i) (Stake cfg) (bonded_balance cfg s))"
  using run bonded_ledger.native_moves [OF cfg [unfolded bonded_configured_def]]
    bonded_ledger.transfer_moves [OF cfg [unfolded bonded_configured_def]]
  by (auto simp: do_offer_def ok_simps Let_def set_offer_def offer_account_id_def bonded_balance_def)

lemma cancel_effect:
  assumes cfg: "bonded_configured cfg native" and run: "cancel_call cfg orig i s = (Inr u, t)"
  obtains issuer offer where "BondOffers s i = Some (issuer, offer)"
    "BondAdminOrigin cfg orig \<or> orig = SignedOrigin issuer"
    "BondOffers t = (BondOffers s)(i := None)" "BondOfferCount t = BondOfferCount s"
    "bonded_balance cfg t = moved (reward_asset (bond_reward offer)) (BondSubAccount cfg i) issuer
      (reward_amount (bond_reward offer)) (moved native (BondSubAccount cfg i) issuer (Stake cfg) (bonded_balance cfg s))"
proof -
  note L = cfg [unfolded bonded_configured_def]
  from run obtain issuer offer m1 c1 m2 c2 where
    "BondOffers s i = Some (issuer, offer)" "BondAdminOrigin cfg orig \<or> orig = SignedOrigin issuer"
    and x1: "n_transfer (BondNative cfg) (BondSubAccount cfg i) issuer (Stake cfg) False
       (vesting_currency (bonded_vesting s)) = (Inr m1, c1)"
    and x2: "f_transfer (BondCurrency cfg) (reward_asset (bond_reward offer)) (BondSubAccount cfg i) issuer
       (reward_amount (bond_reward offer)) False c1 = (Inr m2, c2)"
    and "BondOffers t = (BondOffers s)(i := None)" "BondOfferCount t = BondOfferCount s"
      "vesting_currency (bonded_vesting t) = c2"
    by (auto simp: cancel_call_def get_offer_def ok_simps Let_def set_offer_def offer_account_id_def)
  with bonded_ledger.native_moves [OF L x1] bonded_ledger.transfer_moves [OF L x2] show ?thesis
    by (intro that) (auto simp: bonded_balance_def)
qed

lemma do_offer_bonded_ok:
  assumes "bonded_configured cfg native" "inj (BondSubAccount cfg)" "bonded_ok cfg native s"
    and "do_offer cfg src offer keep s = (Inr i, t)" "src \<notin> range (BondSubAccount cfg)" "BondOfferCount s < u64_max"
    and "reward_amount (bond_reward offer) \<le> u128_max" "nb_of_bonds offer \<le> u128_max"
  shows "bonded_ok cfg native t"
proof -
  note e = do_offer_effect [OF assms(1,4)]
  have i: "i = BondOfferCount s + 1" using e assms(6) by simp
  define B1 where "B1 = moved native src (BondSubAccount cfg i) (Stake cfg) (bonded_balance cfg s)"
  have src: "src \<noteq> BondSubAccount cfg j" for j using assms(5) by auto
  have bal: "bonded_balance cfg t = moved (reward_asset (bond_reward offer)) src (BondSubAccount cfg i)
      (reward_amount (bond_reward offer)) B1"
    using e by (simp add: B1_def)
  have grows: "bonded_balance cfg s a (BondSubAccount cfg j) \<le> bonded_balance cfg t a (BondSubAccount cfg j)" for a j
    unfolding bal B1_def using src [of j]
    by (intro moved_other_twice) auto
  have "owed cfg native offer a \<le> bonded_balance cfg t a (BondSubAccount cfg i)" for a
    unfolding bal
    using src [of i] moved_bound [of B1 a "BondSubAccount cfg i" "reward_asset (bond_reward offer)" "BondSubAccount cfg i"
        src "reward_amount (bond_reward offer)"]
      moved_bound [of "bonded_balance cfg s" a "BondSubAccount cfg i" native "BondSubAccount cfg i" src "Stake cfg"]
    by (auto simp: owed_def B1_def split: if_splits)
  moreover have "offer_ok cfg offer" using e offer_valid_ok assms(7,8) by blast
  ultimately show ?thesis
    using e assms(3) grows unfolding bonded_ok_def i
    by (auto split: if_splits intro: le_trans) (meson le_SucI le_trans)+
qed

lemma do_bond_bonded_ok:
  assumes "bonded_configured cfg native" "inj (BondSubAccount cfg)" "bonded_ok cfg native s"
    and "exact_mul_div (BondMulDiv cfg)"
    and "do_bond cfg i src n keep s = (Inr r, t)" "src \<notin> range (BondSubAccount cfg)"
  shows "bonded_ok cfg native t"
proof -
  obtain issuer offer where off: "BondOffers s i = Some (issuer, offer)" "0 < n" "n \<le> nb_of_bonds offer"
    "r = share n offer" "BondOffers t = (BondOffers s)(i \<mapsto> (issuer, take_bonds n r offer))"
    "BondOfferCount t = BondOfferCount s"
    "bonded_balance cfg t = bond_moves cfg native i src n issuer offer (bonded_balance cfg s)"
    by (rule do_bond_effect [OF assms(1,4,3,5)])
  have src: "BondSubAccount cfg j \<noteq> src" for j using assms(6) by auto
  have acct: "BondSubAccount cfg j = BondSubAccount cfg i \<longleftrightarrow> j = i" for j using assms(2) by (auto dest: injD)
  note bound = bond_moves_bound [OF src, of "bonded_balance cfg s" _ _ cfg native i n issuer offer, folded off(7), unfolded acct]
  have good: "offer_ok cfg offer" "\<And>a. owed cfg native offer a \<le> bonded_balance cfg s a (BondSubAccount cfg i)"
    using assms(3) off(1) by (auto simp: bonded_ok_def)
  note tb = take_bonds_ok [OF good(1) off(2,3)]
  have le: "share n offer \<le> reward_amount (bond_reward offer)"
    unfolding share_def using off(2,3) by (intro share_le) auto
  have "owed cfg native (take_bonds n r offer) a \<le> bonded_balance cfg t a (BondSubAccount cfg i)" for a
    using bound [of a i] good(2) [of a] le off(2,3)
    by (auto simp: owed_def tb(1) off(4) completed_def split: if_splits)
  moreover have "bonded_balance cfg s a (BondSubAccount cfg j) \<le> bonded_balance cfg t a (BondSubAccount cfg j)"
    if "j \<noteq> i" for a j
    using bound [of a j] that by simp
  ultimately show ?thesis
    using assms(3) off(1,5,6) tb(2) unfolding bonded_ok_def off(4)
    by (auto split: if_splits) (meson le_trans)+
qed

lemma cancel_bonded_ok:
  assumes "bonded_configured cfg native" "inj (BondSubAccount cfg)" "bonded_ok cfg native s"
    and "cancel_call cfg orig i s = (Inr u, t)"
  shows "bonded_ok cfg native t"
proof -
  obtain issuer offer where "BondOffers s i = Some (issuer, offer)"
    "BondAdminOrigin cfg orig \<or> orig = SignedOrigin issuer"
    and off: "BondOffers t = (BondOffers s)(i := None)" "BondOfferCount t = BondOfferCount s"
    "bonded_balance cfg t = moved (reward_asset (bond_reward offer)) (BondSubAccount cfg i) issuer
      (reward_amount (bond_reward offer)) (moved native (BondSubAccount cfg i) issuer (Stake cfg) (bonded_balance cfg s))"
    by (rule cancel_effect [OF assms(1,4)])
  have "bonded_balance cfg s a (BondSubAccount cfg j) \<le> bonded_balance cfg t a (BondSubAccount cfg j)" if "j \<noteq> i" for a j
    unfolding off(3) using that assms(2) by (intro moved_other_twice) (auto dest: injD)
  then show ?thesis
    using assms(3) off(1,2) unfolding bonded_ok_def by (auto split: if_splits) (meson le_trans)+
qed

section \<open>The states the pallet reaches\<close>

text \<open>
  From an empty pallet, by signed calls of accounts that are not offer accounts (nobody has
  their keys) or by cancelling, whatever the calls return, and by anything else in the runtime
  that does not take funds out of offer accounts. Offer identifiers are \<open>u64\<close>; the bound on the
  counter excludes the last one, where the counter saturates.
\<close>

inductive bonded_reach :: "'c bonded_config \<Rightarrow> 'c bonded \<Rightarrow> bool" for cfg where
  bonded_start: "BondOffers s = Map.empty \<Longrightarrow> bonded_reach cfg s"
| bonded_offer:
    "bonded_reach cfg s \<Longrightarrow> offer_call cfg (SignedOrigin src) offer keep s = (r, t) \<Longrightarrow>
     src \<notin> range (BondSubAccount cfg) \<Longrightarrow> BondOfferCount s < u64_max \<Longrightarrow>
     reward_amount (bond_reward offer) \<le> u128_max \<Longrightarrow> nb_of_bonds offer \<le> u128_max \<Longrightarrow> bonded_reach cfg t"
| bonded_bond:
    "bonded_reach cfg s \<Longrightarrow> bond_call cfg (SignedOrigin src) i n keep s = (r, t) \<Longrightarrow>
     src \<notin> range (BondSubAccount cfg) \<Longrightarrow> bonded_reach cfg t"
| bonded_cancel: "bonded_reach cfg s \<Longrightarrow> cancel_call cfg orig i s = (r, t) \<Longrightarrow> bonded_reach cfg t"
| bonded_environment:
    "bonded_reach cfg s \<Longrightarrow>
     \<forall>a i. bonded_balance cfg s a (BondSubAccount cfg i) \<le>
       balances (BondCurrency cfg) (vesting_currency v) a (BondSubAccount cfg i) \<Longrightarrow>
     bonded_reach cfg (s\<lparr>bonded_vesting := v\<rparr>)"

text \<open>A dispatchable that runs an atomic operation for a signed origin.\<close>

lemma signed_call_cases:
  assumes "bindM (ensure_signed (SignedOrigin src)) (\<lambda>x. thenM (m x) (ret ())) s = (r, t)" "atomic (m src)"
  obtains "t = s" | y where "m src s = (Inr y, t)"
  using assms(1) atomicD [OF assms(2)]
  by (auto simp: bindM_def thenM_def ensure_signed_def ret_def split: prod.splits sum.splits)

lemma bonded_reach_ok:
  assumes "bonded_configured cfg native" "inj (BondSubAccount cfg)" "exact_mul_div (BondMulDiv cfg)"
    and "bonded_reach cfg s"
  shows "bonded_ok cfg native s"
  using assms(4)
proof (induction rule: bonded_reach.induct)
  case (bonded_start s)
  then show ?case by (simp add: bonded_ok_def)
next
  case (bonded_offer s src offer keep r t)
  from bonded_offer.hyps(2) [unfolded offer_call_def] bonded_atomic(1) show ?case
    by (rule signed_call_cases) (use bonded_offer do_offer_bonded_ok [OF assms(1,2)] in auto)
next
  case (bonded_bond s src i n keep r t)
  from bonded_bond.hyps(2) [unfolded bond_call_def] bonded_atomic(2) show ?case
    by (rule signed_call_cases) (use bonded_bond do_bond_bonded_ok [OF assms(1,2) _ assms(3)] in auto)
next
  case (bonded_cancel s orig i r t)
  then show ?case
    using cancel_bonded_ok [OF assms(1,2)] atomicD [OF bonded_atomic(3)] by (cases r) blast+
next
  case (bonded_environment s v)
  then show ?case
    by (simp add: bonded_ok_def bonded_balance_def) (meson le_trans)
qed

section \<open>A concrete runtime\<close>

text \<open>
  The assets pallet over the tables of \<open>lock_book\<close>, as \<open>fungibles\<close> for this pallet, as orml
  currency for the vesting pallet, and its native part for the stake. Account \<open>2\<close> offers \<open>30\<close> of
  asset \<open>5\<close> for three bonds of \<open>10\<close> of asset \<open>6\<close> each, to be paid to account \<open>4\<close>.
\<close>

definition book_fungibles :: "lock_book fungibles" where
  "book_fungibles =
     \<lparr>f_total_issuance = (\<lambda>_ _. 0), f_minimum_balance = (\<lambda>_. 0), f_balance = (\<lambda>a x B. free B a x),
      f_reducible_balance = (\<lambda>a x _ B. free B a x), f_can_deposit = (\<lambda>_ _ _ _. False),
      f_can_withdraw = (\<lambda>a x n B. n \<le> free B a x),
      f_transfer = (\<lambda>a x y n _. thenM (book_transfer a x y n) (ret n)),
      f_mint_into = (\<lambda>_ _ _. fail (TokenErr 1)), f_burn_from = (\<lambda>_ _ _. fail (TokenErr 1))\<rparr>"

definition book_fungible :: "lock_book fungible" where
  "book_fungible =
     \<lparr>n_total_issuance = (\<lambda>_. 0), n_minimum_balance = 0, n_balance = (\<lambda>x B. free B 0 x),
      n_reducible_balance = (\<lambda>x _ B. free B 0 x), n_can_deposit = (\<lambda>_ _ _. False),
      n_can_withdraw = (\<lambda>x n B. n \<le> free B 0 x),
      n_transfer = (\<lambda>x y n _. thenM (book_transfer 0 x y n) (ret n)),
      n_mint_into = (\<lambda>_ _. fail (TokenErr 1)), n_burn_from = (\<lambda>_ _. fail (TokenErr 1))\<rparr>"

definition book_bond_assets :: "(lock_book, lock_book) assets_config" where
  "book_bond_assets =
     \<lparr>NativeAssetId = 1, NativeCurrency = book_fungible, MultiCurrency = book_fungibles,
      AdminOrigin = (\<lambda>_. False), Lookup = Some\<rparr>"

lemma book_transfer_ok:
  "book_transfer a x y n B = (Inr u, C) \<longleftrightarrow> (x = y \<or> n \<le> free B a x) \<and> C = B\<lparr>free := moved a x y n (free B)\<rparr>"
  by (auto simp: book_transfer_def moved_def split: if_splits)

lemma book_transfer_atomic: "atomic (thenM (book_transfer a x y n) (ret m))"
  by (intro atomic_thenM_succeeds succeeds_ret) (auto simp: atomic_def book_transfer_def split: if_splits)

interpretation book_bond: assets_currencies book_fungible book_fungibles book_bond_assets
proof
  fix a x y n k
  show "atomic (n_transfer book_fungible x y n k)" "atomic (f_transfer book_fungibles a x y n k)"
    by (simp_all add: book_fungible_def book_fungibles_def book_transfer_atomic)
qed (auto simp: book_fungible_def book_fungibles_def book_bond_assets_def book_transfer_ok ok_simps balances_def
      issuance_def atomic_def fail_def moved_def credited_def debited_def fun_eq_iff)

definition book_bonded :: "(lock_book \<times> lock_book) bonded_config" where
  "book_bonded =
     \<lparr>BondCurrency = assets_fungibles book_bond_assets, BondNative = assets_fungible book_bond_assets,
      BondVesting = book_vesting, Stake = 20, MinReward = 15, BondAdminOrigin = (\<lambda>orig. orig = RootOrigin),
      BondSubAccount = (\<lambda>i. 100 + i), BondMulDiv = reference_mul_div\<rparr>"

lemma book_bonded_balances:
  "balances (assets_fungibles book_bond_assets) c = (\<lambda>a x. if a = 1 then free (fst c) 0 x else free (snd c) a x)"
  by (auto simp: balances_def fun_eq_iff assets_fungibles_def balance_of_def book_bond_assets_def book_fungible_def
      book_fungibles_def)

interpretation book_books: bonded_ledger "assets_fungibles book_bond_assets" "assets_fungible book_bond_assets"
  "assets_multi book_assets" 1
proof (intro bonded_ledger.intro bonded_ledger_axioms.intro book_bond.routed_ledger)
  fix a show "dust_free (assets_fungibles book_bond_assets) a"
    by (simp add: dust_free_def assets_fungibles_def minimum_balance_def book_bond_assets_def book_fungible_def
        book_fungibles_def)
next
  fix x y n k c m d
  assume "n_transfer (assets_fungible book_bond_assets) x y n k c = (Inr m, d)"
  then show "balances (assets_fungibles book_bond_assets) d = moved 1 x y n (balances (assets_fungibles book_bond_assets) c)"
    unfolding book_bonded_balances
    by (cases c) (auto simp: assets_fungible_def native_transfer_def book_bond_assets_def
        book_fungible_def on_native_ok ok_simps book_transfer_ok moved_def credited_def debited_def fun_eq_iff)
next
  fix a x y n c u d
  assume "l_transfer (assets_multi book_assets) a x y n c = (Inr u, d)"
  then show "balances (assets_fungibles book_bond_assets) d = moved a x y n (balances (assets_fungibles book_bond_assets) c)"
    unfolding book_bonded_balances
    by (cases c) (auto simp: assets_multi_def orml_calls_ok book_assets_def book_multi_def
        book_native_def book_transfer_ok moved_def credited_def debited_def fun_eq_iff split: if_splits)
next
  fix i a x n c u d
  assume "l_set_lock (assets_multi book_assets) i a x n c = (Inr u, d)"
  then show "balances (assets_fungibles book_bond_assets) d = balances (assets_fungibles book_bond_assets) c"
    unfolding book_bonded_balances
    by (cases c) (auto simp: assets_multi_def orml_calls_ok book_assets_def book_defs ok_simps fun_eq_iff
        split: if_splits)
qed

definition bond_book :: lock_book where
  "bond_book =
     \<lparr>free = (\<lambda>a x. if x = 2 \<or> x = 3 then 100 else 0), held = (\<lambda>_ _. 0), locks = (\<lambda>_ _ _. 0)\<rparr>"

definition bonded_example :: "(lock_book \<times> lock_book) bonded" where
  "bonded_example =
     \<lparr>BondOfferCount = 0, BondOffers = Map.empty, bonded_events = [],
      bonded_vesting = vesting_example\<lparr>vesting_currency := (bond_book, bond_book)\<rparr>\<rparr>"

definition offer_example :: bond_offer where
  "offer_example =
     \<lparr>beneficiary = 4, bond_asset = 6, bond_price = 10, nb_of_bonds = 3, bond_maturity = Finite 8,
      bond_reward = \<lparr>reward_asset = 5, reward_amount = 32, reward_maturity = 6\<rparr>\<rparr>"

definition offered_example :: "(lock_book \<times> lock_book) bonded" where
  "offered_example = snd (offer_call book_bonded (SignedOrigin 2) offer_example True bonded_example)"

definition bonded_once_example :: "(lock_book \<times> lock_book) bonded" where
  "bonded_once_example = snd (bond_call book_bonded (SignedOrigin 3) 1 2 True offered_example)"

lemma book_bonded_configured:
  "bonded_configured book_bonded 1" "inj (BondSubAccount book_bonded)" "exact_mul_div (BondMulDiv book_bonded)"
  using book_books.bonded_ledger_axioms
  by (simp_all add: bonded_configured_def book_bonded_def inj_def exact_reference_mul_div)

text \<open>Evaluating the example, one call at a time.\<close>

lemmas bonded_eval =
  offer_call_def do_offer_def bond_call_def do_bond_def offer_valid_def total_price_def safe_arith_defs
  next_offer_id_def wrapping_next_def on_vesting_def on_bonded_currency_def bonded_deposit_event_def set_offer_def
  offer_account_id_def take_bonds_def completed_def wrapping_mul_def wrapping_sub_def reference_mul_div_def
  book_bonded_def book_bond_assets_def book_fungibles_def book_fungible_def assets_fungibles_def assets_fungible_def
  transfer_def native_transfer_def offer_example_def bonded_example_def bond_book_def Let_def u64_max_def
  vested_transfer_def locked_balance_def orml_transfer_def orml_set_lock_def book_vesting_eval

lemma offered_example_run:
  "offer_call book_bonded (SignedOrigin 2) offer_example True bonded_example = (Inr (), offered_example)"
  "BondOffers offered_example = [1 \<mapsto> (2, offer_example)]"
  by (simp_all add: offered_example_def bonded_eval)

lemma bonded_example_reach: "bonded_reach book_bonded bonded_example" "bonded_reach book_bonded offered_example"
proof -
  show start: "bonded_reach book_bonded bonded_example"
    by (rule bonded_start) (simp add: bonded_example_def)
  show "bonded_reach book_bonded offered_example"
    by (rule bonded_offer [OF start offered_example_run(1)])
       (auto simp: book_bonded_def bonded_example_def offer_example_def u64_max_def u128_max_def)
qed

lemma bond_example_run: "\<exists>t. do_bond book_bonded 1 3 2 True offered_example = (Inr 21, t)"
  by (simp add: offered_example_def bonded_eval)

lemma cancel_example_run: "\<exists>t. cancel_call book_bonded (SignedOrigin 2) 1 offered_example = (Inr (), t)"
  by (simp add: offered_example_def cancel_call_def get_offer_def ensure_may_cancel_def bonded_eval)

section \<open>Properties\<close>

text \<open>
  C3. The pallet is solvent: in every state it reaches, the account of every stored offer
  holds, in each asset, at least the rest of the offer's reward plus the issuer's stake while
  bonds are left, also when the reward is in the native asset and both are due from one balance.
\<close>

theorem bonded_offers_solvent:
  assumes "bonded_configured cfg native" "inj (BondSubAccount cfg)" "exact_mul_div (BondMulDiv cfg)"
    and "bonded_reach cfg s" "BondOffers s i = Some (issuer, offer)"
  shows "(if a = reward_asset (bond_reward offer) then reward_amount (bond_reward offer) else 0) +
         (if a = native \<and> \<not> completed offer then Stake cfg else 0)
      \<le> f_balance (BondCurrency cfg) a (offer_account_id cfg i) (vesting_currency (bonded_vesting s))"
  using bonded_reach_ok [OF assms(1-4)] assms(5)
  by (simp add: bonded_ok_def owed_def bonded_balance_def balances_def offer_account_id_def)

lemma bonded_offers_solvent_witness:
  "32 \<le> f_balance (BondCurrency book_bonded) 5 101 (vesting_currency (bonded_vesting offered_example)) \<and>
   20 \<le> f_balance (BondCurrency book_bonded) 1 101 (vesting_currency (bonded_vesting offered_example))"
proof -
  have off: "BondOffers offered_example 1 = Some (2, offer_example)" by (simp add: offered_example_run)
  have "offer_account_id book_bonded 1 = 101" "Stake book_bonded = 20"
    by (simp_all add: offer_account_id_def book_bonded_def)
  with bonded_offers_solvent [OF book_bonded_configured bonded_example_reach(2) off, of 5]
    bonded_offers_solvent [OF book_bonded_configured bonded_example_reach(2) off, of 1]
  show ?thesis by (simp add: offer_example_def completed_def)
qed

text \<open>
  The arithmetic of a bond never goes wrong: for any number of bonds still for sale in a
  reachable state the price does not wrap, the share of the reward is the exact proportion
  rounded down, at least the minimum vested transfer for each bond, at most the rest of the
  reward and all of it for the last bonds; so the vesting pallet accepts both schedules of the
  bond, as long as their end is a block number.
\<close>

theorem bond_share_accepted:
  assumes "bonded_configured cfg native" "inj (BondSubAccount cfg)" "exact_mul_div (BondMulDiv cfg)"
    and "bonded_reach cfg s" "BondOffers s i = Some (issuer, offer)" "0 < n" "n \<le> nb_of_bonds offer"
  shows "\<exists>r. BondMulDiv cfg n (reward_amount (bond_reward offer)) (nb_of_bonds offer) = Some r \<and>
    r = n * reward_amount (bond_reward offer) div nb_of_bonds offer \<and>
    n * MinVestedTransfer (BondVesting cfg) \<le> r \<and> r \<le> reward_amount (bond_reward offer) \<and>
    (n = nb_of_bonds offer \<longrightarrow> r = reward_amount (bond_reward offer)) \<and>
    wrapping_mul u128_max n (bond_price offer) = n * bond_price offer \<and>
    (b + reward_maturity (bond_reward offer) \<le> u32_max \<longrightarrow>
       ensure_valid_vesting_schedule (BondVesting cfg)
         \<lparr>start = b, period = reward_maturity (bond_reward offer), period_count = 1, per_period = r\<rparr> w = (Inr r, w)) \<and>
    (\<forall>return_in. bond_maturity offer = Finite return_in \<longrightarrow> b + return_in \<le> u32_max \<longrightarrow>
       ensure_valid_vesting_schedule (BondVesting cfg)
         \<lparr>start = b, period = return_in, period_count = 1, per_period = n * bond_price offer\<rparr> w
           = (Inr (n * bond_price offer), w))"
proof -
  have good: "offer_ok cfg offer"
    using bonded_reach_ok [OF assms(1-4)] assms(5) by (simp add: bonded_ok_def)
  have pos: "0 < nb_of_bonds offer" using assms(6,7) by simp
  have le: "share n offer \<le> reward_amount (bond_reward offer)" unfolding share_def by (rule share_le [OF pos assms(7)])
  have low: "n * MinVestedTransfer (BondVesting cfg) \<le> share n offer"
    using rest_share(2) [OF pos assms(7)] good by (simp add: share_def offer_ok_def)
  have worth: "n * bond_price offer \<le> u128_max"
    using good assms(7) by (auto simp: offer_ok_def intro: le_trans [OF mult_le_mono1])
  have "MinVestedTransfer (BondVesting cfg) \<le> n * MinVestedTransfer (BondVesting cfg)"
    "bond_price offer \<le> n * bond_price offer" using assms(6) by simp_all
  then have min: "MinVestedTransfer (BondVesting cfg) \<le> share n offer"
    "MinVestedTransfer (BondVesting cfg) \<le> n * bond_price offer"
    using low good unfolding offer_ok_def by linarith+
  have "BondMulDiv cfg n (reward_amount (bond_reward offer)) (nb_of_bonds offer) = Some (share n offer)"
    using assms(3) pos le good by (simp add: exact_mul_div_def share_def offer_ok_def)
  then show ?thesis
    using le low worth min good pos assms(6)
    by (intro exI [of _ "share n offer"])
       (auto simp: ensure_valid_ok valid_schedule_def wrapping_mul_le offer_ok_def share_def add.commute)
qed

lemma bond_share_accepted_witness:
  "BondMulDiv book_bonded 2 32 3 = Some 21 \<and>
   ensure_valid_vesting_schedule (BondVesting book_bonded)
     \<lparr>start = 1, period = 6, period_count = 1, per_period = 21\<rparr> bonded_example = (Inr 21, bonded_example)"
proof -
  have off: "BondOffers offered_example 1 = Some (2, offer_example)" by (simp add: offered_example_run)
  have "(0 :: nat) < 2" "2 \<le> nb_of_bonds offer_example" by (simp_all add: offer_example_def)
  from bond_share_accepted [OF book_bonded_configured bonded_example_reach(2) off this, of 1 bonded_example]
  show ?thesis by (simp add: offer_example_def u32_max_def)
qed

text \<open>
  A bond that succeeds makes exactly these transfers: the price of the bonds to the
  beneficiary, the share of the reward out of the offer's account to the bonder, the price back
  to the bonder (locked) when the maturity is finite, and with the last bonds the stake to the
  issuer; the offer keeps the bonds and the reward that are left. A bond that fails changes
  nothing.
\<close>

theorem bond_settles:
  assumes "bonded_configured cfg native" "inj (BondSubAccount cfg)" "exact_mul_div (BondMulDiv cfg)"
    and "bonded_reach cfg s" "do_bond cfg i src n keep s = (r, t)"
  shows "case r of
      Inl e \<Rightarrow> t = s
    | Inr got \<Rightarrow> \<exists>issuer offer. BondOffers s i = Some (issuer, offer) \<and> 0 < n \<and> n \<le> nb_of_bonds offer \<and>
        got = n * reward_amount (bond_reward offer) div nb_of_bonds offer \<and>
        BondOffers t = (BondOffers s)(i \<mapsto> (issuer,
          offer\<lparr>nb_of_bonds := nb_of_bonds offer - n,
            bond_reward := (bond_reward offer)\<lparr>reward_amount := reward_amount (bond_reward offer) - got\<rparr>\<rparr>)) \<and>
        bonded_balance cfg t = bond_moves cfg native i src n issuer offer (bonded_balance cfg s)"
proof (cases r)
  case (Inl e)
  with assms(5) show ?thesis by (auto dest: atomicD [OF bonded_atomic(2)])
next
  case (Inr got)
  note ok = bonded_reach_ok [OF assms(1-4)]
  have run: "do_bond cfg i src n keep s = (Inr got, t)" using assms(5) Inr by simp
  obtain issuer offer where off: "BondOffers s i = Some (issuer, offer)" "0 < n" "n \<le> nb_of_bonds offer"
    "got = share n offer" "BondOffers t = (BondOffers s)(i \<mapsto> (issuer, take_bonds n got offer))"
    "BondOfferCount t = BondOfferCount s"
    "bonded_balance cfg t = bond_moves cfg native i src n issuer offer (bonded_balance cfg s)"
    by (rule do_bond_effect [OF assms(1,3) ok run])
  have "offer_ok cfg offer" using ok off(1) by (simp add: bonded_ok_def)
  from take_bonds_ok(1) [OF this off(2,3)] off Inr show ?thesis by (auto simp: share_def)
qed

lemma bond_settles_witness:
  "\<exists>t. do_bond book_bonded 1 3 2 True offered_example = (Inr 21, t) \<and>
     BondOffers t = [1 \<mapsto> (2, offer_example\<lparr>nb_of_bonds := 1,
       bond_reward := \<lparr>reward_asset = 5, reward_amount = 11, reward_maturity = 6\<rparr>\<rparr>)] \<and>
     bonded_balance book_bonded t 6 3 = bonded_balance book_bonded offered_example 6 3"
proof -
  obtain t where t: "do_bond book_bonded 1 3 2 True offered_example = (Inr 21, t)"
    using bond_example_run by blast
  have "BondOffers offered_example = [1 \<mapsto> (2, offer_example)]" by (rule offered_example_run(2))
  moreover have "20 \<le> bonded_balance book_bonded offered_example 6 3"
    by (simp add: bonded_balance_def balances_def balance_of_def offered_example_def bonded_eval)
  ultimately have "BondOffers t = [1 \<mapsto> (2, offer_example\<lparr>nb_of_bonds := 1,
       bond_reward := \<lparr>reward_asset = 5, reward_amount = 11, reward_maturity = 6\<rparr>\<rparr>)] \<and>
     bonded_balance book_bonded t 6 3 = bonded_balance book_bonded offered_example 6 3"
    using bond_settles [OF book_bonded_configured bonded_example_reach(2) t]
    by (auto simp: offer_example_def bond_moves_def moved_def credited_def debited_def Let_def book_bonded_def)
  with t show ?thesis by blast
qed

text \<open>
  An offer is cancelled only by the admin origin or by its issuer; the issuer then receives
  the stake and exactly the reward that no bond has earned, and the offer is gone. Any other
  origin is refused with \<open>BadOrigin\<close>, an unknown offer with \<open>BondOfferNotFound\<close>, and a refused
  cancel changes nothing.
\<close>

theorem cancel_refunds_issuer:
  assumes "bonded_configured cfg native" "cancel_call cfg orig i s = (r, t)"
  shows "(\<forall>u. r = Inr u \<longrightarrow> (\<exists>issuer offer. BondOffers s i = Some (issuer, offer) \<and>
        (BondAdminOrigin cfg orig \<or> orig = SignedOrigin issuer) \<and> BondOffers t = (BondOffers s)(i := None) \<and>
        bonded_balance cfg t =
          moved (reward_asset (bond_reward offer)) (offer_account_id cfg i) issuer (reward_amount (bond_reward offer))
            (moved native (offer_account_id cfg i) issuer (Stake cfg) (bonded_balance cfg s)))) \<and>
    (\<forall>e. r = Inl e \<longrightarrow> t = s) \<and>
    (BondOffers s i = None \<longrightarrow> r = Inl (BondedFinanceErr BondOfferNotFound)) \<and>
    (\<forall>issuer offer. BondOffers s i = Some (issuer, offer) \<longrightarrow> \<not> BondAdminOrigin cfg orig \<longrightarrow>
       orig \<noteq> SignedOrigin issuer \<longrightarrow> r = Inl BadOrigin)"
proof (intro conjI allI impI)
  fix u assume "r = Inr u"
  with assms(2) have run: "cancel_call cfg orig i s = (Inr u, t)" by simp
  show "\<exists>issuer offer. BondOffers s i = Some (issuer, offer) \<and>
        (BondAdminOrigin cfg orig \<or> orig = SignedOrigin issuer) \<and> BondOffers t = (BondOffers s)(i := None) \<and>
        bonded_balance cfg t =
          moved (reward_asset (bond_reward offer)) (offer_account_id cfg i) issuer (reward_amount (bond_reward offer))
            (moved native (offer_account_id cfg i) issuer (Stake cfg) (bonded_balance cfg s))"
    by (rule cancel_effect [OF assms(1) run]) (unfold offer_account_id_def, blast)
qed (use assms(2) in \<open>auto simp: cancel_call_def get_offer_def ensure_may_cancel_def call_eval
       dest: atomicD [OF bonded_atomic(3)] split: raw_origin.splits prod.splits sum.splits if_splits\<close>)

lemma cancel_refunds_issuer_witness:
  "(\<exists>t. cancel_call book_bonded (SignedOrigin 2) 1 offered_example = (Inr (), t) \<and> BondOffers t 1 = None) \<and>
   fst (cancel_call book_bonded (SignedOrigin 3) 1 offered_example) = Inl BadOrigin"
proof -
  obtain t where t: "cancel_call book_bonded (SignedOrigin 2) 1 offered_example = (Inr (), t)"
    using cancel_example_run by blast
  have "BondOffers t 1 = None"
    using cancel_refunds_issuer [OF book_bonded_configured(1) t] by auto
  moreover have "fst (cancel_call book_bonded (SignedOrigin 3) 1 offered_example) = Inl BadOrigin"
    using cancel_refunds_issuer [OF book_bonded_configured(1) prod.collapse [symmetric], of "SignedOrigin 3" 1 offered_example]
    by (auto simp: offered_example_run book_bonded_def)
  ultimately show ?thesis using t by blast
qed

end
