(* ===== verification/Oracle.thy ===== *)
theory Oracle
  imports Assets_Orml Currency_Factory "HOL-Library.Multiset"
begin

text \<open>
  The oracle pallet (frame/oracle). Signers with a stake submit prices for the assets that are
  due; at the start of a block the fresh answers of an asset are aggregated to their median and
  the signers are rewarded or slashed. Prices of other pallets come from \<open>get_price\<close>, \<open>get_ratio\<close>,
  \<open>get_price_inverse\<close> and \<open>get_twap\<close>. The off-chain worker, which fetches prices over HTTP, is not
  modelled. The currency, \<open>PerThing::from_rational\<close>, fixed-point arithmetic and the order in which a
  storage map is iterated are code outside the repository and fields of the configuration.
\<close>

unbundle bit_operations_syntax

section \<open>Data\<close>

record oracle_price =
  price_value :: balance
  price_block :: block_number

record pre_price =
  pp_price :: balance
  pp_block :: block_number
  pp_who :: account_id

record oracle_withdraw =
  withdraw_stake :: balance
  unlock_block :: block_number

record oracle_asset_info =
  threshold :: nat
  min_answers :: nat
  max_answers :: nat
  block_interval :: block_number
  reward :: balance
  slash :: balance

datatype oracle_event =
    AssetInfoChange asset_id nat nat nat block_number balance balance
  | SignerSet account_id account_id
  | StakeAdded account_id balance balance
  | StakeRemoved account_id balance block_number
  | StakeReclaimed account_id balance
  | PriceSubmitted account_id asset_id balance
  | UserSlashed account_id asset_id balance
  | UserRewarded account_id asset_id balance
  | AnswerPruned account_id balance

text \<open>
  \<open>PercentFromRational\<close> is \<open>Percent::from_rational\<close>; \<open>FixedFromInteger\<close> and \<open>FixedDiv\<close> are
  \<open>saturating_from_integer\<close> and \<open>checked_div\<close> of \<open>FixedU128\<close>; \<open>AssetsIter\<close> is the order in which
  \<open>AssetsInfo::iter\<close> visits the keys.
\<close>

record 'n oracle_config =
  OracleCurrency :: "'n native_currency"
  AddOracle :: "raw_origin \<Rightarrow> bool"
  MinStake :: balance
  StakeLock :: block_number
  StalePrice :: block_number
  MaxAnswerBound :: nat
  MaxAssetsCount :: nat
  MaxHistory :: nat
  MaxPrePrices :: nat
  OracleDecimals :: "asset_id \<Rightarrow> dispatch_error + nat"
  PercentFromRational :: "nat \<Rightarrow> nat \<Rightarrow> nat"
  OracleMulDiv :: mul_div
  FixedFromInteger :: "nat \<Rightarrow> nat"
  FixedDiv :: "nat \<Rightarrow> nat \<Rightarrow> nat option"
  AssetsIter :: "(asset_id \<rightharpoonup> oracle_asset_info) \<Rightarrow> asset_id list"

record 'n oracle_state =
  AssetsCount :: nat
  SignerToController :: "account_id \<rightharpoonup> account_id"
  ControllerToSigner :: "account_id \<rightharpoonup> account_id"
  DeclaredWithdraws :: "account_id \<rightharpoonup> oracle_withdraw"
  OracleStake :: "account_id \<rightharpoonup> balance"
  AnswerInTransit :: "account_id \<rightharpoonup> balance"
  Prices :: "asset_id \<rightharpoonup> oracle_price"
  PriceHistory :: "asset_id \<Rightarrow> oracle_price list"
  PrePrices :: "asset_id \<Rightarrow> pre_price list"
  OracleAssetsInfo :: "asset_id \<rightharpoonup> oracle_asset_info"
  oracle_events :: "oracle_event list"
  oracle_block :: block_number
  oracle_currency :: 'n

definition on_oracle_currency :: "('n, 'a) call \<Rightarrow> ('n oracle_state, 'a) call" where
  "on_oracle_currency m = zoom oracle_currency (\<lambda>c s. s\<lparr>oracle_currency := c\<rparr>) m"

definition emit :: "oracle_event \<Rightarrow> 'n oracle_state \<Rightarrow> 'n oracle_state" where
  "emit e s = s\<lparr>oracle_events := oracle_events s @ [e]\<rparr>"

definition oracle_deposit_event :: "oracle_event \<Rightarrow> ('n oracle_state, unit) call" where
  "oracle_deposit_event e = modifies (emit e)"

section \<open>Validation of arguments\<close>

text \<open>
  The four validators (frame/oracle/src/validation.rs) run when the arguments of
  \<open>add_asset_and_info\<close> are decoded; a call with an invalid argument is never dispatched.
\<close>

definition validate_min_answers :: "nat \<Rightarrow> string + nat" where
  "validate_min_answers n = (if n \<le> 0 then Inl ''INVALID_MIN_ANSWERS'' else Inr n)"

definition validate_threshold :: "nat \<Rightarrow> string + nat" where
  "validate_threshold p = (if 100 \<le> p then Inl ''INVALID_THRESHOLD'' else Inr p)"

definition validate_max_answer :: "'n oracle_config \<Rightarrow> nat \<Rightarrow> string + nat" where
  "validate_max_answer cfg n = (if MaxAnswerBound cfg < n then Inl ''INVALID_MAX_ANSWER'' else Inr n)"

definition validate_block_interval :: "'n oracle_config \<Rightarrow> block_number \<Rightarrow> string + block_number" where
  "validate_block_interval cfg n =
     (if n \<le> StalePrice cfg then Inl ''INVALID_BLOCK_INTERVAL_LENGTH'' else Inr n)"

section \<open>Answers and prices\<close>

definition remove_price_in_transit :: "account_id \<Rightarrow> oracle_asset_info \<Rightarrow> 'n oracle_state \<Rightarrow> 'n oracle_state" where
  "remove_price_in_transit who info s =
     s\<lparr>AnswerInTransit := (AnswerInTransit s)(who \<mapsto>
        saturating_sub (case AnswerInTransit s who of None \<Rightarrow> 0 | Some t \<Rightarrow> t) (slash info))\<rparr>"

text \<open>\<open>Prices::get\<close>, with the default price of an asset that has none.\<close>

definition prices :: "asset_id \<Rightarrow> 'n oracle_state \<Rightarrow> oracle_price" where
  "prices a s = (case Prices s a of None \<Rightarrow> \<lparr>price_value = 0, price_block = 0\<rparr> | Some p \<Rightarrow> p)"

definition is_requested :: "asset_id \<Rightarrow> 'n oracle_state \<Rightarrow> bool" where
  "is_requested a s =
     (case OracleAssetsInfo s a of
        None \<Rightarrow> False
      | Some info \<Rightarrow> wrapping_add u32_max (price_block (prices a s)) (block_interval info) < oracle_block s)"

definition get_median_price :: "pre_price list \<Rightarrow> balance option" where
  "get_median_price pres =
     (if pres = [] then None
      else
        let numbers = sort (map pp_price pres);
            mid = length numbers div 2
        in if length numbers mod 2 = 0
           then Some (saturating_add u128_max (numbers ! (mid - 1)) (numbers ! mid) div 2)
           else Some (numbers ! mid))"

text \<open>
  Accuracy of an answer in percent, then slash or reward. The result of \<open>can_slash\<close> is only
  logged, as is a failing deposit.
\<close>

definition accuracy :: "'n oracle_config \<Rightarrow> balance \<Rightarrow> balance \<Rightarrow> nat" where
  "accuracy cfg answer price =
     (if answer < price then PercentFromRational cfg answer price
      else PercentFromRational cfg (saturating_sub price (answer - price)) price)"

definition pay_answer ::
  "'n oracle_config \<Rightarrow> balance \<Rightarrow> asset_id \<Rightarrow> oracle_asset_info \<Rightarrow> pre_price \<Rightarrow> 'n oracle_state \<Rightarrow> 'n oracle_state" where
  "pay_answer cfg price asset info answer s =
     remove_price_in_transit (pp_who answer) info
       (if accuracy cfg (pp_price answer) price < threshold info then
          emit (UserSlashed (pp_who answer) asset (slash info))
            (s\<lparr>oracle_currency := snd (nc_slash (OracleCurrency cfg) (pp_who answer) (slash info) (oracle_currency s))\<rparr>)
        else
          let controller = (case SignerToController s (pp_who answer) of None \<Rightarrow> pp_who answer | Some c \<Rightarrow> c)
          in emit (UserRewarded (pp_who answer) asset (reward info))
               (s\<lparr>oracle_currency :=
                  snd (nc_deposit_into_existing (OracleCurrency cfg) controller (reward info) (oracle_currency s))\<rparr>))"

definition handle_payout ::
  "'n oracle_config \<Rightarrow> pre_price list \<Rightarrow> balance \<Rightarrow> asset_id \<Rightarrow> oracle_asset_info \<Rightarrow> 'n oracle_state \<Rightarrow> 'n oracle_state" where
  "handle_payout cfg pres price asset info s = fold (pay_answer cfg price asset info) pres s"

text \<open>Stale answers, fresh answers, and the state with answers in transit released.\<close>

definition prune_old_pre_prices ::
  "'n oracle_config \<Rightarrow> oracle_asset_info \<Rightarrow> pre_price list \<Rightarrow> block_number \<Rightarrow> 'n oracle_state \<Rightarrow>
     (pre_price list \<times> pre_price list) \<times> 'n oracle_state" where
  "prune_old_pre_prices cfg info pres block s =
     (let stale_block = saturating_sub block (StalePrice cfg);
          staled = takeWhile (\<lambda>p. \<not> stale_block \<le> pp_block p) pres;
          fresh = dropWhile (\<lambda>p. \<not> stale_block \<le> pp_block p) pres;
          s1 = (case fresh of [] \<Rightarrow> s | p # _ \<Rightarrow> remove_price_in_transit (pp_who p) info s)
      in if max_answers info < length fresh then
           let pruned = length fresh - max_answers info
           in ((staled, take (max_answers info) fresh),
               fold (\<lambda>p. remove_price_in_transit (pp_who p) info) (drop pruned fresh) s1)
         else ((staled, fresh), s1))"

definition update_pre_prices ::
  "'n oracle_config \<Rightarrow> asset_id \<Rightarrow> oracle_asset_info \<Rightarrow> block_number \<Rightarrow>
     ('n oracle_state, nat \<times> pre_price list) call" where
  "update_pre_prices cfg asset info block =
     bindM (reads (\<lambda>s. PrePrices s asset)) (\<lambda>pre_pruned.
     if min_answers info \<le> length pre_pruned then
       bindM (\<lambda>s. case prune_old_pre_prices cfg info pre_pruned block s of (r, t) \<Rightarrow> (Inr r, t)) (\<lambda>(staled, pres).
       thenM (modifies (fold (\<lambda>p. emit (AnswerPruned (pp_who p) (pp_price p))) staled))
      (thenM (ensure (length pres \<le> MaxPrePrices cfg) (OracleErr oracle_error.MaxPrePrices))
      (thenM (modifies (\<lambda>s. s\<lparr>PrePrices := (PrePrices s)(asset := pres)\<rparr>))
        (ret (length pre_pruned - length pres, pres)))))
     else ret (length pre_pruned, []))"

definition push_history ::
  "'n oracle_config \<Rightarrow> oracle_price \<Rightarrow> block_number \<Rightarrow> oracle_price list \<Rightarrow> ('s, unit \<times> oracle_price list) call" where
  "push_history cfg p block history =
     bindM (if MaxHistory cfg \<le> length history
            then (case history of [] \<Rightarrow> fail (Panic ''removal index'') | _ # rest \<Rightarrow> ret rest)
            else ret history) (\<lambda>kept.
     if block \<noteq> 0 then
       thenM (ensure (length kept < MaxHistory cfg) (OracleErr oracle_error.MaxHistory)) (ret ((), kept @ [p]))
     else ret ((), kept))"

definition update_price ::
  "'n oracle_config \<Rightarrow> asset_id \<Rightarrow> oracle_asset_info \<Rightarrow> block_number \<Rightarrow> pre_price list \<Rightarrow> ('n oracle_state, unit) call" where
  "update_price cfg asset info block pres =
     (if min_answers info \<le> length pres then
        case get_median_price pres of
          None \<Rightarrow> ret ()
        | Some price \<Rightarrow>
            let p = \<lparr>price_value = price, price_block = block\<rparr> in
            thenM (modifies (\<lambda>s. s\<lparr>Prices := (Prices s)(asset \<mapsto> p)\<rparr>))
           (thenM (try_mutate (\<lambda>s. PriceHistory s asset)
                     (\<lambda>h s. s\<lparr>PriceHistory := (PriceHistory s)(asset := h)\<rparr>) (push_history cfg p block))
           (thenM (modifies (\<lambda>s. s\<lparr>PrePrices := (PrePrices s)(asset := [])\<rparr>))
              (modifies (handle_payout cfg pres price asset info))))
      else ret ())"

definition update_asset :: "'n oracle_config \<Rightarrow> block_number \<Rightarrow> asset_id \<Rightarrow> ('n oracle_state, unit) call" where
  "update_asset cfg block asset =
     bindM (reads (\<lambda>s. OracleAssetsInfo s asset)) (\<lambda>v.
     case v of
       None \<Rightarrow> ret ()
     | Some info \<Rightarrow>
         discard_result
           (bindM (update_pre_prices cfg asset info block) (\<lambda>(_, pres).
            discard_result (update_price cfg asset info block pres))))"

definition update_prices :: "'n oracle_config \<Rightarrow> block_number \<Rightarrow> ('n oracle_state, unit) call" where
  "update_prices cfg block =
     bindM (reads (\<lambda>s. AssetsIter cfg (OracleAssetsInfo s))) (\<lambda>assets. for_each assets (update_asset cfg block))"

text \<open>The start of a block: the system sets the block number, then the hook of the pallet runs.\<close>

definition oracle_on_initialize :: "'n oracle_config \<Rightarrow> block_number \<Rightarrow> ('n oracle_state, unit) call" where
  "oracle_on_initialize cfg block =
     thenM (modifies (\<lambda>s. s\<lparr>oracle_block := block\<rparr>)) (update_prices cfg block)"

section \<open>Stakes and submissions\<close>

definition do_add_stake ::
  "'n oracle_config \<Rightarrow> account_id \<Rightarrow> account_id \<Rightarrow> balance \<Rightarrow> ('n oracle_state, unit) call" where
  "do_add_stake cfg who signer stake =
     bindM (reads (\<lambda>s. checked_add u128_max (case OracleStake s signer of None \<Rightarrow> 0 | Some n \<Rightarrow> n) stake)) (\<lambda>v.
     bindM (ok_or v (OracleErr ExceedStake)) (\<lambda>amount_staked.
     thenM (on_oracle_currency (nc_transfer (OracleCurrency cfg) who signer stake KeepAlive))
    (thenM (on_oracle_currency (nc_reserve (OracleCurrency cfg) signer stake))
    (thenM (modifies (\<lambda>s. s\<lparr>OracleStake := (OracleStake s)(signer \<mapsto> amount_staked)\<rparr>))
      (oracle_deposit_event (StakeAdded signer stake amount_staked))))))"

definition add_asset_and_info ::
  "'n oracle_config \<Rightarrow> raw_origin \<Rightarrow> asset_id \<Rightarrow> oracle_asset_info \<Rightarrow> ('n oracle_state, unit) call" where
  "add_asset_and_info cfg orig asset info =
     thenM (ensure_origin (AddOracle cfg) orig)
    (thenM (ensure (min_answers info \<le> max_answers info) (OracleErr MaxAnswersLessThanMinAnswers))
    (bindM (reads AssetsCount) (\<lambda>count.
     thenM (ensure (count < MaxAssetsCount cfg) (OracleErr ExceedAssetsCount))
    (bindM (reads (\<lambda>s. OracleAssetsInfo s asset)) (\<lambda>current.
     thenM (if current = None
            then modifies (\<lambda>s. s\<lparr>AssetsCount := wrapping_add u32_max (AssetsCount s) 1\<rparr>)
            else ret ())
    (thenM (modifies (\<lambda>s. s\<lparr>OracleAssetsInfo := (OracleAssetsInfo s)(asset \<mapsto> info)\<rparr>))
      (oracle_deposit_event (AssetInfoChange asset (threshold info) (min_answers info) (max_answers info)
         (block_interval info) (reward info) (slash info)))))))))"

definition set_signer :: "'n oracle_config \<Rightarrow> raw_origin \<Rightarrow> account_id \<Rightarrow> ('n oracle_state, unit) call" where
  "set_signer cfg orig signer =
     bindM (ensure_signed orig) (\<lambda>who.
     bindM (reads (\<lambda>s. ControllerToSigner s who)) (\<lambda>current_controller.
     bindM (reads (\<lambda>s. SignerToController s signer)) (\<lambda>current_signer.
     thenM (ensure (current_controller = None) (OracleErr ControllerUsed))
    (thenM (ensure (current_signer = None) (OracleErr SignerUsed))
    (thenM (do_add_stake cfg who signer (MinStake cfg))
    (thenM (modifies (\<lambda>s. s\<lparr>ControllerToSigner := (ControllerToSigner s)(who \<mapsto> signer)\<rparr>))
    (thenM (modifies (\<lambda>s. s\<lparr>SignerToController := (SignerToController s)(signer \<mapsto> who)\<rparr>))
      (oracle_deposit_event (SignerSet signer who)))))))))"

definition add_stake :: "'n oracle_config \<Rightarrow> raw_origin \<Rightarrow> balance \<Rightarrow> ('n oracle_state, unit) call" where
  "add_stake cfg orig stake =
     bindM (ensure_signed orig) (\<lambda>who.
     bindM (reads (\<lambda>s. ControllerToSigner s who)) (\<lambda>v.
     bindM (ok_or v (OracleErr UnsetSigner)) (\<lambda>signer.
     do_add_stake cfg who signer stake)))"

definition remove_stake :: "'n oracle_config \<Rightarrow> raw_origin \<Rightarrow> ('n oracle_state, unit) call" where
  "remove_stake cfg orig =
     bindM (ensure_signed orig) (\<lambda>who.
     bindM (reads (\<lambda>s. ControllerToSigner s who)) (\<lambda>v.
     bindM (ok_or v (OracleErr UnsetSigner)) (\<lambda>signer.
     bindM (reads oracle_block) (\<lambda>block.
     let unlock = wrapping_add u32_max block (StakeLock cfg) in
     bindM (reads (\<lambda>s. OracleStake s signer)) (\<lambda>staked.
     bindM (ok_or staked (OracleErr NoStake)) (\<lambda>stake.
     thenM (modifies (\<lambda>s. s\<lparr>OracleStake := (OracleStake s)(signer := None)\<rparr>))
    (thenM (modifies (\<lambda>s. s\<lparr>DeclaredWithdraws := (DeclaredWithdraws s)(signer \<mapsto>
              \<lparr>withdraw_stake = stake, unlock_block = unlock\<rparr>)\<rparr>))
      (oracle_deposit_event (StakeRemoved signer stake unlock)))))))))"

definition reclaim_stake :: "'n oracle_config \<Rightarrow> raw_origin \<Rightarrow> ('n oracle_state, unit) call" where
  "reclaim_stake cfg orig =
     bindM (ensure_signed orig) (\<lambda>who.
     bindM (reads (\<lambda>s. ControllerToSigner s who)) (\<lambda>v.
     bindM (ok_or v (OracleErr UnsetSigner)) (\<lambda>signer.
     bindM (reads oracle_block) (\<lambda>block.
     bindM (reads (\<lambda>s. DeclaredWithdraws s signer)) (\<lambda>w.
     bindM (ok_or w (OracleErr Unknown)) (\<lambda>withdrawal.
     thenM (ensure (unlock_block withdrawal < block) (OracleErr StakeLocked))
    (thenM (modifies (\<lambda>s. s\<lparr>DeclaredWithdraws := (DeclaredWithdraws s)(signer := None)\<rparr>))
    (thenM (modifies (\<lambda>s. s\<lparr>oracle_currency :=
              snd (nc_unreserve (OracleCurrency cfg) signer (withdraw_stake withdrawal) (oracle_currency s))\<rparr>))
    (thenM (map_err (\<lambda>_. OracleErr TransferError)
              (on_oracle_currency (nc_transfer (OracleCurrency cfg) signer who (withdraw_stake withdrawal) AllowDeath)))
    (thenM (modifies (\<lambda>s. s\<lparr>ControllerToSigner := (ControllerToSigner s)(who := None)\<rparr>))
    (thenM (modifies (\<lambda>s. s\<lparr>SignerToController := (SignerToController s)(signer := None)\<rparr>))
      (oracle_deposit_event (StakeReclaimed signer (withdraw_stake withdrawal))))))))))))))"

definition submit_price ::
  "'n oracle_config \<Rightarrow> raw_origin \<Rightarrow> balance \<Rightarrow> asset_id \<Rightarrow> ('n oracle_state, unit) call" where
  "submit_price cfg orig price asset =
     bindM (ensure_signed orig) (\<lambda>who.
     bindM (reads (\<lambda>s. case OracleStake s who of None \<Rightarrow> 0 | Some n \<Rightarrow> n)) (\<lambda>author_stake.
     bindM (reads (is_requested asset)) (\<lambda>requested.
     thenM (ensure requested (OracleErr PriceNotRequested))
    (bindM (reads (\<lambda>s. case AnswerInTransit s who of None \<Rightarrow> 0 | Some n \<Rightarrow> n)) (\<lambda>transit.
     thenM (ensure (saturating_add u128_max (MinStake cfg) transit \<le> author_stake) (OracleErr NotEnoughStake))
    (bindM (reads (\<lambda>s. OracleAssetsInfo s asset)) (\<lambda>v.
     bindM (ok_or v (OracleErr InvalidAssetId)) (\<lambda>info.
     bindM (reads oracle_block) (\<lambda>block.
     thenM (try_mutate (\<lambda>s. PrePrices s asset) (\<lambda>ps s. s\<lparr>PrePrices := (PrePrices s)(asset := ps)\<rparr>)
              (\<lambda>current.
                thenM (ensure (length current < max_answers info) (OracleErr MaxPrices))
               (thenM (ensure (\<not> list_ex (\<lambda>candidate. pp_who candidate = who) current) (OracleErr AlreadySubmitted))
               (thenM (ensure (length current < MaxPrePrices cfg) (OracleErr oracle_error.MaxPrePrices))
                 (ret ((), current @ [\<lparr>pp_price = price, pp_block = block, pp_who = who\<rparr>]))))))
    (thenM (modifies (\<lambda>s. s\<lparr>AnswerInTransit := (AnswerInTransit s)(who \<mapsto>
              saturating_add u128_max (case AnswerInTransit s who of None \<Rightarrow> 0 | Some n \<Rightarrow> n) (slash info))\<rparr>))
      (oracle_deposit_event (PriceSubmitted who asset price))))))))))))"

section \<open>Prices for other pallets\<close>

definition get_price :: "'n oracle_config \<Rightarrow> asset_id \<Rightarrow> balance \<Rightarrow> 'n oracle_state \<Rightarrow> dispatch_error + oracle_price" where
  "get_price cfg asset amount s =
     (case Prices s asset of
        None \<Rightarrow> Inl (OracleErr PriceNotFound)
      | Some p \<Rightarrow>
          (case OracleDecimals cfg asset of
             Inl e \<Rightarrow> Inl e
           | Inr d \<Rightarrow>
               if u128_max < 10 ^ d then Inl (Arithmetic arithmetic_error.Overflow)
               else (case OracleMulDiv cfg (price_value p) amount (10 ^ d) of
                       None \<Rightarrow> Inl (Arithmetic arithmetic_error.Overflow)
                     | Some v \<Rightarrow> Inr \<lparr>price_value = v, price_block = price_block p\<rparr>)))"

text \<open>The source writes \<open>10 ^ decimals\<close>; in Rust \<open>^\<close> is exclusive or.\<close>

definition ten_xor :: "nat \<Rightarrow> nat" where
  "ten_xor d = (10 :: nat) XOR d"

definition get_ratio ::
  "'n oracle_config \<Rightarrow> asset_id \<Rightarrow> asset_id \<Rightarrow> 'n oracle_state \<Rightarrow> dispatch_error + nat" where
  "get_ratio cfg base quote s =
     (case OracleDecimals cfg base of
        Inl e \<Rightarrow> Inl e
      | Inr d \<Rightarrow>
          (case get_price cfg base (ten_xor d) s of
             Inl e \<Rightarrow> Inl e
           | Inr pb \<Rightarrow>
               (case get_price cfg quote (ten_xor d) s of
                  Inl e \<Rightarrow> Inl e
                | Inr pq \<Rightarrow>
                    let b = FixedFromInteger cfg (price_value pb); q = FixedFromInteger cfg (price_value pq)
                    in if q = 0 then Inl (Arithmetic DivisionByZero)
                       else (case FixedDiv cfg b q of
                               None \<Rightarrow> Inl (Arithmetic arithmetic_error.Overflow) | Some r \<Rightarrow> Inr r))))"

definition get_price_inverse ::
  "'n oracle_config \<Rightarrow> asset_id \<Rightarrow> balance \<Rightarrow> 'n oracle_state \<Rightarrow> dispatch_error + balance" where
  "get_price_inverse cfg asset amount s =
     (case OracleDecimals cfg asset of
        Inl e \<Rightarrow> Inl e
      | Inr d \<Rightarrow>
          let unit = ten_xor d in
          (case get_price cfg asset unit s of
             Inl e \<Rightarrow> Inl e
           | Inr p \<Rightarrow>
               (case OracleMulDiv cfg amount unit (price_value p) of
                  None \<Rightarrow> Inl (Other ''result cannot fit in u128'')
                | Some r \<Rightarrow> if u64_max < r then Inl (Arithmetic arithmetic_error.Overflow) else Inr r)))"

definition price_values_sum :: "balance list \<Rightarrow> balance" where
  "price_values_sum ns = foldl (saturating_add u128_max) 0 ns"

definition get_twap :: "asset_id \<Rightarrow> balance list \<Rightarrow> 'n oracle_state \<Rightarrow> dispatch_error + balance" where
  "get_twap asset price_weights s =
     (let history = PriceHistory s asset in
      if \<not> length price_weights \<le> length history + 1 then Inl (OracleErr DepthTooLarge)
      else if price_values_sum price_weights \<noteq> 100 then Inl (OracleErr MustSumTo100)
      else
        let last_weight = (if price_weights = [] then 0 else last price_weights);
            weights = butlast price_weights
        in if last_weight = 0 then Inl (OracleErr ArithmeticError)
           else
             let past = map (\<lambda>(i, weight).
                    wrapping_mul u128_max weight (price_value (history ! (length history - length weights + i))) div 100)
                    (enumerate 0 weights);
                 current = wrapping_mul u128_max last_weight (price_value (prices asset s)) div 100;
                 average = price_values_sum (past @ [current])
             in if average = 0 then Inl (OracleErr ArithmeticError) else Inr average)"

end
