(* ===== verification/Oracle_Properties.thy ===== *)
theory Oracle_Properties
  imports Oracle
begin

text \<open>
  What the oracle guarantees: a majority of honest answers bounds the price, the published price is
  the median of the fresh answers, and the tables of the pallet stay consistent.
\<close>

section \<open>The median\<close>

lemma sorted_nth_ge:
  assumes "sorted xs" "i < length xs" "length (filter (\<lambda>x. x < lo) xs) \<le> i"
  shows "(lo :: nat) \<le> xs ! i"
proof (rule ccontr)
  assume "\<not> lo \<le> xs ! i"
  then have "xs ! j < lo" if "j \<le> i" for j
    using assms(1,2) that sorted_nth_mono [of xs j i] by fastforce
  then have "filter (\<lambda>x. x < lo) (take (Suc i) xs) = take (Suc i) xs"
    using assms(2) by (auto simp: filter_id_conv in_set_conv_nth)
  moreover have "filter (\<lambda>x. x < lo) xs
      = filter (\<lambda>x. x < lo) (take (Suc i) xs) @ filter (\<lambda>x. x < lo) (drop (Suc i) xs)"
    by (metis append_take_drop_id filter_append)
  ultimately have "Suc i \<le> length (filter (\<lambda>x. x < lo) xs)"
    using assms(2) by simp
  then show False using assms(3) by simp
qed

lemma sorted_nth_le:
  assumes "sorted xs" "i < length xs" "length (filter (\<lambda>x. hi < x) xs) < length xs - i"
  shows "xs ! i \<le> (hi :: nat)"
proof (rule ccontr)
  assume "\<not> xs ! i \<le> hi"
  then have "hi < xs ! j" if "i \<le> j" "j < length xs" for j
    using assms(1) that sorted_nth_mono [of xs i j] by fastforce
  then have "filter (\<lambda>x. hi < x) (drop i xs) = drop i xs"
    using assms(2) by (auto simp: filter_id_conv in_set_conv_nth)
  moreover have "filter (\<lambda>x. hi < x) xs = filter (\<lambda>x. hi < x) (take i xs) @ filter (\<lambda>x. hi < x) (drop i xs)"
    by (metis append_take_drop_id filter_append)
  ultimately have "length xs - i \<le> length (filter (\<lambda>x. hi < x) xs)"
    by simp
  then show False using assms(3) by simp
qed

text \<open>How many answers are below, inside and above an interval.\<close>

lemma interval_counts:
  fixes lo hi :: nat
  assumes "lo \<le> hi"
  shows "length (filter (\<lambda>x. x < lo) xs) + length (filter (\<lambda>x. lo \<le> x \<and> x \<le> hi) xs)
           + length (filter (\<lambda>x. hi < x) xs) = length xs"
  using assms by (induction xs) auto

lemma length_filter_sort: "length (filter P (sort xs)) = length (filter P (xs :: nat list))"
proof -
  have "mset (filter P (sort xs)) = mset (filter P xs)" by simp
  then show ?thesis by (metis size_mset)
qed

lemma median_inside:
  assumes "length pres < 2 * length (filter (\<lambda>p. lo \<le> pp_price p \<and> pp_price p \<le> hi) pres)"
    and "2 * lo \<le> u128_max"
  shows "\<exists>m. get_median_price pres = Some m \<and> lo \<le> m \<and> m \<le> hi"
proof -
  define ns where "ns = sort (map pp_price pres)"
  let ?mid = "length ns div 2"
  have len: "length ns = length pres" by (simp add: ns_def)
  have ne: "pres \<noteq> []" using assms(1) by auto
  have inside: "length ns < 2 * length (filter (\<lambda>x. lo \<le> x \<and> x \<le> hi) ns)"
    using assms(1) by (simp add: ns_def length_filter_sort filter_map comp_def)
  then have "lo \<le> hi" by (cases "lo \<le> hi") (auto simp: filter_empty_conv)
  from interval_counts [OF this, of ns] inside
  have below: "2 * length (filter (\<lambda>x. x < lo) ns) < length ns"
    and above: "2 * length (filter (\<lambda>x. hi < x) ns) < length ns" by linarith+
  have bounds: "lo \<le> ns ! i \<and> ns ! i \<le> hi"
    if "length ns \<le> 2 * i + 2" "2 * i \<le> length ns" "i < length ns" "even (length ns) \<or> length ns \<le> 2 * i + 1" for i
  proof
    have "length (filter (\<lambda>x. x < lo) ns) \<le> i" using below that by auto
    then show "lo \<le> ns ! i" using that(3) by (intro sorted_nth_ge) (simp_all add: ns_def)
    have "length (filter (\<lambda>x. hi < x) ns) < length ns - i" using above that by linarith
    then show "ns ! i \<le> hi" using that(3) by (intro sorted_nth_le) (simp_all add: ns_def)
  qed
  show ?thesis
  proof (cases "even (length ns)")
    case True
    then obtain k where k: "length ns = 2 * k" by blast
    then have "0 < k" using ne len by (cases k) auto
    then have "lo \<le> ns ! (k - 1) \<and> ns ! (k - 1) \<le> hi" "lo \<le> ns ! k \<and> ns ! k \<le> hi"
      using k bounds [of "k - 1"] bounds [of k] by simp_all
    moreover have "get_median_price pres = Some (min u128_max (ns ! (k - 1) + ns ! k) div 2)"
      using ne k by (simp add: get_median_price_def Let_def saturating_add_def flip: ns_def)
    moreover have "lo \<le> min u128_max (ns ! (k - 1) + ns ! k) div 2" "min u128_max (ns ! (k - 1) + ns ! k) div 2 \<le> hi"
      using assms(2) calculation(1,2) by auto
    ultimately show ?thesis by blast
  next
    case False
    then have "length ns = 2 * ?mid + 1" by presburger
    then have "lo \<le> ns ! ?mid \<and> ns ! ?mid \<le> hi"
      using bounds [of ?mid] by linarith
    moreover have "get_median_price pres = Some (ns ! ?mid)"
      using ne False by (simp add: get_median_price_def Let_def odd_iff_mod_2_eq_one flip: ns_def)
    ultimately show ?thesis by blast
  qed
qed

section \<open>The books of the pallet\<close>

text \<open>
  Everything but stakes, answers in transit, declared withdrawals, events and the currency: what
  payouts and pruning leave alone.
\<close>

definition books where
  "books s = (AssetsCount s, SignerToController s, ControllerToSigner s, Prices s, PriceHistory s,
              PrePrices s, OracleAssetsInfo s, oracle_block s)"

lemma books_emit [simp]: "books (emit e s) = books s"
  by (simp add: books_def emit_def)

lemma books_remove_price_in_transit [simp]: "books (remove_price_in_transit who info s) = books s"
  by (simp add: books_def remove_price_in_transit_def)

lemma books_currency [simp]: "books (s\<lparr>oracle_currency := c\<rparr>) = books s"
  by (simp add: books_def)

lemma books_fold: "(\<And>x s. books (f x s) = books s) \<Longrightarrow> books (fold f xs s) = books s"
  by (induction xs arbitrary: s) simp_all

lemma books_pay_answer [simp]: "books (pay_answer cfg price a info p s) = books s"
  by (simp add: pay_answer_def Let_def)

lemma books_handle_payout [simp]: "books (handle_payout cfg pres price a info s) = books s"
  by (simp add: handle_payout_def books_fold)

text \<open>What a block does to the prices of one asset, without payouts and events.\<close>

definition fresh_answers :: "'n oracle_config \<Rightarrow> oracle_asset_info \<Rightarrow> block_number \<Rightarrow> pre_price list \<Rightarrow> pre_price list" where
  "fresh_answers cfg info block pres =
     take (max_answers info) (dropWhile (\<lambda>p. pp_block p < block - StalePrice cfg) pres)"

definition pushed :: "'n oracle_config \<Rightarrow> oracle_price \<Rightarrow> oracle_price list \<Rightarrow> oracle_price list" where
  "pushed cfg p h = drop (length h + 1 - MaxHistory cfg) h @ [p]"

definition publishes :: "'n oracle_config \<Rightarrow> oracle_asset_info \<Rightarrow> block_number \<Rightarrow> pre_price list \<Rightarrow> bool" where
  "publishes cfg info block pres \<longleftrightarrow>
     min_answers info \<le> length pres \<and> min_answers info \<le> length (fresh_answers cfg info block pres)
     \<and> fresh_answers cfg info block pres \<noteq> []"

definition updated :: "'n oracle_config \<Rightarrow> block_number \<Rightarrow> asset_id \<Rightarrow> 'n oracle_state \<Rightarrow> 'n oracle_state" where
  "updated cfg block a s =
     (case OracleAssetsInfo s a of
        None \<Rightarrow> s
      | Some info \<Rightarrow>
          let pres = PrePrices s a; fresh = fresh_answers cfg info block pres;
              p = \<lparr>price_value = the (get_median_price fresh), price_block = block\<rparr>
          in if publishes cfg info block pres then
               s\<lparr>Prices := (Prices s)(a \<mapsto> p),
                 PriceHistory := (PriceHistory s)(a := pushed cfg p (PriceHistory s a)),
                 PrePrices := (PrePrices s)(a := [])\<rparr>
             else if min_answers info \<le> length pres then s\<lparr>PrePrices := (PrePrices s)(a := fresh)\<rparr>
             else s)"

lemma books_updated_cong: "books s = books t \<Longrightarrow> books (updated cfg block a s) = books (updated cfg block a t)"
  by (auto simp: updated_def books_def Let_def split: option.splits)

lemma prune_result:
  "\<exists>t. prune_old_pre_prices cfg info pres block s =
       ((takeWhile (\<lambda>p. pp_block p < block - StalePrice cfg) pres, fresh_answers cfg info block pres), t)
     \<and> books t = books s"
  by (auto simp: prune_old_pre_prices_def fresh_answers_def Let_def saturating_sub_def not_le books_fold
      split: list.splits)

lemma push_history_result:
  assumes "0 < MaxHistory cfg" "length h \<le> MaxHistory cfg" "block \<noteq> 0"
  shows "push_history cfg p block h s = (Inr ((), pushed cfg p h), s)"
  using assms by (cases h) (auto simp: push_history_def pushed_def call_eval Suc_diff_le)

lemma update_price_result:
  assumes "0 < MaxHistory cfg" "length (PriceHistory s a) \<le> MaxHistory cfg" "block \<noteq> 0"
  shows "\<exists>t. update_price cfg a info block pres s = (Inr (), t)
     \<and> books t = books
         (if min_answers info \<le> length pres \<and> pres \<noteq> [] then
            let p = \<lparr>price_value = the (get_median_price pres), price_block = block\<rparr>
            in s\<lparr>Prices := (Prices s)(a \<mapsto> p), PriceHistory := (PriceHistory s)(a := pushed cfg p (PriceHistory s a)),
                 PrePrices := (PrePrices s)(a := [])\<rparr>
          else s)"
proof -
  have "get_median_price pres = Some (the (get_median_price pres)) \<or> pres = []"
    by (simp add: get_median_price_def Let_def)
  then show ?thesis
    using assms
    by (auto simp: update_price_def call_eval push_history_result Let_def get_median_price_def)
qed

lemma update_asset_result:
  assumes "0 < MaxHistory cfg" "length (PriceHistory s a) \<le> MaxHistory cfg" "block \<noteq> 0"
    and "length (PrePrices s a) \<le> MaxPrePrices cfg"
  shows "\<exists>t. update_asset cfg block a s = (Inr (), t) \<and> books t = books (updated cfg block a s)"
proof (cases "OracleAssetsInfo s a")
  case None
  then show ?thesis by (simp add: update_asset_def updated_def call_eval)
next
  case (Some info)
  let ?pres = "PrePrices s a"
  let ?fresh = "fresh_answers cfg info block ?pres"
  show ?thesis
  proof (cases "min_answers info \<le> length ?pres")
    case False
    obtain t where t: "update_price cfg a info block [] s = (Inr (), t)" "books t = books s"
      using update_price_result [OF assms(1-3), of info "[]"] by auto
    then show ?thesis
      using False Some
      by (simp add: update_asset_def updated_def update_pre_prices_def call_eval discard_result_def publishes_def Let_def)
  next
    case True
    obtain u where u: "prune_old_pre_prices cfg info ?pres block s =
        ((takeWhile (\<lambda>p. pp_block p < block - StalePrice cfg) ?pres, ?fresh), u)" "books u = books s"
      using prune_result by blast
    let ?v = "fold (\<lambda>p. emit (AnswerPruned (pp_who p) (pp_price p)))
                (takeWhile (\<lambda>p. pp_block p < block - StalePrice cfg) ?pres) u"
    let ?w = "?v\<lparr>PrePrices := (PrePrices ?v)(a := ?fresh)\<rparr>"
    have v: "books ?v = books s" using u(2) by (simp add: books_fold)
    have len: "length ?fresh \<le> MaxPrePrices cfg"
      using assms(4) length_dropWhile_le [of "\<lambda>p. pp_block p < block - StalePrice cfg" ?pres]
      unfolding fresh_answers_def by simp
    have "length (PriceHistory ?w a) \<le> MaxHistory cfg" using v assms(2) by (simp add: books_def)
    then obtain t where t: "update_price cfg a info block ?fresh ?w = (Inr (), t)"
      "books t = books (if min_answers info \<le> length ?fresh \<and> ?fresh \<noteq> [] then
            let p = \<lparr>price_value = the (get_median_price ?fresh), price_block = block\<rparr>
            in ?w\<lparr>Prices := (Prices ?w)(a \<mapsto> p), PriceHistory := (PriceHistory ?w)(a := pushed cfg p (PriceHistory ?w a)),
                 PrePrices := (PrePrices ?w)(a := [])\<rparr>
          else ?w)"
      using update_price_result [OF assms(1) _ assms(3), of ?w a info ?fresh] by blast
    have "update_asset cfg block a s = (Inr (), t)"
      using True Some u(1) len t(1)
      by (simp add: update_asset_def update_pre_prices_def call_eval discard_result_def)
    moreover have "books t = books (updated cfg block a s)"
      using True Some v unfolding t(2) by (auto simp: updated_def publishes_def Let_def books_def)
    ultimately show ?thesis by blast
  qed
qed

text \<open>The books of all assets after a list of updates.\<close>

definition asset_view where
  "asset_view a s = (Prices s a, PriceHistory s a, PrePrices s a, OracleAssetsInfo s a)"

definition sizes_ok :: "'n oracle_config \<Rightarrow> 'n oracle_state \<Rightarrow> bool" where
  "sizes_ok cfg s \<longleftrightarrow>
     (\<forall>a. length (PrePrices s a) \<le> MaxPrePrices cfg \<and> length (PriceHistory s a) \<le> MaxHistory cfg)"

lemma length_fresh_answers: "length (fresh_answers cfg info block pres) \<le> length pres"
  using length_dropWhile_le [of "\<lambda>p. pp_block p < block - StalePrice cfg" pres]
  by (simp add: fresh_answers_def min.coboundedI2)

lemma length_pushed: "0 < MaxHistory cfg \<Longrightarrow> length h \<le> MaxHistory cfg \<Longrightarrow> length (pushed cfg p h) \<le> MaxHistory cfg"
  by (auto simp: pushed_def)

lemma sizes_ok_updated: "0 < MaxHistory cfg \<Longrightarrow> sizes_ok cfg s \<Longrightarrow> sizes_ok cfg (updated cfg block a s)"
  by (auto simp: sizes_ok_def updated_def Let_def length_pushed intro: order_trans [OF length_fresh_answers]
      split: option.splits)

lemma sizes_ok_books: "books s = books t \<Longrightarrow> sizes_ok cfg s = sizes_ok cfg t"
  by (simp add: books_def sizes_ok_def)

lemma fold_updated_cong:
  "books s = books t \<Longrightarrow> books (fold (updated cfg block) as s) = books (fold (updated cfg block) as t)"
proof (induction as arbitrary: s t)
  case (Cons a as)
  from Cons.IH [OF books_updated_cong [OF Cons.prems]] show ?case by simp
qed simp

lemma for_each_update:
  assumes "0 < MaxHistory cfg" "block \<noteq> 0"
  shows "sizes_ok cfg s \<Longrightarrow>
    \<exists>t. for_each as (update_asset cfg block) s = (Inr (), t) \<and> books t = books (fold (updated cfg block) as s)"
proof (induction as arbitrary: s)
  case Nil
  then show ?case by (simp add: ret_def)
next
  case (Cons a as)
  then obtain u where u: "update_asset cfg block a s = (Inr (), u)" "books u = books (updated cfg block a s)"
    using update_asset_result [OF assms(1) _ assms(2), of s a] unfolding sizes_ok_def by blast
  have "sizes_ok cfg u"
    using u(2) assms(1) Cons.prems sizes_ok_books sizes_ok_updated by blast
  from Cons.IH [OF this] show ?case
    using u by (simp add: thenM_def bindM_def fold_updated_cong [OF u(2)])
qed

lemma asset_view_other: "b \<noteq> a \<Longrightarrow> asset_view a (updated cfg block b s) = asset_view a s"
  by (auto simp: asset_view_def updated_def Let_def split: option.splits)

lemma asset_view_cong:
  "asset_view a s = asset_view a t \<Longrightarrow> asset_view a (updated cfg block a s) = asset_view a (updated cfg block a t)"
  by (auto simp: asset_view_def updated_def Let_def split: option.splits)

lemma fold_updated_other: "a \<notin> set as \<Longrightarrow> asset_view a (fold (updated cfg block) as s) = asset_view a s"
  by (induction as arbitrary: s) (auto simp: asset_view_other)

lemma fold_updated_view:
  "distinct as \<Longrightarrow> a \<in> set as \<Longrightarrow>
     asset_view a (fold (updated cfg block) as s) = asset_view a (updated cfg block a s)"
proof (induction as arbitrary: s)
  case (Cons b as)
  then show ?case
    by (cases "b = a") (auto simp: fold_updated_other asset_view_other intro: asset_view_cong)
qed simp

definition other_books where
  "other_books s = (AssetsCount s, SignerToController s, ControllerToSigner s, OracleAssetsInfo s, oracle_block s)"

lemma other_books_fold: "other_books (fold (updated cfg block) as s) = other_books s"
proof (induction as arbitrary: s)
  case (Cons b as)
  have "other_books (updated cfg block b s) = other_books s"
    by (auto simp: other_books_def updated_def Let_def split: option.splits)
  then show ?case using Cons by simp
qed simp

section \<open>The invariant\<close>

definition oracle_config_ok :: "'n oracle_config \<Rightarrow> bool" where
  "oracle_config_ok cfg \<longleftrightarrow>
     0 < MaxHistory cfg \<and> MaxAssetsCount cfg \<le> u32_max
     \<and> (\<forall>m. finite (dom m) \<longrightarrow> distinct (AssetsIter cfg m) \<and> set (AssetsIter cfg m) = dom m)"

definition answers_ok :: "'n oracle_config \<Rightarrow> block_number \<Rightarrow> pre_price list \<Rightarrow> bool" where
  "answers_ok cfg n pres \<longleftrightarrow>
     length pres \<le> MaxPrePrices cfg \<and> distinct (map pp_who pres) \<and> sorted (map pp_block pres)
     \<and> (\<forall>p \<in> set pres. pp_block p \<le> n)"

definition history_ok :: "'n oracle_config \<Rightarrow> block_number \<Rightarrow> oracle_price option \<Rightarrow> oracle_price list \<Rightarrow> bool" where
  "history_ok cfg n current h \<longleftrightarrow>
     length h \<le> MaxHistory cfg \<and> sorted_wrt (<) (map price_block h) \<and> (\<forall>p \<in> set h. price_block p \<le> n)
     \<and> current = (if h = [] then None else Some (last h))"

definition info_ok :: "'n oracle_config \<Rightarrow> oracle_asset_info \<Rightarrow> bool" where
  "info_ok cfg info \<longleftrightarrow>
     0 < min_answers info \<and> min_answers info \<le> max_answers info \<and> max_answers info \<le> MaxAnswerBound cfg
     \<and> threshold info < 100 \<and> StalePrice cfg < block_interval info"

definition oracle_books_ok :: "'n oracle_config \<Rightarrow> 'n oracle_state \<Rightarrow> bool" where
  "oracle_books_ok cfg s \<longleftrightarrow>
     (\<forall>c g. ControllerToSigner s c = Some g \<longleftrightarrow> SignerToController s g = Some c)
     \<and> (\<forall>a. answers_ok cfg (oracle_block s) (PrePrices s a))
     \<and> (\<forall>a. history_ok cfg (oracle_block s) (Prices s a) (PriceHistory s a))
     \<and> finite (dom (OracleAssetsInfo s)) \<and> AssetsCount s = card (dom (OracleAssetsInfo s))
     \<and> AssetsCount s \<le> MaxAssetsCount cfg \<and> (\<forall>a info. OracleAssetsInfo s a = Some info \<longrightarrow> info_ok cfg info)"

lemma oracle_books_ok_cong: "books s = books t \<Longrightarrow> oracle_books_ok cfg s = oracle_books_ok cfg t"
  by (simp add: books_def oracle_books_ok_def)

lemma sizes_ok_books_ok: "oracle_books_ok cfg s \<Longrightarrow> sizes_ok cfg s"
  by (simp add: oracle_books_ok_def sizes_ok_def answers_ok_def history_ok_def)

subsection \<open>A new block\<close>

lemma oracle_on_initialize_result:
  assumes cfg: "oracle_config_ok cfg" and ok: "oracle_books_ok cfg s" and n: "oracle_block s < n"
  obtains t where "oracle_on_initialize cfg n s = (Inr (), t)"
    and "\<And>a. asset_view a t = asset_view a (updated cfg n a s)"
    and "other_books t = other_books (s\<lparr>oracle_block := n\<rparr>)"
proof -
  let ?s = "s\<lparr>oracle_block := n\<rparr>"
  let ?as = "AssetsIter cfg (OracleAssetsInfo s)"
  have iter: "distinct ?as" "set ?as = dom (OracleAssetsInfo s)"
    using cfg ok by (auto simp: oracle_config_ok_def oracle_books_ok_def)
  have "sizes_ok cfg ?s" using sizes_ok_books_ok [OF ok] by (simp add: sizes_ok_def)
  then obtain t where t: "for_each ?as (update_asset cfg n) ?s = (Inr (), t)"
    "books t = books (fold (updated cfg n) ?as ?s)"
    using for_each_update [of cfg n ?s ?as] cfg n by (auto simp: oracle_config_ok_def)
  have "asset_view a t = asset_view a (updated cfg n a s)" for a
  proof -
    have "asset_view a t = asset_view a (fold (updated cfg n) ?as ?s)"
      using t(2) by (simp add: books_def asset_view_def)
    also have "\<dots> = asset_view a (updated cfg n a ?s)"
    proof (cases "a \<in> set ?as")
      case False
      then have "OracleAssetsInfo s a = None" using iter by auto
      then show ?thesis using False by (simp add: fold_updated_other updated_def)
    qed (use iter in \<open>simp add: fold_updated_view\<close>)
    also have "\<dots> = asset_view a (updated cfg n a s)"
      by (rule asset_view_cong) (simp add: asset_view_def)
    finally show ?thesis .
  qed
  moreover have "other_books t = other_books ?s"
    using t(2) other_books_fold [of cfg n ?as ?s] by (simp add: books_def other_books_def)
  ultimately show thesis
    using t(1) that by (simp add: oracle_on_initialize_def update_prices_def call_eval)
qed

lemma fresh_answers_sub:
  obtains before after where "pres = before @ fresh_answers cfg info block pres @ after"
  using takeWhile_dropWhile_id [of "\<lambda>p. pp_block p < block - StalePrice cfg" pres]
    append_take_drop_id [of "max_answers info" "dropWhile (\<lambda>p. pp_block p < block - StalePrice cfg) pres"]
  unfolding fresh_answers_def by metis

lemma answers_ok_infix: "answers_ok cfg m (before @ pres @ after) \<Longrightarrow> m \<le> n \<Longrightarrow> answers_ok cfg n pres"
  by (auto simp: answers_ok_def sorted_append intro: order_trans)

lemma answers_ok_fresh: "answers_ok cfg m pres \<Longrightarrow> m \<le> n \<Longrightarrow> answers_ok cfg n (fresh_answers cfg info block pres)"
  by (rule fresh_answers_sub [of pres cfg info block]) (metis answers_ok_infix)

lemma history_ok_pushed:
  assumes "history_ok cfg m current h" "m < n" "price_block p = n" "0 < MaxHistory cfg"
  shows "history_ok cfg n (Some p) (pushed cfg p h)"
proof -
  have "sorted_wrt (<) (map price_block (drop k h))" for k
    using assms(1) by (simp add: history_ok_def sorted_wrt_drop flip: drop_map)
  moreover have "q \<in> set (drop k h) \<Longrightarrow> price_block q < n" for q k
    using assms(1,2) set_drop_subset [of k h] by (fastforce simp: history_ok_def)
  ultimately show ?thesis
    using assms(1,3,4) length_pushed [of cfg h p]
    by (auto simp: history_ok_def pushed_def sorted_wrt_append intro: less_imp_le)
qed

lemma books_ok_on_initialize:
  assumes "oracle_config_ok cfg" "oracle_books_ok cfg s" "oracle_block s < n"
  shows "oracle_books_ok cfg (snd (oracle_on_initialize cfg n s))"
proof -
  obtain t where t: "oracle_on_initialize cfg n s = (Inr (), t)"
    "\<And>a. asset_view a t = asset_view a (updated cfg n a s)"
    "other_books t = other_books (s\<lparr>oracle_block := n\<rparr>)"
    by (rule oracle_on_initialize_result [OF assms]) auto
  have old: "answers_ok cfg n (PrePrices s a)" "history_ok cfg n (Prices s a) (PriceHistory s a)" for a
    using assms(2,3) by (fastforce simp: oracle_books_ok_def answers_ok_def history_ok_def)+
  have "answers_ok cfg n (PrePrices t a)" for a
    using t(2) [of a] old(1) [of a] answers_ok_fresh [OF old(1) order_refl]
    by (auto simp: asset_view_def updated_def Let_def answers_ok_def split: option.splits if_splits)
  moreover have "history_ok cfg n (Prices t a) (PriceHistory t a)" for a
    using t(2) [of a] old(2) [of a] history_ok_pushed [of cfg "oracle_block s" "Prices s a" "PriceHistory s a" n] assms
    by (auto simp: asset_view_def updated_def Let_def oracle_books_ok_def oracle_config_ok_def
        split: option.splits if_splits)
  ultimately show ?thesis
    using t(1,3) assms(2) by (simp add: oracle_books_ok_def other_books_def)
qed

subsection \<open>The calls\<close>

text \<open>Stakes, withdrawals, transit and events are no part of the books.\<close>

lemma books_other_fields [simp]:
  "books (s\<lparr>OracleStake := x\<rparr>) = books s"
  "books (s\<lparr>AnswerInTransit := y\<rparr>) = books s"
  "books (s\<lparr>DeclaredWithdraws := z\<rparr>) = books s"
  by (simp_all add: books_def)

lemmas oracle_call_wp = wp_simps on_oracle_currency_def oracle_deposit_event_def

lemma wp_do_add_stake:
  assumes "\<And>t. books t = books s \<Longrightarrow> Q () t" "\<And>e t. books t = books s \<Longrightarrow> E e t"
  shows "wp (do_add_stake cfg who signer stake) Q E s"
  by (auto simp: do_add_stake_def oracle_call_wp intro!: wp_any assms split: option.split)

lemma books_ok_add_stake:
  assumes "oracle_books_ok cfg s"
  shows "oracle_books_ok cfg (snd (add_stake cfg orig stake s))"
  unfolding add_stake_def wp_state [symmetric]
  using assms by (auto simp: wp_simps intro!: wp_do_add_stake cong: oracle_books_ok_cong
      split: option.split raw_origin.split)

lemma books_ok_add_asset:
  assumes "oracle_config_ok cfg" "oracle_books_ok cfg s"
    and "validate_threshold (threshold info) = Inr p" "validate_min_answers (min_answers info) = Inr mn"
    and "validate_max_answer cfg (max_answers info) = Inr mx"
    and "validate_block_interval cfg (block_interval info) = Inr bi"
  shows "oracle_books_ok cfg (snd (add_asset_and_info cfg orig a info s))"
proof -
  have info: "info_ok cfg info" if "min_answers info \<le> max_answers info"
    using that assms(3-6)
    by (auto simp: info_ok_def validate_threshold_def validate_min_answers_def validate_max_answer_def
        validate_block_interval_def split: if_splits)
  have "wrapping_add u32_max (AssetsCount s) 1 = Suc (AssetsCount s)" if "AssetsCount s < MaxAssetsCount cfg"
    using that assms(1) by (simp add: wrapping_add_def oracle_config_ok_def)
  then show ?thesis
    unfolding add_asset_and_info_def wp_state [symmetric] using assms(2) info
    by (auto simp: oracle_call_wp emit_def oracle_books_ok_def domIff insert_absorb)
qed

lemma books_ok_set_signer:
  assumes "oracle_books_ok cfg s"
  shows "oracle_books_ok cfg (snd (set_signer cfg orig signer s))"
  unfolding set_signer_def wp_state [symmetric]
  using assms by (auto simp: oracle_call_wp emit_def books_def oracle_books_ok_def intro!: wp_do_add_stake
      split: option.split raw_origin.split) (metis option.distinct(1))

lemma books_ok_remove_stake:
  assumes "oracle_books_ok cfg s"
  shows "oracle_books_ok cfg (snd (remove_stake cfg orig s))"
  unfolding remove_stake_def wp_state [symmetric]
  using assms by (auto simp: oracle_call_wp Let_def cong: oracle_books_ok_cong
      split: option.split raw_origin.split)

lemma books_ok_reclaim_stake:
  assumes "oracle_books_ok cfg s"
  shows "oracle_books_ok cfg (snd (reclaim_stake cfg orig s))"
  unfolding reclaim_stake_def wp_state [symmetric]
  using assms by (auto simp: oracle_call_wp emit_def oracle_books_ok_def intro!: wp_any
      split: option.split raw_origin.split) (metis option.inject)

lemma books_ok_submit_price:
  assumes "oracle_books_ok cfg s"
  shows "oracle_books_ok cfg (snd (submit_price cfg orig price a s))"
  unfolding submit_price_def wp_state [symmetric]
  using assms by (auto simp: oracle_call_wp emit_def oracle_books_ok_def answers_ok_def sorted_append list_ex_iff
      split: option.split raw_origin.split)

section \<open>Reachable states\<close>

definition oracle_genesis :: "block_number \<Rightarrow> 'n \<Rightarrow> 'n oracle_state" where
  "oracle_genesis n c =
     \<lparr>AssetsCount = 0, SignerToController = Map.empty, ControllerToSigner = Map.empty,
      DeclaredWithdraws = Map.empty, OracleStake = Map.empty, AnswerInTransit = Map.empty, Prices = Map.empty,
      PriceHistory = (\<lambda>_. []), PrePrices = (\<lambda>_. []), OracleAssetsInfo = Map.empty, oracle_events = [],
      oracle_block = n, oracle_currency = c\<rparr>"

text \<open>
  Blocks start, users call, whatever each call returns, and the currency changes at the hands of
  other pallets. The arguments of \<open>add_asset_and_info\<close> have passed their validators.
\<close>

inductive oracle_reach :: "'n oracle_config \<Rightarrow> 'n oracle_state \<Rightarrow> bool" for cfg where
  genesis: "oracle_reach cfg (oracle_genesis n c)"
| new_block: "oracle_reach cfg s \<Longrightarrow> oracle_block s < n \<Longrightarrow> oracle_reach cfg (snd (oracle_on_initialize cfg n s))"
| add_asset:
    "oracle_reach cfg s \<Longrightarrow> validate_threshold (threshold info) = Inr p \<Longrightarrow>
     validate_min_answers (min_answers info) = Inr mn \<Longrightarrow> validate_max_answer cfg (max_answers info) = Inr mx \<Longrightarrow>
     validate_block_interval cfg (block_interval info) = Inr bi \<Longrightarrow>
     oracle_reach cfg (snd (add_asset_and_info cfg orig a info s))"
| set_signer: "oracle_reach cfg s \<Longrightarrow> oracle_reach cfg (snd (set_signer cfg orig signer s))"
| add_stake: "oracle_reach cfg s \<Longrightarrow> oracle_reach cfg (snd (add_stake cfg orig stake s))"
| remove_stake: "oracle_reach cfg s \<Longrightarrow> oracle_reach cfg (snd (remove_stake cfg orig s))"
| reclaim_stake: "oracle_reach cfg s \<Longrightarrow> oracle_reach cfg (snd (reclaim_stake cfg orig s))"
| submit_price: "oracle_reach cfg s \<Longrightarrow> oracle_reach cfg (snd (submit_price cfg orig price a s))"
| currency_moves: "oracle_reach cfg s \<Longrightarrow> oracle_reach cfg (s\<lparr>oracle_currency := c\<rparr>)"

lemma books_ok_genesis: "oracle_books_ok cfg (oracle_genesis n c)"
  by (simp add: oracle_books_ok_def oracle_genesis_def answers_ok_def history_ok_def)

lemma reach_books_ok:
  assumes "oracle_config_ok cfg" "oracle_reach cfg s"
  shows "oracle_books_ok cfg s"
  using assms(2)
proof induction
  case (currency_moves s c)
  then show ?case by (simp add: oracle_books_ok_def)
next
  case (new_block s n)
  then show ?case by (intro books_ok_on_initialize assms(1))
next
  case add_asset
  then show ?case by (intro books_ok_add_asset assms(1))
qed (simp_all add: books_ok_genesis books_ok_set_signer books_ok_add_stake books_ok_remove_stake
     books_ok_reclaim_stake books_ok_submit_price)

section \<open>A concrete oracle\<close>

definition sample_oracle :: "lock_book oracle_config" where
  "sample_oracle =
     \<lparr>OracleCurrency = book_native, AddOracle = (\<lambda>orig. orig = RootOrigin), MinStake = 1, StakeLock = 1,
      StalePrice = 5, MaxAnswerBound = 25, MaxAssetsCount = 15, MaxHistory = 20, MaxPrePrices = 40,
      OracleDecimals = (\<lambda>_. Inr 12), PercentFromRational = (\<lambda>p q. if q = 0 then 100 else min 100 (p * 100 div q)),
      OracleMulDiv = reference_mul_div, FixedFromInteger = (\<lambda>n. n), FixedDiv = (\<lambda>a b. checked_div a b),
      AssetsIter = (\<lambda>m. sorted_list_of_set (dom m))\<rparr>"

definition sample_info :: oracle_asset_info where
  "sample_info = \<lparr>threshold = 80, min_answers = 1, max_answers = 3, block_interval = 6, reward = 5, slash = 7\<rparr>"

definition sample_money :: lock_book where
  "sample_money = \<lparr>free = (\<lambda>_ _. 100), held = (\<lambda>_ _. 0), locks = (\<lambda>_ _ _. 0)\<rparr>"

definition sample_listed :: "lock_book oracle_state" where
  "sample_listed = snd (add_asset_and_info sample_oracle RootOrigin 7 sample_info (oracle_genesis 10 sample_money))"

definition sample_signed :: "lock_book oracle_state" where
  "sample_signed = snd (set_signer sample_oracle (SignedOrigin 1) 2 sample_listed)"

definition sample_answered :: "lock_book oracle_state" where
  "sample_answered = snd (submit_price sample_oracle (SignedOrigin 2) 42 7 sample_signed)"

lemma sample_oracle_ok: "oracle_config_ok sample_oracle"
  by (simp add: oracle_config_ok_def sample_oracle_def u32_max_def)

lemma sample_reach: "oracle_reach sample_oracle sample_answered"
  unfolding sample_answered_def sample_signed_def sample_listed_def
  by (rule oracle_reach.submit_price, rule oracle_reach.set_signer,
      rule oracle_reach.add_asset [OF oracle_reach.genesis])
     (auto simp: sample_info_def sample_oracle_def validate_threshold_def validate_min_answers_def
        validate_max_answer_def validate_block_interval_def)

lemma sample_answers:
  "PrePrices sample_answered 7 = [\<lparr>pp_price = 42, pp_block = 10, pp_who = 2\<rparr>]"
  "OracleAssetsInfo sample_answered 7 = Some sample_info" "oracle_block sample_answered = 10"
  "Prices sample_answered 7 = None"
  by (simp_all add: sample_answered_def sample_signed_def sample_listed_def submit_price_def set_signer_def
      add_asset_and_info_def do_add_stake_def oracle_genesis_def sample_oracle_def sample_info_def sample_money_def
      call_eval on_oracle_currency_def oracle_deposit_event_def emit_def is_requested_def prices_def book_defs
      book_reserve_def moved_def credited_def debited_def checked_add_def saturating_add_def wrapping_add_def
      u128_max_def u32_max_def)

section \<open>Where the code departs from its intent\<close>

text \<open>\<open>10 ^ decimals\<close> of \<open>get_ratio\<close> and \<open>get_price_inverse\<close> is no power of ten.\<close>

lemma ten_xor_twelve: "ten_xor 12 = 6"
  by (simp add: ten_xor_def)

text \<open>Pruning frees the stake held for the first fresh answer, and not for the stale one it drops.\<close>

lemma prune_releases_fresh_author:
  fixes s :: "lock_book oracle_state"
  assumes "AnswerInTransit s = [1 \<mapsto> 7, 2 \<mapsto> 7]"
  shows "case prune_old_pre_prices sample_oracle sample_info
           [\<lparr>pp_price = 5, pp_block = 1, pp_who = 1\<rparr>, \<lparr>pp_price = 5, pp_block = 10, pp_who = 2\<rparr>] 11 s of
         ((staled, fresh), t) \<Rightarrow> map pp_who staled = [1] \<and> map pp_who fresh = [2]
           \<and> AnswerInTransit t 1 = Some 7 \<and> AnswerInTransit t 2 = Some 0"
  using assms by (simp add: prune_old_pre_prices_def sample_oracle_def sample_info_def saturating_sub_def
      remove_price_in_transit_def)

text \<open>A second \<open>remove_stake\<close> replaces the first withdrawal, whose stake stays reserved.\<close>

lemma remove_stake_replaces_withdrawal:
  assumes "remove_stake cfg (SignedOrigin who) s = (Inr x, t)" "ControllerToSigner s who = Some signer"
  shows "map_option withdraw_stake (DeclaredWithdraws t signer) = OracleStake s signer"
  using assms by (auto simp: remove_stake_def ok_simps Let_def oracle_deposit_event_def emit_def)

text \<open>A reclaim that ends in \<open>TransferError\<close> has forgotten the withdrawal.\<close>

lemma reclaim_error_forgets_withdrawal:
  assumes "reclaim_stake cfg (SignedOrigin who) s = (Inl (OracleErr TransferError), t)"
    and "ControllerToSigner s who = Some signer"
  shows "DeclaredWithdraws t signer = None"
proof -
  have "wp (reclaim_stake cfg (SignedOrigin who)) (\<lambda>_ _. True)
      (\<lambda>e t. e = OracleErr TransferError \<longrightarrow> DeclaredWithdraws t signer = None) s"
    using assms(2) by (auto simp: reclaim_stake_def oracle_call_wp intro!: wp_any split: option.split)
  then show ?thesis using assms(1) by (simp add: wp_def)
qed

section \<open>Properties\<close>

text \<open>
  C12. When more than half of the answers for an asset lie in an interval, the price the oracle
  computes lies in it, whatever the others answered.
\<close>

theorem median_majority:
  assumes "length pres < 2 * length (filter (\<lambda>p. lo \<le> pp_price p \<and> pp_price p \<le> hi) pres)"
    and "2 * lo \<le> u128_max"
  shows "\<exists>m. get_median_price pres = Some m \<and> lo \<le> m \<and> m \<le> hi"
  using assms by (rule median_inside)

theorem median_majority_witness:
  "\<exists>m. get_median_price [\<lparr>pp_price = 90, pp_block = 1, pp_who = 1\<rparr>, \<lparr>pp_price = 0, pp_block = 1, pp_who = 2\<rparr>,
          \<lparr>pp_price = 100, pp_block = 2, pp_who = 3\<rparr>, \<lparr>pp_price = 95, pp_block = 2, pp_who = 4\<rparr>] = Some m
     \<and> 90 \<le> m \<and> m \<le> 100"
  by (rule median_majority) (simp_all add: u128_max_def)

text \<open>
  C8. In every reachable state the tables of the oracle are consistent: controllers and signers
  are each other's inverse; the answers for an asset come from different signers, in the order of
  their blocks, and are bounded in number; the history of an asset is bounded, has strictly
  increasing blocks and ends in the current price; the count of the assets is exact and below its
  bound, and the parameters of every asset are valid.
\<close>

theorem oracle_tables_consistent:
  assumes "oracle_config_ok cfg" "oracle_reach cfg s"
  shows "oracle_books_ok cfg s"
  using assms by (rule reach_books_ok)

theorem oracle_tables_consistent_witness: "oracle_books_ok sample_oracle sample_answered"
  using sample_oracle_ok sample_reach by (rule oracle_tables_consistent)

text \<open>
  C21. At the start of a block the hook neither fails nor panics. An asset with enough fresh
  answers gets their median as its price, dated with the block, which also ends its history, and
  its answers are used up; with enough answers but too few fresh ones the stale ones are dropped
  and the price stays; with too few answers nothing changes.
\<close>

theorem price_published:
  assumes "oracle_config_ok cfg" "oracle_reach cfg s" "oracle_block s < n" "OracleAssetsInfo s a = Some info"
  shows "\<exists>t. oracle_on_initialize cfg n s = (Inr (), t)
     \<and> (let pres = PrePrices s a; fresh = fresh_answers cfg info n pres in
        if min_answers info \<le> length pres \<and> min_answers info \<le> length fresh then
          (\<exists>m. get_median_price fresh = Some m \<and> Prices t a = Some \<lparr>price_value = m, price_block = n\<rparr>
             \<and> last (PriceHistory t a) = \<lparr>price_value = m, price_block = n\<rparr>) \<and> PrePrices t a = []
        else Prices t a = Prices s a \<and> PriceHistory t a = PriceHistory s a
          \<and> PrePrices t a = (if min_answers info \<le> length pres then fresh else pres))"
proof -
  have ok: "oracle_books_ok cfg s" using assms(1,2) by (rule reach_books_ok)
  obtain t where t: "oracle_on_initialize cfg n s = (Inr (), t)"
    "\<And>b. asset_view b t = asset_view b (updated cfg n b s)"
    by (rule oracle_on_initialize_result [OF assms(1) ok assms(3)]) auto
  have "0 < min_answers info" using ok assms(4) by (auto simp: oracle_books_ok_def info_ok_def)
  then have "publishes cfg info n (PrePrices s a) \<longleftrightarrow> min_answers info \<le> length (PrePrices s a)
      \<and> min_answers info \<le> length (fresh_answers cfg info n (PrePrices s a))"
    by (auto simp: publishes_def)
  moreover have "get_median_price (fresh_answers cfg info n (PrePrices s a)) =
      Some (the (get_median_price (fresh_answers cfg info n (PrePrices s a))))"
    if "publishes cfg info n (PrePrices s a)"
    using that by (simp add: publishes_def get_median_price_def Let_def)
  ultimately show ?thesis
    using t(1) t(2) [of a] assms(4)
    by (cases "publishes cfg info n (PrePrices s a)") (simp_all add: asset_view_def updated_def Let_def pushed_def)
qed

theorem price_published_witness:
  "\<exists>t. oracle_on_initialize sample_oracle 11 sample_answered = (Inr (), t)
     \<and> Prices t 7 = Some \<lparr>price_value = 42, price_block = 11\<rparr> \<and> PrePrices t 7 = []"
proof -
  have "fresh_answers sample_oracle sample_info 11 (PrePrices sample_answered 7) = PrePrices sample_answered 7"
    by (simp add: sample_answers sample_info_def fresh_answers_def sample_oracle_def)
  then show ?thesis
    using price_published [OF sample_oracle_ok sample_reach, of 11 7 sample_info]
    by (auto simp: sample_answers sample_info_def get_median_price_def)
qed

end
