(* ===== verification/Defi.thy ===== *)
theory Defi
  imports Prelude
begin

text \<open>
  Orders and prices that the exchange pallets share (frame/composable-traits/src/defi.rs, time.rs)
  and the price curves of an auction (frame/dutch-auction/src/math.rs). A \<open>FixedU128\<close> is the
  number of its \<open>1/10^18\<close> parts; its arithmetic is code outside the repository and a parameter.
\<close>

section \<open>Fixed-point numbers\<close>

type_synonym fixed_u128 = nat

definition fixed_div :: nat where
  "fixed_div = 10 ^ 18"

text \<open>
  \<open>checked_mul\<close>, \<open>checked_div\<close> and \<open>checked_from_integer\<close> of \<open>FixedU128\<close>; \<open>saturating_pow\<close> of
  \<open>Permill\<close> and the conversion of a \<open>Permill\<close>, in parts per million, to a \<open>FixedU128\<close>.
\<close>

record fixed_ops =
  fx_mul :: "fixed_u128 \<Rightarrow> fixed_u128 \<Rightarrow> fixed_u128 option"
  fx_div :: "fixed_u128 \<Rightarrow> fixed_u128 \<Rightarrow> fixed_u128 option"
  fx_from_integer :: "nat \<Rightarrow> fixed_u128 option"
  permill_pow :: "nat \<Rightarrow> nat \<Rightarrow> nat"
  permill_to_fixed :: "nat \<Rightarrow> fixed_u128"

definition fits :: "nat \<Rightarrow> nat option" where
  "fits n = (if n \<le> u128_max then Some n else None)"

text \<open>
  What they promise: products and quotients rounded down, or nothing when the result does not
  fit; a power of a proportion is a proportion that falls with the exponent.
\<close>

definition exact_fixed :: "'a fixed_ops_scheme \<Rightarrow> bool" where
  "exact_fixed F \<longleftrightarrow>
     (\<forall>a b. fx_mul F a b = fits (a * b div fixed_div))
     \<and> (\<forall>a b. 0 < b \<longrightarrow> fx_div F a b = fits (a * fixed_div div b))
     \<and> (\<forall>n. fx_from_integer F n = fits (n * fixed_div))
     \<and> (\<forall>c n m. c \<le> 10 ^ 6 \<longrightarrow> n \<le> m \<longrightarrow> permill_pow F c m \<le> permill_pow F c n)
     \<and> (\<forall>c n. c \<le> 10 ^ 6 \<longrightarrow> permill_pow F c n \<le> 10 ^ 6)
     \<and> (\<forall>p. permill_to_fixed F p = p * 10 ^ 12)"

definition reference_fixed :: fixed_ops where
  "reference_fixed =
     \<lparr>fx_mul = (\<lambda>a b. fits (a * b div fixed_div)),
      fx_div = (\<lambda>a b. if b = 0 then None else fits (a * fixed_div div b)),
      fx_from_integer = (\<lambda>n. fits (n * fixed_div)),
      permill_pow = (\<lambda>c n. (if c < 10 ^ 6 \<and> 0 < n then 0 else 10 ^ 6)),
      permill_to_fixed = (\<lambda>p. p * 10 ^ 12)\<rparr>"

lemma exact_reference_fixed: "exact_fixed reference_fixed"
  by (auto simp: exact_fixed_def reference_fixed_def)

text \<open>\<open>SafeArithmetic\<close> at \<open>FixedU128\<close>.\<close>

definition fx_safe_mul :: "'a fixed_ops_scheme \<Rightarrow> fixed_u128 \<Rightarrow> fixed_u128 \<Rightarrow> arithmetic_error + fixed_u128" where
  "fx_safe_mul F a b = (case fx_mul F a b of None \<Rightarrow> Inl arithmetic_error.Overflow | Some c \<Rightarrow> Inr c)"

definition fx_safe_div :: "'a fixed_ops_scheme \<Rightarrow> fixed_u128 \<Rightarrow> fixed_u128 \<Rightarrow> arithmetic_error + fixed_u128" where
  "fx_safe_div F a b =
     (if b = 0 then Inl DivisionByZero
      else case fx_div F a b of None \<Rightarrow> Inl arithmetic_error.Overflow | Some c \<Rightarrow> Inr c)"

section \<open>Orders\<close>

record take =
  take_amount :: balance
  take_limit :: fixed_u128

definition take_is_valid :: "take \<Rightarrow> bool" where
  "take_is_valid t = (0 < take_amount t \<and> 0 < take_limit t)"

definition quote_amount :: "mul_div \<Rightarrow> take \<Rightarrow> balance \<Rightarrow> arithmetic_error + balance" where
  "quote_amount md t amount =
     (case md amount (take_limit t) fixed_div of
        None \<Rightarrow> Inl arithmetic_error.Overflow
      | Some q \<Rightarrow> if u128_max < q then Inl arithmetic_error.Overflow else Inr q)"

definition quote_limit_amount :: "mul_div \<Rightarrow> take \<Rightarrow> arithmetic_error + balance" where
  "quote_limit_amount md t = quote_amount md t (take_amount t)"

record currency_pair =
  base :: asset_id
  quote :: asset_id

definition pair_eq :: "currency_pair \<Rightarrow> currency_pair \<Rightarrow> bool" where
  "pair_eq p q = ((base p = base q \<and> quote p = quote q) \<or> (base p = quote q \<and> quote p = base q))"

definition pair_swap :: "currency_pair \<Rightarrow> currency_pair" where
  "pair_swap p = \<lparr>base = quote p, quote = base p\<rparr>"

record sell =
  sell_pair :: currency_pair
  sell_take :: take

definition sell_is_valid :: "sell \<Rightarrow> bool" where
  "sell_is_valid x = take_is_valid (sell_take x)"

definition sell_new :: "asset_id \<Rightarrow> asset_id \<Rightarrow> balance \<Rightarrow> fixed_u128 \<Rightarrow> sell" where
  "sell_new b q base_amount minimal_base_unit_price_in_quote =
     \<lparr>sell_pair = \<lparr>base = b, quote = q\<rparr>,
      sell_take = \<lparr>take_amount = base_amount, take_limit = minimal_base_unit_price_in_quote\<rparr>\<rparr>"

section \<open>Price curves\<close>

record linear_decrease =
  ld_total :: nat

record stairstep_exponential_decrease =
  se_step :: nat
  se_cut :: nat

datatype time_release_function =
    LinearDecrease linear_decrease
  | StairstepExponentialDecrease stairstep_exponential_decrease

definition linear_price :: "fixed_ops \<Rightarrow> linear_decrease \<Rightarrow> fixed_u128 \<Rightarrow> nat \<Rightarrow> arithmetic_error + fixed_u128" where
  "linear_price F x initial_price passed =
     (if ld_total x \<le> passed then Inr 0
      else
        case fx_from_integer F (saturating_sub (ld_total x) passed) of
          None \<Rightarrow> Inl arithmetic_error.Underflow
        | Some left \<Rightarrow>
            (case fx_safe_mul F initial_price left of
               Inl e \<Rightarrow> Inl e
             | Inr p \<Rightarrow>
                 (case fx_from_integer F (ld_total x) of
                    None \<Rightarrow> Inl arithmetic_error.Overflow
                  | Some whole \<Rightarrow> fx_safe_div F p whole)))"

definition stairstep_price ::
  "fixed_ops \<Rightarrow> stairstep_exponential_decrease \<Rightarrow> fixed_u128 \<Rightarrow> nat \<Rightarrow> arithmetic_error + fixed_u128" where
  "stairstep_price F x initial_price passed =
     (case safe_div passed (se_step x) of
        Inl e \<Rightarrow> Inl e
      | Inr n \<Rightarrow> fx_safe_mul F initial_price (permill_to_fixed F (permill_pow F (se_cut x) n)))"

definition curve_price :: "fixed_ops \<Rightarrow> time_release_function \<Rightarrow> fixed_u128 \<Rightarrow> nat \<Rightarrow> arithmetic_error + fixed_u128" where
  "curve_price F f initial_price passed =
     (case f of
        LinearDecrease x \<Rightarrow> linear_price F x initial_price passed
      | StairstepExponentialDecrease x \<Rightarrow> stairstep_price F x initial_price passed)"

section \<open>The curves fall\<close>

lemma fits_mono: "fits m = Some m' \<Longrightarrow> n \<le> m \<Longrightarrow> fits n = Some n"
  by (auto simp: fits_def split: if_splits)

lemma fits_Some: "fits m = Some n \<longleftrightarrow> n = m \<and> m \<le> u128_max"
  by (auto simp: fits_def)

text \<open>The linear curve is the initial price times the time left over the whole time.\<close>

lemma linear_price_reference:
  assumes "exact_fixed F" "passed < ld_total x" "p \<le> u128_max"
  shows "linear_price F x p passed =
     (if u128_max < (ld_total x - passed) * fixed_div then Inl arithmetic_error.Underflow
      else if u128_max < p * (ld_total x - passed) then Inl arithmetic_error.Overflow
      else if u128_max < ld_total x * fixed_div then Inl arithmetic_error.Overflow
      else Inr (p * (ld_total x - passed) div ld_total x))"
proof -
  have mult: "a * (b * fixed_div) div fixed_div = a * b" for a b by (simp add: fixed_div_def)
  have quot: "a * fixed_div div (b * fixed_div) = a div b" for a b by (simp add: fixed_div_def)
  have "p * (ld_total x - passed) div ld_total x \<le> p"
    using assms(2) by (metis diff_le_self div_le_mono mult_le_mono2 nonzero_mult_div_cancel_right
        not_less_zero mult_div_mod_eq mult_0_right)
  then show ?thesis
    using assms
    by (auto simp: linear_price_def exact_fixed_def fits_def saturating_sub_def fx_safe_mul_def fx_safe_div_def
        mult quot)
       (auto simp: fixed_div_def)
qed

lemma linear_price_falls:
  assumes "exact_fixed F" "p \<le> u128_max" "d \<le> d'" "linear_price F x p d = Inr q"
  shows "q \<le> p \<and> (\<exists>q'. linear_price F x p d' = Inr q' \<and> q' \<le> q)"
proof (cases "d' < ld_total x")
  case False
  have "q \<le> p"
  proof (cases "d < ld_total x")
    case True
    then have "q = p * (ld_total x - d) div ld_total x"
      using assms linear_price_reference [OF assms(1) True assms(2)] by (auto split: if_splits)
    also have "\<dots> \<le> p * ld_total x div ld_total x" by (intro div_le_mono mult_le_mono2) simp
    finally show ?thesis using True by simp
  qed (use assms in \<open>simp add: linear_price_def\<close>)
  then show ?thesis using False by (simp add: linear_price_def)
next
  case True
  then have d: "d < ld_total x" using assms(3) by simp
  have le: "ld_total x - d' \<le> ld_total x - d" using assms(3) by simp
  have q: "q = p * (ld_total x - d) div ld_total x" "p * (ld_total x - d) \<le> u128_max"
    "(ld_total x - d) * fixed_div \<le> u128_max" "ld_total x * fixed_div \<le> u128_max"
    using assms linear_price_reference [OF assms(1) d assms(2)] by (auto split: if_splits)
  then have "linear_price F x p d' = Inr (p * (ld_total x - d') div ld_total x)"
    using linear_price_reference [OF assms(1) True assms(2)] mult_le_mono2 [OF le, of p] mult_le_mono1 [OF le, of fixed_div]
    by (auto simp: not_less)
  moreover have "p * (ld_total x - d') div ld_total x \<le> q"
    unfolding q(1) using le by (intro div_le_mono mult_le_mono2)
  moreover have "q \<le> p * ld_total x div ld_total x"
    unfolding q(1) by (intro div_le_mono mult_le_mono2) simp
  ultimately show ?thesis using d by simp
qed

lemma stairstep_price_falls:
  assumes F: "exact_fixed F" and p: "p \<le> u128_max" and "d \<le> d'" and cut: "se_cut x \<le> 10 ^ 6"
    and ok: "stairstep_price F x p d = Inr q"
  shows "q \<le> p \<and> (\<exists>q'. stairstep_price F x p d' = Inr q' \<and> q' \<le> q)"
proof -
  let ?m = "\<lambda>d. permill_pow F (se_cut x) (d div se_step x) * 10 ^ 12"
  have step: "se_step x \<noteq> 0"
    using ok by (auto simp: stairstep_price_def safe_div_def split: if_splits)
  have price: "stairstep_price F x p e =
      (case fits (p * ?m e div fixed_div) of None \<Rightarrow> Inl arithmetic_error.Overflow | Some c \<Rightarrow> Inr c)" for e
    using F step by (simp add: stairstep_price_def safe_arith_defs fx_safe_mul_def exact_fixed_def)
  have "permill_pow F (se_cut x) (d' div se_step x) \<le> permill_pow F (se_cut x) (d div se_step x)"
    using F cut div_le_mono [OF \<open>d \<le> d'\<close>] by (simp add: exact_fixed_def)
  then have "p * ?m d' div fixed_div \<le> p * ?m d div fixed_div"
    by (intro div_le_mono mult_le_mono) auto
  moreover have "?m d \<le> fixed_div"
    using F cut by (simp add: exact_fixed_def fixed_div_def)
  then have "p * ?m d div fixed_div \<le> p * fixed_div div fixed_div"
    by (intro div_le_mono mult_le_mono2)
  then have "p * ?m d div fixed_div \<le> p" by (simp add: fixed_div_def)
  ultimately show ?thesis
    using ok p by (auto simp: price fits_def split: option.splits if_splits)
qed

text \<open>
  The price of an auction never rises: it starts at most at the initial price, exactly there
  for the linear curve, at any later time it can still be computed and is no higher, and the
  linear curve is at zero once its time is over.
\<close>

theorem auction_price_falls:
  assumes "exact_fixed F" "p \<le> u128_max" "d \<le> d'" "curve_price F f p d = Inr q"
    and "\<forall>x. f = StairstepExponentialDecrease x \<longrightarrow> se_cut x \<le> 10 ^ 6"
  shows "q \<le> p \<and> (\<exists>q'. curve_price F f p d' = Inr q' \<and> q' \<le> q)
     \<and> (\<forall>x. f = LinearDecrease x \<longrightarrow> (d = 0 \<and> 0 < ld_total x \<longrightarrow> q = p) \<and> (ld_total x \<le> d \<longrightarrow> q = 0))"
proof (cases f)
  case (LinearDecrease x)
  have "q = p" if "d = 0" "0 < ld_total x"
    using that assms LinearDecrease linear_price_reference [OF assms(1) _ assms(2), of d x]
    by (auto simp: curve_price_def split: if_splits)
  then show ?thesis
    using linear_price_falls [OF assms(1-3), of x q] assms(4) LinearDecrease
    by (auto simp: curve_price_def linear_price_def)
next
  case (StairstepExponentialDecrease x)
  then show ?thesis
    using stairstep_price_falls [OF assms(1-3), of x q] assms(4,5) by (simp add: curve_price_def)
qed

theorem auction_price_falls_witness:
  "\<exists>q'. curve_price reference_fixed (LinearDecrease \<lparr>ld_total = 600\<rparr>) (1000 * fixed_div) 540 = Inr q'
     \<and> q' \<le> 500 * fixed_div"
proof -
  have "curve_price reference_fixed (LinearDecrease \<lparr>ld_total = 600\<rparr>) (1000 * fixed_div) 300 = Inr (500 * fixed_div)"
    by (simp add: curve_price_def linear_price_def reference_fixed_def fits_def fixed_div_def u128_max_def
        saturating_sub_def fx_safe_mul_def fx_safe_div_def)
  then show ?thesis
    using auction_price_falls [OF exact_reference_fixed, of "1000 * fixed_div" 300 540] by (simp add: fixed_div_def u128_max_def)
qed

end
