(* ===== verification/Dutch_Auction.thy ===== *)
theory Dutch_Auction
  imports Defi Assets_Orml
begin

text \<open>
  The dutch auction pallet (frame/dutch-auction). A seller reserves an amount and asks at least a
  price for it; takes of a block are collected with their funds reserved and settled when the
  block is finalized, the highest limits first. The currencies, the fee of an order and the order
  in which a storage map is iterated are code outside the repository and fields of the
  configuration.
\<close>

section \<open>Data\<close>

type_synonym order_id = nat

record auction_context =
  added_at :: nat
  auction_deposit :: balance

record sell_order =
  sell_from_to :: account_id
  sell_order :: sell
  sell_configuration :: time_release_function
  sell_context :: auction_context

record take_order =
  take_from_to :: account_id
  taken :: take

datatype auction_event =
    OrderAdded order_id sell_order
  | OrderRemoved order_id

text \<open>
  \<open>AuctionCurrency\<close> is \<open>MultiCurrency\<close>, \<open>AuctionNativeTransfer\<close> the transfer of \<open>NativeCurrency\<close>,
  which moves funds of the same ledger; \<open>AuctionFee\<close> is \<open>WeightToFee::calc\<close> of the weight of
  \<open>liquidate\<close>, and \<open>AuctionTreasury\<close> the account of the pallet.
\<close>

record 'c auction_config =
  AuctionCurrency :: "'c multi_currency"
  AuctionNativeTransfer :: "account_id \<Rightarrow> account_id \<Rightarrow> balance \<Rightarrow> bool \<Rightarrow> ('c, balance) call"
  AuctionFee :: balance
  AuctionTreasury :: account_id
  AuctionMulDiv :: mul_div
  AuctionFixed :: fixed_ops
  OrderIdMax :: nat
  TakesIter :: "(order_id \<rightharpoonup> take_order list) \<Rightarrow> order_id list"

record 'c auction_state =
  OrdersIndex :: order_id
  SellOrders :: "order_id \<rightharpoonup> sell_order"
  Takes :: "order_id \<rightharpoonup> take_order list"
  auction_events :: "auction_event list"
  auction_now :: nat
  auction_currency :: 'c

definition on_auction_currency :: "('c, 'a) call \<Rightarrow> ('c auction_state, 'a) call" where
  "on_auction_currency m = zoom auction_currency (\<lambda>c s. s\<lparr>auction_currency := c\<rparr>) m"

definition auction_unreserve ::
  "'c auction_config \<Rightarrow> asset_id \<Rightarrow> account_id \<Rightarrow> balance \<Rightarrow> ('c auction_state, unit) call" where
  "auction_unreserve cfg a who n =
     modifies (\<lambda>s. s\<lparr>auction_currency := snd (l_unreserve (AuctionCurrency cfg) a who n (auction_currency s))\<rparr>)"

definition auction_deposit_event :: "auction_event \<Rightarrow> ('c auction_state, unit) call" where
  "auction_deposit_event e = modifies (\<lambda>s. s\<lparr>auction_events := auction_events s @ [e]\<rparr>)"

section \<open>The sell engine\<close>

definition engine_ask ::
  "'c auction_config \<Rightarrow> account_id \<Rightarrow> sell \<Rightarrow> time_release_function \<Rightarrow> ('c auction_state, order_id) call" where
  "engine_ask cfg from_to sell configuration =
     thenM (ensure (sell_is_valid sell) (DutchAuctionErr OrderParametersIsInvalid))
    (thenM (modifies (\<lambda>s. s\<lparr>OrdersIndex := wrapping_next (OrderIdMax cfg) (OrdersIndex s)\<rparr>))
    (bindM (reads OrdersIndex) (\<lambda>order_id.
     thenM (map_err (\<lambda>_. DutchAuctionErr NotEnoughNativeCurrentyToPayForAuction)
              (on_auction_currency (AuctionNativeTransfer cfg from_to (AuctionTreasury cfg) (AuctionFee cfg) True)))
    (bindM (reads auction_now) (\<lambda>now.
     let x = \<lparr>sell_from_to = from_to, sell_order = sell, sell_configuration = configuration,
              sell_context = \<lparr>added_at = now, auction_deposit = AuctionFee cfg\<rparr>\<rparr> in
     thenM (on_auction_currency (l_reserve (AuctionCurrency cfg) (base (sell_pair sell)) from_to
              (take_amount (sell_take sell))))
    (thenM (modifies (\<lambda>s. s\<lparr>SellOrders := (SellOrders s)(order_id \<mapsto> x)\<rparr>))
      (ret order_id)))))))"

definition engine_take ::
  "'c auction_config \<Rightarrow> account_id \<Rightarrow> order_id \<Rightarrow> take \<Rightarrow> ('c auction_state, unit) call" where
  "engine_take cfg from_to order_id tk =
     thenM (ensure (take_is_valid tk) (DutchAuctionErr TakeParametersIsInvalid))
    (bindM (reads (\<lambda>s. SellOrders s order_id)) (\<lambda>v.
     bindM (ok_or v (DutchAuctionErr RequestedOrderDoesNotExists)) (\<lambda>x.
     let limit = take_limit (sell_take (sell_order x)) in
     thenM (ensure (limit \<le> take_limit tk) (DutchAuctionErr TakeLimitDoesNotSatisfiesOrder))
    (bindM (reads auction_now) (\<lambda>now.
     let passed = wrapping_sub u64_max now (added_at (sell_context x)) in
     thenM (lift_arith (curve_price (AuctionFixed cfg) (sell_configuration x) limit passed))
    (bindM (lift_arith (quote_limit_amount (AuctionMulDiv cfg) tk)) (\<lambda>quote_amount.
     thenM (on_auction_currency (l_reserve (AuctionCurrency cfg) (quote (sell_pair (sell_order x))) from_to quote_amount))
       (modifies (\<lambda>s. s\<lparr>Takes := (Takes s)(order_id \<mapsto>
          (case Takes s order_id of None \<Rightarrow> [] | Some ts \<Rightarrow> ts) @ [\<lparr>take_from_to = from_to, taken = tk\<rparr>])\<rparr>)))))))))"

section \<open>Dispatchables\<close>

definition auction_ask ::
  "'c auction_config \<Rightarrow> raw_origin \<Rightarrow> sell \<Rightarrow> time_release_function \<Rightarrow> ('c auction_state, unit) call" where
  "auction_ask cfg orig sell configuration =
     bindM (ensure_signed orig) (\<lambda>who.
     bindM (engine_ask cfg who sell configuration) (\<lambda>order_id.
     bindM (reads (\<lambda>s. SellOrders s order_id)) (\<lambda>v.
     bindM (ok_or v (Panic ''just added order exists'')) (\<lambda>x.
     auction_deposit_event (OrderAdded order_id x)))))"

definition auction_take :: "'c auction_config \<Rightarrow> raw_origin \<Rightarrow> order_id \<Rightarrow> take \<Rightarrow> ('c auction_state, unit) call" where
  "auction_take cfg orig order_id tk = bindM (ensure_signed orig) (\<lambda>who. engine_take cfg who order_id tk)"

definition auction_liquidate :: "'c auction_config \<Rightarrow> raw_origin \<Rightarrow> order_id \<Rightarrow> ('c auction_state, unit) call" where
  "auction_liquidate cfg orig order_id =
     bindM (ensure_signed orig) (\<lambda>who.
     bindM (reads (\<lambda>s. SellOrders s order_id)) (\<lambda>v.
     bindM (ok_or v (DutchAuctionErr OrderNotFound)) (\<lambda>x.
     thenM (ensure (sell_from_to x = who) BadOrigin)
    (thenM (auction_unreserve cfg (base (sell_pair (sell_order x))) who (take_amount (sell_take (sell_order x))))
    (thenM (on_auction_currency (AuctionNativeTransfer cfg (AuctionTreasury cfg) (sell_from_to x)
              (auction_deposit (sell_context x)) True))
    (thenM (modifies (\<lambda>s. s\<lparr>SellOrders := (SellOrders s)(order_id := None)\<rparr>))
      (auction_deposit_event (OrderRemoved order_id))))))))"

section \<open>Settlement\<close>

definition exchange_reserved ::
  "'c auction_config \<Rightarrow> asset_id \<Rightarrow> account_id \<Rightarrow> balance \<Rightarrow> asset_id \<Rightarrow> account_id \<Rightarrow> balance \<Rightarrow>
     ('c auction_state, unit) call" where
  "exchange_reserved cfg b seller base_amount q taker paid =
     thenM (auction_unreserve cfg b seller base_amount)
    (thenM (auction_unreserve cfg q taker paid)
    (thenM (on_auction_currency (l_transfer (AuctionCurrency cfg) b seller taker base_amount))
      (on_auction_currency (l_transfer (AuctionCurrency cfg) q taker seller paid))))"

text \<open>\<open>expect\<close>: an error at this point aborts the block.\<close>

definition expects :: "string \<Rightarrow> ('s, 'a) call \<Rightarrow> ('s, 'a) call" where
  "expects msg m = map_err (\<lambda>_. Panic msg) m"

text \<open>
  The takes of an order, one after the other. \<open>amount\<close> is what is left of the order; the value
  returned is what is left after the last take.
\<close>

fun settle_takes ::
  "'c auction_config \<Rightarrow> currency_pair \<Rightarrow> account_id \<Rightarrow> balance \<Rightarrow> take_order list \<Rightarrow> ('c auction_state, balance) call" where
  "settle_takes cfg pair seller amount [] = ret amount"
| "settle_takes cfg pair seller amount (t # ts) =
     bindM (expects ''was checked in take call'' (lift_arith (quote_limit_amount (AuctionMulDiv cfg) (taken t)))) (\<lambda>quote_amount.
     if amount = 0 then
       thenM (auction_unreserve cfg (quote pair) (take_from_to t) quote_amount) (settle_takes cfg pair seller amount ts)
     else
       let base_amount = min (take_amount (taken t)) amount in
       bindM (expects ''was taken via min'' (lift_arith (Defi.quote_amount (AuctionMulDiv cfg) (taken t) base_amount)))
         (\<lambda>real_quote_amount.
       thenM (expects ''we forced locks beforehand''
                (exchange_reserved cfg (base pair) seller base_amount (quote pair) (take_from_to t) real_quote_amount))
      (thenM (if real_quote_amount < quote_amount
              then auction_unreserve cfg (quote pair) (take_from_to t) (quote_amount - real_quote_amount)
              else ret ())
         (settle_takes cfg pair seller (amount - base_amount) ts))))"

text \<open>The highest limit first; \<open>sort_by\<close> is stable.\<close>

definition best_first :: "take_order list \<Rightarrow> take_order list" where
  "best_first ts = sort_key (\<lambda>t. - int (take_limit (taken t))) ts"

definition settle_order :: "'c auction_config \<Rightarrow> order_id \<Rightarrow> ('c auction_state, unit) call" where
  "settle_order cfg order_id =
     bindM (reads (\<lambda>s. case Takes s order_id of None \<Rightarrow> [] | Some ts \<Rightarrow> ts)) (\<lambda>takes.
     bindM (reads (\<lambda>s. SellOrders s order_id)) (\<lambda>v.
     case v of
       None \<Rightarrow> ret ()
     | Some x \<Rightarrow>
         bindM (settle_takes cfg (sell_pair (sell_order x)) (sell_from_to x) (take_amount (sell_take (sell_order x)))
                  (best_first takes)) (\<lambda>left.
         if left = 0 then
           thenM (modifies (\<lambda>s. s\<lparr>SellOrders := (SellOrders s)(order_id := None)\<rparr>))
             (auction_deposit_event (OrderRemoved order_id))
         else ret ())))"

definition auction_on_finalize :: "'c auction_config \<Rightarrow> ('c auction_state, unit) call" where
  "auction_on_finalize cfg =
     bindM (reads (\<lambda>s. TakesIter cfg (Takes s))) (\<lambda>ids.
     thenM (for_each ids (settle_order cfg))
       (modifies (\<lambda>s. s\<lparr>Takes := Map.empty\<rparr>)))"

end
