(* ===== verification/Liquidations.thy ===== *)
theory Liquidations
  imports Dutch_Auction
begin

text \<open>
  The liquidations pallet (frame/liquidations): a position that is to be liquidated is offered to
  one strategy after the other until one accepts it. The only strategy that works is an order in
  the dutch auction pallet, whose sell engine it calls.
\<close>

datatype liquidation_strategy =
    DutchAuctionStrategy time_release_function
  | UniswapV2Strategy nat
  | XcmDexStrategy nat

datatype liquidations_event = PositionWasSentToLiquidation

record 'c liquidations_state =
  Strategies :: "nat \<rightharpoonup> liquidation_strategy"
  StrategyIndex :: nat
  DefaultStrategyIndex :: nat
  liquidations_events :: "liquidations_event list"
  liquidations_auction :: "'c auction_state"

text \<open>The second argument of the configuration is the greatest strategy identifier.\<close>

record 'c liquidations_config =
  LiquidationsAuction :: "'c auction_config"
  StrategyIdMax :: nat

definition on_auction :: "('c auction_state, 'a) call \<Rightarrow> ('c liquidations_state, 'a) call" where
  "on_auction m = zoom liquidations_auction (\<lambda>c s. s\<lparr>liquidations_auction := c\<rparr>) m"

definition add_liquidation_strategy :: "raw_origin \<Rightarrow> liquidation_strategy \<Rightarrow> ('c liquidations_state, unit) call" where
  "add_liquidation_strategy orig configuration = fail (Other ''add_liquidation_strategy: no implemented'')"

definition create_strategy_id :: "'c liquidations_config \<Rightarrow> 'c liquidations_state \<Rightarrow> nat \<times> 'c liquidations_state" where
  "create_strategy_id cfg s =
     (let i = wrapping_next (StrategyIdMax cfg) (StrategyIndex s) in (i, s\<lparr>StrategyIndex := i\<rparr>))"

text \<open>The genesis build; \<open>Permill::from_rational(95, 100)\<close> is 950000 parts per million.\<close>

definition liquidations_genesis_build :: "'c liquidations_config \<Rightarrow> 'c liquidations_state \<Rightarrow> 'c liquidations_state" where
  "liquidations_genesis_build cfg s =
     (let (i, s1) = create_strategy_id cfg s;
          s2 = s1\<lparr>DefaultStrategyIndex := i\<rparr>;
          s3 = s2\<lparr>Strategies := (Strategies s2)(i \<mapsto> DutchAuctionStrategy (LinearDecrease \<lparr>ld_total = 10 * 60\<rparr>))\<rparr>;
          (j, s4) = create_strategy_id cfg s3
      in s4\<lparr>Strategies := (Strategies s4)(j \<mapsto>
              DutchAuctionStrategy (StairstepExponentialDecrease \<lparr>se_step = 10, se_cut = 950000\<rparr>))\<rparr>)"

text \<open>The loop over the strategies, with its early returns.\<close>

fun try_strategies ::
  "'c liquidations_config \<Rightarrow> account_id \<Rightarrow> sell \<Rightarrow> nat list \<Rightarrow> ('c liquidations_state, order_id) call" where
  "try_strategies cfg from_to sell [] = fail (LiquidationsErr NoLiquidationEngineFound)"
| "try_strategies cfg from_to sell (i # ids) =
     bindM (reads (\<lambda>s. Strategies s i)) (\<lambda>v.
     case v of
       None \<Rightarrow> try_strategies cfg from_to sell ids
     | Some (DutchAuctionStrategy configuration) \<Rightarrow>
         (\<lambda>s. case on_auction (engine_ask (LiquidationsAuction cfg) from_to sell configuration) s of
                (Inr order_id, t) \<Rightarrow>
                  (Inr order_id, t\<lparr>liquidations_events := liquidations_events t @ [PositionWasSentToLiquidation]\<rparr>)
              | (Inl e, t) \<Rightarrow> try_strategies cfg from_to sell ids t)
     | Some _ \<Rightarrow> fail (Other ''as for now, only auction liquidators implemented''))"

definition liquidate ::
  "'c liquidations_config \<Rightarrow> account_id \<Rightarrow> sell \<Rightarrow> nat list \<Rightarrow> ('c liquidations_state, order_id) call" where
  "liquidate cfg from_to sell configuration =
     bindM (reads DefaultStrategyIndex) (\<lambda>default.
     try_strategies cfg from_to sell (if configuration = [] then [default] else configuration))"

end
