(* ===== verification/Reserving.thy ===== *)
theory Reserving
  imports Assets_Orml
begin

text \<open>
  Reserved balances: the contract of the currencies that pallets rely on when they set funds
  aside, and that the assets pallet passes it on from the two currencies it routes to.
\<close>

section \<open>Currencies with reserves\<close>

text \<open>An amount at one place of a table of balances.\<close>

definition only :: "asset_id \<Rightarrow> account_id \<Rightarrow> nat \<Rightarrow> asset_id \<Rightarrow> account_id \<Rightarrow> nat" where
  "only a x n b z = (if b = a \<and> z = x then n else 0)"

definition at_account :: "account_id \<Rightarrow> nat \<Rightarrow> account_id \<Rightarrow> nat" where
  "at_account x n z = (if z = x then n else 0)"

lemma only_other: "b \<noteq> a \<Longrightarrow> only a x n b z = 0"
  by (simp add: only_def)

lemma only_same: "only a x n a z = at_account x n z"
  by (simp add: only_def at_account_def)

text \<open>
  What the auction relies on. Unreserving moves what is reserved, at most, to the usable balance,
  reserving takes from it, and a transfer of at most the usable balance succeeds and moves it;
  no transfer touches what is reserved.
\<close>

locale reserving_currency =
  fixes L :: "'c multi_currency" and usable :: "asset_id \<Rightarrow> account_id \<Rightarrow> 'c \<Rightarrow> balance"
  assumes l_unreserve_moves:
      "n \<le> l_reserved_balance L a x c \<Longrightarrow>
         usable b z (snd (l_unreserve L a x n c)) = usable b z c + only a x n b z
         \<and> l_reserved_balance L b z (snd (l_unreserve L a x n c)) + only a x n b z = l_reserved_balance L b z c"
    and l_unreserve_never_adds:
      "l_reserved_balance L b z (snd (l_unreserve L a x n c)) + only a x n b z \<ge> l_reserved_balance L b z c"
    and l_reserve_moves:
      "l_reserve L a x n c = (Inr u, d) \<Longrightarrow>
         usable b z d + only a x n b z = usable b z c
         \<and> l_reserved_balance L b z d = l_reserved_balance L b z c + only a x n b z"
    and l_reserve_atomic: "atomic (l_reserve L a x n)"
    and l_transfer_usable:
      "n \<le> usable a x c \<Longrightarrow>
         \<exists>d. l_transfer L a x y n c = (Inr (), d)
           \<and> (\<forall>b z. usable b z d + only a x n b z = usable b z c + only a y n b z
                \<and> l_reserved_balance L b z d = l_reserved_balance L b z c)"
    and l_transfer_reserved:
      "l_transfer L a x y n c = (Inr u, d) \<Longrightarrow> l_reserved_balance L b z d = l_reserved_balance L b z c"

locale reserving_native =
  fixes N :: "'n native_currency" and usable_native :: "account_id \<Rightarrow> 'n \<Rightarrow> balance"
  assumes nc_unreserve_moves:
      "n \<le> nc_reserved_balance N x c \<Longrightarrow>
         usable_native z (snd (nc_unreserve N x n c)) = usable_native z c + at_account x n z
         \<and> nc_reserved_balance N z (snd (nc_unreserve N x n c)) + at_account x n z = nc_reserved_balance N z c"
    and nc_unreserve_never_adds:
      "nc_reserved_balance N z (snd (nc_unreserve N x n c)) + at_account x n z \<ge> nc_reserved_balance N z c"
    and nc_reserve_moves:
      "nc_reserve N x n c = (Inr u, d) \<Longrightarrow>
         usable_native z d + at_account x n z = usable_native z c
         \<and> nc_reserved_balance N z d = nc_reserved_balance N z c + at_account x n z"
    and nc_reserve_atomic: "atomic (nc_reserve N x n)"
    and nc_transfer_usable:
      "n \<le> usable_native x c \<Longrightarrow>
         \<exists>d. nc_transfer N x y n AllowDeath c = (Inr (), d)
           \<and> (\<forall>z. usable_native z d + at_account x n z = usable_native z c + at_account y n z
                \<and> nc_reserved_balance N z d = nc_reserved_balance N z c)"
    and nc_transfer_reserved:
      "nc_transfer N x y n AllowDeath c = (Inr u, d) \<Longrightarrow> nc_reserved_balance N z d = nc_reserved_balance N z c"

text \<open>The assets pallet routes to the two currencies and so gives the contract to the auction.\<close>

definition routed_usable ::
  "('n, 'm) orml_config \<Rightarrow> (account_id \<Rightarrow> 'n \<Rightarrow> balance) \<Rightarrow> (asset_id \<Rightarrow> account_id \<Rightarrow> 'm \<Rightarrow> balance) \<Rightarrow>
     asset_id \<Rightarrow> account_id \<Rightarrow> 'n \<times> 'm \<Rightarrow> balance" where
  "routed_usable cfg un um a x c = (if a = OrmlNativeAssetId cfg then un x (fst c) else um a x (snd c))"

locale orml_reserving =
  native: reserving_native N un + multi: reserving_currency M um
  for N :: "'n native_currency" and un and M :: "'m multi_currency" and um +
  fixes cfg :: "('n, 'm) orml_config"
  assumes orml_native: "OrmlNativeCurrency cfg = N" and orml_multi: "OrmlMultiCurrency cfg = M"

context orml_reserving
begin

lemma routed_reads:
  "l_reserved_balance (assets_multi cfg) a x c =
     (if a = OrmlNativeAssetId cfg then nc_reserved_balance N x (fst c) else l_reserved_balance M a x (snd c))"
  by (simp add: assets_multi_def orml_reserved_balance_def orml_native orml_multi)

lemma routed_unreserve:
  "snd (l_unreserve (assets_multi cfg) a x n c) =
     (if a = OrmlNativeAssetId cfg then (snd (nc_unreserve N x n (fst c)), snd c)
      else (fst c, snd (l_unreserve M a x n (snd c))))"
  by (simp add: assets_multi_def orml_unreserve_def native_result_def multi_result_def orml_native orml_multi
      split: prod.split)

end

sublocale orml_reserving \<subseteq> routed: reserving_currency "assets_multi cfg" "routed_usable cfg un um"
proof
  fix a x n c b z u d y
  let ?L = "assets_multi cfg" and ?U = "routed_usable cfg un um"
  show "?U b z (snd (l_unreserve ?L a x n c)) = ?U b z c + only a x n b z
      \<and> l_reserved_balance ?L b z (snd (l_unreserve ?L a x n c)) + only a x n b z = l_reserved_balance ?L b z c"
    if "n \<le> l_reserved_balance ?L a x c"
    using that native.nc_unreserve_moves [of n x "fst c" z] multi.l_unreserve_moves [of n a x "snd c" b z]
    by (auto simp: routed_reads routed_unreserve routed_usable_def only_same only_other)
  show "l_reserved_balance ?L b z c \<le> l_reserved_balance ?L b z (snd (l_unreserve ?L a x n c)) + only a x n b z"
    using native.nc_unreserve_never_adds [of z "fst c" x n] multi.l_unreserve_never_adds [of b z "snd c" a x n]
    by (auto simp: routed_reads routed_unreserve only_same only_other)
  show "?U b z d + only a x n b z = ?U b z c
      \<and> l_reserved_balance ?L b z d = l_reserved_balance ?L b z c + only a x n b z"
    if "l_reserve ?L a x n c = (Inr u, d)"
    using that native.nc_reserve_moves [of x n "fst c" u "fst d" z] multi.l_reserve_moves [of a x n "snd c" u "snd d" b z]
    by (cases c) (auto simp: orml_reserved_balance_def routed_usable_def only_same only_other assets_multi_def orml_reserve_def
        on_native_ok on_multi_ok orml_native orml_multi split: if_splits)
  show "atomic (l_reserve ?L a x n)"
    by (simp add: assets_multi_def orml_reserve_def orml_native orml_multi on_currency_atomic
        native.nc_reserve_atomic multi.l_reserve_atomic)
  show "\<exists>d. l_transfer ?L a x y n c = (Inr (), d)
      \<and> (\<forall>b z. ?U b z d + only a x n b z = ?U b z c + only a y n b z
           \<and> l_reserved_balance ?L b z d = l_reserved_balance ?L b z c)"
    if "n \<le> ?U a x c"
  proof (cases "a = OrmlNativeAssetId cfg")
    case True
    then have "n \<le> un x (fst c)" using that by (simp add: routed_usable_def)
    then obtain d where "nc_transfer N x y n AllowDeath (fst c) = (Inr (), d)"
      "\<forall>z. un z d + at_account x n z = un z (fst c) + at_account y n z
         \<and> nc_reserved_balance N z d = nc_reserved_balance N z (fst c)"
      using native.nc_transfer_usable [of n x "fst c" y] by blast
    then show ?thesis
      using True by (intro exI [of _ "(d, snd c)"])
        (auto simp: assets_multi_def orml_calls_ok orml_native routed_usable_def orml_reserved_balance_def
          only_same only_other)
  next
    case False
    then have "n \<le> um a x (snd c)" using that by (simp add: routed_usable_def)
    then obtain d where "l_transfer M a x y n (snd c) = (Inr (), d)"
      "\<forall>b z. um b z d + only a x n b z = um b z (snd c) + only a y n b z
         \<and> l_reserved_balance M b z d = l_reserved_balance M b z (snd c)"
      using multi.l_transfer_usable [of n a x "snd c" y] by blast
    then show ?thesis
      using False by (intro exI [of _ "(fst c, d)"])
        (auto simp: assets_multi_def orml_calls_ok orml_multi routed_usable_def orml_reserved_balance_def only_other)
  qed
  show "l_reserved_balance ?L b z d = l_reserved_balance ?L b z c" if "l_transfer ?L a x y n c = (Inr u, d)"
    using that native.nc_transfer_reserved [of x y n "fst c" _ "fst d" z] multi.l_transfer_reserved [of a x y n "snd c" _ "snd d" b z]
    by (cases c) (auto simp: assets_multi_def orml_calls_ok orml_native orml_multi orml_reserved_balance_def split: if_splits)
qed

section \<open>The ledger with locks\<close>

definition book_usable :: "asset_id \<Rightarrow> account_id \<Rightarrow> lock_book \<Rightarrow> balance" where
  "book_usable a x B = free B a x"

interpretation book_reserving: reserving_currency book_multi book_usable
  by unfold_locales
     (auto simp: book_defs book_reserve_def book_unreserve_def book_usable_def moved_def credited_def debited_def
      only_def atomic_def Let_def split: if_splits)

interpretation book_native_reserving: reserving_native book_native "book_usable 0"
  by unfold_locales
     (auto simp: book_defs book_reserve_def book_unreserve_def book_usable_def moved_def credited_def debited_def
      at_account_def atomic_def Let_def split: if_splits)

interpretation book_routed: orml_reserving book_native "book_usable 0" book_multi book_usable book_assets
  by unfold_locales (simp_all add: book_assets_def)

end
