(* ===== verification/Dutch_Auction_Properties.thy ===== *)
theory Dutch_Auction_Properties
  imports Liquidations Reserving "HOL-Library.Multiset"
begin

text \<open>
  What the auction guarantees: as long as the reserves they draw on are whole, the takes of a block
  are settled without a panic, the best limits first, each at its own limit and at most for what is
  reserved; what makes a reserve go short; and how a liquidation ends as an order. Where the code departs from its intent is shown on concrete runs.
\<close>

section \<open>Settling the takes of an order\<close>

text \<open>What each take gets of an order, in the order of the takes.\<close>

fun fills :: "balance \<Rightarrow> take_order list \<Rightarrow> (take_order \<times> balance) list" where
  "fills amount [] = []"
| "fills amount (t # ts) =
     (let k = min (take_amount (taken t)) amount in (t, k) # fills (amount - k) ts)"

definition cost :: "take_order \<Rightarrow> balance \<Rightarrow> balance" where
  "cost t k = k * take_limit (taken t) div fixed_div"

definition sold :: "balance \<Rightarrow> take_order list \<Rightarrow> balance" where
  "sold amount ts = sum_list (map snd (fills amount ts))"

text \<open>What a taker has reserved for its takes, and what the settlement pays to and takes from an account.\<close>

definition quotes_of :: "currency_pair \<Rightarrow> take_order list \<Rightarrow> asset_id \<Rightarrow> account_id \<Rightarrow> balance" where
  "quotes_of pair ts a x = (\<Sum>t\<leftarrow>ts. only (quote pair) (take_from_to t) (cost t (take_amount (taken t))) a x)"

definition receives :: "currency_pair \<Rightarrow> account_id \<Rightarrow> balance \<Rightarrow> take_order list \<Rightarrow> asset_id \<Rightarrow> account_id \<Rightarrow> balance" where
  "receives pair seller amount ts a x =
     (\<Sum>(t, k)\<leftarrow>fills amount ts. only (base pair) (take_from_to t) k a x + only (quote pair) seller (cost t k) a x)"

definition pays :: "currency_pair \<Rightarrow> account_id \<Rightarrow> balance \<Rightarrow> take_order list \<Rightarrow> asset_id \<Rightarrow> account_id \<Rightarrow> balance" where
  "pays pair seller amount ts a x =
     (\<Sum>(t, k)\<leftarrow>fills amount ts. only (base pair) seller k a x + only (quote pair) (take_from_to t) (cost t k) a x)"

lemma cost_mono: "k \<le> l \<Longrightarrow> cost t k \<le> cost t l"
  by (simp add: cost_def div_le_mono)

lemma only_add: "only a x (m + n) b z = only a x m b z + only a x n b z"
  by (simp add: only_def)

lemma only_at [simp]: "only a x n a x = n"
  by (simp add: only_def)

lemma sold_le: "sold amount ts \<le> amount"
proof (induction ts arbitrary: amount)
  case (Cons t ts)
  let ?k = "min (take_amount (taken t)) amount"
  have "sold (amount - ?k) ts \<le> amount - ?k" by (rule Cons)
  then show ?case by (simp add: sold_def Let_def)
qed (simp add: sold_def)

text \<open>The same sums for the takes stored for an order.\<close>

definition takes_of :: "'c auction_state \<Rightarrow> order_id \<Rightarrow> take_order list" where
  "takes_of s i = (case Takes s i of None \<Rightarrow> [] | Some ts \<Rightarrow> ts)"

definition of_order :: "(sell_order \<Rightarrow> take_order list \<Rightarrow> nat) \<Rightarrow> 'c auction_state \<Rightarrow> order_id \<Rightarrow> nat" where
  "of_order f s i = (case SellOrders s i of None \<Rightarrow> 0 | Some x \<Rightarrow> f x (best_first (takes_of s i)))"

abbreviation order_amount :: "sell_order \<Rightarrow> balance" where
  "order_amount x \<equiv> take_amount (sell_take (sell_order x))"

definition order_claim :: "'c auction_state \<Rightarrow> asset_id \<Rightarrow> account_id \<Rightarrow> order_id \<Rightarrow> nat" where
  "order_claim s a z = of_order (\<lambda>x ts. only (base (sell_pair (sell_order x))) (sell_from_to x) (order_amount x) a z
     + quotes_of (sell_pair (sell_order x)) ts a z) s"

definition order_pays :: "'c auction_state \<Rightarrow> asset_id \<Rightarrow> account_id \<Rightarrow> order_id \<Rightarrow> nat" where
  "order_pays s a z = of_order (\<lambda>x ts. pays (sell_pair (sell_order x)) (sell_from_to x) (order_amount x) ts a z) s"

definition order_receives :: "'c auction_state \<Rightarrow> asset_id \<Rightarrow> account_id \<Rightarrow> order_id \<Rightarrow> nat" where
  "order_receives s a z = of_order (\<lambda>x ts. receives (sell_pair (sell_order x)) (sell_from_to x) (order_amount x) ts a z) s"

definition order_released :: "'c auction_state \<Rightarrow> asset_id \<Rightarrow> account_id \<Rightarrow> order_id \<Rightarrow> nat" where
  "order_released s a z = of_order (\<lambda>x ts. only (base (sell_pair (sell_order x))) (sell_from_to x) (sold (order_amount x) ts) a z
     + quotes_of (sell_pair (sell_order x)) ts a z) s"

text \<open>The order as the end of the block leaves it.\<close>

definition settled :: "'c auction_state \<Rightarrow> order_id \<Rightarrow> sell_order option" where
  "settled s i =
     (case SellOrders s i of
        None \<Rightarrow> None
      | Some x \<Rightarrow> if sold (order_amount x) (best_first (takes_of s i)) = order_amount x then None else Some x)"

lemma takes_of_cong: "Takes t i = Takes s i \<Longrightarrow> takes_of t i = takes_of s i"
  by (simp add: takes_of_def)

lemma of_order_cong: "SellOrders t i = SellOrders s i \<Longrightarrow> Takes t i = Takes s i \<Longrightarrow> of_order f t i = of_order f s i"
  using takes_of_cong [of t i s] unfolding of_order_def by (simp split: option.split)

lemma settled_cong: "SellOrders t i = SellOrders s i \<Longrightarrow> Takes t i = Takes s i \<Longrightarrow> settled t i = settled s i"
  using takes_of_cong [of t i s] unfolding settled_def by (simp split: option.split)

lemmas order_sums = order_claim_def order_pays_def order_receives_def order_released_def

lemma best_first_set [simp]: "set (best_first ts) = set ts"
  by (simp add: best_first_def)

lemma quotes_of_best_first: "quotes_of pair (best_first ts) a z = quotes_of pair ts a z"
proof -
  have "mset (map f (best_first ts)) = mset (map f ts)" for f :: "take_order \<Rightarrow> nat"
    by (simp add: best_first_def)
  then show ?thesis unfolding quotes_of_def by (simp only: flip: sum_mset_sum_list)
qed

lemma quotes_of_snoc:
  "quotes_of pair (ts @ [t]) a z = quotes_of pair ts a z + only (quote pair) (take_from_to t) (cost t (take_amount (taken t))) a z"
  by (simp add: quotes_of_def)

text \<open>What an account has reserved, and all it has.\<close>

definition reserved :: "'c auction_config \<Rightarrow> 'c auction_state \<Rightarrow> asset_id \<Rightarrow> account_id \<Rightarrow> balance" where
  "reserved cfg s a x = l_reserved_balance (AuctionCurrency cfg) a x (auction_currency s)"

definition funds ::
  "'c auction_config \<Rightarrow> (asset_id \<Rightarrow> account_id \<Rightarrow> 'c \<Rightarrow> balance) \<Rightarrow> 'c auction_state \<Rightarrow> asset_id \<Rightarrow> account_id \<Rightarrow> balance" where
  "funds cfg usable s a x = usable a x (auction_currency s) + reserved cfg s a x"

locale auction =
  reserving_currency "AuctionCurrency cfg" usable
  for cfg :: "'c auction_config" and usable :: "asset_id \<Rightarrow> account_id \<Rightarrow> 'c \<Rightarrow> balance" +
  assumes exact: "exact_mul_div (AuctionMulDiv cfg)"
    and native_reserves:
      "l_reserved_balance (AuctionCurrency cfg) a x (snd (AuctionNativeTransfer cfg y z n k c))
         = l_reserved_balance (AuctionCurrency cfg) a x c"
    and takes_listed: "finite (dom m) \<Longrightarrow> distinct (TakesIter cfg m) \<and> set (TakesIter cfg m) = dom m"
begin

lemma quote_amount_exact:
  "quote_amount (AuctionMulDiv cfg) (taken t) k =
     (if cost t k \<le> u128_max then Inr (cost t k) else Inl arithmetic_error.Overflow)"
  using exact by (simp add: quote_amount_def exact_mul_div_def cost_def fixed_div_def)

lemma unreserve_run:
  assumes "n \<le> reserved cfg s a x"
  shows "\<exists>d. auction_unreserve cfg a x n s = (Inr (), s\<lparr>auction_currency := d\<rparr>)
    \<and> (\<forall>b z. reserved cfg (s\<lparr>auction_currency := d\<rparr>) b z + only a x n b z = reserved cfg s b z)
    \<and> (\<forall>b z. usable b z d = usable b z (auction_currency s) + only a x n b z)"
  using assms l_unreserve_moves [of n a x "auction_currency s"]
  by (auto simp: auction_unreserve_def modifies_def reserved_def)

lemma transfer_run:
  assumes "n \<le> usable a x (auction_currency s)"
  shows "\<exists>d. on_auction_currency (l_transfer (AuctionCurrency cfg) a x y n) s = (Inr (), s\<lparr>auction_currency := d\<rparr>)
    \<and> (\<forall>b z. reserved cfg (s\<lparr>auction_currency := d\<rparr>) b z = reserved cfg s b z)
    \<and> (\<forall>b z. usable b z d + only a x n b z = usable b z (auction_currency s) + only a y n b z)"
  using l_transfer_usable [OF assms, of y] by (auto simp: on_auction_currency_def zoom_def reserved_def)

lemma exchange_run:
  assumes "\<And>a x. only b seller k a x + only q taker n a x \<le> reserved cfg s a x"
  shows "\<exists>d. exchange_reserved cfg b seller k q taker n s = (Inr (), s\<lparr>auction_currency := d\<rparr>)
    \<and> (\<forall>a x. reserved cfg (s\<lparr>auction_currency := d\<rparr>) a x + only b seller k a x + only q taker n a x = reserved cfg s a x)
    \<and> (\<forall>a x. funds cfg usable (s\<lparr>auction_currency := d\<rparr>) a x + only b seller k a x + only q taker n a x
         = funds cfg usable s a x + only b taker k a x + only q seller n a x)"
proof -
  have "k \<le> reserved cfg s b seller" using assms [of b seller] by simp
  from unreserve_run [OF this] obtain d1 where
    d1: "auction_unreserve cfg b seller k s = (Inr (), s\<lparr>auction_currency := d1\<rparr>)"
      "\<And>c z. reserved cfg (s\<lparr>auction_currency := d1\<rparr>) c z + only b seller k c z = reserved cfg s c z"
      "\<And>c z. usable c z d1 = usable c z (auction_currency s) + only b seller k c z" by blast
  have "n \<le> reserved cfg (s\<lparr>auction_currency := d1\<rparr>) q taker"
    using assms [of q taker] d1(2) [of q taker] by simp
  from unreserve_run [OF this] obtain d2 where
    d2: "auction_unreserve cfg q taker n (s\<lparr>auction_currency := d1\<rparr>) = (Inr (), s\<lparr>auction_currency := d2\<rparr>)"
      "\<And>c z. reserved cfg (s\<lparr>auction_currency := d2\<rparr>) c z + only q taker n c z = reserved cfg (s\<lparr>auction_currency := d1\<rparr>) c z"
      "\<And>c z. usable c z d2 = usable c z d1 + only q taker n c z" by auto
  have "k \<le> usable b seller (auction_currency (s\<lparr>auction_currency := d2\<rparr>))"
    using d2(3) [of b seller] d1(3) [of b seller] by simp
  from transfer_run [OF this, of taker] obtain d3 where
    d3: "on_auction_currency (l_transfer (AuctionCurrency cfg) b seller taker k) (s\<lparr>auction_currency := d2\<rparr>)
        = (Inr (), s\<lparr>auction_currency := d3\<rparr>)"
      "\<And>c z. reserved cfg (s\<lparr>auction_currency := d3\<rparr>) c z = reserved cfg (s\<lparr>auction_currency := d2\<rparr>) c z"
      "\<And>c z. usable c z d3 + only b seller k c z = usable c z d2 + only b taker k c z" by auto
  have "n \<le> usable q taker (auction_currency (s\<lparr>auction_currency := d3\<rparr>))"
    using d3(3) [of q taker] d2(3) [of q taker] d1(3) [of q taker] by simp
  from transfer_run [OF this, of seller] obtain d4 where
    d4: "on_auction_currency (l_transfer (AuctionCurrency cfg) q taker seller n) (s\<lparr>auction_currency := d3\<rparr>)
        = (Inr (), s\<lparr>auction_currency := d4\<rparr>)"
      "\<And>c z. reserved cfg (s\<lparr>auction_currency := d4\<rparr>) c z = reserved cfg (s\<lparr>auction_currency := d3\<rparr>) c z"
      "\<And>c z. usable c z d4 + only q taker n c z = usable c z d3 + only q seller n c z" by auto
  have "exchange_reserved cfg b seller k q taker n s = (Inr (), s\<lparr>auction_currency := d4\<rparr>)"
    using d1(1) d2(1) d3(1) d4(1) by (simp add: exchange_reserved_def thenM_def bindM_def)
  moreover have "reserved cfg (s\<lparr>auction_currency := d4\<rparr>) a x + only b seller k a x + only q taker n a x = reserved cfg s a x" for a x
    using d1(2) [of a x] d2(2) [of a x] d3(2) [of a x] d4(2) [of a x] by simp
  moreover have "usable a x d4 + only q taker n a x + only b seller k a x
      = usable a x (auction_currency s) + only b seller k a x + only q taker n a x + only b taker k a x + only q seller n a x" for a x
    using d1(3) [of a x] d2(3) [of a x] d3(3) [of a x] d4(3) [of a x] by simp
  ultimately show ?thesis
    unfolding funds_def by (intro exI [of _ d4]) (auto simp: add.commute add.left_commute)
qed

lemma funds_unreserved:
  assumes "\<And>b z. reserved cfg (s\<lparr>auction_currency := d\<rparr>) b z + only a x n b z = reserved cfg s b z"
    and "\<And>b z. usable b z d = usable b z (auction_currency s) + only a x n b z"
  shows "funds cfg usable (s\<lparr>auction_currency := d\<rparr>) b z = funds cfg usable s b z"
  using assms(1) [of b z] assms(2) [of b z] by (simp add: funds_def)

text \<open>A take that gets \<open>k\<close> at the price \<open>q\<close> out of the \<open>Q\<close> it has reserved.\<close>

lemma take_run:
  assumes "\<And>a x. only b seller k a x + only qa taker Q a x \<le> reserved cfg s a x" and "q \<le> Q"
  shows "\<exists>d. thenM (expects msg (exchange_reserved cfg b seller k qa taker q))
        (thenM (if q < Q then auction_unreserve cfg qa taker (Q - q) else ret ()) m) s = m (s\<lparr>auction_currency := d\<rparr>)
    \<and> (\<forall>a x. reserved cfg (s\<lparr>auction_currency := d\<rparr>) a x + only b seller k a x + only qa taker Q a x = reserved cfg s a x)
    \<and> (\<forall>a x. funds cfg usable (s\<lparr>auction_currency := d\<rparr>) a x + only b seller k a x + only qa taker q a x
         = funds cfg usable s a x + only b taker k a x + only qa seller q a x)"
proof -
  have split: "only qa taker Q a x = only qa taker q a x + only qa taker (Q - q) a x" for a x
    using assms(2) by (simp flip: only_add)
  have "only b seller k a x + only qa taker q a x \<le> reserved cfg s a x" for a x
    using assms(1) [of a x] split [of a x] by linarith
  from exchange_run [OF this] obtain d1 where
    d1: "exchange_reserved cfg b seller k qa taker q s = (Inr (), s\<lparr>auction_currency := d1\<rparr>)"
      "\<And>a x. reserved cfg (s\<lparr>auction_currency := d1\<rparr>) a x + only b seller k a x + only qa taker q a x = reserved cfg s a x"
      "\<And>a x. funds cfg usable (s\<lparr>auction_currency := d1\<rparr>) a x + only b seller k a x + only qa taker q a x
         = funds cfg usable s a x + only b taker k a x + only qa seller q a x" by blast
  have "Q - q \<le> reserved cfg (s\<lparr>auction_currency := d1\<rparr>) qa taker"
    using assms(1) [of qa taker] split [of qa taker] d1(2) [of qa taker] by simp
  from unreserve_run [OF this] obtain d2 where
    d2: "auction_unreserve cfg qa taker (Q - q) (s\<lparr>auction_currency := d1\<rparr>) = (Inr (), s\<lparr>auction_currency := d2\<rparr>)"
      "\<And>c z. reserved cfg (s\<lparr>auction_currency := d2\<rparr>) c z + only qa taker (Q - q) c z = reserved cfg (s\<lparr>auction_currency := d1\<rparr>) c z"
      "\<And>c z. usable c z d2 = usable c z d1 + only qa taker (Q - q) c z" by auto
  have funds2: "funds cfg usable (s\<lparr>auction_currency := d2\<rparr>) a x = funds cfg usable (s\<lparr>auction_currency := d1\<rparr>) a x" for a x
    using d2(2) [of a x] d2(3) [of a x] by (simp add: funds_def)
  show ?thesis
  proof (cases "q < Q")
    case True
    have "reserved cfg (s\<lparr>auction_currency := d2\<rparr>) a x + only b seller k a x + only qa taker Q a x = reserved cfg s a x" for a x
      using d1(2) [of a x] d2(2) [of a x] split [of a x] by linarith
    then show ?thesis
      using True d1(1,3) d2(1) funds2 by (intro exI [of _ d2]) (simp add: thenM_def bindM_def expects_def map_err_def)
  next
    case False
    then have "q = Q" using assms(2) by simp
    then show ?thesis
      using d1 by (intro exI [of _ d1]) (simp add: thenM_def bindM_def expects_def map_err_def ret_def)
  qed
qed

lemma bind_expects_ret: "bindM (expects msg (ret x)) f = f x"
  by (rule ext) (simp add: bindM_def expects_def map_err_def ret_def)

lemma settle_takes_run:
  "\<forall>t \<in> set ts. cost t (take_amount (taken t)) \<le> u128_max \<Longrightarrow>
   (\<And>a x. only (base pair) seller amount a x + quotes_of pair ts a x \<le> reserved cfg s a x) \<Longrightarrow>
   \<exists>d. settle_takes cfg pair seller amount ts s = (Inr (amount - sold amount ts), s\<lparr>auction_currency := d\<rparr>)
     \<and> (\<forall>a x. reserved cfg (s\<lparr>auction_currency := d\<rparr>) a x + only (base pair) seller (sold amount ts) a x
          + quotes_of pair ts a x = reserved cfg s a x)
     \<and> (\<forall>a x. funds cfg usable (s\<lparr>auction_currency := d\<rparr>) a x + pays pair seller amount ts a x
          = funds cfg usable s a x + receives pair seller amount ts a x)"
proof (induction ts arbitrary: amount s)
  case Nil
  then show ?case
    by (intro exI [of _ "auction_currency s"])
       (simp add: ret_def sold_def quotes_of_def pays_def receives_def only_def)
next
  case (Cons t ts)
  let ?b = "base pair" and ?q = "quote pair" and ?x = "take_from_to t"
  define k where "k = min (take_amount (taken t)) amount"
  define Q where "Q = cost t (take_amount (taken t))"
  have le: "cost t k \<le> Q" "k \<le> amount" by (simp_all add: k_def Q_def cost_mono)
  have Q: "Q \<le> u128_max" "cost t k \<le> u128_max" using Cons.prems(1) le(1) by (auto simp: Q_def)
  have amount: "only ?b seller amount a x = only ?b seller k a x + only ?b seller (amount - k) a x" for a x
    using le(2) by (simp flip: only_add)
  have cover: "only ?b seller k a x + only ?b seller (amount - k) a x + only ?q ?x Q a x + quotes_of pair ts a x
      \<le> reserved cfg s a x" for a x
    using Cons.prems(2) [of a x] amount [of a x] by (simp add: quotes_of_def Q_def)
  have step: "\<exists>d. settle_takes cfg pair seller amount (t # ts) s = settle_takes cfg pair seller (amount - k) ts (s\<lparr>auction_currency := d\<rparr>)
    \<and> (\<forall>a x. reserved cfg (s\<lparr>auction_currency := d\<rparr>) a x + only ?b seller k a x + only ?q ?x Q a x = reserved cfg s a x)
    \<and> (\<forall>a x. funds cfg usable (s\<lparr>auction_currency := d\<rparr>) a x + only ?b seller k a x + only ?q ?x (cost t k) a x
         = funds cfg usable s a x + only ?b ?x k a x + only ?q seller (cost t k) a x)"
  proof (cases "amount = 0")
    case True
    then have "k = 0" by (simp add: k_def)
    have "Q \<le> reserved cfg s ?q ?x" using cover [of ?q ?x] by simp
    from unreserve_run [OF this] obtain d where
      d: "auction_unreserve cfg ?q ?x Q s = (Inr (), s\<lparr>auction_currency := d\<rparr>)"
        "\<And>b z. reserved cfg (s\<lparr>auction_currency := d\<rparr>) b z + only ?q ?x Q b z = reserved cfg s b z"
        "\<And>b z. usable b z d = usable b z (auction_currency s) + only ?q ?x Q b z" by blast
    then show ?thesis
      using True Q \<open>k = 0\<close> funds_unreserved [OF d(2,3)]
      by (intro exI [of _ d])
         (simp add: quote_limit_amount_def quote_amount_exact Q_def [symmetric] call_eval expects_def lift_arith_def
           only_def cost_def [of t 0])
  next
    case False
    have "only ?b seller k a x + only ?q ?x Q a x \<le> reserved cfg s a x" for a x
      using cover [of a x] by linarith
    from take_run [OF this le(1), of "''we forced locks beforehand''" "settle_takes cfg pair seller (amount - k) ts"]
    show ?thesis
      using False Q
      by (simp add: quote_limit_amount_def quote_amount_exact Q_def [symmetric] k_def [symmetric]
          lift_arith_def bind_expects_ret)
  qed
  then obtain d1 where d1: "settle_takes cfg pair seller amount (t # ts) s = settle_takes cfg pair seller (amount - k) ts (s\<lparr>auction_currency := d1\<rparr>)"
    "\<And>a x. reserved cfg (s\<lparr>auction_currency := d1\<rparr>) a x + only ?b seller k a x + only ?q ?x Q a x = reserved cfg s a x"
    "\<And>a x. funds cfg usable (s\<lparr>auction_currency := d1\<rparr>) a x + only ?b seller k a x + only ?q ?x (cost t k) a x
         = funds cfg usable s a x + only ?b ?x k a x + only ?q seller (cost t k) a x" by blast
  have "only ?b seller (amount - k) a x + quotes_of pair ts a x \<le> reserved cfg (s\<lparr>auction_currency := d1\<rparr>) a x" for a x
    using cover [of a x] d1(2) [of a x] by linarith
  from Cons.IH [OF _ this] Cons.prems(1) obtain d2 where
    d2: "settle_takes cfg pair seller (amount - k) ts (s\<lparr>auction_currency := d1\<rparr>)
        = (Inr (amount - k - sold (amount - k) ts), s\<lparr>auction_currency := d2\<rparr>)"
      "\<And>a x. reserved cfg (s\<lparr>auction_currency := d2\<rparr>) a x + only ?b seller (sold (amount - k) ts) a x
          + quotes_of pair ts a x = reserved cfg (s\<lparr>auction_currency := d1\<rparr>) a x"
      "\<And>a x. funds cfg usable (s\<lparr>auction_currency := d2\<rparr>) a x + pays pair seller (amount - k) ts a x
          = funds cfg usable (s\<lparr>auction_currency := d1\<rparr>) a x + receives pair seller (amount - k) ts a x" by auto
  have sums: "sold amount (t # ts) = k + sold (amount - k) ts"
    "quotes_of pair (t # ts) a x = only ?q ?x Q a x + quotes_of pair ts a x"
    "pays pair seller amount (t # ts) a x = only ?b seller k a x + only ?q ?x (cost t k) a x + pays pair seller (amount - k) ts a x"
    "receives pair seller amount (t # ts) a x = only ?b ?x k a x + only ?q seller (cost t k) a x + receives pair seller (amount - k) ts a x"
    for a x
    by (simp_all add: sold_def quotes_of_def pays_def receives_def k_def Q_def Let_def)
  show ?case
  proof (intro exI [of _ d2] conjI allI)
    show "settle_takes cfg pair seller amount (t # ts) s = (Inr (amount - sold amount (t # ts)), s\<lparr>auction_currency := d2\<rparr>)"
      using d1(1) d2(1) sums(1) by simp
    fix a x
    show "reserved cfg (s\<lparr>auction_currency := d2\<rparr>) a x + only ?b seller (sold amount (t # ts)) a x
          + quotes_of pair (t # ts) a x = reserved cfg s a x"
      using d1(2) [of a x] d2(2) [of a x] sums(1,2) by (simp add: only_add)
    show "funds cfg usable (s\<lparr>auction_currency := d2\<rparr>) a x + pays pair seller amount (t # ts) a x
          = funds cfg usable s a x + receives pair seller amount (t # ts) a x"
      using d1(3) [of a x] d2(3) [of a x] sums(3,4) [of a x] by simp
  qed
qed

lemma settle_order_run:
  assumes fit: "\<forall>t \<in> set (takes_of s i). cost t (take_amount (taken t)) \<le> u128_max"
    and cover: "\<And>a z. order_claim s a z i \<le> reserved cfg s a z"
  shows "\<exists>t. settle_order cfg i s = (Inr (), t) \<and> Takes t = Takes s \<and> OrdersIndex t = OrdersIndex s
     \<and> SellOrders t = (SellOrders s)(i := settled s i)
     \<and> (\<forall>a z. reserved cfg t a z + order_released s a z i = reserved cfg s a z)
     \<and> (\<forall>a z. funds cfg usable t a z + order_pays s a z i = funds cfg usable s a z + order_receives s a z i)"
proof (cases "SellOrders s i")
  case None
  then show ?thesis
    by (intro exI [of _ s]) (auto simp: settle_order_def call_eval settled_def order_sums of_order_def fun_upd_idem)
next
  case (Some x)
  let ?pair = "sell_pair (sell_order x)" and ?ts = "best_first (takes_of s i)"
  have "only (base ?pair) (sell_from_to x) (order_amount x) a z + quotes_of ?pair ?ts a z \<le> reserved cfg s a z" for a z
    using cover [of a z] Some by (simp add: order_claim_def of_order_def)
  from settle_takes_run [OF _ this] fit obtain d where
    d: "settle_takes cfg ?pair (sell_from_to x) (order_amount x) ?ts s
        = (Inr (order_amount x - sold (order_amount x) ?ts), s\<lparr>auction_currency := d\<rparr>)"
      "\<And>a z. reserved cfg (s\<lparr>auction_currency := d\<rparr>) a z + only (base ?pair) (sell_from_to x) (sold (order_amount x) ?ts) a z
          + quotes_of ?pair ?ts a z = reserved cfg s a z"
      "\<And>a z. funds cfg usable (s\<lparr>auction_currency := d\<rparr>) a z + pays ?pair (sell_from_to x) (order_amount x) ?ts a z
          = funds cfg usable s a z + receives ?pair (sell_from_to x) (order_amount x) ?ts a z" by auto
  have left: "order_amount x - sold (order_amount x) ?ts = 0 \<longleftrightarrow> sold (order_amount x) ?ts = order_amount x"
    using sold_le [of "order_amount x" ?ts] by auto
  define t where "t = (if sold (order_amount x) ?ts = order_amount x
      then s\<lparr>auction_currency := d, SellOrders := (SellOrders s)(i := None), auction_events := auction_events s @ [OrderRemoved i]\<rparr>
      else s\<lparr>auction_currency := d\<rparr>)"
  have "settle_order cfg i s = (Inr (), t)"
    using Some d(1) left
    by (simp add: settle_order_def takes_of_def [symmetric] call_eval t_def auction_deposit_event_def)
  moreover have "SellOrders t = (SellOrders s)(i := settled s i)"
    using Some by (auto simp: t_def settled_def)
  moreover have "reserved cfg t a z = reserved cfg (s\<lparr>auction_currency := d\<rparr>) a z"
    "funds cfg usable t a z = funds cfg usable (s\<lparr>auction_currency := d\<rparr>) a z" for a z
    by (simp_all add: t_def reserved_def funds_def)
  ultimately show ?thesis
    using d(2,3) Some by (intro exI [of _ t]) (simp add: t_def order_sums of_order_def add.assoc)
qed

lemma settle_orders_run:
  "distinct ids \<Longrightarrow> (\<forall>i \<in> set ids. \<forall>t \<in> set (takes_of s i). cost t (take_amount (taken t)) \<le> u128_max) \<Longrightarrow>
   (\<And>a z. sum_list (map (order_claim s a z) ids) \<le> reserved cfg s a z) \<Longrightarrow>
   \<exists>t. for_each ids (settle_order cfg) s = (Inr (), t) \<and> Takes t = Takes s \<and> OrdersIndex t = OrdersIndex s
     \<and> (\<forall>j. SellOrders t j = (if j \<in> set ids then settled s j else SellOrders s j))
     \<and> (\<forall>a z. reserved cfg t a z + sum_list (map (order_released s a z) ids) = reserved cfg s a z)
     \<and> (\<forall>a z. funds cfg usable t a z + sum_list (map (order_pays s a z) ids)
          = funds cfg usable s a z + sum_list (map (order_receives s a z) ids))"
proof (induction ids arbitrary: s)
  case Nil
  then show ?case by (simp add: ret_def)
next
  case (Cons i ids)
  have "order_claim s a z i \<le> reserved cfg s a z" for a z
    using Cons.prems(3) [of a z] by simp
  from settle_order_run [OF _ this] Cons.prems(2) obtain u where
    u: "settle_order cfg i s = (Inr (), u)" "Takes u = Takes s" "OrdersIndex u = OrdersIndex s"
      "SellOrders u = (SellOrders s)(i := settled s i)"
      "\<And>a z. reserved cfg u a z + order_released s a z i = reserved cfg s a z"
      "\<And>a z. funds cfg usable u a z + order_pays s a z i = funds cfg usable s a z + order_receives s a z i" by auto
  have same: "of_order f u j = of_order f s j" "settled u j = settled s j" "takes_of u j = takes_of s j"
    if "j \<in> set ids" for f j
    using that Cons.prems(1) u(2,4) by (auto intro: of_order_cong settled_cong takes_of_cong)
  then have sums: "map (of_order f u) ids = map (of_order f s) ids" for f by simp
  have released: "order_released s a z i \<le> order_claim s a z i" for a z
    using sold_le by (auto simp: order_sums of_order_def only_def split: option.split)
  have "sum_list (map (order_claim u a z) ids) \<le> reserved cfg u a z" for a z
    using Cons.prems(3) [of a z] u(5) [of a z] released [of a z] by (simp add: order_claim_def sums)
  from Cons.IH [OF _ _ this] Cons.prems(1,2) same obtain t where
    t: "for_each ids (settle_order cfg) u = (Inr (), t)" "Takes t = Takes u" "OrdersIndex t = OrdersIndex u"
      "\<And>j. SellOrders t j = (if j \<in> set ids then settled u j else SellOrders u j)"
      "\<And>a z. reserved cfg t a z + sum_list (map (order_released u a z) ids) = reserved cfg u a z"
      "\<And>a z. funds cfg usable t a z + sum_list (map (order_pays u a z) ids)
          = funds cfg usable u a z + sum_list (map (order_receives u a z) ids)" by auto
  show ?case
  proof (intro exI [of _ t] conjI allI)
    show "for_each (i # ids) (settle_order cfg) s = (Inr (), t)"
      using u(1) t(1) by (simp add: thenM_def bindM_def)
    show "Takes t = Takes s" "OrdersIndex t = OrdersIndex s" using t(2,3) u(2,3) by simp_all
    show "SellOrders t j = (if j \<in> set (i # ids) then settled s j else SellOrders s j)" for j
      using t(4) [of j] u(4) same(2) [of j] Cons.prems(1) by auto
    fix a z
    show "reserved cfg t a z + sum_list (map (order_released s a z) (i # ids)) = reserved cfg s a z"
      using t(5) [of a z] u(5) [of a z] by (simp add: order_released_def sums)
    show "funds cfg usable t a z + sum_list (map (order_pays s a z) (i # ids))
          = funds cfg usable s a z + sum_list (map (order_receives s a z) (i # ids))"
      using t(6) [of a z] u(6) [of a z] by (simp add: order_pays_def order_receives_def sums)
  qed
qed

end

section \<open>Every order and take is backed by reserves\<close>

text \<open>
  The reserves cover what the stored orders and takes claim, up to \<open>short\<close>: what the seller's reserve of
  an order has lost while the order was kept with its whole amount.
\<close>

definition backed :: "'c auction_config \<Rightarrow> (asset_id \<Rightarrow> account_id \<Rightarrow> balance) \<Rightarrow> 'c auction_state \<Rightarrow> bool" where
  "backed cfg short s \<longleftrightarrow>
     finite (dom (SellOrders s)) \<and> finite (dom (Takes s))
     \<and> (\<forall>i. i \<in> dom (SellOrders s) \<or> i \<in> dom (Takes s) \<longrightarrow> i \<le> OrdersIndex s)
     \<and> (\<forall>i. \<forall>t \<in> set (takes_of s i). cost t (take_amount (taken t)) \<le> u128_max)
     \<and> (\<forall>a z. (\<Sum>i \<in> dom (SellOrders s). order_claim s a z i) \<le> reserved cfg s a z + short a z)"

text \<open>
  What goes short: what the settlement sells of an order that it does not sell out, since the order keeps its amount
  (see \<open>partial_fill_keeps_amount\<close>); the amount of an order whose liquidation fails after it has been unreserved.
\<close>

definition order_partly :: "'c auction_state \<Rightarrow> asset_id \<Rightarrow> account_id \<Rightarrow> order_id \<Rightarrow> nat" where
  "order_partly s a z i = (case settled s i of None \<Rightarrow> 0 | Some _ \<Rightarrow>
     of_order (\<lambda>x ts. only (base (sell_pair (sell_order x))) (sell_from_to x) (sold (order_amount x) ts) a z) s i)"

definition liquidation_lost ::
  "dispatch_error + unit \<Rightarrow> raw_origin \<Rightarrow> order_id \<Rightarrow> 'c auction_state \<Rightarrow> asset_id \<Rightarrow> account_id \<Rightarrow> balance" where
  "liquidation_lost r orig i s a z =
     (case r of
        Inr _ \<Rightarrow> 0
      | Inl _ \<Rightarrow> (case SellOrders s i of
          None \<Rightarrow> 0
        | Some x \<Rightarrow> if orig = SignedOrigin (sell_from_to x)
            then only (base (sell_pair (sell_order x))) (sell_from_to x) (order_amount x) a z else 0))"

text \<open>
  Histories of the pallet, from storage without orders: the calls, whatever they are given and return, the end of
  every block that does not abort, the passing of time, and whatever other code does to the currency. Order
  identifiers do not wrap around. Beside the state, what has gone short so far.
\<close>

inductive auction_run :: "'c auction_config \<Rightarrow> (asset_id \<Rightarrow> account_id \<Rightarrow> balance) \<Rightarrow> 'c auction_state \<Rightarrow> bool" for cfg where
  start: "SellOrders s = Map.empty \<Longrightarrow> Takes s = Map.empty \<Longrightarrow> auction_run cfg (\<lambda>_ _. 0) s"
| ask: "auction_run cfg short s \<Longrightarrow> OrdersIndex s < OrderIdMax cfg \<Longrightarrow> auction_run cfg short (snd (auction_ask cfg orig sell f s))"
| take: "auction_run cfg short s \<Longrightarrow> auction_run cfg short (snd (auction_take cfg orig i tk s))"
| liquidate: "auction_run cfg short s \<Longrightarrow> auction_liquidate cfg orig i s = (r, t) \<Longrightarrow>
    auction_run cfg (\<lambda>a z. short a z + liquidation_lost r orig i s a z) t"
| finalize: "auction_run cfg short s \<Longrightarrow> auction_on_finalize cfg s = (Inr u, t) \<Longrightarrow>
    auction_run cfg (\<lambda>a z. short a z + (\<Sum>i \<in> dom (Takes s). order_partly s a z i)) t"
| time: "auction_run cfg short s \<Longrightarrow> auction_run cfg short (s\<lparr>auction_now := now\<rparr>)"
| currency: "auction_run cfg short s \<Longrightarrow>
    auction_run cfg (\<lambda>a z. short a z + (reserved cfg s a z - reserved cfg (s\<lparr>auction_currency := c\<rparr>) a z)) (s\<lparr>auction_currency := c\<rparr>)"

lemma backed_cong:
  assumes same: "SellOrders t = SellOrders s" "Takes t = Takes s" and idx: "OrdersIndex s \<le> OrdersIndex t"
    and more: "\<And>a z. reserved cfg s a z + short a z \<le> reserved cfg t a z + short' a z" and ok: "backed cfg short s"
  shows "backed cfg short' t"
proof -
  have "order_claim t a z = order_claim s a z" for a z
    unfolding order_claim_def using same by (intro ext of_order_cong) simp_all
  moreover have "takes_of t = takes_of s" using same by (intro ext takes_of_cong) simp
  moreover have "(\<Sum>i \<in> dom (SellOrders s). order_claim s a z i) \<le> reserved cfg t a z + short' a z" for a z
    using ok more [of a z] by (meson backed_def order_trans)
  ultimately show ?thesis
    using ok idx same by (auto simp: backed_def intro: order_trans)
qed

context auction
begin

text \<open>Reserving, and the transfers of the native currency.\<close>

lemma wp_reserve:
  assumes "\<And>d. (\<And>b z. reserved cfg (s\<lparr>auction_currency := d\<rparr>) b z = reserved cfg s b z + only a x n b z) \<Longrightarrow>
      Q () (s\<lparr>auction_currency := d\<rparr>)"
    and "\<And>e. E e s"
  shows "wp (on_auction_currency (l_reserve (AuctionCurrency cfg) a x n)) Q E s"
proof -
  obtain r d where run: "l_reserve (AuctionCurrency cfg) a x n (auction_currency s) = (r, d)" by fastforce
  show ?thesis
  proof (cases r)
    case (Inl e)
    then have "d = auction_currency s" using run by (intro atomicD [OF l_reserve_atomic]) simp
    then show ?thesis using run Inl assms(2) by (simp add: wp_def on_auction_currency_def zoom_def)
  next
    case (Inr u)
    then show ?thesis
      using run l_reserve_moves [of a x n "auction_currency s" u d] assms(1) [of d]
      by (simp add: wp_def on_auction_currency_def zoom_def reserved_def)
  qed
qed

lemma wp_native:
  assumes "\<And>d u. (\<And>b z. reserved cfg (s\<lparr>auction_currency := d\<rparr>) b z = reserved cfg s b z) \<Longrightarrow> Q u (s\<lparr>auction_currency := d\<rparr>)"
    and "\<And>d e. (\<And>b z. reserved cfg (s\<lparr>auction_currency := d\<rparr>) b z = reserved cfg s b z) \<Longrightarrow> E e (s\<lparr>auction_currency := d\<rparr>)"
  shows "wp (on_auction_currency (AuctionNativeTransfer cfg x y n k)) Q E s"
proof -
  obtain r d where run: "AuctionNativeTransfer cfg x y n k (auction_currency s) = (r, d)" by fastforce
  have "reserved cfg (s\<lparr>auction_currency := d\<rparr>) b z = reserved cfg s b z" for b z
    using native_reserves [of b z x y n k "auction_currency s"] run by (simp add: reserved_def)
  then show ?thesis
    using run assms by (cases r) (simp_all add: wp_def on_auction_currency_def zoom_def)
qed

lemma backed_new_order:
  assumes "backed cfg short s" and "j = Suc (OrdersIndex s)"
    and "\<And>a z. reserved cfg t a z = reserved cfg s a z
      + only (base (sell_pair (sell_order x))) (sell_from_to x) (order_amount x) a z"
    and "SellOrders t = (SellOrders s)(j \<mapsto> x)" "Takes t = Takes s" "OrdersIndex t = j"
  shows "backed cfg short t"
proof -
  have fresh: "j \<notin> dom (SellOrders s)" "Takes s j = None" using assms(1,2) by (auto simp: backed_def)
  have "(\<Sum>i \<in> dom (SellOrders t). order_claim t a z i) \<le> reserved cfg t a z + short a z" for a z
  proof -
    have "order_claim t a z j = only (base (sell_pair (sell_order x))) (sell_from_to x) (order_amount x) a z"
      using fresh assms(4,5) by (simp add: order_claim_def of_order_def takes_of_def best_first_def quotes_of_def)
    moreover have "order_claim t a z i = order_claim s a z i" if "i \<in> dom (SellOrders s)" for i
      using that fresh assms(4,5) unfolding order_claim_def by (intro of_order_cong) auto
    ultimately show ?thesis
      using fresh assms(1,3,4) by (simp add: backed_def)
  qed
  then show ?thesis
    using assms(1,2,4-6) takes_of_cong [of t _ s] by (auto simp: backed_def)
qed

lemma backed_ask:
  assumes "backed cfg short s" "OrdersIndex s < OrderIdMax cfg"
  shows "backed cfg short (snd (auction_ask cfg orig sell f s))"
proof -
  have nxt: "wrapping_next (OrderIdMax cfg) (OrdersIndex s) = Suc (OrdersIndex s)"
    using assms(2) by (simp add: wrapping_next_def saturating_add_def)
  have bump: "backed cfg short (s\<lparr>OrdersIndex := Suc (OrdersIndex s)\<rparr>)"
    by (rule backed_cong [OF _ _ _ _ assms(1)]) (simp_all add: reserved_def)
  have keep: "backed cfg short (u\<lparr>auction_currency := d\<rparr>)"
    if "backed cfg short u" "\<And>b z. reserved cfg (u\<lparr>auction_currency := d\<rparr>) b z = reserved cfg u b z" for u d
    using that by (intro backed_cong [OF _ _ _ _ that(1)]) simp_all
  show ?thesis
    unfolding auction_ask_def engine_ask_def wp_state [symmetric]
    by (auto simp: wp_simps nxt assms(1) bump Let_def auction_deposit_event_def split: raw_origin.split
        intro!: wp_native wp_reserve keep
        intro: backed_new_order [OF assms(1) refl])
       (auto intro!: backed_new_order [OF assms(1) refl] simp: reserved_def)
qed

lemma backed_new_take:
  assumes "backed cfg short s" "SellOrders s i = Some x"
    and res: "\<And>a z. reserved cfg t a z = reserved cfg s a z
      + only (quote (sell_pair (sell_order x))) (take_from_to tk) (cost tk (take_amount (taken tk))) a z"
    and "SellOrders t = SellOrders s" "Takes t = (Takes s)(i \<mapsto> takes_of s i @ [tk])" "OrdersIndex t = OrdersIndex s"
    and fit: "cost tk (take_amount (taken tk)) \<le> u128_max"
  shows "backed cfg short t"
proof -
  have takes: "takes_of t i = takes_of s i @ [tk]" "j \<noteq> i \<Longrightarrow> takes_of t j = takes_of s j" for j
    using assms(5) by (simp_all add: takes_of_def)
  have fin: "finite (dom (SellOrders s))" "i \<in> dom (SellOrders s)" using assms(1,2) by (auto simp: backed_def)
  have "(\<Sum>j \<in> dom (SellOrders t). order_claim t a z j) \<le> reserved cfg t a z + short a z" for a z
  proof -
    have "order_claim t a z i = order_claim s a z i
        + only (quote (sell_pair (sell_order x))) (take_from_to tk) (cost tk (take_amount (taken tk))) a z"
      using assms(2,4) takes by (simp add: order_claim_def of_order_def quotes_of_best_first quotes_of_snoc)
    moreover have "order_claim t a z j = order_claim s a z j" if "j \<noteq> i" for j
      using that assms(4,5) unfolding order_claim_def by (intro of_order_cong) auto
    ultimately have "(\<Sum>j \<in> dom (SellOrders s). order_claim t a z j) = (\<Sum>j \<in> dom (SellOrders s). order_claim s a z j)
        + only (quote (sell_pair (sell_order x))) (take_from_to tk) (cost tk (take_amount (taken tk))) a z"
      using fin by (simp add: sum.remove [of _ i])
    then show ?thesis using assms(1,4) res [of a z] by (simp add: backed_def)
  qed
  moreover have "\<forall>t' \<in> set (takes_of t j). cost t' (take_amount (taken t')) \<le> u128_max" for j
    using assms(1) fit takes by (cases "j = i") (auto simp: backed_def)
  ultimately show ?thesis
    using assms(1,4-6) fin(2) by (auto simp: backed_def)
qed

lemma backed_take:
  assumes "backed cfg short s"
  shows "backed cfg short (snd (auction_take cfg orig i tk s))"
proof (cases "quote_amount (AuctionMulDiv cfg) tk (take_amount tk)")
  case (Inl e)
  then show ?thesis
    unfolding auction_take_def engine_take_def wp_state [symmetric] using assms
    by (simp add: wp_simps Let_def quote_limit_amount_def split: raw_origin.split option.split sum.split)
next
  case (Inr q)
  then have q: "cost \<lparr>take_from_to = x, taken = tk\<rparr> (take_amount tk) = q" "q \<le> u128_max" for x
    using quote_amount_exact [of "\<lparr>take_from_to = x, taken = tk\<rparr>" "take_amount tk"] by (auto split: if_splits)
  show ?thesis
    unfolding auction_take_def engine_take_def wp_state [symmetric] using assms Inr
    by (auto simp: wp_simps Let_def quote_limit_amount_def split: raw_origin.split option.split sum.split
        intro!: wp_reserve backed_new_take [OF assms, where tk = "\<lparr>take_from_to = _, taken = tk\<rparr>"])
       (auto simp: takes_of_def reserved_def q split: option.split)
qed

lemma liquidate_cases:
  assumes "auction_liquidate cfg orig i s = (r, t)"
  obtains (refused) e where "r = Inl e" "t = s"
  | (failed) x e d where "r = Inl e" "SellOrders s i = Some x" "orig = SignedOrigin (sell_from_to x)" "t = s\<lparr>auction_currency := d\<rparr>"
      "\<And>a z. reserved cfg s a z \<le> reserved cfg t a z + only (base (sell_pair (sell_order x))) (sell_from_to x) (order_amount x) a z"
  | (removed) x d es where "r = Inr ()" "SellOrders s i = Some x"
      "t = s\<lparr>auction_currency := d, SellOrders := (SellOrders s)(i := None), auction_events := es\<rparr>"
      "\<And>a z. reserved cfg s a z \<le> reserved cfg t a z + only (base (sell_pair (sell_order x))) (sell_from_to x) (order_amount x) a z"
proof (cases "\<exists>x. SellOrders s i = Some x \<and> orig = SignedOrigin (sell_from_to x)")
  case False
  then show thesis
    using assms refused
    by (cases orig; cases "SellOrders s i") (auto simp: auction_liquidate_def call_eval split: if_splits)
next
  case True
  then obtain x where x: "SellOrders s i = Some x" "orig = SignedOrigin (sell_from_to x)" by blast
  let ?b = "base (sell_pair (sell_order x))" and ?who = "sell_from_to x"
  let ?c = "snd (l_unreserve (AuctionCurrency cfg) ?b ?who (order_amount x) (auction_currency s))"
  obtain q d where q: "AuctionNativeTransfer cfg (AuctionTreasury cfg) ?who (auction_deposit (sell_context x)) True ?c = (q, d)"
    by fastforce
  have res: "reserved cfg s a z \<le> reserved cfg (s\<lparr>auction_currency := d\<rparr>) a z + only ?b ?who (order_amount x) a z" for a z
    using native_reserves [of a z "AuctionTreasury cfg" ?who "auction_deposit (sell_context x)" True ?c]
      l_unreserve_never_adds [of a z "auction_currency s" ?b ?who "order_amount x"] q
    by (simp add: reserved_def)
  note eval = auction_liquidate_def call_eval auction_unreserve_def on_auction_currency_def auction_deposit_event_def x q
  show thesis
  proof (cases q)
    case (Inl e)
    then show thesis using assms res by (intro failed [OF _ x, of e d]) (auto simp: eval)
  next
    case (Inr n)
    then have "t = s\<lparr>auction_currency := d, SellOrders := (SellOrders s)(i := None), auction_events := auction_events s @ [OrderRemoved i]\<rparr>" "r = Inr ()"
      using assms by (auto simp: eval)
    then show thesis using res by (intro removed [OF _ x(1)]) (auto simp: reserved_def)
  qed
qed

lemma backed_removed:
  assumes "backed cfg short s" "SellOrders s i = Some x" "SellOrders t = (SellOrders s)(i := None)" "Takes t = Takes s" "OrdersIndex t = OrdersIndex s"
    and res: "\<And>a z. reserved cfg s a z \<le> reserved cfg t a z + only (base (sell_pair (sell_order x))) (sell_from_to x) (order_amount x) a z"
  shows "backed cfg short t"
proof -
  let ?o = "only (base (sell_pair (sell_order x))) (sell_from_to x) (order_amount x)"
  have fin: "finite (dom (SellOrders s))" "i \<in> dom (SellOrders s)" using assms(1,2) by (auto simp: backed_def)
  have "(\<Sum>j \<in> dom (SellOrders t). order_claim t a z j) \<le> reserved cfg t a z + short a z" for a z
  proof -
    have "?o a z \<le> order_claim s a z i" using assms(2) by (simp add: order_claim_def of_order_def)
    moreover have "(\<Sum>j \<in> dom (SellOrders t). order_claim t a z j) = (\<Sum>j \<in> dom (SellOrders s) - {i}. order_claim s a z j)"
      using assms(3,4) unfolding order_claim_def by (intro sum.cong of_order_cong) auto
    moreover have "(\<Sum>j \<in> dom (SellOrders s). order_claim s a z j) \<le> reserved cfg s a z + short a z" using assms(1) by (simp add: backed_def)
    ultimately show ?thesis using fin res [of a z] by (simp add: sum.remove [of _ i])
  qed
  then show ?thesis
    using assms(1,3-5) takes_of_cong [of t _ s] by (auto simp: backed_def)
qed

lemma backed_liquidate:
  assumes "backed cfg short s" "auction_liquidate cfg orig i s = (r, t)"
  shows "backed cfg (\<lambda>a z. short a z + liquidation_lost r orig i s a z) t"
  using assms(2)
proof (cases rule: liquidate_cases)
  case (refused e)
  then show ?thesis using backed_cong [OF refl refl le_refl _ assms(1)] by simp
next
  case (failed x e d)
  show ?thesis
  proof (rule backed_cong [OF _ _ _ _ assms(1)])
    show "reserved cfg s a z + short a z \<le> reserved cfg t a z + (short a z + liquidation_lost r orig i s a z)" for a z
      using failed(1-3) failed(5) [of a z] by (simp add: liquidation_lost_def)
  qed (simp_all add: failed(4))
next
  case (removed x d es)
  have "backed cfg short t" by (rule backed_removed [OF assms(1) removed(2) _ _ _ removed(4)]) (simp_all add: removed(3))
  then show ?thesis using removed(1) by (simp add: liquidation_lost_def)
qed

text \<open>Whatever the reserves are, a settlement that ends draws on them at most what it was asked to.\<close>

definition draws :: "'c auction_state \<Rightarrow> 'c auction_state \<Rightarrow> (asset_id \<Rightarrow> account_id \<Rightarrow> nat) \<Rightarrow> bool" where
  "draws s t n \<longleftrightarrow> SellOrders t = SellOrders s \<and> Takes t = Takes s \<and> OrdersIndex t = OrdersIndex s \<and>
     (\<forall>a z. reserved cfg s a z \<le> reserved cfg t a z + n a z)"

lemma draws_trans:
  assumes "draws s t n" "draws t u m" "\<And>a z. n a z + m a z \<le> l a z"
  shows "draws s u l"
proof -
  have first: "reserved cfg s a z \<le> reserved cfg t a z + n a z" and rest: "reserved cfg t a z \<le> reserved cfg u a z + m a z" for a z
    using assms(1,2) by (simp_all add: draws_def)
  have "reserved cfg s a z \<le> reserved cfg u a z + l a z" for a z
    using first [of a z] rest [of a z] assms(3) [of a z] by linarith
  then show ?thesis using assms(1,2) by (simp add: draws_def)
qed

lemma draws_unreserve: "auction_unreserve cfg a x n s = (Inr u, t) \<Longrightarrow> draws s t (only a x n)"
  using l_unreserve_never_adds by (auto simp: auction_unreserve_def modifies_def draws_def reserved_def)

lemma draws_transfer: "on_auction_currency (l_transfer (AuctionCurrency cfg) a x y n) s = (Inr u, t) \<Longrightarrow> draws s t (\<lambda>_ _. 0)"
  using l_transfer_reserved by (auto simp: on_auction_currency_def zoom_def draws_def reserved_def split: prod.splits)

lemma draws_exchange:
  assumes "exchange_reserved cfg b seller k q taker n s = (Inr u, t)"
  shows "draws s t (\<lambda>a z. only b seller k a z + only q taker n a z)"
proof -
  obtain s1 s2 s3 u1 u2 u3 where
    "auction_unreserve cfg b seller k s = (Inr u1, s1)" "auction_unreserve cfg q taker n s1 = (Inr u2, s2)"
    "on_auction_currency (l_transfer (AuctionCurrency cfg) b seller taker k) s2 = (Inr u3, s3)"
    "on_auction_currency (l_transfer (AuctionCurrency cfg) q taker seller n) s3 = (Inr u, t)"
    using assms by (auto simp: exchange_reserved_def ok_thenM)
  then have "draws s s2 (\<lambda>a z. only b seller k a z + only q taker n a z)" "draws s2 t (\<lambda>_ _. 0)"
    using draws_trans [OF draws_unreserve draws_unreserve] draws_trans [OF draws_transfer draws_transfer] by auto
  then show ?thesis by (rule draws_trans) simp
qed

lemma quote_amount_cost: "quote_amount (AuctionMulDiv cfg) (taken t) k = Inr q \<Longrightarrow> q = cost t k"
  using quote_amount_exact [of t k] by (auto split: if_splits)

lemma settle_takes_draws:
  assumes "settle_takes cfg pair seller amount ts s = (Inr left, t)"
  shows "left = amount - sold amount ts \<and>
    draws s t (\<lambda>a z. only (base pair) seller (sold amount ts) a z + quotes_of pair ts a z)"
  using assms
proof (induction ts arbitrary: amount s)
  case Nil
  then show ?case by (simp add: ret_def sold_def quotes_of_def draws_def)
next
  case (Cons tk ts)
  define k where "k = min (take_amount (taken tk)) amount"
  define Q where "Q = cost tk (take_amount (taken tk))"
  have "\<exists>s1. settle_takes cfg pair seller (amount - k) ts s1 = (Inr left, t) \<and>
    draws s s1 (\<lambda>a z. only (base pair) seller k a z + only (quote pair) (take_from_to tk) Q a z)"
  proof (cases "amount = 0")
    case True
    then obtain s1 u where "auction_unreserve cfg (quote pair) (take_from_to tk) Q s = (Inr u, s1)"
      "settle_takes cfg pair seller amount ts s1 = (Inr left, t)"
      using Cons.prems by (auto simp: ok_simps expects_def quote_limit_amount_def Q_def dest!: quote_amount_cost)
    moreover have "k = 0" using True by (simp add: k_def)
    moreover have "only (base pair) seller 0 a z = 0" for a z by (simp add: only_def)
    ultimately show ?thesis using True draws_unreserve [of "quote pair" "take_from_to tk" Q s] by (intro exI [of _ s1]) simp
  next
    case False
    obtain s1 s2 u1 u2 where ex: "exchange_reserved cfg (base pair) seller k (quote pair) (take_from_to tk) (cost tk k) s = (Inr u1, s1)"
      and un: "(if cost tk k < Q then auction_unreserve cfg (quote pair) (take_from_to tk) (Q - cost tk k) else ret ()) s1 = (Inr u2, s2)"
      and rest: "settle_takes cfg pair seller (amount - k) ts s2 = (Inr left, t)"
      using Cons.prems False
      by (auto simp: ok_simps expects_def quote_limit_amount_def k_def [symmetric] Q_def Let_def dest!: quote_amount_cost)
    have le: "cost tk k \<le> Q" by (simp add: k_def Q_def cost_mono)
    have "draws s1 s2 (only (quote pair) (take_from_to tk) (Q - cost tk k))"
      using un draws_unreserve by (auto simp: ret_def draws_def split: if_splits)
    then have "draws s s2 (\<lambda>a z. only (base pair) seller k a z + only (quote pair) (take_from_to tk) Q a z)"
      using le by (intro draws_trans [OF draws_exchange [OF ex]]) (auto simp: only_def)
    then show ?thesis using rest by blast
  qed
  then obtain s1 where s1: "settle_takes cfg pair seller (amount - k) ts s1 = (Inr left, t)"
    "draws s s1 (\<lambda>a z. only (base pair) seller k a z + only (quote pair) (take_from_to tk) Q a z)" by blast
  have sums: "sold amount (tk # ts) = k + sold (amount - k) ts"
    "quotes_of pair (tk # ts) a z = only (quote pair) (take_from_to tk) Q a z + quotes_of pair ts a z" for a z
    by (simp_all add: sold_def quotes_of_def k_def Q_def Let_def)
  show ?case
    using Cons.IH [OF s1(1)] by (auto simp: sums only_add intro!: draws_trans [OF s1(2)])
qed

lemma settle_order_draws:
  assumes "settle_order cfg i s = (Inr u, t)"
  shows "Takes t = Takes s \<and> OrdersIndex t = OrdersIndex s \<and> SellOrders t = (SellOrders s)(i := settled s i)
     \<and> (\<forall>a z. reserved cfg s a z \<le> reserved cfg t a z + order_released s a z i)"
proof (cases "SellOrders s i")
  case None
  then show ?thesis using assms by (auto simp: settle_order_def call_eval settled_def fun_upd_idem)
next
  case (Some x)
  let ?ts = "best_first (takes_of s i)"
  obtain left t1 where t1: "settle_takes cfg (sell_pair (sell_order x)) (sell_from_to x) (order_amount x) ?ts s = (Inr left, t1)"
    and t: "t = (if left = 0 then t1\<lparr>SellOrders := (SellOrders t1)(i := None), auction_events := auction_events t1 @ [OrderRemoved i]\<rparr> else t1)"
    using assms Some by (auto simp: settle_order_def takes_of_def ok_simps auction_deposit_event_def split: if_splits)
  note run = settle_takes_draws [OF t1]
  have "left = 0 \<longleftrightarrow> sold (order_amount x) ?ts = order_amount x" using run sold_le [of "order_amount x" ?ts] by auto
  then show ?thesis
    using run Some by (auto simp: t draws_def settled_def reserved_def order_released_def of_order_def add.assoc)
qed

lemma settle_orders_draws:
  "distinct ids \<Longrightarrow> for_each ids (settle_order cfg) s = (Inr u, t) \<Longrightarrow> Takes t = Takes s \<and> OrdersIndex t = OrdersIndex s
     \<and> (\<forall>j. SellOrders t j = (if j \<in> set ids then settled s j else SellOrders s j))
     \<and> (\<forall>a z. reserved cfg s a z \<le> reserved cfg t a z + sum_list (map (order_released s a z) ids))"
proof (induction ids arbitrary: s)
  case (Cons i ids)
  obtain u1 s1 where s1: "settle_order cfg i s = (Inr u1, s1)" "for_each ids (settle_order cfg) s1 = (Inr u, t)"
    using Cons.prems(2) by (auto simp: ok_thenM)
  note one = settle_order_draws [OF s1(1)] and rest = Cons.IH [OF _ s1(2)]
  have same: "of_order f s1 j = of_order f s j" "settled s1 j = settled s j" if "j \<in> set ids" for f j
    using that Cons.prems(1) one by (auto intro: of_order_cong settled_cong)
  then have map: "map (order_released s1 a z) ids = map (order_released s a z) ids" for a z by (simp add: order_released_def)
  have first: "reserved cfg s a z \<le> reserved cfg s1 a z + order_released s a z i" for a z using one by simp
  have others: "reserved cfg s1 a z \<le> reserved cfg t a z + sum_list (map (order_released s1 a z) ids)" for a z
    using rest Cons.prems(1) by simp
  have "reserved cfg s a z \<le> reserved cfg t a z + sum_list (map (order_released s a z) (i # ids))" for a z
    using first [of a z] others [of a z] unfolding map [of a z] by simp
  then show ?case using one rest Cons.prems(1) same(2) by auto
qed (simp add: ret_def)

lemma claims_settled:
  assumes "Takes t i = None" "SellOrders t i = settled s i"
  shows "order_claim t a z i + order_released s a z i = order_claim s a z i + order_partly s a z i"
  using assms
  by (auto simp: order_sums of_order_def order_partly_def settled_def takes_of_def best_first_def quotes_of_def
      split: option.splits if_splits)

lemma backed_finalize:
  assumes ok: "backed cfg short s" and run: "auction_on_finalize cfg s = (Inr u, t)"
  shows "backed cfg (\<lambda>a z. short a z + (\<Sum>i \<in> dom (Takes s). order_partly s a z i)) t"
proof -
  let ?ids = "TakesIter cfg (Takes s)" and ?K = "dom (Takes s)" and ?D = "dom (SellOrders s)"
  have ids: "distinct ?ids" "set ?ids = ?K" using takes_listed ok by (auto simp: backed_def)
  obtain v t1 where t1: "for_each ?ids (settle_order cfg) s = (Inr v, t1)" and t: "t = t1\<lparr>Takes := Map.empty\<rparr>"
    using run by (auto simp: auction_on_finalize_def ok_simps)
  note fin_run = settle_orders_draws [OF ids(1) t1]
  have orders: "SellOrders t j = (if j \<in> ?K then settled s j else SellOrders s j)" for j using fin_run ids(2) t by simp
  have res: "reserved cfg s a z \<le> reserved cfg t a z + (\<Sum>i \<in> ?K. order_released s a z i)" for a z
    using fin_run ids by (simp add: t reserved_def sum_list_distinct_conv_sum_set)
  have fin: "finite ?K" "finite ?D" using ok by (simp_all add: backed_def)
  have sub: "dom (SellOrders t) \<subseteq> ?D" using orders by (auto simp: settled_def split: if_splits option.splits)
  have none: "order_claim t a z i = 0" if "i \<notin> dom (SellOrders t)" for a z i
    using that by (auto simp: order_claim_def of_order_def split: option.split)
  have gone: "order_released s a z i = 0" "order_partly s a z i = 0" if "i \<notin> ?D" for a z i
    using that by (auto simp: order_released_def order_partly_def settled_def of_order_def split: option.split)
  have "order_claim t a z i + (if i \<in> ?K then order_released s a z i else 0)
      = order_claim s a z i + (if i \<in> ?K then order_partly s a z i else 0)" for a z i
  proof (cases "i \<in> ?K")
    case True
    then show ?thesis using claims_settled [of t i s a z] orders [of i] by (simp add: t)
  next
    case False
    then have "of_order f t i = of_order f s i" for f using orders [of i] by (intro of_order_cong) (auto simp: t domIff)
    then show ?thesis using False by (simp add: order_claim_def)
  qed
  then have "(\<Sum>i \<in> ?D. order_claim t a z i) + (\<Sum>i \<in> ?D. if i \<in> ?K then order_released s a z i else 0)
      = (\<Sum>i \<in> ?D. order_claim s a z i) + (\<Sum>i \<in> ?D. if i \<in> ?K then order_partly s a z i else 0)" for a z
    by (simp flip: sum.distrib)
  moreover have "(\<Sum>i \<in> ?D. if i \<in> ?K then f i else 0) = (\<Sum>i \<in> ?K. f i)" if "\<And>i. i \<notin> ?D \<Longrightarrow> f i = 0" for f :: "order_id \<Rightarrow> nat"
    using fin that by (simp add: sum.inter_restrict [symmetric] Int_commute) (intro sum.mono_neutral_left; auto)
  ultimately have moved: "(\<Sum>i \<in> ?D. order_claim t a z i) + (\<Sum>i \<in> ?K. order_released s a z i)
      = (\<Sum>i \<in> ?D. order_claim s a z i) + (\<Sum>i \<in> ?K. order_partly s a z i)" for a z
    using gone by simp
  have before: "(\<Sum>i \<in> ?D. order_claim s a z i) \<le> reserved cfg s a z + short a z" for a z using ok by (simp add: backed_def)
  have "(\<Sum>i \<in> dom (SellOrders t). order_claim t a z i) = (\<Sum>i \<in> ?D. order_claim t a z i)" for a z
    using fin sub none by (intro sum.mono_neutral_left) auto
  then have "(\<Sum>i \<in> dom (SellOrders t). order_claim t a z i)
      \<le> reserved cfg t a z + (short a z + (\<Sum>i \<in> ?K. order_partly s a z i))" for a z
    using moved [of a z] before [of a z] res [of a z] by simp
  moreover have "finite (dom (SellOrders t))" using fin(2) sub by (rule rev_finite_subset)
  moreover have "i \<le> OrdersIndex t" if "i \<in> dom (SellOrders t)" for i
    using that sub ok fin_run by (auto simp: backed_def t)
  ultimately show ?thesis by (simp add: backed_def t takes_of_def)
qed

lemma run_backed: "auction_run cfg short s \<Longrightarrow> backed cfg short s"
proof (induction rule: auction_run.induct)
  case (start s)
  then show ?case by (simp add: backed_def takes_of_def)
next
  case (time short s now)
  then show ?case by (intro backed_cong [of "s\<lparr>auction_now := now\<rparr>" s cfg short]) (simp_all add: reserved_def)
next
  case (currency short s c)
  then show ?case by (intro backed_cong [of "s\<lparr>auction_currency := c\<rparr>" s cfg short]) simp_all
qed (simp_all add: backed_ask backed_take backed_liquidate backed_finalize)

lemma finalize_run:
  assumes "backed cfg short s" and free: "\<And>a z. 0 < short a z \<Longrightarrow> (\<Sum>i \<in> dom (Takes s). order_claim s a z i) = 0"
  shows "\<exists>t. auction_on_finalize cfg s = (Inr (), t) \<and> Takes t = Map.empty
     \<and> (\<forall>i. SellOrders t i = (if i \<in> dom (Takes s) then settled s i else SellOrders s i))
     \<and> (\<forall>a z. reserved cfg t a z + (\<Sum>i \<in> dom (Takes s). order_released s a z i) = reserved cfg s a z)
     \<and> (\<forall>a z. funds cfg usable t a z + (\<Sum>i \<in> dom (Takes s). order_pays s a z i)
          = funds cfg usable s a z + (\<Sum>i \<in> dom (Takes s). order_receives s a z i))"
proof -
  let ?ids = "TakesIter cfg (Takes s)"
  have ids: "distinct ?ids" "set ?ids = dom (Takes s)" using takes_listed assms(1) by (auto simp: backed_def)
  have list_sum: "sum_list (map f ?ids) = (\<Sum>i \<in> dom (Takes s). f i)" for f :: "order_id \<Rightarrow> nat"
    using ids by (simp add: sum_list_distinct_conv_sum_set)
  have "sum_list (map (order_claim s a z) ?ids) \<le> reserved cfg s a z" for a z
  proof (cases "0 < short a z")
    case True
    then show ?thesis using free list_sum by simp
  next
    case False
    have "order_claim s a z i = 0" if "i \<notin> dom (SellOrders s)" for i
      using that by (auto simp: order_claim_def of_order_def domIff split: option.split)
    then have "(\<Sum>i \<in> dom (Takes s). order_claim s a z i) = (\<Sum>i \<in> dom (Takes s) \<inter> dom (SellOrders s). order_claim s a z i)"
      using assms(1) by (intro sum.mono_neutral_right) (auto simp: backed_def)
    also have "\<dots> \<le> (\<Sum>i \<in> dom (SellOrders s). order_claim s a z i)"
      using assms(1) by (intro sum_mono2) (auto simp: backed_def)
    also have "\<dots> \<le> reserved cfg s a z + short a z" using assms(1) by (simp add: backed_def)
    finally show ?thesis using False list_sum by simp
  qed
  from settle_orders_run [OF ids(1) _ this] assms(1) obtain t where
    t: "for_each ?ids (settle_order cfg) s = (Inr (), t)"
      "\<And>j. SellOrders t j = (if j \<in> set ?ids then settled s j else SellOrders s j)"
      "\<And>a z. reserved cfg t a z + sum_list (map (order_released s a z) ?ids) = reserved cfg s a z"
      "\<And>a z. funds cfg usable t a z + sum_list (map (order_pays s a z) ?ids)
          = funds cfg usable s a z + sum_list (map (order_receives s a z) ?ids)" by (auto simp: backed_def)
  then show ?thesis
    using ids(2) by (intro exI [of _ "t\<lparr>Takes := Map.empty\<rparr>"])
      (simp add: auction_on_finalize_def call_eval list_sum reserved_def funds_def)
qed

lemma wp_engine_ask:
  assumes "\<And>i t. SellOrders t i = Some \<lparr>sell_from_to = x, sell_order = sell, sell_configuration = f,
              sell_context = \<lparr>added_at = auction_now s, auction_deposit = AuctionFee cfg\<rparr>\<rparr> \<Longrightarrow>
            (\<And>a z. reserved cfg t a z = reserved cfg s a z + only (base (sell_pair sell)) x (take_amount (sell_take sell)) a z) \<Longrightarrow>
            sell_is_valid sell \<Longrightarrow> Q i t"
    and "\<And>e t. (\<And>a z. reserved cfg t a z = reserved cfg s a z) \<Longrightarrow> auction_now t = auction_now s \<Longrightarrow> E e t"
  shows "wp (engine_ask cfg x sell f) Q E s"
  unfolding engine_ask_def
  by (auto simp: wp_simps Let_def intro!: wp_native wp_reserve assms) (auto simp: reserved_def)

end

section \<open>A concrete auction\<close>

definition sample_auction :: "lock_book auction_config" where
  "sample_auction =
     \<lparr>AuctionCurrency = book_multi, AuctionNativeTransfer = (\<lambda>x y n k. thenM (book_transfer 0 x y n) (ret n)),
      AuctionFee = 3, AuctionTreasury = 99, AuctionMulDiv = reference_mul_div, AuctionFixed = reference_fixed,
      OrderIdMax = u128_max, TakesIter = (\<lambda>m. sorted_list_of_set (dom m))\<rparr>"

interpretation sample: auction sample_auction book_usable
proof -
  have "reserving_currency (AuctionCurrency sample_auction) book_usable"
    by (simp add: sample_auction_def book_reserving.reserving_currency_axioms)
  then show "auction sample_auction book_usable"
    by (intro auction.intro auction_axioms.intro)
       (auto simp: sample_auction_def exact_reference_mul_div book_defs call_eval split: prod.split sum.split if_splits)
qed

text \<open>Account 1 sells 100 of asset 5 at two of asset 6 each; accounts 2 and 3 have asset 6.\<close>

definition sample_auction_start :: "lock_book auction_state" where
  "sample_auction_start =
     \<lparr>OrdersIndex = 0, SellOrders = Map.empty, Takes = Map.empty, auction_events = [], auction_now = 1000,
      auction_currency = \<lparr>free = (\<lambda>a x. if a = 0 then 10 else if a = 5 \<and> x = 1 then 100
          else if a = 6 \<and> (x = 2 \<or> x = 3) then 500 else 0), held = (\<lambda>_ _. 0), locks = (\<lambda>_ _ _. 0)\<rparr>\<rparr>"

definition sample_sell :: sell where
  "sample_sell = sell_new 5 6 100 (2 * fixed_div)"

definition sample_curve :: time_release_function where
  "sample_curve = LinearDecrease \<lparr>ld_total = 600\<rparr>"

definition sample_bid :: "balance \<Rightarrow> nat \<Rightarrow> take" where
  "sample_bid n limit = \<lparr>take_amount = n, take_limit = limit * fixed_div\<rparr>"

definition sample_asked :: "lock_book auction_state" where
  "sample_asked = snd (auction_ask sample_auction (SignedOrigin 1) sample_sell sample_curve sample_auction_start)"

definition sample_taken :: "lock_book auction_state" where
  "sample_taken = snd (auction_take sample_auction (SignedOrigin 3) 1 (sample_bid 60 2)
     (snd (auction_take sample_auction (SignedOrigin 2) 1 (sample_bid 60 3) sample_asked)))"

lemmas auction_eval =
  sample_auction_def sample_auction_start_def sample_sell_def sell_new_def sample_curve_def sample_bid_def
  auction_ask_def engine_ask_def auction_take_def engine_take_def call_eval Let_def on_auction_currency_def
  sell_is_valid_def take_is_valid_def wrapping_next_def saturating_add_def wrapping_sub_def u128_max_def u64_max_def
  book_defs book_reserve_def moved_def credited_def debited_def auction_deposit_event_def quote_limit_amount_def
  quote_amount_def reference_mul_div_def fixed_div_def curve_price_def linear_price_def reference_fixed_def fits_def
  saturating_sub_def fx_safe_mul_def fx_safe_div_def

lemma sample_orders:
  "SellOrders sample_taken 1 = Some \<lparr>sell_from_to = 1, sell_order = sample_sell, sell_configuration = sample_curve,
     sell_context = \<lparr>added_at = 1000, auction_deposit = 3\<rparr>\<rparr>"
  "Takes sample_taken = [1 \<mapsto> [\<lparr>take_from_to = 2, taken = sample_bid 60 3\<rparr>, \<lparr>take_from_to = 3, taken = sample_bid 60 2\<rparr>]]"
  by (simp_all add: sample_taken_def sample_asked_def auction_eval)

section \<open>Liquidations\<close>

text \<open>What a successful liquidation leaves, against the auction it began with.\<close>

definition placed where
  "placed cfg from_to sell i before t f \<longleftrightarrow>
     (\<exists>x. SellOrders t i = Some x \<and> sell_from_to x = from_to \<and> sell_order x = sell \<and> sell_configuration x = f)
     \<and> sell_is_valid sell
     \<and> (\<forall>a z. reserved cfg t a z = before a z + only (base (sell_pair sell)) from_to (take_amount (sell_take sell)) a z)"

lemma try_strategies_places:
  assumes eng: "auction (LiquidationsAuction cfg) usable"
  shows "try_strategies cfg from_to sell ids s = (Inr i, t) \<Longrightarrow>
    reserved (LiquidationsAuction cfg) (liquidations_auction s) = before \<Longrightarrow>
    \<exists>j f. j \<in> set ids \<and> Strategies s j = Some (DutchAuctionStrategy f)
      \<and> placed (LiquidationsAuction cfg) from_to sell i before (liquidations_auction t) f"
proof (induction ids arbitrary: s)
  case Nil
  then show ?case by (simp add: fail_def)
next
  case (Cons j ids)
  show ?case
  proof (cases "Strategies s j")
    case None
    then have "try_strategies cfg from_to sell ids s = (Inr i, t)"
      using Cons.prems(1) by (simp add: bindM_def reads_def)
    from Cons.IH [OF this Cons.prems(2)] show ?thesis by auto
  next
    case (Some c)
    then obtain f where c: "c = DutchAuctionStrategy f"
      using Cons.prems(1) by (cases c) (auto simp: bindM_def reads_def fail_def)
    obtain r u where run: "engine_ask (LiquidationsAuction cfg) from_to sell f (liquidations_auction s) = (r, u)" by fastforce
    have "wp (engine_ask (LiquidationsAuction cfg) from_to sell f)
        (\<lambda>i u. placed (LiquidationsAuction cfg) from_to sell i before u f)
        (\<lambda>_ u. reserved (LiquidationsAuction cfg) u = before) (liquidations_auction s)"
      using Cons.prems(2) by (intro auction.wp_engine_ask [OF eng]) (auto simp: placed_def fun_eq_iff)
    then have out: "case r of Inl _ \<Rightarrow> reserved (LiquidationsAuction cfg) u = before
        | Inr i \<Rightarrow> placed (LiquidationsAuction cfg) from_to sell i before u f"
      using run by (simp add: wp_def)
    show ?thesis
    proof (cases r)
      case (Inl e)
      then have "try_strategies cfg from_to sell ids (s\<lparr>liquidations_auction := u\<rparr>) = (Inr i, t)"
        using Cons.prems(1) run Some c by (simp add: bindM_def reads_def on_auction_def zoom_def)
      from Cons.IH [OF this] out Inl show ?thesis by auto
    next
      case (Inr k)
      then show ?thesis
        using Cons.prems(1) run Some c out
        by (intro exI [of _ j] exI [of _ f]) (auto simp: bindM_def reads_def on_auction_def zoom_def)
    qed
  qed
qed

lemma try_strategies_unknown:
  "\<forall>j \<in> set ids. Strategies s j = None \<Longrightarrow>
     try_strategies cfg from_to sell ids s = (Inl (LiquidationsErr NoLiquidationEngineFound), s)"
  by (induction ids) (simp_all add: fail_def bindM_def reads_def)

section \<open>Where the code departs from its intent\<close>

lemmas settle_eval =
  auction_on_finalize_def settle_order_def best_first_def exchange_reserved_def auction_unreserve_def expects_def
  auction_liquidate_def book_unreserve_def

text \<open>
  A partly filled order keeps its whole amount in storage, while the seller has only the rest
  reserved. A later take of the whole amount aborts the block.
\<close>

definition sample_partly :: "lock_book auction_state" where
  "sample_partly = snd (auction_on_finalize sample_auction
     (snd (auction_take sample_auction (SignedOrigin 2) 1 (sample_bid 60 2) sample_asked)))"

lemma partial_fill_keeps_amount:
  "map_option order_amount (SellOrders sample_partly 1) = Some 100 \<and> reserved sample_auction sample_partly 5 1 = 40"
  by (simp add: sample_partly_def sample_asked_def auction_eval settle_eval reserved_def)

lemma partial_fill_aborts_block:
  "fst (auction_on_finalize sample_auction
     (snd (auction_take sample_auction (SignedOrigin 3) 1 (sample_bid 100 2) sample_partly)))
   = Inl (Panic ''we forced locks beforehand'')"
  by (simp add: sample_partly_def sample_asked_def auction_eval settle_eval)

text \<open>The funds of a take stay reserved when its order is liquidated in the same block.\<close>

lemma liquidated_take_stays_reserved:
  "let s = snd (auction_on_finalize sample_auction (snd (auction_liquidate sample_auction (SignedOrigin 1) 1 sample_taken)))
   in Takes s = Map.empty \<and> SellOrders s 1 = None \<and> reserved sample_auction s 6 2 = 180"
  by (simp add: sample_taken_def sample_asked_def auction_eval settle_eval reserved_def)

text \<open>An order whose amount cannot be reserved is refused, but its fee is kept.\<close>

lemma refused_ask_keeps_fee:
  "let (r, s) = auction_ask sample_auction (SignedOrigin 2) sample_sell sample_curve sample_auction_start
   in (\<exists>e. r = Inl e) \<and> free (auction_currency s) 0 2 = 7 \<and> SellOrders s = Map.empty"
  by (simp add: auction_eval)

section \<open>Properties\<close>

text \<open>
  C9. At the end of any block of any history, the hook settles every take of an order that is still stored, without a
  panic, unless an order with takes in this block draws on a reserve that has gone short: because an earlier block
  filled an order of the seller in part, a liquidation failed after unreserving, or other code took from the
  reserve. Per order, the takes are served in the order of their limits, each gets what is left up to its amount and pays
  its own limit for it; what the takers reserved for these orders is used or released, orders that are sold out are
  removed, and no other funds move.
\<close>

theorem auction_block_settles:
  assumes "auction cfg usable" "auction_run cfg short s"
    and "\<And>a z. 0 < short a z \<Longrightarrow> (\<Sum>i \<in> dom (Takes s). order_claim s a z i) = 0"
  shows "\<exists>t. auction_on_finalize cfg s = (Inr (), t) \<and> Takes t = Map.empty
     \<and> (\<forall>i. SellOrders t i = (if i \<in> dom (Takes s) then settled s i else SellOrders s i))
     \<and> (\<forall>a z. reserved cfg t a z + (\<Sum>i \<in> dom (Takes s). order_released s a z i) = reserved cfg s a z)
     \<and> (\<forall>a z. funds cfg usable t a z + (\<Sum>i \<in> dom (Takes s). order_pays s a z i)
          = funds cfg usable s a z + (\<Sum>i \<in> dom (Takes s). order_receives s a z i))"
  by (rule auction.finalize_run [OF assms(1) auction.run_backed [OF assms(1,2)] assms(3)])

theorem auction_block_settles_witness:
  "\<exists>t. auction_on_finalize sample_auction sample_taken = (Inr (), t) \<and> SellOrders t 1 = None
     \<and> funds sample_auction book_usable t 6 3 + 80 = funds sample_auction book_usable sample_taken 6 3"
proof -
  have "auction_run sample_auction (\<lambda>_ _. 0) sample_taken"
    unfolding sample_taken_def sample_asked_def
    by (intro auction_run.take auction_run.ask auction_run.start)
       (simp_all add: sample_auction_start_def sample_auction_def u128_max_def)
  from auction_block_settles [OF sample.auction_axioms this] obtain t where
    t: "auction_on_finalize sample_auction sample_taken = (Inr (), t)"
      "\<And>i. SellOrders t i = (if i \<in> dom (Takes sample_taken) then settled sample_taken i else SellOrders sample_taken i)"
      "\<And>a z. funds sample_auction book_usable t a z + (\<Sum>i \<in> dom (Takes sample_taken). order_pays sample_taken a z i)
          = funds sample_auction book_usable sample_taken a z + (\<Sum>i \<in> dom (Takes sample_taken). order_receives sample_taken a z i)"
    by blast
  have "takes_of sample_taken 1 = [\<lparr>take_from_to = 2, taken = sample_bid 60 3\<rparr>, \<lparr>take_from_to = 3, taken = sample_bid 60 2\<rparr>]"
    using sample_orders by (simp add: takes_of_def)
  then have "settled sample_taken 1 = None" "order_pays sample_taken 6 3 1 = 80" "order_receives sample_taken 6 3 1 = 0"
    using sample_orders(1)
    by (simp_all add: settled_def order_pays_def order_receives_def of_order_def best_first_def sold_def pays_def receives_def
        sample_sell_def sell_new_def sample_bid_def cost_def fixed_div_def only_def Let_def)
  moreover have "dom (Takes sample_taken) = {1}" using sample_orders(2) by simp
  ultimately show ?thesis using t(1) t(2) [of 1] t(3) [of 6 3] by (intro exI [of _ t]) simp
qed

text \<open>
  A liquidation that succeeds has placed exactly one order: for the position's owner, with the
  price curve of a strategy that was asked for, or of the default one when none was, and with the
  amount reserved, on top of what was reserved before. Without any known strategy it is refused.
\<close>

theorem liquidation_places_order:
  assumes "auction (LiquidationsAuction cfg) usable" "liquidate cfg from_to sell ids s = (Inr i, t)"
  shows "\<exists>j f x. j \<in> set (if ids = [] then [DefaultStrategyIndex s] else ids)
         \<and> Strategies s j = Some (DutchAuctionStrategy f) \<and> sell_is_valid sell
         \<and> SellOrders (liquidations_auction t) i = Some x \<and> sell_from_to x = from_to \<and> sell_order x = sell
         \<and> sell_configuration x = f
         \<and> (\<forall>a z. reserved (LiquidationsAuction cfg) (liquidations_auction t) a z
              = reserved (LiquidationsAuction cfg) (liquidations_auction s) a z
                + only (base (sell_pair sell)) from_to (take_amount (sell_take sell)) a z)"
  using assms(2) try_strategies_places [OF assms(1) _ refl, of from_to sell _ s i t]
  by (fastforce simp: liquidate_def bindM_def reads_def placed_def)

definition sample_liquidations :: "lock_book liquidations_config" where
  "sample_liquidations = \<lparr>LiquidationsAuction = sample_auction, StrategyIdMax = u32_max\<rparr>"

definition sample_liquidations_start :: "lock_book liquidations_state" where
  "sample_liquidations_start = liquidations_genesis_build sample_liquidations
     \<lparr>Strategies = Map.empty, StrategyIndex = 0, DefaultStrategyIndex = 0, liquidations_events = [],
      liquidations_auction = sample_auction_start\<rparr>"

theorem liquidation_places_order_witness:
  "\<exists>f x. Strategies sample_liquidations_start 1 = Some (DutchAuctionStrategy f)
     \<and> SellOrders (liquidations_auction (snd (liquidate sample_liquidations 1 sample_sell [] sample_liquidations_start))) 1 = Some x
     \<and> sell_configuration x = f"
proof -
  let ?s = sample_liquidations_start
  have start: "DefaultStrategyIndex ?s = 1" "liquidations_auction ?s = sample_auction_start"
    "Strategies ?s (Suc 0) = Some (DutchAuctionStrategy sample_curve)"
    by (simp_all add: sample_liquidations_start_def liquidations_genesis_build_def create_strategy_id_def
        sample_liquidations_def wrapping_next_def saturating_add_def u32_max_def Let_def sample_curve_def)
  have "fst (engine_ask sample_auction 1 sample_sell sample_curve sample_auction_start) = Inr 1"
    by (simp add: auction_eval)
  then obtain u where "engine_ask sample_auction 1 sample_sell sample_curve sample_auction_start = (Inr 1, u)"
    by (metis fst_conv surj_pair)
  then have "fst (liquidate sample_liquidations 1 sample_sell [] ?s) = Inr 1"
    by (simp add: liquidate_def start bindM_def reads_def on_auction_def zoom_def sample_liquidations_def)
  then obtain t where run: "liquidate sample_liquidations 1 sample_sell [] ?s = (Inr 1, t)"
    by (metis fst_conv surj_pair)
  have "auction (LiquidationsAuction sample_liquidations) book_usable"
    by (simp add: sample_liquidations_def sample.auction_axioms)
  from liquidation_places_order [OF this run] show ?thesis
    using start(1) run by auto
qed

end
