(* ===== verification/Sorted_Vec.thy ===== *)
theory Sorted_Vec
  imports Prelude "HOL-Library.Multiset"
begin

text \<open>
  The sorted collections of frame/composable-support/src/collections: vectors kept sorted, sorted
  sets, and sorted vectors of bounded length, with their SCALE decoding. Elements are equal only
  if they are identical, as for the derived orders of the identifiers stored in them.
\<close>

section \<open>Slices\<close>

text \<open>
  \<open>slice::binary_search\<close>: \<open>Inr\<close> the index of a match, \<open>Inl\<close> the index at which the element
  could be inserted.
\<close>

function binary_search_from :: "'a::linorder list \<Rightarrow> 'a \<Rightarrow> nat \<Rightarrow> nat \<Rightarrow> nat + nat" where
  "binary_search_from xs x left right =
     (if left < right then
        let mid = left + (right - left) div 2
        in if xs ! mid < x then binary_search_from xs x (mid + 1) right
           else if x < xs ! mid then binary_search_from xs x left mid
           else Inr mid
      else Inl left)"
  by pat_completeness auto

termination by (relation "measure (\<lambda>(_, _, left, right). right - left)") auto

declare binary_search_from.simps [simp del]

definition binary_search :: "'a::linorder list \<Rightarrow> 'a \<Rightarrow> nat + nat" where
  "binary_search xs x = binary_search_from xs x 0 (length xs)"

text \<open>\<open>Vec::insert\<close> and \<open>Vec::remove\<close>, which panic out of range.\<close>

definition insert_at :: "nat \<Rightarrow> 'a \<Rightarrow> 'a list \<Rightarrow> 'a list option" where
  "insert_at i x xs = (if i \<le> length xs then Some (take i xs @ x # drop i xs) else None)"

definition remove_at :: "nat \<Rightarrow> 'a list \<Rightarrow> ('a \<times> 'a list) option" where
  "remove_at i xs = (if i < length xs then Some (xs ! i, take i xs @ drop (i + 1) xs) else None)"

text \<open>\<open>Vec::dedup_by_key\<close>: of adjacent elements with equal keys the first stays.\<close>

fun dedup_key :: "('a \<Rightarrow> 'k) \<Rightarrow> 'a list \<Rightarrow> 'a list" where
  "dedup_key k (x # y # xs) = (if k x = k y then dedup_key k (x # xs) else x # dedup_key k (y # xs))"
| "dedup_key k xs = xs"

text \<open>\<open>Vec::drain\<close> of a range of indices.\<close>

definition drain_range :: "nat \<Rightarrow> nat \<Rightarrow> 'a list \<Rightarrow> ('a list \<times> 'a list) option" where
  "drain_range i j xs =
     (if i \<le> j \<and> j \<le> length xs then Some (take (j - i) (drop i xs), take i xs @ drop j xs) else None)"

section \<open>Sorted vectors\<close>

record 'a sorted_vec =
  sv_vec :: "'a list"

definition sv_new :: "'a::linorder sorted_vec" where
  "sv_new = \<lparr>sv_vec = []\<rparr>"

definition sv_unchecked_from :: "'a list \<Rightarrow> 'a::linorder sorted_vec" where
  "sv_unchecked_from xs = \<lparr>sv_vec = xs\<rparr>"

definition sv_insert :: "'a::linorder \<Rightarrow> 'a sorted_vec \<Rightarrow> nat \<times> 'a sorted_vec" where
  "sv_insert x v =
     (let i = (case binary_search (sv_vec v) x of Inr i \<Rightarrow> i | Inl i \<Rightarrow> i)
      in (i, \<lparr>sv_vec = the (insert_at i x (sv_vec v))\<rparr>))"

definition sv_append_unchecked :: "'a::linorder \<Rightarrow> 'a sorted_vec \<Rightarrow> nat \<times> 'a sorted_vec" where
  "sv_append_unchecked x v = (length (sv_vec v @ [x]) - 1, \<lparr>sv_vec = sv_vec v @ [x]\<rparr>)"

definition sv_append :: "'a::linorder \<Rightarrow> 'a sorted_vec \<Rightarrow> ('a + nat) \<times> 'a sorted_vec" where
  "sv_append x v =
     (if sv_vec v \<noteq> [] then
        if last (sv_vec v) \<le> x then (case sv_append_unchecked x v of (i, w) \<Rightarrow> (Inr i, w)) else (Inl x, v)
      else (case sv_insert x v of (i, w) \<Rightarrow> (Inr i, w)))"

definition sv_from_unsorted :: "'a list \<Rightarrow> 'a::linorder sorted_vec" where
  "sv_from_unsorted xs = \<lparr>sv_vec = sort xs\<rparr>"

definition sv_find_or_insert :: "'a::linorder \<Rightarrow> 'a sorted_vec \<Rightarrow> (nat + nat) \<times> 'a sorted_vec" where
  "sv_find_or_insert x v =
     (case binary_search (sv_vec v) x of
        Inr i \<Rightarrow> (Inr i, v)
      | Inl i \<Rightarrow> (Inl i, \<lparr>sv_vec = the (insert_at i x (sv_vec v))\<rparr>))"

definition sv_remove_item :: "'a::linorder \<Rightarrow> 'a sorted_vec \<Rightarrow> 'a option \<times> 'a sorted_vec" where
  "sv_remove_item x v =
     (case binary_search (sv_vec v) x of
        Inr i \<Rightarrow> (case the (remove_at i (sv_vec v)) of (y, ys) \<Rightarrow> (Some y, \<lparr>sv_vec = ys\<rparr>))
      | Inl _ \<Rightarrow> (None, v))"

definition sv_remove :: "nat \<Rightarrow> 'a::linorder sorted_vec \<Rightarrow> ('a \<times> 'a sorted_vec) option" where
  "sv_remove i v = map_option (\<lambda>(y, ys). (y, \<lparr>sv_vec = ys\<rparr>)) (remove_at i (sv_vec v))"

definition sv_pop :: "'a::linorder sorted_vec \<Rightarrow> 'a option \<times> 'a sorted_vec" where
  "sv_pop v = (if sv_vec v = [] then (None, v) else (Some (last (sv_vec v)), \<lparr>sv_vec = butlast (sv_vec v)\<rparr>))"

definition sv_clear :: "'a::linorder sorted_vec \<Rightarrow> 'a sorted_vec" where
  "sv_clear v = \<lparr>sv_vec = []\<rparr>"

definition sv_dedup :: "'a::linorder sorted_vec \<Rightarrow> 'a sorted_vec" where
  "sv_dedup v = \<lparr>sv_vec = dedup_key id (sv_vec v)\<rparr>"

definition sv_dedup_by_key :: "('a \<Rightarrow> 'k) \<Rightarrow> 'a::linorder sorted_vec \<Rightarrow> 'a sorted_vec" where
  "sv_dedup_by_key k v = \<lparr>sv_vec = dedup_key k (sv_vec v)\<rparr>"

definition sv_drain :: "nat \<Rightarrow> nat \<Rightarrow> 'a::linorder sorted_vec \<Rightarrow> ('a list \<times> 'a sorted_vec) option" where
  "sv_drain i j v = map_option (\<lambda>(d, ys). (d, \<lparr>sv_vec = ys\<rparr>)) (drain_range i j (sv_vec v))"

definition sv_retain :: "('a \<Rightarrow> bool) \<Rightarrow> 'a::linorder sorted_vec \<Rightarrow> 'a sorted_vec" where
  "sv_retain f v = \<lparr>sv_vec = filter f (sv_vec v)\<rparr>"

definition sv_mutate :: "('a list \<Rightarrow> 'o \<times> 'a list) \<Rightarrow> 'a::linorder sorted_vec \<Rightarrow> 'o \<times> 'a sorted_vec" where
  "sv_mutate f v = (case f (sv_vec v) of (r, ys) \<Rightarrow> (r, \<lparr>sv_vec = sort ys\<rparr>))"

fun sv_extend :: "'a::linorder list \<Rightarrow> 'a sorted_vec \<Rightarrow> 'a sorted_vec" where
  "sv_extend [] v = v"
| "sv_extend (x # xs) v =
     (case sv_append x v of
        (Inr _, w) \<Rightarrow> sv_extend xs w
      | (Inl y, w) \<Rightarrow> sv_extend xs (snd (sv_insert y w)))"

text \<open>
  Decoding. \<open>dec\<close> is \<open>Vec::decode\<close> of the codec library, which reads a vector from the input or
  gives an error, and \<open>is_sorted\<close> the check of the library of that name.
\<close>

type_synonym ('i, 'a) decoder = "'i \<Rightarrow> string + 'a \<times> 'i"

definition sv_decode :: "('a list \<Rightarrow> bool) \<Rightarrow> ('i, 'a list) decoder \<Rightarrow> ('i, 'a::linorder sorted_vec) decoder" where
  "sv_decode is_sorted dec input =
     (case dec input of
        Inl e \<Rightarrow> Inl e
      | Inr (inner, input') \<Rightarrow>
          if \<not> is_sorted inner then Inl ''input is not sorted'' else Inr (sv_unchecked_from inner, input'))"

section \<open>Sorted sets\<close>

record 'a sorted_set =
  ss_set :: "'a sorted_vec"

definition ss_new :: "'a::linorder sorted_set" where
  "ss_new = \<lparr>ss_set = sv_new\<rparr>"

definition ss_from_unsorted :: "'a list \<Rightarrow> 'a::linorder sorted_set" where
  "ss_from_unsorted xs = \<lparr>ss_set = sv_dedup (sv_from_unsorted xs)\<rparr>"

definition ss_remove_item :: "'a::linorder \<Rightarrow> 'a sorted_set \<Rightarrow> 'a option \<times> 'a sorted_set" where
  "ss_remove_item x v = (case sv_remove_item x (ss_set v) of (r, w) \<Rightarrow> (r, \<lparr>ss_set = w\<rparr>))"

definition ss_insert :: "'a::linorder \<Rightarrow> 'a sorted_set \<Rightarrow> nat \<times> 'a sorted_set" where
  "ss_insert x v =
     (case ss_remove_item x v of (_, w) \<Rightarrow> (case sv_insert x (ss_set w) of (i, u) \<Rightarrow> (i, \<lparr>ss_set = u\<rparr>)))"

definition ss_find_or_insert :: "'a::linorder \<Rightarrow> 'a sorted_set \<Rightarrow> (nat + nat) \<times> 'a sorted_set" where
  "ss_find_or_insert x v = (case sv_find_or_insert x (ss_set v) of (r, w) \<Rightarrow> (r, \<lparr>ss_set = w\<rparr>))"

definition ss_remove :: "nat \<Rightarrow> 'a::linorder sorted_set \<Rightarrow> ('a \<times> 'a sorted_set) option" where
  "ss_remove i v = map_option (\<lambda>(y, w). (y, \<lparr>ss_set = w\<rparr>)) (sv_remove i (ss_set v))"

definition ss_pop :: "'a::linorder sorted_set \<Rightarrow> 'a option \<times> 'a sorted_set" where
  "ss_pop v = (case sv_pop (ss_set v) of (r, w) \<Rightarrow> (r, \<lparr>ss_set = w\<rparr>))"

definition ss_clear :: "'a::linorder sorted_set \<Rightarrow> 'a sorted_set" where
  "ss_clear v = \<lparr>ss_set = sv_clear (ss_set v)\<rparr>"

definition ss_drain :: "nat \<Rightarrow> nat \<Rightarrow> 'a::linorder sorted_set \<Rightarrow> ('a list \<times> 'a sorted_set) option" where
  "ss_drain i j v = map_option (\<lambda>(d, w). (d, \<lparr>ss_set = w\<rparr>)) (sv_drain i j (ss_set v))"

definition ss_retain :: "('a \<Rightarrow> bool) \<Rightarrow> 'a::linorder sorted_set \<Rightarrow> 'a sorted_set" where
  "ss_retain f v = \<lparr>ss_set = sv_retain f (ss_set v)\<rparr>"

definition ss_mutate :: "('a list \<Rightarrow> 'o \<times> 'a list) \<Rightarrow> 'a::linorder sorted_set \<Rightarrow> 'o \<times> 'a sorted_set" where
  "ss_mutate f v = (case sv_mutate f (ss_set v) of (r, w) \<Rightarrow> (r, \<lparr>ss_set = sv_dedup w\<rparr>))"

fun ss_extend :: "'a::linorder list \<Rightarrow> 'a sorted_set \<Rightarrow> 'a sorted_set" where
  "ss_extend [] v = v"
| "ss_extend (x # xs) v = ss_extend xs (snd (ss_insert x v))"

section \<open>Bounded sorted vectors\<close>

record 'a bounded_sorted_vec =
  bsv_vec :: "'a sorted_vec"

definition bsv_default :: "'a::linorder bounded_sorted_vec" where
  "bsv_default = \<lparr>bsv_vec = sv_unchecked_from []\<rparr>"

definition bsv_decode ::
  "('a list \<Rightarrow> bool) \<Rightarrow> nat \<Rightarrow> ('i, 'a list) decoder \<Rightarrow> ('i, 'a::linorder bounded_sorted_vec) decoder" where
  "bsv_decode is_sorted bound dec input =
     (case dec input of
        Inl e \<Rightarrow> Inl e
      | Inr (inner, input') \<Rightarrow>
          if bound < length inner then Inl ''BoundedSortedVec exceeds its limit''
          else if \<not> is_sorted inner then Inl ''input is not sorted''
          else Inr (\<lparr>bsv_vec = sv_unchecked_from inner\<rparr>, input'))"

definition bsv_try_insert :: "nat \<Rightarrow> 'a::linorder \<Rightarrow> 'a bounded_sorted_vec \<Rightarrow> ('a + unit) \<times> 'a bounded_sorted_vec" where
  "bsv_try_insert bound x v =
     (if length (sv_vec (bsv_vec v)) < bound then (Inr (), \<lparr>bsv_vec = snd (sv_insert x (bsv_vec v))\<rparr>)
      else (Inl x, v))"

definition bsv_try_push :: "nat \<Rightarrow> 'a::linorder \<Rightarrow> 'a bounded_sorted_vec \<Rightarrow> ('a + unit) \<times> 'a bounded_sorted_vec" where
  "bsv_try_push bound x v =
     (if length (sv_vec (bsv_vec v)) < bound then (Inr (), \<lparr>bsv_vec = snd (sv_insert x (bsv_vec v))\<rparr>)
      else (Inl x, v))"

definition bsv_remove :: "nat \<Rightarrow> 'a::linorder bounded_sorted_vec \<Rightarrow> ('a \<times> 'a bounded_sorted_vec) option" where
  "bsv_remove i v = map_option (\<lambda>(y, w). (y, \<lparr>bsv_vec = w\<rparr>)) (sv_remove i (bsv_vec v))"

definition bsv_retain :: "('a \<Rightarrow> bool) \<Rightarrow> 'a::linorder bounded_sorted_vec \<Rightarrow> 'a bounded_sorted_vec" where
  "bsv_retain f v = \<lparr>bsv_vec = sv_retain f (bsv_vec v)\<rparr>"

definition bsv_try_from :: "nat \<Rightarrow> 'a list \<Rightarrow> 'a::linorder bounded_sorted_vec option" where
  "bsv_try_from bound xs = (if length xs \<le> bound then Some \<lparr>bsv_vec = sv_unchecked_from xs\<rparr> else None)"

text \<open>\<open>BoundedVec::try_from\<close> of a bounded sorted vector; \<open>BoundedVec\<close> itself only checks the length.\<close>

definition bsv_into_bounded_vec :: "nat \<Rightarrow> 'a::linorder bounded_sorted_vec \<Rightarrow> 'a list option" where
  "bsv_into_bounded_vec bound v = (let xs = sv_vec (bsv_vec v) in if length xs \<le> bound then Some xs else None)"

section \<open>Searching\<close>

lemma mset_take_drop: "mset (take i xs) + mset (drop i xs) = mset xs"
  by (metis append_take_drop_id mset_append)

text \<open>What the collections rely on in a search of a sorted slice, and what it gives them.\<close>

locale ordered_search =
  fixes search :: "'a::linorder list \<Rightarrow> 'a \<Rightarrow> nat + nat"
  assumes found: "sorted xs \<Longrightarrow> search xs x = Inr i \<Longrightarrow> i < length xs \<and> xs ! i = x"
    and missing: "sorted xs \<Longrightarrow> search xs x = Inl i \<Longrightarrow>
      i \<le> length xs \<and> (\<forall>y \<in> set (take i xs). y < x) \<and> (\<forall>y \<in> set (drop i xs). x < y)"
begin

lemma found_iff: "sorted xs \<Longrightarrow> (\<exists>i. search xs x = Inr i) \<longleftrightarrow> x \<in> set xs"
proof
  assume "sorted xs" "x \<in> set xs"
  then show "\<exists>i. search xs x = Inr i"
    using missing [of xs x] append_take_drop_id [of _ xs]
    by (cases "search xs x") (metis Un_iff less_irrefl set_append, blast)
qed (metis found nth_mem)

lemma insert_reference:
  assumes "sorted xs"
  shows "insert_at (case search xs x of Inr i \<Rightarrow> i | Inl i \<Rightarrow> i) x xs = Some (insort x xs)"
proof -
  let ?i = "case search xs x of Inr i \<Rightarrow> i | Inl i \<Rightarrow> i"
  have bounds: "?i \<le> length xs" "\<forall>y \<in> set (take ?i xs). y \<le> x" "\<forall>y \<in> set (drop ?i xs). x \<le> y"
    using found [OF assms, of x] missing [OF assms, of x] sorted_nth_mono [OF assms]
    by (auto simp: in_set_conv_nth split: sum.splits intro: less_imp_le)
  let ?ys = "take ?i xs @ x # drop ?i xs"
  have "sorted ?ys"
    using bounds(2,3) assms
    by (auto simp: sorted_append sorted_wrt_take sorted_wrt_drop intro: order_trans)
  moreover have "mset ?ys = mset (x # xs)"
    using mset_take_drop [of ?i xs] by (simp del: take_append drop_append)
  ultimately have "sort (x # xs) = ?ys" by (rule properties_for_sort [rotated])
  then show ?thesis
    using bounds(1) assms by (simp add: insert_at_def sorted_sort_id)
qed

lemma remove_reference:
  assumes "sorted xs" "search xs x = Inr i"
  shows "remove_at i xs = Some (x, remove1 x xs)"
proof -
  have i: "i < length xs" "xs ! i = x" using found [OF assms] by auto
  let ?ys = "take i xs @ drop (i + 1) xs"
  have split: "xs = take i xs @ x # drop (i + 1) xs" using i id_take_nth_drop [of i xs] by simp
  have "sorted (take i xs @ x # drop (i + 1) xs)" using assms(1) split by simp
  then have "sorted ?ys" by (simp add: sorted_append)
  moreover have "sorted (remove1 x xs)" using assms(1) by (rule sorted_remove1)
  moreover have "mset (take i xs @ x # drop (i + 1) xs) = mset xs" using split by simp
  then have "mset ?ys = mset (remove1 x xs)" unfolding mset_remove1 by (simp flip: \<open>mset _ = mset xs\<close>)
  ultimately have "?ys = remove1 x xs" using sorted_list_of_multiset_mset sorted_sort_id properties_for_sort by metis
  then show ?thesis using i by (simp add: remove_at_def)
qed

end

lemma binary_search_from_spec:
  "sorted xs \<Longrightarrow> right \<le> length xs \<Longrightarrow> left \<le> right \<Longrightarrow> (\<forall>i < left. xs ! i < x) \<Longrightarrow>
      (\<forall>i. right \<le> i \<and> i < length xs \<longrightarrow> x < xs ! i) \<Longrightarrow>
    (case binary_search_from xs x left right of
       Inr i \<Rightarrow> i < length xs \<and> xs ! i = x
     | Inl i \<Rightarrow> i \<le> length xs \<and> (\<forall>j < i. xs ! j < x) \<and> (\<forall>j. i \<le> j \<and> j < length xs \<longrightarrow> x < xs ! j))"
proof (induction xs x left right rule: binary_search_from.induct)
  case (1 xs x left right)
  let ?mid = "left + (right - left) div 2"
  show ?case
  proof (cases "left < right")
    case False
    then show ?thesis using "1.prems" by (simp add: binary_search_from.simps)
  next
    case True
    then have mid: "?mid < length xs" "?mid < right" "left \<le> ?mid" using "1.prems" by auto
    have below: "xs ! i < x" if "xs ! ?mid < x" "i < ?mid + 1" for i
      using sorted_nth_mono [OF "1.prems"(1), of i ?mid] that mid by auto
    have above: "x < xs ! i" if "x < xs ! ?mid" "?mid \<le> i" "i < length xs" for i
      using sorted_nth_mono [OF "1.prems"(1), of ?mid i] that mid by auto
    consider (less) "xs ! ?mid < x" | (greater) "x < xs ! ?mid" | (same) "xs ! ?mid = x" by fastforce
    then show ?thesis
    proof cases
      case less
      then have "binary_search_from xs x left right = binary_search_from xs x (?mid + 1) right"
        using True by (subst binary_search_from.simps) (simp add: Let_def)
      then show ?thesis
        using "1.IH"(1) [OF True refl less] "1.prems" below [OF less] mid by simp
    next
      case greater
      then have "\<not> xs ! ?mid < x" by simp
      moreover have "binary_search_from xs x left right = binary_search_from xs x left ?mid"
        using True greater calculation by (subst binary_search_from.simps) (simp add: Let_def)
      ultimately show ?thesis
        using "1.IH"(2) [OF True refl _ greater] "1.prems" above [OF greater] mid by simp
    next
      case same
      then show ?thesis using True mid by (subst binary_search_from.simps) (simp add: Let_def)
    qed
  qed
qed

interpretation slice: ordered_search binary_search
proof
  fix xs :: "'a list" and x i
  assume xs: "sorted xs"
  have spec: "case binary_search xs x of
       Inr i \<Rightarrow> i < length xs \<and> xs ! i = x
     | Inl i \<Rightarrow> i \<le> length xs \<and> (\<forall>j < i. xs ! j < x) \<and> (\<forall>j. i \<le> j \<and> j < length xs \<longrightarrow> x < xs ! j)"
    unfolding binary_search_def using xs by (intro binary_search_from_spec) auto
  show "binary_search xs x = Inr i \<Longrightarrow> i < length xs \<and> xs ! i = x" using spec by simp
  show "binary_search xs x = Inl i \<Longrightarrow>
      i \<le> length xs \<and> (\<forall>y \<in> set (take i xs). y < x) \<and> (\<forall>y \<in> set (drop i xs). x < y)"
    using spec by (auto simp: in_set_conv_nth)
qed

section \<open>The operations against their reference\<close>

lemma sv_insert_reference: "sorted (sv_vec v) \<Longrightarrow> sv_vec (snd (sv_insert x v)) = insort x (sv_vec v)"
  by (simp add: sv_insert_def Let_def slice.insert_reference)

lemma sorted_le_last: "sorted xs \<Longrightarrow> y \<in> set xs \<Longrightarrow> y \<le> last xs"
  by (induction xs) auto

lemma sv_append_reference:
  assumes "sorted (sv_vec v)"
  shows "sv_append x v =
     (if sv_vec v = [] \<or> last (sv_vec v) \<le> x then (Inr (length (sv_vec v)), \<lparr>sv_vec = insort x (sv_vec v)\<rparr>)
      else (Inl x, v))"
proof (cases "sv_vec v = []")
  case True
  then show ?thesis
    by (simp add: sv_append_def sv_insert_def binary_search_def binary_search_from.simps insert_at_def)
next
  case False
  have "insort x (sv_vec v) = sv_vec v @ [x]" if "last (sv_vec v) \<le> x"
  proof -
    have "sorted (sv_vec v @ [x])"
      using assms that sorted_le_last [of "sv_vec v"] by (fastforce simp: sorted_append)
    then have "sort (x # sv_vec v) = sv_vec v @ [x]" by (intro properties_for_sort) simp_all
    then show ?thesis using assms by (simp add: sorted_sort_id)
  qed
  then show ?thesis using False by (simp add: sv_append_def sv_append_unchecked_def)
qed

lemma sv_extend_reference: "sorted (sv_vec v) \<Longrightarrow> sv_vec (sv_extend xs v) = sort (sv_vec v @ xs)"
proof (induction xs arbitrary: v)
  case Nil
  then show ?case by (simp add: sorted_sort_id)
next
  case (Cons x xs)
  have "\<exists>w. sv_extend (x # xs) v = sv_extend xs w \<and> sv_vec w = insort x (sv_vec v)"
    using Cons.prems by (auto simp: sv_append_reference sv_insert_reference)
  then obtain w where w: "sv_extend (x # xs) v = sv_extend xs w" "sv_vec w = insort x (sv_vec v)" by blast
  then have "sv_vec (sv_extend xs w) = sort (insort x (sv_vec v) @ xs)"
    using Cons by (simp add: sorted_insort)
  also have "\<dots> = sort (sv_vec v @ x # xs)"
    by (rule properties_for_sort) simp_all
  finally show ?case using w by simp
qed

lemma sv_remove_item_reference:
  "sorted (sv_vec v) \<Longrightarrow>
     sv_remove_item x v =
       (if x \<in> set (sv_vec v) then (Some x, \<lparr>sv_vec = remove1 x (sv_vec v)\<rparr>) else (None, v))"
  using slice.found_iff [of "sv_vec v" x] slice.remove_reference [of "sv_vec v" x]
  by (cases "binary_search (sv_vec v) x") (auto simp: sv_remove_item_def)

lemma sv_find_or_insert_reference:
  assumes "sorted (sv_vec v)"
  shows "sv_vec (snd (sv_find_or_insert x v)) = (if x \<in> set (sv_vec v) then sv_vec v else insort x (sv_vec v))"
  using slice.found_iff [OF assms, of x] slice.insert_reference [OF assms, of x]
  by (cases "binary_search (sv_vec v) x") (auto simp: sv_find_or_insert_def)

lemma set_dedup_key: "set (dedup_key id xs) = set xs"
  by (induction "id :: 'a \<Rightarrow> 'a" xs rule: dedup_key.induct) auto

lemma dedup_strictly_sorted: "sorted xs \<Longrightarrow> sorted_wrt (<) (dedup_key id xs)"
proof (induction "id :: 'a \<Rightarrow> 'a" xs rule: dedup_key.induct)
  case (1 x y xs)
  then show ?case by (auto simp: set_dedup_key order.strict_iff_order)
qed auto

lemma dedup_reference: "sorted xs \<Longrightarrow> dedup_key id xs = sorted_list_of_set (set xs)"
  by (metis dedup_strictly_sorted set_dedup_key sorted_list_of_set.idem_if_sorted_distinct
      strict_sorted_iff)

text \<open>
  The references of the operations on indices: the elements of a list at a set of indices, in their order.
\<close>

lemma nths_range: "nths xs {i..<j} = take (j - i) (drop i xs)"
proof (induction xs arbitrary: i j)
  case (Cons x xs)
  have "{k. Suc k \<in> {i..<j}} = {i - 1..<j - 1}" by auto
  then show ?case using Cons [of "i - 1" "j - 1"] by (cases i; cases j) (auto simp: nths_Cons)
qed simp

lemma nths_outside: "i \<le> j \<Longrightarrow> nths xs (- {i..<j}) = take i xs @ drop j xs"
proof (induction xs arbitrary: i j)
  case (Cons x xs)
  have "{k. Suc k \<in> - {i..<j}} = - {i - 1..<j - 1}" by auto
  then show ?case using Cons.IH [of "i - 1" "j - 1"] Cons.prems by (cases i; cases j) (auto simp: nths_Cons)
qed simp

lemma remove_at_reference: "remove_at i xs = (if i < length xs then Some (xs ! i, nths xs (- {i})) else None)"
  using nths_outside [of i "Suc i" xs] by (simp add: remove_at_def atLeastLessThanSuc)

lemma drain_range_reference:
  "drain_range i j xs = (if i \<le> j \<and> j \<le> length xs then Some (nths xs {i..<j}, nths xs (- {i..<j})) else None)"
  by (simp add: drain_range_def nths_range nths_outside)

text \<open>The indices at which an element does not repeat the key of the one before it.\<close>

definition key_changes :: "('a \<Rightarrow> 'k) \<Rightarrow> 'a list \<Rightarrow> nat set" where
  "key_changes k xs = {i. i = 0 \<or> k (xs ! i) \<noteq> k (xs ! (i - 1))}"

lemma key_changes_same_head:
  assumes "k x = k y"
  shows "key_changes k (y # xs) = key_changes k (x # xs)"
  using assms by (auto simp: key_changes_def nth_Cons split: nat.splits)

lemma key_changes_tail: "{i. Suc i \<in> key_changes k (x # y # xs)} = (if k x = k y then key_changes k (y # xs) - {0} else key_changes k (y # xs))"
  by (auto simp: key_changes_def nth_Cons split: nat.splits)

lemma nths_head: "nths (x # xs) A = (if 0 \<in> A then [x] else []) @ nths (x # xs) (A - {0})"
  by (auto simp: nths_Cons)

lemma dedup_key_reference: "dedup_key k xs = nths xs (key_changes k xs)"
proof (induction k xs rule: dedup_key.induct)
  case (1 k x y xs)
  have zero: "0 \<in> key_changes k zs" for zs by (simp add: key_changes_def)
  have tail: "nths (x # y # xs) (key_changes k (x # y # xs)) =
      x # nths (y # xs) (if k x = k y then key_changes k (y # xs) - {0} else key_changes k (y # xs))"
    using key_changes_tail [of k x y xs] zero by (subst nths_Cons) simp
  show ?case
  proof (cases "k x = k y")
    case True
    have "nths (y # xs) (key_changes k (y # xs) - {0}) = nths (x # xs) (key_changes k (x # xs) - {0})"
      using key_changes_same_head [of k x y xs, OF True] by (simp add: nths_Cons)
    moreover have "x # nths (x # xs) (key_changes k (x # xs) - {0}) = nths (x # xs) (key_changes k (x # xs))"
      using nths_head [of x xs "key_changes k (x # xs)"] zero by simp
    ultimately show ?thesis using 1 True tail by simp
  qed (use 1 tail in simp)
qed (simp_all add: key_changes_def nths_Cons)

lemma last_Max: "sorted xs \<Longrightarrow> xs \<noteq> [] \<Longrightarrow> last xs = Max (set xs)"
  by (intro Max_eqI [symmetric]) (auto intro: sorted_le_last)

text \<open>The index that an insertion returns is the place of the element.\<close>

lemma sv_insert_index: "sorted (sv_vec v) \<Longrightarrow> sv_vec (snd (sv_insert x v)) ! fst (sv_insert x v) = x"
  using slice.found [of "sv_vec v" x] slice.missing [of "sv_vec v" x]
  by (cases "binary_search (sv_vec v) x") (auto simp: sv_insert_def insert_at_def Let_def nth_append)

lemma sv_find_or_insert_index:
  assumes "sorted (sv_vec v)"
  shows "sv_vec (snd (sv_find_or_insert x v)) ! (case fst (sv_find_or_insert x v) of Inl i \<Rightarrow> i | Inr i \<Rightarrow> i) = x"
    "(\<exists>i. fst (sv_find_or_insert x v) = Inr i) \<longleftrightarrow> x \<in> set (sv_vec v)"
  using slice.found [OF assms, of x] slice.missing [OF assms, of x] slice.found_iff [OF assms, of x]
  by (cases "binary_search (sv_vec v) x"; auto simp: sv_find_or_insert_def insert_at_def nth_append)+

text \<open>A sorted set against the sets of HOL.\<close>

definition ss_ok :: "'a::linorder sorted_set \<Rightarrow> bool" where
  "ss_ok v \<longleftrightarrow> sorted_wrt (<) (sv_vec (ss_set v))"

definition ss_abs :: "'a::linorder sorted_set \<Rightarrow> 'a set" where
  "ss_abs v = set (sv_vec (ss_set v))"

lemma ss_okD: "ss_ok v \<Longrightarrow> sorted (sv_vec (ss_set v)) \<and> distinct (sv_vec (ss_set v))"
  by (simp add: ss_ok_def strict_sorted_iff)

lemma ss_remove_item_reference:
  assumes "ss_ok v"
  shows "ss_ok (snd (ss_remove_item x v)) \<and> ss_abs (snd (ss_remove_item x v)) = ss_abs v - {x}
    \<and> fst (ss_remove_item x v) = (if x \<in> ss_abs v then Some x else None)"
  using ss_okD [OF assms]
  by (auto simp: ss_remove_item_def sv_remove_item_reference ss_ok_def ss_abs_def strict_sorted_iff
      sorted_remove1 distinct_remove1)

lemma ss_insert_reference:
  assumes "ss_ok v"
  shows "ss_ok (snd (ss_insert x v)) \<and> ss_abs (snd (ss_insert x v)) = insert x (ss_abs v)"
proof -
  obtain r w where w: "ss_remove_item x v = (r, w)" by fastforce
  then have "ss_ok w" "ss_abs w = ss_abs v - {x}" using ss_remove_item_reference [OF assms, of x] by auto
  then have "sorted (sv_vec (ss_set w))" "distinct (insort x (sv_vec (ss_set w)))"
    using ss_okD [of w] by (auto simp: ss_abs_def distinct_insort)
  moreover have "ss_set (snd (ss_insert x v)) = snd (sv_insert x (ss_set w))"
    using w by (simp add: ss_insert_def split: prod.split)
  ultimately have "sv_vec (ss_set (snd (ss_insert x v))) = insort x (sv_vec (ss_set w))"
    and "sorted_wrt (<) (insort x (sv_vec (ss_set w)))"
    by (simp_all add: sv_insert_reference strict_sorted_iff sorted_insort)
  then show ?thesis
    using \<open>ss_abs w = _\<close> by (simp add: ss_ok_def ss_abs_def set_insort_key)
qed

lemma ss_extend_reference:
  "ss_ok v \<Longrightarrow> ss_ok (ss_extend xs v) \<and> ss_abs (ss_extend xs v) = ss_abs v \<union> set xs"
  by (induction xs arbitrary: v) (use ss_insert_reference in force)+

lemma ss_from_unsorted_reference: "ss_ok (ss_from_unsorted xs) \<and> ss_abs (ss_from_unsorted xs) = set xs"
  by (simp add: ss_from_unsorted_def sv_from_unsorted_def sv_dedup_def ss_ok_def ss_abs_def
      dedup_strictly_sorted set_dedup_key)

lemma ss_mutate_ok: "ss_ok (snd (ss_mutate f v))"
  by (simp add: ss_mutate_def sv_mutate_def sv_dedup_def ss_ok_def dedup_strictly_sorted split: prod.split)

section \<open>Bounded sorted vectors\<close>

definition bsv_ok :: "nat \<Rightarrow> 'a::linorder bounded_sorted_vec \<Rightarrow> bool" where
  "bsv_ok bound v \<longleftrightarrow> sorted (sv_vec (bsv_vec v)) \<and> length (sv_vec (bsv_vec v)) \<le> bound"

text \<open>
  \<open>TryFrom<Vec>\<close> only checks the length: it makes a bounded sorted vector of an unsorted one, in
  which a search then misses an element that is there.
\<close>

lemma try_from_unsorted:
  "\<exists>v. bsv_try_from 4 [2, 1 :: nat] = Some v \<and> \<not> bsv_ok 4 v
     \<and> 1 \<in> set (sv_vec (bsv_vec v)) \<and> (\<forall>i. binary_search (sv_vec (bsv_vec v)) 1 \<noteq> Inr i \<or> i \<noteq> 0)
     \<and> (\<forall>i. binary_search (sv_vec (bsv_vec v)) 2 \<noteq> Inr i)"
  by (simp add: bsv_try_from_def sv_unchecked_from_def bsv_ok_def binary_search_def binary_search_from.simps)

text \<open>The two functions of the codec library the vectors use, and what they promise.\<close>

definition vec_codec :: "('a list \<Rightarrow> 'i \<Rightarrow> 'i) \<Rightarrow> ('i, 'a list) decoder \<Rightarrow> bool" where
  "vec_codec enc dec \<longleftrightarrow> (\<forall>xs rest. dec (enc xs rest) = Inr (xs, rest))"

text \<open>
  C13. On a sorted vector the operations of \<open>SortedVec\<close> agree with reference functions on lists:
  \<open>insert\<close> with insertion sort, \<open>extend\<close> with sorting the concatenation, \<open>append\<close> with insertion at
  the end or a refusal, \<open>find_or_insert\<close> with insertion when absent, the returned indices being the
  place of the element, \<open>remove_item\<close> with removal of the first occurrence, \<open>remove\<close> and \<open>drain\<close> with splitting off exactly the
  elements at the index or range, or a panic out of range, \<open>pop\<close> with taking the greatest element, \<open>retain\<close> with the filter, \<open>dedup\<close> with the sorted
  list of the elements, \<open>dedup_by_key\<close> with dropping the elements that repeat the key before them, \<open>clear\<close> with the empty list; \<open>mutate\<close>
  and \<open>from_unsorted\<close> give the sorted permutation of what they were given.
\<close>

theorem sorted_vec_reference:
  assumes "sorted (sv_vec v)"
  shows "(sv_vec (snd (sv_insert x v)) = insort x (sv_vec v) \<and> sv_vec (snd (sv_insert x v)) ! fst (sv_insert x v) = x)
    \<and> (sv_vec (sv_extend xs v) = sort (sv_vec v @ xs))
    \<and> (sv_append x v =
       (if sv_vec v = [] \<or> last (sv_vec v) \<le> x then (Inr (length (sv_vec v)), \<lparr>sv_vec = insort x (sv_vec v)\<rparr>)
        else (Inl x, v)))
    \<and> (sv_vec (snd (sv_find_or_insert x v)) = (if x \<in> set (sv_vec v) then sv_vec v else insort x (sv_vec v)))
    \<and> (sv_vec (snd (sv_find_or_insert x v)) ! (case fst (sv_find_or_insert x v) of Inl i \<Rightarrow> i | Inr i \<Rightarrow> i) = x)
    \<and> ((\<exists>i. fst (sv_find_or_insert x v) = Inr i) \<longleftrightarrow> x \<in> set (sv_vec v))
    \<and> (sv_remove_item x v =
       (if x \<in> set (sv_vec v) then (Some x, \<lparr>sv_vec = remove1 x (sv_vec v)\<rparr>) else (None, v)))
    \<and> (sv_remove i v = (if i < length (sv_vec v) then Some (sv_vec v ! i, \<lparr>sv_vec = nths (sv_vec v) (- {i})\<rparr>) else None))
    \<and> (sv_drain i j v =
       (if i \<le> j \<and> j \<le> length (sv_vec v)
        then Some (nths (sv_vec v) {i..<j}, \<lparr>sv_vec = nths (sv_vec v) (- {i..<j})\<rparr>) else None))
    \<and> (sv_pop v = (if sv_vec v = [] then (None, v) else (Some (Max (set (sv_vec v))), \<lparr>sv_vec = butlast (sv_vec v)\<rparr>)))
    \<and> (sv_vec (sv_retain f v) = filter f (sv_vec v) \<and> sv_vec (sv_clear v) = [])
    \<and> (sv_vec (sv_dedup v) = sorted_list_of_set (set (sv_vec v)))
    \<and> (sv_vec (sv_dedup_by_key k v) = nths (sv_vec v) (key_changes k (sv_vec v)))
    \<and> (fst (sv_mutate g v) = fst (g (sv_vec v)) \<and> sorted (sv_vec (snd (sv_mutate g v)))
        \<and> mset (sv_vec (snd (sv_mutate g v))) = mset (snd (g (sv_vec v))))
    \<and> (sorted (sv_vec (sv_from_unsorted xs)) \<and> mset (sv_vec (sv_from_unsorted xs)) = mset xs)"
proof -
  have "sv_vec (sv_dedup v) = sorted_list_of_set (set (sv_vec v))"
    using assms by (simp add: sv_dedup_def dedup_reference)
  then show ?thesis
    using assms
    by (intro conjI sv_insert_index sv_find_or_insert_index)
       (simp_all add: sv_insert_reference sv_extend_reference sv_append_reference sv_find_or_insert_reference
        sv_remove_item_reference sv_remove_def remove_at_reference sv_drain_def drain_range_reference sv_pop_def last_Max
        sv_retain_def sv_clear_def sv_dedup_by_key_def dedup_key_reference sv_mutate_def sv_from_unsorted_def split: prod.split)
qed

theorem sorted_vec_reference_witness:
  "sv_vec (snd (sv_insert 4 (sv_from_unsorted [5, 3 :: nat]))) = [3, 4, 5]
     \<and> sv_vec (sv_extend [9, 1, 4] (sv_from_unsorted [5, 3 :: nat])) = [1, 3, 4, 5, 9]
     \<and> sv_remove 1 (sv_from_unsorted [5, 3 :: nat]) = Some (5, \<lparr>sv_vec = [3]\<rparr>)"
proof -
  let ?v = "sv_from_unsorted [5, 3 :: nat]"
  have v: "sv_vec ?v = [3, 5]" by (simp add: sv_from_unsorted_def)
  then have "sorted (sv_vec ?v)" by simp
  from sorted_vec_reference [OF this, of 4 "[9, 1, 4]" 1]
  have "sv_vec (snd (sv_insert 4 ?v)) = insort 4 [3, 5]" "sv_vec (sv_extend [9, 1, 4] ?v) = sort ([3, 5] @ [9, 1, 4])"
    "sv_remove 1 ?v = Some ([3, 5] ! 1, \<lparr>sv_vec = nths [3, 5] (- {1})\<rparr>)"
    unfolding v by (auto simp del: sort_key_simps)
  then show ?thesis by (simp add: nths_Cons)
qed

text \<open>
  A bounded sorted vector that is encoded decodes to itself and leaves the rest of the input,
  and whatever input decodes at all gives a vector that is sorted and within its bound; inserting
  keeps both and refuses an element, unchanged, exactly when the vector is full.
\<close>

theorem bounded_sorted_roundtrip:
  assumes codec: "vec_codec enc dec" and srt: "\<forall>xs. is_sorted xs = sorted xs" and ok: "bsv_ok bound v"
  shows "bsv_decode is_sorted bound dec (enc (sv_vec (bsv_vec v)) rest) = Inr (v, rest)
     \<and> (\<forall>input w input'. bsv_decode is_sorted bound dec input = Inr (w, input') \<longrightarrow> bsv_ok bound w)
     \<and> (case bsv_try_insert bound x v of
          (Inr _, w) \<Rightarrow> bsv_ok bound w \<and> sv_vec (bsv_vec w) = insort x (sv_vec (bsv_vec v))
        | (Inl y, w) \<Rightarrow> length (sv_vec (bsv_vec v)) = bound \<and> y = x \<and> w = v)"
proof -
  have "bsv_decode is_sorted bound dec (enc (sv_vec (bsv_vec v)) rest) = Inr (v, rest)"
    using assms by (simp add: bsv_decode_def vec_codec_def bsv_ok_def sv_unchecked_from_def)
  moreover have "bsv_ok bound w" if "bsv_decode is_sorted bound dec input = Inr (w, input')" for input w input'
    using that srt by (auto simp: bsv_decode_def bsv_ok_def sv_unchecked_from_def split: sum.splits if_splits)
  moreover have "case bsv_try_insert bound x v of
          (Inr _, w) \<Rightarrow> bsv_ok bound w \<and> sv_vec (bsv_vec w) = insort x (sv_vec (bsv_vec v))
        | (Inl y, w) \<Rightarrow> length (sv_vec (bsv_vec v)) = bound \<and> y = x \<and> w = v"
    using ok by (simp add: bsv_try_insert_def bsv_ok_def sv_insert_reference sorted_insort)
  ultimately show ?thesis by blast
qed

definition sample_encode :: "nat list \<Rightarrow> nat list \<Rightarrow> nat list" where
  "sample_encode xs rest = length xs # xs @ rest"

definition sample_decode :: "(nat list, nat list) decoder" where
  "sample_decode input =
     (case input of [] \<Rightarrow> Inl ''end of input'' | n # body \<Rightarrow> Inr (take n body, drop n body))"

theorem bounded_sorted_roundtrip_witness:
  "bsv_decode sorted 4 sample_decode (sample_encode [3, 5] [7]) = Inr (\<lparr>bsv_vec = \<lparr>sv_vec = [3, 5 :: nat]\<rparr>\<rparr>, [7])"
proof -
  have "vec_codec sample_encode sample_decode"
    by (simp add: vec_codec_def sample_encode_def sample_decode_def)
  then show ?thesis
    using bounded_sorted_roundtrip [of sample_encode sample_decode sorted 4 "\<lparr>bsv_vec = \<lparr>sv_vec = [3, 5]\<rparr>\<rparr>" "[7]"]
    by (simp add: bsv_ok_def)
qed

end
