(* ===== verification/Privilege.thy ===== *)
theory Privilege
  imports Sorted_Vec "HOL-Library.Word"
begin

text \<open>
  The privilege pallet (frame/privilege): privileges of accounts as bit flags, and groups of
  accounts that hold a privilege. The order in which a storage map is iterated is a field of the
  configuration.
\<close>

unbundle bit_operations_syntax

section \<open>Data\<close>

text \<open>\<open>Privilege\<close>, bit flags over a \<open>u32\<close>.\<close>

type_synonym privilege = "32 word"

definition PRIVILEGED_LIQUIDATOR :: privilege where
  "PRIVILEGED_LIQUIDATOR = 1"

definition privilege_contains :: "privilege \<Rightarrow> privilege \<Rightarrow> bool" where
  "privilege_contains a b = (a AND b = b)"

type_synonym group_id = nat

datatype privilege_event =
    PrivilegeAdded account_id privilege
  | PrivilegeRemoved account_id privilege
  | GroupCreated group_id privilege
  | GroupDeleted group_id
  | GroupMemberAdded group_id account_id
  | GroupMemberRemoved group_id account_id

record privilege_config =
  MaxGroup :: nat
  MaxMember :: nat
  GroupIdMax :: nat
  GroupsIter :: "(group_id \<rightharpoonup> privilege) \<Rightarrow> group_id list"

record privilege_state =
  AccountPrivileges :: "account_id \<rightharpoonup> privilege"
  GroupPrivileges :: "group_id \<rightharpoonup> privilege"
  GroupMembers :: "group_id \<rightharpoonup> account_id list"
  LastGroupId :: group_id
  GroupCount :: nat
  privilege_events :: "privilege_event list"

definition privilege_deposit_event :: "privilege_event \<Rightarrow> (privilege_state, unit) call" where
  "privilege_deposit_event e = modifies (\<lambda>s. s\<lparr>privilege_events := privilege_events s @ [e]\<rparr>)"

section \<open>Privileges of accounts\<close>

definition has_privilege :: "account_id \<Rightarrow> privilege \<Rightarrow> privilege_state \<Rightarrow> bool" where
  "has_privilege account p s =
     (case AccountPrivileges s account of None \<Rightarrow> False | Some q \<Rightarrow> privilege_contains q p)"

definition account_privileges :: "account_id \<Rightarrow> privilege_state \<Rightarrow> privilege" where
  "account_privileges account s = (case AccountPrivileges s account of None \<Rightarrow> 0 | Some q \<Rightarrow> q)"

definition set_account_privileges :: "account_id \<Rightarrow> privilege \<Rightarrow> privilege_state \<Rightarrow> privilege_state" where
  "set_account_privileges account p s = s\<lparr>AccountPrivileges := (AccountPrivileges s)(account \<mapsto> p)\<rparr>"

definition privilege_promote :: "account_id \<Rightarrow> privilege \<Rightarrow> (privilege_state, unit) call" where
  "privilege_promote account p =
     try_mutate (account_privileges account) (set_account_privileges account) (\<lambda>q.
       if \<not> privilege_contains q p then
         thenM (privilege_deposit_event (PrivilegeAdded account p)) (ret ((), q OR p))
       else ret ((), q))"

section \<open>Groups\<close>

definition group_privilege :: "group_id \<Rightarrow> privilege_state \<Rightarrow> dispatch_error + privilege" where
  "group_privilege g s =
     (case GroupPrivileges s g of None \<Rightarrow> Inl (PrivilegeErr GroupNotFound) | Some p \<Rightarrow> Inr p)"

definition group_members :: "group_id \<Rightarrow> privilege_state \<Rightarrow> dispatch_error + account_id list" where
  "group_members g s =
     (case GroupMembers s g of None \<Rightarrow> Inl (PrivilegeErr GroupNotFound) | Some ms \<Rightarrow> Inr ms)"

definition is_privileged :: "group_id \<Rightarrow> account_id \<Rightarrow> privilege_state \<Rightarrow> dispatch_error + bool" where
  "is_privileged g account s =
     (case group_members g s of Inl e \<Rightarrow> Inl e | Inr ms \<Rightarrow> Inr (account \<in> set ms))"

definition stored_members :: "group_id \<Rightarrow> privilege_state \<Rightarrow> account_id list" where
  "stored_members g s = (case GroupMembers s g of None \<Rightarrow> [] | Some ms \<Rightarrow> ms)"

definition set_members :: "group_id \<Rightarrow> account_id list \<Rightarrow> privilege_state \<Rightarrow> privilege_state" where
  "set_members g ms s = s\<lparr>GroupMembers := (GroupMembers s)(g \<mapsto> ms)\<rparr>"

definition group_promote :: "privilege_config \<Rightarrow> group_id \<Rightarrow> account_id \<Rightarrow> (privilege_state, unit) call" where
  "group_promote cfg g account =
     bindM (\<lambda>s. (group_privilege g s, s)) (\<lambda>p.
     bindM (reads (has_privilege account p)) (\<lambda>held.
     thenM (ensure held (PrivilegeErr GroupPrivilegeNotHeld))
       (try_mutate (stored_members g) (set_members g) (\<lambda>members.
          case binary_search members account of
            Inr _ \<Rightarrow> fail (PrivilegeErr AlreadyGroupMember)
          | Inl i \<Rightarrow>
              thenM (ensure (length members < MaxMember cfg) (PrivilegeErr TooManyMember))
             (thenM (privilege_deposit_event (GroupMemberAdded g account))
                (case insert_at i account members of
                   None \<Rightarrow> fail (Panic ''insertion index'') | Some ms \<Rightarrow> ret ((), ms)))))))"

definition group_revoke :: "group_id \<Rightarrow> account_id \<Rightarrow> (privilege_state, unit) call" where
  "group_revoke g account =
     try_mutate (stored_members g) (set_members g) (\<lambda>members.
       case binary_search members account of
         Inl _ \<Rightarrow> fail (PrivilegeErr NotGroupMember)
       | Inr i \<Rightarrow>
           (case remove_at i members of
              None \<Rightarrow> fail (Panic ''removal index'')
            | Some (_, ms) \<Rightarrow> thenM (privilege_deposit_event (GroupMemberRemoved g account)) (ret ((), ms))))"

definition group_create ::
  "privilege_config \<Rightarrow> account_id list \<Rightarrow> privilege \<Rightarrow> (privilege_state, group_id) call" where
  "group_create cfg accounts p =
     bindM (reads GroupCount) (\<lambda>count.
     thenM (ensure (count < MaxGroup cfg) (PrivilegeErr TooManyGroup))
       (try_mutate LastGroupId (\<lambda>g s. s\<lparr>LastGroupId := g\<rparr>) (\<lambda>previous_group_id.
          let g = wrapping_next (GroupIdMax cfg) previous_group_id in
          thenM (modifies (\<lambda>s. s\<lparr>GroupCount := wrapping_add u32_max (GroupCount s) 1\<rparr>))
         (thenM (modifies (\<lambda>s. s\<lparr>GroupPrivileges := (GroupPrivileges s)(g \<mapsto> p)\<rparr>))
         (thenM (modifies (set_members g []))
         (thenM (privilege_deposit_event (GroupCreated g p))
         (thenM (for_each accounts (group_promote cfg g)) (ret (g, g)))))))))"

definition group_delete :: "group_id \<Rightarrow> (privilege_state, unit) call" where
  "group_delete g =
     thenM (modifies (\<lambda>s. s\<lparr>GroupCount := wrapping_sub u32_max (GroupCount s) 1\<rparr>))
    (thenM (modifies (\<lambda>s. s\<lparr>GroupPrivileges := (GroupPrivileges s)(g := None)\<rparr>))
    (thenM (modifies (\<lambda>s. s\<lparr>GroupMembers := (GroupMembers s)(g := None)\<rparr>))
      (privilege_deposit_event (GroupDeleted g))))"

text \<open>Revoking a privilege takes the account out of every group whose privilege contains it.\<close>

definition privilege_revoke :: "privilege_config \<Rightarrow> account_id \<Rightarrow> privilege \<Rightarrow> (privilege_state, unit) call" where
  "privilege_revoke cfg account p =
     try_mutate (account_privileges account) (set_account_privileges account) (\<lambda>q.
       if q \<noteq> 0 then
         thenM (privilege_deposit_event (PrivilegeRemoved account p))
        (bindM (reads (\<lambda>s. filter (\<lambda>g. case GroupPrivileges s g of None \<Rightarrow> False | Some gp \<Rightarrow> privilege_contains gp p)
                   (GroupsIter cfg (GroupPrivileges s)))) (\<lambda>groups.
         thenM (for_each groups (\<lambda>g. discard_result (group_revoke g account)))
           (ret ((), q AND NOT p))))
       else ret ((), q))"

section \<open>The invariant of the groups\<close>

text \<open>A single flag, or none.\<close>

definition single_flag :: "privilege \<Rightarrow> bool" where
  "single_flag p \<longleftrightarrow> (\<exists>i. p = push_bit i 1)"

text \<open>
  What an account keeps. Taking away a single flag keeps every privilege without that flag; taking away
  several keeps what a privilege has besides them.
\<close>

lemma contains_remove_flag:
  assumes "single_flag p" "privilege_contains q (g AND NOT r)" "\<not> privilege_contains g p"
  shows "privilege_contains (q AND NOT p) (g AND NOT r)"
proof -
  obtain i where i: "p = push_bit i 1" using assms(1) by (auto simp: single_flag_def)
  have "\<not> bit g i"
    using assms(3) i by (auto simp: privilege_contains_def bit_eq_iff [where ?'a = privilege] bit_simps)
  then show ?thesis
    using assms(2) i by (auto simp: privilege_contains_def bit_eq_iff [where ?'a = privilege] bit_simps)
qed

lemma contains_remove_flags: "privilege_contains q (g AND NOT r) \<Longrightarrow> privilege_contains (q AND NOT p) (g AND NOT (r OR p))"
  by (auto simp: privilege_contains_def bit_eq_iff [where ?'a = privilege] bit_simps)

lemma contains_insert: "privilege_contains q (g AND NOT r) \<Longrightarrow> privilege_contains (q OR p) (g AND NOT (r AND NOT p))"
  by (auto simp: privilege_contains_def bit_eq_iff [where ?'a = privilege] bit_simps)

lemma contains_part: "privilege_contains q g \<Longrightarrow> privilege_contains q (g AND NOT r)"
  by (auto simp: privilege_contains_def bit_eq_iff [where ?'a = privilege] bit_simps)

lemma contains_given: "privilege_contains q p \<Longrightarrow> q OR p = q"
  by (auto simp: privilege_contains_def bit_eq_iff [where ?'a = privilege] bit_simps)

lemma has_privilege_part: "has_privilege m p s \<Longrightarrow> has_privilege m (p AND NOT r) s"
  by (auto simp: has_privilege_def contains_part split: option.splits)

text \<open>
  Members are ordered, distinct and bounded, and each holds the privilege of its group, up to the flags \<open>R\<close> that
  it lost in revocations of several flags at once.
\<close>

definition privilege_ok :: "privilege_config \<Rightarrow> (account_id \<Rightarrow> privilege) \<Rightarrow> privilege_state \<Rightarrow> bool" where
  "privilege_ok cfg R s \<longleftrightarrow>
     finite (dom (GroupPrivileges s)) \<and> dom (GroupMembers s) = dom (GroupPrivileges s)
     \<and> (\<forall>g ms. GroupMembers s g = Some ms \<longrightarrow> sorted_wrt (<) ms \<and> length ms \<le> MaxMember cfg)
     \<and> (\<forall>g ms p m. GroupMembers s g = Some ms \<longrightarrow> GroupPrivileges s g = Some p \<longrightarrow> m \<in> set ms
          \<longrightarrow> has_privilege m (p AND NOT (R m)) s)"

lemma members_ok:
  assumes "privilege_ok cfg R s"
  shows "sorted_wrt (<) (stored_members g s)" "sorted (stored_members g s)" "distinct (stored_members g s)"
    "length (stored_members g s) \<le> MaxMember cfg \<or> stored_members g s = []"
  using assms by (auto simp: privilege_ok_def stored_members_def strict_sorted_iff split: option.split)

lemma insort_strictly_sorted: "sorted_wrt (<) xs \<Longrightarrow> x \<notin> set xs \<Longrightarrow> sorted_wrt (<) (insort (x :: nat) xs)"
  by (simp add: strict_sorted_iff sorted_insort distinct_insort)

lemma privilege_ok_other [simp]:
  "privilege_ok cfg R (s\<lparr>privilege_events := es\<rparr>) = privilege_ok cfg R s"
  "privilege_ok cfg R (s\<lparr>LastGroupId := g\<rparr>) = privilege_ok cfg R s"
  by (simp_all add: privilege_ok_def has_privilege_def)

lemma privilege_ok_mono:
  "privilege_ok cfg R s \<Longrightarrow> GroupPrivileges t = GroupPrivileges s \<Longrightarrow> GroupMembers t = GroupMembers s \<Longrightarrow>
     (\<And>m q. has_privilege m (q AND NOT (R m)) s \<Longrightarrow> has_privilege m (q AND NOT (R' m)) t) \<Longrightarrow> privilege_ok cfg R' t"
  by (simp add: privilege_ok_def)

lemma privilege_ok_group_promote:
  assumes ok: "privilege_ok cfg R s"
  shows "privilege_ok cfg R (snd (group_promote cfg g account s))"
proof (cases "GroupPrivileges s g")
  case None
  then show ?thesis using ok by (simp add: group_promote_def group_privilege_def bindM_def)
next
  case (Some p)
  note srt = members_ok [OF ok, of g]
  show ?thesis
  proof (cases "has_privilege account p s")
    case False
    then show ?thesis using ok Some by (simp add: group_promote_def group_privilege_def call_eval)
  next
    case True
    show ?thesis
    proof (cases "binary_search (stored_members g s) account")
      case (Inr i)
      then show ?thesis
        using ok Some True by (simp add: group_promote_def group_privilege_def call_eval)
    next
      case (Inl i)
      then have "account \<notin> set (stored_members g s)" "insert_at i account (stored_members g s) = Some (insort account (stored_members g s))"
        using slice.found_iff [OF srt(2), of account] slice.insert_reference [OF srt(2), of account] by auto
      moreover from this have "sorted_wrt (<) (insort account (stored_members g s))"
        using srt(1) by (simp add: insort_strictly_sorted)
      ultimately show ?thesis
        using ok Some has_privilege_part [OF True] Inl True
        by (auto simp: group_promote_def group_privilege_def call_eval privilege_deposit_event_def set_members_def
            privilege_ok_def has_privilege_def stored_members_def set_insort_key split: option.splits)
    qed
  qed
qed

lemma privilege_ok_for_each:
  "(\<And>x s. privilege_ok cfg R s \<Longrightarrow> privilege_ok cfg R (snd (f x s))) \<Longrightarrow> privilege_ok cfg R s \<Longrightarrow>
     privilege_ok cfg R (snd (for_each xs f s))"
  by (induction xs arbitrary: s)
     (auto simp: ret_def thenM_def bindM_def split: prod.split sum.split, metis snd_conv, metis snd_conv)

lemma privilege_ok_create:
  assumes "privilege_ok cfg R s"
  shows "privilege_ok cfg R (snd (group_create cfg accounts p s))"
proof -
  define g where "g = wrapping_next (GroupIdMax cfg) (LastGroupId s)"
  define u where "u = snd (thenM (modifies (\<lambda>s. s\<lparr>GroupCount := wrapping_add u32_max (GroupCount s) 1\<rparr>))
         (thenM (modifies (\<lambda>s. s\<lparr>GroupPrivileges := (GroupPrivileges s)(g \<mapsto> p)\<rparr>))
         (thenM (modifies (set_members g [])) (privilege_deposit_event (GroupCreated g p)))) s)"
  have "privilege_ok cfg R u"
    using assms by (auto simp: u_def call_eval privilege_deposit_event_def set_members_def privilege_ok_def has_privilege_def)
  then have u: "privilege_ok cfg R (snd (for_each accounts (group_promote cfg g) u))"
    by (intro privilege_ok_for_each privilege_ok_group_promote)
  obtain r v where v: "for_each accounts (group_promote cfg g) u = (r, v)" by fastforce
  then show ?thesis
    using u assms
    by (cases r) (simp_all add: group_create_def call_eval privilege_deposit_event_def u_def Let_def flip: g_def)
qed

lemma privilege_ok_delete: "privilege_ok cfg R s \<Longrightarrow> privilege_ok cfg R (snd (group_delete g s))"
  by (auto simp: group_delete_def call_eval privilege_deposit_event_def privilege_ok_def has_privilege_def)

lemma privilege_ok_promote:
  assumes "privilege_ok cfg R s"
  shows "privilege_ok cfg (R(account := R account AND NOT p)) (snd (privilege_promote account p s))"
proof (rule privilege_ok_mono [OF assms])
  let ?t = "snd (privilege_promote account p s)"
  have t: "AccountPrivileges ?t = (AccountPrivileges s)(account \<mapsto> account_privileges account s OR p)"
    by (auto simp: privilege_promote_def call_eval privilege_deposit_event_def set_account_privileges_def contains_given)
  show "has_privilege m (q AND NOT ((R(account := R account AND NOT p)) m)) ?t" if "has_privilege m (q AND NOT (R m)) s" for m q
    using that contains_insert by (auto simp: has_privilege_def t account_privileges_def split: option.splits)
qed (auto simp: privilege_promote_def call_eval privilege_deposit_event_def set_account_privileges_def)

subsection \<open>Revoking\<close>

text \<open>Taking an account out of a group it is in, or failing without a trace.\<close>

lemma group_revoke_run:
  assumes "privilege_ok cfg R s"
  shows "\<exists>r t. group_revoke g account s = (r, t) \<and> (\<forall>x. r \<noteq> Inl (Panic x))
     \<and> privilege_ok cfg R t \<and> AccountPrivileges t = AccountPrivileges s \<and> GroupPrivileges t = GroupPrivileges s
     \<and> (\<forall>h ms. GroupMembers t h = Some ms \<longrightarrow>
          (\<exists>ns. GroupMembers s h = Some ns \<and> set ms = set ns - (if h = g then {account} else {})))"
proof (cases "binary_search (stored_members g s) account")
  case (Inl i)
  then have "account \<notin> set (stored_members g s)"
    using slice.found_iff [OF members_ok(2) [OF assms, of g], of account] by auto
  then show ?thesis
    using Inl assms by (auto simp: group_revoke_def call_eval stored_members_def split: option.splits)
next
  case (Inr i)
  note srt = members_ok [OF assms, of g]
  have mem: "account \<in> set (stored_members g s)" "remove_at i (stored_members g s) = Some (account, remove1 account (stored_members g s))"
    using Inr slice.found_iff [OF srt(2), of account] slice.remove_reference [OF srt(2), of account] by auto
  then obtain ns where ns: "GroupMembers s g = Some ns" "stored_members g s = ns"
    by (auto simp: stored_members_def split: option.splits)
  define t where "t = set_members g (remove1 account ns) (s\<lparr>privilege_events := privilege_events s @ [GroupMemberRemoved g account]\<rparr>)"
  have run: "group_revoke g account s = (Inr (), t)"
    using Inr mem ns by (simp add: group_revoke_def call_eval privilege_deposit_event_def t_def)
  have "sorted_wrt (<) (remove1 account ns)" "length (remove1 account ns) \<le> MaxMember cfg"
    using srt ns by (auto simp: strict_sorted_iff sorted_remove1 distinct_remove1 length_remove1)
  moreover have "set (remove1 account ns) \<subseteq> set ns" by (rule set_remove1_subset)
  ultimately have "privilege_ok cfg R t"
    using assms ns(1) by (fastforce simp: t_def set_members_def privilege_ok_def has_privilege_def)
  then show ?thesis
    using run ns srt(3) by (auto simp: t_def set_members_def)
qed

lemma for_each_group_revoke:
  "privilege_ok cfg R s \<Longrightarrow>
   \<exists>t. for_each gs (\<lambda>g. discard_result (group_revoke g account)) s = (Inr (), t)
     \<and> privilege_ok cfg R t \<and> AccountPrivileges t = AccountPrivileges s \<and> GroupPrivileges t = GroupPrivileges s
     \<and> (\<forall>h ms. GroupMembers t h = Some ms \<longrightarrow>
          (\<exists>ns. GroupMembers s h = Some ns \<and> set ms = set ns - (if h \<in> set gs then {account} else {})))"
proof (induction gs arbitrary: s)
  case Nil
  then show ?case by (simp add: ret_def)
next
  case (Cons g gs)
  obtain r u where u: "group_revoke g account s = (r, u)" "\<forall>x. r \<noteq> Inl (Panic x)" "privilege_ok cfg R u"
    "AccountPrivileges u = AccountPrivileges s" "GroupPrivileges u = GroupPrivileges s"
    "\<forall>h ms. GroupMembers u h = Some ms \<longrightarrow>
       (\<exists>ns. GroupMembers s h = Some ns \<and> set ms = set ns - (if h = g then {account} else {}))"
    using group_revoke_run [OF Cons.prems, of g account] by blast
  have "discard_result (group_revoke g account) s = (Inr (), u)"
    using u(1,2) by (auto simp: discard_result_def split: sum.split dispatch_error.split)
  moreover obtain t where t: "for_each gs (\<lambda>g. discard_result (group_revoke g account)) u = (Inr (), t)"
    "privilege_ok cfg R t" "AccountPrivileges t = AccountPrivileges u" "GroupPrivileges t = GroupPrivileges u"
    "\<forall>h ms. GroupMembers t h = Some ms \<longrightarrow>
       (\<exists>ns. GroupMembers u h = Some ns \<and> set ms = set ns - (if h \<in> set gs then {account} else {}))"
    using Cons.IH [OF u(3)] by blast
  moreover have "\<exists>ns. GroupMembers s h = Some ns \<and> set ms = set ns - (if h \<in> set (g # gs) then {account} else {})"
    if ms: "GroupMembers t h = Some ms" for h ms
  proof -
    obtain ns where ns: "GroupMembers u h = Some ns" "set ms = set ns - (if h \<in> set gs then {account} else {})"
      using t(5) ms by blast
    moreover obtain ns' where "GroupMembers s h = Some ns'" "set ns = set ns' - (if h = g then {account} else {})"
      using u(6) ns(1) by blast
    ultimately show ?thesis by auto
  qed
  ultimately show ?case
    using u(4,5) by (auto simp: thenM_def bindM_def)
qed

definition groups_listed :: "privilege_config \<Rightarrow> bool" where
  "groups_listed cfg \<longleftrightarrow> (\<forall>m. finite (dom m) \<longrightarrow> set (GroupsIter cfg m) = dom m)"

text \<open>The flags an account may lack in its groups after a revocation.\<close>

definition lacks :: "(account_id \<Rightarrow> privilege) \<Rightarrow> account_id \<Rightarrow> privilege \<Rightarrow> account_id \<Rightarrow> privilege" where
  "lacks R account p = (if single_flag p then R else R(account := R account OR p))"

lemma lacks_part: "privilege_contains x (q AND NOT (R m)) \<Longrightarrow> privilege_contains x (q AND NOT (lacks R account p m))"
  by (auto simp: lacks_def privilege_contains_def bit_eq_iff [where ?'a = privilege] bit_simps)

lemma privilege_ok_revoke:
  assumes ok: "privilege_ok cfg R s" and cfg: "groups_listed cfg"
  shows "privilege_ok cfg (lacks R account p) (snd (privilege_revoke cfg account p s))"
proof (cases "account_privileges account s = 0")
  case True
  then show ?thesis
    by (intro privilege_ok_mono [OF ok])
       (auto simp: privilege_revoke_def call_eval set_account_privileges_def has_privilege_def account_privileges_def lacks_part
        split: option.splits)
next
  case False
  define s1 where "s1 = s\<lparr>privilege_events := privilege_events s @ [PrivilegeRemoved account p]\<rparr>"
  define gs where "gs = filter (\<lambda>g. case GroupPrivileges s g of None \<Rightarrow> False | Some gp \<Rightarrow> privilege_contains gp p)
     (GroupsIter cfg (GroupPrivileges s))"
  obtain t where t: "for_each gs (\<lambda>g. discard_result (group_revoke g account)) s1 = (Inr (), t)"
    "privilege_ok cfg R t" "AccountPrivileges t = AccountPrivileges s" "GroupPrivileges t = GroupPrivileges s"
    "\<forall>h ms. GroupMembers t h = Some ms \<longrightarrow>
       (\<exists>ns. GroupMembers s h = Some ns \<and> set ms = set ns - (if h \<in> set gs then {account} else {}))"
    using for_each_group_revoke [of cfg R s1 gs account] ok by (auto simp: s1_def)
  define u where "u = set_account_privileges account (account_privileges account s AND NOT p) t"
  have run: "privilege_revoke cfg account p s = (Inr (), u)"
    using False t(1) by (simp add: privilege_revoke_def call_eval privilege_deposit_event_def u_def s1_def gs_def)
  have "has_privilege m (gp AND NOT (lacks R account p m)) u" if "GroupMembers t g = Some ms" "GroupPrivileges t g = Some gp" "m \<in> set ms" for g ms gp m
  proof (cases "m = account")
    case True
    then have "g \<notin> set gs" using t(5) that by force
    then have "\<not> privilege_contains gp p"
      using cfg ok that(2) t(4) by (auto simp: gs_def groups_listed_def privilege_ok_def)
    moreover have "has_privilege account (gp AND NOT (R account)) s"
      using t(2,3) that True by (auto simp: privilege_ok_def has_privilege_def)
    ultimately show ?thesis
      using True contains_remove_flag [of p _ gp "R account"] contains_remove_flags [of _ gp "R account" p]
      by (auto simp: u_def set_account_privileges_def has_privilege_def account_privileges_def lacks_def split: option.splits)
  next
    case False
    then show ?thesis
      using t(2) that lacks_part by (fastforce simp: privilege_ok_def u_def set_account_privileges_def has_privilege_def split: option.splits)
  qed
  then show ?thesis
    using t(2) run by (simp add: privilege_ok_def u_def set_account_privileges_def)
qed

section \<open>Reachable states\<close>

definition privilege_genesis :: privilege_state where
  "privilege_genesis =
     \<lparr>AccountPrivileges = Map.empty, GroupPrivileges = Map.empty, GroupMembers = Map.empty, LastGroupId = 0,
      GroupCount = 0, privilege_events = []\<rparr>"

text \<open>
  Every operation of the pallet, with any arguments, whatever it returns. Beside the state, the flags an account may lack
  in its groups: those it lost in revocations of several flags at once and was not given again.
\<close>

inductive privilege_reach :: "privilege_config \<Rightarrow> (account_id \<Rightarrow> privilege) \<Rightarrow> privilege_state \<Rightarrow> bool" for cfg where
  genesis: "privilege_reach cfg (\<lambda>_. 0) privilege_genesis"
| promote: "privilege_reach cfg R s \<Longrightarrow>
    privilege_reach cfg (R(account := R account AND NOT p)) (snd (privilege_promote account p s))"
| revoke: "privilege_reach cfg R s \<Longrightarrow> privilege_reach cfg (lacks R account p) (snd (privilege_revoke cfg account p s))"
| create: "privilege_reach cfg R s \<Longrightarrow> privilege_reach cfg R (snd (group_create cfg accounts p s))"
| delete: "privilege_reach cfg R s \<Longrightarrow> privilege_reach cfg R (snd (group_delete g s))"
| join: "privilege_reach cfg R s \<Longrightarrow> privilege_reach cfg R (snd (group_promote cfg g account s))"
| leave: "privilege_reach cfg R s \<Longrightarrow> privilege_reach cfg R (snd (group_revoke g account s))"

lemma reach_privilege_ok:
  assumes "groups_listed cfg" "privilege_reach cfg R s"
  shows "privilege_ok cfg R s"
  using assms(2)
proof induction
  case genesis
  show ?case by (simp add: privilege_genesis_def privilege_ok_def)
next
  case (promote R s account p)
  then show ?case by (intro privilege_ok_promote)
next
  case (leave R s g account)
  then show ?case using group_revoke_run [OF leave.IH, of g account] by auto
qed (simp_all add: privilege_ok_revoke assms(1) privilege_ok_create privilege_ok_delete
     privilege_ok_group_promote)

section \<open>Where the code departs from its intent\<close>

definition sample_groups :: privilege_config where
  "sample_groups =
     \<lparr>MaxGroup = 2, MaxMember = 3, GroupIdMax = u128_max, GroupsIter = (\<lambda>m. sorted_list_of_set (dom m))\<rparr>"

definition sample_group :: privilege_state where
  "sample_group = snd (group_create sample_groups [6, 5] 1
     (snd (privilege_promote 6 1 (snd (privilege_promote 5 1 privilege_genesis)))))"

lemmas privilege_eval =
  sample_groups_def privilege_genesis_def group_create_def privilege_promote_def group_promote_def call_eval
  privilege_deposit_event_def account_privileges_def set_account_privileges_def privilege_contains_def
  wrapping_next_def saturating_add_def wrapping_add_def u32_max_def u128_max_def set_members_def group_privilege_def
  has_privilege_def stored_members_def binary_search_def binary_search_from.simps insert_at_def Let_def

lemma sample_group_members:
  "GroupMembers sample_group = [1 \<mapsto> [5, 6]]" "GroupPrivileges sample_group = [1 \<mapsto> 1]"
  by (simp_all add: sample_group_def privilege_eval)

text \<open>
  Revoking two flags at once leaves the account in a group whose privilege has only one of them,
  though it no longer holds it.
\<close>

lemma revoke_two_flags_keeps_member:
  "let s = snd (privilege_revoke sample_groups 5 3 sample_group)
   in is_privileged 1 5 s = Inr True \<and> \<not> has_privilege 5 1 s"
  by (simp add: sample_group_def privilege_eval privilege_revoke_def is_privileged_def group_members_def)

text \<open>
  A group whose second member does not hold the privilege is refused, but stays in storage and
  in the count, under an identifier that the next group takes over.
\<close>

lemma failed_create_leaves_group:
  "let s = snd (privilege_promote 5 1 privilege_genesis); (r, t) = group_create sample_groups [5, 9] 1 s
   in r = Inl (PrivilegeErr GroupPrivilegeNotHeld) \<and> GroupMembers t 1 = Some [5] \<and> GroupCount t = 1
      \<and> LastGroupId t = 0"
  by (simp add: privilege_eval)

section \<open>Property\<close>

text \<open>
  C14. In every reachable state each member of a group holds the privilege of the group, except for flags that
  were revoked from it several at a time and not given again; so it holds the whole privilege as long as privileges are revoked from it one flag at a
  time. The members are listed in order without duplicates and within the bound, and groups and memberships
  are recorded for the same identifiers.
\<close>

theorem group_members_privileged:
  assumes "groups_listed cfg" "privilege_reach cfg R s" "is_privileged g account s = Inr True"
  shows "\<exists>p ms. group_privilege g s = Inr p \<and> has_privilege account (p AND NOT (R account)) s
     \<and> (R account = 0 \<longrightarrow> has_privilege account p s)
     \<and> group_members g s = Inr ms \<and> sorted_wrt (<) ms \<and> length ms \<le> MaxMember cfg"
proof -
  have ok: "privilege_ok cfg R s" using assms(1,2) by (rule reach_privilege_ok)
  obtain ms where ms: "GroupMembers s g = Some ms" "account \<in> set ms"
    using assms(3) by (auto simp: is_privileged_def group_members_def split: option.splits)
  then obtain p where p: "GroupPrivileges s g = Some p"
    using ok unfolding privilege_ok_def by (metis domD domI)
  then have "has_privilege account (p AND NOT (R account)) s" using ok ms by (auto simp: privilege_ok_def)
  moreover from this have "R account = 0 \<longrightarrow> has_privilege account p s" by auto
  ultimately show ?thesis
    using ok ms p by (auto simp: privilege_ok_def group_privilege_def group_members_def)
qed

theorem group_members_privileged_witness:
  "\<exists>p ms. group_privilege 1 sample_group = Inr p \<and> has_privilege 5 p sample_group
     \<and> group_members 1 sample_group = Inr ms \<and> sorted_wrt (<) ms \<and> length ms \<le> MaxMember sample_groups"
proof -
  have "groups_listed sample_groups" by (simp add: groups_listed_def sample_groups_def)
  moreover have "privilege_reach sample_groups ((\<lambda>_. 0)(5 := 0 AND NOT 1, 6 := 0 AND NOT 1)) sample_group"
    using privilege_reach.create [OF privilege_reach.promote [OF privilege_reach.promote [OF privilege_reach.genesis,
        where account = 5 and p = 1], where account = 6 and p = 1]]
    by (simp add: sample_group_def fun_upd_idem_iff)
  moreover have "is_privileged 1 5 sample_group = Inr True"
    by (simp add: is_privileged_def group_members_def sample_group_members)
  ultimately show ?thesis
    using group_members_privileged [of sample_groups _ sample_group 1 5] by fastforce
qed

end
