(* ===== verification/Crowdloan_Rewards.thy ===== *)
theory Crowdloan_Rewards
  imports Prelude "HOL-Library.Word"
begin

text \<open>
  The crowdloan rewards pallet (frame/crowdloan-rewards). Contributors of a crowdloan, known by a
  relay chain or an Ethereum account, associate a local account by a signature and claim a reward
  that is vested from a starting block on. Signatures, hashes, the currency, proportions and the
  order in which a storage map is iterated are code outside the repository and fields of the
  configuration.
\<close>

section \<open>Data\<close>

type_synonym bytes = "8 word list"

datatype 'r remote_account = RelayChain 'r | Ethereum bytes

datatype ('r, 'g) claim_proof = RelayChainProof 'r 'g | EthereumProof bytes

record reward =
  reward_total :: balance
  reward_claimed :: balance
  reward_vesting_period :: block_number

datatype 'r crowdloan_event =
    Claimed "'r remote_account" account_id balance
  | Associated "'r remote_account" account_id

text \<open>
  \<open>MintInto\<close> is \<open>mint_into\<close> of the currency, \<open>UpfrontOf\<close> is \<open>InitialPayment::get().mul_floor\<close>,
  \<open>BlocksToBalance\<close> is \<open>Convert\<close>; \<open>HexAccount\<close> is the hexadecimal text of an encoded account,
  \<open>VerifySignature\<close> is \<open>MultiSignature::verify\<close>; \<open>EcdsaRecover\<close> and \<open>Keccak\<close> are host functions.
\<close>

record ('c, 'r, 'g) crowdloan_config =
  CrowdloanAdmin :: "raw_origin \<Rightarrow> bool"
  MintInto :: "account_id \<Rightarrow> balance \<Rightarrow> ('c, unit) call"
  UpfrontOf :: "balance \<Rightarrow> balance"
  BlocksToBalance :: "block_number \<Rightarrow> balance"
  VestingStep :: block_number
  ProofPrefix :: bytes
  HexAccount :: "account_id \<Rightarrow> bytes"
  VerifySignature :: "'g \<Rightarrow> bytes \<Rightarrow> 'r \<Rightarrow> bool"
  EcdsaRecover :: "bytes \<Rightarrow> bytes \<Rightarrow> bytes option"
  Keccak :: "bytes \<Rightarrow> bytes"
  RewardsIter :: "('r remote_account \<rightharpoonup> reward) \<Rightarrow> 'r remote_account list"

record ('c, 'r) crowdloan =
  Rewards :: "'r remote_account \<rightharpoonup> reward"
  TotalRewards :: balance
  ClaimedRewards :: balance
  TotalContributors :: nat
  VestingBlockStart :: "block_number option"
  Associations :: "account_id \<rightharpoonup> 'r remote_account"
  crowdloan_events :: "'r crowdloan_event list"
  crowdloan_block :: block_number
  crowdloan_currency :: 'c

definition crowdloan_deposit_event :: "'r crowdloan_event \<Rightarrow> (('c, 'r) crowdloan, unit) call" where
  "crowdloan_deposit_event e = modifies (\<lambda>s. s\<lparr>crowdloan_events := crowdloan_events s @ [e]\<rparr>)"

definition ensure_none :: "raw_origin \<Rightarrow> ('s, unit) call" where
  "ensure_none orig = (case orig of NoneOrigin \<Rightarrow> ret () | _ \<Rightarrow> fail BadOrigin)"

section \<open>Proofs\<close>

text \<open>Text as bytes.\<close>

definition text_bytes :: "string \<Rightarrow> bytes" where
  "text_bytes cs = map (\<lambda>c. of_nat (of_char c)) cs"

text \<open>The loop that pushes the decimal digits of the length, the last one first.\<close>

fun length_digits :: "nat \<Rightarrow> bytes" where
  "length_digits l = (if 0 < l then (48 + of_nat (l mod 10)) # length_digits (l div 10) else [])"

declare length_digits.simps [simp del]

definition ethereum_signable_message :: "bytes \<Rightarrow> bytes \<Rightarrow> bytes" where
  "ethereum_signable_message prefix msg =
     (0x19 # text_bytes ''Ethereum Signed Message:'' @ [10]) @ rev (length_digits (length prefix + length msg)) @ prefix @ msg"

definition ethereum_recover :: "('c, 'r, 'g) crowdloan_config \<Rightarrow> bytes \<Rightarrow> bytes \<Rightarrow> bytes \<Rightarrow> bytes option" where
  "ethereum_recover cfg prefix msg sig =
     (case EcdsaRecover cfg sig (Keccak cfg (ethereum_signable_message prefix msg)) of
        None \<Rightarrow> None
      | Some key \<Rightarrow> Some (drop 12 (Keccak cfg key)))"

definition verify_relay :: "('c, 'r, 'g) crowdloan_config \<Rightarrow> bytes \<Rightarrow> account_id \<Rightarrow> 'r \<Rightarrow> 'g \<Rightarrow> bool" where
  "verify_relay cfg prefix reward_account relay_account sig =
     VerifySignature cfg sig
       (text_bytes ''<Bytes>'' @ prefix @ HexAccount cfg reward_account @ text_bytes ''</Bytes>'') relay_account"

definition get_remote_account ::
  "('c, 'r, 'g) crowdloan_config \<Rightarrow> ('r, 'g) claim_proof \<Rightarrow> account_id \<Rightarrow> bytes \<Rightarrow> dispatch_error + 'r remote_account" where
  "get_remote_account cfg p reward_account prefix =
     (case p of
        EthereumProof sig \<Rightarrow>
          (case ethereum_recover cfg prefix (HexAccount cfg reward_account) sig of
             None \<Rightarrow> Inl (CrowdloanErr InvalidProof)
           | Some address \<Rightarrow> Inr (Ethereum address))
      | RelayChainProof relay_account sig \<Rightarrow>
          if verify_relay cfg prefix reward_account relay_account sig then Inr (RelayChain relay_account)
          else Inl (CrowdloanErr InvalidProof))"

section \<open>Rewards\<close>

definition should_have_claimed :: "('c, 'r, 'g) crowdloan_config \<Rightarrow> reward \<Rightarrow> ('c, 'r) crowdloan \<Rightarrow> dispatch_error + balance" where
  "should_have_claimed cfg r s =
     (case VestingBlockStart s of
        None \<Rightarrow> Inl (CrowdloanErr NotInitialized)
      | Some start \<Rightarrow>
          let upfront_payment = UpfrontOf cfg (reward_total r);
              vesting_point = saturating_sub (crowdloan_block s) start
          in if reward_vesting_period r \<le> vesting_point then Inr (reward_total r)
             else if VestingStep cfg = 0 then Inl (Panic ''remainder with a divisor of zero'')
             else if BlocksToBalance cfg (reward_vesting_period r) = 0 then Inl (Panic ''attempt to divide by zero'')
             else
               let vesting_window = saturating_sub vesting_point (vesting_point mod VestingStep cfg);
                   vested_reward = saturating_sub (reward_total r) upfront_payment
               in Inr (saturating_add u128_max upfront_payment
                    (saturating_mul u128_max vested_reward (BlocksToBalance cfg vesting_window)
                       div BlocksToBalance cfg (reward_vesting_period r))))"

definition crowdloan_do_claim ::
  "('c, 'r, 'g) crowdloan_config \<Rightarrow> 'r remote_account \<Rightarrow> account_id \<Rightarrow> (('c, 'r) crowdloan, balance) call" where
  "crowdloan_do_claim cfg remote_account reward_account =
     try_mutate (\<lambda>s. Rewards s remote_account) (\<lambda>v s. s\<lparr>Rewards := (Rewards s)(remote_account := v)\<rparr>) (\<lambda>v.
       case v of
         None \<Rightarrow> fail (CrowdloanErr InvalidProof)
       | Some r \<Rightarrow>
           bindM (\<lambda>s. (should_have_claimed cfg r s, s)) (\<lambda>should.
           let available_to_claim = saturating_sub should (reward_claimed r) in
           thenM (ensure (0 < available_to_claim) (CrowdloanErr NothingToClaim))
          (thenM (zoom crowdloan_currency (\<lambda>c s. s\<lparr>crowdloan_currency := c\<rparr>) (MintInto cfg reward_account available_to_claim))
          (thenM (modifies (\<lambda>s. s\<lparr>ClaimedRewards := saturating_add u128_max (ClaimedRewards s) available_to_claim\<rparr>))
            (ret (available_to_claim,
               Some (r\<lparr>reward_claimed := saturating_add u128_max available_to_claim (reward_claimed r)\<rparr>)))))))"

definition amount_available_to_claim_for ::
  "('c, 'r, 'g) crowdloan_config \<Rightarrow> account_id \<Rightarrow> ('c, 'r) crowdloan \<Rightarrow> dispatch_error + balance" where
  "amount_available_to_claim_for cfg account s =
     (case Associations s account of
        None \<Rightarrow> Inl (CrowdloanErr NotAssociated)
      | Some remote_account \<Rightarrow>
          (case Rewards s remote_account of
             None \<Rightarrow> Inl (CrowdloanErr NothingToClaim)
           | Some r \<Rightarrow>
               (case should_have_claimed cfg r s of
                  Inl e \<Rightarrow> Inl e
                | Inr should \<Rightarrow> Inr (wrapping_sub u128_max should (reward_claimed r)))))"

definition do_initialize :: "block_number \<Rightarrow> (('c, 'r) crowdloan, unit) call" where
  "do_initialize at = modifies (\<lambda>s. s\<lparr>VestingBlockStart := Some at\<rparr>)"

definition do_associate ::
  "('c, 'r, 'g) crowdloan_config \<Rightarrow> account_id \<Rightarrow> ('r, 'g) claim_proof \<Rightarrow> (('c, 'r) crowdloan, unit) call" where
  "do_associate cfg reward_account p =
     bindM (reads crowdloan_block) (\<lambda>now.
     bindM (reads VestingBlockStart) (\<lambda>v.
     bindM (ok_or v (CrowdloanErr NotInitialized)) (\<lambda>start.
     thenM (ensure (start \<le> now) (CrowdloanErr NotClaimableYet))
    (bindM (lift_result (get_remote_account cfg p reward_account (ProofPrefix cfg))) (\<lambda>remote_account.
     bindM (reads (\<lambda>s. Associations s reward_account)) (\<lambda>association.
     thenM (ensure (association = None) (CrowdloanErr AlreadyAssociated))
    (bindM (crowdloan_do_claim cfg remote_account reward_account) (\<lambda>claimed.
     thenM (modifies (\<lambda>s. s\<lparr>Associations := (Associations s)(reward_account \<mapsto> remote_account)\<rparr>))
    (thenM (crowdloan_deposit_event (Associated remote_account reward_account))
      (crowdloan_deposit_event (Claimed remote_account reward_account claimed)))))))))))"

definition populate_rewards ::
  "('r remote_account \<times> balance \<times> block_number) list \<Rightarrow> 'r remote_account \<rightharpoonup> reward" where
  "populate_rewards rs =
     fold (\<lambda>(remote_account, account_reward, period) m.
       m(remote_account \<mapsto> \<lparr>reward_total = account_reward, reward_claimed = 0, reward_vesting_period = period\<rparr>)) rs Map.empty"

definition do_populate ::
  "('c, 'r, 'g) crowdloan_config \<Rightarrow> ('r remote_account \<times> balance \<times> block_number) list \<Rightarrow>
     (('c, 'r) crowdloan, unit) call" where
  "do_populate cfg rs =
     bindM (reads VestingBlockStart) (\<lambda>v.
     thenM (ensure (v = None) (CrowdloanErr AlreadyInitialized))
    (thenM (modifies (\<lambda>s. s\<lparr>Rewards := populate_rewards rs\<rparr>))
    (bindM (reads (\<lambda>s. foldl (\<lambda>(total, n) k. (saturating_add u128_max total (reward_total (the (Rewards s k))),
                saturating_add u32_max n 1)) (0, 0) (RewardsIter cfg (Rewards s)))) (\<lambda>(total, n).
     thenM (modifies (\<lambda>s. s\<lparr>TotalRewards := total\<rparr>))
       (modifies (\<lambda>s. s\<lparr>TotalContributors := n\<rparr>))))))"

section \<open>Dispatchables\<close>

definition initialize :: "('c, 'r, 'g) crowdloan_config \<Rightarrow> raw_origin \<Rightarrow> (('c, 'r) crowdloan, unit) call" where
  "initialize cfg orig = transactional
     (thenM (ensure_origin (CrowdloanAdmin cfg) orig)
     (bindM (reads crowdloan_block) (\<lambda>current_block.
      bindM (reads VestingBlockStart) (\<lambda>v.
      thenM (ensure (v = None) (CrowdloanErr AlreadyInitialized)) (do_initialize current_block)))))"

definition initialize_at ::
  "('c, 'r, 'g) crowdloan_config \<Rightarrow> raw_origin \<Rightarrow> block_number \<Rightarrow> (('c, 'r) crowdloan, unit) call" where
  "initialize_at cfg orig at = transactional
     (thenM (ensure_origin (CrowdloanAdmin cfg) orig)
     (bindM (reads VestingBlockStart) (\<lambda>v.
      thenM (ensure (v = None) (CrowdloanErr AlreadyInitialized)) (do_initialize at))))"

definition populate ::
  "('c, 'r, 'g) crowdloan_config \<Rightarrow> raw_origin \<Rightarrow> ('r remote_account \<times> balance \<times> block_number) list \<Rightarrow>
     (('c, 'r) crowdloan, unit) call" where
  "populate cfg orig rs = transactional (thenM (ensure_origin (CrowdloanAdmin cfg) orig) (do_populate cfg rs))"

definition associate ::
  "('c, 'r, 'g) crowdloan_config \<Rightarrow> raw_origin \<Rightarrow> account_id \<Rightarrow> ('r, 'g) claim_proof \<Rightarrow> (('c, 'r) crowdloan, unit) call" where
  "associate cfg orig reward_account p =
     transactional (thenM (ensure_none orig) (do_associate cfg reward_account p))"

definition crowdloan_claim :: "('c, 'r, 'g) crowdloan_config \<Rightarrow> raw_origin \<Rightarrow> (('c, 'r) crowdloan, unit) call" where
  "crowdloan_claim cfg orig = transactional
     (bindM (ensure_signed orig) (\<lambda>reward_account.
      bindM (reads (\<lambda>s. Associations s reward_account)) (\<lambda>v.
      bindM (ok_or v (CrowdloanErr NotAssociated)) (\<lambda>remote_account.
      bindM (crowdloan_do_claim cfg remote_account reward_account) (\<lambda>claimed.
      crowdloan_deposit_event (Claimed remote_account reward_account claimed))))))"

section \<open>Unsigned transactions\<close>

datatype validity_error = VInvalidProof | VNoReward | VAlreadyAssociated | VNotClaimableYet

text \<open>
  The check of the transaction pool for \<open>associate\<close>; \<open>Inr\<close> carries the tag the transaction
  provides. Any other call is invalid as an unsigned transaction.
\<close>

definition validate_unsigned ::
  "('c, 'r, 'g) crowdloan_config \<Rightarrow> account_id \<Rightarrow> ('r, 'g) claim_proof \<Rightarrow> ('c, 'r) crowdloan \<Rightarrow> validity_error + 'r remote_account" where
  "validate_unsigned cfg reward_account p s =
     (case VestingBlockStart s of
        None \<Rightarrow> Inl VNotClaimableYet
      | Some start \<Rightarrow>
          if \<not> start \<le> crowdloan_block s then Inl VNotClaimableYet
          else if Associations s reward_account \<noteq> None then Inl VAlreadyAssociated
          else
            (case get_remote_account cfg p reward_account (ProofPrefix cfg) of
               Inl _ \<Rightarrow> Inl VInvalidProof
             | Inr remote_account \<Rightarrow>
                 (case Rewards s remote_account of
                    None \<Rightarrow> Inl VNoReward
                  | Some r \<Rightarrow> if reward_total r = 0 then Inl VNoReward else Inr remote_account)))"

end
