(* ===== verification/Crowdloan_Properties.thy ===== *)
theory Crowdloan_Properties
  imports Crowdloan_Rewards "HOL-Library.List_Lexorder"
begin

text \<open>
  What the crowdloan rewards pallet guarantees: nobody is paid more than has vested or less than is
  due, the totals agree with the entries, the check of the transaction pool agrees with the call,
  and the signed message carries its length in decimal.
\<close>

section \<open>What a contributor is entitled to\<close>

definition crowdloan_config_ok :: "('c, 'r, 'g) crowdloan_config \<Rightarrow> bool" where
  "crowdloan_config_ok cfg \<longleftrightarrow>
     (\<forall>n. UpfrontOf cfg n \<le> n) \<and> (\<forall>n. BlocksToBalance cfg n = n) \<and> 0 < VestingStep cfg
     \<and> (\<forall>m. finite (dom m) \<longrightarrow> distinct (RewardsIter cfg m) \<and> set (RewardsIter cfg m) = dom m)"

text \<open>The entitlement a number of blocks after the start.\<close>

definition entitled :: "('c, 'r, 'g) crowdloan_config \<Rightarrow> reward \<Rightarrow> block_number \<Rightarrow> balance" where
  "entitled cfg r p =
     (if reward_vesting_period r \<le> p then reward_total r
      else UpfrontOf cfg (reward_total r)
        + min u128_max ((reward_total r - UpfrontOf cfg (reward_total r)) * (p div VestingStep cfg * VestingStep cfg))
            div reward_vesting_period r)"

lemma vested_share:
  assumes "p < n"
  shows "min M (v * (p div k * k)) div n \<le> (v :: nat)"
proof -
  have "p div k * k \<le> p" by (rule div_times_less_eq_dividend)
  then have "p div k * k \<le> n" using assms by linarith
  then have "min M (v * (p div k * k)) \<le> v * n" by (intro min.coboundedI2 mult_le_mono2)
  then have "min M (v * (p div k * k)) div n \<le> v * n div n" by (rule div_le_mono)
  then show ?thesis using assms by simp
qed

lemma entitled_le_total:
  assumes "crowdloan_config_ok cfg"
  shows "entitled cfg r p \<le> reward_total r"
proof -
  have "UpfrontOf cfg (reward_total r) \<le> reward_total r" using assms by (simp add: crowdloan_config_ok_def)
  then show ?thesis
    using vested_share [of p "reward_vesting_period r" u128_max "reward_total r - UpfrontOf cfg (reward_total r)" "VestingStep cfg"]
    by (cases "p < reward_vesting_period r") (simp_all add: entitled_def)
qed

lemma entitled_mono:
  assumes "crowdloan_config_ok cfg" "p \<le> q"
  shows "entitled cfg r p \<le> entitled cfg r q"
proof (cases "reward_vesting_period r \<le> q")
  case True
  then show ?thesis using entitled_le_total [OF assms(1), of r p] by (simp add: entitled_def)
next
  case False
  have "p div VestingStep cfg * VestingStep cfg \<le> q div VestingStep cfg * VestingStep cfg"
    using assms(2) by (intro mult_le_mono1 div_le_mono)
  then have "(reward_total r - UpfrontOf cfg (reward_total r)) * (p div VestingStep cfg * VestingStep cfg)
      \<le> (reward_total r - UpfrontOf cfg (reward_total r)) * (q div VestingStep cfg * VestingStep cfg)"
    by (rule mult_le_mono2)
  then show ?thesis
    using False assms(2) unfolding entitled_def by (auto intro!: div_le_mono min.mono)
qed

lemma should_have_claimed_entitled:
  assumes "crowdloan_config_ok cfg" "VestingBlockStart s = Some start" "reward_total r \<le> u128_max"
  shows "should_have_claimed cfg r s = Inr (entitled cfg r (crowdloan_block s - start))"
proof -
  let ?p = "crowdloan_block s - start"
  have "?p - ?p mod VestingStep cfg = ?p div VestingStep cfg * VestingStep cfg"
    by (simp add: minus_mod_eq_div_mult)
  then show ?thesis
    using assms entitled_le_total [OF assms(1), of r ?p]
    by (auto simp: should_have_claimed_def entitled_def crowdloan_config_ok_def saturating_sub_def saturating_add_def
        saturating_mul_def Let_def min_absorb2)
qed

section \<open>The ledger of the rewards\<close>

abbreviation claimed_sum where
  "claimed_sum s \<equiv> map_sum (\<lambda>_. True) reward_claimed (Rewards s)"

abbreviation total_sum where
  "total_sum s \<equiv> map_sum (\<lambda>_. True) reward_total (Rewards s)"

definition crowdloan_ok :: "('c, 'r, 'g) crowdloan_config \<Rightarrow> ('c, 'r) crowdloan \<Rightarrow> bool" where
  "crowdloan_ok cfg s \<longleftrightarrow>
     finite (dom (Rewards s))
     \<and> (\<forall>k r. Rewards s k = Some r \<longrightarrow> reward_total r \<le> u128_max
          \<and> (case VestingBlockStart s of
               None \<Rightarrow> reward_claimed r = 0
             | Some start \<Rightarrow> reward_claimed r \<le> entitled cfg r (crowdloan_block s - start)))
     \<and> ClaimedRewards s = min u128_max (claimed_sum s) \<and> TotalRewards s = min u128_max (total_sum s)
     \<and> TotalContributors s = min u32_max (card (dom (Rewards s)))"

lemma map_sum_mono:
  assumes "finite (dom m)" "\<And>k x. m k = Some x \<Longrightarrow> f x \<le> g x"
  shows "map_sum P f m \<le> map_sum P g m"
  unfolding map_sum_def using assms by (intro sum_mono) auto

lemma claimed_le_total:
  assumes "crowdloan_config_ok cfg" "crowdloan_ok cfg s"
  shows "claimed_sum s \<le> total_sum s"
proof (rule map_sum_mono)
  show "finite (dom (Rewards s))" using assms(2) by (simp add: crowdloan_ok_def)
  fix k r
  assume "Rewards s k = Some r"
  then have "case VestingBlockStart s of None \<Rightarrow> reward_claimed r = 0
      | Some start \<Rightarrow> reward_claimed r \<le> entitled cfg r (crowdloan_block s - start)"
    using assms(2) by (simp add: crowdloan_ok_def)
  then show "reward_claimed r \<le> reward_total r"
    using order_trans [OF _ entitled_le_total [OF assms(1)]] by (auto split: option.splits)
qed

subsection \<open>Claims\<close>

lemma crowdloan_do_claim_run:
  assumes cfg: "crowdloan_config_ok cfg" and ok: "crowdloan_ok cfg s" and start: "VestingBlockStart s = Some start"
    and r: "Rewards s k = Some r" and e: "e = entitled cfg r (crowdloan_block s - start)"
  shows "crowdloan_do_claim cfg k x s =
     (if e = reward_claimed r then (Inl (CrowdloanErr NothingToClaim), s)
      else case MintInto cfg x (e - reward_claimed r) (crowdloan_currency s) of
        (Inl err, c) \<Rightarrow> (Inl err, s\<lparr>crowdloan_currency := c\<rparr>)
      | (Inr _, c) \<Rightarrow>
          (Inr (e - reward_claimed r),
           s\<lparr>crowdloan_currency := c, ClaimedRewards := saturating_add u128_max (ClaimedRewards s) (e - reward_claimed r),
             Rewards := (Rewards s)(k \<mapsto> r\<lparr>reward_claimed := e\<rparr>)\<rparr>))"
proof -
  have le: "reward_claimed r \<le> e" "reward_total r \<le> u128_max"
    using ok r start e by (auto simp: crowdloan_ok_def)
  then have "should_have_claimed cfg r s = Inr e" using should_have_claimed_entitled [OF cfg start] e by simp
  moreover have "e \<le> u128_max" using entitled_le_total [OF cfg] le(2) e order_trans by blast
  ultimately show ?thesis
    using r le(1)
    by (auto simp: crowdloan_do_claim_def call_eval saturating_sub_def saturating_add_def Let_def min_absorb2
        split: prod.split sum.split)
qed

lemma crowdloan_ok_claimed:
  assumes cfg: "crowdloan_config_ok cfg" and ok: "crowdloan_ok cfg s" and start: "VestingBlockStart s = Some start"
    and r: "Rewards s k = Some r" and e: "e = entitled cfg r (crowdloan_block s - start)"
  shows "crowdloan_ok cfg (s\<lparr>crowdloan_currency := c,
      ClaimedRewards := saturating_add u128_max (ClaimedRewards s) (e - reward_claimed r),
      Rewards := (Rewards s)(k \<mapsto> r\<lparr>reward_claimed := e\<rparr>)\<rparr>)"
proof -
  let ?m = "(Rewards s)(k \<mapsto> r\<lparr>reward_claimed := e\<rparr>)"
  have fin: "finite (dom (Rewards s))" and le: "reward_claimed r \<le> e" using ok r start e by (auto simp: crowdloan_ok_def)
  have "map_sum (\<lambda>_. True) reward_claimed ?m + reward_claimed r = claimed_sum s + e"
    "map_sum (\<lambda>_. True) reward_total ?m + reward_total r = total_sum s + reward_total r"
    using map_sum_update [OF fin, of "\<lambda>_. True" reward_claimed k] map_sum_update [OF fin, of "\<lambda>_. True" reward_total k] r
    by (simp_all add: entry_weight_def)
  moreover have "entitled cfg (r\<lparr>reward_claimed := e\<rparr>) p = entitled cfg r p" for p by (simp add: entitled_def)
  moreover have "dom ?m = dom (Rewards s)" using r by auto
  moreover have "saturating_add u128_max (ClaimedRewards s) (e - reward_claimed r)
      = min u128_max (map_sum (\<lambda>_. True) reward_claimed ?m)"
  proof -
    have "map_sum (\<lambda>_. True) reward_claimed ?m = claimed_sum s + (e - reward_claimed r)"
      using calculation(1) le by linarith
    moreover have "min u128_max (min u128_max a + d) = min u128_max (a + d)" for a d :: nat by (simp add: min_def)
    ultimately show ?thesis using ok by (simp add: crowdloan_ok_def saturating_add_def)
  qed
  ultimately show ?thesis
    using ok r le start e by (auto simp: crowdloan_ok_def)
qed

lemma crowdloan_ok_other:
  assumes "crowdloan_ok cfg s" "Rewards t = Rewards s" "TotalRewards t = TotalRewards s" "ClaimedRewards t = ClaimedRewards s"
    "TotalContributors t = TotalContributors s" "VestingBlockStart t = VestingBlockStart s" "crowdloan_block t = crowdloan_block s"
  shows "crowdloan_ok cfg t"
  using assms by (auto simp: crowdloan_ok_def split: option.splits)

lemma wp_crowdloan_do_claim:
  assumes "crowdloan_config_ok cfg" "crowdloan_ok cfg s"
    and "\<And>n t. crowdloan_ok cfg t \<Longrightarrow> VestingBlockStart t = VestingBlockStart s \<Longrightarrow> Q n t" "\<And>e t. E e t"
  shows "wp (crowdloan_do_claim cfg k x) Q E s"
proof (cases "Rewards s k")
  case None
  then show ?thesis using assms(4) by (simp add: crowdloan_do_claim_def wp_simps)
next
  case (Some r)
  show ?thesis
  proof (cases "VestingBlockStart s")
    case None
    then show ?thesis
      using Some assms(4) by (simp add: crowdloan_do_claim_def wp_def call_eval should_have_claimed_def)
  next
    case start: (Some start)
    show ?thesis
      unfolding wp_def crowdloan_do_claim_run [OF assms(1,2) start Some refl]
      using assms(3) [OF crowdloan_ok_claimed [OF assms(1,2) start Some refl]] assms(4)
      by (simp split: prod.split sum.split)
  qed
qed

lemma crowdloan_ok_claim:
  assumes "crowdloan_config_ok cfg" "crowdloan_ok cfg s"
  shows "crowdloan_ok cfg (snd (crowdloan_claim cfg orig s))"
  unfolding crowdloan_claim_def wp_state [symmetric]
  using assms(2)
  by (auto simp: wp_simps crowdloan_deposit_event_def intro!: wp_crowdloan_do_claim assms elim: crowdloan_ok_other
      split: raw_origin.split option.split)

lemma crowdloan_ok_associate:
  assumes "crowdloan_config_ok cfg" "crowdloan_ok cfg s"
  shows "crowdloan_ok cfg (snd (associate cfg orig x p s))"
  unfolding associate_def do_associate_def ensure_none_def wp_state [symmetric]
  using assms(2)
  by (auto simp: wp_simps crowdloan_deposit_event_def intro!: wp_crowdloan_do_claim assms elim: crowdloan_ok_other
      split: raw_origin.split option.split sum.split)

subsection \<open>Populating\<close>

lemma populate_rewards_entries:
  assumes "\<forall>(k, n, p) \<in> set rs. n \<le> M"
  shows "finite (dom (populate_rewards (rs :: ('a remote_account \<times> balance \<times> block_number) list)))
    \<and> (\<forall>k r. populate_rewards rs k = Some r \<longrightarrow> reward_total r \<le> M \<and> reward_claimed r = 0)"
proof -
  define f :: "'a remote_account \<times> balance \<times> block_number \<Rightarrow> ('a remote_account \<rightharpoonup> reward) \<Rightarrow> ('a remote_account \<rightharpoonup> reward)"
    where "f = (\<lambda>(remote_account, account_reward, period) m.
       m(remote_account \<mapsto> \<lparr>reward_total = account_reward, reward_claimed = 0, reward_vesting_period = period\<rparr>))"
  have "finite (dom (fold f rs m)) \<and> (\<forall>k r. fold f rs m k = Some r \<longrightarrow> reward_total r \<le> M \<and> reward_claimed r = 0)"
    if "finite (dom m)" "\<forall>k r. m k = Some r \<longrightarrow> reward_total r \<le> M \<and> reward_claimed r = 0" for m
    using assms that
  proof (induction rs arbitrary: m)
    case (Cons x rs)
    have "finite (dom (f x m))" "\<forall>k r. f x m k = Some r \<longrightarrow> reward_total r \<le> M \<and> reward_claimed r = 0"
      using Cons.prems by (auto simp: f_def split: prod.splits)
    from Cons.IH [OF _ this] Cons.prems(1) show ?case by simp
  qed simp
  from this [of Map.empty] show ?thesis unfolding populate_rewards_def f_def by simp
qed

lemma total_fold:
  "foldl (\<lambda>(total, n) k. (saturating_add M total (f k), saturating_add N n 1)) (min M a, min N b) ks
     = (min M (a + sum_list (map f ks)), min N (b + length ks))"
proof (induction ks arbitrary: a b)
  case (Cons k ks)
  have "saturating_add M (min M a) (f k) = min M (a + f k)" "saturating_add N (min N b) 1 = min N (b + 1)"
    by (simp_all add: saturating_add_def min_def)
  then show ?case using Cons [of "a + f k" "b + 1"] by (simp add: add.assoc)
qed simp

lemma map_sum_zero: "(\<And>k x. m k = Some x \<Longrightarrow> f x = 0) \<Longrightarrow> map_sum P f m = 0"
  unfolding map_sum_def by (intro sum.neutral) auto

lemma crowdloan_ok_populate:
  assumes cfg: "crowdloan_config_ok cfg" and ok: "crowdloan_ok cfg s" and rs: "\<forall>(k, n, p) \<in> set rs. n \<le> u128_max"
  shows "crowdloan_ok cfg (snd (populate cfg orig rs s))"
proof -
  let ?m = "populate_rewards rs"
  have m: "finite (dom ?m)" "\<And>k r. ?m k = Some r \<Longrightarrow> reward_total r \<le> u128_max \<and> reward_claimed r = 0"
    using populate_rewards_entries [OF rs] by auto
  have iter: "distinct (RewardsIter cfg ?m)" "set (RewardsIter cfg ?m) = dom ?m"
    using cfg m(1) by (auto simp: crowdloan_config_ok_def)
  have sums: "sum_list (map (\<lambda>k. reward_total (the (?m k))) (RewardsIter cfg ?m)) = map_sum (\<lambda>_. True) reward_total ?m"
    "length (RewardsIter cfg ?m) = card (dom ?m)"
    using iter by (simp_all add: sum_list_distinct_conv_sum_set map_sum_def distinct_card [symmetric])
  have fold: "foldl (\<lambda>(total, n) k. (saturating_add u128_max total (reward_total (the (?m k))), saturating_add u32_max n 1))
      (0, 0) (RewardsIter cfg ?m) = (min u128_max (map_sum (\<lambda>_. True) reward_total ?m), min u32_max (card (dom ?m)))"
    using total_fold [of u128_max "\<lambda>k. reward_total (the (?m k))" u32_max 0 0 "RewardsIter cfg ?m"] sums by simp
  have zero: "map_sum (\<lambda>_. True) reward_claimed ?m = 0" using m(2) by (intro map_sum_zero) simp
  show ?thesis
  proof (cases "VestingBlockStart s = None \<and> CrowdloanAdmin cfg orig")
    case True
    then have "claimed_sum s = 0" using ok by (intro map_sum_zero) (auto simp: crowdloan_ok_def)
    then have "ClaimedRewards s = 0" using ok by (simp add: crowdloan_ok_def)
    then show ?thesis
      unfolding populate_def do_populate_def wp_state [symmetric]
      using True m fold zero by (simp add: wp_simps crowdloan_ok_def)
  next
    case False
    then show ?thesis
      unfolding populate_def do_populate_def wp_state [symmetric] using ok by (auto simp: wp_simps)
  qed
qed

lemma crowdloan_ok_start:
  assumes "crowdloan_ok cfg s" "VestingBlockStart s = None"
  shows "crowdloan_ok cfg (s\<lparr>VestingBlockStart := Some at\<rparr>)"
  using assms by (auto simp: crowdloan_ok_def)

lemma crowdloan_ok_initialize:
  assumes "crowdloan_ok cfg s"
  shows "crowdloan_ok cfg (snd (initialize cfg orig s))" "crowdloan_ok cfg (snd (initialize_at cfg orig at s))"
  unfolding initialize_def initialize_at_def do_initialize_def wp_state [symmetric]
  using assms by (auto simp: wp_simps crowdloan_ok_start)

section \<open>Reachable states\<close>

definition crowdloan_genesis :: "block_number \<Rightarrow> 'c \<Rightarrow> ('c, 'r) crowdloan" where
  "crowdloan_genesis n c =
     \<lparr>Rewards = Map.empty, TotalRewards = 0, ClaimedRewards = 0, TotalContributors = 0, VestingBlockStart = None,
      Associations = Map.empty, crowdloan_events = [], crowdloan_block = n, crowdloan_currency = c\<rparr>"

text \<open>Amounts in a call are of type \<open>u128\<close>. Blocks pass and the currency changes outside the pallet.\<close>

inductive crowdloan_reach :: "('c, 'r, 'g) crowdloan_config \<Rightarrow> ('c, 'r) crowdloan \<Rightarrow> bool" for cfg where
  genesis: "crowdloan_reach cfg (crowdloan_genesis n c)"
| populate: "crowdloan_reach cfg s \<Longrightarrow> \<forall>(k, n, p) \<in> set rs. n \<le> u128_max \<Longrightarrow>
    crowdloan_reach cfg (snd (populate cfg orig rs s))"
| initialize: "crowdloan_reach cfg s \<Longrightarrow> crowdloan_reach cfg (snd (initialize cfg orig s))"
| initialize_at: "crowdloan_reach cfg s \<Longrightarrow> crowdloan_reach cfg (snd (initialize_at cfg orig at s))"
| associate: "crowdloan_reach cfg s \<Longrightarrow> crowdloan_reach cfg (snd (associate cfg orig x p s))"
| claim: "crowdloan_reach cfg s \<Longrightarrow> crowdloan_reach cfg (snd (crowdloan_claim cfg orig s))"
| block: "crowdloan_reach cfg s \<Longrightarrow> crowdloan_block s \<le> n \<Longrightarrow> crowdloan_reach cfg (s\<lparr>crowdloan_block := n\<rparr>)"
| currency: "crowdloan_reach cfg s \<Longrightarrow> crowdloan_reach cfg (s\<lparr>crowdloan_currency := c\<rparr>)"

lemma crowdloan_ok_block:
  assumes "crowdloan_config_ok cfg" "crowdloan_ok cfg s" "crowdloan_block s \<le> n"
  shows "crowdloan_ok cfg (s\<lparr>crowdloan_block := n\<rparr>)"
proof -
  have "entitled cfg r (crowdloan_block s - start) \<le> entitled cfg r (n - start)" for r start
    using assms(3) by (intro entitled_mono [OF assms(1)] diff_le_mono)
  then show ?thesis
    using assms(2) by (auto simp: crowdloan_ok_def split: option.splits) (meson order_trans)
qed

lemma reach_crowdloan_ok:
  assumes "crowdloan_config_ok cfg" "crowdloan_reach cfg s"
  shows "crowdloan_ok cfg s"
  using assms(2)
proof induction
  case genesis
  show ?case by (simp add: crowdloan_genesis_def crowdloan_ok_def)
next
  case populate
  then show ?case by (intro crowdloan_ok_populate assms(1))
next
  case (currency s c)
  then show ?case by (auto elim: crowdloan_ok_other)
qed (simp_all add: crowdloan_ok_initialize crowdloan_ok_associate crowdloan_ok_claim crowdloan_ok_block assms(1))

section \<open>A concrete crowdloan\<close>

definition sample_crowdloan :: "(account_id \<Rightarrow> balance, nat, nat) crowdloan_config" where
  "sample_crowdloan =
     \<lparr>CrowdloanAdmin = (\<lambda>orig. orig = RootOrigin), MintInto = (\<lambda>x n. modifies (\<lambda>b. b(x := b x + n))),
      UpfrontOf = (\<lambda>n. n div 2), BlocksToBalance = (\<lambda>n. n), VestingStep = 10, ProofPrefix = [],
      HexAccount = (\<lambda>x. [of_nat x]), VerifySignature = (\<lambda>sig msg key. sig = key), EcdsaRecover = (\<lambda>_ _. None), Keccak = id,
      RewardsIter = (\<lambda>m. map RelayChain (sorted_list_of_set {n. m (RelayChain n) \<noteq> None})
        @ map Ethereum (sorted_list_of_set {n. m (Ethereum n) \<noteq> None}))\<rparr>"

lemma sample_crowdloan_ok: "crowdloan_config_ok sample_crowdloan"
proof -
  have "distinct (RewardsIter sample_crowdloan m) \<and> set (RewardsIter sample_crowdloan m) = dom m"
    if "finite (dom m)" for m
  proof -
    have "{n. m (RelayChain n) \<noteq> None} = RelayChain -` dom m" "{n. m (Ethereum n) \<noteq> None} = Ethereum -` dom m" by auto
    then have fin: "finite {n. m (RelayChain n) \<noteq> None}" "finite {n. m (Ethereum n) \<noteq> None}"
      using that by (auto intro!: finite_vimageI injI)
    then have "set (RewardsIter sample_crowdloan m) = dom m"
      by (auto simp: sample_crowdloan_def image_iff dom_def) (metis option.distinct(1) remote_account.exhaust)
    then show ?thesis
      using fin by (auto simp: sample_crowdloan_def distinct_map inj_on_def)
  qed
  then show ?thesis by (simp add: crowdloan_config_ok_def) (simp add: sample_crowdloan_def)
qed

section \<open>Paying out\<close>

text \<open>
  C29. In every state the pallet can reach, the totals agree with the entries and nobody has been
  paid more than has vested: nothing is claimed before the start, afterwards each entry has claimed
  at most what it is entitled to at the current block, which is at most its total; the storage item
  of the claimed rewards is the sum over the entries and at most the total of the rewards (both
  saturate at the largest \<open>u128\<close>), and the contributors are counted.
\<close>

theorem crowdloan_ledger:
  assumes "crowdloan_config_ok cfg" "crowdloan_reach cfg s"
  shows "(\<forall>k r. Rewards s k = Some r \<longrightarrow>
        (case VestingBlockStart s of
           None \<Rightarrow> reward_claimed r = 0
         | Some start \<Rightarrow> should_have_claimed cfg r s = Inr (entitled cfg r (crowdloan_block s - start))
             \<and> reward_claimed r \<le> entitled cfg r (crowdloan_block s - start)
             \<and> entitled cfg r (crowdloan_block s - start) \<le> reward_total r))
     \<and> ClaimedRewards s = min u128_max (claimed_sum s) \<and> TotalRewards s = min u128_max (total_sum s)
     \<and> ClaimedRewards s \<le> TotalRewards s \<and> TotalContributors s = min u32_max (card (dom (Rewards s)))"
proof -
  have ok: "crowdloan_ok cfg s" by (rule reach_crowdloan_ok [OF assms])
  have "should_have_claimed cfg r s = Inr (entitled cfg r (crowdloan_block s - start))"
    if "Rewards s k = Some r" "VestingBlockStart s = Some start" for k r start
    using ok that by (intro should_have_claimed_entitled [OF assms(1)]) (auto simp: crowdloan_ok_def)
  moreover have "min u128_max (claimed_sum s) \<le> min u128_max (total_sum s)"
    using claimed_le_total [OF assms(1) ok] by (rule min.mono [OF order_refl])
  ultimately show ?thesis
    using ok entitled_le_total [OF assms(1)] by (auto simp: crowdloan_ok_def split: option.splits)
qed

lemma crowdloan_claim_run:
  assumes "crowdloan_config_ok cfg" "crowdloan_ok cfg s" "Associations s x = Some k" "VestingBlockStart s = Some start"
    and "Rewards s k = Some r" "e = entitled cfg r (crowdloan_block s - start)"
  shows "crowdloan_claim cfg (SignedOrigin x) s =
     (if e = reward_claimed r then (Inl (CrowdloanErr NothingToClaim), s)
      else case MintInto cfg x (e - reward_claimed r) (crowdloan_currency s) of
        (Inl err, c) \<Rightarrow> (Inl err, s)
      | (Inr _, c) \<Rightarrow>
          (Inr (),
           s\<lparr>crowdloan_currency := c, ClaimedRewards := saturating_add u128_max (ClaimedRewards s) (e - reward_claimed r),
             Rewards := (Rewards s)(k \<mapsto> r\<lparr>reward_claimed := e\<rparr>),
             crowdloan_events := crowdloan_events s @ [Claimed k x (e - reward_claimed r)]\<rparr>))"
  using crowdloan_do_claim_run [OF assms(1,2,4,5,6), of x] assms(3)
  by (simp add: crowdloan_claim_def crowdloan_deposit_event_def call_eval split: prod.split sum.split)

text \<open>
  C28. A contributor with an association is paid exactly what has vested and is not yet paid: the
  amount the pallet reports as available is the entitlement less what was claimed, without a wrap;
  when it is positive and the currency mints it, \<open>claim\<close> succeeds, the mint is of that amount to the
  claiming account, the entry has then claimed the whole entitlement and a second claim in the same
  block reports \<open>NothingToClaim\<close> and changes nothing. Once the vesting period has passed the
  entitlement is the total.
\<close>

theorem claim_pays_vested:
  assumes "crowdloan_config_ok cfg" "crowdloan_reach cfg s" "Associations s x = Some k"
    and "VestingBlockStart s = Some start" "Rewards s k = Some r"
    and "e = entitled cfg r (crowdloan_block s - start)" "reward_claimed r < e"
    and "MintInto cfg x (e - reward_claimed r) (crowdloan_currency s) = (Inr u, c)"
  shows "amount_available_to_claim_for cfg x s = Inr (e - reward_claimed r)
     \<and> (let (res, t) = crowdloan_claim cfg (SignedOrigin x) s in
          res = Inr () \<and> crowdloan_currency t = c \<and> Rewards t = (Rewards s)(k \<mapsto> r\<lparr>reward_claimed := e\<rparr>)
          \<and> crowdloan_events t = crowdloan_events s @ [Claimed k x (e - reward_claimed r)]
          \<and> amount_available_to_claim_for cfg x t = Inr 0
          \<and> crowdloan_claim cfg (SignedOrigin x) t = (Inl (CrowdloanErr NothingToClaim), t))
     \<and> (start + reward_vesting_period r \<le> crowdloan_block s \<longrightarrow> e = reward_total r)"
proof -
  have ok: "crowdloan_ok cfg s" by (rule reach_crowdloan_ok [OF assms(1,2)])
  have le: "reward_total r \<le> u128_max" using ok assms(5) by (simp add: crowdloan_ok_def)
  have e: "e \<le> u128_max" using entitled_le_total [OF assms(1)] le assms(6) order_trans by blast
  let ?t = "s\<lparr>crowdloan_currency := c, ClaimedRewards := saturating_add u128_max (ClaimedRewards s) (e - reward_claimed r),
      Rewards := (Rewards s)(k \<mapsto> r\<lparr>reward_claimed := e\<rparr>),
      crowdloan_events := crowdloan_events s @ [Claimed k x (e - reward_claimed r)]\<rparr>"
  have run: "crowdloan_claim cfg (SignedOrigin x) s = (Inr (), ?t)"
    using crowdloan_claim_run [OF assms(1) ok assms(3-6)] assms(7,8) by simp
  have t: "crowdloan_ok cfg ?t"
    using crowdloan_ok_claim [OF assms(1) ok, of "SignedOrigin x"] run by simp
  have same: "entitled cfg (r\<lparr>reward_claimed := e\<rparr>) p = entitled cfg r p" for p by (simp add: entitled_def)
  have again: "crowdloan_claim cfg (SignedOrigin x) ?t = (Inl (CrowdloanErr NothingToClaim), ?t)"
    using crowdloan_claim_run [OF assms(1) t, of x k start "r\<lparr>reward_claimed := e\<rparr>" e] assms(3,4,6) same by simp
  have "wrapping_sub u128_max e (reward_claimed r) = e - reward_claimed r"
    "wrapping_sub u128_max e e = 0"
    using e assms(7) by (simp_all add: wrapping_sub_le)
  then have "amount_available_to_claim_for cfg x s = Inr (e - reward_claimed r)"
    "amount_available_to_claim_for cfg x ?t = Inr 0"
    using should_have_claimed_entitled [OF assms(1), of s start r] le assms(3-6)
      should_have_claimed_entitled [OF assms(1), of ?t start "r\<lparr>reward_claimed := e\<rparr>"] same
    by (simp_all add: amount_available_to_claim_for_def)
  moreover have "start + reward_vesting_period r \<le> crowdloan_block s \<Longrightarrow> e = reward_total r"
    using assms(6) by (simp add: entitled_def le_diff_conv2 add.commute)
  ultimately show ?thesis using run again by simp
qed

section \<open>The check of the transaction pool\<close>

lemma associate_run:
  assumes cfg: "crowdloan_config_ok cfg" and ok: "crowdloan_ok cfg s"
  shows "associate cfg NoneOrigin x p s =
     (case VestingBlockStart s of
        None \<Rightarrow> (Inl (CrowdloanErr NotInitialized), s)
      | Some start \<Rightarrow>
          if crowdloan_block s < start then (Inl (CrowdloanErr NotClaimableYet), s)
          else (case get_remote_account cfg p x (ProofPrefix cfg) of
             Inl e \<Rightarrow> (Inl e, s)
           | Inr k \<Rightarrow>
               if Associations s x \<noteq> None then (Inl (CrowdloanErr AlreadyAssociated), s)
               else (case crowdloan_do_claim cfg k x s of
                  (Inl e, _) \<Rightarrow> (Inl e, s)
                | (Inr n, t) \<Rightarrow> (Inr (), t\<lparr>Associations := (Associations t)(x \<mapsto> k),
                    crowdloan_events := crowdloan_events t @ [Associated k x, Claimed k x n]\<rparr>))))"
  by (simp add: associate_def ensure_none_def do_associate_def crowdloan_deposit_event_def call_eval
      split: option.split sum.split prod.split)

text \<open>
  C30. The check of the transaction pool and the call \<open>associate\<close> agree. A transaction the pool
  refuses fails with the error of the same cause and changes nothing. One it accepts cannot fail
  for a cause the pool checks: the only errors left are that everything vested has been claimed
  already and an error of the mint, and otherwise the account is associated with the remote account
  of the tag, paid what is due to it, and both events are deposited.
\<close>

theorem validated_association:
  assumes "crowdloan_config_ok cfg" "crowdloan_reach cfg s"
  shows "case validate_unsigned cfg x p s of
     Inl v \<Rightarrow> \<exists>e. associate cfg NoneOrigin x p s = (Inl (CrowdloanErr e), s)
       \<and> e \<in> (case v of VNotClaimableYet \<Rightarrow> {NotInitialized, NotClaimableYet} | VAlreadyAssociated \<Rightarrow> {AlreadyAssociated, InvalidProof}
            | VInvalidProof \<Rightarrow> {InvalidProof} | VNoReward \<Rightarrow> {InvalidProof, NothingToClaim})
   | Inr k \<Rightarrow> \<exists>r start. Rewards s k = Some r \<and> VestingBlockStart s = Some start \<and>
       (let due = entitled cfg r (crowdloan_block s - start) - reward_claimed r in
        associate cfg NoneOrigin x p s =
          (if due = 0 then (Inl (CrowdloanErr NothingToClaim), s)
           else case MintInto cfg x due (crowdloan_currency s) of
             (Inl err, c) \<Rightarrow> (Inl err, s)
           | (Inr _, c) \<Rightarrow> (Inr (), s\<lparr>crowdloan_currency := c, ClaimedRewards := saturating_add u128_max (ClaimedRewards s) due,
               Rewards := (Rewards s)(k \<mapsto> r\<lparr>reward_claimed := entitled cfg r (crowdloan_block s - start)\<rparr>),
               Associations := (Associations s)(x \<mapsto> k),
               crowdloan_events := crowdloan_events s @ [Associated k x, Claimed k x due]\<rparr>)))"
proof (cases "VestingBlockStart s")
  case None
  then show ?thesis
    by (simp add: validate_unsigned_def associate_run [OF assms(1) reach_crowdloan_ok [OF assms]])
next
  case start: (Some start)
  have ok: "crowdloan_ok cfg s" by (rule reach_crowdloan_ok [OF assms])
  note run = associate_run [OF assms(1) ok]
  have proof_error: "e = CrowdloanErr InvalidProof" if "get_remote_account cfg p x (ProofPrefix cfg) = Inl e" for e
    using that by (auto simp: get_remote_account_def split: claim_proof.splits option.splits if_splits)
  show ?thesis
  proof (cases "crowdloan_block s < start \<or> Associations s x \<noteq> None \<or> (\<exists>e. get_remote_account cfg p x (ProofPrefix cfg) = Inl e)")
    case True
    then show ?thesis
      using start proof_error
      by (cases "get_remote_account cfg p x (ProofPrefix cfg)") (auto simp: validate_unsigned_def run not_less)
  next
    case False
    then obtain k where k: "get_remote_account cfg p x (ProofPrefix cfg) = Inr k"
      by (cases "get_remote_account cfg p x (ProofPrefix cfg)") auto
    show ?thesis
    proof (cases "Rewards s k")
      case None
      then have "crowdloan_do_claim cfg k x s = (Inl (CrowdloanErr InvalidProof), s)" by (simp add: crowdloan_do_claim_def call_eval)
      then show ?thesis using None False k start by (simp add: validate_unsigned_def run)
    next
      case (Some r)
      let ?e = "entitled cfg r (crowdloan_block s - start)"
      have "reward_claimed r \<le> ?e" "?e \<le> reward_total r"
        using ok Some start entitled_le_total [OF assms(1)] by (auto simp: crowdloan_ok_def)
      then show ?thesis
        using False k start Some crowdloan_do_claim_run [OF assms(1) ok start Some refl, of x]
        by (auto simp: validate_unsigned_def run Let_def split: prod.split sum.split)
    qed
  qed
qed

section \<open>The signed message\<close>

definition decimal :: "bytes \<Rightarrow> nat" where
  "decimal ds = foldl (\<lambda>n d. 10 * n + (unat d - 48)) 0 ds"

lemma decimal_append [simp]: "decimal (ds @ [d]) = 10 * decimal ds + (unat d - 48)"
  by (simp add: decimal_def)

lemma digit_byte:
  assumes "d < 10"
  shows "unat (48 + of_nat d :: 8 word) = 48 + d"
proof -
  have "(48 + of_nat d :: 8 word) = of_nat (48 + d)" by simp
  then show ?thesis using assms by (simp only: unat_of_nat take_bit_eq_mod) simp
qed

lemma length_digits_decimal:
  "decimal (rev (length_digits l)) = l \<and> (\<forall>d \<in> set (length_digits l). 48 \<le> unat d \<and> unat d \<le> 57)"
proof (induction l rule: length_digits.induct)
  case (1 l)
  show ?case
  proof (cases "0 < l")
    case True
    then show ?thesis using 1 digit_byte [of "l mod 10"] by (subst (1 2) length_digits.simps) (auto simp: decimal_append)
  next
    case False
    then show ?thesis by (simp add: length_digits.simps decimal_def)
  qed
qed

lemma length_digits_mono: "l \<le> m \<Longrightarrow> length (length_digits l) \<le> length (length_digits m)"
proof (induction m arbitrary: l rule: length_digits.induct)
  case (1 m)
  show ?case
  proof (cases "0 < l")
    case True
    then have "length (length_digits (l div 10)) \<le> length (length_digits (m div 10))"
      using 1 by (intro "1.IH") (auto intro: div_le_mono)
    then show ?thesis using True "1.prems" by (subst (1 2) length_digits.simps) simp
  next
    case False
    then show ?thesis by (simp add: length_digits.simps [of 0])
  qed
qed

text \<open>
  The message an Ethereum account signs is unambiguous: between its fixed head and the payload
  stand only decimal digits, they read as the length of the payload, and two messages are equal
  exactly when their payloads (the prefix followed by the account) are.
\<close>

theorem signable_message_roundtrip:
  "\<exists>ds. ethereum_signable_message prefix msg = (0x19 # text_bytes ''Ethereum Signed Message:'' @ [10]) @ ds @ prefix @ msg
     \<and> decimal ds = length (prefix @ msg) \<and> set ds \<subseteq> {d. 48 \<le> unat d \<and> unat d \<le> 57}
     \<and> (ethereum_signable_message prefix msg = ethereum_signable_message prefix' msg' \<longleftrightarrow> prefix @ msg = prefix' @ msg')"
proof -
  let ?d = "\<lambda>l. rev (length_digits l)"
  have "prefix @ msg = prefix' @ msg'"
    if eq: "ethereum_signable_message prefix msg = ethereum_signable_message prefix' msg'"
  proof -
    have len: "length (length_digits (length (prefix @ msg))) + length (prefix @ msg)
        = length (length_digits (length (prefix' @ msg'))) + length (prefix' @ msg')"
      using arg_cong [OF eq, of length] by (simp add: ethereum_signable_message_def)
    have "length (prefix @ msg) = length (prefix' @ msg')"
      using len length_digits_mono [of "length (prefix @ msg)" "length (prefix' @ msg')"]
        length_digits_mono [of "length (prefix' @ msg')" "length (prefix @ msg)"] by linarith
    then show ?thesis using eq by (simp add: ethereum_signable_message_def)
  qed
  moreover have "ethereum_signable_message prefix msg = ethereum_signable_message prefix' msg'"
    if "prefix @ msg = prefix' @ msg'"
    using that by (simp add: ethereum_signable_message_def flip: length_append)
  moreover have "decimal (?d (length (prefix @ msg))) = length (prefix @ msg)"
    "\<forall>d \<in> set (?d (length (prefix @ msg))). 48 \<le> unat d \<and> unat d \<le> 57"
    using length_digits_decimal [of "length (prefix @ msg)"] by simp_all
  moreover have "ethereum_signable_message prefix msg
      = (0x19 # text_bytes ''Ethereum Signed Message:'' @ [10]) @ ?d (length (prefix @ msg)) @ prefix @ msg"
    by (simp add: ethereum_signable_message_def)
  ultimately show ?thesis by blast
qed

section \<open>Runs of the concrete crowdloan\<close>

text \<open>
  Two contributors are registered, vesting starts at block 5; the first associates account 3 and
  receives the upfront half. The states are reached from the genesis state.
\<close>

definition crowdloan_started :: "(account_id \<Rightarrow> balance, nat) crowdloan" where
  "crowdloan_started =
     \<lparr>Rewards = [RelayChain 7 \<mapsto> \<lparr>reward_total = 100, reward_claimed = 0, reward_vesting_period = 50\<rparr>,
         RelayChain 8 \<mapsto> \<lparr>reward_total = 60, reward_claimed = 0, reward_vesting_period = 50\<rparr>],
      TotalRewards = 160, ClaimedRewards = 0, TotalContributors = 2, VestingBlockStart = Some 5,
      Associations = Map.empty, crowdloan_events = [], crowdloan_block = 5, crowdloan_currency = (\<lambda>_. 0)\<rparr>"

definition crowdloan_later :: "(account_id \<Rightarrow> balance, nat) crowdloan" where
  "crowdloan_later =
     crowdloan_started\<lparr>Rewards := (Rewards crowdloan_started)(RelayChain 7 \<mapsto>
         \<lparr>reward_total = 100, reward_claimed = 50, reward_vesting_period = 50\<rparr>),
       ClaimedRewards := 50, Associations := [3 \<mapsto> RelayChain 7],
       crowdloan_events := [Associated (RelayChain 7) 3, Claimed (RelayChain 7) 3 50],
       crowdloan_block := 28, crowdloan_currency := (\<lambda>_. 0)(3 := 50)\<rparr>"

lemma remote_keys:
  "{n. [RelayChain a \<mapsto> x, RelayChain b \<mapsto> y] (RelayChain n) \<noteq> None} = {a, b}"
  "{n. [RelayChain a \<mapsto> x, RelayChain b \<mapsto> y] (Ethereum n) \<noteq> None} = {}"
  by auto

lemma crowdloan_started_reached: "crowdloan_reach sample_crowdloan crowdloan_started"
proof -
  let ?rs = "[(RelayChain 7, 100, 50), (RelayChain 8, 60, 50)]"
  have m: "populate_rewards ?rs = Rewards crowdloan_started" by (simp add: populate_rewards_def crowdloan_started_def)
  have iter: "RewardsIter sample_crowdloan (Rewards crowdloan_started) = [RelayChain 7, RelayChain 8]"
    by (simp add: sample_crowdloan_def crowdloan_started_def remote_keys del: fun_upd_apply not_None_eq)
  have "snd (initialize sample_crowdloan RootOrigin (snd (populate sample_crowdloan RootOrigin ?rs (crowdloan_genesis 5 (\<lambda>_. 0)))))
      = crowdloan_started"
    using m iter
    by (simp add: initialize_def populate_def do_populate_def do_initialize_def call_eval crowdloan_genesis_def ensure_origin_def)
      (simp add: sample_crowdloan_def crowdloan_started_def saturating_add_def u128_max_def u32_max_def)
  moreover have "crowdloan_reach sample_crowdloan
      (snd (initialize sample_crowdloan RootOrigin (snd (populate sample_crowdloan RootOrigin ?rs (crowdloan_genesis 5 (\<lambda>_. 0))))))"
    by (intro crowdloan_reach.initialize crowdloan_reach.populate crowdloan_reach.genesis) (simp add: u128_max_def)
  ultimately show ?thesis by simp
qed

lemma crowdloan_associated:
  "associate sample_crowdloan NoneOrigin 3 (RelayChainProof 7 7) crowdloan_started = (Inr (), crowdloan_later\<lparr>crowdloan_block := 5\<rparr>)"
  by (simp add: associate_def do_associate_def ensure_none_def crowdloan_do_claim_def should_have_claimed_def get_remote_account_def
      verify_relay_def crowdloan_deposit_event_def crowdloan_later_def crowdloan_started_def sample_crowdloan_def call_eval
      saturating_add_def saturating_sub_def saturating_mul_def u128_max_def Let_def)

lemma crowdloan_later_reached: "crowdloan_reach sample_crowdloan crowdloan_later"
proof -
  have "crowdloan_reach sample_crowdloan (crowdloan_later\<lparr>crowdloan_block := 5\<rparr>)"
    using crowdloan_reach.associate [OF crowdloan_started_reached, of NoneOrigin 3 "RelayChainProof 7 7"]
    by (simp add: crowdloan_associated)
  then have "crowdloan_reach sample_crowdloan (crowdloan_later\<lparr>crowdloan_block := 5, crowdloan_block := 28\<rparr>)"
    by (rule crowdloan_reach.block) simp
  then show ?thesis by (simp add: crowdloan_later_def crowdloan_started_def)
qed

theorem crowdloan_ledger_witness:
  "reward_claimed (the (Rewards crowdloan_later (RelayChain 7))) = 50
   \<and> entitled sample_crowdloan (the (Rewards crowdloan_later (RelayChain 7))) 23 = 70
   \<and> ClaimedRewards crowdloan_later \<le> TotalRewards crowdloan_later \<and> 0 < ClaimedRewards crowdloan_later"
  using crowdloan_ledger [OF sample_crowdloan_ok crowdloan_later_reached]
  by (simp add: crowdloan_later_def crowdloan_started_def entitled_def sample_crowdloan_def u128_max_def)

theorem claim_pays_vested_witness:
  "amount_available_to_claim_for sample_crowdloan 3 crowdloan_later = Inr 20
   \<and> crowdloan_currency (snd (crowdloan_claim sample_crowdloan (SignedOrigin 3) crowdloan_later)) = (\<lambda>_. 0)(3 := 70)"
proof -
  let ?r = "\<lparr>reward_total = 100, reward_claimed = 50, reward_vesting_period = 50\<rparr>"
  have e: "70 = entitled sample_crowdloan ?r (crowdloan_block crowdloan_later - 5)"
    by (simp add: crowdloan_later_def entitled_def sample_crowdloan_def u128_max_def)
  have mint: "MintInto sample_crowdloan 3 (70 - reward_claimed ?r) (crowdloan_currency crowdloan_later) = (Inr (), (\<lambda>_. 0)(3 := 70))"
    by (simp add: sample_crowdloan_def crowdloan_later_def modifies_def fun_eq_iff)
  have s: "Associations crowdloan_later 3 = Some (RelayChain 7)" "VestingBlockStart crowdloan_later = Some 5"
    "Rewards crowdloan_later (RelayChain 7) = Some ?r"
    by (simp_all add: crowdloan_later_def crowdloan_started_def)
  from claim_pays_vested [OF sample_crowdloan_ok crowdloan_later_reached s e _ mint] show ?thesis by (auto simp: Let_def)
qed

theorem validated_association_witness:
  "validate_unsigned sample_crowdloan 3 (RelayChainProof 7 7) crowdloan_started = Inr (RelayChain 7)
   \<and> fst (associate sample_crowdloan NoneOrigin 3 (RelayChainProof 7 7) crowdloan_started) = Inr ()
   \<and> validate_unsigned sample_crowdloan 3 (RelayChainProof 8 9) crowdloan_started = Inl VInvalidProof
   \<and> associate sample_crowdloan NoneOrigin 3 (RelayChainProof 8 9) crowdloan_started = (Inl (CrowdloanErr InvalidProof), crowdloan_started)"
proof -
  have v: "validate_unsigned sample_crowdloan 3 (RelayChainProof 7 7) crowdloan_started = Inr (RelayChain 7)"
    "validate_unsigned sample_crowdloan 3 (RelayChainProof 8 9) crowdloan_started = Inl VInvalidProof"
    by (simp_all add: validate_unsigned_def get_remote_account_def verify_relay_def sample_crowdloan_def crowdloan_started_def)
  moreover have "associate sample_crowdloan NoneOrigin 3 (RelayChainProof 8 9) crowdloan_started = (Inl (CrowdloanErr InvalidProof), crowdloan_started)"
    using validated_association [OF sample_crowdloan_ok crowdloan_started_reached, of 3 "RelayChainProof 8 9"] v(2) by simp
  ultimately show ?thesis by (simp add: crowdloan_associated)
qed

text \<open>Populating replaces every reward registered before.\<close>

lemma populate_replaces_rewards:
  assumes "CrowdloanAdmin cfg orig" "VestingBlockStart s = None"
  shows "Rewards (snd (populate cfg orig rs s)) = populate_rewards rs"
  using assms by (simp add: populate_def do_populate_def call_eval ensure_origin_def split: prod.split)

end
