(* ===== verification/Holds.thy ===== *)
theory Holds
  imports Assets Reserving
begin

text \<open>
  Balances on hold: the traits \<open>InspectHold\<close> and \<open>MutateHold\<close> of FRAME, their implementation by the
  assets pallet (frame/assets/src/lib.rs), and the contract the lending pallet relies on.
\<close>

section \<open>The operations\<close>

record 'c native_holds =
  nh_balance_on_hold :: "account_id \<Rightarrow> 'c \<Rightarrow> balance"
  nh_can_hold :: "account_id \<Rightarrow> balance \<Rightarrow> 'c \<Rightarrow> bool"
  nh_hold :: "account_id \<Rightarrow> balance \<Rightarrow> ('c, unit) call"
  nh_release :: "account_id \<Rightarrow> balance \<Rightarrow> bool \<Rightarrow> ('c, balance) call"
  nh_transfer_held :: "account_id \<Rightarrow> account_id \<Rightarrow> balance \<Rightarrow> bool \<Rightarrow> bool \<Rightarrow> ('c, balance) call"

record 'c holds =
  h_balance_on_hold :: "asset_id \<Rightarrow> account_id \<Rightarrow> 'c \<Rightarrow> balance"
  h_can_hold :: "asset_id \<Rightarrow> account_id \<Rightarrow> balance \<Rightarrow> 'c \<Rightarrow> bool"
  h_hold :: "asset_id \<Rightarrow> account_id \<Rightarrow> balance \<Rightarrow> ('c, unit) call"
  h_release :: "asset_id \<Rightarrow> account_id \<Rightarrow> balance \<Rightarrow> bool \<Rightarrow> ('c, balance) call"
  h_transfer_held :: "asset_id \<Rightarrow> account_id \<Rightarrow> account_id \<Rightarrow> balance \<Rightarrow> bool \<Rightarrow> bool \<Rightarrow> ('c, balance) call"

section \<open>The assets pallet\<close>

record ('n, 'm) assets_hold_config = "('n, 'm) assets_config" +
  NativeHolds :: "'n native_holds"
  MultiHolds :: "'m holds"

definition balance_on_hold :: "('n, 'm) assets_hold_config \<Rightarrow> asset_id \<Rightarrow> account_id \<Rightarrow> 'n \<times> 'm \<Rightarrow> balance" where
  "balance_on_hold cfg asset who c =
     (if asset = NativeAssetId cfg then nh_balance_on_hold (NativeHolds cfg) who (fst c)
      else h_balance_on_hold (MultiHolds cfg) asset who (snd c))"

definition can_hold :: "('n, 'm) assets_hold_config \<Rightarrow> asset_id \<Rightarrow> account_id \<Rightarrow> balance \<Rightarrow> 'n \<times> 'm \<Rightarrow> bool" where
  "can_hold cfg asset who amount c =
     (if asset = NativeAssetId cfg then nh_can_hold (NativeHolds cfg) who amount (fst c)
      else h_can_hold (MultiHolds cfg) asset who amount (snd c))"

definition hold :: "('n, 'm) assets_hold_config \<Rightarrow> asset_id \<Rightarrow> account_id \<Rightarrow> balance \<Rightarrow> ('n \<times> 'm, unit) call" where
  "hold cfg asset who amount =
     (if asset = NativeAssetId cfg then on_native (nh_hold (NativeHolds cfg) who amount)
      else on_multi (h_hold (MultiHolds cfg) asset who amount))"

definition release ::
  "('n, 'm) assets_hold_config \<Rightarrow> asset_id \<Rightarrow> account_id \<Rightarrow> balance \<Rightarrow> bool \<Rightarrow> ('n \<times> 'm, balance) call" where
  "release cfg asset who amount best_effort =
     (if asset = NativeAssetId cfg then on_native (nh_release (NativeHolds cfg) who amount best_effort)
      else on_multi (h_release (MultiHolds cfg) asset who amount best_effort))"

definition transfer_held ::
  "('n, 'm) assets_hold_config \<Rightarrow> asset_id \<Rightarrow> account_id \<Rightarrow> account_id \<Rightarrow> balance \<Rightarrow> bool \<Rightarrow> bool \<Rightarrow>
     ('n \<times> 'm, balance) call" where
  "transfer_held cfg asset src dst amount best_effort on_hold =
     (if asset = NativeAssetId cfg then on_native (nh_transfer_held (NativeHolds cfg) src dst amount best_effort on_hold)
      else on_multi (h_transfer_held (MultiHolds cfg) asset src dst amount best_effort on_hold))"

definition assets_holds :: "('n, 'm) assets_hold_config \<Rightarrow> ('n \<times> 'm) holds" where
  "assets_holds cfg =
     \<lparr>h_balance_on_hold = balance_on_hold cfg, h_can_hold = can_hold cfg, h_hold = hold cfg,
      h_release = release cfg, h_transfer_held = transfer_held cfg\<rparr>"

section \<open>What the lending pallet relies on\<close>

text \<open>
  Holding and releasing change neither a balance nor the issuance, only what is on hold; the other
  operations do not touch what is on hold. A release in best effort gives what there is.
\<close>

locale holding_currency = fungibles_ledger F for F :: "'c fungibles" +
  fixes H :: "'c holds"
  assumes hold_atomic: "atomic (h_hold H a x n)"
    and hold_keeps: "h_hold H a x n c = (Inr u, d) \<Longrightarrow> balances F d = balances F c \<and> issuance F d = issuance F c"
    and hold_held:
      "h_hold H a x n c = (Inr u, d) \<Longrightarrow> h_balance_on_hold H b z d = h_balance_on_hold H b z c + only a x n b z"
    and release_atomic: "atomic (h_release H a x n be)"
    and release_keeps: "h_release H a x n be c = (Inr m, d) \<Longrightarrow> balances F d = balances F c \<and> issuance F d = issuance F c"
    and release_held:
      "h_release H a x n be c = (Inr m, d) \<Longrightarrow>
         h_balance_on_hold H b z d + only a x m b z = h_balance_on_hold H b z c
         \<and> m = (if be then min n (h_balance_on_hold H a x c) else n)"
    and transfer_holds: "f_transfer F a x y n k c = (Inr m, d) \<Longrightarrow> h_balance_on_hold H b z d = h_balance_on_hold H b z c"
    and mint_holds: "f_mint_into F a x n c = (Inr u, d) \<Longrightarrow> h_balance_on_hold H b z d = h_balance_on_hold H b z c"
    and burn_holds: "f_burn_from F a x n c = (Inr m, d) \<Longrightarrow> h_balance_on_hold H b z d = h_balance_on_hold H b z c"

locale holding_native = fungible_ledger N for N :: "'c fungible" +
  fixes K :: "'c native_holds"
  assumes nh_hold_atomic: "atomic (nh_hold K x n)"
    and nh_hold_keeps:
      "nh_hold K x n c = (Inr u, d) \<Longrightarrow> n_balance N z d = n_balance N z c \<and> n_total_issuance N d = n_total_issuance N c"
    and nh_hold_held:
      "nh_hold K x n c = (Inr u, d) \<Longrightarrow> nh_balance_on_hold K z d = nh_balance_on_hold K z c + at_account x n z"
    and nh_release_atomic: "atomic (nh_release K x n be)"
    and nh_release_keeps:
      "nh_release K x n be c = (Inr m, d) \<Longrightarrow> n_balance N z d = n_balance N z c \<and> n_total_issuance N d = n_total_issuance N c"
    and nh_release_held:
      "nh_release K x n be c = (Inr m, d) \<Longrightarrow>
         nh_balance_on_hold K z d + at_account x m z = nh_balance_on_hold K z c
         \<and> m = (if be then min n (nh_balance_on_hold K x c) else n)"
    and n_transfer_holds: "n_transfer N x y n k c = (Inr m, d) \<Longrightarrow> nh_balance_on_hold K z d = nh_balance_on_hold K z c"
    and n_mint_holds: "n_mint_into N x n c = (Inr u, d) \<Longrightarrow> nh_balance_on_hold K z d = nh_balance_on_hold K z c"
    and n_burn_holds: "n_burn_from N x n c = (Inr m, d) \<Longrightarrow> nh_balance_on_hold K z d = nh_balance_on_hold K z c"

text \<open>The assets pallet passes the contract on from the two currencies it routes to.\<close>

locale assets_holding =
  native: holding_native N K + multi: holding_currency M H
  for N :: "'n fungible" and K and M :: "'m fungibles" and H +
  fixes cfg :: "('n, 'm) assets_hold_config"
  assumes hold_native: "NativeCurrency cfg = N" "NativeHolds cfg = K"
    and hold_multi: "MultiCurrency cfg = M" "MultiHolds cfg = H"

context assets_holding
begin

lemmas routing = assets_fungibles_def assets_holds_def assets_config.truncate_def hold_native hold_multi assets_ops
  balance_on_hold_def hold_def release_def on_native_ok on_multi_ok

lemma routed_hold_laws:
  assumes "hold cfg a x n c = (Inr u, d)"
  shows "balances (assets_fungibles (assets_config.truncate cfg)) d = balances (assets_fungibles (assets_config.truncate cfg)) c
    \<and> issuance (assets_fungibles (assets_config.truncate cfg)) d = issuance (assets_fungibles (assets_config.truncate cfg)) c
    \<and> balance_on_hold cfg b z d = balance_on_hold cfg b z c + only a x n b z"
  using assms native.nh_hold_keeps [of x n "fst c" u "fst d"] multi.hold_keeps [of a x n "snd c" u "snd d"]
    native.nh_hold_held [of x n "fst c" u "fst d" z] multi.hold_held [of a x n "snd c" u "snd d" b z]
  by (cases c; cases d) (auto simp: routing balances_def issuance_def fun_eq_iff only_same only_other split: if_splits)

lemma routed_release_laws:
  assumes "release cfg a x n be c = (Inr m, d)"
  shows "balances (assets_fungibles (assets_config.truncate cfg)) d = balances (assets_fungibles (assets_config.truncate cfg)) c
    \<and> issuance (assets_fungibles (assets_config.truncate cfg)) d = issuance (assets_fungibles (assets_config.truncate cfg)) c
    \<and> balance_on_hold cfg b z d + only a x m b z = balance_on_hold cfg b z c
    \<and> m = (if be then min n (balance_on_hold cfg a x c) else n)"
  using assms native.nh_release_keeps [of x n be "fst c" m "fst d"] multi.release_keeps [of a x n be "snd c" m "snd d"]
    native.nh_release_held [of x n be "fst c" m "fst d" z] multi.release_held [of a x n be "snd c" m "snd d" b z]
  by (cases c; cases d) (auto simp: routing balances_def issuance_def fun_eq_iff only_same only_other split: if_splits)

end

sublocale assets_holding \<subseteq> routed: holding_currency "assets_fungibles (assets_config.truncate cfg)" "assets_holds cfg"
proof (intro holding_currency.intro holding_currency_axioms.intro)
  let ?F = "assets_fungibles (assets_config.truncate cfg)" and ?H = "assets_holds cfg"
  show "fungibles_ledger ?F"
    by (rule assets_routed) (simp_all add: assets_config.truncate_def hold_native hold_multi
        native.fungible_ledger_axioms multi.fungibles_ledger_axioms)
  fix a x y n k c u m d b z be
  show "atomic (h_hold ?H a x n)" "atomic (h_release ?H a x n be)"
    by (simp_all add: routing on_currency_atomic native.nh_hold_atomic multi.hold_atomic native.nh_release_atomic multi.release_atomic)
  show "balances ?F d = balances ?F c \<and> issuance ?F d = issuance ?F c" if "h_hold ?H a x n c = (Inr u, d)"
    using that routed_hold_laws by (simp add: assets_holds_def)
  show "h_balance_on_hold ?H b z d = h_balance_on_hold ?H b z c + only a x n b z" if "h_hold ?H a x n c = (Inr u, d)"
    using that routed_hold_laws by (simp add: assets_holds_def)
  show "balances ?F d = balances ?F c \<and> issuance ?F d = issuance ?F c" if "h_release ?H a x n be c = (Inr m, d)"
    using that routed_release_laws by (simp add: assets_holds_def)
  show "h_balance_on_hold ?H b z d + only a x m b z = h_balance_on_hold ?H b z c
      \<and> m = (if be then min n (h_balance_on_hold ?H a x c) else n)" if "h_release ?H a x n be c = (Inr m, d)"
    using routed_release_laws [of a x n be c m d b z] that unfolding assets_holds_def by (simp only: holds.simps)
  show "h_balance_on_hold ?H b z d = h_balance_on_hold ?H b z c" if "f_transfer ?F a x y n k c = (Inr m, d)"
    using that native.n_transfer_holds multi.transfer_holds by (cases c) (auto simp: routing split: if_splits)
  show "h_balance_on_hold ?H b z d = h_balance_on_hold ?H b z c" if "f_mint_into ?F a x n c = (Inr u, d)"
    using that native.n_mint_holds multi.mint_holds by (cases c) (auto simp: routing split: if_splits)
  show "h_balance_on_hold ?H b z d = h_balance_on_hold ?H b z c" if "f_burn_from ?F a x n c = (Inr m, d)"
    using that native.n_burn_holds multi.burn_holds by (cases c) (auto simp: routing split: if_splits)
qed

section \<open>A ledger with holds\<close>

text \<open>The ledger of plain tables with a table of what is on hold and cannot be moved or burned.\<close>

type_synonym hold_ledger = "ledger \<times> balance_table"

definition unheld :: "asset_id \<Rightarrow> account_id \<Rightarrow> hold_ledger \<Rightarrow> balance" where
  "unheld a x B = bals (fst B) a x - snd B a x"

definition guarded :: "bool \<Rightarrow> (ledger, 'a) call \<Rightarrow> (hold_ledger, 'a) call" where
  "guarded ok m B = (if ok then (case m (fst B) of (r, L) \<Rightarrow> (r, (L, snd B))) else (Inl (TokenErr 2), B))"

definition hl_hold :: "asset_id \<Rightarrow> account_id \<Rightarrow> balance \<Rightarrow> (hold_ledger, unit) call" where
  "hl_hold a x n B =
     (if unheld a x B < n then (Inl (TokenErr 0), B) else (Inr (), (fst B, credited a x n (snd B))))"

definition hl_release :: "asset_id \<Rightarrow> account_id \<Rightarrow> balance \<Rightarrow> bool \<Rightarrow> (hold_ledger, balance) call" where
  "hl_release a x n best_effort B =
     (let m = min n (snd B a x) in
      if \<not> best_effort \<and> m < n then (Inl (TokenErr 0), B) else (Inr m, (fst B, debited a x m (snd B))))"

definition hl_fungibles :: "hold_ledger fungibles" where
  "hl_fungibles =
     \<lparr>f_total_issuance = (\<lambda>a B. issued (fst B) a), f_minimum_balance = (\<lambda>_. 0),
      f_balance = (\<lambda>a x B. bals (fst B) a x), f_reducible_balance = (\<lambda>a x _ B. unheld a x B),
      f_can_deposit = (\<lambda>a x n B. issued (fst B) a + n \<le> u128_max), f_can_withdraw = (\<lambda>a x n B. n \<le> unheld a x B),
      f_transfer = (\<lambda>a x y n k B. guarded (x = y \<or> n \<le> unheld a x B) (ledger_transfer a x y n k) B),
      f_mint_into = (\<lambda>a x n B. guarded True (ledger_mint a x n) B),
      f_burn_from = (\<lambda>a x n B. guarded (n \<le> unheld a x B) (ledger_burn a x n) B)\<rparr>"

definition hl_fungible :: "hold_ledger fungible" where
  "hl_fungible =
     \<lparr>n_total_issuance = f_total_issuance hl_fungibles 0, n_minimum_balance = 0, n_balance = f_balance hl_fungibles 0,
      n_reducible_balance = f_reducible_balance hl_fungibles 0, n_can_deposit = f_can_deposit hl_fungibles 0,
      n_can_withdraw = f_can_withdraw hl_fungibles 0, n_transfer = f_transfer hl_fungibles 0,
      n_mint_into = f_mint_into hl_fungibles 0, n_burn_from = f_burn_from hl_fungibles 0\<rparr>"

definition hl_holds :: "hold_ledger holds" where
  "hl_holds =
     \<lparr>h_balance_on_hold = (\<lambda>a x B. snd B a x), h_can_hold = (\<lambda>a x n B. n \<le> unheld a x B), h_hold = hl_hold,
      h_release = hl_release, h_transfer_held = (\<lambda>a x y n best_effort on_hold B.
        if snd B a x < n then (Inl (TokenErr 0), B)
        else (Inr n, ((fst B)\<lparr>bals := moved a x y n (bals (fst B))\<rparr>,
          (if on_hold then credited a y n else id) (debited a x n (snd B)))))\<rparr>"

definition hl_native_holds :: "hold_ledger native_holds" where
  "hl_native_holds =
     \<lparr>nh_balance_on_hold = h_balance_on_hold hl_holds 0, nh_can_hold = h_can_hold hl_holds 0, nh_hold = h_hold hl_holds 0,
      nh_release = h_release hl_holds 0, nh_transfer_held = h_transfer_held hl_holds 0\<rparr>"

lemmas hl_defs = hl_fungibles_def hl_fungible_def hl_holds_def hl_native_holds_def hl_hold_def hl_release_def guarded_def
  ledger_transfer_def ledger_mint_def ledger_burn_def

interpretation hl: holding_currency hl_fungibles hl_holds
  by unfold_locales
     (auto simp: hl_defs balances_def issuance_def moved_def credited_def debited_def only_def unheld_def atomic_def fun_eq_iff Let_def
       split: if_splits)

interpretation hl_native: holding_native hl_fungible hl_native_holds
  by unfold_locales
     (auto simp: hl_defs moved_def credited_def debited_def at_account_def unheld_def atomic_def fun_eq_iff Let_def
       split: if_splits)

definition hl_assets :: "(hold_ledger, hold_ledger) assets_hold_config" where
  "hl_assets =
     \<lparr>NativeAssetId = 1, NativeCurrency = hl_fungible, MultiCurrency = hl_fungibles,
      AdminOrigin = (\<lambda>orig. orig = RootOrigin), Lookup = Some, NativeHolds = hl_native_holds, MultiHolds = hl_holds\<rparr>"

interpretation hl_assets: assets_holding hl_fungible hl_native_holds hl_fungibles hl_holds hl_assets
  by unfold_locales (simp_all add: hl_assets_def)

end
