(* ===== verification/Lending_Math.thy ===== *)
theory Lending_Math
  imports Defi
begin

text \<open>
  The arithmetic of lending markets: utilization, interest rate models and indexes
  (frame/composable-traits/src/lending/math.rs) and the position of a borrower
  (frame/lending/src/models.rs). A \<open>Percent\<close> is a number from 0 to 100, a \<open>FixedI128\<close> the number
  of its \<open>1/10^18\<close> parts. Their arithmetic is code outside the repository and a parameter.
\<close>

section \<open>Proportions and signed fixed-point numbers\<close>

text \<open>
  The conversion of a \<open>Percent\<close> to a \<open>FixedU128\<close>, its \<open>saturating_pow\<close> and \<open>from_rational\<close>;
  \<open>checked_mul_int\<close> of \<open>FixedU128\<close>, whose first argument is the greatest integer of the result
  type; \<open>checked_mul\<close> of \<open>FixedI128\<close>.
\<close>

record rate_ops = fixed_ops +
  percent_to_fixed :: "nat \<Rightarrow> fixed_u128"
  percent_pow :: "nat \<Rightarrow> nat \<Rightarrow> nat"
  percent_from_rational :: "nat \<Rightarrow> nat \<Rightarrow> nat"
  fx_mul_int :: "nat \<Rightarrow> fixed_u128 \<Rightarrow> nat \<Rightarrow> nat option"
  fi_mul :: "int \<Rightarrow> int \<Rightarrow> int option"

definition i128_max :: int where
  "i128_max = 2 ^ 127 - 1"

text \<open>What is promised: exact values rounded down, and proportions that stay proportions.\<close>

definition exact_rates :: "'a rate_ops_scheme \<Rightarrow> bool" where
  "exact_rates F \<longleftrightarrow>
     exact_fixed F
     \<and> (\<forall>p. percent_to_fixed F p = p * 10 ^ 16)
     \<and> (\<forall>p n. p \<le> 100 \<longrightarrow> percent_pow F p n \<le> 100)
     \<and> (\<forall>p q n. p \<le> q \<longrightarrow> q \<le> 100 \<longrightarrow> percent_pow F p n \<le> percent_pow F q n)
     \<and> (\<forall>a b. percent_from_rational F a b \<le> 100)
     \<and> (\<forall>mx a n. fx_mul_int F mx a n = (if a * n div fixed_div \<le> mx then Some (a * n div fixed_div) else None))
     \<and> (\<forall>a b. fi_mul F a b =
          (let p = sgn (a * b) * (\<bar>a * b\<bar> div int fixed_div)
           in if - i128_max - 1 \<le> p \<and> p \<le> i128_max then Some p else None))"

definition reference_rates :: rate_ops where
  "reference_rates =
     \<lparr>fx_mul = fx_mul reference_fixed, fx_div = fx_div reference_fixed,
      fx_from_integer = fx_from_integer reference_fixed, permill_pow = permill_pow reference_fixed,
      permill_to_fixed = permill_to_fixed reference_fixed,
      percent_to_fixed = (\<lambda>p. p * 10 ^ 16), percent_pow = (\<lambda>p n. p ^ n div 100 ^ (n - 1)),
      percent_from_rational = (\<lambda>a b. if b = 0 then 100 else min 100 (a * 100 div b)),
      fx_mul_int = (\<lambda>mx a n. if a * n div fixed_div \<le> mx then Some (a * n div fixed_div) else None),
      fi_mul = (\<lambda>a b. let p = sgn (a * b) * (\<bar>a * b\<bar> div int fixed_div)
        in if - i128_max - 1 \<le> p \<and> p \<le> i128_max then Some p else None)\<rparr>"

text \<open>
  The saturating operations of \<open>FixedU128\<close>; the operators \<open>*\<close> and \<open>/\<close> panic where the checked
  operations return nothing, \<open>+\<close> and \<open>-\<close> wrap.
\<close>

definition fx_saturating_mul :: "'a fixed_ops_scheme \<Rightarrow> fixed_u128 \<Rightarrow> fixed_u128 \<Rightarrow> fixed_u128" where
  "fx_saturating_mul F a b = (case fx_mul F a b of None \<Rightarrow> u128_max | Some c \<Rightarrow> c)"

definition saturating_from_integer :: "'a fixed_ops_scheme \<Rightarrow> nat \<Rightarrow> fixed_u128" where
  "saturating_from_integer F n = (case fx_from_integer F n of None \<Rightarrow> u128_max | Some c \<Rightarrow> c)"

definition wrap_i128 :: "int \<Rightarrow> int" where
  "wrap_i128 x = (x + 2 ^ 127) mod 2 ^ 128 - 2 ^ 127"

definition u8_max :: nat where
  "u8_max = 255"

section \<open>Utilization\<close>

definition calc_utilization_ratio ::
  "'a rate_ops_scheme \<Rightarrow> fixed_u128 \<Rightarrow> fixed_u128 \<Rightarrow> dispatch_error + nat" where
  "calc_utilization_ratio F cash borrows =
     (if borrows = 0 then Inr 0
      else
        case safe_add u128_max cash borrows of
          Inl e \<Rightarrow> Inl (Arithmetic e)
        | Inr whole \<Rightarrow>
            (case fx_div F borrows whole of
               None \<Rightarrow> Inl (Panic ''above checks prove it cannot error'')
             | Some ratio \<Rightarrow>
                 (case fx_mul_int F u8_max ratio 100 of
                    None \<Rightarrow> Inl (Arithmetic arithmetic_error.Overflow)
                  | Some utilization_ratio \<Rightarrow> Inr (min 100 utilization_ratio))))"

section \<open>Interest rate models\<close>

record jump_model =
  base_rate :: fixed_u128
  jump_rate :: fixed_u128
  full_rate :: fixed_u128
  target_utilization :: nat

record curve_model =
  curve_base_rate :: fixed_u128

record dynamic_pid_controller_model =
  proportional_parameter :: int
  integral_parameter :: int
  derivative_parameter :: int
  previous_error_value :: int
  previous_integral_term :: int
  previous_interest_rate :: fixed_u128
  pid_target_utilization :: fixed_u128

record double_exponent_model =
  coefficients :: "nat list"

datatype interest_rate_model =
    Jump jump_model
  | Curve curve_model
  | DynamicPIDController dynamic_pid_controller_model
  | DoubleExponent double_exponent_model

definition MAX_BASE_RATE :: fixed_u128 where "MAX_BASE_RATE = fixed_div * 10 div 100"
definition MAX_JUMP_RATE :: fixed_u128 where "MAX_JUMP_RATE = fixed_div * 30 div 100"
definition MAX_FULL_RATE :: fixed_u128 where "MAX_FULL_RATE = fixed_div * 50 div 100"
definition CURVE_MAX_BASE_RATE :: fixed_u128 where "CURVE_MAX_BASE_RATE = fixed_div div 100 * 10"
definition EXPECTED_COEFFICIENTS_SUM :: nat where "EXPECTED_COEFFICIENTS_SUM = 100"

definition jump_new :: "fixed_u128 \<Rightarrow> fixed_u128 \<Rightarrow> fixed_u128 \<Rightarrow> nat \<Rightarrow> jump_model option" where
  "jump_new b j f u =
     (if b \<le> MAX_BASE_RATE \<and> j \<le> MAX_JUMP_RATE \<and> f \<le> MAX_FULL_RATE \<and> b \<le> j \<and> j \<le> f
      then Some \<lparr>base_rate = b, jump_rate = j, full_rate = f, target_utilization = u\<rparr> else None)"

definition curve_new :: "fixed_u128 \<Rightarrow> curve_model option" where
  "curve_new b = (if b \<le> CURVE_MAX_BASE_RATE then Some \<lparr>curve_base_rate = b\<rparr> else None)"

definition pid_new ::
  "int \<Rightarrow> int \<Rightarrow> int \<Rightarrow> fixed_u128 \<Rightarrow> fixed_u128 \<Rightarrow> dynamic_pid_controller_model option" where
  "pid_new kp ki kd initial_interest_rate uo =
     (if fixed_div < uo then None
      else Some \<lparr>proportional_parameter = kp, integral_parameter = ki, derivative_parameter = kd,
                 previous_error_value = 0, previous_integral_term = 0,
                 previous_interest_rate = initial_interest_rate, pid_target_utilization = uo\<rparr>)"

definition double_exponent_new :: "nat list \<Rightarrow> double_exponent_model option" where
  "double_exponent_new cs =
     (let sum_of_coefficients = foldl (\<lambda>acc c. (acc + c) mod 2 ^ 16) 0 cs in
      if sum_of_coefficients = EXPECTED_COEFFICIENTS_SUM then Some \<lparr>coefficients = cs\<rparr> else None)"

definition new_jump_model :: "fixed_u128 \<Rightarrow> fixed_u128 \<Rightarrow> fixed_u128 \<Rightarrow> nat \<Rightarrow> interest_rate_model option" where
  "new_jump_model b j f u = map_option Jump (jump_new b j f u)"

definition new_curve_model :: "fixed_u128 \<Rightarrow> interest_rate_model option" where
  "new_curve_model b = map_option Curve (curve_new b)"

definition new_dynamic_pid_model ::
  "int \<Rightarrow> int \<Rightarrow> int \<Rightarrow> fixed_u128 \<Rightarrow> fixed_u128 \<Rightarrow> interest_rate_model option" where
  "new_dynamic_pid_model kp ki kd ir uo = map_option DynamicPIDController (pid_new kp ki kd ir uo)"

definition new_double_exponent_model :: "nat list \<Rightarrow> interest_rate_model option" where
  "new_double_exponent_model cs = map_option DoubleExponent (double_exponent_new cs)"

text \<open>\<open>Default for InterestRateModel\<close>: 2, 10 and 32 percent, the jump at 80 percent utilization.\<close>

definition default_interest_rate_model :: "dispatch_error + interest_rate_model" where
  "default_interest_rate_model =
     (case new_jump_model (fixed_div * 2 div 100) (fixed_div * 10 div 100) (fixed_div * 32 div 100) 80 of
        None \<Rightarrow> Inl (Panic ''default model is valid'')
      | Some m \<Rightarrow> Inr m)"

text \<open>\<open>InteresteRateModelIsValid::validate\<close>: a decoded model is rebuilt by its constructor.\<close>

definition validate_interest_rate_model :: "interest_rate_model \<Rightarrow> string + interest_rate_model" where
  "validate_interest_rate_model m =
     (let rebuilt = (case m of
          Jump x \<Rightarrow> new_jump_model (base_rate x) (jump_rate x) (full_rate x) (target_utilization x)
        | Curve x \<Rightarrow> new_curve_model (curve_base_rate x)
        | DynamicPIDController x \<Rightarrow>
            new_dynamic_pid_model (proportional_parameter x) (integral_parameter x) (derivative_parameter x)
              (previous_interest_rate x) (pid_target_utilization x)
        | DoubleExponent x \<Rightarrow> new_double_exponent_model (coefficients x))
      in case rebuilt of None \<Rightarrow> Inl ''interest rate model is not valid'' | Some y \<Rightarrow> Inr y)"

section \<open>Borrow rates\<close>

text \<open>\<open>x.checked_sub(y)?.saturating_mul(u).checked_div(v)?.checked_add(y)?\<close>, the line of one half.\<close>

definition jump_line ::
  "'a fixed_ops_scheme \<Rightarrow> fixed_u128 \<Rightarrow> fixed_u128 \<Rightarrow> fixed_u128 \<Rightarrow> fixed_u128 \<Rightarrow> fixed_u128 option" where
  "jump_line F hi lo u v =
     Option.bind (checked_sub hi lo) (\<lambda>d.
     Option.bind (if v = 0 then None else fx_div F (fx_saturating_mul F d u) v) (\<lambda>q.
     checked_add u128_max q lo))"

definition jump_borrow_rate :: "'a rate_ops_scheme \<Rightarrow> jump_model \<Rightarrow> nat \<Rightarrow> fixed_u128 option" where
  "jump_borrow_rate F m utilization =
     (if utilization < target_utilization m then
        jump_line F (jump_rate m) (base_rate m) (percent_to_fixed F utilization) (percent_to_fixed F (target_utilization m))
      else if utilization = target_utilization m then Some (jump_rate m)
      else
        let excess_utilization = saturating_sub utilization (target_utilization m);
            available = saturating_sub 100 (target_utilization m)
        in jump_line F (full_rate m) (jump_rate m) (percent_to_fixed F excess_utilization) (percent_to_fixed F available))"

definition curve_borrow_rate :: "'a rate_ops_scheme \<Rightarrow> curve_model \<Rightarrow> nat \<Rightarrow> fixed_u128 option" where
  "curve_borrow_rate F m utilization =
     checked_add u128_max (percent_to_fixed F (percent_pow F utilization 9)) (curve_base_rate m)"

text \<open>\<open>try_into().unwrap_or(0)\<close> between the inner integers of the two fixed-point types.\<close>

definition u128_to_i128 :: "nat \<Rightarrow> int" where
  "u128_to_i128 n = (if int n \<le> i128_max then int n else 0)"

definition i128_to_u128 :: "int \<Rightarrow> nat" where
  "i128_to_u128 x = (if 0 \<le> x then nat x else 0)"

definition get_output_utilization_ratio ::
  "'a rate_ops_scheme \<Rightarrow> dynamic_pid_controller_model \<Rightarrow> fixed_u128 \<Rightarrow>
     (arithmetic_error + fixed_u128) \<times> dynamic_pid_controller_model" where
  "get_output_utilization_ratio F m utilization_ratio =
     (let et = wrap_i128 (u128_to_i128 (pid_target_utilization m) - u128_to_i128 utilization_ratio) in
      case fi_mul F (proportional_parameter m) et of
        None \<Rightarrow> (Inl arithmetic_error.Overflow, m)
      | Some pt \<Rightarrow>
          (case fi_mul F (integral_parameter m) et of
             None \<Rightarrow> (Inl arithmetic_error.Overflow, m)
           | Some ki_et \<Rightarrow>
               let it = previous_integral_term m + ki_et in
               if it < - i128_max - 1 \<or> i128_max < it then (Inl arithmetic_error.Overflow, m)
               else
                 let m1 = m\<lparr>previous_integral_term := it\<rparr> in
                 (case fi_mul F (derivative_parameter m) (wrap_i128 (et - previous_error_value m)) of
                    None \<Rightarrow> (Inl arithmetic_error.Overflow, m1)
                  | Some dt \<Rightarrow>
                      let m2 = m1\<lparr>previous_error_value := et\<rparr>;
                          ut = wrap_i128 (wrap_i128 (pt + it) + dt);
                          rate = (if ut < 0
                            then saturating_sub (previous_interest_rate m) (i128_to_u128 (wrap_i128 (- ut)))
                            else saturating_add u128_max (previous_interest_rate m) (i128_to_u128 ut))
                      in (Inr rate, m2\<lparr>previous_interest_rate := rate\<rparr>))))"

definition pid_borrow_rate ::
  "'a rate_ops_scheme \<Rightarrow> dynamic_pid_controller_model \<Rightarrow> nat \<Rightarrow> fixed_u128 option \<times> dynamic_pid_controller_model" where
  "pid_borrow_rate F m utilization =
     (case get_output_utilization_ratio F m (percent_to_fixed F utilization) of
        (Inl _, m') \<Rightarrow> (None, m')
      | (Inr r, m') \<Rightarrow> (Some r, m'))"

text \<open>The fold over all coefficients but the first; a product that overflows panics.\<close>

fun double_exponent_fold ::
  "'a fixed_ops_scheme \<Rightarrow> nat list \<Rightarrow> fixed_u128 \<Rightarrow> fixed_u128 \<Rightarrow> dispatch_error + fixed_u128" where
  "double_exponent_fold F [] rate polynomial = Inr rate"
| "double_exponent_fold F (element # cs) rate polynomial =
     (case fx_mul F polynomial polynomial of
        None \<Rightarrow> Inl (Panic ''attempt to multiply with overflow'')
      | Some square \<Rightarrow>
          (case fx_mul F (saturating_from_integer F element) square of
             None \<Rightarrow> Inl (Panic ''attempt to multiply with overflow'')
           | Some part \<Rightarrow> double_exponent_fold F cs (wrapping_add u128_max rate part) square))"

definition double_exponent_borrow_rate ::
  "'a rate_ops_scheme \<Rightarrow> double_exponent_model \<Rightarrow> nat \<Rightarrow> dispatch_error + fixed_u128 option" where
  "double_exponent_borrow_rate F m utilization =
     (case double_exponent_fold F (drop 1 (coefficients m)) (saturating_from_integer F (coefficients m ! 0))
         (percent_to_fixed F utilization) of
        Inl e \<Rightarrow> Inl e
      | Inr result \<Rightarrow>
          (case fx_div F result (saturating_from_integer F EXPECTED_COEFFICIENTS_SUM) of
             None \<Rightarrow> Inl (Panic ''attempt to divide with overflow'')
           | Some r \<Rightarrow> Inr (Some r)))"

definition get_borrow_rate ::
  "'a rate_ops_scheme \<Rightarrow> interest_rate_model \<Rightarrow> nat \<Rightarrow> (dispatch_error + fixed_u128 option) \<times> interest_rate_model" where
  "get_borrow_rate F m utilization =
     (case m of
        Jump x \<Rightarrow> (Inr (jump_borrow_rate F x utilization), m)
      | Curve x \<Rightarrow> (Inr (curve_borrow_rate F x utilization), m)
      | DynamicPIDController x \<Rightarrow>
          (case pid_borrow_rate F x utilization of (r, x') \<Rightarrow> (Inr r, DynamicPIDController x'))
      | DoubleExponent x \<Rightarrow> (double_exponent_borrow_rate F x utilization, m))"

definition get_supply_rate :: "'a fixed_ops_scheme \<Rightarrow> fixed_u128 \<Rightarrow> fixed_u128 \<Rightarrow> fixed_u128 \<Rightarrow> fixed_u128" where
  "get_supply_rate F borrow_rate util reserve_factor =
     (let one_minus_reserve_factor = saturating_sub fixed_div reserve_factor;
          rate_to_pool = fx_saturating_mul F borrow_rate one_minus_reserve_factor
      in fx_saturating_mul F rate_to_pool util)"

section \<open>Interest\<close>

definition SECONDS_PER_YEAR_NAIVE :: nat where
  "SECONDS_PER_YEAR_NAIVE = 365 * 24 * (60 * 60)"

definition accrued_interest :: "'a rate_ops_scheme \<Rightarrow> fixed_u128 \<Rightarrow> nat \<Rightarrow> nat \<Rightarrow> nat option" where
  "accrued_interest F borrow_rate amount delta_time =
     Option.bind (fx_mul_int F u128_max borrow_rate amount) (\<lambda>a.
     Option.bind (checked_mul u128_max a delta_time) (\<lambda>b. checked_div b SECONDS_PER_YEAR_NAIVE))"

definition increment_borrow_rate ::
  "'a fixed_ops_scheme \<Rightarrow> fixed_u128 \<Rightarrow> nat \<Rightarrow> arithmetic_error + fixed_u128" where
  "increment_borrow_rate F borrow_rate delta_time =
     (case fx_safe_mul F borrow_rate (saturating_from_integer F delta_time) of
        Inl e \<Rightarrow> Inl e
      | Inr r \<Rightarrow> fx_safe_div F r (saturating_from_integer F SECONDS_PER_YEAR_NAIVE))"

definition increment_index ::
  "'a fixed_ops_scheme \<Rightarrow> fixed_u128 \<Rightarrow> fixed_u128 \<Rightarrow> nat \<Rightarrow> arithmetic_error + fixed_u128" where
  "increment_index F borrow_rate index delta_time =
     (case fx_safe_mul F borrow_rate index of
        Inl e \<Rightarrow> Inl e
      | Inr r \<Rightarrow>
          (case increment_borrow_rate F r delta_time of
             Inl e \<Rightarrow> Inl e
           | Inr d \<Rightarrow> safe_add u128_max d index))"

section \<open>The position of a borrower\<close>

record borrower_data =
  collateral_balance_value :: fixed_u128
  borrow_balance_value :: fixed_u128
  borrower_collateral_factor :: fixed_u128
  borrower_warn_percent :: nat

definition borrower_data_new :: "'a fixed_ops_scheme \<Rightarrow> balance \<Rightarrow> balance \<Rightarrow> fixed_u128 \<Rightarrow> nat \<Rightarrow> borrower_data" where
  "borrower_data_new F collateral_value borrow_value factor warn_percent =
     \<lparr>collateral_balance_value = saturating_from_integer F collateral_value,
      borrow_balance_value = saturating_from_integer F borrow_value,
      borrower_collateral_factor = factor, borrower_warn_percent = warn_percent\<rparr>"

definition borrow_for_collateral :: "'a fixed_ops_scheme \<Rightarrow> borrower_data \<Rightarrow> arithmetic_error + fixed_u128" where
  "borrow_for_collateral F b =
     (case fx_safe_div F (collateral_balance_value b) (borrower_collateral_factor b) of
        Inl e \<Rightarrow> Inl e
      | Inr max_borrow \<Rightarrow> Inr (saturating_sub max_borrow (borrow_balance_value b)))"

definition current_collateral_ratio :: "'a fixed_ops_scheme \<Rightarrow> borrower_data \<Rightarrow> arithmetic_error + fixed_u128" where
  "current_collateral_ratio F b =
     fx_safe_div F (collateral_balance_value b) (borrow_balance_value b)"

definition borrower_should_liquidate :: "'a fixed_ops_scheme \<Rightarrow> borrower_data \<Rightarrow> arithmetic_error + bool" where
  "borrower_should_liquidate F b =
     (if borrow_balance_value b = 0 then Inr False
      else case current_collateral_ratio F b of
        Inl e \<Rightarrow> Inl e
      | Inr r \<Rightarrow> Inr (r < borrower_collateral_factor b))"

definition safe_collateral_factor :: "'a rate_ops_scheme \<Rightarrow> borrower_data \<Rightarrow> arithmetic_error + fixed_u128" where
  "safe_collateral_factor F b =
     (case fx_safe_mul F (borrower_collateral_factor b) (percent_to_fixed F (borrower_warn_percent b)) of
        Inl e \<Rightarrow> Inl e
      | Inr r \<Rightarrow> safe_add u128_max (borrower_collateral_factor b) r)"

definition borrower_should_warn :: "'a rate_ops_scheme \<Rightarrow> borrower_data \<Rightarrow> arithmetic_error + bool" where
  "borrower_should_warn F b =
     (case current_collateral_ratio F b of
        Inl e \<Rightarrow> Inl e
      | Inr r \<Rightarrow> (case safe_collateral_factor F b of Inl e \<Rightarrow> Inl e | Inr f \<Rightarrow> Inr (r < f)))"

section \<open>What the arithmetic gives\<close>

lemma exact_ratesD:
  assumes "exact_rates F"
  shows "exact_fixed F" "percent_to_fixed F p = p * 10 ^ 16"
    "fx_mul_int F mx a n = (if a * n div fixed_div \<le> mx then Some (a * n div fixed_div) else None)"
  using assms by (auto simp: exact_rates_def)

lemma exact_fixedD:
  assumes "exact_fixed F"
  shows "fx_mul F a b = fits (a * b div fixed_div)" "0 < b \<Longrightarrow> fx_div F a b = fits (a * fixed_div div b)"
    "fx_from_integer F n = fits (n * fixed_div)"
  using assms by (auto simp: exact_fixed_def)

lemma fixed_div_pos [simp]: "0 < fixed_div" "fixed_div \<noteq> 0"
  by (simp_all add: fixed_div_def)

lemma exact_reference_rates: "exact_rates reference_rates"
proof -
  have "p ^ n div 100 ^ (n - 1) \<le> 100" if "p \<le> 100" for p n :: nat
  proof (cases n)
    case (Suc m)
    have "p ^ n \<le> 100 * 100 ^ m" using that Suc power_mono [of p 100 n] by simp
    then have "p ^ n div 100 ^ m \<le> 100 * 100 ^ m div 100 ^ m" by (rule div_le_mono)
    then show ?thesis using Suc by simp
  qed simp
  moreover have "p ^ n div 100 ^ (n - 1) \<le> q ^ n div 100 ^ (n - 1)" if "p \<le> q" for p q n :: nat
    using that by (intro div_le_mono power_mono) simp_all
  moreover have "exact_fixed reference_rates"
    using exact_reference_fixed by (simp add: exact_fixed_def reference_rates_def)
  ultimately show ?thesis
    unfolding exact_rates_def by (auto simp: reference_rates_def Let_def)
qed

lemma floor_twice:
  assumes "k dvd (d :: nat)" "0 < d" "0 < t"
  shows "(b * d div t) * k div d = b * k div t"
proof -
  obtain m where m: "d = k * m" using assms(1) by (elim dvdE)
  then have pos: "0 < k" "0 < m" using assms(2) by auto
  have "(b * d div t) * k div d = (b * d div t) div m"
    using m pos by (simp add: mult.commute)
  also have "\<dots> = b * k * m div (t * m)" by (simp add: m mult.assoc div_mult2_eq)
  also have "\<dots> = b * k div t" using pos by simp
  finally show ?thesis .
qed

text \<open>
  The utilization of a market is what the trait documents: total borrows over the sum of cash
  and borrows, in whole percent rounded down, with no error from the two roundings on the way.
\<close>

lemma utilization_exact:
  assumes "exact_rates F" "cash + borrows \<le> u128_max"
  shows "calc_utilization_ratio F cash borrows = Inr (borrows * 100 div (cash + borrows))
    \<and> borrows * 100 div (cash + borrows) \<le> 100"
proof (cases "borrows = 0")
  case True
  then show ?thesis by (simp add: calc_utilization_ratio_def)
next
  case False
  let ?t = "cash + borrows"
  have "borrows * fixed_div div ?t \<le> fixed_div"
    using False by (metis add_gr_0 bot_nat_0.not_eq_extremum div_le_mono le_add2 mult_le_mono1 nonzero_mult_div_cancel_left neq0_conv)
  then have "fits (borrows * fixed_div div ?t) = Some (borrows * fixed_div div ?t)"
    by (simp add: fits_def fixed_div_def u128_max_def)
  moreover have "(100 :: nat) dvd fixed_div" by (simp add: fixed_div_def)
  then have q: "borrows * fixed_div div ?t * 100 div fixed_div = borrows * 100 div ?t"
    using False by (intro floor_twice) simp_all
  moreover have le: "borrows * 100 div ?t \<le> 100"
    using False by (metis div_le_mono div_mult_self_is_m add_gr_0 le_add2 mult.commute mult_le_mono1 neq0_conv)
  ultimately show ?thesis
    using False assms exact_fixedD(2) [OF exact_ratesD(1) [OF assms(1)], of ?t borrows]
    by (simp add: calc_utilization_ratio_def safe_arith_defs exact_ratesD(3) [OF assms(1)] u8_max_def)
qed

section \<open>Bounds of the rates\<close>

definition model_typed :: "interest_rate_model \<Rightarrow> bool" where
  "model_typed m =
     (case m of
        Jump x \<Rightarrow> target_utilization x \<le> 100
      | Curve x \<Rightarrow> True
      | DynamicPIDController x \<Rightarrow> previous_interest_rate x \<le> u128_max
      | DoubleExponent x \<Rightarrow> length (coefficients x) = 16 \<and> (\<forall>c \<in> set (coefficients x). c \<le> u8_max))"

text \<open>The least and the greatest rate a model is to give.\<close>

definition rate_floor :: "interest_rate_model \<Rightarrow> fixed_u128" where
  "rate_floor m =
     (case m of
        Jump x \<Rightarrow> base_rate x
      | Curve x \<Rightarrow> curve_base_rate x
      | DynamicPIDController x \<Rightarrow> 0
      | DoubleExponent x \<Rightarrow> coefficients x ! 0 * fixed_div div 100)"

definition rate_cap :: "interest_rate_model \<Rightarrow> fixed_u128" where
  "rate_cap m =
     (case m of
        Jump x \<Rightarrow> full_rate x
      | Curve x \<Rightarrow> fixed_div + curve_base_rate x
      | DynamicPIDController x \<Rightarrow> u128_max
      | DoubleExponent x \<Rightarrow> fixed_div)"

subsection \<open>The jump model\<close>

definition line_value :: "fixed_u128 \<Rightarrow> fixed_u128 \<Rightarrow> nat \<Rightarrow> nat \<Rightarrow> fixed_u128" where
  "line_value hi lo u v = (hi - lo) * (u * 10 ^ 16) div fixed_div * fixed_div div (v * 10 ^ 16) + lo"

lemma line_value_mono: "u \<le> u' \<Longrightarrow> line_value hi lo u v \<le> line_value hi lo u' v"
  unfolding line_value_def by (intro add_mono div_le_mono mult_le_mono order_refl)

lemma line_value_bounds:
  assumes "lo \<le> hi" "u \<le> v" "0 < v"
  shows "lo \<le> line_value hi lo u v" "line_value hi lo u v \<le> hi"
proof -
  let ?d = "hi - lo"
  have "?d * (u * 10 ^ 16) div fixed_div * fixed_div \<le> ?d * (u * 10 ^ 16)" by (rule div_times_less_eq_dividend)
  also have "\<dots> \<le> ?d * (v * 10 ^ 16)" using assms(2) by simp
  finally have "?d * (u * 10 ^ 16) div fixed_div * fixed_div div (v * 10 ^ 16) \<le> ?d * (v * 10 ^ 16) div (v * 10 ^ 16)"
    by (rule div_le_mono)
  then show "line_value hi lo u v \<le> hi" using assms(1,3) by (simp add: line_value_def)
qed (simp add: line_value_def)

lemma jump_line_value:
  assumes "exact_rates F" "lo \<le> hi" "hi \<le> fixed_div" "u \<le> v" "v \<le> 100" "0 < v"
  shows "jump_line F hi lo (percent_to_fixed F u) (percent_to_fixed F v) = Some (line_value hi lo u v)"
proof -
  let ?p = "(hi - lo) * (u * 10 ^ 16) div fixed_div"
  have small: "fixed_div \<le> u128_max" by (simp add: fixed_div_def u128_max_def)
  have hi: "line_value hi lo u v \<le> u128_max"
    using line_value_bounds(2) [OF assms(2,4,6)] assms(3) small by linarith
  have "u * 10 ^ 16 \<le> fixed_div" using assms(4,5) by (simp add: fixed_div_def)
  then have "(hi - lo) * (u * 10 ^ 16) \<le> (hi - lo) * fixed_div" by (rule mult_le_mono2)
  then have "?p \<le> (hi - lo) * fixed_div div fixed_div" by (rule div_le_mono)
  then have "?p \<le> hi - lo" by simp
  then have "?p \<le> u128_max" using assms(3) small by linarith
  moreover have "?p * fixed_div div (v * 10 ^ 16) \<le> u128_max"
    using hi unfolding line_value_def by linarith
  ultimately show ?thesis
    using assms(2,6) hi exact_fixedD [OF exact_ratesD(1) [OF assms(1)]]
    by (simp add: jump_line_def exact_ratesD(2) [OF assms(1)] checked_sub_def checked_add_def fx_saturating_mul_def
        fits_def line_value_def)
qed

definition jump_value :: "jump_model \<Rightarrow> nat \<Rightarrow> fixed_u128" where
  "jump_value m u =
     (if u < target_utilization m then line_value (jump_rate m) (base_rate m) u (target_utilization m)
      else if u = target_utilization m then jump_rate m
      else line_value (full_rate m) (jump_rate m) (u - target_utilization m) (100 - target_utilization m))"

lemma jump_borrow_rate_value:
  assumes "exact_rates F" "base_rate m \<le> jump_rate m" "jump_rate m \<le> full_rate m" "full_rate m \<le> fixed_div" "u \<le> 100"
    "target_utilization m \<le> 100"
  shows "jump_borrow_rate F m u = Some (jump_value m u)"
  using assms
  by (simp add: jump_borrow_rate_def jump_value_def saturating_sub_def Let_def jump_line_value)

lemma jump_value_bounds:
  assumes "base_rate m \<le> jump_rate m" "jump_rate m \<le> full_rate m" "u \<le> v" "v \<le> 100"
  shows "base_rate m \<le> jump_value m u" "jump_value m u \<le> jump_value m v" "jump_value m v \<le> full_rate m"
proof -
  let ?t = "target_utilization m"
  have lo: "base_rate m \<le> line_value (jump_rate m) (base_rate m) x ?t" "line_value (jump_rate m) (base_rate m) x ?t \<le> jump_rate m"
    if "x < ?t" for x
    using line_value_bounds [of "base_rate m" "jump_rate m" x ?t] assms(1) that by auto
  have hi: "jump_rate m \<le> line_value (full_rate m) (jump_rate m) (x - ?t) (100 - ?t)"
    "line_value (full_rate m) (jump_rate m) (x - ?t) (100 - ?t) \<le> full_rate m" if "?t < x" "x \<le> 100" for x
    using line_value_bounds [of "jump_rate m" "full_rate m" "x - ?t" "100 - ?t"] assms(2) that by auto
  show "base_rate m \<le> jump_value m u"
    using lo(1) hi(1) [of u] assms by (auto simp: jump_value_def not_less dest: order_trans)
  show "jump_value m v \<le> full_rate m"
    using lo(2) hi(2) [of v] assms by (auto simp: jump_value_def not_less dest: order_trans)
  show "jump_value m u \<le> jump_value m v"
  proof (cases "v < ?t \<or> ?t < u")
    case True
    then show ?thesis using assms(3) by (auto simp: jump_value_def intro!: line_value_mono)
  next
    case False
    then have "jump_value m u \<le> jump_rate m" "jump_rate m \<le> jump_value m v"
      using lo(2) [of u] hi(1) [of v] assms(3,4) by (auto simp: jump_value_def)
    then show ?thesis by simp
  qed
qed

subsection \<open>The double exponent model\<close>

fun poly_value :: "nat list \<Rightarrow> fixed_u128 \<Rightarrow> fixed_u128 \<Rightarrow> fixed_u128" where
  "poly_value [] rate p = rate"
| "poly_value (c # cs) rate p = poly_value cs (rate + c * (p * p div fixed_div)) (p * p div fixed_div)"

lemma poly_value_mono: "rate \<le> rate' \<Longrightarrow> p \<le> p' \<Longrightarrow> poly_value cs rate p \<le> poly_value cs rate' p'"
proof (induction cs arbitrary: rate rate' p p')
  case (Cons c cs)
  have "p * p div fixed_div \<le> p' * p' div fixed_div" using Cons.prems(2) by (intro div_le_mono mult_le_mono)
  then show ?case using Cons.prems(1) by (auto intro!: Cons.IH add_mono mult_le_mono)
qed simp

lemma square_le: "p \<le> fixed_div \<Longrightarrow> p * p div fixed_div \<le> fixed_div"
  using mult_le_mono [of p fixed_div p fixed_div] div_le_mono [of "p * p" "fixed_div * fixed_div" fixed_div] by simp

lemma poly_value_bounds:
  "p \<le> fixed_div \<Longrightarrow> rate \<le> poly_value cs rate p \<and> poly_value cs rate p \<le> rate + sum_list cs * fixed_div"
proof (induction cs arbitrary: rate p)
  case (Cons c cs)
  let ?q = "p * p div fixed_div"
  have "?q \<le> fixed_div" using Cons.prems by (rule square_le)
  then have IH: "rate + c * ?q \<le> poly_value cs (rate + c * ?q) ?q"
    "poly_value cs (rate + c * ?q) ?q \<le> rate + c * ?q + sum_list cs * fixed_div"
    using Cons.IH [of ?q "rate + c * ?q"] by auto
  moreover have "c * ?q \<le> c * fixed_div" using \<open>?q \<le> fixed_div\<close> by (rule mult_le_mono2)
  ultimately show ?case unfolding poly_value.simps sum_list.Cons distrib_right by linarith
qed simp

lemma double_exponent_fold_value:
  assumes "exact_fixed F"
  shows "p \<le> fixed_div \<Longrightarrow> rate + sum_list cs * fixed_div \<le> u128_max \<Longrightarrow>
    double_exponent_fold F cs rate p = Inr (poly_value cs rate p)"
proof (induction cs arbitrary: rate p)
  case (Cons c cs)
  let ?q = "p * p div fixed_div"
  have q: "?q \<le> fixed_div" using Cons.prems(1) by (rule square_le)
  have c: "rate + c * fixed_div + sum_list cs * fixed_div \<le> u128_max"
    using Cons.prems(2) by (simp add: algebra_simps)
  moreover have "c * ?q \<le> c * fixed_div" using q by simp
  ultimately have le: "c * fixed_div \<le> u128_max" "c * ?q \<le> u128_max" "rate + c * ?q \<le> u128_max"
    "rate + c * ?q + sum_list cs * fixed_div \<le> u128_max" by linarith+
  have "fx_mul F p p = Some ?q" using q exact_fixedD(1) [OF assms] by (simp add: fits_def fixed_div_def u128_max_def)
  moreover have "fx_mul F (saturating_from_integer F c) ?q = Some (c * ?q)"
    using le exact_fixedD(1,3) [OF assms] by (simp add: saturating_from_integer_def fits_def mult.assoc mult.left_commute)
  moreover have "wrapping_add u128_max rate (c * ?q) = rate + c * ?q" using le(3) by (simp add: wrapping_add_def)
  ultimately show ?case using Cons.IH [OF q le(4)] by simp
qed simp

lemma foldl_mod_sum:
  "a + sum_list cs < M \<Longrightarrow> foldl (\<lambda>acc c. (acc + c) mod M) a cs = (a + sum_list cs :: nat)"
  by (induction cs arbitrary: a) (simp_all add: algebra_simps)

lemma typed_sum: "length cs = 16 \<Longrightarrow> (\<forall>c \<in> set cs. c \<le> u8_max) \<Longrightarrow> sum_list cs < 2 ^ 16"
  using sum_list_mono [of cs id "\<lambda>_. u8_max"] by (simp add: u8_max_def sum_list_triv)

lemma double_exponent_value:
  assumes F: "exact_rates F" and m: "length (coefficients m) = 16" "sum_list (coefficients m) = 100" and u: "u \<le> 100"
  defines "v \<equiv> poly_value (drop 1 (coefficients m)) (coefficients m ! 0 * fixed_div) (u * 10 ^ 16)"
  shows "double_exponent_borrow_rate F m u = Inr (Some (v div 100))"
    "coefficients m ! 0 * fixed_div div 100 \<le> v div 100" "v div 100 \<le> fixed_div"
proof -
  obtain c cs where cs: "coefficients m = c # cs" using m(1) by (cases "coefficients m") auto
  have sum: "c * fixed_div + sum_list cs * fixed_div = 100 * fixed_div"
    using m(2) cs by (simp flip: distrib_right)
  have small: "100 * fixed_div * fixed_div \<le> u128_max \<and> 100 * fixed_div \<le> u128_max" by (simp add: fixed_div_def u128_max_def)
  have p: "u * 10 ^ 16 \<le> fixed_div" using u by (simp add: fixed_div_def)
  have v: "v = poly_value cs (c * fixed_div) (u * 10 ^ 16)" using cs by (simp add: v_def)
  then have b: "c * fixed_div \<le> v" "v \<le> 100 * fixed_div" using poly_value_bounds [OF p, of "c * fixed_div" cs] sum by auto
  then show "coefficients m ! 0 * fixed_div div 100 \<le> v div 100" "v div 100 \<le> fixed_div"
    using cs div_le_mono [of v "100 * fixed_div" 100] div_le_mono [of "c * fixed_div" v 100] by simp_all
  note X = exact_fixedD [OF exact_ratesD(1) [OF F]]
  have "c * fixed_div \<le> u128_max" using b small by linarith
  then have first: "saturating_from_integer F c = c * fixed_div"
    using X(3) by (simp add: saturating_from_integer_def fits_def)
  have hundred: "saturating_from_integer F 100 = 100 * fixed_div"
    using X(3) small by (simp add: saturating_from_integer_def fits_def)
  have "v * fixed_div div (100 * fixed_div) = v div 100" by simp
  then have "fx_div F v (100 * fixed_div) = Some (v div 100)"
    using X(2) [of "100 * fixed_div" v] \<open>v div 100 \<le> fixed_div\<close> by (simp add: fits_def fixed_div_def u128_max_def)
  moreover have "double_exponent_fold F cs (c * fixed_div) (u * 10 ^ 16) = Inr v"
    using double_exponent_fold_value [OF exact_ratesD(1) [OF F] p, of "c * fixed_div" cs] sum small v by simp
  ultimately show "double_exponent_borrow_rate F m u = Inr (Some (v div 100))"
    using cs first hundred
    by (simp add: double_exponent_borrow_rate_def exact_ratesD(2) [OF F] EXPECTED_COEFFICIENTS_SUM_def)
qed

subsection \<open>All models\<close>

lemma validate_unchanged:
  assumes "validate_interest_rate_model m = Inr m'" "\<And>x. m \<noteq> DynamicPIDController x"
  shows "m' = m"
  using assms
  by (cases m) (auto simp: validate_interest_rate_model_def new_jump_model_def jump_new_def new_curve_model_def curve_new_def
      new_double_exponent_model_def double_exponent_new_def Let_def split: if_splits)

text \<open>
  C20. Every jump, curve and double exponent model that passes validation always has
  a rate: for a utilization between 0 and 100 percent no operation on the way overflows or panics,
  the rate lies between the floor and the cap of the model, never falls when the utilization rises,
  and asking for it does not change the model. The fourth model, with a controller, is left out: its rate follows the
  history of the utilization and has no cap.
\<close>

theorem borrow_rate_bounds:
  assumes F: "exact_rates F" and valid: "validate_interest_rate_model m = Inr m'" and typed: "model_typed m"
    and pid: "\<And>x. m \<noteq> DynamicPIDController x" and uv: "u \<le> v" "v \<le> 100"
  shows "m' = m \<and> (\<exists>r r'. get_borrow_rate F m u = (Inr (Some r), m) \<and> get_borrow_rate F m v = (Inr (Some r'), m)
      \<and> rate_floor m \<le> r \<and> r \<le> r' \<and> r' \<le> rate_cap m)"
proof -
  have "\<exists>r r'. get_borrow_rate F m u = (Inr (Some r), m) \<and> get_borrow_rate F m v = (Inr (Some r'), m)
      \<and> rate_floor m \<le> r \<and> r \<le> r' \<and> r' \<le> rate_cap m"
  proof (cases m)
    case (Jump x)
    then have x: "base_rate x \<le> jump_rate x" "jump_rate x \<le> full_rate x" "full_rate x \<le> fixed_div" "target_utilization x \<le> 100"
      using valid typed
      by (auto simp: validate_interest_rate_model_def new_jump_model_def jump_new_def model_typed_def MAX_FULL_RATE_def
          fixed_div_def split: if_splits)
    then show ?thesis
      using Jump uv jump_borrow_rate_value [OF F x(1-3) _ x(4)] jump_value_bounds [OF x(1,2) uv]
      by (simp add: get_borrow_rate_def rate_floor_def rate_cap_def)
  next
    case (Curve x)
    have pow: "percent_pow F u 9 \<le> percent_pow F v 9" "percent_pow F v 9 \<le> 100"
      using F uv by (auto simp: exact_rates_def)
    then have p: "percent_pow F u 9 * 10 ^ 16 \<le> percent_pow F v 9 * 10 ^ 16" "percent_pow F v 9 * 10 ^ 16 \<le> fixed_div"
      by (simp_all add: fixed_div_def)
    have "curve_base_rate x \<le> fixed_div"
      using Curve valid
      by (auto simp: validate_interest_rate_model_def new_curve_model_def curve_new_def CURVE_MAX_BASE_RATE_def fixed_div_def
          split: if_splits)
    moreover have "fixed_div + fixed_div \<le> u128_max" by (simp add: fixed_div_def u128_max_def)
    ultimately have "percent_pow F v 9 * 10 ^ 16 + curve_base_rate x \<le> u128_max" using p(2) by linarith
    then show ?thesis
      using Curve p
      by (simp add: get_borrow_rate_def curve_borrow_rate_def rate_floor_def rate_cap_def checked_add_def exact_ratesD(2) [OF F])
  next
    case (DoubleExponent x)
    then have x: "length (coefficients x) = 16" "\<forall>c \<in> set (coefficients x). c \<le> u8_max"
      using typed by (auto simp: model_typed_def)
    have "sum_list (coefficients x) = 100"
      using DoubleExponent valid foldl_mod_sum [of 0 "coefficients x" "2 ^ 16"] typed_sum [OF x]
      by (auto simp: validate_interest_rate_model_def new_double_exponent_model_def double_exponent_new_def Let_def
          EXPECTED_COEFFICIENTS_SUM_def split: if_splits)
    note X = double_exponent_value [OF F x(1) this]
    have "u \<le> 100" using uv by simp
    then show ?thesis
      using DoubleExponent X [of u] X [of v] uv
        div_le_mono [OF poly_value_mono [of "coefficients x ! 0 * fixed_div" "coefficients x ! 0 * fixed_div" "u * 10 ^ 16" "v * 10 ^ 16" "drop 1 (coefficients x)"], of 100]
      by (simp add: get_borrow_rate_def rate_floor_def rate_cap_def)
  qed (use pid in simp)
  then show ?thesis using validate_unchanged [OF valid pid] by simp
qed

definition sample_jump :: jump_model where
  "sample_jump = \<lparr>base_rate = 2 * 10 ^ 16, jump_rate = 10 ^ 17, full_rate = 32 * 10 ^ 16, target_utilization = 80\<rparr>"

lemma default_model_value: "default_interest_rate_model = Inr (Jump sample_jump)"
  by (simp add: default_interest_rate_model_def new_jump_model_def jump_new_def sample_jump_def fixed_div_def
      MAX_BASE_RATE_def MAX_JUMP_RATE_def MAX_FULL_RATE_def)

theorem borrow_rate_bounds_witness:
  "\<exists>r r'. get_borrow_rate reference_rates (Jump sample_jump) 40 = (Inr (Some r), Jump sample_jump)
     \<and> get_borrow_rate reference_rates (Jump sample_jump) 90 = (Inr (Some r'), Jump sample_jump)
     \<and> 2 * 10 ^ 16 \<le> r \<and> r \<le> r' \<and> r' \<le> 32 * 10 ^ 16"
proof -
  have "validate_interest_rate_model (Jump sample_jump) = Inr (Jump sample_jump)"
    by (simp add: validate_interest_rate_model_def new_jump_model_def jump_new_def sample_jump_def fixed_div_def
        MAX_BASE_RATE_def MAX_JUMP_RATE_def MAX_FULL_RATE_def)
  from borrow_rate_bounds [OF exact_reference_rates this, of 40 90] show ?thesis
    by (simp add: model_typed_def sample_jump_def rate_floor_def rate_cap_def)
qed

section \<open>Growth of the index\<close>

lemma saturating_from_integer_fits: "exact_fixed F \<Longrightarrow> n * fixed_div \<le> u128_max \<Longrightarrow> saturating_from_integer F n = n * fixed_div"
  by (simp add: saturating_from_integer_def fits_def exact_fixedD(3))

lemma year_fits: "SECONDS_PER_YEAR_NAIVE * fixed_div \<le> u128_max" "0 < SECONDS_PER_YEAR_NAIVE"
  by (simp_all add: SECONDS_PER_YEAR_NAIVE_def fixed_div_def u128_max_def)

text \<open>Every time span in seconds of type \<open>u64\<close> has a fixed-point number.\<close>

lemma span_fits: "n \<le> u64_max \<Longrightarrow> n * fixed_div \<le> u128_max"
proof -
  assume "n \<le> u64_max"
  then have "n * fixed_div \<le> u64_max * fixed_div" by (rule mult_le_mono1)
  moreover have "u64_max * fixed_div \<le> u128_max" by (simp add: u64_max_def fixed_div_def u128_max_def)
  ultimately show ?thesis by linarith
qed

lemma increment_borrow_rate_value:
  assumes "exact_fixed F" "delta \<le> u64_max"
  shows "increment_borrow_rate F r delta =
    (if r * delta \<le> u128_max then Inr (r * delta div SECONDS_PER_YEAR_NAIVE) else Inl arithmetic_error.Overflow)"
proof -
  note span = saturating_from_integer_fits [OF assms(1) span_fits [OF assms(2)]]
  note year = saturating_from_integer_fits [OF assms(1) year_fits(1)]
  have "r * (delta * fixed_div) div fixed_div = r * delta"
    unfolding mult.assoc [symmetric] by simp
  then have "fx_safe_mul F r (delta * fixed_div) = (if r * delta \<le> u128_max then Inr (r * delta) else Inl arithmetic_error.Overflow)"
    using exact_fixedD(1) [OF assms(1)] by (simp add: fx_safe_mul_def fits_def)
  moreover have "fx_safe_div F x (SECONDS_PER_YEAR_NAIVE * fixed_div) = Inr (x div SECONDS_PER_YEAR_NAIVE)" if "x \<le> u128_max" for x
  proof -
    have "x * fixed_div div (SECONDS_PER_YEAR_NAIVE * fixed_div) = x div SECONDS_PER_YEAR_NAIVE" by simp
    moreover have "x div SECONDS_PER_YEAR_NAIVE \<le> u128_max" using that div_le_dividend le_trans by blast
    ultimately show ?thesis
      using year_fits(2) exact_fixedD(2) [OF assms(1), of "SECONDS_PER_YEAR_NAIVE * fixed_div" x]
      by (simp add: fx_safe_div_def fits_def)
  qed
  ultimately show ?thesis by (simp add: increment_borrow_rate_def span year)
qed

lemma increment_index_ok:
  assumes "exact_fixed F" "delta \<le> u64_max"
  shows "increment_index F r index delta = Inr x \<longleftrightarrow>
     r * index div fixed_div \<le> u128_max \<and> r * index div fixed_div * delta \<le> u128_max
     \<and> x = r * index div fixed_div * delta div SECONDS_PER_YEAR_NAIVE + index \<and> x \<le> u128_max"
  unfolding increment_index_def fx_safe_mul_def exact_fixedD(1) [OF assms(1)] fits_def increment_borrow_rate_value [OF assms]
  by (auto simp: safe_add_ok)

end
