(* ===== verification/Lending.thy ===== *)
theory Lending
  imports Holds Lending_Math Vault Oracle Liquidations
begin

text \<open>
  The lending pallet (frame/lending/src/lib.rs). A market lends the asset of a vault against
  collateral: the market account is a strategy of the vault, a debt is an amount of a debt token
  held on the borrower, interest is minted as debt token to the market account and grows an index.
  The vault pallet and the currency factory are the models of this development; the oracle, the
  liquidation engine, the currencies and the fixed-point arithmetic are fields of the configuration.
\<close>

section \<open>Data\<close>

type_synonym market_id = nat

record update_input =
  collateral_factor :: fixed_u128
  under_collaterized_warn_percent :: nat
  liquidators :: "nat list"
  interest_rate_model :: interest_rate_model

record create_input =
  updatable :: update_input
  input_pair :: currency_pair
  reserved_factor :: perquintill

record market_config =
  market_manager :: account_id
  market_borrow :: vault_id
  market_collateral :: asset_id
  market_collateral_factor :: fixed_u128
  market_rate_model :: interest_rate_model
  market_warn_percent :: nat
  market_liquidators :: "nat list"

datatype lending_event =
    MarketCreated market_id vault_id account_id currency_pair
  | MarketUpdated market_id update_input
  | CollateralDeposited account_id market_id balance
  | CollateralWithdrawn account_id market_id balance
  | Borrowed account_id market_id balance
  | RepaidBorrow account_id market_id account_id balance
  | LiquidationInitiated market_id "account_id list"
  | SoonMayUnderCollaterized market_id account_id

text \<open>The methods of the oracle trait that the pallet calls.\<close>

record 'o price_oracle =
  po_is_supported :: "asset_id \<Rightarrow> 'o \<Rightarrow> dispatch_error + bool"
  po_get_price :: "asset_id \<Rightarrow> balance \<Rightarrow> 'o \<Rightarrow> dispatch_error + balance"
  po_get_price_inverse :: "asset_id \<Rightarrow> balance \<Rightarrow> 'o \<Rightarrow> dispatch_error + balance"
  po_get_ratio :: "currency_pair \<Rightarrow> 'o \<Rightarrow> dispatch_error + fixed_u128"

text \<open>
  \<open>LCurrency\<close>, \<open>LHolds\<close> and \<open>LNative\<close> are the currencies, which act on the currency state of the
  vaults; \<open>LLiquidate\<close> runs on that state and the storage of the liquidation engine; \<open>LiquidateFee n\<close>
  is \<open>WeightToFee::calc\<close> of the weight of \<open>liquidate(n)\<close>; \<open>market_sub_account\<close> derives the account of a
  market; \<open>DefaultAsset\<close> is the default of the asset type.
\<close>

record ('c, 'o, 'l) lending_config =
  LVault :: "'c vault_config"
  LCurrency :: "'c fungibles"
  LHolds :: "'c holds"
  LNative :: "'c fungible"
  LRates :: rate_ops
  LOracle :: "'o price_oracle"
  LLiquidate :: "account_id \<Rightarrow> sell \<Rightarrow> nat list \<Rightarrow> ('c \<times> 'l, unit) call"
  MaxLendingCount :: nat
  OracleMarketCreationStake :: balance
  LiquidateFee :: "nat \<Rightarrow> balance"
  market_sub_account :: "market_id \<Rightarrow> account_id"
  DefaultAsset :: asset_id
  MarketsIter :: "(market_id \<rightharpoonup> market_config) \<Rightarrow> market_id list"

record ('c, 'o, 'l) lending =
  LendingCount :: market_id
  Markets :: "market_id \<rightharpoonup> market_config"
  DebtMarkets :: "market_id \<rightharpoonup> asset_id"
  DebtIndex :: "market_id \<times> account_id \<rightharpoonup> fixed_u128"
  BorrowTimestamp :: "market_id \<times> account_id \<rightharpoonup> nat"
  BorrowRent :: "market_id \<times> account_id \<rightharpoonup> balance"
  BorrowIndex :: "market_id \<rightharpoonup> fixed_u128"
  AccountCollateral :: "market_id \<times> account_id \<rightharpoonup> balance"
  LastBlockTimestamp :: nat
  lending_events :: "lending_event list"
  lending_now :: nat
  lending_vaults :: "'c vaults"
  lending_oracle :: 'o
  lending_liquidations :: 'l

definition on_vaults :: "('c vaults, 'a) call \<Rightarrow> (('c, 'o, 'l) lending, 'a) call" where
  "on_vaults m = zoom lending_vaults (\<lambda>v s. s\<lparr>lending_vaults := v\<rparr>) m"

definition on_lending_currency :: "('c, 'a) call \<Rightarrow> (('c, 'o, 'l) lending, 'a) call" where
  "on_lending_currency m = on_vaults (on_currency m)"

abbreviation lending_currency :: "('c, 'o, 'l) lending \<Rightarrow> 'c" where
  "lending_currency s \<equiv> vault_currency (lending_vaults s)"

text \<open>The liquidation engine shares the currency with the pallet.\<close>

definition on_liquidations :: "('c \<times> 'l, 'a) call \<Rightarrow> (('c, 'o, 'l) lending, 'a) call" where
  "on_liquidations m =
     zoom (\<lambda>s. (lending_currency s, lending_liquidations s))
       (\<lambda>(c, l) s. s\<lparr>lending_vaults := (lending_vaults s)\<lparr>vault_currency := c\<rparr>, lending_liquidations := l\<rparr>) m"

definition lending_deposit_event :: "lending_event \<Rightarrow> (('c, 'o, 'l) lending, unit) call" where
  "lending_deposit_event e = modifies (\<lambda>s. s\<lparr>lending_events := lending_events s @ [e]\<rparr>)"

section \<open>Validation of inputs\<close>

definition market_model_valid :: "'a fixed_ops_scheme \<Rightarrow> create_input \<Rightarrow> string + create_input" where
  "market_model_valid F input =
     (if collateral_factor (updatable input) < fixed_div then Inl ''collateral factor must be >= 1''
      else case validate_interest_rate_model (interest_rate_model (updatable input)) of
        Inl e \<Rightarrow> Inl e
      | Inr m \<Rightarrow> Inr (input\<lparr>updatable := (updatable input)\<lparr>interest_rate_model := m\<rparr>\<rparr>))"

definition currency_pair_is_not_same :: "create_input \<Rightarrow> string + create_input" where
  "currency_pair_is_not_same input =
     (if base (input_pair input) = quote (input_pair input) then Inl ''currency pair must be different assets''
      else Inr input)"

definition borrow_asset :: "create_input \<Rightarrow> asset_id" where
  "borrow_asset input = quote (input_pair input)"

definition collateral_asset :: "create_input \<Rightarrow> asset_id" where
  "collateral_asset input = base (input_pair input)"

section \<open>Reading the state\<close>

definition market_account :: "('c, 'o, 'l) lending_config \<Rightarrow> market_id \<Rightarrow> account_id" where
  "market_account cfg i = market_sub_account cfg i"

definition get_market :: "market_id \<Rightarrow> (('c, 'o, 'l) lending, market_config) call" where
  "get_market i = bindM (reads Markets) (\<lambda>m. ok_or (m i) (LendingErr MarketDoesNotExist))"

definition get_borrow_index :: "market_id \<Rightarrow> (('c, 'o, 'l) lending, fixed_u128) call" where
  "get_borrow_index i = bindM (reads BorrowIndex) (\<lambda>m. ok_or (m i) (LendingErr MarketDoesNotExist))"

definition lending_get_price ::
  "('c, 'o, 'l) lending_config \<Rightarrow> asset_id \<Rightarrow> balance \<Rightarrow> (('c, 'o, 'l) lending, balance) call" where
  "lending_get_price cfg asset amount =
     map_err (\<lambda>_. LendingErr AssetPriceNotFound)
       (bindM (reads lending_oracle) (\<lambda>or. lift_result (po_get_price (LOracle cfg) asset amount or)))"

definition debt_asset :: "('c, 'o, 'l) lending_config \<Rightarrow> market_id \<Rightarrow> ('c, 'o, 'l) lending \<Rightarrow> asset_id" where
  "debt_asset cfg i s = (case DebtMarkets s i of None \<Rightarrow> DefaultAsset cfg | Some a \<Rightarrow> a)"

definition lending_balance ::
  "('c, 'o, 'l) lending_config \<Rightarrow> asset_id \<Rightarrow> account_id \<Rightarrow> ('c, 'o, 'l) lending \<Rightarrow> balance" where
  "lending_balance cfg a x s = f_balance (LCurrency cfg) a x (lending_currency s)"

definition total_borrows :: "('c, 'o, 'l) lending_config \<Rightarrow> market_id \<Rightarrow> (('c, 'o, 'l) lending, balance) call" where
  "total_borrows cfg i =
     reads (\<lambda>s. let accrued_debt = lending_balance cfg (debt_asset cfg i s) (market_account cfg i) s;
                   total_issued = f_total_issuance (LCurrency cfg) (debt_asset cfg i s) (lending_currency s)
               in wrapping_sub u128_max total_issued accrued_debt)"

definition total_interest :: "('c, 'o, 'l) lending_config \<Rightarrow> market_id \<Rightarrow> (('c, 'o, 'l) lending, balance) call" where
  "total_interest cfg i = reads (\<lambda>s. lending_balance cfg (debt_asset cfg i s) (market_account cfg i) s)"

definition total_cash :: "('c, 'o, 'l) lending_config \<Rightarrow> market_id \<Rightarrow> (('c, 'o, 'l) lending, balance) call" where
  "total_cash cfg i =
     bindM (get_market i) (\<lambda>market.
     bindM (on_vaults (vault_asset (market_borrow market))) (\<lambda>borrow_id.
     reads (lending_balance cfg borrow_id (market_account cfg i))))"

definition lending_utilization :: "('c, 'o, 'l) lending_config \<Rightarrow> balance \<Rightarrow> balance \<Rightarrow> dispatch_error + nat" where
  "lending_utilization cfg cash borrows =
     calc_utilization_ratio (LRates cfg) (saturating_from_integer (LRates cfg) cash) (saturating_from_integer (LRates cfg) borrows)"

definition borrow_from_principal ::
  "('c, 'o, 'l) lending_config \<Rightarrow> balance \<Rightarrow> fixed_u128 \<Rightarrow> fixed_u128 \<Rightarrow> dispatch_error + nat option" where
  "borrow_from_principal cfg debt_principal market_interest_index account_interest_index =
     (if debt_principal = 0 then Inr None
      else
        let F = LRates cfg;
            v = Option.bind (fx_mul F (saturating_from_integer F debt_principal) market_interest_index) (\<lambda>from_start_total.
                Option.bind (if account_interest_index = 0 then None else fx_div F from_start_total account_interest_index) (\<lambda>x.
                fx_mul_int F u64_max x 1))
        in case v of None \<Rightarrow> Inl (Arithmetic arithmetic_error.Overflow) | Some n \<Rightarrow> Inr (Some n))"

definition borrow_balance_current ::
  "('c, 'o, 'l) lending_config \<Rightarrow> market_id \<Rightarrow> account_id \<Rightarrow> (('c, 'o, 'l) lending, balance option) call" where
  "borrow_balance_current cfg i account =
     bindM (reads DebtMarkets) (\<lambda>dm.
     bindM (ok_or (dm i) (LendingErr MarketDoesNotExist)) (\<lambda>debt_asset_id.
     bindM (reads (\<lambda>s. DebtIndex s (i, account))) (\<lambda>account_debt.
     case account_debt of
       Some account_interest_index \<Rightarrow>
         bindM (reads (\<lambda>s. h_balance_on_hold (LHolds cfg) debt_asset_id account (lending_currency s))) (\<lambda>debt_principal.
         bindM (get_borrow_index i) (\<lambda>market_interest_index.
         lift_result (borrow_from_principal cfg debt_principal market_interest_index account_interest_index)))
     | None \<Rightarrow> ret (Some 0))))"

definition collateral_of_account :: "market_id \<Rightarrow> account_id \<Rightarrow> (('c, 'o, 'l) lending, balance) call" where
  "collateral_of_account i account =
     bindM (reads (\<lambda>s. AccountCollateral s (i, account)))
       (\<lambda>v. ok_or v (LendingErr MarketCollateralWasNotDepositedByAccount))"

definition collateral_required ::
  "('c, 'o, 'l) lending_config \<Rightarrow> market_id \<Rightarrow> balance \<Rightarrow> (('c, 'o, 'l) lending, balance) call" where
  "collateral_required cfg i borrow_amount =
     bindM (get_market i) (\<lambda>market.
     bindM (on_vaults (vault_asset (market_borrow market))) (\<lambda>asset.
     bindM (lending_get_price cfg asset borrow_amount) (\<lambda>borrow_amount_value.
     bindM (lift_arith (fx_safe_mul (LRates cfg) (saturating_from_integer (LRates cfg) borrow_amount_value)
              (market_collateral_factor market))) (\<lambda>v.
     ok_or (fx_mul_int (LRates cfg) u64_max v 1) (Arithmetic arithmetic_error.Overflow)))))"

definition create_borrower_data ::
  "('c, 'o, 'l) lending_config \<Rightarrow> market_id \<Rightarrow> account_id \<Rightarrow> (('c, 'o, 'l) lending, borrower_data) call" where
  "create_borrower_data cfg i account =
     bindM (get_market i) (\<lambda>market.
     bindM (collateral_of_account i account) (\<lambda>collateral_balance.
     bindM (lending_get_price cfg (market_collateral market) collateral_balance) (\<lambda>collateral_value.
     bindM (on_vaults (vault_asset (market_borrow market))) (\<lambda>asset.
     bindM (borrow_balance_current cfg i account) (\<lambda>owed.
     bindM (lending_get_price cfg asset (case owed of None \<Rightarrow> 0 | Some n \<Rightarrow> n)) (\<lambda>borrow_value.
     ret (borrower_data_new (LRates cfg) collateral_value borrow_value
            (market_collateral_factor market) (market_warn_percent market))))))))"

definition should_liquidate ::
  "('c, 'o, 'l) lending_config \<Rightarrow> market_id \<Rightarrow> account_id \<Rightarrow> (('c, 'o, 'l) lending, bool) call" where
  "should_liquidate cfg i account =
     bindM (create_borrower_data cfg i account) (\<lambda>borrower. lift_arith (borrower_should_liquidate (LRates cfg) borrower))"

definition soon_under_collaterized ::
  "('c, 'o, 'l) lending_config \<Rightarrow> market_id \<Rightarrow> account_id \<Rightarrow> (('c, 'o, 'l) lending, bool) call" where
  "soon_under_collaterized cfg i account =
     bindM (create_borrower_data cfg i account) (\<lambda>borrower. lift_arith (borrower_should_warn (LRates cfg) borrower))"

definition get_borrow_limit ::
  "('c, 'o, 'l) lending_config \<Rightarrow> market_id \<Rightarrow> account_id \<Rightarrow> (('c, 'o, 'l) lending, balance) call" where
  "get_borrow_limit cfg i account =
     bindM (reads (\<lambda>s. case AccountCollateral s (i, account) of None \<Rightarrow> 0 | Some n \<Rightarrow> n)) (\<lambda>collateral_balance.
     if 0 < collateral_balance then
       bindM (create_borrower_data cfg i account) (\<lambda>borrower.
       bindM (map_err (\<lambda>_. LendingErr BorrowerDataCalculationFailed) (lift_arith (borrow_for_collateral (LRates cfg) borrower))) (\<lambda>v.
       ok_or (fx_mul_int (LRates cfg) u64_max v 1) (Arithmetic arithmetic_error.Overflow)))
     else ret 0)"

definition get_markets_for_borrow :: "('c, 'o, 'l) lending_config \<Rightarrow> vault_id \<Rightarrow> ('c, 'o, 'l) lending \<Rightarrow> market_id list" where
  "get_markets_for_borrow cfg v s =
     filter (\<lambda>i. case Markets s i of None \<Rightarrow> False | Some market \<Rightarrow> market_borrow market = v) (MarketsIter cfg (Markets s))"

definition get_all_markets ::
  "('c, 'o, 'l) lending_config \<Rightarrow> ('c, 'o, 'l) lending \<Rightarrow> (market_id \<times> market_config) list" where
  "get_all_markets cfg s = map (\<lambda>i. (i, the (Markets s i))) (MarketsIter cfg (Markets s))"

section \<open>Markets\<close>

definition lending_create ::
  "('c, 'o, 'l) lending_config \<Rightarrow> account_id \<Rightarrow> create_input \<Rightarrow> (('c, 'o, 'l) lending, market_id \<times> vault_id) call" where
  "lending_create cfg mgr input =
     thenM (ensure (saturating_from_integer (LRates cfg) 1 < collateral_factor (updatable input))
       (LendingErr CollateralFactorIsLessOrEqualOne))
    (bindM (reads lending_oracle) (\<lambda>or.
     bindM (lift_result (po_is_supported (LOracle cfg) (collateral_asset input) or)) (\<lambda>collateral_asset_supported.
     bindM (lift_result (po_is_supported (LOracle cfg) (borrow_asset input) or)) (\<lambda>borrow_asset_supported.
     thenM (ensure (collateral_asset_supported \<and> borrow_asset_supported) (LendingErr AssetNotSupportedByOracle))
    (try_mutate LendingCount (\<lambda>n s. s\<lparr>LendingCount := n\<rparr>) (\<lambda>previous.
       let i = wrapping_add u32_max previous 1 in
       thenM (ensure (i \<le> MaxLendingCount cfg) (LendingErr ExceedLendingCount))
      (bindM (on_vaults (vault_create (LVault cfg) Existential
          \<lparr>setup_asset_id = borrow_asset input, setup_reserved = reserved_factor input, setup_manager = mgr,
           setup_strategies = [(market_account cfg i, saturating_sub perquintill_one (reserved_factor input))]\<rparr>))
        (\<lambda>borrow_asset_vault.
       bindM (lift_result (po_get_price_inverse (LOracle cfg) (borrow_asset input) (OracleMarketCreationStake cfg) or))
        (\<lambda>initial_pool_size.
       thenM (ensure (0 < initial_pool_size) (LendingErr PriceOfInitialBorrowVaultShouldBeGreaterThanZero))
      (thenM (on_lending_currency (f_transfer (LCurrency cfg) (borrow_asset input) mgr (market_account cfg i) initial_pool_size False))
      (let config = \<lparr>market_manager = mgr, market_borrow = borrow_asset_vault, market_collateral = collateral_asset input,
             market_collateral_factor = collateral_factor (updatable input),
             market_rate_model = interest_rate_model (updatable input),
             market_warn_percent = under_collaterized_warn_percent (updatable input),
             market_liquidators = liquidators (updatable input)\<rparr> in
       bindM (on_vaults (on_factory reserve_lp_token_id)) (\<lambda>debt_asset_id.
       thenM (modifies (\<lambda>s. s\<lparr>DebtMarkets := (DebtMarkets s)(i \<mapsto> debt_asset_id),
                              Markets := (Markets s)(i \<mapsto> config),
                              BorrowIndex := (BorrowIndex s)(i \<mapsto> fixed_div)\<rparr>))
         (ret ((i, borrow_asset_vault), i))))))))))))))"

section \<open>Interest\<close>

definition accrue_interest_internal ::
  "('c, 'o, 'l) lending_config \<Rightarrow> nat \<Rightarrow> interest_rate_model \<Rightarrow> fixed_u128 \<Rightarrow> nat \<Rightarrow> balance \<Rightarrow>
     dispatch_error + balance \<times> fixed_u128" where
  "accrue_interest_internal cfg utilization_ratio model borrow_index delta_time borrows =
     (case fst (get_borrow_rate (LRates cfg) model utilization_ratio) of
        Inl e \<Rightarrow> Inl e
      | Inr None \<Rightarrow> Inl (LendingErr BorrowRateDoesNotExist)
      | Inr (Some borrow_rate) \<Rightarrow>
          (case increment_index (LRates cfg) borrow_rate borrow_index delta_time of
             Inl e \<Rightarrow> Inl (Arithmetic e)
           | Inr borrow_index_new \<Rightarrow>
               (case increment_borrow_rate (LRates cfg) borrow_rate delta_time of
                  Inl e \<Rightarrow> Inl (Arithmetic e)
                | Inr delta_interest_rate \<Rightarrow>
                    (case fx_from_integer (LRates cfg) borrows of
                       None \<Rightarrow> Inl (Arithmetic arithmetic_error.Overflow)
                     | Some total_fixed \<Rightarrow>
                         (case fx_safe_mul (LRates cfg) total_fixed delta_interest_rate of
                            Inl e \<Rightarrow> Inl (Arithmetic e)
                          | Inr accrued \<Rightarrow>
                              let accrue_increment = accrued div fixed_div in
                              if u128_max < accrue_increment then Inl (Arithmetic arithmetic_error.Overflow)
                              else Inr (accrue_increment, borrow_index_new))))))"

text \<open>The interest rate model that \<open>get_borrow_rate\<close> updates is a local copy, which is dropped.\<close>

definition accrue_interest :: "('c, 'o, 'l) lending_config \<Rightarrow> market_id \<Rightarrow> nat \<Rightarrow> (('c, 'o, 'l) lending, unit) call" where
  "accrue_interest cfg i now =
     bindM (total_borrows cfg i) (\<lambda>borrows.
     bindM (total_cash cfg i) (\<lambda>cash.
     bindM (lift_result (lending_utilization cfg cash borrows)) (\<lambda>utilization_ratio.
     bindM (get_market i) (\<lambda>market.
     bindM (reads LastBlockTimestamp) (\<lambda>last.
     bindM (ok_or (checked_sub now last) (LendingErr lending_error.Underflow)) (\<lambda>delta_time.
     bindM (get_borrow_index i) (\<lambda>borrow_index.
     bindM (reads (debt_asset cfg i)) (\<lambda>debt_asset_id.
     bindM (lift_result (accrue_interest_internal cfg utilization_ratio (market_rate_model market) borrow_index delta_time borrows))
      (\<lambda>(accrued, borrow_index_new).
     thenM (modifies (\<lambda>s. s\<lparr>BorrowIndex := (BorrowIndex s)(i \<mapsto> borrow_index_new)\<rparr>))
       (on_lending_currency (f_mint_into (LCurrency cfg) debt_asset_id (market_account cfg i) accrued)))))))))))"

section \<open>Collateral\<close>

definition lending_deposit_collateral ::
  "('c, 'o, 'l) lending_config \<Rightarrow> market_id \<Rightarrow> account_id \<Rightarrow> balance \<Rightarrow> (('c, 'o, 'l) lending, unit) call" where
  "lending_deposit_collateral cfg i account amount =
     bindM (get_market i) (\<lambda>market.
     bindM (reads (\<lambda>s. f_can_withdraw (LCurrency cfg) (market_collateral market) account amount (lending_currency s))) (\<lambda>can.
     thenM (ensure can (LendingErr TransferFailed))
    (bindM (reads (\<lambda>s. f_can_deposit (LCurrency cfg) (market_collateral market) (market_account cfg i) amount (lending_currency s)))
      (\<lambda>can_deposit.
     thenM (ensure can_deposit (LendingErr TransferFailed))
    (thenM (try_mutate (\<lambda>s. AccountCollateral s (i, account))
              (\<lambda>v s. s\<lparr>AccountCollateral := (AccountCollateral s)((i, account) := v)\<rparr>)
              (\<lambda>v. bindM (ok_or (checked_add u128_max (case v of None \<Rightarrow> 0 | Some n \<Rightarrow> n) amount)
                           (LendingErr lending_error.Overflow)) (\<lambda>n. ret ((), Some n))))
    (thenM (map_err (\<lambda>_. Panic ''impossible; qed;'')
              (on_lending_currency (f_transfer (LCurrency cfg) (market_collateral market) account (market_account cfg i) amount True)))
      (ret ())))))))"

definition lending_withdraw_collateral ::
  "('c, 'o, 'l) lending_config \<Rightarrow> market_id \<Rightarrow> account_id \<Rightarrow> balance \<Rightarrow> (('c, 'o, 'l) lending, unit) call" where
  "lending_withdraw_collateral cfg i account amount =
     bindM (get_market i) (\<lambda>market.
     bindM (reads (\<lambda>s. case AccountCollateral s (i, account) of None \<Rightarrow> 0 | Some n \<Rightarrow> n)) (\<lambda>collateral_balance.
     thenM (ensure (amount \<le> collateral_balance) (LendingErr NotEnoughCollateral))
    (bindM (on_vaults (vault_asset (market_borrow market))) (\<lambda>asset.
     bindM (borrow_balance_current cfg i account) (\<lambda>owed.
     bindM (lending_get_price cfg asset (case owed of None \<Rightarrow> 0 | Some n \<Rightarrow> n)) (\<lambda>borrow_value.
     bindM (lift_arith (safe_sub collateral_balance amount)) (\<lambda>collateral_left.
     bindM (lending_get_price cfg (market_collateral market) collateral_left) (\<lambda>collateral_value.
     bindM (lift_arith (borrower_should_liquidate (LRates cfg)
              (borrower_data_new (LRates cfg) collateral_value borrow_value
                 (market_collateral_factor market) (market_warn_percent market)))) (\<lambda>liquidatable.
     thenM (ensure (\<not> liquidatable) (LendingErr NotEnoughCollateral))
    (bindM (reads (\<lambda>s. f_can_deposit (LCurrency cfg) (market_collateral market) account amount (lending_currency s)))
      (\<lambda>can_deposit.
     thenM (ensure can_deposit (LendingErr TransferFailed))
    (bindM (reads (\<lambda>s. f_can_withdraw (LCurrency cfg) (market_collateral market) (market_account cfg i) amount (lending_currency s)))
      (\<lambda>can.
     thenM (ensure can (LendingErr TransferFailed))
    (thenM (try_mutate (\<lambda>s. AccountCollateral s (i, account))
              (\<lambda>v s. s\<lparr>AccountCollateral := (AccountCollateral s)((i, account) := v)\<rparr>)
              (\<lambda>v. bindM (ok_or (checked_sub (case v of None \<Rightarrow> 0 | Some n \<Rightarrow> n) amount)
                           (LendingErr lending_error.Overflow)) (\<lambda>n. ret ((), Some n))))
    (thenM (map_err (\<lambda>_. Panic ''impossible; qed;'')
              (on_lending_currency (f_transfer (LCurrency cfg) (market_collateral market) (market_account cfg i) account amount True)))
      (ret ()))))))))))))))))"

section \<open>Borrowing and repaying\<close>

definition can_borrow ::
  "('c, 'o, 'l) lending_config \<Rightarrow> market_id \<Rightarrow> account_id \<Rightarrow> balance \<Rightarrow> market_config \<Rightarrow> account_id \<Rightarrow>
     (('c, 'o, 'l) lending, unit) call" where
  "can_borrow cfg i debt_owner amount_to_borrow market market_acc =
     bindM (reads (\<lambda>s. BorrowTimestamp s (i, debt_owner))) (\<lambda>latest.
     bindM (reads LastBlockTimestamp) (\<lambda>last.
     thenM (ensure (case latest of None \<Rightarrow> True | Some time \<Rightarrow> \<not> last \<le> time) (LendingErr InvalidTimestampOnBorrowRequest))
    (bindM (on_vaults (vault_asset (market_borrow market))) (\<lambda>asset.
     bindM (get_borrow_limit cfg i debt_owner) (\<lambda>borrow_limit.
     bindM (lending_get_price cfg asset amount_to_borrow) (\<lambda>borrow_amount_value.
     thenM (ensure (borrow_amount_value \<le> borrow_limit) (LendingErr NotEnoughCollateralToBorrowAmount))
    (bindM (reads (\<lambda>s. f_can_withdraw (LCurrency cfg) asset market_acc amount_to_borrow (lending_currency s))) (\<lambda>can.
     thenM (ensure can (LendingErr NotEnoughBorrowAsset))
    (bindM (reads (\<lambda>s. BorrowRent s (i, debt_owner))) (\<lambda>rent.
     bindM (reads (\<lambda>s. n_can_withdraw (LNative cfg) debt_owner (LiquidateFee cfg 1) (lending_currency s))) (\<lambda>can_pay.
     thenM (ensure (rent \<noteq> None \<or> can_pay) (LendingErr NotEnoughRent))
    (bindM (on_vaults (available_funds (LVault cfg) (market_borrow market) market_acc)) (\<lambda>funds.
     ensure (funds \<noteq> MustLiquidate) (LendingErr MarketIsClosing))))))))))))))"

definition calc_updated_account_interest_index ::
  "('c, 'o, 'l) lending_config \<Rightarrow> fixed_u128 \<Rightarrow> balance \<Rightarrow> balance \<Rightarrow> fixed_u128 \<Rightarrow> dispatch_error + fixed_u128" where
  "calc_updated_account_interest_index cfg market_index amount_to_borrow existing_borrow_amount account_interest_index =
     (case safe_add u128_max existing_borrow_amount amount_to_borrow of
        Inl e \<Rightarrow> Inl (Arithmetic e)
      | Inr total_borrow_amount \<Rightarrow>
          let F = LRates cfg;
              existing_borrow_share = percent_from_rational F existing_borrow_amount total_borrow_amount;
              new_borrow_share = percent_from_rational F amount_to_borrow total_borrow_amount
          in case fx_mul F market_index (percent_to_fixed F new_borrow_share) of
               None \<Rightarrow> Inl (Panic ''attempt to multiply with overflow'')
             | Some new_part \<Rightarrow>
                 (case fx_mul F account_interest_index (percent_to_fixed F existing_borrow_share) of
                    None \<Rightarrow> Inl (Panic ''attempt to multiply with overflow'')
                  | Some old_part \<Rightarrow> Inr (wrapping_add u128_max new_part old_part)))"

definition updated_account_interest_index ::
  "('c, 'o, 'l) lending_config \<Rightarrow> market_id \<Rightarrow> account_id \<Rightarrow> balance \<Rightarrow> asset_id \<Rightarrow> (('c, 'o, 'l) lending, fixed_u128) call" where
  "updated_account_interest_index cfg i debt_owner amount_to_borrow debt_asset_id =
     bindM (get_borrow_index i) (\<lambda>market_index.
     bindM (reads (\<lambda>s. case DebtIndex s (i, debt_owner) of None \<Rightarrow> 0 | Some n \<Rightarrow> n)) (\<lambda>account_interest_index.
     bindM (reads (lending_balance cfg debt_asset_id debt_owner)) (\<lambda>existing_borrow_amount.
     lift_result (calc_updated_account_interest_index cfg market_index amount_to_borrow existing_borrow_amount
       account_interest_index))))"

text \<open>The last steps of a loan and of a repayment: the deposit for a liquidation is taken and given back.\<close>

definition take_rent ::
  "('c, 'o, 'l) lending_config \<Rightarrow> market_id \<Rightarrow> account_id \<Rightarrow> account_id \<Rightarrow> (('c, 'o, 'l) lending, unit) call" where
  "take_rent cfg i debt_owner market_acc =
     bindM (reads (\<lambda>s. BorrowRent s (i, debt_owner))) (\<lambda>rent.
     if rent = None then
       let rent_deposit = LiquidateFee cfg 2 in
       thenM (on_lending_currency (n_transfer (LNative cfg) debt_owner market_acc rent_deposit True))
         (modifies (\<lambda>s. s\<lparr>BorrowRent := (BorrowRent s)((i, debt_owner) \<mapsto> rent_deposit)\<rparr>))
     else ret ())"

definition close_loan ::
  "('c, 'o, 'l) lending_config \<Rightarrow> market_id \<Rightarrow> account_id \<Rightarrow> account_id \<Rightarrow> (('c, 'o, 'l) lending, unit) call" where
  "close_loan cfg i beneficiary market_acc =
     thenM (modifies (\<lambda>s. s\<lparr>BorrowTimestamp := (BorrowTimestamp s)((i, beneficiary) := None),
                            DebtIndex := (DebtIndex s)((i, beneficiary) := None)\<rparr>))
    (bindM (reads (\<lambda>s. BorrowRent s (i, beneficiary))) (\<lambda>v.
     case v of
       None \<Rightarrow> ret ()
     | Some rent \<Rightarrow>
         thenM (on_lending_currency (n_transfer (LNative cfg) market_acc beneficiary rent False)) (ret ())))"

definition lending_borrow ::
  "('c, 'o, 'l) lending_config \<Rightarrow> market_id \<Rightarrow> account_id \<Rightarrow> balance \<Rightarrow> (('c, 'o, 'l) lending, unit) call" where
  "lending_borrow cfg i debt_owner amount_to_borrow =
     bindM (get_market i) (\<lambda>market.
     bindM (on_vaults (vault_asset (market_borrow market))) (\<lambda>asset.
     let market_acc = market_account cfg i in
     thenM (can_borrow cfg i debt_owner amount_to_borrow market market_acc)
    (bindM (reads (debt_asset cfg i)) (\<lambda>debt_asset_id.
     bindM (updated_account_interest_index cfg i debt_owner amount_to_borrow debt_asset_id) (\<lambda>new_account_interest_index.
     thenM (on_lending_currency (f_mint_into (LCurrency cfg) debt_asset_id debt_owner amount_to_borrow))
    (thenM (on_lending_currency (h_hold (LHolds cfg) debt_asset_id debt_owner amount_to_borrow))
    (thenM (on_lending_currency (f_transfer (LCurrency cfg) asset market_acc debt_owner amount_to_borrow True))
    (thenM (modifies (\<lambda>s. s\<lparr>DebtIndex := (DebtIndex s)((i, debt_owner) \<mapsto> new_account_interest_index),
                            BorrowTimestamp := (BorrowTimestamp s)((i, debt_owner) \<mapsto> LastBlockTimestamp s)\<rparr>))
      (take_rent cfg i debt_owner market_acc)))))))))"

definition can_repay_borrow ::
  "('c, 'o, 'l) lending_config \<Rightarrow> market_id \<Rightarrow> account_id \<Rightarrow> account_id \<Rightarrow> balance \<Rightarrow> balance \<Rightarrow> asset_id \<Rightarrow> account_id \<Rightarrow>
     (('c, 'o, 'l) lending, unit) call" where
  "can_repay_borrow cfg i payer beneficiary repay_amount owed borrow_asset_id market_acc =
     bindM (reads (\<lambda>s. BorrowTimestamp s (i, beneficiary))) (\<lambda>latest.
     bindM (ok_or latest (LendingErr BorrowDoesNotExist)) (\<lambda>timestamp.
     bindM (reads LastBlockTimestamp) (\<lambda>last.
     thenM (ensure (timestamp \<noteq> last) (LendingErr BorrowAndRepayInSameBlockIsNotSupported))
    (thenM (ensure (0 < repay_amount) (LendingErr RepayAmountMustBeGraterThanZero))
    (thenM (ensure (repay_amount \<le> owed) (LendingErr CannotRepayMoreThanBorrowAmount))
    (bindM (reads (\<lambda>s. f_can_withdraw (LCurrency cfg) borrow_asset_id payer repay_amount (lending_currency s))) (\<lambda>can.
     thenM (ensure can (LendingErr CannotWithdrawFromProvidedBorrowAccount))
    (bindM (reads (\<lambda>s. f_can_deposit (LCurrency cfg) borrow_asset_id market_acc repay_amount (lending_currency s))) (\<lambda>can_deposit.
     ensure can_deposit (LendingErr TransferFailed))))))))))"

definition lending_repay_borrow ::
  "('c, 'o, 'l) lending_config \<Rightarrow> market_id \<Rightarrow> account_id \<Rightarrow> account_id \<Rightarrow> balance option \<Rightarrow> (('c, 'o, 'l) lending, unit) call" where
  "lending_repay_borrow cfg i payer beneficiary repay =
     bindM (get_market i) (\<lambda>market.
     bindM (borrow_balance_current cfg i beneficiary) (\<lambda>current.
     case current of
       None \<Rightarrow> ret ()
     | Some owed \<Rightarrow>
         let total_repay_amount = (case repay of None \<Rightarrow> owed | Some n \<Rightarrow> n) in
         bindM (on_vaults (vault_asset (market_borrow market))) (\<lambda>borrow_asset_id.
         let market_acc = market_account cfg i in
         thenM (can_repay_borrow cfg i payer beneficiary total_repay_amount owed borrow_asset_id market_acc)
        (bindM (reads (debt_asset cfg i)) (\<lambda>debt_asset_id.
         bindM (reads (lending_balance cfg debt_asset_id beneficiary)) (\<lambda>burn_amount.
         bindM (reads (lending_balance cfg debt_asset_id market_acc)) (\<lambda>remaining_before.
         bindM (if total_repay_amount \<le> burn_amount then ret (total_repay_amount, remaining_before)
                else
                  let repay_borrow_amount = total_repay_amount - burn_amount in
                  bindM (lift_arith (safe_sub remaining_before repay_borrow_amount)) (\<lambda>remaining.
                  thenM (on_lending_currency (f_burn_from (LCurrency cfg) debt_asset_id market_acc repay_borrow_amount))
                    (ret (burn_amount, remaining))))
          (\<lambda>(debt_to_release, remaining_borrow_amount).
         thenM (on_lending_currency (h_release (LHolds cfg) debt_asset_id beneficiary debt_to_release True))
        (thenM (on_lending_currency (f_burn_from (LCurrency cfg) debt_asset_id beneficiary debt_to_release))
        (thenM (on_lending_currency (f_transfer (LCurrency cfg) borrow_asset_id payer market_acc debt_to_release False))
        (if remaining_borrow_amount = 0 then close_loan cfg i beneficiary market_acc else ret ())))))))))))"

section \<open>Liquidation\<close>

definition liquidate_borrower ::
  "('c, 'o, 'l) lending_config \<Rightarrow> account_id \<Rightarrow> market_id \<Rightarrow> account_id \<Rightarrow> (('c, 'o, 'l) lending, unit) call" where
  "liquidate_borrower cfg liquidator i account =
     bindM (should_liquidate cfg i account) (\<lambda>yes.
     if \<not> yes then ret ()
     else
       bindM (get_market i) (\<lambda>market.
       bindM (on_vaults (vault_asset (market_borrow market))) (\<lambda>asset.
       bindM (collateral_of_account i account) (\<lambda>collateral_to_liquidate.
       bindM (reads lending_oracle) (\<lambda>or.
       bindM (lift_result (po_get_ratio (LOracle cfg) \<lparr>base = market_collateral market, quote = asset\<rparr> or)) (\<lambda>unit_price.
       thenM (on_liquidations (LLiquidate cfg (market_account cfg i)
                (sell_new (market_collateral market) asset collateral_to_liquidate unit_price) (market_liquidators market)))
      (bindM (reads (\<lambda>s. BorrowRent s (i, account))) (\<lambda>v.
       case v of
         None \<Rightarrow> ret ()
       | Some rent_deposit \<Rightarrow>
           thenM (on_lending_currency (n_transfer (LNative cfg) (market_account cfg i) liquidator rent_deposit False)) (ret ())))))))))"

definition liquidate_internal ::
  "('c, 'o, 'l) lending_config \<Rightarrow> account_id \<Rightarrow> market_id \<Rightarrow> account_id list \<Rightarrow> (('c, 'o, 'l) lending, unit) call" where
  "liquidate_internal cfg liquidator i borrowers = for_each borrowers (liquidate_borrower cfg liquidator i)"

section \<open>The start of a block\<close>

definition lending_available_funds ::
  "('c, 'o, 'l) lending_config \<Rightarrow> market_config \<Rightarrow> account_id \<Rightarrow> (('c, 'o, 'l) lending, funds_availability) call" where
  "lending_available_funds cfg config market_acc = on_vaults (available_funds (LVault cfg) (market_borrow config) market_acc)"

definition handle_withdrawable ::
  "('c, 'o, 'l) lending_config \<Rightarrow> market_config \<Rightarrow> account_id \<Rightarrow> balance \<Rightarrow> (('c, 'o, 'l) lending, unit) call" where
  "handle_withdrawable cfg config market_acc amount = on_vaults (strategy_withdraw (LVault cfg) (market_borrow config) market_acc amount)"

definition handle_depositable ::
  "('c, 'o, 'l) lending_config \<Rightarrow> market_config \<Rightarrow> account_id \<Rightarrow> balance \<Rightarrow> (('c, 'o, 'l) lending, unit) call" where
  "handle_depositable cfg config market_acc amount =
     bindM (on_vaults (vault_asset (market_borrow config))) (\<lambda>asset.
     bindM (reads (\<lambda>s. min (f_reducible_balance (LCurrency cfg) asset market_acc False (lending_currency s)) amount)) (\<lambda>n.
     on_vaults (strategy_deposit (LVault cfg) (market_borrow config) market_acc n)))"

definition handle_must_liquidate ::
  "('c, 'o, 'l) lending_config \<Rightarrow> market_config \<Rightarrow> account_id \<Rightarrow> (('c, 'o, 'l) lending, unit) call" where
  "handle_must_liquidate cfg config market_acc =
     bindM (on_vaults (vault_asset (market_borrow config))) (\<lambda>asset.
     bindM (reads (\<lambda>s. f_reducible_balance (LCurrency cfg) asset market_acc False (lending_currency s))) (\<lambda>n.
     on_vaults (strategy_deposit (LVault cfg) (market_borrow config) market_acc n)))"

text \<open>\<open>InitializeBlockCallCounters\<close>: counts of the work done, from which the weight is computed.\<close>

record call_counters =
  cnt_now :: nat
  cnt_read_markets :: nat
  cnt_accrue_interest :: nat
  cnt_account_id :: nat
  cnt_available_funds :: nat
  cnt_handle_withdrawable :: nat
  cnt_handle_depositable :: nat
  cnt_handle_must_liquidate :: nat

definition default_counters :: call_counters where
  "default_counters =
     \<lparr>cnt_now = 0, cnt_read_markets = 0, cnt_accrue_interest = 0, cnt_account_id = 0, cnt_available_funds = 0,
      cnt_handle_withdrawable = 0, cnt_handle_depositable = 0, cnt_handle_must_liquidate = 0\<rparr>"

text \<open>The counters are local variables of the closure: they keep their values when storage is rolled back.\<close>

definition counted :: "(call_counters \<Rightarrow> call_counters) \<Rightarrow> (call_counters \<times> 's, unit) call" where
  "counted f = modifies (\<lambda>(c, s). (f c, s))"

definition in_storage :: "('s, 'a) call \<Rightarrow> (call_counters \<times> 's, 'a) call" where
  "in_storage m = zoom snd (\<lambda>t (c, _). (c, t)) m"

definition initialize_market ::
  "('c, 'o, 'l) lending_config \<Rightarrow> nat \<Rightarrow> market_id \<Rightarrow> market_config \<Rightarrow> (call_counters \<times> ('c, 'o, 'l) lending, unit) call" where
  "initialize_market cfg now i config =
     thenM (counted (\<lambda>c. c\<lparr>cnt_read_markets := cnt_read_markets c + 1\<rparr>))
    (thenM (in_storage (accrue_interest cfg i now))
    (thenM (counted (\<lambda>c. c\<lparr>cnt_accrue_interest := cnt_accrue_interest c + 1\<rparr>))
    (let market_acc = market_account cfg i in
     bindM (in_storage (lending_available_funds cfg config market_acc)) (\<lambda>funds.
     thenM
      (case funds of
         Withdrawable n \<Rightarrow>
           thenM (in_storage (handle_withdrawable cfg config market_acc n))
             (counted (\<lambda>c. c\<lparr>cnt_handle_withdrawable := cnt_handle_withdrawable c + 1\<rparr>))
       | Depositable n \<Rightarrow>
           thenM (in_storage (handle_depositable cfg config market_acc n))
             (counted (\<lambda>c. c\<lparr>cnt_handle_depositable := cnt_handle_depositable c + 1\<rparr>))
       | MustLiquidate \<Rightarrow>
           thenM (in_storage (handle_must_liquidate cfg config market_acc))
             (counted (\<lambda>c. c\<lparr>cnt_handle_must_liquidate := cnt_handle_must_liquidate c + 1\<rparr>)))
      (counted (\<lambda>c. c\<lparr>cnt_available_funds := cnt_available_funds c + 1\<rparr>))))))"

text \<open>All markets are run, whatever the results; a panic stops at once. The errors are collected.\<close>

fun collect_results :: "('s, unit) call list \<Rightarrow> ('s, dispatch_error list) call" where
  "collect_results [] s = (Inr [], s)"
| "collect_results (m # ms) s =
     (case m s of
        (Inl (Panic p), t) \<Rightarrow> (Inl (Panic p), t)
      | (r, t) \<Rightarrow>
          (case collect_results ms t of
             (Inl e, u) \<Rightarrow> (Inl e, u)
           | (Inr es, u) \<Rightarrow> (Inr ((case r of Inl e \<Rightarrow> [e] | Inr _ \<Rightarrow> []) @ es), u)))"

definition initialize_block :: "('c, 'o, 'l) lending_config \<Rightarrow> (('c, 'o, 'l) lending, call_counters) call" where
  "initialize_block cfg s =
     (let now = lending_now s;
          markets = get_all_markets cfg s
      in case collect_results (map (\<lambda>(i, config). initialize_market cfg now i config) markets)
                (default_counters\<lparr>cnt_now := 1\<rparr>, s) of
           (Inl e, (c, t)) \<Rightarrow> (Inl e, t)
         | (Inr es, (c, t)) \<Rightarrow>
             if es = [] then (Inr c, t\<lparr>LastBlockTimestamp := now\<rparr>) else (Inr c, s))"

record weight_info =
  w_now :: nat
  w_read :: nat
  w_accrue_interest :: nat
  w_account_id :: nat
  w_available_funds :: nat
  w_handle_withdrawable :: nat
  w_handle_depositable :: nat
  w_handle_must_liquidate :: nat

definition lending_on_initialize ::
  "('c, 'o, 'l) lending_config \<Rightarrow> weight_info \<Rightarrow> (('c, 'o, 'l) lending, nat) call" where
  "lending_on_initialize cfg w =
     bindM (initialize_block cfg) (\<lambda>c.
     ret (foldl (wrapping_add u64_max) 0
       [wrapping_mul u64_max (cnt_now c) (w_now w), wrapping_mul u64_max (cnt_read_markets c) (w_read w),
        wrapping_mul u64_max (cnt_accrue_interest c) (w_accrue_interest w),
        wrapping_mul u64_max (cnt_account_id c) (w_account_id w),
        wrapping_mul u64_max (cnt_available_funds c) (w_available_funds w),
        wrapping_mul u64_max (cnt_handle_withdrawable c) (w_handle_withdrawable w),
        wrapping_mul u64_max (cnt_handle_depositable c) (w_handle_depositable w),
        wrapping_mul u64_max (cnt_handle_must_liquidate c) (w_handle_must_liquidate w)]))"

definition lending_genesis_build :: "('c, 'o, 'l) lending \<Rightarrow> ('c, 'o, 'l) lending" where
  "lending_genesis_build s = s\<lparr>LastBlockTimestamp := lending_now s\<rparr>"

section \<open>Dispatchables\<close>

definition create_market ::
  "('c, 'o, 'l) lending_config \<Rightarrow> raw_origin \<Rightarrow> create_input \<Rightarrow> (('c, 'o, 'l) lending, unit) call" where
  "create_market cfg orig raw_input =
     (case market_model_valid (LRates cfg) raw_input of
        Inl msg \<Rightarrow> fail (Other msg)
      | Inr valid_input \<Rightarrow>
          (case currency_pair_is_not_same valid_input of
             Inl msg \<Rightarrow> fail (Other msg)
           | Inr input \<Rightarrow>
               transactional
               (bindM (ensure_signed orig) (\<lambda>who.
                bindM (lending_create cfg who input) (\<lambda>(i, v).
                lending_deposit_event (MarketCreated i v who (input_pair input)))))))"

definition update_market :: "raw_origin \<Rightarrow> market_id \<Rightarrow> update_input \<Rightarrow> (('c, 'o, 'l) lending, unit) call" where
  "update_market orig i input = transactional
     (bindM (ensure_signed orig) (\<lambda>who.
      bindM (reads (\<lambda>s. Markets s i)) (\<lambda>v.
      bindM (ok_or v (LendingErr MarketDoesNotExist)) (\<lambda>market.
      thenM (ensure (who = market_manager market) (LendingErr Unauthorized))
     (thenM (modifies (\<lambda>s. s\<lparr>Markets := (Markets s)(i \<mapsto>
          market\<lparr>market_collateral_factor := collateral_factor input, market_rate_model := interest_rate_model input,
                 market_warn_percent := under_collaterized_warn_percent input, market_liquidators := liquidators input\<rparr>)\<rparr>))
       (lending_deposit_event (MarketUpdated i input)))))))"

definition deposit_collateral ::
  "('c, 'o, 'l) lending_config \<Rightarrow> raw_origin \<Rightarrow> market_id \<Rightarrow> balance \<Rightarrow> (('c, 'o, 'l) lending, unit) call" where
  "deposit_collateral cfg orig i amount = transactional
     (bindM (ensure_signed orig) (\<lambda>sender.
      thenM (lending_deposit_collateral cfg i sender amount) (lending_deposit_event (CollateralDeposited sender i amount))))"

definition withdraw_collateral ::
  "('c, 'o, 'l) lending_config \<Rightarrow> raw_origin \<Rightarrow> market_id \<Rightarrow> balance \<Rightarrow> (('c, 'o, 'l) lending, unit) call" where
  "withdraw_collateral cfg orig i amount = transactional
     (bindM (ensure_signed orig) (\<lambda>sender.
      thenM (lending_withdraw_collateral cfg i sender amount) (lending_deposit_event (CollateralWithdrawn sender i amount))))"

definition borrow ::
  "('c, 'o, 'l) lending_config \<Rightarrow> raw_origin \<Rightarrow> market_id \<Rightarrow> balance \<Rightarrow> (('c, 'o, 'l) lending, unit) call" where
  "borrow cfg orig i amount_to_borrow = transactional
     (bindM (ensure_signed orig) (\<lambda>sender.
      thenM (lending_borrow cfg i sender amount_to_borrow) (lending_deposit_event (Borrowed sender i amount_to_borrow))))"

definition repay_borrow ::
  "('c, 'o, 'l) lending_config \<Rightarrow> raw_origin \<Rightarrow> market_id \<Rightarrow> account_id \<Rightarrow> balance \<Rightarrow> (('c, 'o, 'l) lending, unit) call" where
  "repay_borrow cfg orig i beneficiary repay_amount = transactional
     (bindM (ensure_signed orig) (\<lambda>sender.
      thenM (lending_repay_borrow cfg i sender beneficiary (Some repay_amount))
        (lending_deposit_event (RepaidBorrow sender i beneficiary repay_amount))))"

definition lending_liquidate ::
  "('c, 'o, 'l) lending_config \<Rightarrow> raw_origin \<Rightarrow> market_id \<Rightarrow> account_id list \<Rightarrow> (('c, 'o, 'l) lending, unit) call" where
  "lending_liquidate cfg orig i borrowers = transactional
     (bindM (ensure_signed orig) (\<lambda>sender.
      thenM (liquidate_internal cfg sender i borrowers) (lending_deposit_event (LiquidationInitiated i borrowers))))"

section \<open>The oracle and the liquidations of the repository\<close>

text \<open>\<open>is_supported\<close> of the oracle trait; \<open>10_u64.pow\<close> wraps.\<close>

definition oracle_is_supported :: "'n oracle_config \<Rightarrow> asset_id \<Rightarrow> 'n oracle_state \<Rightarrow> dispatch_error + bool" where
  "oracle_is_supported cfg asset s =
     (case OracleDecimals cfg asset of
        Inl e \<Rightarrow> Inl e
      | Inr d \<Rightarrow> (case get_price cfg asset (10 ^ d mod (u64_max + 1)) s of Inl e \<Rightarrow> Inl e | Inr _ \<Rightarrow> Inr True))"

definition pallet_oracle :: "'n oracle_config \<Rightarrow> 'n oracle_state price_oracle" where
  "pallet_oracle cfg =
     \<lparr>po_is_supported = oracle_is_supported cfg,
      po_get_price = (\<lambda>a n s. case get_price cfg a n s of Inl e \<Rightarrow> Inl e | Inr p \<Rightarrow> Inr (price_value p)),
      po_get_price_inverse = get_price_inverse cfg,
      po_get_ratio = (\<lambda>p. get_ratio cfg (base p) (quote p))\<rparr>"

definition pallet_liquidate ::
  "'c liquidations_config \<Rightarrow> account_id \<Rightarrow> sell \<Rightarrow> nat list \<Rightarrow> ('c \<times> 'c liquidations_state, unit) call" where
  "pallet_liquidate cfg who sell ids =
     (\<lambda>(c, l).
       case liquidate cfg who sell ids (l\<lparr>liquidations_auction := (liquidations_auction l)\<lparr>auction_currency := c\<rparr>\<rparr>) of
         (r, t) \<Rightarrow> (case r of Inl e \<Rightarrow> Inl e | Inr _ \<Rightarrow> Inr (), (auction_currency (liquidations_auction t), t)))"

end
