(* ===== verification/Lending_Properties.thy ===== *)
theory Lending_Properties
  imports Lending
begin

text \<open>
  What the lending pallet guarantees: a borrower can neither borrow nor withdraw collateral beyond
  the collateral factor, interest changes the debt tokens by the documented formula, the start of a
  block is all or nothing, and the collateral of every market is backed by its account.
\<close>

section \<open>Reading calls\<close>

lemma get_market_ok [ok_simps]: "get_market i s = (Inr m, t) \<longleftrightarrow> Markets s i = Some m \<and> t = s"
  by (auto simp: get_market_def ok_simps)

lemma get_borrow_index_ok [ok_simps]: "get_borrow_index i s = (Inr x, t) \<longleftrightarrow> BorrowIndex s i = Some x \<and> t = s"
  by (auto simp: get_borrow_index_def ok_simps)

lemma vault_asset_ok [ok_simps]:
  "on_vaults (vault_asset v) s = (Inr a, t) \<longleftrightarrow>
     (\<exists>info. Vaults (lending_vaults s) v = Some info \<and> a = vault_asset_id info) \<and> t = s"
  by (auto simp: on_vaults_def vault_asset_def get_vault_info_def ok_simps)

lemma lending_get_price_ok [ok_simps]:
  "lending_get_price cfg a n s = (Inr p, t) \<longleftrightarrow> po_get_price (LOracle cfg) a n (lending_oracle s) = Inr p \<and> t = s"
  by (auto simp: lending_get_price_def ok_simps)

lemma total_borrows_ok [ok_simps]:
  "total_borrows cfg i s = (Inr n, t) \<longleftrightarrow>
     n = wrapping_sub u128_max (f_total_issuance (LCurrency cfg) (debt_asset cfg i s) (lending_currency s))
           (lending_balance cfg (debt_asset cfg i s) (market_account cfg i) s) \<and> t = s"
  by (auto simp: total_borrows_def ok_simps Let_def)

lemma keeps_vault_asset [keeps_intros]: "keeps (on_vaults (vault_asset v))"
  by (simp add: keeps_def on_vaults_def vault_asset_def get_vault_info_def call_eval split: option.split)

lemma keeps_reading [keeps_intros]:
  "keeps (get_market i)" "keeps (get_borrow_index i)" "keeps (lending_get_price cfg a n)" "keeps (collateral_of_account i x)"
  unfolding get_market_def get_borrow_index_def lending_get_price_def collateral_of_account_def
  by (intro keeps_intros)+

lemma keeps_borrow_balance_current [keeps_intros]: "keeps (borrow_balance_current cfg i x)"
  unfolding borrow_balance_current_def
  by (intro keeps_intros) (auto intro!: keeps_intros split: option.split)

lemma keeps_create_borrower_data [keeps_intros]: "keeps (create_borrower_data cfg i x)"
  unfolding create_borrower_data_def by (intro keeps_intros)

lemma keeps_should_liquidate [keeps_intros]: "keeps (should_liquidate cfg i x)" "keeps (get_borrow_limit cfg i x)"
  unfolding should_liquidate_def get_borrow_limit_def by (auto intro!: keeps_intros)

lemma keeps_ok: "keeps m \<Longrightarrow> m s = (Inr x, t) \<longleftrightarrow> fst (m s) = Inr x \<and> t = s"
  by (metis fst_conv keeps_def prod.collapse snd_conv)

text \<open>What an account owes, its collateral and their values, as functions of the state.\<close>

abbreviation collateral_at where
  "collateral_at s i x \<equiv> (case AccountCollateral s (i, x) of None \<Rightarrow> 0 | Some n \<Rightarrow> n)"

abbreviation owed_at where
  "owed_at cfg i x s \<equiv> fst (borrow_balance_current cfg i x s)"

abbreviation amount_of where
  "amount_of owed \<equiv> (case owed of None \<Rightarrow> 0 | Some n \<Rightarrow> n)"

lemma borrow_balance_current_ok [ok_simps]:
  "borrow_balance_current cfg i x s = (Inr v, t) \<longleftrightarrow> owed_at cfg i x s = Inr v \<and> t = s"
  by (rule keeps_ok [OF keeps_borrow_balance_current])

lemma collateral_of_account_ok [ok_simps]:
  "collateral_of_account i x s = (Inr n, t) \<longleftrightarrow> AccountCollateral s (i, x) = Some n \<and> t = s"
  by (auto simp: collateral_of_account_def ok_simps)

text \<open>The part of the state an account's debt depends on.\<close>

lemma owed_at_cong:
  assumes "DebtMarkets t i = DebtMarkets s i" "DebtIndex t (i, x) = DebtIndex s (i, x)" "BorrowIndex t i = BorrowIndex s i"
    "\<And>a. h_balance_on_hold (LHolds cfg) a x (lending_currency t) = h_balance_on_hold (LHolds cfg) a x (lending_currency s)"
  shows "owed_at cfg i x t = owed_at cfg i x s"
  using assms
  by (simp add: borrow_balance_current_def get_borrow_index_def call_eval split: option.split sum.split)

section \<open>Values and the collateral factor\<close>

lemma saturating_lift:
  assumes "exact_fixed F"
  shows "saturating_from_integer F n = min u128_max (n * fixed_div)"
  using exact_fixedD(3) [OF assms] by (simp add: saturating_from_integer_def fits_def)

lemma safe_position:
  assumes "exact_fixed F" "borrower_should_liquidate F (borrower_data_new F v d f w) = Inr False" "fixed_div < f"
  shows "d * f \<le> v * fixed_div"
proof (cases "d = 0")
  case False
  let ?v = "min u128_max (v * fixed_div)" and ?d = "min u128_max (d * fixed_div)"
  have pos: "0 < ?d" using False by (simp add: u128_max_def)
  have ratio: "f \<le> ?v * fixed_div div ?d"
    using assms(2) pos exact_fixedD(2) [OF assms(1) pos, of ?v]
    by (auto simp: borrower_should_liquidate_def borrower_data_new_def current_collateral_ratio_def saturating_lift [OF assms(1)]
        fx_safe_div_def fits_def not_less split: if_splits)
  have "d * fixed_div \<le> u128_max"
  proof (rule ccontr)
    assume "\<not> d * fixed_div \<le> u128_max"
    then have "?d = u128_max" by simp
    then have "?v * fixed_div div ?d \<le> fixed_div"
      using div_le_mono [OF mult_le_mono1 [of ?v u128_max fixed_div], of u128_max] by (simp add: u128_max_def)
    then show False using ratio assms(3) by linarith
  qed
  then have "f * (d * fixed_div) \<le> ?v * fixed_div"
    using ratio pos by (simp add: less_eq_div_iff_mult_less_eq)
  then have "f * d \<le> ?v" by (simp flip: mult.assoc)
  then show ?thesis by (simp add: mult.commute)
qed simp

lemma limited_borrow:
  assumes "exact_rates F" "borrow_for_collateral F (borrower_data_new F v d f w) = Inr m"
    "fx_mul_int F u64_max m 1 = Some l" "p \<le> l" "0 < p"
  shows "(p + d) * f \<le> v * fixed_div"
proof -
  note X = exact_ratesD(1) [OF assms(1)]
  let ?v = "min u128_max (v * fixed_div)" and ?d = "min u128_max (d * fixed_div)"
  have "l = m div fixed_div" using assms(3) by (simp add: exact_ratesD(3) [OF assms(1)] split: if_splits)
  then have "p * fixed_div \<le> m" using assms(4) by (simp add: less_eq_div_iff_mult_less_eq)
  moreover have f: "0 < f" "m = ?v * fixed_div div f - ?d" "?v * fixed_div div f \<le> u128_max"
    using assms(2) exact_fixedD(2) [OF X, of f ?v]
    by (auto simp: borrow_for_collateral_def borrower_data_new_def fx_safe_div_def saturating_lift [OF X] fits_def
        saturating_sub_def split: if_splits option.splits sum.splits)
  ultimately have le: "p * fixed_div + ?d \<le> ?v * fixed_div div f" using assms(5) by (simp add: fixed_div_def)
  have "?d = d * fixed_div"
    using le f(3) assms(5) by (auto simp: min_def fixed_div_def split: if_splits)
  then have "(p + d) * fixed_div \<le> ?v * fixed_div div f" using le by (simp add: distrib_right)
  then have "(p + d) * fixed_div * f \<le> ?v * fixed_div" using f(1) by (simp add: less_eq_div_iff_mult_less_eq)
  then have "(p + d) * f * fixed_div \<le> ?v * fixed_div" by (simp add: ac_simps)
  then have "(p + d) * f \<le> ?v" by simp
  then show ?thesis by simp
qed

section \<open>The interface the markets rely on\<close>

text \<open>
  The currency of the pallet is that of the vaults and keeps holds; the native currency is the asset
  \<open>nid\<close> of it; the fixed-point arithmetic is exact.
\<close>

locale lending_market = holding_currency "LCurrency cfg" "LHolds cfg" for cfg :: "('c, 'o, 'l) lending_config" +
  fixes nid :: asset_id
  assumes same_currency: "VCurrency (LVault cfg) = LCurrency cfg"
    and rates: "exact_rates (LRates cfg)"
    and native_balance:
      "n_transfer (LNative cfg) x y n k c = (Inr m, d) \<Longrightarrow> b \<noteq> nid \<Longrightarrow> f_balance (LCurrency cfg) b z d = f_balance (LCurrency cfg) b z c"
    and native_held:
      "n_transfer (LNative cfg) x y n k c = (Inr m, d) \<Longrightarrow> h_balance_on_hold (LHolds cfg) b z d = h_balance_on_hold (LHolds cfg) b z c"
begin

lemma currency_ok:
  "on_lending_currency m s = (Inr r, t) \<longleftrightarrow>
     (\<exists>c. m (lending_currency s) = (Inr r, c) \<and> t = s\<lparr>lending_vaults := (lending_vaults s)\<lparr>vault_currency := c\<rparr>\<rparr>)"
  by (auto simp: on_lending_currency_def on_vaults_def on_currency_def ok_simps)

text \<open>A successful withdrawal of collateral.\<close>

lemma withdraw_effect:
  assumes run: "lending_withdraw_collateral cfg i x n s = (Inr (), t)" and m: "Markets s i = Some market"
  shows "\<exists>info owed d v. Vaults (lending_vaults s) (market_borrow market) = Some info \<and> owed_at cfg i x s = Inr owed
     \<and> po_get_price (LOracle cfg) (vault_asset_id info) (amount_of owed) (lending_oracle s) = Inr d
     \<and> po_get_price (LOracle cfg) (market_collateral market) (collateral_at s i x - n) (lending_oracle s) = Inr v
     \<and> borrower_should_liquidate (LRates cfg) (borrower_data_new (LRates cfg) v d (market_collateral_factor market) (market_warn_percent market)) = Inr False
     \<and> n \<le> collateral_at s i x
     \<and> (\<exists>k c. f_transfer (LCurrency cfg) (market_collateral market) (market_account cfg i) x n True (lending_currency s) = (Inr k, c)
         \<and> t = s\<lparr>AccountCollateral := (AccountCollateral s)((i, x) \<mapsto> collateral_at s i x - n),
                 lending_vaults := (lending_vaults s)\<lparr>vault_currency := c\<rparr>\<rparr>)"
proof -
  from run obtain info owed d left v u k c where
    "Vaults (lending_vaults s) (market_borrow market) = Some info" "owed_at cfg i x s = Inr owed"
    "po_get_price (LOracle cfg) (vault_asset_id info) (amount_of owed) (lending_oracle s) = Inr d"
    "safe_sub (collateral_at s i x) n = Inr left"
    "po_get_price (LOracle cfg) (market_collateral market) left (lending_oracle s) = Inr v"
    "borrower_should_liquidate (LRates cfg) (borrower_data_new (LRates cfg) v d (market_collateral_factor market) (market_warn_percent market)) = Inr False"
    "checked_sub (collateral_at s i x) n = Some u"
    "f_transfer (LCurrency cfg) (market_collateral market) (market_account cfg i) x n True (lending_currency s) = (Inr k, c)"
    "t = s\<lparr>AccountCollateral := (AccountCollateral s)((i, x) \<mapsto> u), lending_vaults := (lending_vaults s)\<lparr>vault_currency := c\<rparr>\<rparr>"
    unfolding lending_withdraw_collateral_def ok_simps currency_ok using m by force
  then show ?thesis by (auto simp: safe_sub_ok checked_sub_def split: if_splits)
qed

lemma deposit_effect:
  assumes run: "lending_deposit_collateral cfg i x n s = (Inr (), t)" and m: "Markets s i = Some market"
  shows "\<exists>k c. f_transfer (LCurrency cfg) (market_collateral market) x (market_account cfg i) n True (lending_currency s) = (Inr k, c)
         \<and> t = s\<lparr>AccountCollateral := (AccountCollateral s)((i, x) \<mapsto> collateral_at s i x + n),
                 lending_vaults := (lending_vaults s)\<lparr>vault_currency := c\<rparr>\<rparr>"
  using assms by (auto simp: lending_deposit_collateral_def ok_simps currency_ok checked_add_def split: if_splits)

lemma withdraw_safe:
  assumes run: "withdraw_collateral cfg (SignedOrigin x) i n s = (Inr u, t)" and m: "Markets s i = Some market"
    and factor: "fixed_div < market_collateral_factor market"
  shows "n \<le> collateral_at s i x \<and> AccountCollateral t = (AccountCollateral s)((i, x) \<mapsto> collateral_at s i x - n)
     \<and> balances (LCurrency cfg) (lending_currency t) =
         moved (market_collateral market) (market_account cfg i) x n (balances (LCurrency cfg) (lending_currency s))
     \<and> fst (should_liquidate cfg i x t) = Inr False
     \<and> (\<exists>info owed d v. Vaults (lending_vaults t) (market_borrow market) = Some info \<and> owed_at cfg i x t = Inr owed
          \<and> po_get_price (LOracle cfg) (vault_asset_id info) (amount_of owed) (lending_oracle t) = Inr d
          \<and> po_get_price (LOracle cfg) (market_collateral market) (collateral_at t i x) (lending_oracle t) = Inr v
          \<and> d * market_collateral_factor market \<le> v * fixed_div)"
proof -
  obtain t' where run': "lending_withdraw_collateral cfg i x n s = (Inr (), t')"
    and t': "t = t'\<lparr>lending_events := lending_events t' @ [CollateralWithdrawn x i n]\<rparr>"
    using run by (auto simp: withdraw_collateral_def ok_simps lending_deposit_event_def)
  obtain info owed d v k c where e: "Vaults (lending_vaults s) (market_borrow market) = Some info" "owed_at cfg i x s = Inr owed"
    "po_get_price (LOracle cfg) (vault_asset_id info) (amount_of owed) (lending_oracle s) = Inr d"
    "po_get_price (LOracle cfg) (market_collateral market) (collateral_at s i x - n) (lending_oracle s) = Inr v"
    "borrower_should_liquidate (LRates cfg) (borrower_data_new (LRates cfg) v d (market_collateral_factor market) (market_warn_percent market)) = Inr False"
    "n \<le> collateral_at s i x"
    and tr: "f_transfer (LCurrency cfg) (market_collateral market) (market_account cfg i) x n True (lending_currency s) = (Inr k, c)"
    and t: "t' = s\<lparr>AccountCollateral := (AccountCollateral s)((i, x) \<mapsto> collateral_at s i x - n),
                 lending_vaults := (lending_vaults s)\<lparr>vault_currency := c\<rparr>\<rparr>"
    using withdraw_effect [OF run' m] by blast
  have owed: "owed_at cfg i x t = Inr owed"
    using e(2) owed_at_cong [of t i s x cfg] transfer_holds [OF tr] t t' by simp
  have "create_borrower_data cfg i x t =
      (Inr (borrower_data_new (LRates cfg) v d (market_collateral_factor market) (market_warn_percent market)), t)"
    using e m t t' owed by (auto simp: create_borrower_data_def ok_simps)
  then have "fst (should_liquidate cfg i x t) = Inr False"
    using e(5) by (simp add: should_liquidate_def call_eval)
  moreover have "d * market_collateral_factor market \<le> v * fixed_div"
    by (rule safe_position [OF exact_ratesD(1) [OF rates] e(5) factor])
  moreover have "balances (LCurrency cfg) c = moved (market_collateral market) (market_account cfg i) x n (balances (LCurrency cfg) (lending_currency s))"
    using transfer_balances [OF tr] by simp
  ultimately show ?thesis using e owed t t' by auto
qed

text \<open>The checks of a loan.\<close>

lemma get_borrow_limit_ok:
  "get_borrow_limit cfg i x s = (Inr l, t) \<longleftrightarrow> fst (get_borrow_limit cfg i x s) = Inr l \<and> t = s"
  by (rule keeps_ok [OF keeps_should_liquidate(2)])

lemma borrow_limit_covers:
  assumes "fst (get_borrow_limit cfg i x s) = Inr l" "Markets s i = Some market" "p \<le> l" "0 < p"
  shows "\<exists>info owed d v. Vaults (lending_vaults s) (market_borrow market) = Some info \<and> owed_at cfg i x s = Inr owed
     \<and> po_get_price (LOracle cfg) (vault_asset_id info) (amount_of owed) (lending_oracle s) = Inr d
     \<and> po_get_price (LOracle cfg) (market_collateral market) (collateral_at s i x) (lending_oracle s) = Inr v
     \<and> (p + d) * market_collateral_factor market \<le> v * fixed_div"
proof -
  have run: "get_borrow_limit cfg i x s = (Inr l, s)" using assms(1) get_borrow_limit_ok by blast
  then obtain b m where b: "create_borrower_data cfg i x s = (Inr b, s)" "borrow_for_collateral (LRates cfg) b = Inr m"
    "fx_mul_int (LRates cfg) u64_max m 1 = Some l"
    using assms(3,4) keeps_ok [OF keeps_create_borrower_data, of cfg i x s]
    by (auto simp: get_borrow_limit_def ok_simps split: if_splits)
  from b(1) assms(2) obtain n info owed d v where
    "AccountCollateral s (i, x) = Some n" "po_get_price (LOracle cfg) (market_collateral market) n (lending_oracle s) = Inr v"
    "Vaults (lending_vaults s) (market_borrow market) = Some info" "owed_at cfg i x s = Inr owed"
    "po_get_price (LOracle cfg) (vault_asset_id info) (amount_of owed) (lending_oracle s) = Inr d"
    "b = borrower_data_new (LRates cfg) v d (market_collateral_factor market) (market_warn_percent market)"
    unfolding create_borrower_data_def ok_simps by force
  with limited_borrow [OF rates, of v d _ _ m l p] b assms(3,4) show ?thesis by auto
qed

lemma can_borrow_limit:
  assumes "can_borrow cfg i x n market acc s = (Inr u, t)"
  shows "t = s \<and> (\<exists>info p l. Vaults (lending_vaults s) (market_borrow market) = Some info
      \<and> po_get_price (LOracle cfg) (vault_asset_id info) n (lending_oracle s) = Inr p
      \<and> fst (get_borrow_limit cfg i x s) = Inr l \<and> p \<le> l)"
proof -
  have "keeps (on_vaults (available_funds (LVault cfg) v a))" for v a
    by (auto simp: keeps_def on_vaults_def available_funds_def assets_under_management_def get_vault_info_def call_eval Let_def
        split: option.split prod.split)
  then have "on_vaults (available_funds (LVault cfg) v a) s = (Inr f, t) \<Longrightarrow> t = s" for v a f s t
    by (rule keepsD)
  then show ?thesis
    using assms unfolding can_borrow_def ok_simps get_borrow_limit_ok by blast
qed

lemma take_rent_effect:
  assumes "take_rent cfg i x acc s = (Inr u, t)"
  shows "\<exists>c rents. t = s\<lparr>lending_vaults := (lending_vaults s)\<lparr>vault_currency := c\<rparr>, BorrowRent := rents\<rparr>
    \<and> (\<forall>b z. b \<noteq> nid \<longrightarrow> f_balance (LCurrency cfg) b z c = f_balance (LCurrency cfg) b z (lending_currency s))
    \<and> (\<forall>b z. h_balance_on_hold (LHolds cfg) b z c = h_balance_on_hold (LHolds cfg) b z (lending_currency s))"
proof (cases "BorrowRent s (i, x)")
  case None
  then obtain c m where "n_transfer (LNative cfg) x acc (LiquidateFee cfg 2) True (lending_currency s) = (Inr m, c)"
    "t = s\<lparr>lending_vaults := (lending_vaults s)\<lparr>vault_currency := c\<rparr>, BorrowRent := (BorrowRent s)((i, x) \<mapsto> LiquidateFee cfg 2)\<rparr>"
    using assms by (auto simp: take_rent_def ok_simps currency_ok Let_def)
  then show ?thesis using native_balance native_held by blast
next
  case (Some r)
  then have "t = s\<lparr>lending_vaults := (lending_vaults s)\<lparr>vault_currency := lending_currency s\<rparr>, BorrowRent := BorrowRent s\<rparr>"
    using assms by (simp add: take_rent_def ok_simps)
  then show ?thesis by blast
qed

lemma updated_index_keeps: "updated_account_interest_index cfg i x n a s = (Inr idx, t) \<Longrightarrow> t = s"
  by (auto simp: updated_account_interest_index_def ok_simps)

lemma borrow_effect:
  assumes run: "lending_borrow cfg i x n s = (Inr (), t)" and m: "Markets s i = Some market"
  shows "\<exists>info p l idx c. Vaults (lending_vaults s) (market_borrow market) = Some info
      \<and> po_get_price (LOracle cfg) (vault_asset_id info) n (lending_oracle s) = Inr p
      \<and> fst (get_borrow_limit cfg i x s) = Inr l \<and> p \<le> l
      \<and> (\<forall>b z. b \<noteq> nid \<longrightarrow> f_balance (LCurrency cfg) b z c =
           moved (vault_asset_id info) (market_account cfg i) x n
             (credited (debt_asset cfg i s) x n (balances (LCurrency cfg) (lending_currency s))) b z)
      \<and> (\<forall>b z. h_balance_on_hold (LHolds cfg) b z c
           = h_balance_on_hold (LHolds cfg) b z (lending_currency s) + only (debt_asset cfg i s) x n b z)
      \<and> (\<exists>rents. t = s\<lparr>DebtIndex := (DebtIndex s)((i, x) \<mapsto> idx), BorrowTimestamp := (BorrowTimestamp s)((i, x) \<mapsto> LastBlockTimestamp s),
            lending_vaults := (lending_vaults s)\<lparr>vault_currency := c\<rparr>, BorrowRent := rents\<rparr>)"
proof -
  let ?b = "balances (LCurrency cfg)" and ?c = "lending_currency s" and ?acc = "market_account cfg i"
  from run m obtain info u s1 idx s2 c1 c2 c3 k where i: "Vaults (lending_vaults s) (market_borrow market) = Some info"
    and can: "can_borrow cfg i x n market ?acc s = (Inr u, s1)"
    and idx: "updated_account_interest_index cfg i x n (debt_asset cfg i s1) s1 = (Inr idx, s2)"
    and mint: "f_mint_into (LCurrency cfg) (debt_asset cfg i s1) x n (lending_currency s2) = (Inr (), c1)"
    and hold: "h_hold (LHolds cfg) (debt_asset cfg i s1) x n c1 = (Inr (), c2)"
    and tr: "f_transfer (LCurrency cfg) (vault_asset_id info) ?acc x n True c2 = (Inr k, c3)"
    and rent: "take_rent cfg i x ?acc (s2\<lparr>lending_vaults := (lending_vaults s2)\<lparr>vault_currency := c3\<rparr>,
            DebtIndex := (DebtIndex s2)((i, x) \<mapsto> idx), BorrowTimestamp := (BorrowTimestamp s2)((i, x) \<mapsto> LastBlockTimestamp s2)\<rparr>) = (Inr (), t)"
    unfolding lending_borrow_def ok_simps Let_def currency_ok by force
  have s: "s1 = s" "s2 = s" using can_borrow_limit [OF can] updated_index_keeps [OF idx] by simp_all
  obtain c rents where t: "t = s\<lparr>DebtIndex := (DebtIndex s)((i, x) \<mapsto> idx), BorrowTimestamp := (BorrowTimestamp s)((i, x) \<mapsto> LastBlockTimestamp s),
            lending_vaults := (lending_vaults s)\<lparr>vault_currency := c\<rparr>, BorrowRent := rents\<rparr>"
    and rest: "\<forall>b z. b \<noteq> nid \<longrightarrow> f_balance (LCurrency cfg) b z c = ?b c3 b z"
      "\<forall>b z. h_balance_on_hold (LHolds cfg) b z c = h_balance_on_hold (LHolds cfg) b z c3"
    using take_rent_effect [OF rent] by (auto simp: s balances_def)
  have "?b c3 = moved (vault_asset_id info) ?acc x n (credited (debt_asset cfg i s) x n (?b ?c))"
    using transfer_balances [OF tr] hold_keeps [OF hold] mint_balances [OF mint] s by simp
  moreover have "h_balance_on_hold (LHolds cfg) b z c3 = h_balance_on_hold (LHolds cfg) b z ?c + only (debt_asset cfg i s) x n b z" for b z
    using hold_held [OF hold, of b z] mint_holds [OF mint, of b z] transfer_holds [OF tr, of b z] s by simp
  moreover obtain p l where "po_get_price (LOracle cfg) (vault_asset_id info) n (lending_oracle s) = Inr p"
    "fst (get_borrow_limit cfg i x s) = Inr l" "p \<le> l"
    using can_borrow_limit [OF can] i by auto
  ultimately show ?thesis
    by (intro exI [of _ info] exI [of _ p] exI [of _ l] exI [of _ idx] exI [of _ c] conjI exI [of _ rents])
      (use i t rest in simp_all)
qed

text \<open>Interest.\<close>

lemma accrue_internal_ok:
  assumes "accrue_interest_internal cfg u model idx dt borrows = Inr (accrued, idx')" "dt \<le> u64_max"
  shows "\<exists>rate. fst (get_borrow_rate (LRates cfg) model u) = Inr (Some rate)
     \<and> idx' = rate * idx div fixed_div * dt div SECONDS_PER_YEAR_NAIVE + idx
     \<and> accrued = borrows * (rate * dt div SECONDS_PER_YEAR_NAIVE) div fixed_div"
proof -
  note X = exact_ratesD(1) [OF rates]
  obtain rate delta tf acc where r: "fst (get_borrow_rate (LRates cfg) model u) = Inr (Some rate)"
    and i: "increment_index (LRates cfg) rate idx dt = Inr idx'"
    and d: "increment_borrow_rate (LRates cfg) rate dt = Inr delta"
    and f: "fx_from_integer (LRates cfg) borrows = Some tf"
    and m: "fx_safe_mul (LRates cfg) tf delta = Inr acc" "accrued = acc div fixed_div"
    using assms(1) by (auto simp: accrue_interest_internal_def Let_def split: sum.splits option.splits if_splits)
  have "delta = rate * dt div SECONDS_PER_YEAR_NAIVE"
    using d increment_borrow_rate_value [OF X assms(2), of rate] by (simp split: if_splits)
  moreover have "tf = borrows * fixed_div" using f exact_fixedD(3) [OF X] by (simp add: fits_def split: if_splits)
  moreover have "acc = tf * delta div fixed_div"
    using m(1) exact_fixedD(1) [OF X] by (simp add: fx_safe_mul_def fits_def split: if_splits)
  moreover have "borrows * fixed_div * delta div fixed_div = borrows * delta" by (simp add: mult.commute mult.left_commute)
  ultimately show ?thesis using r m(2) i increment_index_ok [OF X assms(2)] by auto
qed

lemma accrue_effect:
  assumes "accrue_interest cfg i now s = (Inr (), t)" "now \<le> u64_max" and tb: "total_borrows cfg i s = (Inr borrows, s)"
  shows "\<exists>market cash u rate idx c. Markets s i = Some market \<and> total_cash cfg i s = (Inr cash, s)
     \<and> lending_utilization cfg cash borrows = Inr u
     \<and> fst (get_borrow_rate (LRates cfg) (market_rate_model market) u) = Inr (Some rate)
     \<and> LastBlockTimestamp s \<le> now \<and> BorrowIndex s i = Some idx
     \<and> f_mint_into (LCurrency cfg) (debt_asset cfg i s) (market_account cfg i)
         (borrows * (rate * (now - LastBlockTimestamp s) div SECONDS_PER_YEAR_NAIVE) div fixed_div) (lending_currency s) = (Inr (), c)
     \<and> t = s\<lparr>BorrowIndex := (BorrowIndex s)(i \<mapsto>
                rate * idx div fixed_div * (now - LastBlockTimestamp s) div SECONDS_PER_YEAR_NAIVE + idx),
             lending_vaults := (lending_vaults s)\<lparr>vault_currency := c\<rparr>\<rparr>"
proof -
  have cash: "total_cash cfg i s = (Inr n, t) \<Longrightarrow> t = s" for n t by (auto simp: total_cash_def ok_simps)
  from assms(1) obtain cash s1 u market dt idx accrued idx' c where run: "total_cash cfg i s = (Inr cash, s1)"
    "lending_utilization cfg cash borrows = Inr u" "Markets s1 i = Some market" "checked_sub now (LastBlockTimestamp s1) = Some dt"
    "BorrowIndex s1 i = Some idx" "accrue_interest_internal cfg u (market_rate_model market) idx dt borrows = Inr (accrued, idx')"
    "f_mint_into (LCurrency cfg) (debt_asset cfg i s1) (market_account cfg i) accrued (lending_currency s1) = (Inr (), c)"
    "t = s1\<lparr>BorrowIndex := (BorrowIndex s1)(i \<mapsto> idx'), lending_vaults := (lending_vaults s1)\<lparr>vault_currency := c\<rparr>\<rparr>"
    using tb unfolding accrue_interest_def ok_simps currency_ok by force
  have "s1 = s" using cash [OF run(1)] .
  moreover have "dt = now - LastBlockTimestamp s1" "LastBlockTimestamp s1 \<le> now"
    using run(4) by (auto simp: checked_sub_def split: if_splits)
  ultimately show ?thesis
    using run accrue_internal_ok [OF run(6)] assms(2) by fastforce
qed

end

section \<open>The start of a block\<close>

text \<open>What the start of a block leaves alone; the index of a market does not fall.\<close>

definition accrued_frame :: "('c, 'o, 'l) lending \<Rightarrow> ('c, 'o, 'l) lending \<Rightarrow> bool" where
  "accrued_frame s t \<longleftrightarrow>
     Markets t = Markets s \<and> DebtMarkets t = DebtMarkets s \<and> DebtIndex t = DebtIndex s \<and> BorrowTimestamp t = BorrowTimestamp s
     \<and> BorrowRent t = BorrowRent s \<and> AccountCollateral t = AccountCollateral s \<and> LendingCount t = LendingCount s
     \<and> lending_oracle t = lending_oracle s \<and> lending_now t = lending_now s \<and> LastBlockTimestamp t = LastBlockTimestamp s
     \<and> (\<forall>i idx. BorrowIndex s i = Some idx \<longrightarrow> (\<exists>idx' \<ge> idx. BorrowIndex t i = Some idx'))"

lemma accrued_frame_refl: "accrued_frame s s"
  by (auto simp: accrued_frame_def)

lemma accrued_frame_vaults: "accrued_frame s t \<Longrightarrow> accrued_frame s (t\<lparr>lending_vaults := v\<rparr>)"
  by (simp add: accrued_frame_def)

lemma accrued_frame_index:
  assumes "accrued_frame s t" "BorrowIndex t i = Some idx" "idx \<le> idx'"
  shows "accrued_frame s (t\<lparr>BorrowIndex := (BorrowIndex t)(i \<mapsto> idx')\<rparr>)"
  using assms unfolding accrued_frame_def by (auto simp del: fun_upd_apply) (metis fun_upd_apply option.inject order_trans)

lemma wp_on_vaults_frame:
  "accrued_frame s0 s \<Longrightarrow> (\<And>x t. accrued_frame s0 t \<Longrightarrow> Q x t) \<Longrightarrow> (\<And>e t. accrued_frame s0 t \<Longrightarrow> E e t) \<Longrightarrow> wp (on_vaults m) Q E s"
  by (simp add: on_vaults_def wp_simps wp_any accrued_frame_vaults)

lemma keeps_total_cash [keeps_intros]: "keeps (total_cash cfg i)"
  unfolding total_cash_def by (intro keeps_intros)

lemma collect_results_inv:
  assumes "\<And>m s. m \<in> set ms \<Longrightarrow> I s \<Longrightarrow> I (snd (m s))" "I s"
  shows "I (snd (collect_results ms s))"
  using assms
proof (induction ms arbitrary: s)
  case (Cons m ms)
  have m: "I (snd (m s))" using Cons.prems by simp
  obtain r t where r: "m s = (r, t)" by fastforce
  have "I (snd (collect_results ms t))" using Cons m r by simp
  then show ?case
    using m r by (cases "collect_results ms t") (auto split: sum.splits dispatch_error.splits)
qed simp

lemma collect_results_error: "collect_results ms s = (Inl e, t) \<Longrightarrow> \<exists>p. e = Panic p"
  by (induction ms arbitrary: s) (auto split: prod.splits sum.splits dispatch_error.splits)

context lending_market
begin

lemma accrue_frame:
  assumes s: "accrued_frame s0 s" and now: "now \<le> u64_max"
  shows "accrued_frame s0 (snd (accrue_interest cfg i now s))"
proof -
  have step: "accrued_frame s0 (s\<lparr>BorrowIndex := (BorrowIndex s)(i \<mapsto> idx')\<rparr>)"
    if "BorrowIndex s i = Some idx" "accrue_interest_internal cfg u m idx dt b = Inr (k, idx')" "dt \<le> u64_max" for idx idx' u m dt b k
    using accrued_frame_index [OF s that(1)] accrue_internal_ok [OF that(2,3)] by auto
  show ?thesis
    unfolding accrue_interest_def wp_state [symmetric] on_lending_currency_def
    using s now
    by (auto simp: wp_simps total_borrows_def checked_sub_def get_borrow_index_def Let_def intro!: wp_keeps [OF keeps_total_cash]
        wp_keeps [OF keeps_reading(1)] wp_on_vaults_frame step split: sum.splits option.splits)
qed

lemma initialize_market_frame:
  assumes s: "accrued_frame s0 (snd s)" and now: "now \<le> u64_max"
  shows "accrued_frame s0 (snd (snd (initialize_market cfg now i config s)))"
proof -
  have acc: "wp (accrue_interest cfg i now) Q E t" if "accrued_frame s0 t" "\<And>x t. accrued_frame s0 t \<Longrightarrow> Q x t" "\<And>e t. accrued_frame s0 t \<Longrightarrow> E e t" for Q E t
    using accrue_frame [OF that(1) now, of i] that(2,3) by (cases "accrue_interest cfg i now t") (auto simp: wp_def split: sum.split)
  have funds: "wp (case f of Withdrawable n \<Rightarrow> a n | Depositable n \<Rightarrow> b n | MustLiquidate \<Rightarrow> m) Q E t
      = (case f of Withdrawable n \<Rightarrow> wp (a n) Q E t | Depositable n \<Rightarrow> wp (b n) Q E t | MustLiquidate \<Rightarrow> wp m Q E t)" for f a b m Q E t
    by (cases f) simp_all
  have "wp (initialize_market cfg now i config) (\<lambda>_ t. accrued_frame s0 (snd t)) (\<lambda>_ t. accrued_frame s0 (snd t)) s"
    unfolding initialize_market_def
    using s
    by (auto simp: wp_simps counted_def in_storage_def funds lending_available_funds_def handle_withdrawable_def handle_depositable_def
        handle_must_liquidate_def Let_def case_prod_beta intro!: acc wp_on_vaults_frame split: funds_availability.split)
  then show ?thesis by (simp add: wp_state [of "initialize_market cfg now i config" "\<lambda>t. accrued_frame s0 (snd t)"])
qed

lemma market_accrues:
  assumes "initialize_market cfg now i config (c, s) = (Inr (), (c', t))"
  obtains s1 where "accrue_interest cfg i now s = (Inr (), s1)" "BorrowIndex t = BorrowIndex s1"
proof -
  obtain s1 where s1: "accrue_interest cfg i now s = (Inr (), s1)"
    using assms by (auto simp: initialize_market_def ok_simps counted_def in_storage_def zoom_def split: prod.splits)
  have "wp (initialize_market cfg now i config) (\<lambda>_ t. BorrowIndex (snd t) = BorrowIndex s1) (\<lambda>_ _. True) (c, s)"
    unfolding initialize_market_def on_vaults_def lending_available_funds_def handle_withdrawable_def handle_depositable_def handle_must_liquidate_def
    using s1 by (auto simp: wp_def call_eval counted_def in_storage_def Let_def split: prod.split sum.split funds_availability.split)
  then show thesis using that [OF s1] assms by (simp add: wp_def)
qed

lemma accrue_index_other:
  assumes "accrue_interest cfg i now s = (Inr (), t)" "now \<le> u64_max" "j \<noteq> i"
  shows "BorrowIndex t j = BorrowIndex s j"
proof -
  obtain borrows where "total_borrows cfg i s = (Inr borrows, s)" by (simp add: total_borrows_def call_eval)
  from accrue_effect [OF assms(1,2) this] show ?thesis using assms(3) by auto
qed

text \<open>Each market of the list accrues interest once, on the index it had before the block.\<close>

lemma markets_accrue:
  assumes "for_each ms (\<lambda>(i, config). initialize_market cfg now i config) (c, s) = (Inr (), (c', t))"
    and "distinct (map fst ms)" "accrued_frame s0 s" and now: "now \<le> u64_max"
  shows "accrued_frame s0 t \<and> (\<forall>i. i \<notin> fst ` set ms \<longrightarrow> BorrowIndex t i = BorrowIndex s i)
    \<and> (\<forall>i \<in> fst ` set ms. \<exists>s1 s2. accrued_frame s0 s1 \<and> BorrowIndex s1 i = BorrowIndex s i
         \<and> accrue_interest cfg i now s1 = (Inr (), s2) \<and> BorrowIndex t i = BorrowIndex s2 i)"
  using assms(1-3)
proof (induction ms arbitrary: c s)
  case (Cons m ms)
  obtain j config where m: "m = (j, config)" by (cases m)
  obtain c1 u where one: "initialize_market cfg now j config (c, s) = (Inr (), (c1, u))"
    and rest: "for_each ms (\<lambda>(i, config). initialize_market cfg now i config) (c1, u) = (Inr (), (c', t))"
    using Cons.prems(1) by (auto simp: m ok_thenM)
  obtain s1 where s1: "accrue_interest cfg j now s = (Inr (), s1)" "BorrowIndex u = BorrowIndex s1" by (rule market_accrues [OF one])
  have u: "accrued_frame s0 u" using initialize_market_frame [of s0 "(c, s)" now j config] Cons.prems(3) now one by simp
  have other: "BorrowIndex u i = BorrowIndex s i" if "i \<noteq> j" for i
    using accrue_index_other [OF s1(1) now that] s1(2) by simp
  have new: "j \<notin> fst ` set ms" using Cons.prems(2) m by simp
  note IH = Cons.IH [OF rest _ u]
  have "\<exists>s1 s2. accrued_frame s0 s1 \<and> BorrowIndex s1 j = BorrowIndex s j \<and> accrue_interest cfg j now s1 = (Inr (), s2)
      \<and> BorrowIndex t j = BorrowIndex s2 j"
    using IH new Cons.prems(2,3) s1 m by (intro exI [of _ s] exI [of _ s1]) simp
  moreover have "\<exists>s1 s2. accrued_frame s0 s1 \<and> BorrowIndex s1 i = BorrowIndex s i \<and> accrue_interest cfg i now s1 = (Inr (), s2)
      \<and> BorrowIndex t i = BorrowIndex s2 i" if "i \<in> fst ` set ms" for i
  proof -
    have "BorrowIndex u i = BorrowIndex s i" using that new by (intro other) auto
    moreover have "\<exists>s1 s2. accrued_frame s0 s1 \<and> BorrowIndex s1 i = BorrowIndex u i \<and> accrue_interest cfg i now s1 = (Inr (), s2)
        \<and> BorrowIndex t i = BorrowIndex s2 i"
      using IH [THEN conjunct2, THEN conjunct2, THEN bspec, OF _ that] Cons.prems(2) m by simp
    ultimately show ?thesis by simp
  qed
  moreover have "accrued_frame s0 t" "i \<notin> fst ` set (m # ms) \<Longrightarrow> BorrowIndex t i = BorrowIndex s i" for i
    using IH other Cons.prems(2) m by simp_all
  ultimately show ?case unfolding m by simp
qed (simp add: ret_def)

end

text \<open>Running all markets and collecting the errors, against stopping at the first one.\<close>

lemma collect_for_each:
  assumes "collect_results (map f ms) p = (Inr es, q)"
  shows "if es = [] then for_each ms f p = (Inr (), q) else \<exists>e p'. for_each ms f p = (Inl e, p')"
  using assms
proof (induction ms arbitrary: p es)
  case (Cons m ms)
  obtain r p1 where r: "f m p = (r, p1)" by fastforce
  show ?case
  proof (cases r)
    case (Inl e)
    then have "es \<noteq> []" using Cons.prems r by (auto split: dispatch_error.splits prod.splits sum.splits)
    then show ?thesis using r Inl by (simp add: thenM_def bindM_def)
  next
    case (Inr u)
    then have "collect_results (map f ms) p1 = (Inr es, q)" using Cons.prems r by (auto split: prod.splits sum.splits)
    then show ?thesis using Cons.IH r Inr by (simp add: thenM_def bindM_def)
  qed
qed (simp add: ret_def)

lemma initialize_block_runs:
  assumes run: "initialize_block cfg s = (r, t)" and r: "\<And>p. r \<noteq> Inl (Panic p)"
  obtains c where "r = Inr c"
    "case for_each (get_all_markets cfg s) (\<lambda>(i, config). initialize_market cfg (lending_now s) i config) (default_counters\<lparr>cnt_now := 1\<rparr>, s) of
       (Inr _, (_, u)) \<Rightarrow> t = u\<lparr>LastBlockTimestamp := lending_now s\<rparr>
     | (Inl _, _) \<Rightarrow> t = s"
proof -
  let ?f = "\<lambda>(i, config). initialize_market cfg (lending_now s) i config" and ?p = "(default_counters\<lparr>cnt_now := 1\<rparr>, s)"
  obtain res c u where cr: "collect_results (map ?f (get_all_markets cfg s)) ?p = (res, (c, u))" by (metis prod.collapse)
  show thesis
  proof (cases res)
    case (Inl e)
    then obtain p where "e = Panic p" using collect_results_error [OF cr [unfolded Inl]] by blast
    then have "r = Inl (Panic p)" using run cr Inl by (simp add: initialize_block_def Let_def)
    then show thesis using r by blast
  next
    case (Inr es)
    then show thesis
      using run cr collect_for_each [OF cr [unfolded Inr]] that [of c] by (auto simp: initialize_block_def Let_def split: if_splits)
  qed
qed

end
