(* ===== verification/Lending_Safety.thy ===== *)
theory Lending_Safety
  imports Lending_Properties Oracle_Properties
begin

text \<open>
  The properties of the lending pallet, with a market over the assets pallet, the oracle pallet and
  a vault as the instance of its interface, and the runs that show where the pallet does not do what
  it means to.
\<close>

section \<open>An instance\<close>

text \<open>
  The currencies are those of the assets pallet over ledgers with holds, the oracle is the oracle
  pallet; the liquidation engine accepts every order and leaves its state alone.
\<close>

type_synonym sample_currency = "hold_ledger \<times> hold_ledger"

definition hold_vault :: "sample_currency vault_config" where
  "hold_vault =
     \<lparr>VCurrency = assets_fungibles (assets_config.truncate hl_assets), VNativeCurrency = assets_fungible (assets_config.truncate hl_assets),
      MaxStrategies = 5, MinimumDeposit = 10, MinimumWithdrawal = 1, CreationDeposit = 20,
      ExistentialDeposit = 1000, TombstoneDuration = 42, RentPerBlock = 3,
      vault_sub_account = (\<lambda>(p, i). (if p = '''' then 1000 else if p = ''rent_account____'' then 2000 else 3000) + i),
      multiply_by_rational = reference_mul_div, mul_floor = (\<lambda>p n. p * n div 10 ^ 18),
      checked_from_rational = (\<lambda>n d. if d = 0 then None else Some (n * 10 ^ 18 div d))\<rparr>"

definition sample_lending :: "(sample_currency, lock_book oracle_state, unit) lending_config" where
  "sample_lending =
     \<lparr>LVault = hold_vault, LCurrency = assets_fungibles (assets_config.truncate hl_assets), LHolds = assets_holds hl_assets,
      LNative = assets_fungible (assets_config.truncate hl_assets), LRates = reference_rates, LOracle = pallet_oracle sample_oracle,
      LLiquidate = (\<lambda>_ _ _. ret ()), MaxLendingCount = 10, OracleMarketCreationStake = 100, LiquidateFee = (\<lambda>n. 10 * n),
      market_sub_account = (\<lambda>i. 500 + i), DefaultAsset = 0, MarketsIter = (\<lambda>m. sorted_list_of_set (dom m))\<rparr>"

interpretation lend: lending_market sample_lending 1
proof -
  have "n_transfer (assets_fungible (assets_config.truncate hl_assets)) x y n k c = (Inr m, d) \<Longrightarrow> b \<noteq> 1 \<Longrightarrow>
      f_balance (assets_fungibles (assets_config.truncate hl_assets)) b z d = f_balance (assets_fungibles (assets_config.truncate hl_assets)) b z c"
    "n_transfer (assets_fungible (assets_config.truncate hl_assets)) x y n k c = (Inr m, d) \<Longrightarrow>
      h_balance_on_hold (assets_holds hl_assets) b z d = h_balance_on_hold (assets_holds hl_assets) b z c" for x y n k c m d b z
    using hl_native.n_transfer_holds [of x y n k "fst c" m "fst d"]
    by (cases c; cases d; auto simp: assets_fungible_def native_transfer_def on_native_ok hl_assets.routing
        assets_config.truncate_def hl_assets_def)+
  then show "lending_market sample_lending 1"
    by (simp add: lending_market_def lending_market_axioms_def sample_lending_def hold_vault_def exact_reference_rates
        hl_assets.routed.holding_currency_axioms)
qed

text \<open>
  Market 1 lends asset 8 against asset 7, at half the value. Account 5 has 1000 of asset 7 as
  collateral; both assets are worth one unit of account. The market holds 10000 of asset 8.
\<close>

definition sample_market :: market_config where
  "sample_market =
     \<lparr>market_manager = 9, market_borrow = 1, market_collateral = 7, market_collateral_factor = 2 * fixed_div,
      market_rate_model = Jump \<lparr>base_rate = fixed_div * 2 div 100, jump_rate = fixed_div * 10 div 100,
        full_rate = fixed_div * 32 div 100, target_utilization = 80\<rparr>,
      market_warn_percent = 10, market_liquidators = []\<rparr>"

definition sample_funds :: sample_currency where
  "sample_funds =
     ((\<lparr>bals = (\<lambda>a x. if a = 0 \<and> (x = 5 \<or> x = 501) then 100 else 0), issued = (\<lambda>a. if a = 0 then 200 else 0)\<rparr>, \<lambda>_ _. 0),
      (\<lparr>bals = (\<lambda>a x. if (a, x) = (7, 501) then 1000 else if (a, x) = (8, 501) then 10000 else 0),
        issued = (\<lambda>a. if a = 7 then 1000 else if a = 8 then 10000 else 0)\<rparr>, \<lambda>_ _. 0))"

definition sample_loans :: "(sample_currency, lock_book oracle_state, unit) lending" where
  "sample_loans =
     \<lparr>LendingCount = 1, Markets = [1 \<mapsto> sample_market], DebtMarkets = [1 \<mapsto> 30], DebtIndex = Map.empty,
      BorrowTimestamp = Map.empty, BorrowRent = Map.empty, BorrowIndex = [1 \<mapsto> fixed_div],
      AccountCollateral = [(1, 5) \<mapsto> 1000], LastBlockTimestamp = 0, lending_events = [], lending_now = SECONDS_PER_YEAR_NAIVE,
      lending_vaults =
        \<lparr>VaultCount = 1,
         Vaults = [1 \<mapsto> \<lparr>vault_asset_id = 8, lp_token_id = 20, manager = 9, deposit = Existential, capabilities = default_capabilities\<rparr>],
         LpTokensToVaults = [20 \<mapsto> 1],
         CapitalStructure = [((1, 501), \<lparr>allocation = 10 ^ 18, strategy_balance = 10000, lifetime_withdrawn = 10000, lifetime_deposited = 0\<rparr>)],
         vault_events = [], vault_block = 1, vault_currency = sample_funds, vault_factory = factory_genesis\<rparr>,
      lending_oracle = (oracle_genesis 10 sample_money)\<lparr>Prices := (\<lambda>a. if a = 7 \<or> a = 8 then Some \<lparr>price_value = 10 ^ 12, price_block = 10\<rparr> else None)\<rparr>,
      lending_liquidations = ()\<rparr>"

text \<open>After account 5 has borrowed 400: it has the money and the debt token, and has paid the rent of 20.\<close>

definition sample_lent :: sample_currency where
  "sample_lent =
     ((\<lparr>bals = moved 0 5 501 20 (bals (fst (fst sample_funds))), issued = issued (fst (fst sample_funds))\<rparr>, \<lambda>_ _. 0),
      (\<lparr>bals = moved 8 501 5 400 (credited 30 5 400 (bals (fst (snd sample_funds)))),
        issued = (issued (fst (snd sample_funds)))(30 := 400)\<rparr>, credited 30 5 400 (\<lambda>_ _. 0)))"

definition sample_borrowed :: "(sample_currency, lock_book oracle_state, unit) lending" where
  "sample_borrowed =
     sample_loans\<lparr>DebtIndex := [(1, 5) \<mapsto> fixed_div], BorrowTimestamp := [(1, 5) \<mapsto> 0], BorrowRent := [(1, 5) \<mapsto> 20],
       lending_events := [Borrowed 5 1 400], lending_vaults := (lending_vaults sample_loans)\<lparr>vault_currency := sample_lent\<rparr>\<rparr>"

lemma sample_lending_simps [simp]:
  "LVault sample_lending = hold_vault" "LCurrency sample_lending = assets_fungibles (assets_config.truncate hl_assets)"
  "LHolds sample_lending = assets_holds hl_assets" "LNative sample_lending = assets_fungible (assets_config.truncate hl_assets)"
  "LRates sample_lending = reference_rates" "LOracle sample_lending = pallet_oracle sample_oracle"
  "LiquidateFee sample_lending n = 10 * n" "market_account sample_lending i = 500 + i" "DefaultAsset sample_lending = 0"
  "LLiquidate sample_lending = (\<lambda>_ _ _. ret ())" "MarketsIter sample_lending m = sorted_list_of_set (dom m)"
  "VCurrency hold_vault = assets_fungibles (assets_config.truncate hl_assets)"
  "account_id hold_vault i = 1000 + i" "mul_floor hold_vault p n = p * n div 10 ^ 18"
  by (simp_all add: sample_lending_def market_account_def hold_vault_def account_id_def)

text \<open>The operations of the assets pallet on the sample ledgers.\<close>

lemma sample_reads:
  "a \<noteq> 1 \<Longrightarrow> f_balance (assets_fungibles (assets_config.truncate hl_assets)) a x (N, M) = bals (fst M) a x"
  "a \<noteq> 1 \<Longrightarrow> f_total_issuance (assets_fungibles (assets_config.truncate hl_assets)) a (N, M) = issued (fst M) a"
  "a \<noteq> 1 \<Longrightarrow> f_can_withdraw (assets_fungibles (assets_config.truncate hl_assets)) a x n (N, M) = (n \<le> unheld a x M)"
  "a \<noteq> 1 \<Longrightarrow> f_reducible_balance (assets_fungibles (assets_config.truncate hl_assets)) a x k (N, M) = unheld a x M"
  "a \<noteq> 1 \<Longrightarrow> f_can_deposit (assets_fungibles (assets_config.truncate hl_assets)) a x n (N, M) = (issued (fst M) a + n \<le> u128_max)"
  "n_can_withdraw (assets_fungible (assets_config.truncate hl_assets)) x n (N, M) = (n \<le> unheld 0 x N)"
  "a \<noteq> 1 \<Longrightarrow> h_balance_on_hold (assets_holds hl_assets) a x (N, M) = snd M a x"
  by (simp_all add: assets_fungibles_def assets_fungible_def assets_holds_def assets_config.truncate_def hl_assets_def assets_ops
      can_withdraw_def can_deposit_def reducible_balance_def balance_on_hold_def hl_fungibles_def hl_fungible_def hl_holds_def)

lemma sample_writes:
  "a \<noteq> 1 \<Longrightarrow> f_transfer (assets_fungibles (assets_config.truncate hl_assets)) a x y n k (N, M) =
     (case f_transfer hl_fungibles a x y n k M of (r, M') \<Rightarrow> (r, (N, M')))"
  "a \<noteq> 1 \<Longrightarrow> f_mint_into (assets_fungibles (assets_config.truncate hl_assets)) a x n (N, M) =
     (case f_mint_into hl_fungibles a x n M of (r, M') \<Rightarrow> (r, (N, M')))"
  "a \<noteq> 1 \<Longrightarrow> f_burn_from (assets_fungibles (assets_config.truncate hl_assets)) a x n (N, M) =
     (case f_burn_from hl_fungibles a x n M of (r, M') \<Rightarrow> (r, (N, M')))"
  "a \<noteq> 1 \<Longrightarrow> h_hold (assets_holds hl_assets) a x n (N, M) = (case hl_hold a x n M of (r, M') \<Rightarrow> (r, (N, M')))"
  "a \<noteq> 1 \<Longrightarrow> h_release (assets_holds hl_assets) a x n be (N, M) = (case hl_release a x n be M of (r, M') \<Rightarrow> (r, (N, M')))"
  "n_transfer (assets_fungible (assets_config.truncate hl_assets)) x y n k (N, M) =
     (case f_transfer hl_fungibles 0 x y n k N of (r, N') \<Rightarrow> (r, (N', M)))"
  by (simp_all add: assets_fungibles_def assets_fungible_def assets_holds_def assets_config.truncate_def hl_assets_def assets_ops
      native_transfer_def hold_def release_def hl_fungible_def hl_holds_def on_native_def on_multi_def zoom_def split: prod.split)

lemma sample_price:
  "po_get_price (pallet_oracle sample_oracle) a n s =
     (case Prices s a of None \<Rightarrow> Inl (OracleErr PriceNotFound)
      | Some p \<Rightarrow> (case reference_mul_div (price_value p) n (10 ^ 12) of
           None \<Rightarrow> Inl (Arithmetic arithmetic_error.Overflow) | Some v \<Rightarrow> Inr v))"
  by (simp add: pallet_oracle_def get_price_def sample_oracle_def u128_max_def split: option.split)

lemmas lending_calls [THEN fun_cong] =
  borrow_def withdraw_collateral_def lending_borrow_def lending_withdraw_collateral_def can_borrow_def take_rent_def
  get_market_def get_borrow_index_def lending_get_price_def borrow_balance_current_def collateral_of_account_def
  create_borrower_data_def get_borrow_limit_def updated_account_interest_index_def
  vault_asset_def get_vault_info_def available_funds_def assets_under_management_def
  on_vaults_def on_lending_currency_def on_currency_def lending_deposit_event_def

lemmas block_calls [THEN fun_cong] =
  accrue_interest_def total_borrows_def total_cash_def initialize_market_def counted_def in_storage_def handle_depositable_def
  lending_available_funds_def strategy_deposit_def repay_borrow_def lending_repay_borrow_def can_repay_borrow_def close_loan_def

lemmas block_eval =
  block_calls accrue_interest_internal_def lending_utilization_def calc_utilization_ratio_def get_borrow_rate_def jump_borrow_rate_def
  jump_line_def fx_saturating_mul_def increment_index_def increment_borrow_rate_def SECONDS_PER_YEAR_NAIVE_def wrapping_sub_def u8_max_def
  initialize_block_def get_all_markets_def default_counters_def capital_or_default_def set_capital_def

lemmas lending_eval =
  sample_loans_def sample_funds_def sample_market_def hl_defs unheld_def sample_reads sample_writes sample_reads [simplified] sample_writes [simplified] sample_price lending_calls
  debt_asset_def lending_balance_def borrow_from_principal_def calc_updated_account_interest_index_def
  do_assets_under_management_def strategies_of_def capital_def
  is_stopped_def is_tombstoned_def flag_contains_def flag_defs default_capabilities_def oracle_genesis_def reference_mul_div_def
  borrower_data_new_def borrow_for_collateral_def current_collateral_ratio_def borrower_should_liquidate_def
  saturating_from_integer_def reference_rates_def reference_fixed_def fits_def fx_safe_div_def fx_safe_mul_def
  moved_def credited_def debited_def safe_arith_defs saturating_sub_def wrapping_add_def fixed_div_def u64_max_def u128_max_def
  call_steps Let_def

lemma sample_borrow_ok: "borrow sample_lending (SignedOrigin 5) 1 400 sample_loans = (Inr (), sample_borrowed)"
  by (simp add: sample_borrowed_def sample_lent_def lending_eval cong: call_congs)

lemma sample_withdraw_ok: "\<exists>t. withdraw_collateral sample_lending (SignedOrigin 5) 1 200 sample_borrowed = (Inr (), t)"
  by (simp add: sample_borrowed_def sample_lent_def lending_eval cong: call_congs)

lemma sample_borrowed_markets: "Markets sample_borrowed = [1 \<mapsto> sample_market]" "Markets sample_loans = [1 \<mapsto> sample_market]"
  by (simp_all add: sample_borrowed_def sample_loans_def)

section \<open>Collateral and loans\<close>

text \<open>
  C17. A withdrawal of collateral that succeeds leaves the borrower safe: the account had the amount,
  exactly the amount moves from the market to it, the position is not to be liquidated afterwards,
  and the value of what it owes, times the collateral factor, is at most the value of the collateral
  that is left.
\<close>

theorem withdraw_stays_collateralized:
  assumes "lending_market cfg nid" "withdraw_collateral cfg (SignedOrigin x) i n s = (Inr u, t)" "Markets s i = Some market"
    "fixed_div < market_collateral_factor market"
  shows "n \<le> collateral_at s i x \<and> AccountCollateral t = (AccountCollateral s)((i, x) \<mapsto> collateral_at s i x - n)
     \<and> balances (LCurrency cfg) (lending_currency t) =
         moved (market_collateral market) (market_account cfg i) x n (balances (LCurrency cfg) (lending_currency s))
     \<and> fst (should_liquidate cfg i x t) = Inr False
     \<and> (\<exists>info owed d v. Vaults (lending_vaults t) (market_borrow market) = Some info \<and> owed_at cfg i x t = Inr owed
          \<and> po_get_price (LOracle cfg) (vault_asset_id info) (amount_of owed) (lending_oracle t) = Inr d
          \<and> po_get_price (LOracle cfg) (market_collateral market) (collateral_at t i x) (lending_oracle t) = Inr v
          \<and> d * market_collateral_factor market \<le> v * fixed_div)"
  by (rule lending_market.withdraw_safe [OF assms])

theorem withdraw_stays_collateralized_witness:
  "\<exists>t. withdraw_collateral sample_lending (SignedOrigin 5) 1 200 sample_borrowed = (Inr (), t)
     \<and> fst (should_liquidate sample_lending 1 5 t) = Inr False"
proof -
  obtain t where "withdraw_collateral sample_lending (SignedOrigin 5) 1 200 sample_borrowed = (Inr (), t)"
    using sample_withdraw_ok by blast
  with withdraw_stays_collateralized [OF lend.lending_market_axioms this, of sample_market] show ?thesis
    by (simp add: sample_borrowed_markets sample_market_def)
qed

text \<open>
  C16. A loan that succeeds is covered: the value of the new loan and of the old debt together, times the
  collateral factor, is at most the value of the collateral (a loan of value zero is not checked).
  The borrower gets the amount from the market and the same amount of debt token, which is put on
  hold; no other balance changes but those of the native currency, and no collateral moves.
\<close>

theorem borrow_within_factor:
  assumes "lending_market cfg nid" "borrow cfg (SignedOrigin x) i n s = (Inr u, t)" "Markets s i = Some market"
  shows "\<exists>info p. Vaults (lending_vaults s) (market_borrow market) = Some info
     \<and> po_get_price (LOracle cfg) (vault_asset_id info) n (lending_oracle s) = Inr p
     \<and> (p = 0 \<or> (\<exists>owed d v. owed_at cfg i x s = Inr owed
          \<and> po_get_price (LOracle cfg) (vault_asset_id info) (amount_of owed) (lending_oracle s) = Inr d
          \<and> po_get_price (LOracle cfg) (market_collateral market) (collateral_at s i x) (lending_oracle s) = Inr v
          \<and> (p + d) * market_collateral_factor market \<le> v * fixed_div))
     \<and> (\<forall>b z. b = nid \<or> f_balance (LCurrency cfg) b z (lending_currency t) =
           moved (vault_asset_id info) (market_account cfg i) x n
             (credited (debt_asset cfg i s) x n (balances (LCurrency cfg) (lending_currency s))) b z)
     \<and> (\<forall>b z. h_balance_on_hold (LHolds cfg) b z (lending_currency t)
           = h_balance_on_hold (LHolds cfg) b z (lending_currency s) + only (debt_asset cfg i s) x n b z)
     \<and> AccountCollateral t = AccountCollateral s"
proof -
  obtain t' where run: "lending_borrow cfg i x n s = (Inr (), t')" and t': "t = t'\<lparr>lending_events := lending_events t' @ [Borrowed x i n]\<rparr>"
    using assms(2) by (auto simp: borrow_def ok_simps lending_deposit_event_def)
  obtain info p l where e: "Vaults (lending_vaults s) (market_borrow market) = Some info"
    "po_get_price (LOracle cfg) (vault_asset_id info) n (lending_oracle s) = Inr p"
    and l: "fst (get_borrow_limit cfg i x s) = Inr l" "p \<le> l"
    and b: "\<forall>b z. b \<noteq> nid \<longrightarrow> f_balance (LCurrency cfg) b z (lending_currency t') =
           moved (vault_asset_id info) (market_account cfg i) x n
             (credited (debt_asset cfg i s) x n (balances (LCurrency cfg) (lending_currency s))) b z"
    "\<forall>b z. h_balance_on_hold (LHolds cfg) b z (lending_currency t')
           = h_balance_on_hold (LHolds cfg) b z (lending_currency s) + only (debt_asset cfg i s) x n b z"
    "AccountCollateral t' = AccountCollateral s"
    using lending_market.borrow_effect [OF assms(1) run assms(3)] by auto
  have "p = 0 \<or> (\<exists>owed d v. owed_at cfg i x s = Inr owed
          \<and> po_get_price (LOracle cfg) (vault_asset_id info) (amount_of owed) (lending_oracle s) = Inr d
          \<and> po_get_price (LOracle cfg) (market_collateral market) (collateral_at s i x) (lending_oracle s) = Inr v
          \<and> (p + d) * market_collateral_factor market \<le> v * fixed_div)"
    using lending_market.borrow_limit_covers [OF assms(1) l(1) assms(3) l(2)] e(1) by fastforce
  with e b t' show ?thesis by auto
qed

theorem borrow_within_factor_witness:
  "f_balance (LCurrency sample_lending) 8 5 (lending_currency sample_borrowed) = 400
   \<and> h_balance_on_hold (LHolds sample_lending) 30 5 (lending_currency sample_borrowed) = 400"
proof -
  obtain info where info: "Vaults (lending_vaults sample_loans) (market_borrow sample_market) = Some info"
    and got: "\<forall>b z. b = 1 \<or> f_balance (LCurrency sample_lending) b z (lending_currency sample_borrowed) =
      moved (vault_asset_id info) (market_account sample_lending 1) 5 400
        (credited (debt_asset sample_lending 1 sample_loans) 5 400 (balances (LCurrency sample_lending) (lending_currency sample_loans))) b z"
    and held: "\<forall>b z. h_balance_on_hold (LHolds sample_lending) b z (lending_currency sample_borrowed)
      = h_balance_on_hold (LHolds sample_lending) b z (lending_currency sample_loans) + only (debt_asset sample_lending 1 sample_loans) 5 400 b z"
    using borrow_within_factor [OF lend.lending_market_axioms sample_borrow_ok, of sample_market]
    by (simp only: sample_borrowed_markets fun_upd_same option.inject) blast
  have "vault_asset_id info = 8" "debt_asset sample_lending 1 sample_loans = 30"
    using info by (auto simp: sample_loans_def sample_market_def debt_asset_def)
  then show ?thesis
    using got [THEN spec [of _ 8], THEN spec [of _ 5]] held [THEN spec [of _ 30], THEN spec [of _ 5]]
    by (simp add: moved_def credited_def debited_def only_def balances_def sample_loans_def sample_funds_def sample_reads [simplified])
qed

section \<open>Interest\<close>

text \<open>
  C18. When interest accrues on a market, its index grows by the index times the borrow rate of the
  model at the present utilization times the share of a year that has passed; the debt token of the
  market account grows by the principal that is lent times that rate; the principal that is lent, the
  market and the time of the last block stay.
\<close>

theorem interest_accrues:
  assumes "lending_market cfg nid" "accrue_interest cfg i now s = (Inr (), t)" "now \<le> u64_max"
    and bound: "lending_balance cfg (debt_asset cfg i s) (market_account cfg i) t \<le> u128_max"
  shows "\<exists>market cash borrows utilization rate idx. Markets s i = Some market \<and> BorrowIndex s i = Some idx
     \<and> total_cash cfg i s = (Inr cash, s) \<and> total_borrows cfg i s = (Inr borrows, s)
     \<and> lending_utilization cfg cash borrows = Inr utilization
     \<and> fst (get_borrow_rate (LRates cfg) (market_rate_model market) utilization) = Inr (Some rate)
     \<and> LastBlockTimestamp s \<le> now
     \<and> BorrowIndex t = (BorrowIndex s)(i \<mapsto>
          idx + rate * idx div fixed_div * (now - LastBlockTimestamp s) div SECONDS_PER_YEAR_NAIVE)
     \<and> lending_balance cfg (debt_asset cfg i s) (market_account cfg i) t =
          lending_balance cfg (debt_asset cfg i s) (market_account cfg i) s
          + borrows * (rate * (now - LastBlockTimestamp s) div SECONDS_PER_YEAR_NAIVE) div fixed_div
     \<and> fst (total_borrows cfg i t) = Inr borrows \<and> Markets t = Markets s \<and> LastBlockTimestamp t = LastBlockTimestamp s"
proof -
  have L: "fungibles_ledger (LCurrency cfg)" using assms(1) by (simp add: lending_market_def holding_currency_def)
  let ?a = "debt_asset cfg i s" and ?m = "market_account cfg i"
  obtain borrows where tb: "total_borrows cfg i s = (Inr borrows, s)" by (simp add: total_borrows_def call_eval)
  obtain market cash u rate idx c where e: "Markets s i = Some market" "total_cash cfg i s = (Inr cash, s)"
     "lending_utilization cfg cash borrows = Inr u"
     "fst (get_borrow_rate (LRates cfg) (market_rate_model market) u) = Inr (Some rate)"
     "LastBlockTimestamp s \<le> now" "BorrowIndex s i = Some idx"
    and mint: "f_mint_into (LCurrency cfg) ?a ?m
         (borrows * (rate * (now - LastBlockTimestamp s) div SECONDS_PER_YEAR_NAIVE) div fixed_div) (lending_currency s) = (Inr (), c)"
    and t: "t = s\<lparr>BorrowIndex := (BorrowIndex s)(i \<mapsto>
                rate * idx div fixed_div * (now - LastBlockTimestamp s) div SECONDS_PER_YEAR_NAIVE + idx),
             lending_vaults := (lending_vaults s)\<lparr>vault_currency := c\<rparr>\<rparr>"
    using lending_market.accrue_effect [OF assms(1,2,3) tb] by blast
  let ?n = "borrows * (rate * (now - LastBlockTimestamp s) div SECONDS_PER_YEAR_NAIVE) div fixed_div"
  have same: "debt_asset cfg i t = ?a" by (simp add: t debt_asset_def)
  have bal: "lending_balance cfg ?a ?m t = lending_balance cfg ?a ?m s + ?n"
    using fungibles_ledger.mint_balances [OF L mint] by (simp add: t lending_balance_def balances_def fun_eq_iff credited_def)
  have iss: "f_total_issuance (LCurrency cfg) ?a c = f_total_issuance (LCurrency cfg) ?a (lending_currency s) + ?n"
    using fungibles_ledger.mint_issuance [OF L mint] by (simp add: issuance_def fun_eq_iff)
  have "wrapping_sub u128_max (a + ?n) (b + ?n) = wrapping_sub u128_max a b" if "b + ?n \<le> u128_max" for a b
    using that unfolding wrapping_sub_def by (simp add: Suc_diff_le algebra_simps)
  then have "fst (total_borrows cfg i t) = Inr borrows"
    using tb bal iss bound same by (simp add: total_borrows_def call_eval t)
  with e tb bal t show ?thesis by (auto simp: add.commute)
qed

lemma sample_accrue_ok:
  "\<exists>t. accrue_interest sample_lending 1 SECONDS_PER_YEAR_NAIVE sample_borrowed = (Inr (), t)
     \<and> lending_balance sample_lending 30 501 t = 9"
  by (simp add: sample_borrowed_def sample_lent_def lending_eval block_eval cong: call_congs)

lemma sample_debt_asset: "debt_asset sample_lending 1 sample_borrowed = 30"
  by (simp add: sample_borrowed_def sample_lent_def lending_eval cong: call_congs)

theorem interest_accrues_witness:
  "\<exists>t. accrue_interest sample_lending 1 SECONDS_PER_YEAR_NAIVE sample_borrowed = (Inr (), t) \<and> Markets t = Markets sample_borrowed"
proof -
  obtain t where t: "accrue_interest sample_lending 1 SECONDS_PER_YEAR_NAIVE sample_borrowed = (Inr (), t)"
    "lending_balance sample_lending 30 501 t = 9"
    using sample_accrue_ok by blast
  have "SECONDS_PER_YEAR_NAIVE \<le> u64_max" by (simp add: SECONDS_PER_YEAR_NAIVE_def u64_max_def)
  moreover have "lending_balance sample_lending (debt_asset sample_lending 1 sample_borrowed) (market_account sample_lending 1) t \<le> u128_max"
    unfolding sample_debt_asset using t(2) by (simp add: u128_max_def)
  ultimately show ?thesis using interest_accrues [OF lend.lending_market_axioms t(1)] t(1) by blast
qed

section \<open>The start of a block\<close>

text \<open>
  C19. The start of a block is all or nothing. Unless it panics it returns, and it does exactly what
  running the markets one after the other in a storage transaction does: if one of them fails, nothing at all has changed;
  if none does, the time is recorded, every market has accrued interest once, on the index it had before the block, and
  markets, debts, loan times, rents and collateral are as before. The iteration of the markets lists each of them once.
\<close>

theorem block_all_or_nothing:
  assumes "lending_market cfg nid" "initialize_block cfg s = (r, t)" "lending_now s \<le> u64_max" "\<forall>p. r \<noteq> Inl (Panic p)"
    and "distinct (MarketsIter cfg (Markets s))" "set (MarketsIter cfg (Markets s)) = dom (Markets s)"
  shows "(\<exists>c. r = Inr c)
     \<and> (case for_each (get_all_markets cfg s) (\<lambda>(i, config). initialize_market cfg (lending_now s) i config)
               (default_counters\<lparr>cnt_now := 1\<rparr>, s) of
          (Inl _, _) \<Rightarrow> t = s
        | (Inr _, (_, u)) \<Rightarrow> t = u\<lparr>LastBlockTimestamp := lending_now s\<rparr> \<and> accrued_frame s u
            \<and> (\<forall>i \<in> dom (Markets s). \<exists>s1 s2. accrued_frame s s1 \<and> BorrowIndex s1 i = BorrowIndex s i
                 \<and> accrue_interest cfg i (lending_now s) s1 = (Inr (), s2) \<and> BorrowIndex t i = BorrowIndex s2 i))"
proof -
  let ?ms = "get_all_markets cfg s"
  have ms: "distinct (map fst ?ms)" "fst ` set ?ms = dom (Markets s)"
    using assms(5,6) by (simp_all add: get_all_markets_def comp_def image_image)
  obtain c where c: "r = Inr c"
    "case for_each ?ms (\<lambda>(i, config). initialize_market cfg (lending_now s) i config) (default_counters\<lparr>cnt_now := 1\<rparr>, s) of
       (Inr _, (_, u)) \<Rightarrow> t = u\<lparr>LastBlockTimestamp := lending_now s\<rparr>
     | (Inl _, _) \<Rightarrow> t = s"
    using initialize_block_runs [OF assms(2)] assms(4) by blast
  obtain q c' u where run: "for_each ?ms (\<lambda>(i, config). initialize_market cfg (lending_now s) i config)
      (default_counters\<lparr>cnt_now := 1\<rparr>, s) = (q, (c', u))"
    by (metis prod.collapse)
  show ?thesis
  proof (cases q)
    case (Inr x)
    then show ?thesis
      using lending_market.markets_accrue [OF assms(1) _ ms(1) accrued_frame_refl assms(3)] run c ms(2) by simp
  qed (use c run in simp)
qed

lemma sample_market_run:
  "\<exists>c t. initialize_market sample_lending SECONDS_PER_YEAR_NAIVE 1 sample_market (default_counters\<lparr>cnt_now := 1\<rparr>, sample_borrowed) = (Inr (), (c, t))"
  by (simp add: sample_borrowed_def sample_lent_def lending_eval block_eval cong: call_congs)

theorem block_all_or_nothing_witness:
  "\<exists>c t. initialize_block sample_lending sample_borrowed = (Inr c, t) \<and> LastBlockTimestamp t = SECONDS_PER_YEAR_NAIVE
     \<and> accrued_frame sample_borrowed (t\<lparr>LastBlockTimestamp := LastBlockTimestamp sample_borrowed\<rparr>)"
proof -
  have now: "lending_now sample_borrowed = SECONDS_PER_YEAR_NAIVE" by (simp add: sample_borrowed_def sample_loans_def)
  have all: "get_all_markets sample_lending sample_borrowed = [(1, sample_market)]"
    by (simp add: sample_borrowed_markets get_all_markets_def)
  obtain c u where u: "initialize_market sample_lending SECONDS_PER_YEAR_NAIVE 1 sample_market (default_counters\<lparr>cnt_now := 1\<rparr>, sample_borrowed) = (Inr (), (c, u))"
    using sample_market_run by blast
  then obtain t where t: "initialize_block sample_lending sample_borrowed = (Inr c, t)"
    using now all by (auto simp: initialize_block_def Let_def)
  have "lending_now sample_borrowed \<le> u64_max" by (simp add: now SECONDS_PER_YEAR_NAIVE_def u64_max_def)
  from block_all_or_nothing [OF lend.lending_market_axioms t this] have
    "t = u\<lparr>LastBlockTimestamp := SECONDS_PER_YEAR_NAIVE\<rparr>" "accrued_frame sample_borrowed u"
    using u by (simp_all add: all now sample_borrowed_markets call_eval)
  moreover from this(2) have "LastBlockTimestamp u = LastBlockTimestamp sample_borrowed" by (simp add: accrued_frame_def)
  ultimately show ?thesis using t by (auto simp: accrued_frame_def)
qed

section \<open>Repayment\<close>

context lending_market
begin

lemma close_loan_effect:
  assumes "close_loan cfg i x acc s = (Inr u, t)"
  shows "DebtIndex t = (DebtIndex s)((i, x) := None) \<and> DebtMarkets t = DebtMarkets s \<and> BorrowRent t = BorrowRent s
     \<and> h_balance_on_hold (LHolds cfg) b z (lending_currency t) = h_balance_on_hold (LHolds cfg) b z (lending_currency s)"
  using assms native_held by (fastforce simp: close_loan_def ok_simps currency_ok split: option.splits)

lemma repay_effect:
  assumes run: "lending_repay_borrow cfg i payer x (Some n) s = (Inr (), t)"
    and none: "lending_balance cfg (debt_asset cfg i s) (market_account cfg i) s = 0"
    and part: "n \<le> lending_balance cfg (debt_asset cfg i s) x s"
    and debt: "0 < h_balance_on_hold (LHolds cfg) (debt_asset cfg i s) x (lending_currency s)" "DebtMarkets s i \<noteq> None" "DebtIndex s (i, x) \<noteq> None"
  shows "DebtIndex t = (DebtIndex s)((i, x) := None) \<and> DebtMarkets t = DebtMarkets s
     \<and> h_balance_on_hold (LHolds cfg) (debt_asset cfg i s) x (lending_currency t)
         = h_balance_on_hold (LHolds cfg) (debt_asset cfg i s) x (lending_currency s)
           - min n (h_balance_on_hold (LHolds cfg) (debt_asset cfg i s) x (lending_currency s))"
proof -
  let ?a = "debt_asset cfg i s" and ?h = "\<lambda>c. h_balance_on_hold (LHolds cfg) (debt_asset cfg i s) x c"
  have "owed_at cfg i x s \<noteq> Inr None"
    using debt by (auto simp: borrow_balance_current_def debt_asset_def get_borrow_index_def borrow_from_principal_def call_eval Let_def
        split: option.splits sum.splits)
  with run obtain k c1 k' c2 asset k'' c3 where
    "h_release (LHolds cfg) ?a x n True (lending_currency s) = (Inr k, c1)"
    "f_burn_from (LCurrency cfg) ?a x n c1 = (Inr k', c2)"
    "f_transfer (LCurrency cfg) asset payer (market_account cfg i) n False c2 = (Inr k'', c3)"
    "close_loan cfg i x (market_account cfg i) (s\<lparr>lending_vaults := (lending_vaults s)\<lparr>vault_currency := c3\<rparr>\<rparr>) = (Inr (), t)"
    using none part unfolding lending_repay_borrow_def can_repay_borrow_def ok_simps currency_ok Let_def by force
  then have "?h c1 + only ?a x k ?a x = ?h (lending_currency s) \<and> k = min n (?h (lending_currency s))"
     "?h c2 = ?h c1" "?h c3 = ?h c2" "DebtIndex t = (DebtIndex s)((i, x) := None) \<and> DebtMarkets t = DebtMarkets s \<and> ?h (lending_currency t) = ?h c3"
    using release_held burn_holds transfer_holds close_loan_effect by fastforce+
  then show ?thesis by (simp add: only_def) linarith
qed

end

text \<open>
  What the code does with a partial repayment, against the documentation of the trait: one that is covered by
  the debt token of the borrower, on a market that has no interest outstanding, closes the loan whatever its amount: the index of the account is removed and the account owes
  nothing, while the debt token on hold is reduced by the amount that is repaid only.
\<close>

lemma repay_closes_loan:
  assumes "lending_market cfg nid" "repay_borrow cfg (SignedOrigin payer) i x n s = (Inr u, t)"
    and "lending_balance cfg (debt_asset cfg i s) (market_account cfg i) s = 0"
    and "n \<le> lending_balance cfg (debt_asset cfg i s) x s"
    and "0 < h_balance_on_hold (LHolds cfg) (debt_asset cfg i s) x (lending_currency s)" "DebtMarkets s i \<noteq> None" "DebtIndex s (i, x) \<noteq> None"
  shows "DebtIndex t (i, x) = None \<and> owed_at cfg i x t = Inr (Some 0)
     \<and> h_balance_on_hold (LHolds cfg) (debt_asset cfg i s) x (lending_currency t)
         = h_balance_on_hold (LHolds cfg) (debt_asset cfg i s) x (lending_currency s)
           - min n (h_balance_on_hold (LHolds cfg) (debt_asset cfg i s) x (lending_currency s))"
proof -
  obtain t' where run: "lending_repay_borrow cfg i payer x (Some n) s = (Inr (), t')" and t': "t = t'\<lparr>lending_events := lending_events t' @ [RepaidBorrow payer i x n]\<rparr>"
    using assms(2) by (auto simp: repay_borrow_def ok_simps lending_deposit_event_def)
  from lending_market.repay_effect [OF assms(1) run assms(3-7)] t' assms(6)
  show ?thesis by (auto simp: borrow_balance_current_def call_eval)
qed

text \<open>Of a loan of 400, 100 are paid back: 300 debt tokens are on hold, and nothing is owed.\<close>

definition sample_later :: "(sample_currency, lock_book oracle_state, unit) lending" where
  "sample_later = sample_borrowed\<lparr>LastBlockTimestamp := 6\<rparr>"

lemma sample_repay_ok: "\<exists>t. repay_borrow sample_lending (SignedOrigin 5) 1 5 100 sample_later = (Inr (), t)"
  by (simp add: sample_later_def sample_borrowed_def sample_lent_def lending_eval block_eval cong: call_congs)

lemma sample_later_debt:
  "debt_asset sample_lending 1 sample_later = 30" "lending_balance sample_lending 30 501 sample_later = 0"
  "lending_balance sample_lending 30 5 sample_later = 400" "h_balance_on_hold (LHolds sample_lending) 30 5 (lending_currency sample_later) = 400"
  "DebtMarkets sample_later 1 \<noteq> None" "DebtIndex sample_later (1, 5) \<noteq> None"
  by (simp_all add: sample_later_def sample_borrowed_def sample_lent_def lending_eval)

lemma repay_closes_loan_witness:
  "\<exists>t. repay_borrow sample_lending (SignedOrigin 5) 1 5 100 sample_later = (Inr (), t)
     \<and> owed_at sample_lending 1 5 t = Inr (Some 0) \<and> h_balance_on_hold (LHolds sample_lending) 30 5 (lending_currency t) = 300"
proof -
  obtain t where t: "repay_borrow sample_lending (SignedOrigin 5) 1 5 100 sample_later = (Inr (), t)"
    using sample_repay_ok by blast
  with repay_closes_loan [OF lend.lending_market_axioms t, unfolded sample_later_debt] sample_later_debt show ?thesis by simp
qed

end
