(* ===== verification/Dex.thy ===== *)
theory Dex
  imports Currency_Factory Currency Defi
begin

text \<open>
  What the exchanges share (frame/composable-traits/src/dex.rs): the interface \<open>CurveAmm\<close>, the pools,
  the routes, and the storage of a runtime that holds the two exchange pallets, with the currency
  and the currency factory they work on.
\<close>

section \<open>Pools and routes\<close>

type_synonym pool_id = nat

type_synonym permill = nat

record constant_product_pool =
  cp_owner :: account_id
  cp_pair :: currency_pair
  cp_lp_token :: asset_id
  cp_fee :: permill
  cp_owner_fee :: permill

record stable_swap_pool =
  ss_owner :: account_id
  ss_pair :: currency_pair
  ss_lp_token :: asset_id
  amplification_coefficient :: nat
  ss_fee :: permill
  ss_protocol_fee :: permill

datatype dex_route_node = CurvePool pool_id | UniswapPool pool_id

datatype dex_route = Direct "dex_route_node list"

section \<open>The interface\<close>

text \<open>\<open>CurveAmm\<close>: the operations of an exchange on a state \<open>'s\<close>.\<close>

record 's curve_amm =
  amm_pool_exists :: "pool_id \<Rightarrow> 's \<Rightarrow> bool"
  amm_currency_pair :: "pool_id \<Rightarrow> ('s, currency_pair) call"
  amm_get_exchange_value :: "pool_id \<Rightarrow> asset_id \<Rightarrow> balance \<Rightarrow> ('s, balance) call"
  amm_buy :: "account_id \<Rightarrow> pool_id \<Rightarrow> asset_id \<Rightarrow> balance \<Rightarrow> bool \<Rightarrow> ('s, balance) call"
  amm_sell :: "account_id \<Rightarrow> pool_id \<Rightarrow> asset_id \<Rightarrow> balance \<Rightarrow> bool \<Rightarrow> ('s, balance) call"
  amm_add_liquidity :: "account_id \<Rightarrow> pool_id \<Rightarrow> balance \<Rightarrow> balance \<Rightarrow> balance \<Rightarrow> bool \<Rightarrow> ('s, unit) call"
  amm_remove_liquidity :: "account_id \<Rightarrow> pool_id \<Rightarrow> balance \<Rightarrow> balance \<Rightarrow> balance \<Rightarrow> ('s, unit) call"
  amm_exchange :: "account_id \<Rightarrow> pool_id \<Rightarrow> currency_pair \<Rightarrow> balance \<Rightarrow> balance \<Rightarrow> bool \<Rightarrow> ('s, balance) call"

section \<open>Storage\<close>

datatype dex_event =
    PoolCreated pool_id account_id
  | LiquidityAdded pool_id account_id balance balance balance
  | LiquidityRemoved pool_id account_id balance balance balance
  | Swapped pool_id account_id asset_id asset_id balance balance balance

datatype route_event =
    RouteAdded account_id asset_id asset_id "dex_route_node list"
  | RouteDeleted account_id asset_id asset_id "dex_route_node list"
  | RouteUpdated account_id asset_id asset_id "dex_route_node list" "dex_route_node list"

record 'c dex =
  UniPoolCount :: pool_id
  UniPools :: "pool_id \<rightharpoonup> constant_product_pool"
  uni_events :: "dex_event list"
  CurvePoolCount :: pool_id
  CurvePools :: "pool_id \<rightharpoonup> stable_swap_pool"
  curve_events :: "dex_event list"
  DexRoutes :: "asset_id \<times> asset_id \<rightharpoonup> dex_route"
  route_events :: "route_event list"
  dex_currency :: 'c
  dex_factory :: currency_factory

definition on_dex_currency :: "('c, 'a) call \<Rightarrow> ('c dex, 'a) call" where
  "on_dex_currency m = zoom dex_currency (\<lambda>c s. s\<lparr>dex_currency := c\<rparr>) m"

definition on_dex_factory :: "(currency_factory, 'a) call \<Rightarrow> ('c dex, 'a) call" where
  "on_dex_factory m = zoom dex_factory (\<lambda>f s. s\<lparr>dex_factory := f\<rparr>) m"

text \<open>
  \<open>Permill::mul_floor\<close> on a \<open>u128\<close>, and the checked sum of two \<open>Permill\<close>s, which fails above one.
\<close>

record permill_ops =
  permill_mul_floor :: "permill \<Rightarrow> nat \<Rightarrow> nat"
  permill_mul :: "permill \<Rightarrow> permill \<Rightarrow> permill"
  permill_from_rational :: "nat \<Rightarrow> nat \<Rightarrow> permill"

definition permill_checked_add :: "permill \<Rightarrow> permill \<Rightarrow> permill option" where
  "permill_checked_add p q = (if p + q \<le> 1000000 then Some (p + q) else None)"

text \<open>What the library documents: rounding down.\<close>

definition exact_permill :: "permill_ops \<Rightarrow> bool" where
  "exact_permill P \<longleftrightarrow> (\<forall>p n. permill_mul_floor P p n = p * n div 1000000)"

definition reference_permill :: permill_ops where
  "reference_permill =
     \<lparr>permill_mul_floor = (\<lambda>p n. p * n div 1000000), permill_mul = (\<lambda>p q. p * q div 1000000),
      permill_from_rational = (\<lambda>p q. p * 1000000 div max 1 q)\<rparr>"

end
