(* ===== verification/Constant_Product.thy ===== *)
theory Constant_Product
  imports Complex_Main Prelude
begin

text \<open>
  The formulas of weighted pools (frame/composable-maths/src/dex/constant_product.rs): spot price,
  the amount out for an amount in and its inverse, and the shares of liquidity providers. The
  decimal numbers of \<open>rust_decimal\<close> and the integer square root are parameters.
\<close>

section \<open>Parameters\<close>

text \<open>\<open>rust_decimal::Decimal\<close>: every operation may fail; \<open>dec_pow\<close> is \<open>checked_powd\<close>.\<close>

record 'd decimal_ops =
  dec_from_u128 :: "nat \<Rightarrow> 'd option"
  dec_from_u32 :: "nat \<Rightarrow> 'd option"
  dec_is_zero :: "'d \<Rightarrow> bool"
  dec_one :: 'd
  dec_add :: "'d \<Rightarrow> 'd \<Rightarrow> 'd option"
  dec_sub :: "'d \<Rightarrow> 'd \<Rightarrow> 'd option"
  dec_mul :: "'d \<Rightarrow> 'd \<Rightarrow> 'd option"
  dec_div :: "'d \<Rightarrow> 'd \<Rightarrow> 'd option"
  dec_pow :: "'d \<Rightarrow> 'd \<Rightarrow> 'd option"
  dec_to_u128 :: "'d \<Rightarrow> nat option"

type_synonym 'a arith = "arithmetic_error + 'a"

definition bindA :: "'a arith \<Rightarrow> ('a \<Rightarrow> 'b arith) \<Rightarrow> 'b arith" where
  "bindA r f = (case r of Inl e \<Rightarrow> Inl e | Inr x \<Rightarrow> f x)"

definition or_overflow :: "'a option \<Rightarrow> 'a arith" where
  "or_overflow v = (case v of None \<Rightarrow> Inl arithmetic_error.Overflow | Some x \<Rightarrow> Inr x)"

text \<open>\<open>SafeArithmetic\<close> for decimals.\<close>

definition dec_safe_add :: "'d decimal_ops \<Rightarrow> 'd \<Rightarrow> 'd \<Rightarrow> 'd arith" where
  "dec_safe_add D a b = or_overflow (dec_add D a b)"

definition dec_safe_sub :: "'d decimal_ops \<Rightarrow> 'd \<Rightarrow> 'd \<Rightarrow> 'd arith" where
  "dec_safe_sub D a b = (case dec_sub D a b of None \<Rightarrow> Inl arithmetic_error.Underflow | Some x \<Rightarrow> Inr x)"

definition dec_safe_mul :: "'d decimal_ops \<Rightarrow> 'd \<Rightarrow> 'd \<Rightarrow> 'd arith" where
  "dec_safe_mul D a b = or_overflow (dec_mul D a b)"

definition dec_safe_div :: "'d decimal_ops \<Rightarrow> 'd \<Rightarrow> 'd \<Rightarrow> 'd arith" where
  "dec_safe_div D a b = (if dec_is_zero D b then Inl DivisionByZero else or_overflow (dec_div D a b))"

text \<open>A weight is a \<open>Permill\<close>, its number of parts out of a million.\<close>

definition permill_one :: nat where "permill_one = 1000000"

definition half_weight :: nat where "half_weight = 500000"

definition check_weights :: "nat \<Rightarrow> nat \<Rightarrow> unit arith" where
  "check_weights wi wo =
     bindA (safe_add u32_max wi wo) (\<lambda>weight_sum.
     if weight_sum = permill_one then Inr () else Inl arithmetic_error.Overflow)"

section \<open>Prices\<close>

definition compute_spot_price :: "'d decimal_ops \<Rightarrow> nat \<Rightarrow> nat \<Rightarrow> nat \<Rightarrow> nat \<Rightarrow> nat \<Rightarrow> nat arith" where
  "compute_spot_price D wi wo bi bo base_unit =
     bindA (check_weights wi wo) (\<lambda>_.
     bindA (or_overflow (dec_from_u128 D base_unit)) (\<lambda>base_unit'.
     bindA (or_overflow (dec_from_u128 D bi)) (\<lambda>bi'.
     bindA (or_overflow (dec_from_u128 D bo)) (\<lambda>bo'.
     bindA (or_overflow (dec_from_u32 D permill_one)) (\<lambda>full_perthing.
     bindA (or_overflow (dec_from_u32 D wi)) (\<lambda>wi_numer.
     bindA (dec_safe_div D wi_numer full_perthing) (\<lambda>wi'.
     bindA (or_overflow (dec_from_u32 D wo)) (\<lambda>wo_numer.
     bindA (dec_safe_div D wo_numer full_perthing) (\<lambda>wo'.
     bindA (dec_safe_div D bi' wi') (\<lambda>bi_div_wi.
     bindA (dec_safe_div D bo' wo') (\<lambda>bo_div_wo.
     bindA (dec_safe_div D bi_div_wi bo_div_wo) (\<lambda>spot_price.
     bindA (dec_safe_mul D spot_price base_unit') (\<lambda>price.
     or_overflow (dec_to_u128 D price))))))))))))))"

definition compute_out_given_in :: "'d decimal_ops \<Rightarrow> nat \<Rightarrow> nat \<Rightarrow> nat \<Rightarrow> nat \<Rightarrow> nat \<Rightarrow> nat arith" where
  "compute_out_given_in D wi wo bi bo ai =
     bindA (check_weights wi wo) (\<lambda>_.
     bindA (or_overflow (dec_from_u128 D ai)) (\<lambda>ai'.
     bindA (or_overflow (dec_from_u128 D bi)) (\<lambda>bi'.
     bindA (or_overflow (dec_from_u128 D bo)) (\<lambda>bo'.
     bindA (or_overflow (dec_from_u32 D wi)) (\<lambda>weight_numer.
     bindA (or_overflow (dec_from_u32 D wo)) (\<lambda>weight_denom.
     bindA (dec_safe_div D weight_numer weight_denom) (\<lambda>weight_power.
     bindA (dec_safe_add D bi' ai') (\<lambda>bi_plus_ai.
     bindA (dec_safe_div D bi' bi_plus_ai) (\<lambda>bi_div_bi_plus_ai.
     bindA (or_overflow (dec_pow D bi_div_bi_plus_ai weight_power)) (\<lambda>term_to_weight_power.
     bindA (dec_safe_sub D (dec_one D) term_to_weight_power) (\<lambda>one_minus_term.
     bindA (dec_safe_mul D bo' one_minus_term) (\<lambda>ao.
     or_overflow (dec_to_u128 D ao)))))))))))))"

definition compute_in_given_out :: "'d decimal_ops \<Rightarrow> nat \<Rightarrow> nat \<Rightarrow> nat \<Rightarrow> nat \<Rightarrow> nat \<Rightarrow> nat arith" where
  "compute_in_given_out D wi wo bi bo ao =
     bindA (check_weights wi wo) (\<lambda>_.
     bindA (or_overflow (dec_from_u128 D ao)) (\<lambda>ao'.
     bindA (or_overflow (dec_from_u128 D bi)) (\<lambda>bi'.
     bindA (or_overflow (dec_from_u128 D bo)) (\<lambda>bo'.
     bindA (or_overflow (dec_from_u32 D wo)) (\<lambda>weight_numer.
     bindA (or_overflow (dec_from_u32 D wi)) (\<lambda>weight_denom.
     bindA (dec_safe_div D weight_numer weight_denom) (\<lambda>weight_power.
     bindA (dec_safe_sub D bo' ao') (\<lambda>bo_minus_ao.
     bindA (dec_safe_div D bo' bo_minus_ao) (\<lambda>bo_div_bo_minus_ao.
     bindA (or_overflow (dec_pow D bo_div_bo_minus_ao weight_power)) (\<lambda>term_to_weight_power.
     bindA (dec_safe_sub D term_to_weight_power (dec_one D)) (\<lambda>term_minus_one.
     bindA (dec_safe_mul D bi' term_minus_one) (\<lambda>ai.
     or_overflow (dec_to_u128 D ai)))))))))))))"

section \<open>Shares\<close>

definition compute_first_deposit_lp :: "(nat \<Rightarrow> nat option) \<Rightarrow> nat \<Rightarrow> nat \<Rightarrow> nat arith" where
  "compute_first_deposit_lp isqrt base_amount quote_amt =
     bindA (or_overflow (isqrt base_amount)) (\<lambda>a.
     bindA (or_overflow (isqrt quote_amt)) (\<lambda>b. safe_mul u128_max a b))"

definition compute_deposit_lp ::
  "(nat \<Rightarrow> nat option) \<Rightarrow> mul_div \<Rightarrow> nat \<Rightarrow> nat \<Rightarrow> nat \<Rightarrow> nat \<Rightarrow> nat \<Rightarrow> (nat \<times> nat) arith" where
  "compute_deposit_lp isqrt md lp_total_issuance base_amount quote_amt pool_base_aum pool_quote_aum =
     (if lp_total_issuance = 0 then
        bindA (compute_first_deposit_lp isqrt base_amount quote_amt) (\<lambda>lp_to_mint. Inr (quote_amt, lp_to_mint))
      else
        bindA (safe_multiply_by_rational md pool_quote_aum base_amount pool_base_aum) (\<lambda>quote_needed.
        bindA (safe_multiply_by_rational md lp_total_issuance base_amount pool_base_aum) (\<lambda>lp_to_mint.
        Inr (quote_needed, lp_to_mint))))"

section \<open>Exact arithmetic\<close>

text \<open>
  The formulas over the rational numbers: what the decimals compute but for the rounding of the
  library. A power is taken for the exponent one, that of equal weights, only.
\<close>

definition rational_decimals :: "rat decimal_ops" where
  "rational_decimals =
     \<lparr>dec_from_u128 = (\<lambda>n. Some (of_nat n)), dec_from_u32 = (\<lambda>n. Some (of_nat n)), dec_is_zero = (\<lambda>q. q = 0), dec_one = 1,
      dec_add = (\<lambda>a b. Some (a + b)), dec_sub = (\<lambda>a b. Some (a - b)), dec_mul = (\<lambda>a b. Some (a * b)),
      dec_div = (\<lambda>a b. Some (a / b)), dec_pow = (\<lambda>a e. if e = 1 then Some a else None),
      dec_to_u128 = (\<lambda>q. if 0 \<le> q \<and> nat \<lfloor>q\<rfloor> \<le> u128_max then Some (nat \<lfloor>q\<rfloor>) else None)\<rparr>"

lemmas decimal_defs =
  bindA_def or_overflow_def dec_safe_add_def dec_safe_sub_def dec_safe_mul_def dec_safe_div_def check_weights_def
  half_weight_def permill_one_def safe_arith_defs u32_max_def

lemma rat_floor_div: "nat \<lfloor>(of_nat a / of_nat b :: rat)\<rfloor> = a div b"
  by (simp add: floor_divide_of_nat_eq)

lemma bindA_Inr [simp]: "bindA (Inr x) f = f x"
  by (simp add: bindA_def)

lemma half_weights [simp]: "check_weights half_weight half_weight = Inr ()" "check_weights 500000 500000 = Inr ()"
  by (simp_all add: decimal_defs)

lemma out_given_in_exact:
  assumes "0 < bi + ai" "bo \<le> u128_max"
  shows "compute_out_given_in rational_decimals half_weight half_weight bi bo ai = Inr (bo * ai div (bi + ai))"
proof -
  have pos: "(of_nat bi + of_nat ai :: rat) \<noteq> 0" using assms(1) by (simp flip: of_nat_add)
  then have out: "of_nat bo * (1 - of_nat bi / (of_nat bi + of_nat ai)) = (of_nat (bo * ai) / of_nat (bi + ai) :: rat)"
    by (simp add: field_simps)
  have "bo * ai div (bi + ai) \<le> bo * (bi + ai) div (bi + ai)" by (intro div_le_mono) simp
  then have "bo * ai div (bi + ai) \<le> u128_max" using assms by (auto split: if_splits)
  moreover have "0 \<le> (of_nat (bo * ai) / of_nat (bi + ai) :: rat)" by simp
  ultimately show ?thesis
    using pos out
    by (simp add: compute_out_given_in_def rational_decimals_def or_overflow_def dec_safe_div_def dec_safe_add_def dec_safe_sub_def
        dec_safe_mul_def half_weight_def rat_floor_div del: of_nat_mult of_nat_add)
qed

lemma in_given_out_exact:
  assumes "ao < bo" "bi * ao div (bo - ao) \<le> u128_max"
  shows "compute_in_given_out rational_decimals half_weight half_weight bi bo ao = Inr (bi * ao div (bo - ao))"
proof -
  have pos: "(of_nat bo - of_nat ao :: rat) = of_nat (bo - ao)" "(of_nat (bo - ao) :: rat) \<noteq> 0" using assms(1) by (simp_all add: of_nat_diff)
  then have amount: "of_nat bi * (of_nat bo / of_nat (bo - ao) - 1) = (of_nat (bi * ao) / of_nat (bo - ao) :: rat)"
    using assms(1) by (simp add: field_simps of_nat_diff)
  have "0 \<le> (of_nat (bi * ao) / of_nat (bo - ao) :: rat)" by simp
  then show ?thesis
    using pos amount assms(2)
    by (simp add: compute_in_given_out_def rational_decimals_def or_overflow_def dec_safe_div_def dec_safe_add_def dec_safe_sub_def
        dec_safe_mul_def half_weight_def rat_floor_div del: of_nat_mult of_nat_diff)
qed

text \<open>
  In exact arithmetic the two formulas are inverse to each other but for rounding, in favour of the trader
  who asks for an amount out: the amount in that the second formula asks for is at most what was paid.
\<close>

lemma in_given_out_of_out_given_in:
  assumes "0 < bi" "0 < bo" "bo \<le> u128_max" "ai \<le> u128_max"
  shows "\<exists>ao ai'. compute_out_given_in rational_decimals half_weight half_weight bi bo ai = Inr ao \<and> ao < bo
     \<and> compute_in_given_out rational_decimals half_weight half_weight bi bo ao = Inr ai' \<and> ai' \<le> ai"
proof -
  let ?ao = "bo * ai div (bi + ai)" let ?ai = "bi * ?ao div (bo - ?ao)"
  have le: "?ao * (bi + ai) \<le> bo * ai" by (rule div_times_less_eq_dividend)
  have less: "?ao < bo" using assms by (simp add: div_less_iff_less_mult algebra_simps)
  have "?ao * bi \<le> ai * (bo - ?ao)" using le less by (simp add: algebra_simps diff_mult_distrib2)
  then have "?ai \<le> ai * (bo - ?ao) div (bo - ?ao)" by (intro div_le_mono) (simp add: ac_simps)
  then have ai: "?ai \<le> ai" using less by simp
  then show ?thesis
    using out_given_in_exact [of bi ai bo] in_given_out_exact [of ?ao bo bi] assms less ai by simp
qed

section \<open>Decimals that round\<close>

text \<open>
  \<open>rust_decimal\<close> has a mantissa of 96 bits and at most 28 decimal places: a product or quotient that needs more is
  rounded, with an error below one unit in the 27th significant place, and never across an integer.
\<close>

definition rounds :: "rat \<Rightarrow> rat \<Rightarrow> bool" where
  "rounds q r \<longleftrightarrow> \<bar>r - q\<bar> * 10 ^ 27 \<le> max 1 \<bar>q\<bar> \<and> (\<forall>k :: int. (of_int k \<le> q \<longrightarrow> of_int k \<le> r) \<and> (q \<le> of_int k \<longrightarrow> r \<le> of_int k))"

lemma rounds_int: "rounds (of_int k) r \<Longrightarrow> r = of_int k"
  by (auto simp: rounds_def intro: antisym)

lemma rounds_bounds: "rounds q r \<Longrightarrow> 0 \<le> q \<Longrightarrow> 0 \<le> r" "rounds q r \<Longrightarrow> q \<le> 1 \<Longrightarrow> r \<le> 1"
  using of_int_0 of_int_1 unfolding rounds_def by metis+

lemma rounds_error: "rounds q r \<Longrightarrow> 0 \<le> q \<Longrightarrow> q \<le> m \<Longrightarrow> 1 \<le> m \<Longrightarrow> \<bar>r - q\<bar> * 10 ^ 27 \<le> m"
  by (auto simp: rounds_def)

text \<open>
  What the formulas rely on. Integers convert exactly and add exactly when the sum fits; differences of numbers up to two
  are exact, having at most 28 places; the power with exponent one is the identity; conversion to an integer truncates.
\<close>

locale decimal_laws =
  fixes D :: "'d decimal_ops" and val :: "'d \<Rightarrow> rat"
  assumes from_u128: "dec_from_u128 D n = Some d \<Longrightarrow> val d = of_nat n"
    and from_u32: "dec_from_u32 D n = Some d \<Longrightarrow> val d = of_nat n"
    and is_zero: "dec_is_zero D d \<longleftrightarrow> val d = 0"
    and one: "val (dec_one D) = 1"
    and add: "dec_add D a b = Some c \<Longrightarrow> val a \<in> \<int> \<Longrightarrow> val b \<in> \<int> \<Longrightarrow> val c = val a + val b"
    and sub: "dec_sub D a b = Some c \<Longrightarrow> \<bar>val a\<bar> \<le> 2 \<Longrightarrow> \<bar>val b\<bar> \<le> 2 \<Longrightarrow> val c = val a - val b"
    and mul: "dec_mul D a b = Some c \<Longrightarrow> rounds (val a * val b) (val c)"
    and div: "dec_div D a b = Some c \<Longrightarrow> val b \<noteq> 0 \<Longrightarrow> rounds (val a / val b) (val c)"
    and pow: "dec_pow D a e = Some c \<Longrightarrow> val e = 1 \<Longrightarrow> val c = val a"
    and to_u128: "dec_to_u128 D d = Some n \<Longrightarrow> 0 \<le> val d \<Longrightarrow> n = nat \<lfloor>val d\<rfloor>"
begin

lemma out_given_in_steps:
  assumes "compute_out_given_in D half_weight half_weight bi bo ai = Inr ao" "0 < ai"
  obtains x p where "rounds (of_nat bi / of_nat (bi + ai)) x" "rounds (of_nat bo * (1 - x)) p" "ao = nat \<lfloor>p\<rfloor>" "0 \<le> x" "x \<le> 1" "0 \<le> p"
proof -
  obtain ai' bi' bo' w w' e z x x' y p where run:
    "dec_from_u128 D ai = Some ai'" "dec_from_u128 D bi = Some bi'" "dec_from_u128 D bo = Some bo'"
    "dec_from_u32 D half_weight = Some w" "dec_from_u32 D half_weight = Some w'" "dec_div D w w' = Some e"
    "dec_add D bi' ai' = Some z" "dec_div D bi' z = Some x" "dec_pow D x e = Some x'" "dec_sub D (dec_one D) x' = Some y"
    "dec_mul D bo' y = Some p" "dec_to_u128 D p = Some ao"
    using assms(1)
    by (auto simp: compute_out_given_in_def bindA_def or_overflow_def dec_safe_add_def dec_safe_sub_def dec_safe_mul_def dec_safe_div_def
        split: option.splits if_splits sum.splits)
  have "val z = of_nat (bi + ai)" using add [OF run(7)] from_u128 [OF run(1)] from_u128 [OF run(2)] by simp
  then have x: "rounds (of_nat bi / of_nat (bi + ai)) (val x)" using div [OF run(8)] from_u128 [OF run(2)] assms(2) by simp
  have "rounds (of_int 1) (val e)"
    using div [OF run(6)] from_u32 [OF run(4)] from_u32 [OF run(5)] by (simp add: half_weight_def)
  then have x': "val x' = val x" using rounds_int pow [OF run(9)] by fastforce
  have le: "0 \<le> val x" "val x \<le> 1" using rounds_bounds [OF x] by (simp_all add: divide_le_eq)
  then have "val y = 1 - val x" using sub [OF run(10)] one x' by simp
  then have p: "rounds (of_nat bo * (1 - val x)) (val p)" using mul [OF run(11)] from_u128 [OF run(3)] by simp
  then have "0 \<le> val p" using rounds_bounds(1) [OF p] le by simp
  then show thesis using that [OF x p to_u128 [OF run(12)]] le by simp
qed

text \<open>The amount out is the one of the formula, but for twice the error of the decimals on the balance and the truncation.\<close>

lemma out_given_in_within:
  assumes "compute_out_given_in D half_weight half_weight bi bo ai = Inr ao" "0 < ai"
  shows "10 ^ 27 * (ao * (bi + ai)) \<le> 10 ^ 27 * (bo * ai) + 2 * (bo * (bi + ai))"
    "10 ^ 27 * (bo * ai) < 10 ^ 27 * ((ao + 1) * (bi + ai)) + 2 * (bo * (bi + ai))"
proof -
  let ?B = "of_nat bo :: rat" and ?S = "of_nat (bi + ai) :: rat" and ?E = "10 ^ 27 :: rat"
  obtain x p where x: "rounds (of_nat bi / ?S) x" and p: "rounds (?B * (1 - x)) p" and ao: "ao = nat \<lfloor>p\<rfloor>"
    and le: "0 \<le> x" "x \<le> 1" "0 \<le> p"
    by (rule out_given_in_steps [OF assms])
  have S: "0 < ?S" using assms(2) by simp
  define r where "r = of_nat bi / ?S"
  have ex: "?B * r = ?B - ?B * of_nat ai / ?S" using S by (simp add: r_def field_simps)
  have "\<bar>x - r\<bar> * ?E \<le> 1" using rounds_error [OF x, of 1] S by (simp add: r_def divide_le_eq)
  then have "?B * (\<bar>x - r\<bar> * ?E) \<le> ?B * 1" by (intro mult_left_mono) simp_all
  moreover have "\<bar>?B * x - ?B * r\<bar> = ?B * \<bar>x - r\<bar>" by (simp add: abs_mult flip: right_diff_distrib)
  ultimately have first: "\<bar>?B * x - ?B * r\<bar> * ?E \<le> ?B" by (simp add: mult.assoc)
  have second: "\<bar>p - ?B * (1 - x)\<bar> * ?E \<le> ?B"
  proof (cases "bo = 0")
    case True
    then have "p = of_int 0" using p by (intro rounds_int) simp
    then show ?thesis using True by simp
  next
    case False
    then have "1 \<le> ?B" by (simp add: Suc_leI)
    moreover have "?B * (1 - x) \<le> ?B" using le by (simp add: mult_left_le)
    ultimately show ?thesis using rounds_error [OF p, of ?B] le by simp
  qed
  have v: "?B * of_nat ai / ?S = ?B - ?B * r" using ex by simp
  have "\<bar>p - (?B - ?B * r)\<bar> \<le> \<bar>p - ?B * (1 - x)\<bar> + \<bar>?B * x - ?B * r\<bar>"
    unfolding right_diff_distrib mult_1_right by linarith
  then have "\<bar>p - (?B - ?B * r)\<bar> * ?E \<le> (\<bar>p - ?B * (1 - x)\<bar> + \<bar>?B * x - ?B * r\<bar>) * ?E" by (intro mult_right_mono) simp_all
  then have near: "\<bar>p - ?B * of_nat ai / ?S\<bar> * ?E \<le> 2 * ?B"
    using first second unfolding distrib_right v by linarith
  have "of_nat ao = (of_int \<lfloor>p\<rfloor> :: rat)" using le(3) unfolding ao by simp
  then have n: "of_nat ao \<le> p" "p < of_nat ao + 1" using floor_correct [of p] by simp_all
  have "?E * (p * ?S) \<le> ?E * (?B * of_nat ai) + 2 * (?B * ?S) \<and> ?E * (?B * of_nat ai) \<le> ?E * (p * ?S) + 2 * (?B * ?S)"
  proof -
    have "\<bar>p - ?B * of_nat ai / ?S\<bar> * ?E * ?S \<le> 2 * ?B * ?S" using near S by (intro mult_right_mono) simp_all
    moreover have "\<bar>p - ?B * of_nat ai / ?S\<bar> * ?E * ?S = \<bar>?E * (p * ?S) - ?E * (?B * of_nat ai)\<bar>"
    proof -
      have "\<bar>p - ?B * of_nat ai / ?S\<bar> * ?E * ?S = \<bar>(p - ?B * of_nat ai / ?S) * (?E * ?S)\<bar>" using S by (simp add: abs_mult)
      also have "(p - ?B * of_nat ai / ?S) * (?E * ?S) = ?E * (p * ?S) - ?E * (?B * of_nat ai)" using S by (simp add: field_simps)
      finally show ?thesis .
    qed
    ultimately show ?thesis by (simp add: abs_le_iff algebra_simps)
  qed
  moreover have "?E * (of_nat ao * ?S) \<le> ?E * (p * ?S)" "?E * (p * ?S) < ?E * ((of_nat ao + 1) * ?S)" using n S by simp_all
  ultimately have "?E * (of_nat ao * ?S) \<le> ?E * (?B * of_nat ai) + 2 * (?B * ?S)"
    "?E * (?B * of_nat ai) < ?E * ((of_nat ao + 1) * ?S) + 2 * (?B * ?S)" by linarith+
  then have "(of_nat (10 ^ 27 * (ao * (bi + ai))) :: rat) \<le> of_nat (10 ^ 27 * (bo * ai) + 2 * (bo * (bi + ai)))"
    "(of_nat (10 ^ 27 * (bo * ai)) :: rat) < of_nat (10 ^ 27 * ((ao + 1) * (bi + ai)) + 2 * (bo * (bi + ai)))"
    unfolding of_nat_mult of_nat_add of_nat_power of_nat_numeral of_nat_1 by simp_all
  then show "10 ^ 27 * (ao * (bi + ai)) \<le> 10 ^ 27 * (bo * ai) + 2 * (bo * (bi + ai))"
    "10 ^ 27 * (bo * ai) < 10 ^ 27 * ((ao + 1) * (bi + ai)) + 2 * (bo * (bi + ai))"
    unfolding of_nat_le_iff of_nat_less_iff .
qed

end

text \<open>
  A trade at such an amount takes next to nothing from the product of the two balances: \<open>bi\<close> and \<open>bo\<close> before the trade,
  \<open>bi + ai\<close> or more and \<open>bo - ao\<close> after it.
\<close>

lemma product_kept:
  fixes ao ai bi bo q :: nat
  assumes "10 ^ 27 * (ao * (bi + ai)) \<le> 10 ^ 27 * (bo * ai) + 2 * (bo * (bi + ai))" "ao \<le> bo" "bi + ai \<le> q"
  shows "10 ^ 27 * (bi * bo) \<le> 10 ^ 27 * (q * (bo - ao)) + 2 * (q * bo)"
proof -
  obtain d where "bo = ao + d" using assms(2) by (auto simp: le_iff_add)
  then have "(bi + ai) * (bo - ao) + ao * (bi + ai) = bi * bo + bo * ai" by (simp add: algebra_simps)
  then have "10 ^ 27 * ((bi + ai) * (bo - ao)) + 10 ^ 27 * (ao * (bi + ai)) = 10 ^ 27 * (bi * bo) + 10 ^ 27 * (bo * ai)"
    unfolding add_mult_distrib2 [symmetric] by (rule arg_cong)
  then have "10 ^ 27 * (bi * bo) \<le> 10 ^ 27 * ((bi + ai) * (bo - ao)) + 2 * (bo * (bi + ai))" using assms(1) by linarith
  also have "\<dots> \<le> 10 ^ 27 * (q * (bo - ao)) + 2 * (q * bo)"
    using assms(3) unfolding mult.commute [of bo] by (intro add_mono mult_le_mono) simp_all
  finally show ?thesis .
qed

section \<open>Decimals of 28 places\<close>

text \<open>An instance: rational numbers below \<open>2 ^ 96\<close>, rounded half up to 28 places.\<close>

definition round28 :: "rat \<Rightarrow> rat" where
  "round28 q = of_int \<lfloor>q * 10 ^ 28 + 1 / 2\<rfloor> / 10 ^ 28"

definition fits96 :: "rat \<Rightarrow> rat option" where
  "fits96 q = (if \<bar>q\<bar> < 2 ^ 96 then Some q else None)"

definition decimals28 :: "rat decimal_ops" where
  "decimals28 =
     \<lparr>dec_from_u128 = (\<lambda>n. fits96 (of_nat n)), dec_from_u32 = (\<lambda>n. fits96 (of_nat n)), dec_is_zero = (\<lambda>q. q = 0), dec_one = 1,
      dec_add = (\<lambda>a b. fits96 (a + b)), dec_sub = (\<lambda>a b. fits96 (a - b)), dec_mul = (\<lambda>a b. fits96 (round28 (a * b))),
      dec_div = (\<lambda>a b. fits96 (round28 (a / b))), dec_pow = (\<lambda>a e. if e = 1 then Some a else None),
      dec_to_u128 = (\<lambda>q. if 0 \<le> q then Some (nat \<lfloor>q\<rfloor>) else None)\<rparr>"

lemma rounds_round28: "rounds q (round28 q)"
proof -
  let ?m = "\<lfloor>q * 10 ^ 28 + 1 / 2\<rfloor>"
  have m: "of_int ?m \<le> q * 10 ^ 28 + 1 / 2" "q * 10 ^ 28 + 1 / 2 < of_int ?m + 1" by linarith+
  have "\<bar>round28 q - q\<bar> * 10 ^ 28 = \<bar>of_int ?m - q * 10 ^ 28\<bar>" by (simp add: round28_def abs_if field_simps)
  also have "\<dots> \<le> 1" using m unfolding abs_le_iff by linarith
  finally have "\<bar>round28 q - q\<bar> * 10 ^ 27 \<le> max 1 \<bar>q\<bar>" by simp
  moreover have "of_int k \<le> round28 q" if "of_int k \<le> q" for k
  proof -
    have "of_int (k * 10 ^ 28) \<le> q * 10 ^ 28 + 1 / 2" using that by simp
    then have "k * 10 ^ 28 \<le> ?m" by (simp only: le_floor_iff)
    then have "of_int (k * 10 ^ 28) \<le> (of_int ?m :: rat)" by (simp only: of_int_le_iff)
    then show ?thesis by (simp add: round28_def field_simps)
  qed
  moreover have "round28 q \<le> of_int k" if "q \<le> of_int k" for k
  proof -
    have "q * 10 ^ 28 + 1 / 2 < of_int (k * 10 ^ 28) + 1" using that by simp
    then have "?m \<le> k * 10 ^ 28" by (simp only: floor_le_iff)
    then have "(of_int ?m :: rat) \<le> of_int (k * 10 ^ 28)" by (simp only: of_int_le_iff)
    then show ?thesis by (simp add: round28_def field_simps)
  qed
  ultimately show ?thesis by (simp add: rounds_def)
qed

interpretation decimals28: decimal_laws decimals28 "\<lambda>q. q"
  by unfold_locales (auto simp: decimals28_def fits96_def rounds_round28 split: if_splits)

lemma round28_whole: "q * 10 ^ 28 = of_int k \<Longrightarrow> round28 q = q"
proof -
  assume q: "q * 10 ^ 28 = of_int k"
  have "\<lfloor>of_int k + 1 / 2 :: rat\<rfloor> = k" by linarith
  then show ?thesis using q by (simp add: round28_def field_simps)
qed

text \<open>Where the quotient of the balances has 28 places, the result is the one of the formula; where it has not, it may be one less.\<close>

lemma out_given_in_whole:
  assumes "(bi + ai) dvd bi * 10 ^ 28" "0 < ai" "bi + ai < 2 ^ 96" "bo < 2 ^ 96"
  shows "compute_out_given_in decimals28 half_weight half_weight bi bo ai = Inr (bo * ai div (bi + ai))"
proof -
  let ?S = "of_nat (bi + ai) :: rat" and ?x = "of_nat bi / of_nat (bi + ai) :: rat"
  have S: "0 < ?S" using assms(2) by simp
  obtain k where k: "bi * 10 ^ 28 = (bi + ai) * k" using assms(1) by (elim dvdE)
  then have "(of_nat bi * 10 ^ 28 :: rat) = ?S * of_nat k" by (metis of_nat_mult of_nat_numeral of_nat_power)
  then have x: "?x * 10 ^ 28 = of_nat k" using S by (simp add: field_simps)
  have r1: "round28 ?x = ?x" using x by (intro round28_whole [of _ "int k"]) simp
  have "of_nat bo * (1 - ?x) * 10 ^ 28 = of_nat bo * (10 ^ 28 - ?x * 10 ^ 28)" by (simp only: algebra_simps mult_1)
  also have "\<dots> = of_int (int bo * (10 ^ 28 - int k))" unfolding x by simp
  finally have r2: "round28 (of_nat bo * (1 - ?x)) = of_nat bo * (1 - ?x)" by (rule round28_whole)
  have out: "of_nat bo * (1 - ?x) = of_nat (bo * ai) / ?S" using S by (simp add: field_simps)
  have x01: "0 \<le> ?x" "?x \<le> 1" by (simp_all add: divide_le_eq)
  have "bi < 2 ^ 96" "ai < 2 ^ 96" using assms(3) by linarith+
  then have small: "(of_nat bi :: rat) < 2 ^ 96" "(of_nat ai :: rat) < 2 ^ 96" "?S < 2 ^ 96" "(of_nat bo :: rat) < 2 ^ 96"
    using assms(3,4) by (simp_all only: of_nat_less_numeral_power_cancel_iff)
  have "of_nat bo * (1 - ?x) \<le> of_nat bo" using x01 by (simp add: mult_left_le)
  moreover have "0 \<le> of_nat bo * (1 - ?x)" using x01 by (intro mult_nonneg_nonneg) simp_all
  ultimately have "\<bar>of_nat bo * (1 - ?x)\<bar> < 2 ^ 96" using small(4) by linarith
  moreover have "\<bar>?x\<bar> < 2 ^ 96" "\<bar>1 - ?x\<bar> < 2 ^ 96"
  proof -
    have "\<bar>?x\<bar> \<le> 1" "\<bar>1 - ?x\<bar> \<le> 1" using x01 by linarith+
    moreover have "(1 :: rat) < 2 ^ 96" by simp
    ultimately show "\<bar>?x\<bar> < 2 ^ 96" "\<bar>1 - ?x\<bar> < 2 ^ 96" by (blast intro: le_less_trans)+
  qed
  ultimately have fits: "fits96 ?x = Some ?x" "fits96 (1 - ?x) = Some (1 - ?x)" "fits96 (of_nat bo * (1 - ?x)) = Some (of_nat bo * (1 - ?x))"
    "fits96 (of_nat bi) = Some (of_nat bi)" "fits96 (of_nat ai) = Some (of_nat ai)" "fits96 ?S = Some ?S" "fits96 (of_nat bo) = Some (of_nat bo)"
    using small by (simp_all only: fits96_def abs_of_nat if_True)
  have one: "round28 1 = 1" by (rule round28_whole [of _ "10 ^ 28"]) simp
  have sum: "(of_nat bi + of_nat ai :: rat) = ?S" "?S \<noteq> 0" "fits96 1 = Some 1" "fits96 500000 = Some 500000"
    using S by (simp_all add: fits96_def)
  show ?thesis
    using assms(2) by (simp add: sum one fits [unfolded out] r1 r2 [unfolded out] out fits compute_out_given_in_def decimals28_def or_overflow_def dec_safe_div_def
        dec_safe_add_def dec_safe_sub_def dec_safe_mul_def half_weight_def rat_floor_div del: of_nat_mult of_nat_add)
qed

text \<open>The rounding shows: 100 offered to balances of 200 and 300 pay 99, not the 100 of the formula.\<close>

lemma out_given_in_rounded: "compute_out_given_in decimals28 half_weight half_weight 200 300 100 = Inr 99"
proof -
  have "\<lfloor>2 / 3 * 10 ^ 28 + 1 / 2 :: rat\<rfloor> = 6666666666666666666666666667" by (simp add: floor_eq_iff)
  moreover define c where "c = round28 (2 / 3)"
  then have "c * 10 ^ 28 = of_int \<lfloor>2 / 3 * 10 ^ 28 + 1 / 2 :: rat\<rfloor>" by (simp only: round28_def) simp
  ultimately have x: "round28 (2 / 3) = c" "c * 10 ^ 28 = of_int 6666666666666666666666666667" by (simp_all only: c_def)
  have c: "0 \<le> c" "c \<le> 1" "99 \<le> 300 - 300 * c" "300 - 300 * c < 100" using x(2) by simp_all
  have "(300 - 300 * c) * 10 ^ 28 = 300 * 10 ^ 28 - 300 * (c * 10 ^ 28)" by (simp only: algebra_simps)
  also have "\<dots> = of_int (300 * 10 ^ 28 - 300 * 6666666666666666666666666667)" unfolding x(2) by simp
  finally have p: "round28 (300 - 300 * c) = 300 - 300 * c" by (rule round28_whole)
  have one: "round28 1 = 1" by (rule round28_whole [of _ "10 ^ 28"]) simp
  have "\<lfloor>300 - 300 * c\<rfloor> = 99" using c by (simp add: floor_eq_iff)
  then show ?thesis
    using x(1) p one c by (simp add: compute_out_given_in_def decimals28_def fits96_def or_overflow_def dec_safe_div_def dec_safe_add_def dec_safe_sub_def
        dec_safe_mul_def half_weight_def right_diff_distrib)
qed

end
