(* ===== verification/Uniswap.thy ===== *)
theory Uniswap
  imports Dex Constant_Product
begin

text \<open>
  The constant product exchange (frame/uniswap-v2/src/lib.rs): pools, liquidity, swaps.
\<close>

record ('c, 'd) uniswap_config =
  UAssets :: "'c fungibles"
  UDecimals :: "'d decimal_ops"
  USqrt :: "nat \<Rightarrow> nat option"
  UMulDiv :: mul_div
  UPermill :: permill_ops
  uni_sub_account :: "pool_id \<Rightarrow> account_id"

definition uni_deposit_event :: "dex_event \<Rightarrow> ('c dex, unit) call" where
  "uni_deposit_event e = modifies (\<lambda>s. s\<lparr>uni_events := uni_events s @ [e]\<rparr>)"

definition uni_balance :: "('c, 'd) uniswap_config \<Rightarrow> asset_id \<Rightarrow> account_id \<Rightarrow> 'c dex \<Rightarrow> balance" where
  "uni_balance cfg a x s = f_balance (UAssets cfg) a x (dex_currency s)"

definition uni_transfer ::
  "('c, 'd) uniswap_config \<Rightarrow> asset_id \<Rightarrow> account_id \<Rightarrow> account_id \<Rightarrow> balance \<Rightarrow> bool \<Rightarrow> ('c dex, balance) call" where
  "uni_transfer cfg a x y n keep_alive = on_dex_currency (f_transfer (UAssets cfg) a x y n keep_alive)"

section \<open>Helpers\<close>

definition uni_get_pool :: "pool_id \<Rightarrow> ('c dex, constant_product_pool) call" where
  "uni_get_pool i = bindM (reads UniPools) (\<lambda>m. ok_or (m i) (UniswapErr uniswap_error.PoolNotFound))"

definition uni_account_id :: "('c, 'd) uniswap_config \<Rightarrow> pool_id \<Rightarrow> account_id" where
  "uni_account_id cfg i = uni_sub_account cfg i"

definition uni_do_create_pool :: "account_id \<Rightarrow> currency_pair \<Rightarrow> permill \<Rightarrow> permill \<Rightarrow> ('c dex, pool_id) call" where
  "uni_do_create_pool who pair fee owner_fee = transactional
     (thenM (ensure (base pair \<noteq> quote pair) (UniswapErr uniswap_error.InvalidPair))
     (bindM (ok_or (permill_checked_add fee owner_fee) (Arithmetic arithmetic_error.Overflow)) (\<lambda>total_fees.
      thenM (ensure (total_fees < permill_one) (UniswapErr uniswap_error.InvalidFees))
     (bindM (on_dex_factory (create LP_TOKENS)) (\<lambda>lp_token.
      bindM (try_mutate UniPoolCount (\<lambda>n s. s\<lparr>UniPoolCount := n\<rparr>) (\<lambda>pool_id.
        thenM (modifies (\<lambda>s. s\<lparr>UniPools := (UniPools s)(pool_id \<mapsto>
               \<lparr>cp_owner = who, cp_pair = pair, cp_lp_token = lp_token, cp_fee = fee, cp_owner_fee = owner_fee\<rparr>)\<rparr>))
       (bindM (lift_arith (safe_add u128_max pool_id 1)) (\<lambda>n. ret (pool_id, n))))) (\<lambda>pool_id.
      thenM (uni_deposit_event (PoolCreated pool_id who)) (ret pool_id)))))))"

text \<open>Base amount, quote amount without fees, fee of the providers, fee of the owner.\<close>

definition uni_do_compute_swap ::
  "('c, 'd) uniswap_config \<Rightarrow> pool_id \<Rightarrow> currency_pair \<Rightarrow> balance \<Rightarrow> bool \<Rightarrow>
     ('c dex, balance \<times> balance \<times> balance \<times> balance) call" where
  "uni_do_compute_swap cfg i pair quote_amt apply_fees =
     bindM (uni_get_pool i) (\<lambda>pool.
     bindM (reads (uni_balance cfg (base pair) (uni_account_id cfg i))) (\<lambda>pool_base_aum.
     bindM (reads (uni_balance cfg (quote pair) (uni_account_id cfg i))) (\<lambda>pool_quote_aum.
     let lp_fee = (if apply_fees then permill_mul_floor (UPermill cfg) (cp_fee pool) quote_amt else 0);
         owner_fee = (if apply_fees then permill_mul_floor (UPermill cfg) (cp_owner_fee pool) quote_amt else 0) in
     bindM (lift_arith (safe_sub quote_amt lp_fee)) (\<lambda>without_lp_fee.
     bindM (lift_arith (safe_sub without_lp_fee owner_fee)) (\<lambda>quote_amount_excluding_fees.
     bindM (lift_arith (compute_out_given_in (UDecimals cfg) half_weight half_weight
              pool_quote_aum pool_base_aum quote_amount_excluding_fees)) (\<lambda>base_amount.
     thenM (ensure (0 < base_amount \<and> 0 < quote_amount_excluding_fees) (UniswapErr uniswap_error.InvalidAmount))
       (ret (base_amount, quote_amount_excluding_fees, lp_fee, owner_fee))))))))"

section \<open>The exchange\<close>

definition uni_pool_exists :: "pool_id \<Rightarrow> 'c dex \<Rightarrow> bool" where
  "uni_pool_exists i s = (UniPools s i \<noteq> None)"

definition uni_currency_pair :: "pool_id \<Rightarrow> ('c dex, currency_pair) call" where
  "uni_currency_pair i = bindM (uni_get_pool i) (\<lambda>pool. ret (cp_pair pool))"

definition uni_get_exchange_value ::
  "('c, 'd) uniswap_config \<Rightarrow> pool_id \<Rightarrow> asset_id \<Rightarrow> balance \<Rightarrow> ('c dex, balance) call" where
  "uni_get_exchange_value cfg i asset amount =
     bindM (uni_get_pool i) (\<lambda>pool.
     bindM (reads (uni_balance cfg (base (cp_pair pool)) (uni_account_id cfg i))) (\<lambda>pool_base_aum.
     bindM (reads (uni_balance cfg (quote (cp_pair pool)) (uni_account_id cfg i))) (\<lambda>pool_quote_aum.
     lift_arith
       (if asset = quote (cp_pair pool)
        then compute_out_given_in (UDecimals cfg) half_weight half_weight pool_quote_aum pool_base_aum amount
        else compute_in_given_out (UDecimals cfg) half_weight half_weight pool_quote_aum pool_base_aum amount))))"

definition uni_add_liquidity ::
  "('c, 'd) uniswap_config \<Rightarrow> account_id \<Rightarrow> pool_id \<Rightarrow> balance \<Rightarrow> balance \<Rightarrow> balance \<Rightarrow> bool \<Rightarrow> ('c dex, unit) call" where
  "uni_add_liquidity cfg who i base_amount quote_amt min_mint_amount keep_alive = transactional
     (thenM (ensure (0 < base_amount) (UniswapErr uniswap_error.InvalidAmount))
     (bindM (uni_get_pool i) (\<lambda>pool.
      let pool_account = uni_account_id cfg i in
      bindM (reads (uni_balance cfg (base (cp_pair pool)) pool_account)) (\<lambda>pool_base_aum.
      bindM (reads (uni_balance cfg (quote (cp_pair pool)) pool_account)) (\<lambda>pool_quote_aum.
      bindM (reads (\<lambda>s. f_total_issuance (UAssets cfg) (cp_lp_token pool) (dex_currency s))) (\<lambda>lp_total_issuance.
      bindM (lift_arith (compute_deposit_lp (USqrt cfg) (UMulDiv cfg) lp_total_issuance base_amount quote_amt
               pool_base_aum pool_quote_aum)) (\<lambda>(quote_needed, lp_to_mint).
      thenM (ensure (0 < quote_needed) (UniswapErr uniswap_error.InvalidAmount))
     (thenM (ensure (min_mint_amount \<le> lp_to_mint) (UniswapErr uniswap_error.CannotRespectMinimumRequested))
     (thenM (uni_transfer cfg (base (cp_pair pool)) who pool_account base_amount keep_alive)
     (thenM (uni_transfer cfg (quote (cp_pair pool)) who pool_account quote_needed keep_alive)
     (thenM (on_dex_currency (f_mint_into (UAssets cfg) (cp_lp_token pool) who lp_to_mint))
       (uni_deposit_event (LiquidityAdded i who base_amount quote_needed lp_to_mint)))))))))))))"

definition uni_remove_liquidity ::
  "('c, 'd) uniswap_config \<Rightarrow> account_id \<Rightarrow> pool_id \<Rightarrow> balance \<Rightarrow> balance \<Rightarrow> balance \<Rightarrow> ('c dex, unit) call" where
  "uni_remove_liquidity cfg who i lp_amount min_base_amount min_quote_amount = transactional
     (bindM (uni_get_pool i) (\<lambda>pool.
      let pool_account = uni_account_id cfg i in
      bindM (reads (uni_balance cfg (base (cp_pair pool)) pool_account)) (\<lambda>pool_base_aum.
      bindM (reads (uni_balance cfg (quote (cp_pair pool)) pool_account)) (\<lambda>pool_quote_aum.
      bindM (reads (\<lambda>s. f_total_issuance (UAssets cfg) (cp_lp_token pool) (dex_currency s))) (\<lambda>lp_issued.
      bindM (lift_arith (safe_multiply_by_rational (UMulDiv cfg) lp_amount pool_base_aum lp_issued)) (\<lambda>base_amount.
      bindM (lift_arith (safe_multiply_by_rational (UMulDiv cfg) lp_amount pool_quote_aum lp_issued)) (\<lambda>quote_amt.
      thenM (ensure (min_base_amount \<le> base_amount \<and> min_quote_amount \<le> quote_amt)
               (UniswapErr uniswap_error.CannotRespectMinimumRequested))
     (thenM (uni_transfer cfg (base (cp_pair pool)) pool_account who base_amount False)
     (thenM (uni_transfer cfg (quote (cp_pair pool)) pool_account who quote_amt False)
     (thenM (on_dex_currency (f_burn_from (UAssets cfg) (cp_lp_token pool) who lp_amount))
     (bindM (lift_arith (safe_sub lp_issued lp_amount)) (\<lambda>left.
        uni_deposit_event (LiquidityRemoved i who base_amount quote_amt left)))))))))))))"

definition uni_exchange ::
  "('c, 'd) uniswap_config \<Rightarrow> account_id \<Rightarrow> pool_id \<Rightarrow> currency_pair \<Rightarrow> balance \<Rightarrow> balance \<Rightarrow> bool \<Rightarrow> ('c dex, balance) call" where
  "uni_exchange cfg who i pair quote_amt min_receive keep_alive = transactional
     (bindM (uni_get_pool i) (\<lambda>pool.
      thenM (ensure (pair_eq pair (cp_pair pool)) (UniswapErr uniswap_error.PairMismatch))
     (bindM (uni_do_compute_swap cfg i pair quote_amt True) (\<lambda>(base_amount, quote_without_fees, lp_fees, owner_fees).
      bindM (lift_arith (safe_add u128_max lp_fees owner_fees)) (\<lambda>total_fees.
      bindM (lift_arith (safe_add u128_max quote_without_fees total_fees)) (\<lambda>quote_amount_including_fees.
      thenM (ensure (min_receive \<le> base_amount) (UniswapErr uniswap_error.CannotRespectMinimumRequested))
     (let pool_account = uni_account_id cfg i in
      thenM (uni_transfer cfg (quote pair) who pool_account quote_amount_including_fees keep_alive)
     (thenM (uni_transfer cfg (quote pair) pool_account (cp_owner pool) owner_fees False)
     (thenM (uni_transfer cfg (base pair) pool_account who base_amount False)
     (thenM (uni_deposit_event (Swapped i who (base pair) (quote pair) base_amount quote_without_fees total_fees))
        (ret base_amount)))))))))))"

definition uni_buy ::
  "('c, 'd) uniswap_config \<Rightarrow> account_id \<Rightarrow> pool_id \<Rightarrow> asset_id \<Rightarrow> balance \<Rightarrow> bool \<Rightarrow> ('c dex, balance) call" where
  "uni_buy cfg who i asset amount keep_alive = transactional
     (bindM (uni_get_pool i) (\<lambda>pool.
      let pair = (if asset = base (cp_pair pool) then cp_pair pool else pair_swap (cp_pair pool)) in
      bindM (uni_get_exchange_value cfg i asset amount) (\<lambda>quote_amt.
      uni_exchange cfg who i pair quote_amt 0 keep_alive)))"

definition uni_sell ::
  "('c, 'd) uniswap_config \<Rightarrow> account_id \<Rightarrow> pool_id \<Rightarrow> asset_id \<Rightarrow> balance \<Rightarrow> bool \<Rightarrow> ('c dex, balance) call" where
  "uni_sell cfg who i asset amount keep_alive = transactional
     (bindM (uni_get_pool i) (\<lambda>pool.
      let pair = (if asset = base (cp_pair pool) then pair_swap (cp_pair pool) else cp_pair pool) in
      uni_exchange cfg who i pair amount 0 keep_alive))"

definition uniswap_amm :: "('c, 'd) uniswap_config \<Rightarrow> 'c dex curve_amm" where
  "uniswap_amm cfg =
     \<lparr>amm_pool_exists = uni_pool_exists, amm_currency_pair = uni_currency_pair,
      amm_get_exchange_value = uni_get_exchange_value cfg, amm_buy = uni_buy cfg, amm_sell = uni_sell cfg,
      amm_add_liquidity = uni_add_liquidity cfg, amm_remove_liquidity = uni_remove_liquidity cfg,
      amm_exchange = uni_exchange cfg\<rparr>"

section \<open>Dispatchables\<close>

definition uni_create_call :: "raw_origin \<Rightarrow> currency_pair \<Rightarrow> permill \<Rightarrow> permill \<Rightarrow> ('c dex, unit) call" where
  "uni_create_call orig pair fee owner_fee =
     bindM (ensure_signed orig) (\<lambda>who. thenM (uni_do_create_pool who pair fee owner_fee) (ret ()))"

definition uni_buy_call ::
  "('c, 'd) uniswap_config \<Rightarrow> raw_origin \<Rightarrow> pool_id \<Rightarrow> asset_id \<Rightarrow> balance \<Rightarrow> bool \<Rightarrow> ('c dex, unit) call" where
  "uni_buy_call cfg orig i asset amount keep_alive =
     bindM (ensure_signed orig) (\<lambda>who. thenM (uni_buy cfg who i asset amount keep_alive) (ret ()))"

definition uni_sell_call ::
  "('c, 'd) uniswap_config \<Rightarrow> raw_origin \<Rightarrow> pool_id \<Rightarrow> asset_id \<Rightarrow> balance \<Rightarrow> bool \<Rightarrow> ('c dex, unit) call" where
  "uni_sell_call cfg orig i asset amount keep_alive =
     bindM (ensure_signed orig) (\<lambda>who. thenM (uni_sell cfg who i asset amount keep_alive) (ret ()))"

definition uni_swap_call ::
  "('c, 'd) uniswap_config \<Rightarrow> raw_origin \<Rightarrow> pool_id \<Rightarrow> currency_pair \<Rightarrow> balance \<Rightarrow> balance \<Rightarrow> bool \<Rightarrow> ('c dex, unit) call" where
  "uni_swap_call cfg orig i pair quote_amt min_receive keep_alive =
     bindM (ensure_signed orig) (\<lambda>who. thenM (uni_exchange cfg who i pair quote_amt min_receive keep_alive) (ret ()))"

end
