(* ===== verification/Curve_Maths.thy ===== *)
theory Curve_Maths
  imports Prelude
begin

text \<open>
  The iterations of the stable swap pools (frame/curve-amm/src/maths.rs): the invariant \<open>D\<close> of a pool and the
  balance that keeps it. The unbounded numbers of \<open>sp_runtime::biguint\<close> are natural numbers; their
  division is a parameter.
\<close>

section \<open>Big numbers\<close>

text \<open>A number is stored in limbs of 32 bits, zero in one limb.\<close>

function limbs :: "nat \<Rightarrow> nat" where
  "limbs n = (if n < 2 ^ 32 then 1 else 1 + limbs (n div 2 ^ 32))"
  by auto
termination by (relation "measure id") auto

declare limbs.simps [simp del]

text \<open>
  \<open>div_unit\<close> divides by one limb, \<open>div\<close> by several; its documentation requires a divisor of two limbs
  or more and a dividend longer than the divisor, and it returns \<open>None\<close> otherwise. A
  divisor that is zero is excluded by the documentation of \<open>div_unit\<close>.
\<close>

record big_ops =
  big_div_unit :: "nat \<Rightarrow> nat \<Rightarrow> nat"
  big_div :: "nat \<Rightarrow> nat \<Rightarrow> nat option"

definition exact_big :: "big_ops \<Rightarrow> bool" where
  "exact_big B \<longleftrightarrow>
     (\<forall>a b. 0 < b \<longrightarrow> b < 2 ^ 32 \<longrightarrow> big_div_unit B a b = a div b)
     \<and> (\<forall>a b. big_div B a b = (if limbs b \<le> 1 \<or> limbs a \<le> limbs b then None else Some (a div b)))"

definition reference_big :: big_ops where
  "reference_big =
     \<lparr>big_div_unit = (\<lambda>a b. a div max 1 b),
      big_div = (\<lambda>a b. if limbs b \<le> 1 \<or> limbs a \<le> limbs b then None else Some (a div b))\<rparr>"

definition big_safe_div :: "big_ops \<Rightarrow> nat \<Rightarrow> nat \<Rightarrow> dispatch_error + nat" where
  "big_safe_div B a b =
     (if limbs b = 1 then Inr (big_div_unit B a b)
      else case big_div B a b of None \<Rightarrow> Inl (Arithmetic arithmetic_error.Overflow) | Some q \<Rightarrow> Inr q)"

text \<open>The test that ends both loops, and the conversion of the result to \<open>u128\<close>.\<close>

definition close_to :: "nat \<Rightarrow> nat \<Rightarrow> bool" where
  "close_to d d_prev = (if d_prev < d then d - d_prev \<le> 1 else d_prev - d \<le> 1)"

definition to_u128 :: "nat \<Rightarrow> dispatch_error + nat" where
  "to_u128 n = (if n \<le> u128_max then Inr n else Inl (Arithmetic arithmetic_error.Overflow))"

section \<open>The invariant\<close>

text \<open>One round and the loop of \<open>compute_d\<close>; the first argument counts the rounds that are left.\<close>

definition d_round :: "big_ops \<Rightarrow> nat \<Rightarrow> nat \<Rightarrow> nat \<Rightarrow> nat \<Rightarrow> nat \<Rightarrow> dispatch_error + nat" where
  "d_round B ann sum_aum base_n quote_n d =
     (case big_safe_div B (d * d) base_n of
        Inl e \<Rightarrow> Inl e
      | Inr p \<Rightarrow>
          (case big_safe_div B (p * d) quote_n of
             Inl e \<Rightarrow> Inl e
           | Inr d_p \<Rightarrow> big_safe_div B ((ann * sum_aum + d_p * 2) * d) (d * (ann - 1) + (2 + 1) * d_p)))"

fun d_loop :: "nat \<Rightarrow> big_ops \<Rightarrow> nat \<Rightarrow> nat \<Rightarrow> nat \<Rightarrow> nat \<Rightarrow> nat \<Rightarrow> dispatch_error + nat" where
  "d_loop 0 B ann sum_aum base_n quote_n d = Inl (Other ''could not compute d'')"
| "d_loop (Suc k) B ann sum_aum base_n quote_n d =
     (case d_round B ann sum_aum base_n quote_n d of
        Inl e \<Rightarrow> Inl e
      | Inr d' \<Rightarrow> if close_to d' d then to_u128 d' else d_loop k B ann sum_aum base_n quote_n d')"

definition compute_d :: "big_ops \<Rightarrow> nat \<Rightarrow> nat \<Rightarrow> nat \<Rightarrow> dispatch_error + nat" where
  "compute_d B base_asset_aum quote_asset_aum amp_coeff =
     (let sum_aum = base_asset_aum + quote_asset_aum in
      if sum_aum = 0 then Inr 0
      else
        let ann = amp_coeff * 2 * 2 in
        if ann < 1 then Inl (Arithmetic arithmetic_error.Underflow)
        else d_loop 255 B ann sum_aum (base_asset_aum * 2) (quote_asset_aum * 2) sum_aum)"

section \<open>The balance that keeps the invariant\<close>

text \<open>One round: \<open>y = (y^2 + c) / (2y + b - d)\<close>.\<close>

definition y_round :: "big_ops \<Rightarrow> nat \<Rightarrow> nat \<Rightarrow> nat \<Rightarrow> nat \<Rightarrow> dispatch_error + nat" where
  "y_round B b c d y =
     (if 2 * y + b < d then Inl (Arithmetic arithmetic_error.Underflow)
      else big_safe_div B (y * y + c) (2 * y + b - d))"

fun y_loop :: "nat \<Rightarrow> big_ops \<Rightarrow> nat \<Rightarrow> nat \<Rightarrow> nat \<Rightarrow> nat \<Rightarrow> dispatch_error + nat" where
  "y_loop 0 B b c d y = Inl (Other ''could not compute d'')"
| "y_loop (Suc k) B b c d y =
     (case y_round B b c d y of
        Inl e \<Rightarrow> Inl e
      | Inr y' \<Rightarrow> if close_to y' y then to_u128 y' else y_loop k B b c d y')"

definition compute_base :: "big_ops \<Rightarrow> nat \<Rightarrow> nat \<Rightarrow> nat \<Rightarrow> dispatch_error + nat" where
  "compute_base B new_quote amp_coeff d =
     (let ann = amp_coeff * 2 * 2 in
      case big_safe_div B d ann of
        Inl e \<Rightarrow> Inl e
      | Inr d_ann \<Rightarrow>
          (case big_safe_div B d 2 of
             Inl e \<Rightarrow> Inl e
           | Inr d_n \<Rightarrow>
               (case big_safe_div B (d_ann * d_n * d_n) new_quote of
                  Inl e \<Rightarrow> Inl e
                | Inr c \<Rightarrow> y_loop 255 B (new_quote + d_ann) c d d)))"

section \<open>The second iteration ends\<close>

text \<open>
  The loop looks for the positive root of \<open>t^2 + (b - d) t - c\<close>. \<open>over\<close> is the first natural number above
  the root: all before it have a value of at most zero.
\<close>

definition base_poly :: "nat \<Rightarrow> nat \<Rightarrow> nat \<Rightarrow> int \<Rightarrow> int" where
  "base_poly b c d t = t * t + (int b - int d) * t - int c"

definition over_root :: "nat \<Rightarrow> nat \<Rightarrow> nat \<Rightarrow> nat \<Rightarrow> bool" where
  "over_root b c d m \<longleftrightarrow> 0 < base_poly b c d (int m) \<and> (\<forall>i<m. base_poly b c d (int i) \<le> 0)"

lemma over_root_exists: "\<exists>m. over_root b c d m"
proof -
  let ?n = "c + d + 1"
  have "base_poly b c d (int ?n) = int b * int ?n + (int c + 1) * int ?n - int c"
    by (simp add: base_poly_def algebra_simps)
  moreover have "int c + 1 \<le> (int c + 1) * int ?n" by (simp add: algebra_simps)
  moreover have "0 \<le> int b * int ?n" by simp
  ultimately have "0 < base_poly b c d (int ?n)" by linarith
  then obtain m where "0 < base_poly b c d (int m)" "\<forall>i<m. \<not> 0 < base_poly b c d (int i)"
    using ex_least_nat_le [of "\<lambda>n. 0 < base_poly b c d (int n)" ?n] by blast
  then show ?thesis unfolding over_root_def by (metis linorder_not_less)
qed

lemma over_root_pos: "over_root b c d m \<Longrightarrow> 0 < m"
  by (rule ccontr) (simp add: over_root_def base_poly_def)

lemma over_root_slope:
  assumes "over_root b c d m"
  shows "0 \<le> 2 * int (m - 1) + int b - int d"
proof -
  have m: "int (m - 1) = int m - 1" using over_root_pos [OF assms] by simp
  have "base_poly b c d (int (m - 1)) \<le> 0" "0 < base_poly b c d (int m)"
    using assms over_root_pos [OF assms] unfolding over_root_def by (simp_all del: of_nat_diff)
  then have "0 < base_poly b c d (int m) - base_poly b c d (int m - 1)" using m by simp
  also have "\<dots> = 2 * (int m - 1) + int b - int d + 1" by (simp add: base_poly_def algebra_simps)
  finally show ?thesis unfolding m by linarith
qed

text \<open>A round from any point with a positive divisor ends at the number before \<open>over\<close> or above.\<close>

lemma round_above:
  assumes "over_root b c d m" and y: "d < 2 * y + b" and q: "q = (y * y + c) div (2 * y + b - d)"
  shows "m \<le> q + 1"
proof -
  let ?M = "2 * int y + int b - int d"
  have M: "int (2 * y + b - d) = ?M" using y by simp
  have "y * y + c < (q + 1) * (2 * y + b - d)"
    using dividend_less_div_times [of "2 * y + b - d" "y * y + c"] y q by (simp add: algebra_simps)
  then have "int (y * y + c) < int ((q + 1) * (2 * y + b - d))" by (simp only: of_nat_less_iff)
  then have "int y * int y + int c < (int q + 1) * ?M" using M by (simp only: of_nat_add of_nat_mult of_nat_1)
  then have "int c + 1 \<le> (int q + 1) * ?M - int y * int y" by linarith
  then have "(int q + 1 - int y) * (int q + 1 - int y) + 1 \<le> base_poly b c d (int q + 1)"
    unfolding base_poly_def by (simp add: algebra_simps)
  moreover have "0 \<le> (int q + 1 - int y) * (int q + 1 - int y)" by simp
  ultimately have "0 < base_poly b c d (int q + 1)" by linarith
  then have "0 < base_poly b c d (int (q + 1))" by (simp add: add.commute)
  then show ?thesis using assms(1) unfolding over_root_def by (metis linorder_not_less)
qed

text \<open>The distance to \<open>over\<close> is halved at least.\<close>

lemma round_halves:
  assumes m: "over_root b c d m" and y: "m \<le> y + 1" "d < 2 * y + b" and q: "q = (y * y + c) div (2 * y + b - d)"
  shows "(int q - int m) * (2 * int y + int b - int d) \<le> (int y - int m) * (int y - int m) - 1"
proof -
  let ?M = "2 * int y + int b - int d"
  have M: "int (2 * y + b - d) = ?M" using y by simp
  have "q * (2 * y + b - d) \<le> y * y + c" unfolding q by (rule div_times_less_eq_dividend)
  then have "int (q * (2 * y + b - d)) \<le> int (y * y + c)" by (simp only: of_nat_le_iff)
  then have "int q * ?M \<le> int y * int y + int c" using M by (simp only: of_nat_add of_nat_mult)
  moreover have "int c + 1 \<le> int m * int m + (int b - int d) * int m"
    using m unfolding over_root_def base_poly_def by linarith
  ultimately show ?thesis by (simp add: algebra_simps)
qed

lemma round_bounds:
  assumes m: "over_root b c d m" and y: "m \<le> y + 1" "d < 2 * y + b" and q: "q = (y * y + c) div (2 * y + b - d)"
  shows "q - m \<le> (y - m) div 2" "m = y + 1 \<Longrightarrow> q \<le> m" "y \<le> m + 2 \<Longrightarrow> q \<le> m"
proof -
  let ?M = "2 * int y + int b - int d" and ?e = "int y - int m"
  note half = round_halves [OF m y q]
  have slope: "2 * ?e + 2 \<le> ?M" using over_root_slope [OF m] over_root_pos [OF m] by (simp add: of_nat_diff)
  have pos: "0 < ?M" using y(2) by simp
  show le: "q - m \<le> (y - m) div 2"
  proof (cases "m < q")
    case True
    then have "0 < (int q - int m) * ?M" using pos by simp
    then have e: "0 < ?e * ?e - 1" using half by linarith
    then have e_pos: "0 < ?e" using y(1) by (cases "m \<le> y") (auto simp: le_less)
    have "(int q - int m) * (2 * ?e + 2) \<le> (int q - int m) * ?M"
      by (rule mult_left_mono [OF slope]) (use True in simp)
    then have "(int q - int m) * (2 * ?e + 2) \<le> ?e * ?e" using half by linarith
    then have "2 * (int q - int m) * ?e \<le> ?e * ?e" using True by (simp add: algebra_simps)
    then have "2 * (int q - int m) \<le> ?e" using e_pos by simp
    then have "2 * (q - m) \<le> y - m" using True by arith
    then show ?thesis by simp
  qed simp
  show "q \<le> m" if "m = y + 1"
    using half that pos by (simp add: mult_le_0_iff)
  show "q \<le> m" if "y \<le> m + 2"
  proof (rule ccontr)
    assume "\<not> q \<le> m"
    then have "?M \<le> (int q - int m) * ?M" using pos by simp
    then have "?M \<le> ?e * ?e - 1" using half by linarith
    moreover have "?e = -1 \<or> ?e = 0 \<or> ?e = 1 \<or> ?e = 2" using that y(1) by linarith
    ultimately show False using slope pos by auto
  qed
qed

text \<open>The divisor of the next round is positive, unless the loop has ended.\<close>

lemma next_divisor:
  assumes m: "over_root b c d m" and y: "m \<le> y + 1" "d < 2 * y + b" and q: "q = (y * y + c) div (2 * y + b - d)"
    and far: "\<not> close_to q y"
  shows "d < 2 * q + b"
proof (rule ccontr)
  assume neg: "\<not> d < 2 * q + b"
  have above: "m \<le> q + 1" by (rule round_above [OF m y(2) q])
  have slope: "0 \<le> 2 * (int m - 1) + int b - int d" using over_root_slope [OF m] over_root_pos [OF m] by (simp add: of_nat_diff)
  have eq_m: "q + 1 = m" using neg slope above by arith
  have eq_d: "int b + 2 * int q = int d" using neg slope eq_m by arith
  have "base_poly b c d (int q) \<le> 0" "0 < base_poly b c d (int q + 1)"
    using m eq_m unfolding over_root_def by (metis lessI Suc_eq_plus1, metis of_nat_1 of_nat_add)
  moreover have slope_q: "int b - int d = - (2 * int q)" using eq_d by simp
  ultimately have "0 < base_poly b c d (int q) + 1" unfolding base_poly_def slope_q by (simp add: algebra_simps)
  then have "0 \<le> - (int q * int q + int c)" unfolding base_poly_def slope_q by (simp add: algebra_simps)
  moreover have "0 \<le> int q * int q" by simp
  ultimately have "int q * int q = 0" "int c = 0" by linarith+
  then have zero: "q = 0" "c = 0" by simp_all
  then have "int b = int d" using eq_d by simp
  then have "y div 2 = 0" using q zero y(2) by (simp add: )
  then show False using far zero by (auto simp: close_to_def)
qed

lemma limbs_pos: "0 < limbs n"
  by (subst limbs.simps) simp

lemma limbs_one: "limbs n = Suc 0 \<longleftrightarrow> n < 2 ^ 32"
  using limbs_pos [of "n div 2 ^ 32"] by (subst limbs.simps) simp

lemma big_safe_div_exact:
  assumes "exact_big B" "0 < b"
  shows "big_safe_div B a b = Inr (a div b) \<or> big_safe_div B a b = Inl (Arithmetic arithmetic_error.Overflow)"
  using assms by (auto simp: big_safe_div_def exact_big_def limbs_one split: option.split)

definition ends_at :: "nat \<Rightarrow> dispatch_error + nat \<Rightarrow> bool" where
  "ends_at m r \<longleftrightarrow> r = Inl (Arithmetic arithmetic_error.Overflow) \<or> (\<exists>y. r = Inr y \<and> m \<le> y + 1 \<and> y \<le> m)"

lemma y_loop_step:
  assumes B: "exact_big B" and y: "d < 2 * y + b" and q: "q = (y * y + c) div (2 * y + b - d)"
    and close: "close_to q y \<Longrightarrow> m \<le> q + 1 \<and> q \<le> m"
    and far: "\<not> close_to q y \<Longrightarrow> ends_at m (y_loop k B b c d q)"
  shows "ends_at m (y_loop (Suc k) B b c d y)"
proof -
  from big_safe_div_exact [OF B, of "2 * y + b - d" "y * y + c"] y
  consider "y_round B b c d y = Inr q" | "y_round B b c d y = Inl (Arithmetic arithmetic_error.Overflow)"
    unfolding y_round_def q by fastforce
  then show ?thesis
    using close far by cases (simp_all add: ends_at_def to_u128_def)
qed

lemma y_loop_ends:
  assumes B: "exact_big B" and m: "over_root b c d m"
  shows "m \<le> y + 1 \<Longrightarrow> d < 2 * y + b \<Longrightarrow> y - m < 2 ^ n \<Longrightarrow> ends_at m (y_loop (Suc n + k) B b c d y)"
proof (induction n arbitrary: y k)
  case 0
  let ?q = "(y * y + c) div (2 * y + b - d)"
  have q: "m \<le> ?q + 1" "?q \<le> m"
    using round_above [OF m 0(2) refl] round_bounds(3) [OF m 0(1,2) refl] 0(3) by simp_all
  then have "close_to ?q y" using 0 by (auto simp: close_to_def)
  then show ?case
    using y_loop_step [OF B 0(2) refl, of c m k] q by simp
next
  case (Suc n)
  let ?q = "(y * y + c) div (2 * y + b - d)"
  have above: "m \<le> ?q + 1" by (rule round_above [OF m Suc.prems(2) refl])
  have half: "?q - m \<le> (y - m) div 2" by (rule round_bounds(1) [OF m Suc.prems(1,2) refl])
  have "?q \<le> m" if "close_to ?q y"
    using that half round_bounds(3) [OF m Suc.prems(1,2) refl] by (cases "y \<le> m + 2") (auto simp: close_to_def split: if_splits)
  moreover have "ends_at m (y_loop (Suc n + k) B b c d ?q)" if "\<not> close_to ?q y"
    by (rule Suc.IH [OF above next_divisor [OF m Suc.prems(1,2) refl that]]) (use half Suc.prems(3) in auto)
  ultimately show ?case
    using y_loop_step [OF B Suc.prems(2) refl, of c m "Suc n + k"] above by simp
qed

text \<open>The first round starts at \<open>d\<close>, which may lie below the root; it does not go too far.\<close>

lemma first_round_bound:
  assumes "d \<le> u128_max" "4 * a \<le> d" "4 * c \<le> a * (d * d)" "0 < s"
  shows "(d * d + c) div (d + s + a) < 2 ^ 252"
proof -
  have d: "d \<le> 2 ^ 128" using assms(1) by (simp add: u128_max_def)
  have dd: "d * d \<le> 2 ^ 128 * d" using d by simp
  have "d * d \<le> 2 ^ 128 * 2 ^ 128" using d by (intro mult_le_mono)
  then have dd': "d * d \<le> 2 ^ 256" by (simp flip: power_add)
  have "4 * (d * d + c) < 4 * (2 ^ 252 * (d + 1 + a))"
  proof (cases "a < 16")
    case True
    then have "a * (d * d) \<le> 16 * (d * d)" by (intro mult_le_mono1) simp
    then have "4 * (d * d) + 4 * c \<le> 4 * (d * d) + 16 * (d * d)"
      by (intro add_left_mono) (rule order_trans [OF assms(3)])
    then have "4 * (d * d + c) \<le> 20 * (d * d)" by (simp add: distrib_left)
    also have "\<dots> \<le> 20 * (2 ^ 128 * d)" using dd by simp
    also have "\<dots> < 4 * (2 ^ 252 * (d + 1 + a))" by simp
    finally show ?thesis .
  next
    case False
    have "a * (d * d) \<le> 2 ^ 256 * a" using dd' by simp
    then have "4 * (d * d) + 4 * c \<le> 4 * 2 ^ 256 + 2 ^ 256 * a"
      by (intro add_mono order_trans [OF assms(3)]) (use dd' in simp)
    then have "4 * (d * d + c) \<le> 4 * 2 ^ 256 + 2 ^ 256 * a" by (simp add: distrib_left)
    also have "\<dots> < 4 * (2 ^ 252 * (4 * a + 1 + a))" using False by simp
    also have "\<dots> \<le> 4 * (2 ^ 252 * (d + 1 + a))" using assms(2) by simp
    finally show ?thesis .
  qed
  also have "2 ^ 252 * (d + 1 + a) \<le> 2 ^ 252 * (d + s + a)" using assms(4) by simp
  finally have "d * d + c < 2 ^ 252 * (d + s + a)" by simp
  then show ?thesis by (rule less_mult_imp_div_less)
qed

lemma y_loop_from_d:
  assumes B: "exact_big B" and m: "over_root (s + a) c d m" and "d \<le> u128_max" "4 * a \<le> d" "4 * c \<le> a * (d * d)" "0 < s"
  shows "ends_at m (y_loop 255 B (s + a) c d d)"
proof (cases "m \<le> d + 1")
  case True
  have "d - m < 2 ^ 128" using assms(3) by (simp add: u128_max_def)
  from y_loop_ends [OF B m True _ this, of 126] show ?thesis using assms(6) by simp
next
  case False
  let ?q = "(d * d + c) div (2 * d + (s + a) - d)"
  have pos: "d < 2 * d + (s + a)" using assms(6) by simp
  have above: "m \<le> ?q + 1" by (rule round_above [OF m pos refl])
  have "?q < 2 ^ 252" using first_round_bound [OF assms(3-6)] by (simp add: add.assoc)
  then have "ends_at m (y_loop (Suc 252 + 1) B (s + a) c d ?q)"
    using False above assms(6) by (intro y_loop_ends [OF B m above]) linarith+
  then show ?thesis
    using y_loop_step [OF B pos refl, of c m 254] False above by (simp add: close_to_def)
qed

text \<open>
  C25. The search for the balance that keeps the invariant always ends within its 255 rounds: for any
  amplification and new balance that are not zero and any \<open>u128\<close> invariant \<open>compute_base\<close> never reports
  that it could not compute. It fails only with \<open>Overflow\<close>, which the division of the big numbers or the
  conversion of the result return, and otherwise returns the positive root of the quadratic
  equation of its documentation, rounded down or up.
\<close>

theorem compute_base_terminates:
  assumes "exact_big B" "0 < new_quote" "0 < amp_coeff" "d \<le> u128_max"
  shows "compute_base B new_quote amp_coeff d = Inl (Arithmetic arithmetic_error.Overflow)
    \<or> (\<exists>c y. c = d div (amp_coeff * 4) * (d div 2) * (d div 2) div new_quote
        \<and> compute_base B new_quote amp_coeff d = Inr y
        \<and> (\<forall>i. i + 1 \<le> y \<longrightarrow> base_poly (new_quote + d div (amp_coeff * 4)) c d (int i) \<le> 0)
        \<and> 0 < base_poly (new_quote + d div (amp_coeff * 4)) c d (int y + 1))"
proof -
  let ?a = "d div (amp_coeff * 4)" let ?c = "?a * (d div 2) * (d div 2) div new_quote"
  obtain m where m: "over_root (new_quote + ?a) ?c d m" using over_root_exists by blast
  have "d div (amp_coeff * 4) \<le> d div 4" using assms(3) by (intro div_le_mono2) simp_all
  then have a: "4 * ?a \<le> d" by linarith
  have "(2 * (d div 2)) * (2 * (d div 2)) \<le> d * d" by (intro mult_le_mono) simp_all
  then have "?a * (4 * ((d div 2) * (d div 2))) \<le> ?a * (d * d)" by (intro mult_le_mono2) simp
  moreover have "?c \<le> ?a * (d div 2) * (d div 2)" by (rule div_le_dividend)
  moreover have "4 * (?a * (d div 2) * (d div 2)) = ?a * (4 * ((d div 2) * (d div 2)))" by (simp only: ac_simps)
  ultimately have c: "4 * ?c \<le> ?a * (d * d)" by linarith
  have loop: "ends_at m (y_loop 255 B (new_quote + ?a) ?c d d)"
    by (rule y_loop_from_d [OF assms(1) m assms(4) a c assms(2)])
  have two: "big_safe_div B d 2 = Inr (d div 2)" using assms(1) by (simp add: big_safe_div_def limbs_one exact_big_def)
  have ann: "amp_coeff * 2 * 2 = amp_coeff * 4" by simp
  have "compute_base B new_quote amp_coeff d = Inl (Arithmetic arithmetic_error.Overflow)
      \<or> compute_base B new_quote amp_coeff d = y_loop 255 B (new_quote + ?a) ?c d d"
    using big_safe_div_exact [OF assms(1), of "amp_coeff * 4" d] assms(3)
      big_safe_div_exact [OF assms(1) assms(2), of "?a * (d div 2) * (d div 2)"]
    unfolding compute_base_def Let_def ann two by (auto simp del: y_loop.simps)
  then consider "compute_base B new_quote amp_coeff d = Inl (Arithmetic arithmetic_error.Overflow)"
    | y where "compute_base B new_quote amp_coeff d = Inr y" "m \<le> y + 1" "y \<le> m"
    using loop unfolding ends_at_def by metis
  then show ?thesis
  proof cases
    case (2 y)
    have "base_poly (new_quote + ?a) ?c d (int i) \<le> 0" if "i + 1 \<le> y" for i
      using m that 2(3) unfolding over_root_def by simp
    moreover have "0 < base_poly (new_quote + ?a) ?c d (int y + 1)"
    proof -
      have "0 \<le> 2 * (int m - 1) + int (new_quote + ?a) - int d"
        using over_root_slope [OF m] over_root_pos [OF m] by (simp add: of_nat_diff)
      moreover have "int y + 1 = int m \<or> int y = int m" using 2 by linarith
      moreover have "0 < base_poly (new_quote + ?a) ?c d (int m)" using m by (simp add: over_root_def)
      moreover have "base_poly (new_quote + ?a) ?c d (int m + 1)
          = base_poly (new_quote + ?a) ?c d (int m) + (2 * (int m - 1) + int (new_quote + ?a) - int d) + 3"
        by (simp add: base_poly_def algebra_simps)
      ultimately show ?thesis by auto
    qed
    ultimately show ?thesis using 2(1) by blast
  qed simp
qed

lemma exact_reference_big: "exact_big reference_big"
  by (simp add: exact_big_def reference_big_def)

lemma reference_div: "0 < b \<Longrightarrow> b < 2 ^ 32 \<Longrightarrow> big_safe_div reference_big a b = Inr (a div b)"
  by (simp add: big_safe_div_def limbs_one reference_big_def)

lemma sample_rounds:
  "y_round reference_big 1105 4545 2000 2000 = Inr 1289" "y_round reference_big 1105 4545 2000 1289 = Inr 989"
  "y_round reference_big 1105 4545 2000 989 = Inr 907" "y_round reference_big 1105 4545 2000 907 = Inr 900"
  "y_round reference_big 1105 4545 2000 900 = Inr 900"
  by (simp_all add: y_round_def reference_div)

lemma sample_base: "compute_base reference_big 1100 100 2000 = Inr 900"
proof -
  have "y_loop (Suc (Suc (Suc (Suc (Suc 250))))) reference_big 1105 4545 2000 2000 = Inr 900"
    unfolding y_loop.simps sample_rounds by (simp add: sample_rounds close_to_def to_u128_def u128_max_def)
  then show ?thesis by (simp add: compute_base_def reference_div)
qed

theorem compute_base_terminates_witness:
  "\<exists>c. compute_base reference_big 1100 100 2000 = Inr 900 \<and> 0 < base_poly 1105 c 2000 901"
  using compute_base_terminates [OF exact_reference_big, of 1100 100 2000] sample_base by (auto simp: u128_max_def)

text \<open>
  The invariant of a balanced pool is the sum of its balances: whatever the amplification, \<open>compute_d\<close> stops
  after the first round, or fails with \<open>Overflow\<close> in the division of the big numbers.
\<close>

lemma balanced_invariant:
  assumes "exact_big B" "0 < amp_coeff"
  shows "compute_d B x x amp_coeff \<in> {Inr (2 * x), Inl (Arithmetic arithmetic_error.Overflow)}"
proof (cases "x = 0")
  case False
  let ?S = "x + x" let ?ann = "amp_coeff * 2 * 2"
  have step: "big_safe_div B (?S * ?S) (x * 2) \<in> {Inr ?S, Inl (Arithmetic arithmetic_error.Overflow)}"
    using big_safe_div_exact [OF assms(1), of "x * 2" "?S * ?S"] False by (auto simp: mult_2_right)
  obtain k where k: "?ann = Suc k" using assms(2) by (cases ?ann) simp_all
  have "?S * (?ann - 1) + (2 + 1) * ?S = (?ann + 2) * ?S" unfolding k by simp
  moreover have "(?ann * ?S + ?S * 2) * ?S = ((?ann + 2) * ?S) * ?S" by (simp only: algebra_simps)
  moreover have "((?ann + 2) * ?S) * ?S div ((?ann + 2) * ?S) = ?S"
    by (rule nonzero_mult_div_cancel_left) (use False in simp)
  ultimately have "big_safe_div B ((?ann * ?S + ?S * 2) * ?S) (?S * (?ann - 1) + (2 + 1) * ?S) \<in> {Inr ?S, Inl (Arithmetic arithmetic_error.Overflow)}"
    using big_safe_div_exact [OF assms(1), of "(?ann + 2) * ?S" "((?ann + 2) * ?S) * ?S"] False
    by (metis add_gr_0 insertCI mult_pos_pos not_gr_zero zero_less_numeral)
  with step have "d_round B ?ann ?S (x * 2) (x * 2) ?S \<in> {Inr ?S, Inl (Arithmetic arithmetic_error.Overflow)}"
    unfolding d_round_def by auto
  then have "d_loop (Suc 254) B ?ann ?S (x * 2) (x * 2) ?S \<in> {Inr ?S, Inl (Arithmetic arithmetic_error.Overflow)}"
    unfolding d_loop.simps(2) by (auto simp: close_to_def to_u128_def split: if_splits)
  moreover have "Suc 254 = 255" by simp
  ultimately show ?thesis
    using False assms(2) by (simp add: compute_d_def Let_def mult_2)
qed (simp add: compute_d_def)

end
