(* ===== verification/Curve_Amm.thy ===== *)
theory Curve_Amm
  imports Dex Curve_Maths
begin

text \<open>
  The stable swap exchange (frame/curve-amm/src/lib.rs): pools with an amplification coefficient,
  liquidity with fees on what leaves the balance of the pool, swaps.
\<close>

record 'c curve_config =
  CAssets :: "'c fungibles"
  CBig :: big_ops
  CMulDiv :: mul_div
  CPermill :: permill_ops
  curve_sub_account :: "pool_id \<Rightarrow> account_id"

definition curve_deposit_event :: "dex_event \<Rightarrow> ('c dex, unit) call" where
  "curve_deposit_event e = modifies (\<lambda>s. s\<lparr>curve_events := curve_events s @ [e]\<rparr>)"

definition curve_balance :: "'c curve_config \<Rightarrow> asset_id \<Rightarrow> account_id \<Rightarrow> 'c dex \<Rightarrow> balance" where
  "curve_balance cfg a x s = f_balance (CAssets cfg) a x (dex_currency s)"

definition curve_transfer ::
  "'c curve_config \<Rightarrow> asset_id \<Rightarrow> account_id \<Rightarrow> account_id \<Rightarrow> balance \<Rightarrow> bool \<Rightarrow> ('c dex, balance) call" where
  "curve_transfer cfg a x y n keep_alive = on_dex_currency (f_transfer (CAssets cfg) a x y n keep_alive)"

section \<open>Helpers\<close>

definition curve_get_pool :: "pool_id \<Rightarrow> ('c dex, stable_swap_pool) call" where
  "curve_get_pool i = bindM (reads CurvePools) (\<lambda>m. ok_or (m i) (CurveErr curve_amm_error.PoolNotFound))"

definition curve_account_id :: "'c curve_config \<Rightarrow> pool_id \<Rightarrow> account_id" where
  "curve_account_id cfg i = curve_sub_account cfg i"

definition get_d :: "'c curve_config \<Rightarrow> balance \<Rightarrow> balance \<Rightarrow> balance \<Rightarrow> dispatch_error + balance" where
  "get_d cfg base_asset_aum quote_asset_aum amp_coeff = compute_d (CBig cfg) base_asset_aum quote_asset_aum amp_coeff"

definition get_base :: "'c curve_config \<Rightarrow> balance \<Rightarrow> balance \<Rightarrow> balance \<Rightarrow> dispatch_error + balance" where
  "get_base cfg new_quote amp_coeff d = compute_base (CBig cfg) new_quote amp_coeff d"

definition abs_difference :: "balance \<Rightarrow> balance \<Rightarrow> arithmetic_error + balance" where
  "abs_difference new_balance old_balance =
     (if new_balance < old_balance then safe_sub old_balance new_balance else safe_sub new_balance old_balance)"

definition curve_do_create_pool ::
  "account_id \<Rightarrow> currency_pair \<Rightarrow> nat \<Rightarrow> permill \<Rightarrow> permill \<Rightarrow> ('c dex, pool_id) call" where
  "curve_do_create_pool who pair amp fee protocol_fee = transactional
     (thenM (ensure (base pair \<noteq> quote pair) (CurveErr curve_amm_error.InvalidPair))
     (bindM (ok_or (permill_checked_add fee protocol_fee) (Arithmetic arithmetic_error.Overflow)) (\<lambda>total_fees.
      thenM (ensure (total_fees < 1000000) (CurveErr curve_amm_error.InvalidFees))
     (bindM (on_dex_factory (create LP_TOKENS)) (\<lambda>lp_token.
      bindM (try_mutate CurvePoolCount (\<lambda>n s. s\<lparr>CurvePoolCount := n\<rparr>) (\<lambda>pool_id.
        thenM (modifies (\<lambda>s. s\<lparr>CurvePools := (CurvePools s)(pool_id \<mapsto>
               \<lparr>ss_owner = who, ss_pair = pair, ss_lp_token = lp_token, amplification_coefficient = amp, ss_fee = fee,
                ss_protocol_fee = protocol_fee\<rparr>)\<rparr>))
       (bindM (lift_arith (safe_add u128_max pool_id 1)) (\<lambda>n. ret (pool_id, n))))) (\<lambda>pool_id.
      thenM (curve_deposit_event (PoolCreated pool_id who)) (ret pool_id)))))))"

section \<open>The exchange\<close>

definition curve_pool_exists :: "pool_id \<Rightarrow> 'c dex \<Rightarrow> bool" where
  "curve_pool_exists i s = (CurvePools s i \<noteq> None)"

definition curve_currency_pair :: "pool_id \<Rightarrow> ('c dex, currency_pair) call" where
  "curve_currency_pair i = bindM (curve_get_pool i) (\<lambda>pool. ret (ss_pair pool))"

definition curve_get_exchange_value ::
  "'c curve_config \<Rightarrow> pool_id \<Rightarrow> asset_id \<Rightarrow> balance \<Rightarrow> ('c dex, balance) call" where
  "curve_get_exchange_value cfg i asset amount =
     bindM (curve_get_pool i) (\<lambda>pool.
     let pair = (if asset = base (ss_pair pool) then ss_pair pool else pair_swap (ss_pair pool)) in
     bindM (reads (curve_balance cfg (base pair) (curve_account_id cfg i))) (\<lambda>pool_base_aum.
     bindM (reads (curve_balance cfg (quote pair) (curve_account_id cfg i))) (\<lambda>pool_quote_aum.
     bindM (lift_result (get_d cfg pool_base_aum pool_quote_aum (amplification_coefficient pool))) (\<lambda>d.
     bindM (lift_arith (safe_add u128_max pool_quote_aum amount)) (\<lambda>new_quote_amount.
     bindM (lift_result (get_base cfg new_quote_amount (amplification_coefficient pool) d)) (\<lambda>new_base_amount.
     lift_arith (safe_sub pool_base_aum new_base_amount)))))))"

text \<open>Base amount without fees, quote amount, fee of the providers, fee of the protocol.\<close>

definition curve_do_compute_swap ::
  "'c curve_config \<Rightarrow> pool_id \<Rightarrow> currency_pair \<Rightarrow> balance \<Rightarrow> bool \<Rightarrow>
     ('c dex, balance \<times> balance \<times> balance \<times> balance) call" where
  "curve_do_compute_swap cfg i pair quote_amt apply_fees =
     bindM (curve_get_pool i) (\<lambda>pool.
     bindM (curve_get_exchange_value cfg i (base pair) quote_amt) (\<lambda>base_amount.
     let lp_fee = (if apply_fees then permill_mul_floor (CPermill cfg) (ss_fee pool) base_amount else 0);
         protocol_fee = (if apply_fees then permill_mul_floor (CPermill cfg) (ss_protocol_fee pool) lp_fee else 0) in
     bindM (lift_arith (safe_sub base_amount lp_fee)) (\<lambda>base_amount_excluding_fees.
     ret (base_amount_excluding_fees, quote_amt, lp_fee, protocol_fee))))"

definition curve_exchange ::
  "'c curve_config \<Rightarrow> account_id \<Rightarrow> pool_id \<Rightarrow> currency_pair \<Rightarrow> balance \<Rightarrow> balance \<Rightarrow> bool \<Rightarrow> ('c dex, balance) call" where
  "curve_exchange cfg who i pair quote_amt min_receive keep_alive = transactional
     (bindM (curve_get_pool i) (\<lambda>pool.
      thenM (ensure (pair_eq pair (ss_pair pool)) (CurveErr curve_amm_error.PairMismatch))
     (bindM (curve_do_compute_swap cfg i pair quote_amt True) (\<lambda>(base_amount_excluding_fees, quote_amount, lp_fees, protocol_fees).
      thenM (ensure (min_receive \<le> base_amount_excluding_fees) (CurveErr curve_amm_error.CannotRespectMinimumRequested))
     (let pool_account = curve_account_id cfg i in
      thenM (curve_transfer cfg (quote pair) who pool_account quote_amount keep_alive)
     (thenM (curve_transfer cfg (base pair) pool_account (ss_owner pool) protocol_fees False)
     (thenM (curve_transfer cfg (base pair) pool_account who base_amount_excluding_fees False)
     (bindM (lift_arith (safe_add u128_max lp_fees protocol_fees)) (\<lambda>fee.
      thenM (curve_deposit_event (Swapped i who (base pair) (quote pair) base_amount_excluding_fees quote_amount fee))
        (ret base_amount_excluding_fees))))))))))"

definition curve_buy ::
  "'c curve_config \<Rightarrow> account_id \<Rightarrow> pool_id \<Rightarrow> asset_id \<Rightarrow> balance \<Rightarrow> bool \<Rightarrow> ('c dex, balance) call" where
  "curve_buy cfg who i asset amount keep_alive = transactional
     (bindM (curve_get_pool i) (\<lambda>pool.
      let pair = (if asset = base (ss_pair pool) then ss_pair pool else pair_swap (ss_pair pool)) in
      bindM (curve_get_exchange_value cfg i asset amount) (\<lambda>dx.
      thenM (curve_exchange cfg who i pair dx 0 keep_alive) (ret amount))))"

definition curve_sell ::
  "'c curve_config \<Rightarrow> account_id \<Rightarrow> pool_id \<Rightarrow> asset_id \<Rightarrow> balance \<Rightarrow> bool \<Rightarrow> ('c dex, balance) call" where
  "curve_sell cfg who i asset amount keep_alive = transactional
     (bindM (curve_get_pool i) (\<lambda>pool.
      let pair = (if asset = base (ss_pair pool) then pair_swap (ss_pair pool) else ss_pair pool) in
      curve_exchange cfg who i pair amount 0 keep_alive))"

text \<open>The amount of liquidity token for a deposit, and the fees of the protocol in base and quote.\<close>

definition curve_deposit_lp ::
  "'c curve_config \<Rightarrow> stable_swap_pool \<Rightarrow> balance \<Rightarrow> balance \<Rightarrow> balance \<Rightarrow> balance \<Rightarrow> balance \<Rightarrow> balance \<Rightarrow> balance \<Rightarrow>
     ('c dex, balance \<times> balance \<times> balance) call" where
  "curve_deposit_lp cfg pool pool_base_aum pool_quote_aum new_base_amount new_quote_amount lp_issued d0 d1 =
     (if 0 < lp_issued then
        let P = CPermill cfg;
            share = permill_from_rational P 2 4;
            fee = permill_mul P (ss_fee pool) share in
        bindM (lift_arith (safe_multiply_by_rational (CMulDiv cfg) d1 pool_base_aum d0)) (\<lambda>ideal_base_balance.
        bindM (lift_arith (safe_multiply_by_rational (CMulDiv cfg) d1 pool_quote_aum d0)) (\<lambda>ideal_quote_balance.
        bindM (lift_arith (abs_difference ideal_base_balance new_base_amount)) (\<lambda>base_difference.
        bindM (lift_arith (abs_difference ideal_quote_balance new_quote_amount)) (\<lambda>quote_difference.
        let base_fee = permill_mul_floor P fee base_difference;
            quote_fee = permill_mul_floor P fee quote_difference;
            base_protocol_fee = permill_mul_floor P (ss_protocol_fee pool) base_fee;
            quote_protocol_fee = permill_mul_floor P (ss_protocol_fee pool) quote_fee in
        bindM (lift_arith (safe_sub new_base_amount base_fee)) (\<lambda>new_base_balance.
        bindM (lift_arith (safe_sub new_quote_amount quote_fee)) (\<lambda>new_quote_balance.
        bindM (lift_result (get_d cfg new_base_balance new_quote_balance (amplification_coefficient pool))) (\<lambda>d2.
        bindM (lift_arith (safe_sub d2 d0)) (\<lambda>growth.
        bindM (lift_arith (safe_multiply_by_rational (CMulDiv cfg) lp_issued growth d0)) (\<lambda>mint_amount.
        ret (mint_amount, base_protocol_fee, quote_protocol_fee))))))))))
      else ret (d1, 0, 0))"

definition curve_add_liquidity ::
  "'c curve_config \<Rightarrow> account_id \<Rightarrow> pool_id \<Rightarrow> balance \<Rightarrow> balance \<Rightarrow> balance \<Rightarrow> bool \<Rightarrow> ('c dex, unit) call" where
  "curve_add_liquidity cfg who i base_amount quote_amt min_mint_amount keep_alive = transactional
     (thenM (ensure (0 < base_amount) (CurveErr AssetAmountMustBePositiveNumber))
     (thenM (ensure (0 < quote_amt) (CurveErr AssetAmountMustBePositiveNumber))
     (bindM (curve_get_pool i) (\<lambda>pool.
      let pool_account = curve_account_id cfg i in
      bindM (reads (curve_balance cfg (base (ss_pair pool)) pool_account)) (\<lambda>pool_base_aum.
      bindM (reads (curve_balance cfg (quote (ss_pair pool)) pool_account)) (\<lambda>pool_quote_aum.
      bindM (reads (\<lambda>s. f_total_issuance (CAssets cfg) (ss_lp_token pool) (dex_currency s))) (\<lambda>lp_issued.
      bindM (lift_result (get_d cfg pool_base_aum pool_quote_aum (amplification_coefficient pool))) (\<lambda>d0.
      bindM (lift_arith (safe_add u128_max pool_base_aum base_amount)) (\<lambda>new_base_amount.
      bindM (lift_arith (safe_add u128_max pool_quote_aum quote_amt)) (\<lambda>new_quote_amount.
      bindM (lift_result (get_d cfg new_base_amount new_quote_amount (amplification_coefficient pool))) (\<lambda>d1.
      thenM (ensure (d0 < d1) (CurveErr AssetAmountMustBePositiveNumber))
     (bindM (curve_deposit_lp cfg pool pool_base_aum pool_quote_aum new_base_amount new_quote_amount lp_issued d0 d1)
        (\<lambda>(mint_amount, base_protocol_fee, quote_protocol_fee).
      thenM (ensure (min_mint_amount \<le> mint_amount) (CurveErr RequiredAmountNotReached))
     (thenM (curve_transfer cfg (base (ss_pair pool)) who pool_account base_amount keep_alive)
     (thenM (curve_transfer cfg (quote (ss_pair pool)) who pool_account quote_amt keep_alive)
     (thenM (curve_transfer cfg (base (ss_pair pool)) pool_account (ss_owner pool) base_protocol_fee keep_alive)
     (thenM (curve_transfer cfg (quote (ss_pair pool)) pool_account (ss_owner pool) quote_protocol_fee keep_alive)
     (thenM (on_dex_currency (f_mint_into (CAssets cfg) (ss_lp_token pool) who mint_amount))
       (curve_deposit_event (LiquidityAdded i who base_amount quote_amt mint_amount))))))))))))))))))))"

definition curve_remove_liquidity ::
  "'c curve_config \<Rightarrow> account_id \<Rightarrow> pool_id \<Rightarrow> balance \<Rightarrow> balance \<Rightarrow> balance \<Rightarrow> ('c dex, unit) call" where
  "curve_remove_liquidity cfg who i lp_amount min_base_amount min_quote_amount = transactional
     (bindM (curve_get_pool i) (\<lambda>pool.
      let pool_account = curve_account_id cfg i in
      bindM (reads (curve_balance cfg (base (ss_pair pool)) pool_account)) (\<lambda>pool_base_aum.
      bindM (reads (curve_balance cfg (quote (ss_pair pool)) pool_account)) (\<lambda>pool_quote_aum.
      bindM (reads (\<lambda>s. f_total_issuance (CAssets cfg) (ss_lp_token pool) (dex_currency s))) (\<lambda>lp_issued.
      bindM (lift_arith (safe_multiply_by_rational (CMulDiv cfg) lp_amount pool_base_aum lp_issued)) (\<lambda>base_amount.
      bindM (lift_arith (safe_multiply_by_rational (CMulDiv cfg) lp_amount pool_quote_aum lp_issued)) (\<lambda>quote_amt.
      thenM (ensure (min_base_amount \<le> base_amount \<and> min_quote_amount \<le> quote_amt)
               (CurveErr curve_amm_error.CannotRespectMinimumRequested))
     (bindM (lift_arith (safe_sub lp_issued lp_amount)) (\<lambda>left.
      thenM (curve_transfer cfg (base (ss_pair pool)) pool_account who base_amount False)
     (thenM (curve_transfer cfg (quote (ss_pair pool)) pool_account who quote_amt False)
     (thenM (on_dex_currency (f_burn_from (CAssets cfg) (ss_lp_token pool) who lp_amount))
        (curve_deposit_event (LiquidityRemoved i who base_amount quote_amt left)))))))))))))"

definition curve_amm_of :: "'c curve_config \<Rightarrow> 'c dex curve_amm" where
  "curve_amm_of cfg =
     \<lparr>amm_pool_exists = curve_pool_exists, amm_currency_pair = curve_currency_pair,
      amm_get_exchange_value = curve_get_exchange_value cfg, amm_buy = curve_buy cfg, amm_sell = curve_sell cfg,
      amm_add_liquidity = curve_add_liquidity cfg, amm_remove_liquidity = curve_remove_liquidity cfg,
      amm_exchange = curve_exchange cfg\<rparr>"

section \<open>Dispatchables\<close>

definition curve_create_call ::
  "raw_origin \<Rightarrow> currency_pair \<Rightarrow> nat \<Rightarrow> permill \<Rightarrow> permill \<Rightarrow> ('c dex, unit) call" where
  "curve_create_call orig pair amp fee owner_fee =
     bindM (ensure_signed orig) (\<lambda>who. thenM (curve_do_create_pool who pair amp fee owner_fee) (ret ()))"

definition curve_buy_call ::
  "'c curve_config \<Rightarrow> raw_origin \<Rightarrow> pool_id \<Rightarrow> asset_id \<Rightarrow> balance \<Rightarrow> bool \<Rightarrow> ('c dex, unit) call" where
  "curve_buy_call cfg orig i asset amount keep_alive =
     bindM (ensure_signed orig) (\<lambda>who. thenM (curve_buy cfg who i asset amount keep_alive) (ret ()))"

definition curve_sell_call ::
  "'c curve_config \<Rightarrow> raw_origin \<Rightarrow> pool_id \<Rightarrow> asset_id \<Rightarrow> balance \<Rightarrow> bool \<Rightarrow> ('c dex, unit) call" where
  "curve_sell_call cfg orig i asset amount keep_alive =
     bindM (ensure_signed orig) (\<lambda>who. thenM (curve_sell cfg who i asset amount keep_alive) (ret ()))"

definition curve_swap_call ::
  "'c curve_config \<Rightarrow> raw_origin \<Rightarrow> pool_id \<Rightarrow> currency_pair \<Rightarrow> balance \<Rightarrow> balance \<Rightarrow> bool \<Rightarrow> ('c dex, unit) call" where
  "curve_swap_call cfg orig i pair quote_amt min_receive keep_alive =
     bindM (ensure_signed orig) (\<lambda>who. thenM (curve_exchange cfg who i pair quote_amt min_receive keep_alive) (ret ()))"

end
