(* ===== verification/Dex_Router.thy ===== *)
theory Dex_Router
  imports Uniswap Curve_Amm
begin

text \<open>
  The router (frame/dex-router/src/lib.rs): a table of routes, lists of pools of two exchanges, and
  the trades along a route. The exchanges are parameters with the interface \<open>CurveAmm\<close>.
\<close>

section \<open>The model\<close>

record 'c router_config =
  StableSwapDex :: "'c dex curve_amm"
  ConstantProductDex :: "'c dex curve_amm"
  MaxHopsInRoute :: nat

definition route_deposit_event :: "route_event \<Rightarrow> ('c dex, unit) call" where
  "route_deposit_event e = modifies (\<lambda>s. s\<lparr>route_events := route_events s @ [e]\<rparr>)"

text \<open>The exchange of a node of a route, and its pool.\<close>

definition node_amm :: "'c router_config \<Rightarrow> dex_route_node \<Rightarrow> 'c dex curve_amm" where
  "node_amm cfg r = (case r of CurvePool _ \<Rightarrow> StableSwapDex cfg | UniswapPool _ \<Rightarrow> ConstantProductDex cfg)"

definition node_pool :: "dex_route_node \<Rightarrow> pool_id" where
  "node_pool r = (case r of CurvePool i \<Rightarrow> i | UniswapPool i \<Rightarrow> i)"

definition check_node :: "'c router_config \<Rightarrow> dex_route_node \<Rightarrow> ('c dex, unit) call" where
  "check_node cfg r =
     bindM (reads (amm_pool_exists (node_amm cfg r) (node_pool r))) (\<lambda>b. ensure b (RouterErr PoolDoesNotExist))"

definition do_update_route ::
  "'c router_config \<Rightarrow> account_id \<Rightarrow> currency_pair \<Rightarrow> dex_route_node list \<Rightarrow> ('c dex, unit) call" where
  "do_update_route cfg who asset_pair route =
     thenM (for_each route (check_node cfg))
    (bindM (reads (\<lambda>s. DexRoutes s (base asset_pair, quote asset_pair))) (\<lambda>existing_route.
     thenM (modifies (\<lambda>s. s\<lparr>DexRoutes := (DexRoutes s)((base asset_pair, quote asset_pair) \<mapsto> Direct route)\<rparr>))
       (route_deposit_event
         (case existing_route of
            Some (Direct old_route) \<Rightarrow> RouteUpdated who (base asset_pair) (quote asset_pair) old_route route
          | None \<Rightarrow> RouteAdded who (base asset_pair) (quote asset_pair) route))))"

definition do_delete_route :: "account_id \<Rightarrow> currency_pair \<Rightarrow> ('c dex, unit) call" where
  "do_delete_route who asset_pair =
     bindM (reads (\<lambda>s. DexRoutes s (base asset_pair, quote asset_pair))) (\<lambda>v.
     thenM (modifies (\<lambda>s. s\<lparr>DexRoutes := (DexRoutes s)((base asset_pair, quote asset_pair) := None)\<rparr>))
       (case v of
          Some (Direct deleted_route) \<Rightarrow> route_deposit_event (RouteDeleted who (base asset_pair) (quote asset_pair) deleted_route)
        | None \<Rightarrow> ret ()))"

text \<open>
  The argument of \<open>update_route\<close> is a \<open>BoundedVec\<close>: a longer list is not a value of the type, which the first test
  stands for.
\<close>

definition update_route ::
  "'c router_config \<Rightarrow> account_id \<Rightarrow> currency_pair \<Rightarrow> dex_route_node list option \<Rightarrow> ('c dex, unit) call" where
  "update_route cfg who asset_pair route =
     (case route of
        Some bounded_route \<Rightarrow>
          thenM (ensure (length bounded_route \<le> MaxHopsInRoute cfg) (RouterErr MaxHopsExceeded))
            (do_update_route cfg who asset_pair bounded_route)
      | None \<Rightarrow> do_delete_route who asset_pair)"

definition get_route :: "currency_pair \<Rightarrow> 'c dex \<Rightarrow> dex_route_node list option" where
  "get_route asset_pair s =
     (case DexRoutes s (base asset_pair, quote asset_pair) of None \<Rightarrow> None | Some (Direct route) \<Rightarrow> Some route)"

text \<open>A hop: the pair is that of the pool, whatever the assets of the route.\<close>

definition hop :: "'c router_config \<Rightarrow> account_id \<Rightarrow> dex_route_node \<Rightarrow> balance \<Rightarrow> ('c dex, balance) call" where
  "hop cfg who r dx =
     bindM (amm_currency_pair (node_amm cfg r) (node_pool r)) (\<lambda>pair.
     amm_exchange (node_amm cfg r) who (node_pool r) pair dx 0 True)"

fun exchange_along ::
  "'c router_config \<Rightarrow> account_id \<Rightarrow> dex_route_node list \<Rightarrow> balance \<Rightarrow> balance \<Rightarrow> ('c dex, balance) call" where
  "exchange_along cfg who [] dx_t dy_t = ret dy_t"
| "exchange_along cfg who (r # rs) dx_t dy_t = bindM (hop cfg who r dx_t) (\<lambda>dy. exchange_along cfg who rs dy dy)"

definition router_exchange :: "'c router_config \<Rightarrow> account_id \<Rightarrow> currency_pair \<Rightarrow> balance \<Rightarrow> ('c dex, balance) call" where
  "router_exchange cfg who asset_pair dx =
     bindM (reads (get_route asset_pair)) (\<lambda>v.
     bindM (ok_or v (RouterErr NoRouteFound)) (\<lambda>route. exchange_along cfg who route dx 0))"

definition router_sell :: "'c router_config \<Rightarrow> account_id \<Rightarrow> currency_pair \<Rightarrow> balance \<Rightarrow> ('c dex, balance) call" where
  "router_sell cfg who asset_pair amount = router_exchange cfg who asset_pair amount"

text \<open>The value along the route, taken backwards.\<close>

fun value_along :: "'c router_config \<Rightarrow> dex_route_node list \<Rightarrow> balance \<Rightarrow> balance \<Rightarrow> ('c dex, balance) call" where
  "value_along cfg [] dy_t dx_t = ret dx_t"
| "value_along cfg (r # rs) dy_t dx_t =
     bindM (amm_currency_pair (node_amm cfg r) (node_pool r)) (\<lambda>pair.
     bindM (amm_get_exchange_value (node_amm cfg r) (node_pool r) (base pair) dy_t) (\<lambda>dx. value_along cfg rs dx dx))"

fun buy_along :: "'c router_config \<Rightarrow> account_id \<Rightarrow> dex_route_node list \<Rightarrow> balance \<Rightarrow> ('c dex, balance) call" where
  "buy_along cfg who [] dx_t = ret dx_t"
| "buy_along cfg who (r # rs) dx_t = bindM (hop cfg who r dx_t) (\<lambda>dy. buy_along cfg who rs dy)"

definition router_buy :: "'c router_config \<Rightarrow> account_id \<Rightarrow> currency_pair \<Rightarrow> balance \<Rightarrow> ('c dex, balance) call" where
  "router_buy cfg who asset_pair amount =
     bindM (reads (get_route asset_pair)) (\<lambda>v.
     bindM (ok_or v (RouterErr NoRouteFound)) (\<lambda>route.
     bindM (value_along cfg (rev route) amount 0) (\<lambda>dx. buy_along cfg who route dx)))"

end
