(* ===== verification/Dex_Properties.thy ===== *)
theory Dex_Properties
  imports Dex_Router Assets
begin

text \<open>
  What the two exchanges and the router guarantee. The exchanges meet one contract, the locale
  \<open>amm_contract\<close>, and the trades along a route are verified against it.
\<close>

section \<open>The currency\<close>

locale dex_ledger = fungibles_ledger F for F :: "'c fungibles" +
  assumes no_dust: "dust_free F a"
begin

lemma transferred:
  assumes "f_transfer F a x y n k c = (Inr m, d)"
  shows "balances F d = moved a x y n (balances F c)" "issuance F d = issuance F c"
  using transfer_balances [OF assms] transfer_issuance [OF assms] no_dust by simp_all

text \<open>In additive form: what an account has and has paid is what it had and has been paid.\<close>

lemma transfer_adds:
  assumes "f_transfer F a x y n k c = (Inr m, d)"
  shows "f_balance F b z d + (if b = a \<and> z = x \<and> x \<noteq> y then n else 0)
       = f_balance F b z c + (if b = a \<and> z = y \<and> x \<noteq> y then n else 0)"
  using transfer_balance [OF assms, of b z] transfer_enough [OF assms] no_dust by auto

lemma mint_adds:
  assumes "f_mint_into F a x n c = (Inr m, d)"
  shows "f_balance F b z d = f_balance F b z c + (if b = a \<and> z = x then n else 0)"
    "f_total_issuance F b d = f_total_issuance F b c + (if b = a then n else 0)"
  using mint_balance [OF assms, of b z] mint_total [OF assms, of b] by auto

lemma burn_adds:
  assumes "f_burn_from F a x n c = (Inr m, d)"
  shows "f_balance F b z d + (if b = a \<and> z = x then n else 0) = f_balance F b z c"
    "b \<noteq> a \<Longrightarrow> f_total_issuance F b d = f_total_issuance F b c" "f_total_issuance F a d = f_total_issuance F a c - n"
  using burn_balance [OF assms no_dust, of b z] burn_total [OF assms no_dust] burn_enough [OF assms] by auto

lemma transfer_keeps_total: "f_transfer F a x y n k c = (Inr m, d) \<Longrightarrow> f_total_issuance F b d = f_total_issuance F b c"
  using transfer_total no_dust by blast

end

lemma on_dex_currency_ok [ok_simps]:
  "on_dex_currency m s = (Inr r, t) \<longleftrightarrow> (\<exists>c. m (dex_currency s) = (Inr r, c) \<and> t = s\<lparr>dex_currency := c\<rparr>)"
  by (auto simp: on_dex_currency_def ok_simps)

lemma uni_get_pool_ok [ok_simps]: "uni_get_pool i s = (Inr p, t) \<longleftrightarrow> UniPools s i = Some p \<and> t = s"
  by (auto simp: uni_get_pool_def ok_simps)

lemma curve_get_pool_ok [ok_simps]: "curve_get_pool i s = (Inr p, t) \<longleftrightarrow> CurvePools s i = Some p \<and> t = s"
  by (auto simp: curve_get_pool_def ok_simps)

lemma keeps_get_pool [keeps_intros]: "keeps (uni_get_pool i)" "keeps (curve_get_pool i)"
  unfolding uni_get_pool_def curve_get_pool_def by (intro keeps_intros)+

lemma keeps_exchange_value [keeps_intros]:
  "keeps (uni_get_exchange_value cfg i a n)" "keeps (curve_get_exchange_value cfg' i a n)"
  unfolding uni_get_exchange_value_def curve_get_exchange_value_def Let_def by (intro keeps_intros)+

section \<open>The contract of an exchange\<close>

text \<open>
  \<open>pair_of\<close> is the pair of a pool and \<open>insider\<close> holds of its account and its owner. A trade of an outsider
  costs exactly the amount offered of the quote asset of the pair and yields exactly the amount that is returned of
  the base asset.
\<close>

locale amm_contract =
  fixes A :: "'c dex curve_amm" and F :: "'c fungibles"
    and pair_of :: "pool_id \<Rightarrow> 'c dex \<Rightarrow> currency_pair option" and insider :: "pool_id \<Rightarrow> 'c dex \<Rightarrow> account_id \<Rightarrow> bool"
  assumes amm_exists: "amm_pool_exists A i s \<longleftrightarrow> pair_of i s \<noteq> None"
    and amm_pair: "amm_currency_pair A i s = (Inr p, t) \<longleftrightarrow> pair_of i s = Some p \<and> t = s"
    and amm_value_keeps: "keeps (amm_get_exchange_value A i a n)"
    and amm_exchange_atomic: "atomic (amm_exchange A who i p n m k)"
    and amm_exchange_frame:
      "amm_exchange A who i p n m k s = (Inr r, t) \<Longrightarrow>
         UniPools t = UniPools s \<and> CurvePools t = CurvePools s \<and> DexRoutes t = DexRoutes s \<and> m \<le> r"
    and amm_exchange_issuance:
      "amm_exchange A who i p n m k s = (Inr r, t) \<Longrightarrow> issuance F (dex_currency t) = issuance F (dex_currency s)"
    and amm_exchange_settles:
      "amm_exchange A who i p n m k s = (Inr r, t) \<Longrightarrow> base p \<noteq> quote p \<Longrightarrow> \<not> insider i s who \<Longrightarrow>
         f_balance F b who (dex_currency t) + (if b = quote p then n else 0)
         = f_balance F b who (dex_currency s) + (if b = base p then r else 0)"

section \<open>The constant product exchange\<close>

definition uni_pair_of :: "pool_id \<Rightarrow> 'c dex \<Rightarrow> currency_pair option" where
  "uni_pair_of i s = map_option cp_pair (UniPools s i)"

definition uni_insider :: "('c, 'd) uniswap_config \<Rightarrow> pool_id \<Rightarrow> 'c dex \<Rightarrow> account_id \<Rightarrow> bool" where
  "uni_insider cfg i s x \<longleftrightarrow> x = uni_account_id cfg i \<or> (\<exists>pool. UniPools s i = Some pool \<and> x = cp_owner pool)"

locale uniswap_ledger = dex_ledger "UAssets cfg" for cfg :: "('c, 'd) uniswap_config"
begin

text \<open>A swap: who pays what to whom.\<close>

lemma uni_exchange_run:
  assumes "uni_exchange cfg who i p q mn k s = (Inr n, t)"
  shows "\<exists>pool net k1 k2 k3 c1 c2 c3 e. UniPools s i = Some pool \<and> pair_eq p (cp_pair pool)
     \<and> net + permill_mul_floor (UPermill cfg) (cp_fee pool) q + permill_mul_floor (UPermill cfg) (cp_owner_fee pool) q = q
     \<and> 0 < net \<and> 0 < n \<and> mn \<le> n
     \<and> compute_out_given_in (UDecimals cfg) half_weight half_weight (uni_balance cfg (quote p) (uni_account_id cfg i) s)
         (uni_balance cfg (base p) (uni_account_id cfg i) s) net = Inr n
     \<and> f_transfer (UAssets cfg) (quote p) who (uni_account_id cfg i) q k (dex_currency s) = (Inr k1, c1)
     \<and> f_transfer (UAssets cfg) (quote p) (uni_account_id cfg i) (cp_owner pool)
         (permill_mul_floor (UPermill cfg) (cp_owner_fee pool) q) False c1 = (Inr k2, c2)
     \<and> f_transfer (UAssets cfg) (base p) (uni_account_id cfg i) who n False c2 = (Inr k3, c3)
     \<and> t = s\<lparr>dex_currency := c3, uni_events := e\<rparr>"
proof -
  let ?acc = "uni_account_id cfg i" and ?F = "UAssets cfg"
  let ?lp = "\<lambda>pool. permill_mul_floor (UPermill cfg) (cp_fee pool) q" and ?ow = "\<lambda>pool. permill_mul_floor (UPermill cfg) (cp_owner_fee pool) q"
  from assms obtain pool without net fees total c1 c2 c3 k1 k2 k3 where
    pool: "UniPools s i = Some pool" "pair_eq p (cp_pair pool)"
    and fees: "safe_sub q (?lp pool) = Inr without" "safe_sub without (?ow pool) = Inr net"
      "safe_add u128_max (?lp pool) (?ow pool) = Inr fees" "safe_add u128_max net fees = Inr total"
    and out: "compute_out_given_in (UDecimals cfg) half_weight half_weight (uni_balance cfg (quote p) ?acc s) (uni_balance cfg (base p) ?acc s) net = Inr n"
      "0 < n" "0 < net" "mn \<le> n"
    and run: "f_transfer ?F (quote p) who ?acc total k (dex_currency s) = (Inr k1, c1)"
      "f_transfer ?F (quote p) ?acc (cp_owner pool) (?ow pool) False c1 = (Inr k2, c2)"
      "f_transfer ?F (base p) ?acc who n False c2 = (Inr k3, c3)"
    and t: "\<exists>e. t = s\<lparr>dex_currency := c3, uni_events := e\<rparr>"
    unfolding uni_exchange_def uni_do_compute_swap_def uni_transfer_def uni_deposit_event_def ok_simps Let_def by force
  have net: "net + ?lp pool + ?ow pool = q" "total = q" using fees by (auto simp: safe_add_ok safe_sub_ok)
  with pool out run t show ?thesis by blast
qed

text \<open>Deposits and withdrawals of a provider.\<close>

lemma uni_add_run:
  assumes "uni_add_liquidity cfg who i b q mn k s = (Inr x, t)" "UniPools s i = Some pool"
  shows "\<exists>needed l k1 k2 k3 c1 c2 c3 e. 0 < b \<and> 0 < needed \<and> mn \<le> l
     \<and> compute_deposit_lp (USqrt cfg) (UMulDiv cfg) (f_total_issuance (UAssets cfg) (cp_lp_token pool) (dex_currency s)) b q
         (uni_balance cfg (base (cp_pair pool)) (uni_account_id cfg i) s) (uni_balance cfg (quote (cp_pair pool)) (uni_account_id cfg i) s)
       = Inr (needed, l)
     \<and> f_transfer (UAssets cfg) (base (cp_pair pool)) who (uni_account_id cfg i) b k (dex_currency s) = (Inr k1, c1)
     \<and> f_transfer (UAssets cfg) (quote (cp_pair pool)) who (uni_account_id cfg i) needed k c1 = (Inr k2, c2)
     \<and> f_mint_into (UAssets cfg) (cp_lp_token pool) who l c2 = (Inr k3, c3) \<and> t = s\<lparr>dex_currency := c3, uni_events := e\<rparr>"
  using assms unfolding uni_add_liquidity_def uni_transfer_def uni_deposit_event_def ok_simps Let_def by fastforce

lemma uni_remove_run:
  assumes "uni_remove_liquidity cfg who i l mb mq s = (Inr x, t)" "UniPools s i = Some pool"
  shows "\<exists>b q k1 k2 k3 c1 c2 c3 e. mb \<le> b \<and> mq \<le> q \<and> l \<le> f_total_issuance (UAssets cfg) (cp_lp_token pool) (dex_currency s)
     \<and> UMulDiv cfg l (uni_balance cfg (base (cp_pair pool)) (uni_account_id cfg i) s)
         (f_total_issuance (UAssets cfg) (cp_lp_token pool) (dex_currency s)) = Some b
     \<and> UMulDiv cfg l (uni_balance cfg (quote (cp_pair pool)) (uni_account_id cfg i) s)
         (f_total_issuance (UAssets cfg) (cp_lp_token pool) (dex_currency s)) = Some q
     \<and> f_transfer (UAssets cfg) (base (cp_pair pool)) (uni_account_id cfg i) who b False (dex_currency s) = (Inr k1, c1)
     \<and> f_transfer (UAssets cfg) (quote (cp_pair pool)) (uni_account_id cfg i) who q False c1 = (Inr k2, c2)
     \<and> f_burn_from (UAssets cfg) (cp_lp_token pool) who l c2 = (Inr k3, c3) \<and> t = s\<lparr>dex_currency := c3, uni_events := e\<rparr>"
  using assms unfolding uni_remove_liquidity_def uni_transfer_def uni_deposit_event_def safe_multiply_by_rational_def ok_simps Let_def
  by (auto simp: safe_sub_ok split: option.splits)

end

sublocale uniswap_ledger \<subseteq> uni: amm_contract "uniswap_amm cfg" "UAssets cfg" uni_pair_of "uni_insider cfg"
proof
  fix i s p t a n who m k r b
  show "amm_pool_exists (uniswap_amm cfg) i s \<longleftrightarrow> uni_pair_of i s \<noteq> None"
    by (simp add: uniswap_amm_def uni_pool_exists_def uni_pair_of_def)
  show "amm_currency_pair (uniswap_amm cfg) i s = (Inr p, t) \<longleftrightarrow> uni_pair_of i s = Some p \<and> t = s"
    by (auto simp: uniswap_amm_def uni_currency_pair_def uni_pair_of_def ok_simps)
  show "keeps (amm_get_exchange_value (uniswap_amm cfg) i a n)"
    by (simp add: uniswap_amm_def keeps_exchange_value)
  show "atomic (amm_exchange (uniswap_amm cfg) who i p n m k)"
    by (simp add: uniswap_amm_def uni_exchange_def atomic_transactional)
  assume run: "amm_exchange (uniswap_amm cfg) who i p n m k s = (Inr r, t)"
  then obtain pool net k1 k2 k3 c1 c2 c3 e where e: "UniPools s i = Some pool" "m \<le> r"
    and pay: "f_transfer (UAssets cfg) (quote p) who (uni_account_id cfg i) n k (dex_currency s) = (Inr k1, c1)"
    and fee: "f_transfer (UAssets cfg) (quote p) (uni_account_id cfg i) (cp_owner pool)
         (permill_mul_floor (UPermill cfg) (cp_owner_fee pool) n) False c1 = (Inr k2, c2)"
    and get: "f_transfer (UAssets cfg) (base p) (uni_account_id cfg i) who r False c2 = (Inr k3, c3)"
    and t: "t = s\<lparr>dex_currency := c3, uni_events := e\<rparr>"
    using uni_exchange_run [of who i p n m k s r t] by (auto simp: uniswap_amm_def)
  show "UniPools t = UniPools s \<and> CurvePools t = CurvePools s \<and> DexRoutes t = DexRoutes s \<and> m \<le> r"
    using e t by simp
  show "issuance (UAssets cfg) (dex_currency t) = issuance (UAssets cfg) (dex_currency s)"
    using t by (simp add: transferred(2) [OF pay] transferred(2) [OF fee] transferred(2) [OF get])
  assume "base p \<noteq> quote p" "\<not> uni_insider cfg i s who"
  then show "f_balance (UAssets cfg) b who (dex_currency t) + (if b = quote p then n else 0)
       = f_balance (UAssets cfg) b who (dex_currency s) + (if b = base p then r else 0)"
    using transfer_adds [OF pay, of b who] transfer_adds [OF fee, of b who] transfer_adds [OF get, of b who] t e
    by (auto simp: uni_insider_def split: if_splits)
qed

section \<open>The stable swap exchange\<close>

definition curve_pair_of :: "pool_id \<Rightarrow> 'c dex \<Rightarrow> currency_pair option" where
  "curve_pair_of i s = map_option ss_pair (CurvePools s i)"

definition curve_insider :: "'c curve_config \<Rightarrow> pool_id \<Rightarrow> 'c dex \<Rightarrow> account_id \<Rightarrow> bool" where
  "curve_insider cfg i s x \<longleftrightarrow> x = curve_account_id cfg i \<or> (\<exists>pool. CurvePools s i = Some pool \<and> x = ss_owner pool)"

locale curve_ledger = dex_ledger "CAssets cfg" for cfg :: "'c curve_config"
begin

lemma curve_exchange_run:
  assumes "curve_exchange cfg who i p q mn k s = (Inr n, t)"
  shows "\<exists>pool out fee k1 k2 k3 c1 c2 c3 e. CurvePools s i = Some pool \<and> pair_eq p (ss_pair pool) \<and> mn \<le> n
     \<and> curve_get_exchange_value cfg i (base p) q s = (Inr out, s) \<and> fee = permill_mul_floor (CPermill cfg) (ss_fee pool) out \<and> n + fee = out
     \<and> f_transfer (CAssets cfg) (quote p) who (curve_account_id cfg i) q k (dex_currency s) = (Inr k1, c1)
     \<and> f_transfer (CAssets cfg) (base p) (curve_account_id cfg i) (ss_owner pool)
         (permill_mul_floor (CPermill cfg) (ss_protocol_fee pool) fee) False c1 = (Inr k2, c2)
     \<and> f_transfer (CAssets cfg) (base p) (curve_account_id cfg i) who n False c2 = (Inr k3, c3)
     \<and> t = s\<lparr>dex_currency := c3, curve_events := e\<rparr>"
proof -
  let ?acc = "curve_account_id cfg i" and ?F = "CAssets cfg"
  let ?fee = "\<lambda>pool out. permill_mul_floor (CPermill cfg) (ss_fee pool) out"
  from assms obtain pool out u c1 c2 c3 k1 k2 k3 where
    pool: "CurvePools s i = Some pool" "pair_eq p (ss_pair pool)" "mn \<le> n"
    and out: "curve_get_exchange_value cfg i (base p) q s = (Inr out, u)" "safe_sub out (?fee pool out) = Inr n"
    and run: "f_transfer ?F (quote p) who ?acc q k (dex_currency u) = (Inr k1, c1)"
      "f_transfer ?F (base p) ?acc (ss_owner pool) (permill_mul_floor (CPermill cfg) (ss_protocol_fee pool) (?fee pool out)) False c1 = (Inr k2, c2)"
      "f_transfer ?F (base p) ?acc who n False c2 = (Inr k3, c3)"
    and t: "\<exists>e. t = u\<lparr>dex_currency := c3, curve_events := e\<rparr>"
    unfolding curve_exchange_def curve_do_compute_swap_def curve_transfer_def curve_deposit_event_def ok_simps Let_def by force
  moreover have "u = s" using keepsD [OF keeps_exchange_value(2) out(1)] .
  moreover have "n + ?fee pool out = out" using out(2) by (auto simp: safe_sub_ok)
  ultimately show ?thesis by blast
qed

end

sublocale curve_ledger \<subseteq> curve: amm_contract "curve_amm_of cfg" "CAssets cfg" curve_pair_of "curve_insider cfg"
proof
  fix i s p t a n who m k r b
  show "amm_pool_exists (curve_amm_of cfg) i s \<longleftrightarrow> curve_pair_of i s \<noteq> None"
    by (simp add: curve_amm_of_def curve_pool_exists_def curve_pair_of_def)
  show "amm_currency_pair (curve_amm_of cfg) i s = (Inr p, t) \<longleftrightarrow> curve_pair_of i s = Some p \<and> t = s"
    by (auto simp: curve_amm_of_def curve_currency_pair_def curve_pair_of_def ok_simps)
  show "keeps (amm_get_exchange_value (curve_amm_of cfg) i a n)"
    by (simp add: curve_amm_of_def keeps_exchange_value)
  show "atomic (amm_exchange (curve_amm_of cfg) who i p n m k)"
    by (simp add: curve_amm_of_def curve_exchange_def atomic_transactional)
  assume run: "amm_exchange (curve_amm_of cfg) who i p n m k s = (Inr r, t)"
  then obtain pool fee k1 k2 k3 c1 c2 c3 e where e: "CurvePools s i = Some pool" "m \<le> r"
    and pay: "f_transfer (CAssets cfg) (quote p) who (curve_account_id cfg i) n k (dex_currency s) = (Inr k1, c1)"
    and fee: "f_transfer (CAssets cfg) (base p) (curve_account_id cfg i) (ss_owner pool)
         (permill_mul_floor (CPermill cfg) (ss_protocol_fee pool) fee) False c1 = (Inr k2, c2)"
    and get: "f_transfer (CAssets cfg) (base p) (curve_account_id cfg i) who r False c2 = (Inr k3, c3)"
    and t: "t = s\<lparr>dex_currency := c3, curve_events := e\<rparr>"
    using curve_exchange_run [of who i p n m k s r t] by (auto simp: curve_amm_of_def)
  show "UniPools t = UniPools s \<and> CurvePools t = CurvePools s \<and> DexRoutes t = DexRoutes s \<and> m \<le> r"
    using e t by simp
  show "issuance (CAssets cfg) (dex_currency t) = issuance (CAssets cfg) (dex_currency s)"
    using t by (simp add: transferred(2) [OF pay] transferred(2) [OF fee] transferred(2) [OF get])
  assume "base p \<noteq> quote p" "\<not> curve_insider cfg i s who"
  then show "f_balance (CAssets cfg) b who (dex_currency t) + (if b = quote p then n else 0)
       = f_balance (CAssets cfg) b who (dex_currency s) + (if b = base p then r else 0)"
    using transfer_adds [OF pay, of b who] transfer_adds [OF fee, of b who] transfer_adds [OF get, of b who] t e
    by (auto simp: curve_insider_def split: if_splits)
qed

section \<open>Trades along a route\<close>

text \<open>
  The two exchanges on one currency, and the router over them. \<open>leads a rs b\<close>: the first pool of the route
  takes the asset \<open>a\<close>, every pool gives what the next one takes, and the last one gives \<open>b\<close>.
\<close>

definition market_router :: "('c, 'd) uniswap_config \<Rightarrow> 'c curve_config \<Rightarrow> nat \<Rightarrow> 'c router_config" where
  "market_router u c hops = \<lparr>StableSwapDex = curve_amm_of c, ConstantProductDex = uniswap_amm u, MaxHopsInRoute = hops\<rparr>"

definition node_pair :: "dex_route_node \<Rightarrow> 'c dex \<Rightarrow> currency_pair option" where
  "node_pair r s = (case r of CurvePool i \<Rightarrow> curve_pair_of i s | UniswapPool i \<Rightarrow> uni_pair_of i s)"

definition node_insider :: "('c, 'd) uniswap_config \<Rightarrow> 'c curve_config \<Rightarrow> dex_route_node \<Rightarrow> 'c dex \<Rightarrow> account_id \<Rightarrow> bool" where
  "node_insider u c r s x = (case r of CurvePool i \<Rightarrow> curve_insider c i s x | UniswapPool i \<Rightarrow> uni_insider u i s x)"

fun leads :: "asset_id \<Rightarrow> dex_route_node list \<Rightarrow> asset_id \<Rightarrow> 'c dex \<Rightarrow> bool" where
  "leads a [] b s \<longleftrightarrow> a = b"
| "leads a (r # rs) b s \<longleftrightarrow>
     (case node_pair r s of None \<Rightarrow> False | Some p \<Rightarrow> quote p = a \<and> base p \<noteq> quote p \<and> leads (base p) rs b s)"

definition same_pools :: "'c dex \<Rightarrow> 'c dex \<Rightarrow> bool" where
  "same_pools s t \<longleftrightarrow> UniPools t = UniPools s \<and> CurvePools t = CurvePools s \<and> DexRoutes t = DexRoutes s"

lemma same_pools_node:
  assumes "same_pools s t"
  shows "node_pair r t = node_pair r s" "node_insider u c r t x = node_insider u c r s x"
  using assms by (simp_all add: same_pools_def node_pair_def node_insider_def uni_pair_of_def curve_pair_of_def uni_insider_def
      curve_insider_def split: dex_route_node.split)

lemma same_pools_leads: "same_pools s t \<Longrightarrow> leads a rs b t = leads a rs b s"
  by (induction rs arbitrary: a) (simp_all add: same_pools_node(1) split: option.split)

lemma buy_along_is_exchange_along: "buy_along cfg who rs = (\<lambda>dx. exchange_along cfg who rs dx dx)"
  by (induction rs) (auto intro!: ext)

lemma exchange_along_start: "rs \<noteq> [] \<Longrightarrow> exchange_along cfg who rs dx dy = exchange_along cfg who rs dx dx"
  by (cases rs) simp_all

locale dex_market = uniswap: uniswap_ledger u + stable: curve_ledger c
  for u :: "('c, 'd) uniswap_config" and c :: "'c curve_config" +
  assumes one_currency: "CAssets c = UAssets u"
begin

lemma hop_settles:
  assumes "hop (market_router u c hops) who r dx s = (Inr dy, t)" "node_pair r s = Some p" "base p \<noteq> quote p"
    "\<not> node_insider u c r s who"
  shows "same_pools s t" "issuance (UAssets u) (dex_currency t) = issuance (UAssets u) (dex_currency s)"
    "f_balance (UAssets u) z who (dex_currency t) + (if z = quote p then dx else 0)
     = f_balance (UAssets u) z who (dex_currency s) + (if z = base p then dy else 0)"
proof -
  have "same_pools s t \<and> issuance (UAssets u) (dex_currency t) = issuance (UAssets u) (dex_currency s)
    \<and> f_balance (UAssets u) z who (dex_currency t) + (if z = quote p then dx else 0)
      = f_balance (UAssets u) z who (dex_currency s) + (if z = base p then dy else 0)"
  proof (cases r)
    case (CurvePool i)
    with assms(1,2) have "amm_exchange (curve_amm_of c) who i p dx 0 True s = (Inr dy, t)"
      by (auto simp: hop_def node_amm_def node_pool_def node_pair_def market_router_def ok_simps stable.curve.amm_pair)
    then show ?thesis
      using stable.curve.amm_exchange_frame stable.curve.amm_exchange_issuance stable.curve.amm_exchange_settles [of who i p dx 0 True s dy t z]
        CurvePool assms(3,4) one_currency by (auto simp: same_pools_def node_insider_def)
  next
    case (UniswapPool i)
    with assms(1,2) have "amm_exchange (uniswap_amm u) who i p dx 0 True s = (Inr dy, t)"
      by (auto simp: hop_def node_amm_def node_pool_def node_pair_def market_router_def ok_simps uniswap.uni.amm_pair)
    then show ?thesis
      using uniswap.uni.amm_exchange_frame uniswap.uni.amm_exchange_issuance uniswap.uni.amm_exchange_settles [of who i p dx 0 True s dy t z]
        UniswapPool assms(3,4) by (auto simp: same_pools_def node_insider_def)
  qed
  then show "same_pools s t" "issuance (UAssets u) (dex_currency t) = issuance (UAssets u) (dex_currency s)"
    "f_balance (UAssets u) z who (dex_currency t) + (if z = quote p then dx else 0)
     = f_balance (UAssets u) z who (dex_currency s) + (if z = base p then dy else 0)" by blast+
qed

lemma along_settles:
  assumes "exchange_along (market_router u c hops) who rs dx dx s = (Inr dy, t)" "leads a rs b s"
    "list_all (\<lambda>r. \<not> node_insider u c r s who) rs"
  shows "same_pools s t \<and> issuance (UAssets u) (dex_currency t) = issuance (UAssets u) (dex_currency s)
    \<and> f_balance (UAssets u) z who (dex_currency t) + (if z = a then dx else 0)
      = f_balance (UAssets u) z who (dex_currency s) + (if z = b then dy else 0)"
  using assms
proof (induction rs arbitrary: a dx s)
  case Nil
  then show ?case by (auto simp: ok_simps same_pools_def)
next
  case (Cons r rs)
  from Cons.prems(1) obtain d1 s1 where hop: "hop (market_router u c hops) who r dx s = (Inr d1, s1)"
    and rest: "exchange_along (market_router u c hops) who rs d1 d1 s1 = (Inr dy, t)" by (auto simp: ok_simps)
  from Cons.prems(2) obtain p where p: "node_pair r s = Some p" "quote p = a" "base p \<noteq> quote p" "leads (base p) rs b s"
    by (auto split: option.splits)
  have out: "\<not> node_insider u c r s who" using Cons.prems(3) by simp
  note h = hop_settles [OF hop p(1,3) out]
  have "leads (base p) rs b s1" "list_all (\<lambda>r. \<not> node_insider u c r s1 who) rs"
    using h(1) p(4) Cons.prems(3) by (simp_all add: same_pools_leads same_pools_node)
  from Cons.IH [OF rest this] h(1,2) h(3) [of z] p(2) show ?case
    by (auto simp: same_pools_def)
qed

end

end
