(* ===== verification/Dex_Safety.thy ===== *)
theory Dex_Safety
  imports Dex_Properties
begin

text \<open>
  The runs of the exchanges and the router: which states can be reached, what holds in all of them, and
  the properties of the single trades, with a market over the assets pallet as their instance.
\<close>

section \<open>What an operation leaves alone\<close>

text \<open>Only the creation of pools and the update of routes write the tables of pools and routes.\<close>

definition dex_frame :: "'c dex \<Rightarrow> 'c dex \<Rightarrow> bool" where
  "dex_frame s t \<longleftrightarrow> UniPoolCount t = UniPoolCount s \<and> UniPools t = UniPools s \<and> CurvePoolCount t = CurvePoolCount s
     \<and> CurvePools t = CurvePools s \<and> DexRoutes t = DexRoutes s \<and> dex_factory t = dex_factory s"

definition frames :: "('c dex, 'a) call \<Rightarrow> bool" where
  "frames m \<longleftrightarrow> (\<forall>s. dex_frame s (snd (m s)))"

named_theorems frame_intros "operations that leave the tables of pools and routes alone"

lemma frames_of_keeps: "keeps m \<Longrightarrow> frames m"
  by (simp add: frames_def dex_frame_def keeps_def)

lemma frames_keeps [frame_intros]:
  "frames (ret x)" "frames (fail e)" "frames (ensure b e)" "frames (reads f)" "frames (ok_or v e)" "frames (lift_result r)"
  "frames (lift_arith r')" "frames (ensure_signed orig)" "frames (uni_get_pool i)" "frames (curve_get_pool i)"
  by (rule frames_of_keeps, intro keeps_intros)+

lemma frames_bindM [frame_intros]: "frames m \<Longrightarrow> (\<And>x. frames (f x)) \<Longrightarrow> frames (bindM m f)"
  unfolding frames_def dex_frame_def bindM_def by (auto split: prod.splits sum.splits) (metis snd_conv)+

lemma frames_thenM [frame_intros]: "frames m \<Longrightarrow> frames n \<Longrightarrow> frames (thenM m n)"
  by (simp add: thenM_def frames_bindM)

lemma frames_transactional [frame_intros]: "frames m \<Longrightarrow> frames (transactional m)"
  unfolding frames_def dex_frame_def transactional_def by (auto split: prod.splits sum.splits) (metis snd_conv)+

lemma frames_case_prod [frame_intros]: "(\<And>x y. frames (f x y)) \<Longrightarrow> frames (case p of (x, y) \<Rightarrow> f x y)"
  by (cases p) simp

lemma frames_if [frame_intros]: "frames m \<Longrightarrow> frames n \<Longrightarrow> frames (if b then m else n)"
  by simp

lemma frames_writes [frame_intros]:
  "frames (on_dex_currency m)" "frames (uni_deposit_event e)" "frames (curve_deposit_event e)" "frames (route_deposit_event r)"
  by (auto simp: frames_def dex_frame_def on_dex_currency_def zoom_def uni_deposit_event_def curve_deposit_event_def
      route_deposit_event_def modifies_def split: prod.split)

lemma frames_uniswap [frame_intros]:
  "frames (uni_get_exchange_value u i a n)" "frames (uni_exchange u who i p q mn k)" "frames (uni_currency_pair i)"
  "frames (uni_add_liquidity u who i b q mn k)" "frames (uni_remove_liquidity u who i l mb mq)"
  unfolding uni_get_exchange_value_def uni_exchange_def uni_do_compute_swap_def uni_transfer_def uni_currency_pair_def
    uni_add_liquidity_def uni_remove_liquidity_def Let_def
  by (intro frame_intros)+

lemma frames_uniswap_trades [frame_intros]:
  "frames (uni_buy u who i a n k)" "frames (uni_sell u who i a n k)"
  unfolding uni_buy_def uni_sell_def Let_def by (intro frame_intros)+

lemma frames_curve [frame_intros]:
  "frames (curve_get_exchange_value c i a n)" "frames (curve_deposit_lp c pool x y x' y' l d d')" "frames (curve_currency_pair i)"
  unfolding curve_get_exchange_value_def curve_deposit_lp_def curve_currency_pair_def Let_def by (intro frame_intros)+

lemma frames_curve_trades [frame_intros]:
  "frames (curve_exchange c who i p q mn k)" "frames (curve_add_liquidity c who i b q mn k)" "frames (curve_remove_liquidity c who i l mb mq)"
  unfolding curve_exchange_def curve_do_compute_swap_def curve_transfer_def curve_add_liquidity_def curve_remove_liquidity_def Let_def
  by (intro frame_intros)+

lemma frames_curve_orders [frame_intros]:
  "frames (curve_buy c who i a n k)" "frames (curve_sell c who i a n k)"
  unfolding curve_buy_def curve_sell_def Let_def by (intro frame_intros)+

lemma frames_hop [frame_intros]: "frames (hop (market_router u c hops) who r dx)"
  by (cases r) (simp_all add: hop_def market_router_def node_amm_def curve_amm_of_def uniswap_amm_def frame_intros)

lemma frames_along [frame_intros]: "frames (exchange_along (market_router u c hops) who rs dx dy)"
  by (induction rs arbitrary: dx dy) (simp_all add: frame_intros)

lemma frames_value_along [frame_intros]: "frames (value_along (market_router u c hops) rs dx dy)"
proof (induction rs arbitrary: dx dy)
  case (Cons r rs)
  then show ?case
    by (cases r) (simp_all add: market_router_def node_amm_def curve_amm_of_def uniswap_amm_def frame_intros)
qed (simp add: frame_intros)

lemma frames_router [frame_intros]:
  "frames (router_exchange (market_router u c hops) who p n)" "frames (router_buy (market_router u c hops) who p n)"
  unfolding router_exchange_def router_buy_def buy_along_is_exchange_along by (intro frame_intros)+

section \<open>Runs\<close>

text \<open>
  What can happen: the operations of the two exchanges and of the router, the creation of assets and of
  ranges by other pallets, and any change of the currency by other pallets.
\<close>

datatype dex_op =
    UniCreate raw_origin currency_pair permill permill
  | UniBuy raw_origin pool_id asset_id balance bool
  | UniSell raw_origin pool_id asset_id balance bool
  | UniSwap raw_origin pool_id currency_pair balance balance bool
  | UniAdd account_id pool_id balance balance balance bool
  | UniRemove account_id pool_id balance balance balance
  | CurveCreate raw_origin currency_pair nat permill permill
  | CurveBuy raw_origin pool_id asset_id balance bool
  | CurveSell raw_origin pool_id asset_id balance bool
  | CurveSwap raw_origin pool_id currency_pair balance balance bool
  | CurveAdd account_id pool_id balance balance balance bool
  | CurveRemove account_id pool_id balance balance balance
  | UpdateRoute account_id currency_pair "dex_route_node list option"
  | RouteSell account_id currency_pair balance
  | RouteBuy account_id currency_pair balance
  | CreateAsset range_id

definition run_unit :: "('s, 'a) call \<Rightarrow> 's \<Rightarrow> 's" where
  "run_unit m s = snd (m s)"

fun dex_run :: "('c, 'd) uniswap_config \<Rightarrow> 'c curve_config \<Rightarrow> nat \<Rightarrow> dex_op \<Rightarrow> 'c dex \<Rightarrow> 'c dex" where
  "dex_run u c hops (UniCreate orig p f g) = run_unit (uni_create_call orig p f g)"
| "dex_run u c hops (UniBuy orig i a n k) = run_unit (uni_buy_call u orig i a n k)"
| "dex_run u c hops (UniSell orig i a n k) = run_unit (uni_sell_call u orig i a n k)"
| "dex_run u c hops (UniSwap orig i p q m k) = run_unit (uni_swap_call u orig i p q m k)"
| "dex_run u c hops (UniAdd who i b q m k) = run_unit (uni_add_liquidity u who i b q m k)"
| "dex_run u c hops (UniRemove who i l b q) = run_unit (uni_remove_liquidity u who i l b q)"
| "dex_run u c hops (CurveCreate orig p amp f g) = run_unit (curve_create_call orig p amp f g)"
| "dex_run u c hops (CurveBuy orig i a n k) = run_unit (curve_buy_call c orig i a n k)"
| "dex_run u c hops (CurveSell orig i a n k) = run_unit (curve_sell_call c orig i a n k)"
| "dex_run u c hops (CurveSwap orig i p q m k) = run_unit (curve_swap_call c orig i p q m k)"
| "dex_run u c hops (CurveAdd who i b q m k) = run_unit (curve_add_liquidity c who i b q m k)"
| "dex_run u c hops (CurveRemove who i l b q) = run_unit (curve_remove_liquidity c who i l b q)"
| "dex_run u c hops (UpdateRoute who p r) = run_unit (update_route (market_router u c hops) who p r)"
| "dex_run u c hops (RouteSell who p n) = run_unit (router_sell (market_router u c hops) who p n)"
| "dex_run u c hops (RouteBuy who p n) = run_unit (router_buy (market_router u c hops) who p n)"
| "dex_run u c hops (CreateAsset r) = run_unit (on_dex_factory (create r))"

definition dex_genesis :: "'c \<Rightarrow> 'c dex" where
  "dex_genesis c =
     \<lparr>UniPoolCount = 0, UniPools = Map.empty, uni_events = [], CurvePoolCount = 0, CurvePools = Map.empty, curve_events = [],
      DexRoutes = Map.empty, route_events = [], dex_currency = c, dex_factory = factory_genesis\<rparr>"

inductive dex_reach :: "('c, 'd) uniswap_config \<Rightarrow> 'c curve_config \<Rightarrow> nat \<Rightarrow> 'c dex \<Rightarrow> bool" for u c hops where
  start: "dex_reach u c hops (dex_genesis m)"
| op: "dex_reach u c hops s \<Longrightarrow> dex_reach u c hops (dex_run u c hops x s)"
| currency: "dex_reach u c hops s \<Longrightarrow> dex_reach u c hops (s\<lparr>dex_currency := m\<rparr>)"
| range: "dex_reach u c hops s \<Longrightarrow> dex_reach u c hops (s\<lparr>dex_factory := snd (add_range acc orig len (dex_factory s))\<rparr>)"

section \<open>The invariant\<close>

text \<open>
  Pools: numbered below the count, over two different assets, with fees of less than one together. The
  liquidity tokens are identifiers the factory has handed out, one for each pool of either exchange.
  Routes: within the bound, through existing pools.
\<close>

definition pair_fees_ok :: "currency_pair \<Rightarrow> permill \<Rightarrow> permill \<Rightarrow> bool" where
  "pair_fees_ok p f g \<longleftrightarrow> base p \<noteq> quote p \<and> f + g < 1000000"

definition node_ok :: "dex_route_node \<Rightarrow> 'c dex \<Rightarrow> bool" where
  "node_ok r s =
     (case r of
        UniswapPool i \<Rightarrow> (case UniPools s i of None \<Rightarrow> True
          | Some pool \<Rightarrow> i < UniPoolCount s \<and> pair_fees_ok (cp_pair pool) (cp_fee pool) (cp_owner_fee pool))
      | CurvePool i \<Rightarrow> (case CurvePools s i of None \<Rightarrow> True
          | Some pool \<Rightarrow> i < CurvePoolCount s \<and> pair_fees_ok (ss_pair pool) (ss_fee pool) (ss_protocol_fee pool)))"

definition node_lp :: "dex_route_node \<Rightarrow> 'c dex \<Rightarrow> asset_id option" where
  "node_lp r s = (case r of UniswapPool i \<Rightarrow> map_option cp_lp_token (UniPools s i) | CurvePool i \<Rightarrow> map_option ss_lp_token (CurvePools s i))"

definition lp_tokens_ok :: "'c dex \<Rightarrow> bool" where
  "lp_tokens_ok s \<longleftrightarrow> factory_ok (dex_factory s)
     \<and> (\<forall>r n. node_lp r s = Some n \<longrightarrow> n \<in> spent_ids (dex_factory s) \<and> (\<forall>q. node_lp q s = Some n \<longrightarrow> q = r))"

definition routes_ok :: "nat \<Rightarrow> 'c dex \<Rightarrow> bool" where
  "routes_ok hops s \<longleftrightarrow>
     (\<forall>k rs. DexRoutes s k = Some (Direct rs) \<longrightarrow> length rs \<le> hops \<and> list_all (\<lambda>r. node_lp r s \<noteq> None) rs)"

definition dex_inv :: "nat \<Rightarrow> 'c dex \<Rightarrow> bool" where
  "dex_inv hops s \<longleftrightarrow> (\<forall>r. node_ok r s) \<and> lp_tokens_ok s \<and> routes_ok hops s"

lemma frame_node:
  assumes "dex_frame (s\<lparr>DexRoutes := DexRoutes t, dex_factory := dex_factory t\<rparr>) t"
  shows "node_ok r t = node_ok r s" "node_lp r t = node_lp r s"
  using assms by (simp_all add: node_ok_def node_lp_def dex_frame_def split: dex_route_node.split option.split)

lemma frame_inv:
  assumes "dex_frame s t"
  shows "dex_inv hops t = dex_inv hops s"
proof -
  have "dex_frame (s\<lparr>DexRoutes := DexRoutes t, dex_factory := dex_factory t\<rparr>) t" using assms by (simp add: dex_frame_def)
  note node = frame_node [OF this]
  show ?thesis using assms by (simp add: dex_inv_def lp_tokens_ok_def routes_ok_def node) (simp add: dex_frame_def)
qed

lemma frames_inv: "frames m \<Longrightarrow> dex_inv hops s \<Longrightarrow> dex_inv hops (run_unit m s)"
  by (metis frame_inv frames_def run_unit_def)

text \<open>A call that fails without a trace keeps the invariant when every successful run does.\<close>

lemma inv_atomic:
  assumes "atomic m" "\<And>x t. m s = (Inr x, t) \<Longrightarrow> dex_inv hops t" "dex_inv hops s"
  shows "dex_inv hops (run_unit m s)"
proof (cases "m s")
  case (Pair r t)
  with assms show ?thesis by (cases r) (auto simp: run_unit_def dest: atomicD)
qed

text \<open>A new pool: the tables with one more entry.\<close>

lemma uni_create_ok:
  "uni_do_create_pool who p f g s = (Inr i, t) \<longleftrightarrow>
     (\<exists>lp fac. i = UniPoolCount s \<and> pair_fees_ok p f g \<and> create LP_TOKENS (dex_factory s) = (Inr lp, fac) \<and> i + 1 \<le> u128_max
      \<and> t = s\<lparr>dex_factory := fac, UniPoolCount := i + 1, uni_events := uni_events s @ [PoolCreated i who],
              UniPools := (UniPools s)(i \<mapsto> \<lparr>cp_owner = who, cp_pair = p, cp_lp_token = lp, cp_fee = f, cp_owner_fee = g\<rparr>)\<rparr>)"
  by (auto simp: uni_do_create_pool_def ok_simps permill_checked_add_def pair_fees_ok_def safe_add_ok on_dex_factory_def
      uni_deposit_event_def permill_one_def)

lemma curve_create_ok:
  "curve_do_create_pool who p amp f g s = (Inr i, t) \<longleftrightarrow>
     (\<exists>lp fac. i = CurvePoolCount s \<and> pair_fees_ok p f g \<and> create LP_TOKENS (dex_factory s) = (Inr lp, fac) \<and> i + 1 \<le> u128_max
      \<and> t = s\<lparr>dex_factory := fac, CurvePoolCount := i + 1, curve_events := curve_events s @ [PoolCreated i who],
              CurvePools := (CurvePools s)(i \<mapsto> \<lparr>ss_owner = who, ss_pair = p, ss_lp_token = lp, amplification_coefficient = amp, ss_fee = f,
                ss_protocol_fee = g\<rparr>)\<rparr>)"
  by (auto simp: curve_do_create_pool_def ok_simps permill_checked_add_def pair_fees_ok_def safe_add_ok on_dex_factory_def
      curve_deposit_event_def)

text \<open>
  What both creations do to the tables: one pool more at the place of the count, with a token that was not
  spent before.
\<close>

lemma new_pool_inv:
  assumes inv: "dex_inv hops s" and new: "node_lp r s = None" "create LP_TOKENS (dex_factory s) = (Inr lp, dex_factory t)"
    and lp: "\<And>q. node_lp q t = (if q = r then Some lp else node_lp q s)" and ok: "\<And>q. node_ok q t" and routes: "DexRoutes t = DexRoutes s"
  shows "dex_inv hops t"
proof -
  have good: "factory_ok (dex_factory s)" "\<And>q n. node_lp q s = Some n \<Longrightarrow> n \<in> spent_ids (dex_factory s)"
    "\<And>q r n. node_lp q s = Some n \<Longrightarrow> node_lp r s = Some n \<Longrightarrow> q = r"
    using inv by (auto simp: dex_inv_def lp_tokens_ok_def)
  note f = factory.new_id_good [OF good(1) new(2)] factory.new_id_fresh [OF good(1) new(2)] factory.new_id_spent [OF good(1) new(2)]
  have "lp_tokens_ok t" using f good by (auto simp: lp_tokens_ok_def lp split: if_splits)
  moreover have "routes_ok hops t" using inv by (fastforce simp: dex_inv_def routes_ok_def routes lp list_all_iff)
  ultimately show ?thesis using ok by (simp add: dex_inv_def)
qed

lemma uni_create_inv:
  assumes "dex_inv hops s" "uni_do_create_pool who p f g s = (Inr i, t)"
  shows "dex_inv hops t"
proof -
  have nodes: "node_ok r s" for r using assms(1) by (simp add: dex_inv_def)
  have new: "UniPools s i = None" if "i = UniPoolCount s" using nodes [of "UniswapPool i"] that by (auto simp: node_ok_def split: option.splits)
  from assms(2) obtain lp fac where c: "create LP_TOKENS (dex_factory s) = (Inr lp, fac)" "i = UniPoolCount s" "pair_fees_ok p f g"
    and t: "t = s\<lparr>dex_factory := fac, UniPoolCount := i + 1, uni_events := uni_events s @ [PoolCreated i who],
              UniPools := (UniPools s)(i \<mapsto> \<lparr>cp_owner = who, cp_pair = p, cp_lp_token = lp, cp_fee = f, cp_owner_fee = g\<rparr>)\<rparr>"
    by (auto simp: uni_create_ok)
  have "node_ok q t" for q
    using nodes [of q] c by (auto simp: t node_ok_def split: dex_route_node.splits option.splits)
  then show ?thesis
    using new c by (intro new_pool_inv [OF assms(1), of "UniswapPool i" lp t]) (auto simp: t node_lp_def split: dex_route_node.split)
qed

lemma curve_create_inv:
  assumes "dex_inv hops s" "curve_do_create_pool who p amp f g s = (Inr i, t)"
  shows "dex_inv hops t"
proof -
  have nodes: "node_ok r s" for r using assms(1) by (simp add: dex_inv_def)
  have new: "CurvePools s i = None" if "i = CurvePoolCount s" using nodes [of "CurvePool i"] that by (auto simp: node_ok_def split: option.splits)
  from assms(2) obtain lp fac where c: "create LP_TOKENS (dex_factory s) = (Inr lp, fac)" "i = CurvePoolCount s" "pair_fees_ok p f g"
    and t: "t = s\<lparr>dex_factory := fac, CurvePoolCount := i + 1, curve_events := curve_events s @ [PoolCreated i who],
              CurvePools := (CurvePools s)(i \<mapsto> \<lparr>ss_owner = who, ss_pair = p, ss_lp_token = lp, amplification_coefficient = amp, ss_fee = f,
                ss_protocol_fee = g\<rparr>)\<rparr>"
    by (auto simp: curve_create_ok)
  have "node_ok q t" for q
    using nodes [of q] c by (auto simp: t node_ok_def split: dex_route_node.splits option.splits)
  then show ?thesis
    using new c by (intro new_pool_inv [OF assms(1), of "CurvePool i" lp t]) (auto simp: t node_lp_def split: dex_route_node.split)
qed

text \<open>The routes: the pools are looked at before the route is stored.\<close>

lemma check_node_ok: "check_node (market_router u c hops) r s = (Inr x, t) \<longleftrightarrow> node_lp r s \<noteq> None \<and> t = s"
  by (cases r) (auto simp: check_node_def market_router_def node_amm_def node_pool_def node_lp_def curve_amm_of_def uniswap_amm_def
      curve_pool_exists_def uni_pool_exists_def ok_simps)

lemma market_router_hops [simp]: "MaxHopsInRoute (market_router u c hops) = hops"
  by (simp add: market_router_def)

lemma keeps_check_node [keeps_intros]: "keeps (check_node cfg r)"
  unfolding check_node_def by (intro keeps_intros)

lemma check_nodes_ok:
  "for_each rs (check_node (market_router u c hops)) s = (Inr x, t) \<longleftrightarrow> list_all (\<lambda>r. node_lp r s \<noteq> None) rs \<and> t = s"
  by (induction rs) (auto simp: ok_simps check_node_ok)

lemma keeps_check_nodes [keeps_intros]: "keeps (for_each rs (check_node cfg))"
  by (induction rs) (simp_all add: keeps_intros)

lemma update_route_atomic: "atomic (update_route cfg who p route)"
  unfolding update_route_def do_update_route_def do_delete_route_def route_deposit_event_def
  by (cases route; simp; intro atomic_intros keeps_intros atomic_succeeds succeeds_intros)
     (auto intro: succeeds_intros split: option.split dex_route.split)

lemma update_route_inv:
  assumes "dex_inv hops s" "update_route (market_router u c hops) who p route s = (Inr x, t)"
  shows "dex_inv hops t"
proof -
  let ?k = "(base p, quote p)"
  define R where "R = (DexRoutes s)(?k := map_option Direct route)"
  have "DexRoutes s ?k = None \<or> (\<exists>old. DexRoutes s ?k = Some (Direct old))"
    by (cases "DexRoutes s ?k") (auto intro: dex_route.exhaust)
  then have R: "dex_frame (s\<lparr>DexRoutes := R\<rparr>) t"
    and new: "\<And>rs. route = Some rs \<Longrightarrow> length rs \<le> hops \<and> list_all (\<lambda>r. node_lp r s \<noteq> None) rs"
    using assms(2) by (cases route; auto simp: update_route_def do_update_route_def do_delete_route_def route_deposit_event_def ok_simps
        check_nodes_ok dex_frame_def R_def)+
  note node = frame_node [of s "s\<lparr>DexRoutes := R\<rparr>", unfolded dex_frame_def, simplified]
  have "dex_inv hops (s\<lparr>DexRoutes := R\<rparr>)"
    using assms(1) new by (auto simp: dex_inv_def lp_tokens_ok_def routes_ok_def node R_def split: if_splits)
  then show ?thesis using frame_inv [OF R] by simp
qed

text \<open>Other pallets create assets and ranges.\<close>

lemma factory_inv:
  assumes "dex_inv hops s" "factory_ok f" "spent_ids (dex_factory s) \<subseteq> spent_ids f"
  shows "dex_inv hops (s\<lparr>dex_factory := f\<rparr>)"
proof -
  note node = frame_node [of s "s\<lparr>dex_factory := f\<rparr>", unfolded dex_frame_def, simplified]
  show ?thesis using assms by (auto simp: dex_inv_def lp_tokens_ok_def routes_ok_def node)
qed

lemma create_inv:
  assumes "dex_inv hops s"
  shows "dex_inv hops (run_unit (on_dex_factory (create r)) s)"
proof (cases "create r (dex_factory s)")
  case (Pair x f)
  have good: "factory_ok (dex_factory s)" using assms by (simp add: dex_inv_def lp_tokens_ok_def)
  have "factory_ok f \<and> spent_ids (dex_factory s) \<subseteq> spent_ids f"
    using Pair good factory.new_id_good [OF good] factory.new_id_spent [OF good] factory.new_id_error [of r "dex_factory s"]
    by (cases x) auto
  then show ?thesis using factory_inv [OF assms] Pair by (simp add: run_unit_def on_dex_factory_def zoom_def)
qed

lemma create_pool_atomic: "atomic (uni_do_create_pool who p f g)" "atomic (curve_do_create_pool who p amp f g)"
  by (simp_all add: uni_do_create_pool_def curve_do_create_pool_def atomic_transactional)

lemma dex_run_inv:
  assumes "dex_inv hops s"
  shows "dex_inv hops (dex_run u c hops x s)"
proof -
  have framed: "frames m \<Longrightarrow> dex_inv hops (run_unit m s)" for m :: "('a dex, 'e) call" using assms frames_inv by blast
  show ?thesis
  proof (cases x)
    case (UniCreate orig p f g)
    then show ?thesis
      using uni_create_inv [OF assms]
      by (auto intro!: inv_atomic [OF _ _ assms] atomic_bindM_keeps keeps_ensure_signed atomic_thenM_succeeds create_pool_atomic succeeds_ret
          simp: uni_create_call_def ok_simps)
  next
    case (CurveCreate orig p amp f g)
    then show ?thesis
      using curve_create_inv [OF assms]
      by (auto intro!: inv_atomic [OF _ _ assms] atomic_bindM_keeps keeps_ensure_signed atomic_thenM_succeeds create_pool_atomic succeeds_ret
          simp: curve_create_call_def ok_simps)
  next
    case (UpdateRoute who p r)
    then show ?thesis
      using inv_atomic [OF update_route_atomic update_route_inv [OF assms] assms] by simp
  next
    case (CreateAsset r)
    then show ?thesis using create_inv [OF assms] by simp
  qed (auto simp: uni_buy_call_def uni_sell_call_def uni_swap_call_def curve_buy_call_def curve_sell_call_def curve_swap_call_def
      router_sell_def intro!: framed frame_intros)
qed

lemma dex_reach_inv: "dex_reach u c hops s \<Longrightarrow> dex_inv hops s"
proof (induction rule: dex_reach.induct)
  case (start m)
  then show ?case
    by (auto simp: dex_inv_def dex_genesis_def node_ok_def lp_tokens_ok_def routes_ok_def node_lp_def factory_ok_def factory_genesis_def
        ranges_ok_new split: dex_route_node.splits)
next
  case (op s x)
  show ?case by (rule dex_run_inv [OF op.IH])
next
  case (currency s m)
  then show ?case using frame_inv [of s "s\<lparr>dex_currency := m\<rparr>" hops] by (simp add: dex_frame_def)
next
  case (range s acc orig len)
  then show ?case
    by (intro factory_inv add_range_ok) (auto simp: dex_inv_def lp_tokens_ok_def)
qed

section \<open>Trades and liquidity\<close>

text \<open>The arithmetic of shares: what a deposit of \<open>b\<close> gives back at once.\<close>

lemma share_no_gain:
  fixes b :: nat
  assumes "l * B \<le> L * b" "0 < L"
  shows "l * (B + b) div (L + l) \<le> b"
proof -
  have "l * (B + b) \<le> b * (L + l)" using assms(1) by (simp add: algebra_simps)
  then have "l * (B + b) div (L + l) \<le> b * (L + l) div (L + l)" by (rule div_le_mono)
  then show ?thesis using assms(2) by simp
qed

lemma share_no_gain_rounded:
  fixes b :: nat
  assumes "l * B \<le> L * b" "Q * b < (n + 1) * B" "0 < L" "0 < B"
  shows "l * (Q + n) div (L + l) \<le> n"
proof -
  have "l * Q * B \<le> L * (Q * b)" using mult_le_mono2 [OF assms(1), of Q] by (simp add: ac_simps)
  also have "\<dots> < L * ((n + 1) * B)" using assms(2,3) by (rule mult_strict_left_mono)
  also have "\<dots> = L * (n + 1) * B" by (simp only: mult.assoc)
  finally have "l * Q * B < L * (n + 1) * B" .
  then have "l * Q < L * (n + 1)" by (simp only: mult_less_cancel2)
  then have "l * (Q + n) < (n + 1) * (L + l)" by (simp add: algebra_simps)
  then have "l * (Q + n) div (L + l) < n + 1" by (simp add: div_less_iff_less_mult assms(3))
  then show ?thesis by simp
qed

context uniswap_ledger
begin

lemma exchange_pool:
  assumes run: "uni_exchange cfg who i p q mn k s = (Inr n, t)" and pool: "UniPools s i = Some pool"
    and who: "who \<noteq> uni_account_id cfg i" "cp_owner pool \<noteq> uni_account_id cfg i" and p: "base p \<noteq> quote p"
  shows "\<exists>net fee. net \<le> q - fee \<and> fee \<le> q \<and> 0 < net \<and> fee = permill_mul_floor (UPermill cfg) (cp_owner_fee pool) q
    \<and> compute_out_given_in (UDecimals cfg) half_weight half_weight (uni_balance cfg (quote p) (uni_account_id cfg i) s)
        (uni_balance cfg (base p) (uni_account_id cfg i) s) net = Inr n
    \<and> uni_balance cfg (quote p) (uni_account_id cfg i) t = uni_balance cfg (quote p) (uni_account_id cfg i) s + (q - fee)
    \<and> uni_balance cfg (base p) (uni_account_id cfg i) t + n = uni_balance cfg (base p) (uni_account_id cfg i) s"
proof -
  let ?acc = "uni_account_id cfg i" and ?lp = "permill_mul_floor (UPermill cfg) (cp_fee pool) q"
  let ?fee = "permill_mul_floor (UPermill cfg) (cp_owner_fee pool) q"
  from uni_exchange_run [OF run] pool obtain net k1 k2 k3 c1 c2 c3 e where
    net: "net + ?lp + ?fee = q" "0 < net"
      "compute_out_given_in (UDecimals cfg) half_weight half_weight (uni_balance cfg (quote p) ?acc s) (uni_balance cfg (base p) ?acc s) net = Inr n"
    and pay: "f_transfer (UAssets cfg) (quote p) who ?acc q k (dex_currency s) = (Inr k1, c1)"
    and fee: "f_transfer (UAssets cfg) (quote p) ?acc (cp_owner pool) ?fee False c1 = (Inr k2, c2)"
    and get: "f_transfer (UAssets cfg) (base p) ?acc who n False c2 = (Inr k3, c3)"
    and t: "t = s\<lparr>dex_currency := c3, uni_events := e\<rparr>" by auto
  have "uni_balance cfg (quote p) ?acc t + ?fee = uni_balance cfg (quote p) ?acc s + q"
    "uni_balance cfg (base p) ?acc t + n = uni_balance cfg (base p) ?acc s"
    using transfer_adds [OF pay, of "quote p" ?acc] transfer_adds [OF fee, of "quote p" ?acc] transfer_adds [OF get, of "quote p" ?acc]
      transfer_adds [OF pay, of "base p" ?acc] transfer_adds [OF fee, of "base p" ?acc] transfer_adds [OF get, of "base p" ?acc] who p t
    by (simp_all add: uni_balance_def)
  with net show ?thesis by (intro exI [of _ net] exI [of _ ?fee]) auto
qed

lemma liquidity_returned:
  assumes exact: "exact_mul_div (UMulDiv cfg)"
    and add: "uni_add_liquidity cfg who i b q mn k s = (Inr x, t)" and pool: "UniPools s i = Some pool"
    and who: "who \<noteq> uni_account_id cfg i" and p: "base (cp_pair pool) \<noteq> quote (cp_pair pool)"
      "cp_lp_token pool \<noteq> base (cp_pair pool)" "cp_lp_token pool \<noteq> quote (cp_pair pool)"
    and L: "L = f_total_issuance (UAssets cfg) (cp_lp_token pool) (dex_currency s)" "0 < L"
    and B: "0 < uni_balance cfg (base (cp_pair pool)) (uni_account_id cfg i) s"
    and rem: "uni_remove_liquidity cfg who i (f_total_issuance (UAssets cfg) (cp_lp_token pool) (dex_currency t) - L) mb mq t = (Inr y, v)"
  shows "f_total_issuance (UAssets cfg) (cp_lp_token pool) (dex_currency v) = L
    \<and> uni_balance cfg (cp_lp_token pool) who v = uni_balance cfg (cp_lp_token pool) who s
    \<and> uni_balance cfg (base (cp_pair pool)) who v \<le> uni_balance cfg (base (cp_pair pool)) who s
    \<and> uni_balance cfg (quote (cp_pair pool)) who v \<le> uni_balance cfg (quote (cp_pair pool)) who s"
proof -
  let ?acc = "uni_account_id cfg i" and ?B = "base (cp_pair pool)" and ?Q = "quote (cp_pair pool)" and ?F = "UAssets cfg"
  let ?b = "uni_balance cfg ?B ?acc s" and ?q = "uni_balance cfg ?Q ?acc s"
  from uni_add_run [OF add pool] obtain n l k1 k2 k3 c1 c2 c3 e where
    dep: "compute_deposit_lp (USqrt cfg) (UMulDiv cfg) L b q ?b ?q = Inr (n, l)"
    and a: "f_transfer ?F ?B who ?acc b k (dex_currency s) = (Inr k1, c1)" "f_transfer ?F ?Q who ?acc n k c1 = (Inr k2, c2)"
      "f_mint_into ?F (cp_lp_token pool) who l c2 = (Inr k3, c3)" and t: "t = s\<lparr>dex_currency := c3, uni_events := e\<rparr>"
    by (auto simp: L(1))
  have n: "n = ?q * b div ?b" "l = L * b div ?b"
    using dep L(2) B exact by (auto simp: compute_deposit_lp_def bindA_def safe_multiply_by_rational_def exact_mul_divD split: option.splits)
  have total: "f_total_issuance ?F (cp_lp_token pool) (dex_currency t) = L + l"
    using t L(1) by (simp add: mint_adds(2) [OF a(3)] transfer_keeps_total [OF a(1)] transfer_keeps_total [OF a(2)])
  have mid: "uni_balance cfg ?B ?acc t = ?b + b" "uni_balance cfg ?Q ?acc t = ?q + n"
    "uni_balance cfg ?B who t + b = uni_balance cfg ?B who s" "uni_balance cfg ?Q who t + n = uni_balance cfg ?Q who s"
    "uni_balance cfg (cp_lp_token pool) who t = uni_balance cfg (cp_lp_token pool) who s + l"
    using transfer_adds [OF a(1), of ?B ?acc] transfer_adds [OF a(2), of ?B ?acc] transfer_adds [OF a(1), of ?Q ?acc] transfer_adds [OF a(2), of ?Q ?acc]
      transfer_adds [OF a(1), of ?B who] transfer_adds [OF a(2), of ?B who] transfer_adds [OF a(1), of ?Q who] transfer_adds [OF a(2), of ?Q who]
      transfer_adds [OF a(1), of "cp_lp_token pool" who] transfer_adds [OF a(2), of "cp_lp_token pool" who] who p t
    by (simp_all add: uni_balance_def mint_adds(1) [OF a(3)])
  have pool': "UniPools t i = Some pool" using t pool by simp
  from uni_remove_run [OF rem pool'] obtain b' q' j1 j2 j3 d1 d2 d3 e' where
    out: "UMulDiv cfg l (?b + b) (L + l) = Some b'" "UMulDiv cfg l (?q + n) (L + l) = Some q'"
    and r: "f_transfer ?F ?B ?acc who b' False (dex_currency t) = (Inr j1, d1)" "f_transfer ?F ?Q ?acc who q' False d1 = (Inr j2, d2)"
      "f_burn_from ?F (cp_lp_token pool) who l d2 = (Inr j3, d3)" and v: "v = t\<lparr>dex_currency := d3, uni_events := e'\<rparr>"
    unfolding total mid by auto
  have "b' = l * (?b + b) div (L + l)" "q' = l * (?q + n) div (L + l)"
    using out exact_mul_divD [OF exact] L(2) by auto
  moreover have "l * ?b \<le> L * b" using n(2) div_times_less_eq_dividend by simp
  moreover have "?q * b < (n + 1) * ?b" using n(1) B dividend_less_div_times [of ?b "?q * b"] by (simp add: algebra_simps)
  ultimately have le: "b' \<le> b" "q' \<le> n" using share_no_gain share_no_gain_rounded L(2) B by simp_all
  have "f_total_issuance ?F (cp_lp_token pool) (dex_currency v) = L"
    using v total by (simp add: burn_adds(3) [OF r(3)] transfer_keeps_total [OF r(1)] transfer_keeps_total [OF r(2)])
  moreover have "uni_balance cfg ?B who v = uni_balance cfg ?B who t + b'" "uni_balance cfg ?Q who v = uni_balance cfg ?Q who t + q'"
    "uni_balance cfg (cp_lp_token pool) who v + l = uni_balance cfg (cp_lp_token pool) who t"
    using transfer_adds [OF r(1), of ?B who] transfer_adds [OF r(2), of ?B who] transfer_adds [OF r(1), of ?Q who] transfer_adds [OF r(2), of ?Q who]
      transfer_adds [OF r(1), of "cp_lp_token pool" who] transfer_adds [OF r(2), of "cp_lp_token pool" who]
      burn_adds(1) [OF r(3), of ?B who] burn_adds(1) [OF r(3), of ?Q who] burn_adds(1) [OF r(3), of "cp_lp_token pool" who] who p v
    by (simp_all add: uni_balance_def)
  ultimately show ?thesis using mid le by linarith
qed

end

section \<open>An instance\<close>

text \<open>
  Both exchanges over the currencies of the assets pallet, with decimals of 28 places. Two pools of the first
  exchange, one with fees, and one of the second; account 5 has some of the assets 2 and 3, account 6 all of
  the liquidity tokens of the pool with fees.
\<close>

definition sample_uniswap :: "(ledger \<times> ledger, rat) uniswap_config" where
  "sample_uniswap =
     \<lparr>UAssets = assets_fungibles ledger_assets, UDecimals = decimals28,
      USqrt = (\<lambda>n. Some (length (filter (\<lambda>k. k * k \<le> n) [1..<n + 1]))), UMulDiv = reference_mul_div, UPermill = reference_permill,
      uni_sub_account = (\<lambda>i. 1000 + i)\<rparr>"

definition sample_curve :: "(ledger \<times> ledger) curve_config" where
  "sample_curve =
     \<lparr>CAssets = assets_fungibles ledger_assets, CBig = reference_big, CMulDiv = reference_mul_div, CPermill = reference_permill,
      curve_sub_account = (\<lambda>i. 2000 + i)\<rparr>"

interpretation sample: dex_market sample_uniswap sample_curve
proof -
  have "dex_ledger (assets_fungibles ledger_assets)"
    by (simp add: dex_ledger_def dex_ledger_axioms_def ledger_assets.routed_ledger dust_free_def)
  then show "dex_market sample_uniswap sample_curve"
    by (simp add: dex_market_def dex_market_axioms_def uniswap_ledger_def curve_ledger_def sample_uniswap_def sample_curve_def)
qed

definition sample_pools :: "(ledger \<times> ledger) dex" where
  "sample_pools = (dex_genesis
     (empty_ledger,
      \<lparr>bals = (\<lambda>a x. if (a, x) \<in> {(3, 1000), (3, 1001), (3, 2000), (4, 2000)} then 1000 else if (a, x) = (2, 1000) then 900
                else if (a, x) = (2, 1001) then 903 else if (a, x) \<in> {(2, 5), (3, 5)} then 100 else if (a, x) = (21, 6) then 50 else 0),
       issued = (\<lambda>a. if a \<in> {2, 3} then 4000 else if a = 4 then 1000 else if a = 21 then 50 else 0)\<rparr>))
     \<lparr>UniPoolCount := 2,
      UniPools := [0 \<mapsto> \<lparr>cp_owner = 9, cp_pair = \<lparr>base = 3, quote = 2\<rparr>, cp_lp_token = 20, cp_fee = 0, cp_owner_fee = 0\<rparr>,
                   1 \<mapsto> \<lparr>cp_owner = 9, cp_pair = \<lparr>base = 3, quote = 2\<rparr>, cp_lp_token = 21, cp_fee = 20000, cp_owner_fee = 10000\<rparr>],
      CurvePoolCount := 1,
      CurvePools := [0 \<mapsto> \<lparr>ss_owner = 9, ss_pair = \<lparr>base = 4, quote = 3\<rparr>, ss_lp_token = 22, amplification_coefficient = 100, ss_fee = 0,
                     ss_protocol_fee = 0\<rparr>],
      DexRoutes := [(2, 4) \<mapsto> Direct [UniswapPool 0, CurvePool 0]]\<rparr>"

lemma sample_config [simp]:
  "UAssets sample_uniswap = assets_fungibles ledger_assets" "UDecimals sample_uniswap = decimals28"
  "UMulDiv sample_uniswap = reference_mul_div" "UPermill sample_uniswap = reference_permill" "uni_account_id sample_uniswap i = 1000 + i"
  "CAssets sample_curve = assets_fungibles ledger_assets" "CBig sample_curve = reference_big" "CMulDiv sample_curve = reference_mul_div"
  "CPermill sample_curve = reference_permill" "curve_account_id sample_curve i = 2000 + i"
  "permill_mul_floor reference_permill p n = p * n div 1000000"
  by (simp_all add: sample_uniswap_def sample_curve_def uni_account_id_def curve_account_id_def reference_permill_def)

lemma hop_cases:
  "hop (market_router u c hops) who (UniswapPool i) dx = bindM (uni_currency_pair i) (\<lambda>p. uni_exchange u who i p dx 0 True)"
  "hop (market_router u c hops) who (CurvePool i) dx = bindM (curve_currency_pair i) (\<lambda>p. curve_exchange c who i p dx 0 True)"
  by (simp_all add: hop_def market_router_def node_amm_def node_pool_def uniswap_amm_def curve_amm_of_def)

lemma sample_dex_reads [simp]:
  "a \<noteq> 1 \<Longrightarrow> balance_of ledger_assets a x (N, M) = bals M a x" "a \<noteq> 1 \<Longrightarrow> total_issuance ledger_assets a (N, M) = issued M a"
  by (simp_all add: assets_ops ledger_assets_def ledger_fungibles_def)

lemma sample_dex_writes [simp]:
  "a \<noteq> 1 \<Longrightarrow> transfer ledger_assets a x y n k (N, M) = (case ledger_transfer a x y n k M of (r, M') \<Rightarrow> (r, (N, M')))"
  "a \<noteq> 1 \<Longrightarrow> mint_into ledger_assets a x n (N, M) = (case ledger_mint a x n M of (r, M') \<Rightarrow> (r, (N, M')))"
  "a \<noteq> 1 \<Longrightarrow> burn_from ledger_assets a x n (N, M) = (case ledger_burn a x n M of (r, M') \<Rightarrow> (r, (N, M')))"
  by (simp_all add: assets_ops ledger_assets_def ledger_fungibles_def on_multi_def zoom_def split: prod.split)

lemma sample_d: "compute_d reference_big 1000 1000 100 = Inr 2000"
proof -
  have "d_round reference_big 400 2000 2000 2000 2000 = Inr 2000" by (simp add: d_round_def reference_div)
  then have "d_loop (Suc 254) reference_big 400 2000 2000 2000 2000 = Inr 2000"
    by (simp only: d_loop.simps) (simp add: close_to_def to_u128_def u128_max_def)
  then show ?thesis by (simp add: compute_d_def Let_def)
qed

lemmas dex_calls [THEN fun_cong] =
  router_sell_def router_exchange_def hop_cases uni_exchange_def uni_do_compute_swap_def uni_transfer_def uni_deposit_event_def uni_currency_pair_def
  uni_get_pool_def uni_add_liquidity_def uni_remove_liquidity_def on_dex_currency_def
  curve_exchange_def curve_do_compute_swap_def curve_get_exchange_value_def curve_get_pool_def curve_transfer_def curve_deposit_event_def
  curve_currency_pair_def

lemmas dex_eval =
  dex_calls sample_pools_def dex_genesis_def uni_balance_def curve_balance_def get_d_def get_base_def sample_d sample_base out_given_in_whole
  get_route_def pair_eq_def pair_swap_def ledger_transfer_def ledger_mint_def ledger_burn_def moved_def credited_def debited_def
  safe_arith_defs u128_max_def compute_deposit_lp_def bindA_def safe_multiply_by_rational_def reference_mul_div_def call_steps Let_def

lemma sample_route_ok:
  "\<exists>t. router_sell (market_router sample_uniswap sample_curve 4) 5 \<lparr>base = 2, quote = 4\<rparr> 100 sample_pools = (Inr 100, t)"
  by (simp add: dex_eval cong: call_congs)

section \<open>Properties\<close>

text \<open>
  The trades along a route, by \<open>sell\<close> or by \<open>buy\<close>: when one succeeds, the trader, who is neither the account nor
  the owner of one of the pools, has paid exactly the amount in of the asset that the first pool takes and
  received exactly the amount out of the asset that the last pool pays, whatever pair the route is stored for.
\<close>

lemma route_trade:
  assumes "dex_market u c" "get_route p s = Some rs" "rs \<noteq> []" "leads a rs b s" "list_all (\<lambda>r. \<not> node_insider u c r s who) rs"
    and "router_sell (market_router u c hops) who p dx s = (Inr dy, t)
       \<or> (\<exists>n. value_along (market_router u c hops) (rev rs) n 0 s = (Inr dx, s) \<and> router_buy (market_router u c hops) who p n s = (Inr dy, t))"
  shows "same_pools s t \<and> issuance (UAssets u) (dex_currency t) = issuance (UAssets u) (dex_currency s)
    \<and> f_balance (UAssets u) z who (dex_currency t) + (if z = a then dx else 0)
      = f_balance (UAssets u) z who (dex_currency s) + (if z = b then dy else 0)"
proof -
  have "exchange_along (market_router u c hops) who rs dx dx s = (Inr dy, t)"
    using assms(2,3,6) exchange_along_start [OF assms(3), of "market_router u c hops" who dx 0]
    by (auto simp: router_sell_def router_exchange_def router_buy_def buy_along_is_exchange_along ok_simps)
  from dex_market.along_settles [OF assms(1) this assms(4,5)] show ?thesis .
qed

text \<open>
  C23. Selling the base asset of a pair for its quote asset, along a stored route whose pools lead from the one
  to the other: when \<open>sell\<close> succeeds, a trader who is neither the account nor the owner of one of the pools
  has paid exactly the amount given of the base asset and received exactly the returned amount of the quote
  asset, and its balance of every other asset, those in between included, is what it was. Nothing is minted or
  burned, and pools and routes stay.
\<close>

theorem route_trade_settles:
  assumes "dex_market u c" "get_route p s = Some rs" "rs \<noteq> []" "leads (base p) rs (quote p) s"
    and "list_all (\<lambda>r. \<not> node_insider u c r s who) rs" "router_sell (market_router u c hops) who p dx s = (Inr dy, t)"
  shows "same_pools s t \<and> issuance (UAssets u) (dex_currency t) = issuance (UAssets u) (dex_currency s)
    \<and> f_balance (UAssets u) z who (dex_currency t) + (if z = base p then dx else 0)
      = f_balance (UAssets u) z who (dex_currency s) + (if z = quote p then dy else 0)"
  by (rule route_trade [OF assms(1-5) disjI1 [OF assms(6)]])

theorem route_trade_settles_witness:
  "\<exists>t. router_sell (market_router sample_uniswap sample_curve 4) 5 \<lparr>base = 2, quote = 4\<rparr> 100 sample_pools = (Inr 100, t)
     \<and> balance_of ledger_assets 2 5 (dex_currency t) = 0 \<and> balance_of ledger_assets 4 5 (dex_currency t) = 100"
proof -
  obtain t where t: "router_sell (market_router sample_uniswap sample_curve 4) 5 \<lparr>base = 2, quote = 4\<rparr> 100 sample_pools = (Inr 100, t)"
    using sample_route_ok by blast
  have route: "get_route \<lparr>base = 2, quote = 4\<rparr> sample_pools = Some [UniswapPool 0, CurvePool 0]"
    "leads (base \<lparr>base = 2, quote = 4\<rparr>) [UniswapPool 0, CurvePool 0] (quote \<lparr>base = 2, quote = 4\<rparr>) sample_pools"
    "list_all (\<lambda>r. \<not> node_insider sample_uniswap sample_curve r sample_pools 5) [UniswapPool 0, CurvePool 0]"
    by (simp_all add: sample_pools_def dex_genesis_def get_route_def node_pair_def uni_pair_of_def curve_pair_of_def node_insider_def
        uni_insider_def curve_insider_def)
  note r = route_trade_settles [OF sample.dex_market_axioms route(1) _ route(2,3) t]
  have "balance_of ledger_assets 2 5 (dex_currency t) + 100 = 100" "balance_of ledger_assets 4 5 (dex_currency t) = 100"
    using r [of 2] r [of 4] by (simp_all add: sample_pools_def dex_genesis_def)
  with t show ?thesis by auto
qed

text \<open>
  C24. In every state that the operations of the exchanges and the router can reach, with any other use of
  currencies and asset identifiers in between, the pools of both exchanges are well formed: a pool has a
  number below the count of its exchange, two different assets, fees that are together less than one, and a
  liquidity token that no other pool of either exchange has and that the factory will not hand out again.
\<close>

theorem dex_pools_typed:
  assumes "dex_reach u c hops s"
  shows "node_ok r s \<and> (node_lp r s = Some n \<longrightarrow> n \<in> spent_ids (dex_factory s) \<and> (node_lp q s = Some n \<longrightarrow> q = r))"
  using dex_reach_inv [OF assms] by (auto simp: dex_inv_def lp_tokens_ok_def)

definition sample_created :: "(ledger \<times> ledger) dex" where
  "sample_created = dex_run sample_uniswap sample_curve 4 (UniCreate (SignedOrigin 9) \<lparr>base = 3, quote = 2\<rparr> 20000 10000)
     (dex_genesis (empty_ledger, empty_ledger))"

lemma sample_created_reach: "dex_reach sample_uniswap sample_curve 4 sample_created"
  unfolding sample_created_def by (intro dex_reach.intros)

lemma sample_created_pool: "node_lp (UniswapPool 0) sample_created = Some 100000000001" "DexRoutes sample_created = Map.empty"
  by (simp_all add: sample_created_def node_lp_def dex_genesis_def run_unit_def uni_create_call_def uni_do_create_pool_def permill_checked_add_def
      permill_one_def on_dex_factory_def create_def factory_genesis_def ranges_new_eq ranges_increment_def ranges_get_def range_increment_def
      range_lp_tokens_def LP_TOKENS_def uni_deposit_event_def safe_arith_defs u128_max_def saturating_add_def call_eval)

theorem dex_pools_typed_witness: "100000000001 \<in> spent_ids (dex_factory sample_created)"
  using dex_pools_typed [OF sample_created_reach, of "UniswapPool 0" 100000000001] sample_created_pool(1) by simp

text \<open>
  C27. In every reachable state a stored route has at most \<open>MaxHopsInRoute\<close> pools and all of them exist, so
  that a trade along it never fails for want of a pool.
\<close>

theorem stored_routes_exist:
  assumes "dex_reach u c hops s" "get_route p s = Some rs"
  shows "length rs \<le> hops \<and> list_all (\<lambda>r. \<exists>pair. amm_currency_pair (node_amm (market_router u c hops) r) (node_pool r) s = (Inr pair, s)) rs"
proof -
  have "length rs \<le> hops \<and> list_all (\<lambda>r. node_lp r s \<noteq> None) rs"
    using dex_reach_inv [OF assms(1)] assms(2)
    by (auto simp: dex_inv_def routes_ok_def get_route_def split: option.splits dex_route.splits)
  moreover have "\<exists>pair. amm_currency_pair (node_amm (market_router u c hops) r) (node_pool r) s = (Inr pair, s)" if "node_lp r s \<noteq> None" for r
    using that by (cases r) (auto simp: node_lp_def node_amm_def node_pool_def market_router_def uniswap_amm_def curve_amm_of_def
        uni_currency_pair_def curve_currency_pair_def ok_simps)
  ultimately show ?thesis by (auto simp: list_all_iff)
qed

definition sample_routed :: "(ledger \<times> ledger) dex" where
  "sample_routed = dex_run sample_uniswap sample_curve 4 (UpdateRoute 9 \<lparr>base = 3, quote = 2\<rparr> (Some [UniswapPool 0])) sample_created"

theorem stored_routes_exist_witness:
  "\<exists>pair. uni_currency_pair 0 sample_routed = (Inr pair, sample_routed)"
proof -
  have "dex_reach sample_uniswap sample_curve 4 sample_routed"
    unfolding sample_routed_def by (intro dex_reach.intros sample_created_reach)
  moreover have "check_node (market_router sample_uniswap sample_curve 4) (UniswapPool 0) sample_created = (Inr (), sample_created)"
    by (simp add: check_node_ok sample_created_pool)
  then have "get_route \<lparr>base = 3, quote = 2\<rparr> sample_routed = Some [UniswapPool 0]"
    using sample_created_pool(2) by (simp add: sample_routed_def run_unit_def update_route_def do_update_route_def route_deposit_event_def get_route_def call_eval)
  ultimately show ?thesis
    using stored_routes_exist [of sample_uniswap sample_curve 4 sample_routed "\<lparr>base = 3, quote = 2\<rparr>" "[UniswapPool 0]"]
    by (simp add: market_router_def node_amm_def node_pool_def uniswap_amm_def)
qed

text \<open>
  C22. A swap pays the amount of the constant product formula and keeps the product, up to the rounding of the
  decimals. The pool receives the amount offered less the fee of its owner and pays the amount returned; for
  the amount \<open>net\<close> that the fees leave, this is the \<open>B * net / (Q + net)\<close> of the formula to within two parts in
  \<open>10 ^ 27\<close> of the balance \<open>B\<close>, and the truncation to an integer. The product of the two balances falls by no
  more than two parts in \<open>10 ^ 27\<close> of \<open>Q t * B s\<close>, so by nothing at all while that is less than one unit.
\<close>

theorem swap_keeps_product:
  assumes "uniswap_ledger cfg" "decimal_laws (UDecimals cfg) val" "uni_exchange cfg who i p q mn k s = (Inr n, t)"
    and "UniPools s i = Some pool" "who \<noteq> uni_account_id cfg i" "cp_owner pool \<noteq> uni_account_id cfg i" "base p \<noteq> quote p"
    and "B = uni_balance cfg (base p) (uni_account_id cfg i)" "Q = uni_balance cfg (quote p) (uni_account_id cfg i)"
  shows "Q t = Q s + (q - permill_mul_floor (UPermill cfg) (cp_owner_fee pool) q) \<and> B t + n = B s
    \<and> (\<exists>net. 0 < net \<and> net \<le> q \<and> 10 ^ 27 * (n * (Q s + net)) \<le> 10 ^ 27 * (B s * net) + 2 * (B s * (Q s + net))
         \<and> 10 ^ 27 * (B s * net) < 10 ^ 27 * ((n + 1) * (Q s + net)) + 2 * (B s * (Q s + net)))
    \<and> 10 ^ 27 * (Q s * B s) \<le> 10 ^ 27 * (Q t * B t) + 2 * (Q t * B s)
    \<and> (2 * (Q t * B s) < 10 ^ 27 \<longrightarrow> Q s * B s \<le> Q t * B t)"
proof -
  obtain net fee where net: "net \<le> q - fee" "fee \<le> q" "0 < net" "fee = permill_mul_floor (UPermill cfg) (cp_owner_fee pool) q"
    and out: "compute_out_given_in (UDecimals cfg) half_weight half_weight (Q s) (B s) net = Inr n"
    and new: "Q t = Q s + (q - fee)" "B t + n = B s"
    using uniswap_ledger.exchange_pool [OF assms(1,3-7)] assms(8,9) by auto
  note within = decimal_laws.out_given_in_within [OF assms(2) out net(3)]
  have B: "B t = B s - n" "n \<le> B s" using new(2) by simp_all
  have "Q s + net \<le> Q t" using new(1) net(1) by simp
  then have kept: "10 ^ 27 * (Q s * B s) \<le> 10 ^ 27 * (Q t * B t) + 2 * (Q t * B s)"
    unfolding B(1) by (intro product_kept [OF within(1) B(2)])
  moreover have "Q s * B s \<le> Q t * B t" if "2 * (Q t * B s) < 10 ^ 27"
  proof (rule ccontr)
    assume "\<not> Q s * B s \<le> Q t * B t"
    then have "Q t * B t + 1 \<le> Q s * B s" by simp
    then have "10 ^ 27 * (Q t * B t + 1) \<le> 10 ^ 27 * (Q s * B s)" by (rule mult_le_mono2)
    then show False using kept that unfolding add_mult_distrib2 mult_1_right by linarith
  qed
  moreover have "\<exists>net. 0 < net \<and> net \<le> q \<and> 10 ^ 27 * (n * (Q s + net)) \<le> 10 ^ 27 * (B s * net) + 2 * (B s * (Q s + net))
      \<and> 10 ^ 27 * (B s * net) < 10 ^ 27 * ((n + 1) * (Q s + net)) + 2 * (B s * (Q s + net))"
    using net(1,3) within by (intro exI [of _ net] conjI) linarith+
  ultimately show ?thesis using new unfolding net(4) by blast
qed

lemma sample_swap_ok: "\<exists>t. uni_exchange sample_uniswap 5 1 \<lparr>base = 3, quote = 2\<rparr> 100 0 True sample_pools = (Inr 97, t)"
  by (simp add: dex_eval cong: call_congs)

theorem swap_keeps_product_witness:
  "\<exists>t. uni_exchange sample_uniswap 5 1 \<lparr>base = 3, quote = 2\<rparr> 100 0 True sample_pools = (Inr 97, t)
     \<and> uni_balance sample_uniswap 2 1001 t = 1002 \<and> uni_balance sample_uniswap 3 1001 t = 903"
proof -
  obtain t where t: "uni_exchange sample_uniswap 5 1 \<lparr>base = 3, quote = 2\<rparr> 100 0 True sample_pools = (Inr 97, t)"
    using sample_swap_ok by blast
  have "UniPools sample_pools 1 = Some \<lparr>cp_owner = 9, cp_pair = \<lparr>base = 3, quote = 2\<rparr>, cp_lp_token = 21, cp_fee = 20000, cp_owner_fee = 10000\<rparr>"
    "uni_balance sample_uniswap 2 1001 sample_pools = 903" "uni_balance sample_uniswap 3 1001 sample_pools = 1000"
    by (simp_all add: sample_pools_def dex_genesis_def uni_balance_def)
  with t swap_keeps_product [OF sample.uniswap.uniswap_ledger_axioms _ t, of "\<lambda>x. x"] decimals28.decimal_laws_axioms show ?thesis by auto
qed

text \<open>
  C26. Depositing into a pool that has providers and taking the new shares out again at once gains nothing: the
  provider ends with at most the base and at most the quote that it started with, although both operations
  round, with the liquidity tokens it had, and the issuance of the liquidity token is what it was.
\<close>

theorem liquidity_round_trip:
  assumes "uniswap_ledger cfg" "exact_mul_div (UMulDiv cfg)"
    and "uni_add_liquidity cfg who i b q mn k s = (Inr x, t)" "UniPools s i = Some pool" "who \<noteq> uni_account_id cfg i"
    and "base (cp_pair pool) \<noteq> quote (cp_pair pool)" "cp_lp_token pool \<noteq> base (cp_pair pool)" "cp_lp_token pool \<noteq> quote (cp_pair pool)"
    and "L = f_total_issuance (UAssets cfg) (cp_lp_token pool) (dex_currency s)" "0 < L"
    and "0 < uni_balance cfg (base (cp_pair pool)) (uni_account_id cfg i) s"
    and "uni_remove_liquidity cfg who i (f_total_issuance (UAssets cfg) (cp_lp_token pool) (dex_currency t) - L) mb mq t = (Inr y, v)"
  shows "f_total_issuance (UAssets cfg) (cp_lp_token pool) (dex_currency v) = L
    \<and> uni_balance cfg (cp_lp_token pool) who v = uni_balance cfg (cp_lp_token pool) who s
    \<and> uni_balance cfg (base (cp_pair pool)) who v \<le> uni_balance cfg (base (cp_pair pool)) who s
    \<and> uni_balance cfg (quote (cp_pair pool)) who v \<le> uni_balance cfg (quote (cp_pair pool)) who s"
  using uniswap_ledger.liquidity_returned [OF assms] .

lemma sample_liquidity_ok:
  "\<exists>t v. uni_add_liquidity sample_uniswap 5 1 100 0 0 True sample_pools = (Inr (), t)
     \<and> f_total_issuance (UAssets sample_uniswap) 21 (dex_currency t) = 55 \<and> uni_remove_liquidity sample_uniswap 5 1 5 0 0 t = (Inr (), v)"
  by (simp add: dex_eval cong: call_congs)

theorem liquidity_round_trip_witness:
  "\<exists>t v. uni_add_liquidity sample_uniswap 5 1 100 0 0 True sample_pools = (Inr (), t)
     \<and> uni_remove_liquidity sample_uniswap 5 1 5 0 0 t = (Inr (), v) \<and> uni_balance sample_uniswap 2 5 v \<le> 100"
proof -
  obtain t v where t: "uni_add_liquidity sample_uniswap 5 1 100 0 0 True sample_pools = (Inr (), t)"
    "f_total_issuance (UAssets sample_uniswap) 21 (dex_currency t) = 55" "uni_remove_liquidity sample_uniswap 5 1 5 0 0 t = (Inr (), v)"
    using sample_liquidity_ok by blast
  have pool: "UniPools sample_pools 1 = Some \<lparr>cp_owner = 9, cp_pair = \<lparr>base = 3, quote = 2\<rparr>, cp_lp_token = 21, cp_fee = 20000, cp_owner_fee = 10000\<rparr>"
    "f_total_issuance (UAssets sample_uniswap) 21 (dex_currency sample_pools) = 50"
    "uni_balance sample_uniswap 3 1001 sample_pools = 1000" "uni_balance sample_uniswap 2 5 sample_pools = 100"
    by (simp_all add: sample_pools_def dex_genesis_def uni_balance_def)
  with liquidity_round_trip [OF sample.uniswap.uniswap_ledger_axioms _ t(1) pool(1), of 50 0 0 "()" v] t show ?thesis
    by (auto simp: exact_reference_mul_div)
qed

end
