(* ===== verification/Democracy_Vote.thy ===== *)
theory Democracy_Vote
  imports Prelude "HOL-Library.Word"
begin

text \<open>
  Votes (frame/democracy/src/conviction.rs, vote.rs, vote_threshold.rs, types.rs): conviction, the byte a
  vote is stored as, the tally of a referendum, the thresholds by which it passes, and what an account does
  with its votes. Balances are \<open>u128\<close>.
\<close>

unbundle bit_operations_syntax

section \<open>Conviction\<close>

datatype conviction = NoConviction | Locked1x | Locked2x | Locked3x | Locked4x | Locked5x | Locked6x

definition conviction_to_u8 :: "conviction \<Rightarrow> 8 word" where
  "conviction_to_u8 c =
     (case c of NoConviction \<Rightarrow> 0 | Locked1x \<Rightarrow> 1 | Locked2x \<Rightarrow> 2 | Locked3x \<Rightarrow> 3 | Locked4x \<Rightarrow> 4 | Locked5x \<Rightarrow> 5 | Locked6x \<Rightarrow> 6)"

definition conviction_try_from :: "8 word \<Rightarrow> unit + conviction" where
  "conviction_try_from i =
     (if i = 0 then Inr NoConviction else if i = 1 then Inr Locked1x else if i = 2 then Inr Locked2x
      else if i = 3 then Inr Locked3x else if i = 4 then Inr Locked4x else if i = 5 then Inr Locked5x
      else if i = 6 then Inr Locked6x else Inl ())"

definition lock_periods :: "conviction \<Rightarrow> nat" where
  "lock_periods c =
     (case c of NoConviction \<Rightarrow> 0 | Locked1x \<Rightarrow> 1 | Locked2x \<Rightarrow> 2 | Locked3x \<Rightarrow> 4 | Locked4x \<Rightarrow> 8 | Locked5x \<Rightarrow> 16 | Locked6x \<Rightarrow> 32)"

record delegations =
  del_votes :: balance
  capital :: balance

definition default_delegations :: delegations where
  "default_delegations = \<lparr>del_votes = 0, capital = 0\<rparr>"

definition conviction_votes :: "conviction \<Rightarrow> balance \<Rightarrow> delegations" where
  "conviction_votes c n =
     \<lparr>del_votes =
        (case c of
           NoConviction \<Rightarrow> (case checked_div n 10 of None \<Rightarrow> 0 | Some v \<Rightarrow> v)
         | x \<Rightarrow> (case checked_mul u128_max n (unat (conviction_to_u8 x)) of None \<Rightarrow> u128_max | Some v \<Rightarrow> v)),
      capital = n\<rparr>"

definition del_saturating_add :: "delegations \<Rightarrow> delegations \<Rightarrow> delegations" where
  "del_saturating_add d e =
     \<lparr>del_votes = saturating_add u128_max (del_votes d) (del_votes e), capital = saturating_add u128_max (capital d) (capital e)\<rparr>"

definition del_saturating_sub :: "delegations \<Rightarrow> delegations \<Rightarrow> delegations" where
  "del_saturating_sub d e =
     \<lparr>del_votes = saturating_sub (del_votes d) (del_votes e), capital = saturating_sub (capital d) (capital e)\<rparr>"

definition del_saturating_mul :: "delegations \<Rightarrow> delegations \<Rightarrow> delegations" where
  "del_saturating_mul d e =
     \<lparr>del_votes = saturating_mul u128_max (del_votes d) (del_votes e), capital = saturating_mul u128_max (capital d) (capital e)\<rparr>"

definition del_saturating_pow :: "delegations \<Rightarrow> nat \<Rightarrow> delegations" where
  "del_saturating_pow d e = \<lparr>del_votes = min u128_max (del_votes d ^ e), capital = min u128_max (capital d ^ e)\<rparr>"

section \<open>Votes\<close>

record vote =
  aye :: bool
  vote_conviction :: conviction

definition vote_encode :: "vote \<Rightarrow> 8 word" where
  "vote_encode v = conviction_to_u8 (vote_conviction v) OR (if aye v then 128 else 0)"

definition vote_decode :: "8 word \<Rightarrow> string + vote" where
  "vote_decode b =
     (case conviction_try_from (b AND 127) of
        Inl _ \<Rightarrow> Inl ''Invalid conviction''
      | Inr c \<Rightarrow> Inr \<lparr>aye = (b AND 128 = 128), vote_conviction = c\<rparr>)"

datatype account_vote = Standard vote balance | Split balance balance

definition locked_if :: "account_vote \<Rightarrow> bool \<Rightarrow> (nat \<times> balance) option" where
  "locked_if v approved =
     (case v of
        Standard w n \<Rightarrow> if aye w = approved then Some (lock_periods (vote_conviction w), n) else None
      | Split _ _ \<Rightarrow> None)"

definition vote_balance :: "account_vote \<Rightarrow> balance" where
  "vote_balance v = (case v of Standard _ n \<Rightarrow> n | Split a b \<Rightarrow> saturating_add u128_max a b)"

definition as_standard :: "account_vote \<Rightarrow> bool option" where
  "as_standard v = (case v of Standard w _ \<Rightarrow> Some (aye w) | Split _ _ \<Rightarrow> None)"

text \<open>\<open>PriorLock\<close>: a block number and an amount.\<close>

type_synonym prior_lock = "block_number \<times> balance"

definition prior_accumulate :: "block_number \<Rightarrow> balance \<Rightarrow> prior_lock \<Rightarrow> prior_lock" where
  "prior_accumulate until n p = (max (fst p) until, max (snd p) n)"

definition prior_locked :: "prior_lock \<Rightarrow> balance" where
  "prior_locked p = snd p"

definition prior_rejig :: "block_number \<Rightarrow> prior_lock \<Rightarrow> prior_lock" where
  "prior_rejig now p = (if fst p \<le> now then (0, 0) else p)"

datatype voting =
    DirectVoting "(nat \<times> account_vote) list" delegations prior_lock
  | Delegating balance account_id conviction delegations prior_lock

definition default_voting :: voting where
  "default_voting = DirectVoting [] default_delegations (0, 0)"

definition voting_rejig :: "block_number \<Rightarrow> voting \<Rightarrow> voting" where
  "voting_rejig now v =
     (case v of
        DirectVoting votes d p \<Rightarrow> DirectVoting votes d (prior_rejig now p)
      | Delegating n target c d p \<Rightarrow> Delegating n target c d (prior_rejig now p))"

definition voting_locked_balance :: "voting \<Rightarrow> balance" where
  "voting_locked_balance v =
     (case v of
        DirectVoting votes _ p \<Rightarrow> fold (\<lambda>i a. max a (vote_balance (snd i))) votes (prior_locked p)
      | Delegating n _ _ _ _ \<Rightarrow> n)"

definition set_common :: "delegations \<Rightarrow> prior_lock \<Rightarrow> voting \<Rightarrow> voting" where
  "set_common d p v =
     (case v of
        DirectVoting votes _ _ \<Rightarrow> DirectVoting votes d p
      | Delegating n target c _ _ \<Rightarrow> Delegating n target c d p)"

section \<open>Tallies\<close>

record tally =
  ayes :: balance
  nays :: balance
  turnout :: balance

definition default_tally :: tally where
  "default_tally = \<lparr>ayes = 0, nays = 0, turnout = 0\<rparr>"

definition tally_new :: "vote \<Rightarrow> balance \<Rightarrow> tally" where
  "tally_new v n =
     (let d = conviction_votes (vote_conviction v) n in
      \<lparr>ayes = (if aye v then del_votes d else 0), nays = (if aye v then 0 else del_votes d), turnout = capital d\<rparr>)"

text \<open>
  \<open>Tally::add\<close> and \<open>remove\<close>: \<open>None\<close> when a checked operation fails. The receiver of the calls is a copy that
  is dropped then.
\<close>

definition tally_add :: "account_vote \<Rightarrow> tally \<Rightarrow> tally option" where
  "tally_add v t =
     (case v of
        Standard w n \<Rightarrow>
          let d = conviction_votes (vote_conviction w) n in
          Option.bind (checked_add u128_max (turnout t) (capital d)) (\<lambda>to.
          if aye w then Option.bind (checked_add u128_max (ayes t) (del_votes d)) (\<lambda>x. Some (t\<lparr>turnout := to, ayes := x\<rparr>))
          else Option.bind (checked_add u128_max (nays t) (del_votes d)) (\<lambda>x. Some (t\<lparr>turnout := to, nays := x\<rparr>)))
      | Split a b \<Rightarrow>
          let da = conviction_votes NoConviction a; db = conviction_votes NoConviction b in
          Option.bind (checked_add u128_max (turnout t) (capital da)) (\<lambda>to1.
          Option.bind (checked_add u128_max to1 (capital db)) (\<lambda>to.
          Option.bind (checked_add u128_max (ayes t) (del_votes da)) (\<lambda>x.
          Option.bind (checked_add u128_max (nays t) (del_votes db)) (\<lambda>y.
          Some \<lparr>ayes = x, nays = y, turnout = to\<rparr>)))))"

definition tally_remove :: "account_vote \<Rightarrow> tally \<Rightarrow> tally option" where
  "tally_remove v t =
     (case v of
        Standard w n \<Rightarrow>
          let d = conviction_votes (vote_conviction w) n in
          Option.bind (checked_sub (turnout t) (capital d)) (\<lambda>to.
          if aye w then Option.bind (checked_sub (ayes t) (del_votes d)) (\<lambda>x. Some (t\<lparr>turnout := to, ayes := x\<rparr>))
          else Option.bind (checked_sub (nays t) (del_votes d)) (\<lambda>x. Some (t\<lparr>turnout := to, nays := x\<rparr>)))
      | Split a b \<Rightarrow>
          let da = conviction_votes NoConviction a; db = conviction_votes NoConviction b in
          Option.bind (checked_sub (turnout t) (capital da)) (\<lambda>to1.
          Option.bind (checked_sub to1 (capital db)) (\<lambda>to.
          Option.bind (checked_sub (ayes t) (del_votes da)) (\<lambda>x.
          Option.bind (checked_sub (nays t) (del_votes db)) (\<lambda>y.
          Some \<lparr>ayes = x, nays = y, turnout = to\<rparr>)))))"

definition tally_increase :: "bool \<Rightarrow> delegations \<Rightarrow> tally \<Rightarrow> tally" where
  "tally_increase approve d t =
     (let t' = t\<lparr>turnout := saturating_add u128_max (turnout t) (capital d)\<rparr> in
      if approve then t'\<lparr>ayes := saturating_add u128_max (ayes t) (del_votes d)\<rparr>
      else t'\<lparr>nays := saturating_add u128_max (nays t) (del_votes d)\<rparr>)"

definition tally_reduce :: "bool \<Rightarrow> delegations \<Rightarrow> tally \<Rightarrow> tally" where
  "tally_reduce approve d t =
     (let t' = t\<lparr>turnout := saturating_sub (turnout t) (capital d)\<rparr> in
      if approve then t'\<lparr>ayes := saturating_sub (ayes t) (del_votes d)\<rparr>
      else t'\<lparr>nays := saturating_sub (nays t) (del_votes d)\<rparr>)"

section \<open>Thresholds\<close>

datatype vote_threshold = SuperMajorityApprove | SuperMajorityAgainst | SimpleMajority

text \<open>The loop of \<open>compare_rationals\<close>; \<open>None\<close> is the panic of a division by zero.\<close>

function compare_rationals :: "nat \<Rightarrow> nat \<Rightarrow> nat \<Rightarrow> nat \<Rightarrow> bool option" where
  "compare_rationals n1 d1 n2 d2 =
     (if d1 = 0 \<or> d2 = 0 then None
      else
        let q1 = n1 div d1; q2 = n2 div d2 in
        if q1 < q2 then Some True
        else if q2 < q1 then Some False
        else
          let r1 = n1 mod d1; r2 = n2 mod d2 in
          if r2 = 0 then Some False
          else if r1 = 0 then Some True
          else compare_rationals d2 r2 d1 r1)"
  by pat_completeness auto

termination
  by (relation "measure (\<lambda>(n1, d1, n2, d2). d1 + d2)")
     (auto intro: add_strict_mono simp: add.commute add_less_le_mono less_imp_le)

declare compare_rationals.simps [simp del]

definition approved :: "(nat \<Rightarrow> nat) \<Rightarrow> vote_threshold \<Rightarrow> tally \<Rightarrow> balance \<Rightarrow> bool option" where
  "approved isqrt th t electorate =
     (let sqrt_voters = isqrt (turnout t); sqrt_electorate = isqrt electorate in
      if sqrt_voters = 0 then Some False
      else
        case th of
          SuperMajorityApprove \<Rightarrow> compare_rationals (nays t) sqrt_voters (ayes t) sqrt_electorate
        | SuperMajorityAgainst \<Rightarrow> compare_rationals (nays t) sqrt_electorate (ayes t) sqrt_voters
        | SimpleMajority \<Rightarrow> Some (nays t < ayes t))"

section \<open>Comparing fractions\<close>

lemma compare_step:
  fixes n1 n2 d1 d2 :: nat
  assumes "0 < d1" "0 < d2"
  shows "n1 div d1 < n2 div d2 \<Longrightarrow> n1 * d2 < n2 * d1"
    and "n1 div d1 = n2 div d2 \<Longrightarrow> n1 * d2 < n2 * d1 \<longleftrightarrow> n1 mod d1 * d2 < n2 mod d2 * d1"
proof -
  assume less: "n1 div d1 < n2 div d2"
  have "n1 < (n1 div d1 + 1) * d1" using assms(1) by (simp add: dividend_less_div_times)
  then have "n1 * d2 < (n1 div d1 + 1) * d1 * d2" using assms(2) by simp
  also have "\<dots> \<le> n2 div d2 * d1 * d2" using less by (intro mult_le_mono1) simp
  also have "\<dots> = n2 div d2 * d2 * d1" by simp
  also have "\<dots> \<le> n2 * d1" by (intro mult_le_mono1 div_times_less_eq_dividend)
  finally show "n1 * d2 < n2 * d1" .
next
  assume same: "n1 div d1 = n2 div d2"
  have "n1 * d2 = n1 div d1 * d1 * d2 + n1 mod d1 * d2" by (metis add_mult_distrib div_mult_mod_eq)
  moreover have "n2 * d1 = n1 div d1 * d1 * d2 + n2 mod d2 * d1"
    by (metis add_mult_distrib div_mult_mod_eq mult.commute mult.left_commute same)
  ultimately show "n1 * d2 < n2 * d1 \<longleftrightarrow> n1 mod d1 * d2 < n2 mod d2 * d1" by linarith
qed

lemma compare_rationals_eq:
  "0 < d1 \<Longrightarrow> 0 < d2 \<Longrightarrow> compare_rationals n1 d1 n2 d2 = Some (n1 * d2 < n2 * d1)"
proof (induction n1 d1 n2 d2 rule: compare_rationals.induct)
  case (1 n1 d1 n2 d2)
  note step = compare_step [OF "1.prems"] compare_step [OF "1.prems"(2,1)]
  consider "n1 div d1 < n2 div d2" | "n2 div d2 < n1 div d1" | (same) "n1 div d1 = n2 div d2" by linarith
  then show ?case
  proof cases
    case same
    have "compare_rationals d2 (n2 mod d2) d1 (n1 mod d1) = Some (d2 * (n1 mod d1) < d1 * (n2 mod d2))"
      if "n1 mod d1 \<noteq> 0" "n2 mod d2 \<noteq> 0"
      using "1.IH" [OF _ refl refl _ _ refl refl] "1.prems" same that by simp
    then show ?thesis
      using same step(2) [OF same] "1.prems" by (subst compare_rationals.simps) (auto simp: Let_def ac_simps)
  qed (use step(1,3) "1.prems" in \<open>subst compare_rationals.simps; force simp: Let_def\<close>)+
qed

text \<open>
  What the square root is used for: the root of the library is the greatest natural number whose square is
  at most the argument.
\<close>

definition floor_root :: "(nat \<Rightarrow> nat) \<Rightarrow> bool" where
  "floor_root r \<longleftrightarrow> (\<forall>n. r n * r n \<le> n \<and> n < (r n + 1) * (r n + 1))"

lemma floor_root_pos: "floor_root r \<Longrightarrow> 0 < r n \<longleftrightarrow> 0 < n"
  by (cases "r n") (auto simp: floor_root_def dest!: spec [of _ n])

text \<open>
  C35. Comparing two fractions by continued fractions ends and is exact: for positive denominators the loop
  returns, with whether the first fraction is the smaller one, although it never multiplies. So a referendum
  passes with a supermajority of approvals exactly when there is turnout and the nays, weighed with the
  root of the electorate, are fewer than the ayes, weighed with the root of the turnout; with a supermajority
  of rejections the weights are exchanged; with a simple majority there are none.
\<close>

theorem approved_exactly:
  assumes "floor_root isqrt" "0 < electorate"
  shows "approved isqrt th t electorate = Some (0 < turnout t \<and>
    (case th of
       SuperMajorityApprove \<Rightarrow> nays t * isqrt electorate < ayes t * isqrt (turnout t)
     | SuperMajorityAgainst \<Rightarrow> nays t * isqrt (turnout t) < ayes t * isqrt electorate
     | SimpleMajority \<Rightarrow> nays t < ayes t))"
  using floor_root_pos [OF assms(1), of "turnout t"] floor_root_pos [OF assms(1), of electorate] assms(2)
  by (auto simp: approved_def Let_def compare_rationals_eq split: vote_threshold.split)

text \<open>A square root by search.\<close>

definition search_root :: "nat \<Rightarrow> nat" where
  "search_root n = length (filter (\<lambda>k. k * k \<le> n) [1..<n + 1])"

lemma search_root_eq:
  assumes "k * k \<le> n" "n < (k + 1) * (k + 1)"
  shows "search_root n = k"
proof -
  have "k \<le> k * k" by (cases k) simp_all
  then have "k \<le> n" using assms(1) by (rule order_trans)
  then have "[1..<n + 1] = [1..<k + 1] @ [k + 1..<n + 1]" by (metis add_le_mono1 le_add2 upt_add_eq_append le_Suc_ex)
  moreover have "j * j \<le> n" if "j \<le> k" for j using mult_le_mono [OF that that] assms(1) by (rule order_trans)
  then have "filter (\<lambda>j. j * j \<le> n) [1..<k + 1] = [1..<k + 1]" by (auto simp: filter_id_conv)
  moreover have "n < j * j" if "k + 1 \<le> j" for j using assms(2) mult_le_mono [OF that that] by simp
  then have "filter (\<lambda>j. j * j \<le> n) [k + 1..<n + 1] = []" by (auto simp: filter_empty_conv not_le)
  ultimately show ?thesis by (simp add: search_root_def)
qed

lemma root_exists: "\<exists>k. k * k \<le> n \<and> n < (k + 1) * (k + 1)" for n :: nat
proof (induction n)
  case (Suc n)
  then obtain k where k: "k * k \<le> n" "n < (k + 1) * (k + 1)" by blast
  then show ?case
    by (cases "Suc n < (k + 1) * (k + 1)") (auto intro: exI [of _ k] exI [of _ "k + 1"])
qed (intro exI [of _ 0], simp)

lemma floor_search_root: "floor_root search_root"
  unfolding floor_root_def using root_exists search_root_eq by metis

theorem approved_exactly_witness:
  "approved search_root SuperMajorityApprove \<lparr>ayes = 100, nays = 50, turnout = 150\<rparr> 210 = Some True"
  using approved_exactly [OF floor_search_root, of 210 SuperMajorityApprove "\<lparr>ayes = 100, nays = 50, turnout = 150\<rparr>"]
    search_root_eq [of 12 150] search_root_eq [of 14 210] by simp

section \<open>The byte of a vote\<close>

lemma vote_bits: "(b :: 8 word) = (b AND 127) OR (if b AND 128 = 128 then 128 else 0)"
proof -
  have "(127 OR 128 :: 8 word) = - 1" by simp
  then have "b AND (127 OR 128) = b" by (simp only: and.right_neutral)
  then have split: "b = (b AND 127) OR (b AND 128)" by (simp only: bit.conj_disj_distrib)
  have "bit (2 ^ 7 :: 8 word) n \<longleftrightarrow> n = 7" for n by (simp only: bit_exp_iff) auto
  then have bits: "bit (128 :: 8 word) n \<longleftrightarrow> n = 7" for n by simp
  have "bit (b AND 128) n = bit (if bit b 7 then 128 else 0 :: 8 word) n" for n
    by (cases "bit b 7"; cases "n = 7") (simp_all only: bit_and_iff bits if_True if_False bit_0_eq bot_apply bot_bool_def simp_thms)
  then have "b AND 128 = (if bit b 7 then 128 else 0)" by (intro bit_word_eqI) blast
  then show ?thesis using split by (auto split: if_splits)
qed

lemma small_byte: "(x :: 8 word) \<le> 6 \<Longrightarrow> x \<in> {0, 1, 2, 3, 4, 5, 6}"
proof -
  assume "x \<le> 6"
  then have "unat x \<in> {0, 1, 2, 3, 4, 5, 6}" by (auto simp: word_le_nat_alt)
  then show ?thesis by (simp add: word_unat_eq_iff)
qed

lemma conviction_decoded: "conviction_try_from i = Inr c \<longleftrightarrow> i = conviction_to_u8 c"
  by (cases c) (auto simp: conviction_try_from_def conviction_to_u8_def split: if_splits)

lemma conviction_invalid: "(\<exists>e. conviction_try_from i = Inl e) \<longleftrightarrow> 6 < i"
proof
  show "6 < i \<Longrightarrow> \<exists>e. conviction_try_from i = Inl e" by (auto simp: conviction_try_from_def)
  show "\<exists>e. conviction_try_from i = Inl e \<Longrightarrow> 6 < i"
    using small_byte [of i] by (cases "i \<le> 6") (auto simp: conviction_try_from_def)
qed

lemma vote_decoded: "vote_decode (vote_encode v) = Inr v"
  by (cases v; cases "vote_conviction v"; cases "aye v") (simp_all add: vote_decode_def vote_encode_def conviction_to_u8_def conviction_try_from_def)

text \<open>
  C36. The byte of a vote: decoding what was encoded gives the vote back, decoding fails exactly on the bytes
  whose lower seven bits are no conviction, and a byte that decodes is the encoding of the vote it decodes to, so
  that no two bytes stand for the same vote.
\<close>

theorem vote_byte_roundtrip:
  "vote_decode (vote_encode v) = Inr v \<and> (vote_decode b = Inr w \<longleftrightarrow> vote_encode w = b) \<and> ((\<exists>e. vote_decode b = Inl e) \<longleftrightarrow> 6 < b AND 127)"
proof (intro conjI)
  show "vote_decode b = Inr w \<longleftrightarrow> vote_encode w = b"
  proof
    assume "vote_decode b = Inr w"
    then obtain c where "b AND 127 = conviction_to_u8 c" "w = \<lparr>aye = (b AND 128 = 128), vote_conviction = c\<rparr>"
      by (auto simp: vote_decode_def conviction_decoded split: sum.splits)
    then show "vote_encode w = b" using vote_bits [of b] by (simp add: vote_encode_def)
  qed (use vote_decoded in blast)
  show "(\<exists>e. vote_decode b = Inl e) \<longleftrightarrow> 6 < b AND 127"
    unfolding conviction_invalid [symmetric] by (auto simp: vote_decode_def split: sum.splits)
qed (rule vote_decoded)

end
