(* ===== verification/Democracy.thy ===== *)
theory Democracy
  imports Democracy_Vote Holds Sorted_Vec
begin

text \<open>
  The democracy pallet (frame/democracy/src/lib.rs), a copy of the Substrate pallet in which every proposal
  belongs to an asset: the holders of the asset vote with it, and a proposal that passes is dispatched with the
  origin that the governance registry has for the asset. The currencies, the scheduler, the hash of a preimage,
  its decoding and the dispatch of the call it encodes are parameters. Weights are left out.
\<close>

section \<open>State\<close>

type_synonym prop_index = nat
type_synonym referendum_index = nat
type_synonym bytes = "nat list"

definition DEMOCRACY_ID :: lock_identifier where
  "DEMOCRACY_ID = ''democrac''"

record proposal_id =
  proposal_hash :: nat
  proposal_asset :: asset_id

record referendum_status =
  ref_end :: block_number
  ref_proposal :: proposal_id
  ref_threshold :: vote_threshold
  ref_delay :: block_number
  ref_tally :: tally

datatype referendum_info = Ongoing referendum_status | Finished bool block_number

definition referendum_new :: "block_number \<Rightarrow> proposal_id \<Rightarrow> vote_threshold \<Rightarrow> block_number \<Rightarrow> referendum_info" where
  "referendum_new fin i threshold delay =
     Ongoing \<lparr>ref_end = fin, ref_proposal = i, ref_threshold = threshold, ref_delay = delay, ref_tally = default_tally\<rparr>"

datatype unvote_scope = AnyScope | OnlyExpired

text \<open>\<open>Available\<close>: the data, who provided it, the deposit, since when, and until when it is needed.\<close>

datatype preimage_status =
    Missing block_number
  | Available bytes account_id balance block_number "block_number option"

definition to_missing_expiry :: "preimage_status \<Rightarrow> block_number option" where
  "to_missing_expiry p = (case p of Missing expiry \<Rightarrow> Some expiry | Available _ _ _ _ _ \<Rightarrow> None)"

datatype democracy_event =
    Proposed prop_index balance
  | Tabled prop_index balance "account_id list"
  | ExternalTabled
  | Started referendum_index vote_threshold
  | Passed referendum_index
  | NotPassed referendum_index
  | Cancelled referendum_index
  | Executed referendum_index "dispatch_error + unit"
  | Delegated account_id account_id
  | Undelegated account_id
  | Vetoed account_id nat block_number
  | PreimageNoted nat account_id balance
  | PreimageUsed nat account_id balance
  | PreimageInvalidEvent nat referendum_index
  | PreimageMissingEvent nat referendum_index
  | PreimageReaped nat account_id balance account_id
  | Blacklisted nat

record ('n, 'c, 'k) democracy =
  PublicPropCount :: "prop_index option"
  PublicProps :: "(prop_index \<times> proposal_id \<times> account_id) list"
  DepositOf :: "prop_index \<rightharpoonup> account_id list \<times> balance"
  Preimages :: "proposal_id \<rightharpoonup> preimage_status"
  ReferendumCount :: referendum_index
  LowestUnbaked :: referendum_index
  ReferendumInfoOf :: "referendum_index \<rightharpoonup> referendum_info"
  VotingOf :: "account_id \<times> asset_id \<Rightarrow> voting"
  LastTabledWasExternal :: bool
  NextExternal :: "(proposal_id \<times> vote_threshold) option"
  Blacklist :: "proposal_id \<rightharpoonup> block_number \<times> account_id list"
  Cancellations :: "proposal_id \<rightharpoonup> bool"
  democracy_events :: "democracy_event list"
  democracy_block :: block_number
  democracy_native :: 'n
  democracy_currency :: 'c
  democracy_registry :: governance_registry
  democracy_schedule :: 'k

record ('n, 'c, 'k, 'p) democracy_config =
  DNative :: "'n native_holds"
  DCurrency :: "'c multi_currency"
  DSqrt :: "nat \<Rightarrow> nat"
  DHash :: "bytes \<Rightarrow> nat"
  DDecode :: "bytes \<Rightarrow> 'p option"
  DDispatch :: "'p \<Rightarrow> raw_origin \<Rightarrow> (('n, 'c, 'k) democracy, unit) call"
  DSchedule :: "referendum_index \<Rightarrow> block_number \<Rightarrow> proposal_id \<Rightarrow> ('k, unit) call"
  DCancelNamed :: "referendum_index \<Rightarrow> ('k, unit) call"
  EnactmentPeriod :: block_number
  LaunchPeriod :: block_number
  VotingPeriod :: block_number
  VoteLockingPeriod :: block_number
  DMinimumDeposit :: balance
  ExternalOrigin :: "raw_origin \<Rightarrow> bool"
  ExternalMajorityOrigin :: "raw_origin \<Rightarrow> bool"
  ExternalDefaultOrigin :: "raw_origin \<Rightarrow> bool"
  FastTrackOrigin :: "raw_origin \<Rightarrow> bool"
  InstantOrigin :: "raw_origin \<Rightarrow> bool"
  InstantAllowed :: bool
  FastTrackVotingPeriod :: block_number
  TreasuryAccount :: account_id
  CancellationOrigin :: "raw_origin \<Rightarrow> bool"
  BlacklistOrigin :: "raw_origin \<Rightarrow> bool"
  CancelProposalOrigin :: "raw_origin \<Rightarrow> bool"
  VetoOrigin :: "raw_origin \<Rightarrow> account_id option"
  CooloffPeriod :: block_number
  PreimageByteDeposit :: balance
  OperationalPreimageOrigin :: "raw_origin \<Rightarrow> account_id option"
  MaxVotes :: nat
  MaxProposals :: nat

definition democracy_genesis :: "'n \<Rightarrow> 'c \<Rightarrow> 'k \<Rightarrow> ('n, 'c, 'k) democracy" where
  "democracy_genesis n c k =
     \<lparr>PublicPropCount = Some 0, PublicProps = [], DepositOf = Map.empty, Preimages = Map.empty, ReferendumCount = 0, LowestUnbaked = 0,
      ReferendumInfoOf = Map.empty, VotingOf = (\<lambda>_. default_voting), LastTabledWasExternal = False, NextExternal = None,
      Blacklist = Map.empty, Cancellations = Map.empty, democracy_events = [], democracy_block = 0, democracy_native = n,
      democracy_currency = c, democracy_registry = \<lparr>OriginsByAssetId = Map.empty, registry_events = []\<rparr>, democracy_schedule = k\<rparr>"

definition on_dem_native :: "('n, 'a) call \<Rightarrow> (('n, 'c, 'k) democracy, 'a) call" where
  "on_dem_native m = zoom democracy_native (\<lambda>c s. s\<lparr>democracy_native := c\<rparr>) m"

definition on_dem_currency :: "('c, 'a) call \<Rightarrow> (('n, 'c, 'k) democracy, 'a) call" where
  "on_dem_currency m = zoom democracy_currency (\<lambda>c s. s\<lparr>democracy_currency := c\<rparr>) m"

definition on_dem_schedule :: "('k, 'a) call \<Rightarrow> (('n, 'c, 'k) democracy, 'a) call" where
  "on_dem_schedule m = zoom democracy_schedule (\<lambda>c s. s\<lparr>democracy_schedule := c\<rparr>) m"

definition dem_event :: "democracy_event \<Rightarrow> (('n, 'c, 'k) democracy, unit) call" where
  "dem_event e = modifies (\<lambda>s. s\<lparr>democracy_events := democracy_events s @ [e]\<rparr>)"

text \<open>\<open>as u32\<close>; arithmetic of block numbers and indices wraps.\<close>

definition as_u32 :: "nat \<Rightarrow> nat" where
  "as_u32 n = n mod (u32_max + 1)"

section \<open>Referenda\<close>

definition internal_cancel_referendum :: "referendum_index \<Rightarrow> (('n, 'c, 'k) democracy, unit) call" where
  "internal_cancel_referendum ref_index =
     thenM (dem_event (Cancelled ref_index))
       (modifies (\<lambda>s. s\<lparr>ReferendumInfoOf := (ReferendumInfoOf s)(ref_index := None)\<rparr>))"

definition ensure_ongoing :: "referendum_info \<Rightarrow> (('n, 'c, 'k) democracy, referendum_status) call" where
  "ensure_ongoing r = (case r of Ongoing s \<Rightarrow> ret s | Finished _ _ \<Rightarrow> fail (DemocracyErr ReferendumInvalid))"

definition referendum_status_of :: "referendum_index \<Rightarrow> (('n, 'c, 'k) democracy, referendum_status) call" where
  "referendum_status_of ref_index =
     bindM (reads (\<lambda>s. ReferendumInfoOf s ref_index)) (\<lambda>v.
     bindM (ok_or v (DemocracyErr ReferendumInvalid)) ensure_ongoing)"

definition inject_referendum ::
  "block_number \<Rightarrow> proposal_id \<Rightarrow> vote_threshold \<Rightarrow> block_number \<Rightarrow> (('n, 'c, 'k) democracy, referendum_index) call" where
  "inject_referendum fin i threshold delay =
     bindM (reads ReferendumCount) (\<lambda>ref_index.
     thenM (modifies (\<lambda>s. s\<lparr>ReferendumCount := wrapping_add u32_max ref_index 1,
              ReferendumInfoOf := (ReferendumInfoOf s)(ref_index \<mapsto> referendum_new fin i threshold delay)\<rparr>))
    (thenM (dem_event (Started ref_index threshold)) (ret ref_index)))"

definition internal_start_referendum ::
  "('n, 'c, 'k, 'p) democracy_config \<Rightarrow> nat \<Rightarrow> asset_id \<Rightarrow> vote_threshold \<Rightarrow> block_number \<Rightarrow>
     (('n, 'c, 'k) democracy, referendum_index) call" where
  "internal_start_referendum cfg h a threshold delay =
     bindM (reads democracy_block) (\<lambda>now.
     inject_referendum (wrapping_add u32_max now (VotingPeriod cfg)) \<lparr>proposal_hash = h, proposal_asset = a\<rparr> threshold delay)"

definition maturing_referenda_at_inner ::
  "block_number \<Rightarrow> referendum_index \<Rightarrow> referendum_index \<Rightarrow> ('n, 'c, 'k) democracy \<Rightarrow> (referendum_index \<times> referendum_status) list" where
  "maturing_referenda_at_inner n low high s =
     filter (\<lambda>(i, status). ref_end status = n)
       (List.map_filter (\<lambda>i. case ReferendumInfoOf s i of Some (Ongoing status) \<Rightarrow> Some (i, status) | _ \<Rightarrow> None) [low..<high])"

definition maturing_referenda_at ::
  "block_number \<Rightarrow> ('n, 'c, 'k) democracy \<Rightarrow> (referendum_index \<times> referendum_status) list" where
  "maturing_referenda_at n s = maturing_referenda_at_inner n (LowestUnbaked s) (ReferendumCount s) s"

section \<open>Voting\<close>

text \<open>What the closure of \<open>try_vote\<close> does to the status and to the voting of the account.\<close>

definition cast_vote ::
  "nat \<Rightarrow> referendum_index \<Rightarrow> account_vote \<Rightarrow> referendum_status \<Rightarrow> voting \<Rightarrow>
     (('n, 'c, 'k) democracy, referendum_status \<times> voting) call" where
  "cast_vote max_votes ref_index v status vs =
     (case vs of
        Delegating _ _ _ _ _ \<Rightarrow> fail (DemocracyErr AlreadyDelegating)
      | DirectVoting votes d prior \<Rightarrow>
          bindM
            (case binary_search (map fst votes) ref_index of
               Inr i \<Rightarrow>
                 bindM (ok_or (tally_remove (snd (votes ! i)) (ref_tally status)) (Arithmetic arithmetic_error.Underflow)) (\<lambda>t.
                 ret (case as_standard (snd (votes ! i)) of None \<Rightarrow> t | Some approve \<Rightarrow> tally_reduce approve d t,
                      votes[i := (ref_index, v)]))
             | Inl i \<Rightarrow>
                 thenM (ensure (as_u32 (length votes) \<le> max_votes) (DemocracyErr MaxVotesReached))
                (bindM (ok_or (insert_at i (ref_index, v) votes) (Panic ''insertion index'')) (\<lambda>votes'.
                 ret (ref_tally status, votes'))))
            (\<lambda>(t, votes').
             bindM (ok_or (tally_add v t) (Arithmetic arithmetic_error.Overflow)) (\<lambda>t'.
             ret (status\<lparr>ref_tally := (case as_standard v of None \<Rightarrow> t' | Some approve \<Rightarrow> tally_increase approve d t')\<rparr>,
                  DirectVoting votes' d prior))))"

definition try_vote ::
  "('n, 'c, 'k, 'p) democracy_config \<Rightarrow> account_id \<Rightarrow> referendum_index \<Rightarrow> account_vote \<Rightarrow> (('n, 'c, 'k) democracy, unit) call" where
  "try_vote cfg who ref_index v =
     bindM (referendum_status_of ref_index) (\<lambda>status.
     let asset = proposal_asset (ref_proposal status) in
     bindM (reads (\<lambda>s. l_free_balance (DCurrency cfg) asset who (democracy_currency s))) (\<lambda>free.
     thenM (ensure (vote_balance v \<le> free) (DemocracyErr democracy_error.InsufficientFunds))
    (bindM (try_mutate (\<lambda>s. VotingOf s (who, asset)) (\<lambda>vs s. s\<lparr>VotingOf := (VotingOf s)((who, asset) := vs)\<rparr>)
              (cast_vote (MaxVotes cfg) ref_index v status)) (\<lambda>status'.
     thenM (on_dem_currency (l_extend_lock (DCurrency cfg) DEMOCRACY_ID asset who (vote_balance v)))
       (modifies (\<lambda>s. s\<lparr>ReferendumInfoOf := (ReferendumInfoOf s)(ref_index \<mapsto> Ongoing status')\<rparr>))))))"

text \<open>The closure of \<open>try_remove_vote\<close>; the referendum is written from inside it.\<close>

definition withdraw_vote ::
  "('n, 'c, 'k, 'p) democracy_config \<Rightarrow> referendum_index \<Rightarrow> unvote_scope \<Rightarrow> referendum_info option \<Rightarrow> voting \<Rightarrow>
     (('n, 'c, 'k) democracy, unit \<times> voting) call" where
  "withdraw_vote cfg ref_index scope info vs =
     (case vs of
        Delegating _ _ _ _ _ \<Rightarrow> ret ((), vs)
      | DirectVoting votes d prior \<Rightarrow>
          (case binary_search (map fst votes) ref_index of
             Inl _ \<Rightarrow> fail (DemocracyErr NotVoter)
           | Inr i \<Rightarrow>
               bindM
                 (case info of
                    Some (Ongoing status) \<Rightarrow>
                      thenM (ensure (scope = AnyScope) (DemocracyErr NoPermission))
                     (bindM (ok_or (tally_remove (snd (votes ! i)) (ref_tally status)) (Arithmetic arithmetic_error.Underflow)) (\<lambda>t.
                      thenM (modifies (\<lambda>s. s\<lparr>ReferendumInfoOf := (ReferendumInfoOf s)(ref_index \<mapsto> Ongoing (status\<lparr>ref_tally :=
                               (case as_standard (snd (votes ! i)) of None \<Rightarrow> t | Some approve \<Rightarrow> tally_reduce approve d t)\<rparr>))\<rparr>))
                        (ret prior)))
                  | Some (Finished appr fin) \<Rightarrow>
                      (case locked_if (snd (votes ! i)) appr of
                         None \<Rightarrow> ret prior
                       | Some (periods, n) \<Rightarrow>
                           let unlock_at = wrapping_add u32_max fin (wrapping_mul u32_max (VoteLockingPeriod cfg) periods) in
                           bindM (reads democracy_block) (\<lambda>now.
                           if now < unlock_at then
                             thenM (ensure (scope = AnyScope) (DemocracyErr NoPermission)) (ret (prior_accumulate unlock_at n prior))
                           else ret prior))
                  | None \<Rightarrow> ret prior)
                 (\<lambda>prior'. ret ((), DirectVoting (take i votes @ drop (i + 1) votes) d prior'))))"

definition try_remove_vote ::
  "('n, 'c, 'k, 'p) democracy_config \<Rightarrow> account_id \<Rightarrow> asset_id \<Rightarrow> referendum_index \<Rightarrow> unvote_scope \<Rightarrow>
     (('n, 'c, 'k) democracy, unit) call" where
  "try_remove_vote cfg who asset ref_index scope =
     bindM (reads (\<lambda>s. ReferendumInfoOf s ref_index)) (\<lambda>info.
     try_mutate (\<lambda>s. VotingOf s (who, asset)) (\<lambda>vs s. s\<lparr>VotingOf := (VotingOf s)((who, asset) := vs)\<rparr>)
       (withdraw_vote cfg ref_index scope info))"

section \<open>Delegation\<close>

text \<open>The loops over the votes of the account delegated to: \<open>f\<close> is \<open>Tally::increase\<close> or \<open>Tally::reduce\<close>.\<close>

definition retally ::
  "(bool \<Rightarrow> delegations \<Rightarrow> tally \<Rightarrow> tally) \<Rightarrow> delegations \<Rightarrow> referendum_index \<times> account_vote \<Rightarrow>
     (referendum_index \<rightharpoonup> referendum_info) \<Rightarrow> referendum_index \<rightharpoonup> referendum_info" where
  "retally f amount iv R =
     (case snd iv of
        Standard w _ \<Rightarrow>
          (case R (fst iv) of
             Some (Ongoing status) \<Rightarrow> R(fst iv \<mapsto> Ongoing (status\<lparr>ref_tally := f (aye w) amount (ref_tally status)\<rparr>))
           | _ \<Rightarrow> R)
      | Split _ _ \<Rightarrow> R)"

definition change_upstream_delegation ::
  "(bool \<Rightarrow> delegations \<Rightarrow> tally \<Rightarrow> tally) \<Rightarrow> (delegations \<Rightarrow> delegations \<Rightarrow> delegations) \<Rightarrow> account_id \<Rightarrow> asset_id \<Rightarrow> delegations \<Rightarrow>
     (('n, 'c, 'k) democracy, nat) call" where
  "change_upstream_delegation f g who asset amount =
     bindM (reads (\<lambda>s. VotingOf s (who, asset))) (\<lambda>vs.
     case vs of
       Delegating n target c d prior \<Rightarrow>
         thenM (modifies (\<lambda>s. s\<lparr>VotingOf := (VotingOf s)((who, asset) := Delegating n target c (g d amount) prior)\<rparr>)) (ret 1)
     | DirectVoting votes d prior \<Rightarrow>
         thenM (modifies (\<lambda>s. s\<lparr>ReferendumInfoOf := fold (retally f amount) votes (ReferendumInfoOf s)\<rparr>))
        (thenM (modifies (\<lambda>s. s\<lparr>VotingOf := (VotingOf s)((who, asset) := DirectVoting votes (g d amount) prior)\<rparr>))
           (ret (as_u32 (length votes)))))"

definition increase_upstream_delegation ::
  "account_id \<Rightarrow> asset_id \<Rightarrow> delegations \<Rightarrow> (('n, 'c, 'k) democracy, nat) call" where
  "increase_upstream_delegation = change_upstream_delegation tally_increase del_saturating_add"

definition reduce_upstream_delegation ::
  "account_id \<Rightarrow> asset_id \<Rightarrow> delegations \<Rightarrow> (('n, 'c, 'k) democracy, nat) call" where
  "reduce_upstream_delegation = change_upstream_delegation tally_reduce del_saturating_sub"

definition try_delegate ::
  "('n, 'c, 'k, 'p) democracy_config \<Rightarrow> account_id \<Rightarrow> account_id \<Rightarrow> asset_id \<Rightarrow> conviction \<Rightarrow> balance \<Rightarrow>
     (('n, 'c, 'k) democracy, nat) call" where
  "try_delegate cfg who target asset c n =
     thenM (ensure (who \<noteq> target) (DemocracyErr Nonsense))
    (bindM (reads (\<lambda>s. l_free_balance (DCurrency cfg) asset who (democracy_currency s))) (\<lambda>free.
     thenM (ensure (n \<le> free) (DemocracyErr democracy_error.InsufficientFunds))
    (bindM (try_mutate (\<lambda>s. VotingOf s (who, asset)) (\<lambda>vs s. s\<lparr>VotingOf := (VotingOf s)((who, asset) := vs)\<rparr>)
       (\<lambda>old.
          let new = Delegating n target c default_delegations (0, 0) in
          bindM
            (case old of
               Delegating n0 target0 c0 d prior \<Rightarrow>
                 thenM (reduce_upstream_delegation target0 asset (conviction_votes c0 n0)) (ret (set_common d prior new))
             | DirectVoting votes d prior \<Rightarrow>
                 thenM (ensure (votes = []) (DemocracyErr VotesExist)) (ret (set_common d prior new)))
            (\<lambda>vs.
          bindM (increase_upstream_delegation target asset (conviction_votes c n)) (\<lambda>votes.
          thenM (on_dem_currency (l_extend_lock (DCurrency cfg) DEMOCRACY_ID asset who n))
            (ret (votes, vs)))))) (\<lambda>votes.
     thenM (dem_event (Delegated who target)) (ret votes)))))"

definition try_undelegate ::
  "('n, 'c, 'k, 'p) democracy_config \<Rightarrow> account_id \<Rightarrow> asset_id \<Rightarrow> (('n, 'c, 'k) democracy, nat) call" where
  "try_undelegate cfg who asset =
     bindM (try_mutate (\<lambda>s. VotingOf s (who, asset)) (\<lambda>vs s. s\<lparr>VotingOf := (VotingOf s)((who, asset) := vs)\<rparr>)
       (\<lambda>old.
          case old of
            Delegating n target c d prior \<Rightarrow>
              bindM (reduce_upstream_delegation target asset (conviction_votes c n)) (\<lambda>votes.
              bindM (reads democracy_block) (\<lambda>now.
              ret (votes, set_common d
                (prior_accumulate (wrapping_add u32_max now (wrapping_mul u32_max (VoteLockingPeriod cfg) (lock_periods c))) n prior)
                default_voting)))
          | DirectVoting _ _ _ \<Rightarrow> fail (DemocracyErr NotDelegating))) (\<lambda>votes.
     thenM (dem_event (Undelegated who)) (ret votes))"

definition update_lock ::
  "('n, 'c, 'k, 'p) democracy_config \<Rightarrow> account_id \<Rightarrow> asset_id \<Rightarrow> (('n, 'c, 'k) democracy, unit) call" where
  "update_lock cfg who asset =
     bindM (reads democracy_block) (\<lambda>now.
     bindM (reads (\<lambda>s. voting_rejig now (VotingOf s (who, asset)))) (\<lambda>vs.
     thenM (modifies (\<lambda>s. s\<lparr>VotingOf := (VotingOf s)((who, asset) := vs)\<rparr>))
       (if voting_locked_balance vs = 0 then on_dem_currency (l_remove_lock (DCurrency cfg) DEMOCRACY_ID asset who)
        else on_dem_currency (l_set_lock (DCurrency cfg) DEMOCRACY_ID asset who (voting_locked_balance vs)))))"

section \<open>Preimages\<close>

definition check_pre_image_is_missing :: "proposal_id \<Rightarrow> (('n, 'c, 'k) democracy, unit) call" where
  "check_pre_image_is_missing i =
     bindM (reads (\<lambda>s. Preimages s i)) (\<lambda>v.
     case v of
       None \<Rightarrow> fail (DemocracyErr NotImminent)
     | Some (Missing _) \<Rightarrow> ret ()
     | Some (Available _ _ _ _ _) \<Rightarrow> fail (DemocracyErr DuplicatePreimage))"

definition pre_image_data_len :: "proposal_id \<Rightarrow> (('n, 'c, 'k) democracy, nat) call" where
  "pre_image_data_len i =
     bindM (reads (\<lambda>s. Preimages s i)) (\<lambda>v.
     case v of
       Some (Available data _ _ _ _) \<Rightarrow> ret (length data)
     | _ \<Rightarrow> fail (DemocracyErr democracy_error.PreimageMissing))"

definition note_preimage_inner ::
  "('n, 'c, 'k, 'p) democracy_config \<Rightarrow> account_id \<Rightarrow> bytes \<Rightarrow> asset_id \<Rightarrow> (('n, 'c, 'k) democracy, unit) call" where
  "note_preimage_inner cfg who encoded asset =
     (let i = \<lparr>proposal_hash = DHash cfg encoded, proposal_asset = asset\<rparr>;
          dep = saturating_mul u128_max (as_u32 (length encoded)) (PreimageByteDeposit cfg) in
      bindM (reads (\<lambda>s. Preimages s i)) (\<lambda>v.
      thenM (ensure (v = None) (DemocracyErr DuplicatePreimage))
     (thenM (on_dem_native (nh_hold (DNative cfg) who dep))
     (bindM (reads democracy_block) (\<lambda>now.
      thenM (modifies (\<lambda>s. s\<lparr>Preimages := (Preimages s)(i \<mapsto> Available encoded who dep now None)\<rparr>))
        (dem_event (PreimageNoted (proposal_hash i) who dep)))))))"

definition note_imminent_preimage_inner ::
  "('n, 'c, 'k, 'p) democracy_config \<Rightarrow> account_id \<Rightarrow> bytes \<Rightarrow> asset_id \<Rightarrow> (('n, 'c, 'k) democracy, unit) call" where
  "note_imminent_preimage_inner cfg who encoded asset =
     (let i = \<lparr>proposal_hash = DHash cfg encoded, proposal_asset = asset\<rparr> in
      thenM (check_pre_image_is_missing i)
     (bindM (reads (\<lambda>s. Preimages s i)) (\<lambda>v.
      bindM (ok_or v (DemocracyErr NotImminent)) (\<lambda>status.
      bindM (ok_or (to_missing_expiry status) (DemocracyErr DuplicatePreimage)) (\<lambda>expiry.
      bindM (reads democracy_block) (\<lambda>now.
      thenM (modifies (\<lambda>s. s\<lparr>Preimages := (Preimages s)(i \<mapsto> Available encoded who 0 now (Some expiry))\<rparr>))
        (dem_event (PreimageNoted (proposal_hash i) who 0))))))))"

section \<open>Enactment\<close>

definition do_enact_proposal ::
  "('n, 'c, 'k, 'p) democracy_config \<Rightarrow> proposal_id \<Rightarrow> referendum_index \<Rightarrow> (('n, 'c, 'k) democracy, unit) call" where
  "do_enact_proposal cfg i index =
     bindM (reads (\<lambda>s. Preimages s i)) (\<lambda>preimage.
     thenM (modifies (\<lambda>s. s\<lparr>Preimages := (Preimages s)(i := None)\<rparr>))
       (case preimage of
          Some (Available data provider dep _ _) \<Rightarrow>
            (case DDecode cfg data of
               Some proposal \<Rightarrow>
                 thenM (on_dem_native (nh_release (DNative cfg) provider dep True))
                (thenM (dem_event (PreimageUsed (proposal_hash i) provider dep))
                (bindM (reads (\<lambda>s. registry_get (proposal_asset i) (democracy_registry s))) (\<lambda>r.
                 bindM (lift_result r) (\<lambda>signed_raw_origin.
                 bindM (\<lambda>s. case DDispatch cfg proposal (from_signed_raw_origin signed_raw_origin) s of
                          (Inl (Panic p), t) \<Rightarrow> (Inl (Panic p), t) | (res, t) \<Rightarrow> (Inr res, t)) (\<lambda>res.
                 dem_event (Executed index res))))))
             | None \<Rightarrow>
                 thenM (on_dem_native (nh_transfer_held (DNative cfg) provider (TreasuryAccount cfg) dep True False))
                (thenM (dem_event (PreimageInvalidEvent (proposal_hash i) index))
                   (fail (DemocracyErr democracy_error.PreimageInvalid))))
        | _ \<Rightarrow>
            thenM (dem_event (PreimageMissingEvent (proposal_hash i) index))
              (fail (DemocracyErr democracy_error.PreimageMissing))))"

definition bake_referendum ::
  "('n, 'c, 'k, 'p) democracy_config \<Rightarrow> block_number \<Rightarrow> referendum_index \<Rightarrow> referendum_status \<Rightarrow> (('n, 'c, 'k) democracy, bool) call" where
  "bake_referendum cfg now index status =
     bindM (reads (\<lambda>s. l_total_issuance (DCurrency cfg) (proposal_asset (ref_proposal status)) (democracy_currency s))) (\<lambda>total_issuance.
     bindM (ok_or (approved (DSqrt cfg) (ref_threshold status) (ref_tally status) total_issuance) (Panic ''division by zero'')) (\<lambda>appr.
     thenM
       (if appr then
          thenM (dem_event (Passed index))
            (if ref_delay status = 0 then discard_result (do_enact_proposal cfg (ref_proposal status) index)
             else
               let at = wrapping_add u32_max now (ref_delay status) in
               thenM (modifies (\<lambda>s. s\<lparr>Preimages := (Preimages s)(ref_proposal status \<mapsto>
                        (case Preimages s (ref_proposal status) of
                           Some (Available data provider dep since _) \<Rightarrow> Available data provider dep since (Some at)
                         | _ \<Rightarrow> Missing at))\<rparr>))
                 (discard_result (on_dem_schedule (DSchedule cfg index at (ref_proposal status)))))
        else dem_event (NotPassed index))
       (ret appr)))"

section \<open>Launching\<close>

definition launch_external ::
  "('n, 'c, 'k, 'p) democracy_config \<Rightarrow> block_number \<Rightarrow> (('n, 'c, 'k) democracy, unit) call" where
  "launch_external cfg now =
     bindM (reads NextExternal) (\<lambda>v.
     thenM (modifies (\<lambda>s. s\<lparr>NextExternal := None\<rparr>))
       (case v of
          Some (proposal, threshold) \<Rightarrow>
            thenM (modifies (\<lambda>s. s\<lparr>LastTabledWasExternal := True\<rparr>))
           (thenM (dem_event ExternalTabled)
           (thenM (inject_referendum (wrapping_add u32_max now (VotingPeriod cfg)) proposal threshold (EnactmentPeriod cfg))
              (ret ())))
        | None \<Rightarrow> fail (DemocracyErr NoneWaiting)))"

definition backing_for :: "prop_index \<Rightarrow> ('n, 'c, 'k) democracy \<Rightarrow> balance option" where
  "backing_for proposal s = map_option (\<lambda>(l, d). wrapping_mul u128_max d (as_u32 (length l))) (DepositOf s proposal)"

text \<open>\<open>enumerate().max_by_key\<close>: the place of the last of the greatest. \<open>Vec::swap_remove\<close>.\<close>

definition last_max :: "('a \<Rightarrow> nat) \<Rightarrow> 'a list \<Rightarrow> nat option" where
  "last_max key xs =
     (if xs = [] then None
      else Some (snd (fold (\<lambda>i (m, j). if m \<le> key (xs ! i) then (key (xs ! i), i) else (m, j)) [0..<length xs] (0, 0))))"

definition swap_remove :: "nat \<Rightarrow> 'a list \<Rightarrow> 'a list" where
  "swap_remove i xs = take (length xs - 1) (xs[i := last xs])"

definition launch_public ::
  "('n, 'c, 'k, 'p) democracy_config \<Rightarrow> block_number \<Rightarrow> (('n, 'c, 'k) democracy, unit) call" where
  "launch_public cfg now =
     bindM (reads (\<lambda>s. (PublicProps s,
              last_max (\<lambda>p. case backing_for (fst p) s of None \<Rightarrow> 0 | Some n \<Rightarrow> n) (PublicProps s)))) (\<lambda>(public_props, winner).
     case winner of
       None \<Rightarrow> fail (DemocracyErr NoneWaiting)
     | Some winner_index \<Rightarrow>
         (case public_props ! winner_index of
            (prop_index, proposal, _) \<Rightarrow>
              thenM (modifies (\<lambda>s. s\<lparr>PublicProps := swap_remove winner_index public_props\<rparr>))
             (bindM (reads (\<lambda>s. DepositOf s prop_index)) (\<lambda>v.
              thenM (modifies (\<lambda>s. s\<lparr>DepositOf := (DepositOf s)(prop_index := None)\<rparr>))
                (case v of
                   None \<Rightarrow> ret ()
                 | Some (depositors, dep) \<Rightarrow>
                     thenM (for_each depositors (\<lambda>d. thenM (on_dem_native (nh_release (DNative cfg) d dep True)) (ret ())))
                    (thenM (dem_event (Tabled prop_index dep depositors))
                    (thenM (inject_referendum (wrapping_add u32_max now (VotingPeriod cfg)) proposal SuperMajorityApprove
                              (EnactmentPeriod cfg))
                       (ret ()))))))))"

text \<open>\<open>Result::or_else\<close>: the writes of the first attempt stay. A panic is not caught.\<close>

definition or_else :: "('s, 'a) call \<Rightarrow> ('s, 'a) call \<Rightarrow> ('s, 'a) call" where
  "or_else m n s =
     (case m s of
        (Inr x, t) \<Rightarrow> (Inr x, t)
      | (Inl (Panic p), t) \<Rightarrow> (Inl (Panic p), t)
      | (Inl _, t) \<Rightarrow> n t)"

definition none_waiting :: "dispatch_error \<Rightarrow> dispatch_error" where
  "none_waiting e = (case e of Panic p \<Rightarrow> Panic p | _ \<Rightarrow> DemocracyErr NoneWaiting)"

definition launch_next ::
  "('n, 'c, 'k, 'p) democracy_config \<Rightarrow> block_number \<Rightarrow> (('n, 'c, 'k) democracy, unit) call" where
  "launch_next cfg now =
     bindM (reads LastTabledWasExternal) (\<lambda>b.
     thenM (modifies (\<lambda>s. s\<lparr>LastTabledWasExternal := False\<rparr>))
       (map_err none_waiting
         (if b then or_else (launch_public cfg now) (launch_external cfg now)
          else or_else (launch_external cfg now) (launch_public cfg now))))"

function advance_unbaked :: "(referendum_index \<rightharpoonup> referendum_info) \<Rightarrow> referendum_index \<Rightarrow> referendum_index \<Rightarrow> referendum_index" where
  "advance_unbaked R high i =
     (if i < high \<and> (case R i of None \<Rightarrow> True | Some (Finished _ _) \<Rightarrow> True | Some (Ongoing _) \<Rightarrow> False)
      then advance_unbaked R high (i + 1) else i)"
  by pat_completeness auto

termination by (relation "measure (\<lambda>(_, high, i). high - i)") auto

declare advance_unbaked.simps [simp del]

definition begin_block ::
  "('n, 'c, 'k, 'p) democracy_config \<Rightarrow> block_number \<Rightarrow> (('n, 'c, 'k) democracy, unit) call" where
  "begin_block cfg now =
     bindM (reads LowestUnbaked) (\<lambda>next_index.
     bindM (reads ReferendumCount) (\<lambda>last_index.
     thenM (ensure (LaunchPeriod cfg \<noteq> 0) (Panic ''remainder with a divisor of zero''))
    (thenM (if now mod LaunchPeriod cfg = 0 then discard_result (launch_next cfg now) else ret ())
    (bindM (reads (maturing_referenda_at_inner now next_index last_index)) (\<lambda>maturing.
     thenM (for_each maturing (\<lambda>(index, info).
              bindM (bake_referendum cfg now index info) (\<lambda>appr.
              modifies (\<lambda>s. s\<lparr>ReferendumInfoOf := (ReferendumInfoOf s)(index \<mapsto> Finished appr now)\<rparr>))))
       (modifies (\<lambda>s. s\<lparr>LowestUnbaked := advance_unbaked (ReferendumInfoOf s) last_index (LowestUnbaked s)\<rparr>)))))))"

section \<open>Dispatchables\<close>

definition check_blacklist :: "proposal_id \<Rightarrow> (('n, 'c, 'k) democracy, unit) call" where
  "check_blacklist i =
     bindM (reads (\<lambda>s. Blacklist s i)) (\<lambda>v.
     case v of
       Some (until, _) \<Rightarrow> bindM (reads democracy_block) (\<lambda>now. ensure (until \<le> now) (DemocracyErr ProposalBlacklisted))
     | None \<Rightarrow> ret ())"

definition propose ::
  "('n, 'c, 'k, 'p) democracy_config \<Rightarrow> raw_origin \<Rightarrow> nat \<Rightarrow> asset_id \<Rightarrow> balance \<Rightarrow> (('n, 'c, 'k) democracy, unit) call" where
  "propose cfg orig h asset amount =
     bindM (ensure_signed orig) (\<lambda>who.
     thenM (ensure (DMinimumDeposit cfg \<le> amount) (DemocracyErr ValueLow))
    (let i = \<lparr>proposal_hash = h, proposal_asset = asset\<rparr> in
     bindM (reads (\<lambda>s. case PublicPropCount s of None \<Rightarrow> 0 | Some n \<Rightarrow> n)) (\<lambda>index.
     bindM (reads (\<lambda>s. as_u32 (length (PublicProps s)))) (\<lambda>real_prop_count.
     thenM (ensure (real_prop_count < MaxProposals cfg) (DemocracyErr TooManyProposals))
    (thenM (check_blacklist i)
    (thenM (on_dem_native (nh_hold (DNative cfg) who amount))
    (thenM (modifies (\<lambda>s. s\<lparr>PublicPropCount := Some (wrapping_add u32_max index 1),
              DepositOf := (DepositOf s)(index \<mapsto> ([who], amount)), PublicProps := PublicProps s @ [(index, i, who)]\<rparr>))
       (dem_event (Proposed index amount)))))))))"

definition second_proposal ::
  "('n, 'c, 'k, 'p) democracy_config \<Rightarrow> raw_origin \<Rightarrow> prop_index \<Rightarrow> nat \<Rightarrow> (('n, 'c, 'k) democracy, unit) call" where
  "second_proposal cfg orig proposal seconds_upper_bound =
     bindM (ensure_signed orig) (\<lambda>who.
     bindM (reads (\<lambda>s. DepositOf s proposal)) (\<lambda>v.
     bindM (ok_or v (DemocracyErr ProposalMissing)) (\<lambda>(depositors, dep).
     thenM (ensure (length depositors \<le> seconds_upper_bound) (DemocracyErr WrongUpperBound))
    (thenM (on_dem_native (nh_hold (DNative cfg) who dep))
       (modifies (\<lambda>s. s\<lparr>DepositOf := (DepositOf s)(proposal \<mapsto> (depositors @ [who], dep))\<rparr>))))))"

definition vote_call ::
  "('n, 'c, 'k, 'p) democracy_config \<Rightarrow> raw_origin \<Rightarrow> referendum_index \<Rightarrow> account_vote \<Rightarrow> (('n, 'c, 'k) democracy, unit) call" where
  "vote_call cfg orig ref_index v = bindM (ensure_signed orig) (\<lambda>who. try_vote cfg who ref_index v)"

definition emergency_cancel ::
  "('n, 'c, 'k, 'p) democracy_config \<Rightarrow> raw_origin \<Rightarrow> referendum_index \<Rightarrow> (('n, 'c, 'k) democracy, unit) call" where
  "emergency_cancel cfg orig ref_index =
     thenM (ensure_origin (CancellationOrigin cfg) orig)
    (bindM (referendum_status_of ref_index) (\<lambda>status.
     bindM (reads (\<lambda>s. Cancellations s (ref_proposal status))) (\<lambda>v.
     thenM (ensure (v = None) (DemocracyErr AlreadyCanceled))
    (thenM (modifies (\<lambda>s. s\<lparr>Cancellations := (Cancellations s)(ref_proposal status \<mapsto> True)\<rparr>))
       (internal_cancel_referendum ref_index)))))"

definition external_propose ::
  "('n, 'c, 'k, 'p) democracy_config \<Rightarrow> raw_origin \<Rightarrow> nat \<Rightarrow> asset_id \<Rightarrow> (('n, 'c, 'k) democracy, unit) call" where
  "external_propose cfg orig h asset =
     thenM (ensure_origin (ExternalOrigin cfg) orig)
    (bindM (reads NextExternal) (\<lambda>v.
     thenM (ensure (v = None) (DemocracyErr DuplicateProposal))
    (let i = \<lparr>proposal_hash = h, proposal_asset = asset\<rparr> in
     thenM (check_blacklist i) (modifies (\<lambda>s. s\<lparr>NextExternal := Some (i, SuperMajorityApprove)\<rparr>)))))"

definition external_propose_majority ::
  "('n, 'c, 'k, 'p) democracy_config \<Rightarrow> raw_origin \<Rightarrow> nat \<Rightarrow> asset_id \<Rightarrow> (('n, 'c, 'k) democracy, unit) call" where
  "external_propose_majority cfg orig h asset =
     thenM (ensure_origin (ExternalMajorityOrigin cfg) orig)
       (modifies (\<lambda>s. s\<lparr>NextExternal := Some (\<lparr>proposal_hash = h, proposal_asset = asset\<rparr>, SimpleMajority)\<rparr>))"

definition external_propose_default ::
  "('n, 'c, 'k, 'p) democracy_config \<Rightarrow> raw_origin \<Rightarrow> nat \<Rightarrow> asset_id \<Rightarrow> (('n, 'c, 'k) democracy, unit) call" where
  "external_propose_default cfg orig h asset =
     thenM (ensure_origin (ExternalDefaultOrigin cfg) orig)
       (modifies (\<lambda>s. s\<lparr>NextExternal := Some (\<lparr>proposal_hash = h, proposal_asset = asset\<rparr>, SuperMajorityAgainst)\<rparr>))"

definition fast_track ::
  "('n, 'c, 'k, 'p) democracy_config \<Rightarrow> raw_origin \<Rightarrow> nat \<Rightarrow> asset_id \<Rightarrow> block_number \<Rightarrow> block_number \<Rightarrow>
     (('n, 'c, 'k) democracy, unit) call" where
  "fast_track cfg orig h asset voting_period delay =
     thenM
       (if voting_period < FastTrackVotingPeriod cfg \<or> \<not> FastTrackOrigin cfg orig
        then thenM (ensure_origin (InstantOrigin cfg) orig) (ensure (InstantAllowed cfg) (DemocracyErr InstantNotAllowed))
        else ret ())
    (let i = \<lparr>proposal_hash = h, proposal_asset = asset\<rparr> in
     bindM (reads NextExternal) (\<lambda>v.
     bindM (ok_or v (DemocracyErr ProposalMissing)) (\<lambda>(e_proposal_id, threshold).
     thenM (ensure (threshold \<noteq> SuperMajorityApprove) (DemocracyErr NotSimpleMajority))
    (thenM (ensure (proposal_hash i = proposal_hash e_proposal_id) (DemocracyErr InvalidHash))
    (thenM (modifies (\<lambda>s. s\<lparr>NextExternal := None\<rparr>))
    (bindM (reads democracy_block) (\<lambda>now.
     thenM (inject_referendum (wrapping_add u32_max now voting_period) i threshold delay) (ret ()))))))))"

definition veto_external ::
  "('n, 'c, 'k, 'p) democracy_config \<Rightarrow> raw_origin \<Rightarrow> nat \<Rightarrow> asset_id \<Rightarrow> (('n, 'c, 'k) democracy, unit) call" where
  "veto_external cfg orig h asset =
     bindM (ok_or (VetoOrigin cfg orig) BadOrigin) (\<lambda>who.
     let i = \<lparr>proposal_hash = h, proposal_asset = asset\<rparr> in
     bindM (reads NextExternal) (\<lambda>v.
     thenM (case v of Some (e_proposal_id, _) \<Rightarrow> ensure (i = e_proposal_id) (DemocracyErr ProposalMissing)
            | None \<Rightarrow> fail (DemocracyErr NoProposal))
    (bindM (reads (\<lambda>s. case Blacklist s i of None \<Rightarrow> [] | Some (_, vetoers) \<Rightarrow> vetoers)) (\<lambda>existing_vetoers.
     bindM (case binary_search existing_vetoers who of Inl p \<Rightarrow> ret p | Inr _ \<Rightarrow> fail (DemocracyErr AlreadyVetoed)) (\<lambda>insert_position.
     bindM (ok_or (insert_at insert_position who existing_vetoers) (Panic ''insertion index'')) (\<lambda>vetoers.
     bindM (reads democracy_block) (\<lambda>now.
     let until = wrapping_add u32_max now (CooloffPeriod cfg) in
     thenM (modifies (\<lambda>s. s\<lparr>Blacklist := (Blacklist s)(i \<mapsto> (until, vetoers))\<rparr>))
    (thenM (dem_event (Vetoed who h until)) (modifies (\<lambda>s. s\<lparr>NextExternal := None\<rparr>))))))))))"

definition cancel_referendum :: "raw_origin \<Rightarrow> referendum_index \<Rightarrow> (('n, 'c, 'k) democracy, unit) call" where
  "cancel_referendum orig ref_index = thenM (ensure_root orig) (internal_cancel_referendum ref_index)"

definition cancel_queued ::
  "('n, 'c, 'k, 'p) democracy_config \<Rightarrow> raw_origin \<Rightarrow> referendum_index \<Rightarrow> (('n, 'c, 'k) democracy, unit) call" where
  "cancel_queued cfg orig which =
     thenM (ensure_root orig)
       (map_err (\<lambda>_. DemocracyErr ProposalMissing) (on_dem_schedule (DCancelNamed cfg which)))"

definition delegate_call ::
  "('n, 'c, 'k, 'p) democracy_config \<Rightarrow> raw_origin \<Rightarrow> account_id \<Rightarrow> asset_id \<Rightarrow> conviction \<Rightarrow> balance \<Rightarrow>
     (('n, 'c, 'k) democracy, unit) call" where
  "delegate_call cfg orig to asset c n =
     bindM (ensure_signed orig) (\<lambda>who. thenM (try_delegate cfg who to asset c n) (ret ()))"

definition undelegate_call ::
  "('n, 'c, 'k, 'p) democracy_config \<Rightarrow> raw_origin \<Rightarrow> asset_id \<Rightarrow> (('n, 'c, 'k) democracy, unit) call" where
  "undelegate_call cfg orig asset = bindM (ensure_signed orig) (\<lambda>who. thenM (try_undelegate cfg who asset) (ret ()))"

definition clear_public_proposals :: "raw_origin \<Rightarrow> (('n, 'c, 'k) democracy, unit) call" where
  "clear_public_proposals orig = thenM (ensure_root orig) (modifies (\<lambda>s. s\<lparr>PublicProps := []\<rparr>))"

definition note_preimage ::
  "('n, 'c, 'k, 'p) democracy_config \<Rightarrow> raw_origin \<Rightarrow> bytes \<Rightarrow> asset_id \<Rightarrow> (('n, 'c, 'k) democracy, unit) call" where
  "note_preimage cfg orig encoded asset = bindM (ensure_signed orig) (\<lambda>who. note_preimage_inner cfg who encoded asset)"

definition note_preimage_operational ::
  "('n, 'c, 'k, 'p) democracy_config \<Rightarrow> raw_origin \<Rightarrow> bytes \<Rightarrow> asset_id \<Rightarrow> (('n, 'c, 'k) democracy, unit) call" where
  "note_preimage_operational cfg orig encoded asset =
     bindM (ok_or (OperationalPreimageOrigin cfg orig) BadOrigin) (\<lambda>who. note_preimage_inner cfg who encoded asset)"

definition note_imminent_preimage ::
  "('n, 'c, 'k, 'p) democracy_config \<Rightarrow> raw_origin \<Rightarrow> bytes \<Rightarrow> asset_id \<Rightarrow> (('n, 'c, 'k) democracy, unit) call" where
  "note_imminent_preimage cfg orig encoded asset =
     bindM (ensure_signed orig) (\<lambda>who. note_imminent_preimage_inner cfg who encoded asset)"

definition note_imminent_preimage_operational ::
  "('n, 'c, 'k, 'p) democracy_config \<Rightarrow> raw_origin \<Rightarrow> bytes \<Rightarrow> asset_id \<Rightarrow> (('n, 'c, 'k) democracy, unit) call" where
  "note_imminent_preimage_operational cfg orig encoded asset =
     bindM (ok_or (OperationalPreimageOrigin cfg orig) BadOrigin) (\<lambda>who. note_imminent_preimage_inner cfg who encoded asset)"

definition reap_preimage ::
  "('n, 'c, 'k, 'p) democracy_config \<Rightarrow> raw_origin \<Rightarrow> nat \<Rightarrow> asset_id \<Rightarrow> nat \<Rightarrow> (('n, 'c, 'k) democracy, unit) call" where
  "reap_preimage cfg orig h asset proposal_len_upper_bound =
     bindM (ensure_signed orig) (\<lambda>who.
     let i = \<lparr>proposal_hash = h, proposal_asset = asset\<rparr> in
     bindM (pre_image_data_len i) (\<lambda>len.
     thenM (ensure (len \<le> proposal_len_upper_bound) (DemocracyErr WrongUpperBound))
    (bindM (reads (\<lambda>s. case Preimages s i of
                Some (Available _ provider dep since expiry) \<Rightarrow> Some (provider, dep, since, expiry) | _ \<Rightarrow> None)) (\<lambda>v.
     bindM (ok_or v (DemocracyErr democracy_error.PreimageMissing)) (\<lambda>(provider, dep, since, expiry).
     bindM (reads democracy_block) (\<lambda>now.
     let additional = (if who = provider then 0 else EnactmentPeriod cfg) in
     thenM (ensure (wrapping_add u32_max (wrapping_add u32_max since (VotingPeriod cfg)) additional \<le> now) (DemocracyErr TooEarly))
    (thenM (ensure (case expiry of None \<Rightarrow> True | Some e \<Rightarrow> e < now) (DemocracyErr Imminent))
    (thenM (discard_result (on_dem_native (nh_transfer_held (DNative cfg) provider who dep False False)))
    (thenM (modifies (\<lambda>s. s\<lparr>Preimages := (Preimages s)(i := None)\<rparr>))
       (dem_event (PreimageReaped h provider dep who)))))))))))"

definition unlock ::
  "('n, 'c, 'k, 'p) democracy_config \<Rightarrow> raw_origin \<Rightarrow> account_id \<Rightarrow> asset_id \<Rightarrow> (('n, 'c, 'k) democracy, unit) call" where
  "unlock cfg orig target asset = thenM (ensure_signed orig) (update_lock cfg target asset)"

definition remove_vote ::
  "('n, 'c, 'k, 'p) democracy_config \<Rightarrow> raw_origin \<Rightarrow> asset_id \<Rightarrow> referendum_index \<Rightarrow> (('n, 'c, 'k) democracy, unit) call" where
  "remove_vote cfg orig asset index =
     bindM (ensure_signed orig) (\<lambda>who. try_remove_vote cfg who asset index AnyScope)"

definition remove_other_vote ::
  "('n, 'c, 'k, 'p) democracy_config \<Rightarrow> raw_origin \<Rightarrow> account_id \<Rightarrow> asset_id \<Rightarrow> referendum_index \<Rightarrow>
     (('n, 'c, 'k) democracy, unit) call" where
  "remove_other_vote cfg orig target asset index =
     bindM (ensure_signed orig) (\<lambda>who.
     try_remove_vote cfg target asset index (if target = who then AnyScope else OnlyExpired))"

definition enact_proposal ::
  "('n, 'c, 'k, 'p) democracy_config \<Rightarrow> raw_origin \<Rightarrow> proposal_id \<Rightarrow> referendum_index \<Rightarrow> (('n, 'c, 'k) democracy, unit) call" where
  "enact_proposal cfg orig i index = thenM (ensure_root orig) (do_enact_proposal cfg i index)"

text \<open>\<open>DepositOf::take\<close> and the loop that gives the deposits to the treasury.\<close>

definition slash_deposits ::
  "('n, 'c, 'k, 'p) democracy_config \<Rightarrow> prop_index \<Rightarrow> (('n, 'c, 'k) democracy, unit) call" where
  "slash_deposits cfg prop_index =
     bindM (reads (\<lambda>s. DepositOf s prop_index)) (\<lambda>v.
     thenM (modifies (\<lambda>s. s\<lparr>DepositOf := (DepositOf s)(prop_index := None)\<rparr>))
       (case v of
          None \<Rightarrow> ret ()
        | Some (whos, amount) \<Rightarrow>
            for_each whos (\<lambda>who.
              thenM (on_dem_native (nh_transfer_held (DNative cfg) who (TreasuryAccount cfg) amount True False)) (ret ()))))"

definition find_proposal :: "proposal_id \<Rightarrow> (prop_index \<times> proposal_id \<times> account_id) list \<Rightarrow> nat option" where
  "find_proposal i props =
     (let n = length (takeWhile (\<lambda>p. fst (snd p) \<noteq> i) props) in if n < length props then Some n else None)"

definition blacklist ::
  "('n, 'c, 'k, 'p) democracy_config \<Rightarrow> raw_origin \<Rightarrow> nat \<Rightarrow> asset_id \<Rightarrow> referendum_index option \<Rightarrow>
     (('n, 'c, 'k) democracy, unit) call" where
  "blacklist cfg orig h asset maybe_ref_index = transactional
     (thenM (ensure_origin (BlacklistOrigin cfg) orig)
     (let i = \<lparr>proposal_hash = h, proposal_asset = asset\<rparr> in
      thenM (modifies (\<lambda>s. s\<lparr>Blacklist := (Blacklist s)(i \<mapsto> (u32_max, []))\<rparr>))
     (thenM (try_mutate PublicProps (\<lambda>ps s. s\<lparr>PublicProps := ps\<rparr>)
               (\<lambda>props. case find_proposal i props of
                  Some index \<Rightarrow>
                    thenM (slash_deposits cfg (fst (props ! index))) (ret ((), take index props @ drop (index + 1) props))
                | None \<Rightarrow> ret ((), props)))
     (thenM (modifies (\<lambda>s. case NextExternal s of
               Some (p, _) \<Rightarrow> if p = i then s\<lparr>NextExternal := None\<rparr> else s
             | None \<Rightarrow> s))
     (thenM (case maybe_ref_index of
               None \<Rightarrow> ret ()
             | Some ref_index \<Rightarrow>
                 bindM (reads (\<lambda>s. ReferendumInfoOf s ref_index)) (\<lambda>info.
                 case info of
                   Some (Ongoing status) \<Rightarrow> if ref_proposal status = i then internal_cancel_referendum ref_index else ret ()
                 | _ \<Rightarrow> ret ()))
        (dem_event (Blacklisted h)))))))"

definition cancel_proposal ::
  "('n, 'c, 'k, 'p) democracy_config \<Rightarrow> raw_origin \<Rightarrow> prop_index \<Rightarrow> (('n, 'c, 'k) democracy, unit) call" where
  "cancel_proposal cfg orig prop_index =
     thenM (ensure_origin (CancelProposalOrigin cfg) orig)
    (thenM (modifies (\<lambda>s. s\<lparr>PublicProps := filter (\<lambda>p. fst p \<noteq> prop_index) (PublicProps s)\<rparr>))
       (slash_deposits cfg prop_index))"

end
