(* ===== verification/Democracy_Tally.thy ===== *)
theory Democracy_Tally
  imports Democracy
begin

text \<open>
  What a tally should be: the sum of what the accounts contribute, by their own votes and by the votes that
  others have delegated to them; and how voting, unvoting and delegating change it.
\<close>

section \<open>Contributions\<close>

datatype tally_part = AyesPart | NaysPart | TurnoutPart

fun tally_at :: "tally_part \<Rightarrow> tally \<Rightarrow> nat" where
  "tally_at AyesPart t = ayes t"
| "tally_at NaysPart t = nays t"
| "tally_at TurnoutPart t = turnout t"

fun vote_part :: "tally_part \<Rightarrow> account_vote \<Rightarrow> nat" where
  "vote_part AyesPart (Standard w n) = (if aye w then del_votes (conviction_votes (vote_conviction w) n) else 0)"
| "vote_part NaysPart (Standard w n) = (if aye w then 0 else del_votes (conviction_votes (vote_conviction w) n))"
| "vote_part TurnoutPart (Standard w n) = n"
| "vote_part AyesPart (Split a b) = a div 10"
| "vote_part NaysPart (Split a b) = b div 10"
| "vote_part TurnoutPart (Split a b) = a + b"

text \<open>Delegated votes go the way of a standard vote; with a split vote they do not count.\<close>

fun del_part :: "tally_part \<Rightarrow> account_vote \<Rightarrow> delegations \<Rightarrow> nat" where
  "del_part AyesPart (Standard w n) d = (if aye w then del_votes d else 0)"
| "del_part NaysPart (Standard w n) d = (if aye w then 0 else del_votes d)"
| "del_part TurnoutPart (Standard w n) d = capital d"
| "del_part k (Split a b) d = 0"

fun votes_of :: "voting \<Rightarrow> (referendum_index \<times> account_vote) list" where
  "votes_of (DirectVoting votes d p) = votes"
| "votes_of (Delegating n t c d p) = []"

fun dels_of :: "voting \<Rightarrow> delegations" where
  "dels_of (DirectVoting votes d p) = d"
| "dels_of (Delegating n t c d p) = d"

definition voting_part :: "tally_part \<Rightarrow> referendum_index \<Rightarrow> voting \<Rightarrow> nat" where
  "voting_part k i vs = (case map_of (votes_of vs) i of None \<Rightarrow> 0 | Some v \<Rightarrow> vote_part k v + del_part k v (dels_of vs))"

text \<open>What an account has delegated, and what of it goes to an account.\<close>

type_synonym grant = "account_id \<times> balance \<times> conviction"

fun grant_of :: "voting \<Rightarrow> grant option" where
  "grant_of (DirectVoting votes d p) = None"
| "grant_of (Delegating n t c d p) = Some (t, n, c)"

fun granted :: "account_id \<Rightarrow> grant option \<Rightarrow> delegations" where
  "granted x None = default_delegations"
| "granted x (Some (t, n, c)) = (if t = x then conviction_votes c n else default_delegations)"

fun del_at :: "bool \<Rightarrow> delegations \<Rightarrow> nat" where
  "del_at True d = del_votes d"
| "del_at False d = capital d"

definition follows :: "tally_part \<Rightarrow> account_vote \<Rightarrow> bool" where
  "follows k v = (case v of Standard w _ \<Rightarrow> k = TurnoutPart \<or> aye w = (k = AyesPart) | Split _ _ \<Rightarrow> False)"

section \<open>The operations of a tally\<close>

lemma conviction_votes_capital [simp]: "capital (conviction_votes c n) = n"
  by (simp add: conviction_votes_def)

lemma conviction_votes_none [simp]: "del_votes (conviction_votes NoConviction n) = n div 10"
  by (simp add: conviction_votes_def checked_div_def)

lemma conviction_votes_le: "del_votes (conviction_votes c n) \<le> 6 * n"
  by (cases c) (auto simp: conviction_votes_def checked_div_def checked_mul_def conviction_to_u8_def)

lemma vote_part_le: "vote_part k v \<le> 6 * vote_part TurnoutPart v"
  using conviction_votes_le by (cases k; cases v) (auto intro: order_trans [OF div_le_dividend])

lemma tally_add_part: "tally_add v t = Some t' \<Longrightarrow> tally_at k t' = tally_at k t + vote_part k v"
  by (cases k; cases v) (auto simp: tally_add_def Let_def checked_add_def bind_eq_Some_conv split: if_splits)

lemma tally_remove_part: "tally_remove v t = Some t' \<Longrightarrow> tally_at k t' + vote_part k v = tally_at k t"
  by (cases k; cases v) (auto simp: tally_remove_def Let_def checked_sub_def bind_eq_Some_conv split: if_splits)

lemma tally_increase_part:
  assumes "\<And>k. tally_at k t + del_part k (Standard w n) d \<le> u128_max"
  shows "tally_at k (tally_increase (aye w) d t) = tally_at k t + del_part k (Standard w n) d"
  using assms [of AyesPart] assms [of NaysPart] assms [of TurnoutPart]
  by (cases k) (auto simp: tally_increase_def saturating_add_def Let_def)

lemma tally_reduce_part:
  assumes "\<And>k. del_part k (Standard w n) d \<le> tally_at k t"
  shows "tally_at k (tally_reduce (aye w) d t) + del_part k (Standard w n) d = tally_at k t"
  using assms [of AyesPart] assms [of NaysPart] assms [of TurnoutPart]
  by (cases k) (auto simp: tally_reduce_def saturating_sub_def Let_def)

lemma counted_in:
  assumes "\<And>k. tally_at k t + del_part k v d \<le> u128_max"
  shows "tally_at k (case as_standard v of None \<Rightarrow> t | Some approve \<Rightarrow> tally_increase approve d t) = tally_at k t + del_part k v d"
proof (cases v)
  case (Standard w n)
  then show ?thesis using tally_increase_part [of t w n d k] assms by (simp add: as_standard_def)
qed (simp add: as_standard_def)

lemma counted_out:
  assumes "\<And>k. del_part k v d \<le> tally_at k t"
  shows "tally_at k (case as_standard v of None \<Rightarrow> t | Some approve \<Rightarrow> tally_reduce approve d t) + del_part k v d = tally_at k t"
proof (cases v)
  case (Standard w n)
  then show ?thesis using tally_reduce_part [of w n d t k] assms by (simp add: as_standard_def)
qed (simp add: as_standard_def)

section \<open>Lists of votes\<close>

abbreviation keys_sorted :: "(referendum_index \<times> 'a) list \<Rightarrow> bool" where
  "keys_sorted xs \<equiv> sorted_wrt (<) (map fst xs)"

lemma keys_sorted_search:
  assumes "keys_sorted xs"
  shows "sorted (map fst xs)" "distinct (map fst xs)"
  using assms strict_sorted_iff by auto

lemma key_found:
  assumes "keys_sorted xs" "binary_search (map fst xs) i = Inr j"
  shows "j < length xs" "fst (xs ! j) = i" "map_of xs i = Some (snd (xs ! j))"
proof -
  show j: "j < length xs" "fst (xs ! j) = i"
    using slice.found [OF keys_sorted_search(1) [OF assms(1)] assms(2)] by auto
  show "map_of xs i = Some (snd (xs ! j))"
    using j keys_sorted_search(2) [OF assms(1)] map_of_eq_Some_iff nth_mem by (metis prod.collapse)
qed

lemma key_split:
  assumes "keys_sorted xs" "j < length xs" "fst (xs ! j) = i"
  shows "xs = take j xs @ (i, snd (xs ! j)) # drop (j + 1) xs" "i \<notin> fst ` set (take j xs)" "i \<notin> fst ` set (drop (j + 1) xs)"
    "keys_sorted (take j xs @ (i, v) # drop (j + 1) xs)" "keys_sorted (take j xs @ drop (j + 1) xs)"
proof -
  have "(i, snd (xs ! j)) = xs ! j" using assms(3) by auto
  then show xs: "xs = take j xs @ (i, snd (xs ! j)) # drop (j + 1) xs" using assms(2) by (simp add: id_take_nth_drop)
  then have sorted: "keys_sorted (take j xs @ (i, snd (xs ! j)) # drop (j + 1) xs)" using assms(1) by simp
  then show "i \<notin> fst ` set (take j xs)" "i \<notin> fst ` set (drop (j + 1) xs)"
    "keys_sorted (take j xs @ (i, v) # drop (j + 1) xs)" "keys_sorted (take j xs @ drop (j + 1) xs)"
    by (auto simp: sorted_wrt_append)
qed

lemma map_of_at:
  assumes "i \<notin> fst ` set xs"
  shows "map_of (xs @ (i, v) # ys) = (map_of (xs @ ys))(i \<mapsto> v)"
    "i \<notin> fst ` set ys \<Longrightarrow> map_of (xs @ ys) = (map_of (xs @ (i, v) # ys))(i := None)"
proof -
  have none: "map_of xs i = None" using assms by (simp add: map_of_eq_None_iff)
  show "map_of (xs @ (i, v) # ys) = (map_of (xs @ ys))(i \<mapsto> v)"
    using none by (auto simp: map_add_def fun_eq_iff split: option.split)
  show "map_of (xs @ ys) = (map_of (xs @ (i, v) # ys))(i := None)" if "i \<notin> fst ` set ys"
  proof -
    have "map_of ys i = None" using that by (simp add: map_of_eq_None_iff)
    then show ?thesis using none by (auto simp: map_add_def fun_eq_iff split: option.split)
  qed
qed

lemma key_missing:
  assumes "keys_sorted xs" "binary_search (map fst xs) i = Inl j"
  shows "j \<le> length xs" "map_of xs i = None" "keys_sorted (take j xs @ (i, v) # drop j xs)"
    "map_of (take j xs @ (i, v) # drop j xs) = (map_of xs)(i \<mapsto> v)"
proof -
  have m: "j \<le> length xs" "\<forall>y\<in>set (take j (map fst xs)). y < i" "\<forall>y\<in>set (drop j (map fst xs)). i < y"
    using slice.missing [OF keys_sorted_search(1) [OF assms(1)] assms(2)] by simp_all
  then have new: "i \<notin> set (map fst xs)" using append_take_drop_id [of j "map fst xs"] by (metis Un_iff less_irrefl set_append)
  show "j \<le> length xs" by (rule m(1))
  show "map_of xs i = None" using new by (simp add: map_of_eq_None_iff)
  have "sorted_wrt (<) (take j (map fst xs) @ drop j (map fst xs))" using assms(1) by simp
  then show "keys_sorted (take j xs @ (i, v) # drop j xs)"
    using m(2,3) unfolding sorted_wrt_append by (auto simp: take_map drop_map sorted_wrt_append)
  have "i \<notin> fst ` set (take j xs)" using new by (auto dest: in_set_takeD)
  then show "map_of (take j xs @ (i, v) # drop j xs) = (map_of xs)(i \<mapsto> v)"
    using map_of_at(1) [of i "take j xs" v "drop j xs"] by simp
qed

lemma key_replaced:
  assumes "keys_sorted xs" "j < length xs" "fst (xs ! j) = i"
  shows "keys_sorted (xs[j := (i, v)])" "map_of (xs[j := (i, v)]) = (map_of xs)(i \<mapsto> v)" "set (xs[j := (i, v)]) \<subseteq> insert (i, v) (set xs)"
proof -
  note split = key_split [OF assms]
  have upd: "xs[j := (i, v)] = take j xs @ (i, v) # drop (j + 1) xs" using assms(2) by (simp add: upd_conv_take_nth_drop)
  then show "keys_sorted (xs[j := (i, v)])" using split(4) by simp
  have "map_of xs = (map_of (take j xs @ drop (j + 1) xs))(i \<mapsto> snd (xs ! j))"
    by (subst split(1), rule map_of_at(1) [OF split(2)])
  then show "map_of (xs[j := (i, v)]) = (map_of xs)(i \<mapsto> v)" unfolding upd map_of_at(1) [OF split(2)] by simp
  show "set (xs[j := (i, v)]) \<subseteq> insert (i, v) (set xs)" by (rule set_update_subset_insert)
qed

lemma key_removed:
  assumes "keys_sorted xs" "j < length xs" "fst (xs ! j) = i"
  shows "keys_sorted (take j xs @ drop (j + 1) xs)" "map_of (take j xs @ drop (j + 1) xs) = (map_of xs)(i := None)"
    "set (take j xs @ drop (j + 1) xs) \<subseteq> set xs"
proof -
  note split = key_split [OF assms]
  show "keys_sorted (take j xs @ drop (j + 1) xs)" by (rule split(5))
  show "set (take j xs @ drop (j + 1) xs) \<subseteq> set xs" by (auto dest: in_set_takeD in_set_dropD)
  show "map_of (take j xs @ drop (j + 1) xs) = (map_of xs)(i := None)"
    using map_of_at(2) [OF split(2,3), of "snd (xs ! j)"] unfolding split(1) [symmetric] .
qed

section \<open>Ballots\<close>

lemma del_part_at: "del_part k v d = (if follows k v then del_at (k \<noteq> TurnoutPart) d else 0)"
  by (cases k; cases v) (auto simp: follows_def)

lemma del_at_default [simp]: "del_at b default_delegations = 0"
  by (cases b) (simp_all add: default_delegations_def)

lemma del_at_conviction: "del_at b (conviction_votes c n) \<le> 6 * n"
  by (cases b) (simp_all add: conviction_votes_le)

lemma del_at_add: "del_at b d + del_at b e \<le> u128_max \<Longrightarrow> del_at b (del_saturating_add d e) = del_at b d + del_at b e"
  by (cases b) (auto simp: del_saturating_add_def saturating_add_def)

lemma del_at_sub: "del_at b (del_saturating_sub d e) = del_at b d - del_at b e"
  by (cases b) (auto simp: del_saturating_sub_def saturating_sub_def)

definition grants_ok :: "nat \<Rightarrow> account_id set \<Rightarrow> (account_id \<times> asset_id \<Rightarrow> grant option) \<Rightarrow> bool" where
  "grants_ok C A G \<longleftrightarrow> (\<forall>x a t n c. G (x, a) = Some (t, n, c) \<longrightarrow> x \<in> A \<and> t \<in> A \<and> t \<noteq> x \<and> n \<le> C)"

text \<open>
  The ballots of the accounts \<open>A\<close>, none of which votes or delegates more than \<open>C\<close>: votes are sorted by
  referendum, and what is recorded as delegated to an account is what the accounts have granted it.
\<close>

definition ballots ::
  "nat \<Rightarrow> account_id set \<Rightarrow> (account_id \<times> asset_id \<Rightarrow> voting) \<Rightarrow> (account_id \<times> asset_id \<Rightarrow> grant option) \<Rightarrow> bool" where
  "ballots C A V G \<longleftrightarrow>
     (\<forall>xa. keys_sorted (votes_of (V xa)) \<and> (\<forall>v\<in>snd ` set (votes_of (V xa)). vote_part TurnoutPart v \<le> C)) \<and>
     (\<forall>x a. x \<notin> A \<longrightarrow> V (x, a) = default_voting) \<and>
     grants_ok C A G \<and>
     (\<forall>x a b. del_at b (dels_of (V (x, a))) = (\<Sum>y\<in>A. del_at b (granted x (G (y, a)))))"

lemma ballotsD:
  assumes "ballots C A V G"
  shows "keys_sorted (votes_of (V xa))" "v \<in> snd ` set (votes_of (V xa)) \<Longrightarrow> vote_part TurnoutPart v \<le> C"
    "x \<notin> A \<Longrightarrow> V (x, a) = default_voting" "grants_ok C A G"
    "del_at b (dels_of (V (x, a))) = (\<Sum>y\<in>A. del_at b (granted x (G (y, a))))"
  using assms unfolding ballots_def by blast+

definition electorate :: "nat \<Rightarrow> account_id set \<Rightarrow> bool" where
  "electorate C A \<longleftrightarrow> finite A \<and> 12 * C * card A \<le> u128_max"

lemma grants_okD: "grants_ok C A G \<Longrightarrow> G (x, a) = Some (t, n, c) \<Longrightarrow> x \<in> A \<and> t \<in> A \<and> t \<noteq> x \<and> n \<le> C"
  unfolding grants_ok_def by blast

lemma granted_le:
  assumes "grants_ok C A G"
  shows "del_at b (granted x (G (y, a))) \<le> 6 * C"
proof (cases "G (y, a)")
  case (Some g)
  obtain t n c where "g = (t, n, c)" by (cases g)
  then have "n \<le> C" "del_at b (granted x (G (y, a))) \<le> 6 * n"
    using grants_okD [OF assms] Some del_at_conviction [of b c n] by auto
  then show ?thesis by linarith
qed simp

lemma granted_total:
  assumes "grants_ok C A G" "finite A"
  shows "(\<Sum>x\<in>A. del_at b (granted x (G (y, a)))) \<le> 6 * C"
proof (cases "G (y, a)")
  case (Some g)
  obtain t n c where g: "g = (t, n, c)" by (cases g)
  have "(\<Sum>x\<in>A. del_at b (granted x (G (y, a)))) = (\<Sum>x\<in>A. if x = t then del_at b (granted x (G (y, a))) else 0)"
    by (rule sum.cong) (auto simp: Some g)
  also have "\<dots> \<le> del_at b (granted t (G (y, a)))" using assms(2) by simp
  also have "\<dots> \<le> 6 * C" by (rule granted_le [OF assms(1)])
  finally show ?thesis .
qed simp

lemma granted_bounded:
  assumes "grants_ok C A G" "electorate C A"
  shows "(\<Sum>y\<in>A. del_at b (granted x (G (y, a)))) \<le> u128_max"
proof -
  have "(\<Sum>y\<in>A. del_at b (granted x (G (y, a)))) \<le> (\<Sum>y\<in>A. 6 * C)" by (intro sum_mono granted_le [OF assms(1)])
  also have "\<dots> \<le> 12 * C * card A" by simp
  finally show ?thesis using assms(2) by (simp add: electorate_def)
qed

lemma voting_part_le:
  assumes "ballots C A V G"
  shows "voting_part k i (V (x, a)) \<le> 6 * C + del_at (k \<noteq> TurnoutPart) (dels_of (V (x, a)))"
proof (cases "map_of (votes_of (V (x, a))) i")
  case (Some v)
  then have "v \<in> snd ` set (votes_of (V (x, a)))" using map_of_SomeD by force
  then have "vote_part k v \<le> 6 * C" using ballotsD(2) [OF assms] vote_part_le [of k v] by (meson mult_le_mono2 order_trans)
  then show ?thesis using Some by (simp add: voting_part_def del_part_at add_le_mono)
qed (simp add: voting_part_def)

lemma ballots_bounded:
  assumes "ballots C A V G" "electorate C A"
  shows "(\<Sum>x\<in>A. voting_part k i (V (x, a))) \<le> u128_max" "del_at b (dels_of (V (x, a))) \<le> u128_max"
proof -
  have fin: "finite A" and bound: "12 * C * card A \<le> u128_max" using assms(2) by (simp_all add: electorate_def)
  let ?b = "k \<noteq> TurnoutPart"
  have "(\<Sum>x\<in>A. voting_part k i (V (x, a))) \<le> (\<Sum>x\<in>A. 6 * C + (\<Sum>y\<in>A. del_at ?b (granted x (G (y, a)))))"
    using voting_part_le [OF assms(1), of k i] unfolding ballotsD(5) [OF assms(1)] by (intro sum_mono)
  also have "\<dots> = 6 * C * card A + (\<Sum>y\<in>A. \<Sum>x\<in>A. del_at ?b (granted x (G (y, a))))"
    unfolding sum.distrib by (subst sum.swap) (simp add: mult.commute)
  also have "\<dots> \<le> 6 * C * card A + (\<Sum>y\<in>A. 6 * C)"
    by (intro add_left_mono sum_mono granted_total [OF ballotsD(4) [OF assms(1)] fin])
  also have "\<dots> = 12 * C * card A" by simp
  finally show "(\<Sum>x\<in>A. voting_part k i (V (x, a))) \<le> u128_max" using bound by simp
  show "del_at b (dels_of (V (x, a))) \<le> u128_max"
    unfolding ballotsD(5) [OF assms(1)] by (rule granted_bounded [OF ballotsD(4) [OF assms(1)] assms(2)])
qed

text \<open>One account's ballot for an asset changes.\<close>

lemma sum_upd_pair:
  fixes F :: "'v \<Rightarrow> nat"
  assumes "finite A" "x \<in> A"
  shows "(\<Sum>y\<in>A. F ((V((x, a) := v)) (y, b))) + (if b = a then F (V (x, a)) else 0)
    = (\<Sum>y\<in>A. F (V (y, b))) + (if b = a then F v else 0)"
proof (cases "b = a")
  case True
  have "(\<Sum>y\<in>A. F ((V((x, a) := v)) (y, b))) = F v + (\<Sum>y\<in>A - {x}. F (V (y, b)))"
    using assms True by (subst sum.remove [of A x]) (auto intro!: sum.cong)
  moreover have "(\<Sum>y\<in>A. F (V (y, b))) = F (V (x, b)) + (\<Sum>y\<in>A - {x}. F (V (y, b)))"
    using assms by (rule sum.remove)
  ultimately show ?thesis using True by simp
qed simp

lemma ballots_upd:
  assumes "ballots C A V G" "x \<in> A" "keys_sorted (votes_of w)" "\<And>v. v \<in> snd ` set (votes_of w) \<Longrightarrow> vote_part TurnoutPart v \<le> C"
    "dels_of w = dels_of (V (x, a))"
  shows "ballots C A (V((x, a) := w)) G"
  using assms unfolding ballots_def by (auto simp: fun_upd_def)

section \<open>Tallies against ballots\<close>

definition ref_asset :: "referendum_status \<Rightarrow> asset_id" where
  "ref_asset st = proposal_asset (ref_proposal st)"

definition counted ::
  "account_id set \<Rightarrow> (account_id \<times> asset_id \<Rightarrow> voting) \<Rightarrow> (referendum_index \<rightharpoonup> referendum_info) \<Rightarrow> referendum_index \<Rightarrow> bool" where
  "counted A V R n \<longleftrightarrow>
     (\<forall>x a i. i \<in> fst ` set (votes_of (V (x, a))) \<longrightarrow> i < n \<and> (\<forall>st. R i = Some (Ongoing st) \<longrightarrow> ref_asset st = a)) \<and>
     (\<forall>i. R i \<noteq> None \<longrightarrow> i < n) \<and>
     (\<forall>i st k. R i = Some (Ongoing st) \<longrightarrow> tally_at k (ref_tally st) = (\<Sum>x\<in>A. voting_part k i (V (x, ref_asset st))))"

lemma countedD:
  assumes "counted A V R n"
  shows "i \<in> fst ` set (votes_of (V (x, a))) \<Longrightarrow> i < n" "R i \<noteq> None \<Longrightarrow> i < n"
    "i \<in> fst ` set (votes_of (V (x, a))) \<Longrightarrow> R i = Some (Ongoing st) \<Longrightarrow> ref_asset st = a"
    "R i = Some (Ongoing st) \<Longrightarrow> tally_at k (ref_tally st) = (\<Sum>x\<in>A. voting_part k i (V (x, ref_asset st)))"
  using assms unfolding counted_def by blast+

lemma counted_member:
  assumes "counted A V R n" "R i = Some (Ongoing st)" "finite A" "x \<in> A"
  shows "voting_part k i (V (x, ref_asset st)) \<le> tally_at k (ref_tally st)"
  unfolding countedD(4) [OF assms(1,2)] using assms(3,4) by (intro member_le_sum) simp_all

lemma voting_part_none: "i \<notin> fst ` set (votes_of vs) \<Longrightarrow> voting_part k i vs = 0"
  by (simp add: voting_part_def map_of_eq_None_iff [THEN iffD2])

lemma counted_upd:
  assumes "finite A" "counted A V R n" "x \<in> A"
    and keys: "\<And>j st. j \<in> fst ` set (votes_of w) \<Longrightarrow> j < n \<and> (R j = Some (Ongoing st) \<longrightarrow> ref_asset st = a)"
    and dom: "\<And>j. R' j \<noteq> None \<Longrightarrow> R j \<noteq> None"
    and run: "\<And>j st'. R' j = Some (Ongoing st') \<Longrightarrow> \<exists>st. R j = Some (Ongoing st) \<and> ref_proposal st' = ref_proposal st \<and>
      (\<forall>k. tally_at k (ref_tally st') + voting_part k j (V (x, a)) = tally_at k (ref_tally st) + voting_part k j w)"
  shows "counted A (V((x, a) := w)) R' n"
  unfolding counted_def
proof (intro conjI allI impI)
  fix y b j assume "j \<in> fst ` set (votes_of ((V((x, a) := w)) (y, b)))"
  then have old: "j < n \<and> (R j = Some (Ongoing st) \<longrightarrow> ref_asset st = b)" for st
    using keys [of j st] countedD(1,3) [OF assms(2), of j y b] by (auto split: if_splits)
  then show "j < n" by blast
  show "ref_asset st' = b" if "R' j = Some (Ongoing st')" for st'
    using run [OF that] old by (auto simp: ref_asset_def)
next
  show "j < n" if "R' j \<noteq> None" for j using dom [OF that] countedD(2) [OF assms(2)] by blast
next
  fix j st' k assume "R' j = Some (Ongoing st')"
  then obtain st where st: "R j = Some (Ongoing st)" "ref_asset st' = ref_asset st"
    "tally_at k (ref_tally st') + voting_part k j (V (x, a)) = tally_at k (ref_tally st) + voting_part k j w"
    using run [of j st'] by (auto simp: ref_asset_def)
  have "voting_part k j (V (x, a)) = 0" "voting_part k j w = 0" if "ref_asset st \<noteq> a"
    using that keys [of j st] countedD(3) [OF assms(2), of j x a st] st(1) by (auto intro!: voting_part_none)
  then show "tally_at k (ref_tally st') = (\<Sum>y\<in>A. voting_part k j ((V((x, a) := w)) (y, ref_asset st')))"
    using sum_upd_pair [OF assms(1,3), of "voting_part k j" V a w "ref_asset st"] st countedD(4) [OF assms(2) st(1), of k]
    by (cases "ref_asset st = a") auto
qed

text \<open>The loop over the votes of an account visits every referendum once.\<close>

definition with_dels :: "delegations \<Rightarrow> voting \<Rightarrow> voting" where
  "with_dels d vs = (case vs of DirectVoting votes _ p \<Rightarrow> DirectVoting votes d p | Delegating n t c _ p \<Rightarrow> Delegating n t c d p)"

lemma with_dels [simp]: "votes_of (with_dels d vs) = votes_of vs" "dels_of (with_dels d vs) = d" "grant_of (with_dels d vs) = grant_of vs"
  by (cases vs; simp add: with_dels_def)+

definition recount :: "(bool \<Rightarrow> tally \<Rightarrow> tally) \<Rightarrow> account_vote \<Rightarrow> referendum_status \<Rightarrow> referendum_status" where
  "recount f v st = st\<lparr>ref_tally := (case as_standard v of None \<Rightarrow> ref_tally st | Some b \<Rightarrow> f b (ref_tally st))\<rparr>"

lemma retally_at:
  "retally f amount (i, v) R j = (case R j of Some (Ongoing st) \<Rightarrow> if j = i then Some (Ongoing (recount (\<lambda>b. f b amount) v st)) else R j | _ \<Rightarrow> R j)"
  by (auto simp: retally_def recount_def as_standard_def split: account_vote.split option.split referendum_info.split)

lemma retally_fold:
  assumes "distinct (map fst votes)"
  shows "fold (retally f amount) votes R j = (case R j of
      Some (Ongoing st) \<Rightarrow> (case map_of votes j of None \<Rightarrow> R j | Some v \<Rightarrow> Some (Ongoing (recount (\<lambda>b. f b amount) v st)))
    | _ \<Rightarrow> R j)"
  using assms
proof (induction votes arbitrary: R)
  case (Cons iv votes)
  obtain i v where iv: "iv = (i, v)" by (cases iv)
  then have "map_of votes i = None" using Cons.prems by (simp add: map_of_eq_None_iff)
  then show ?case using Cons by (auto simp: iv retally_at split: option.split referendum_info.split)
qed (auto split: option.split referendum_info.split)

section \<open>Delegating and undelegating\<close>

text \<open>
  Both change the grant of one account and the delegations of the account it names by the same amount. The
  equation between the two holds afterwards, given that the new delegations are the new sum of grants.
\<close>

lemma granted_upd:
  assumes "finite A" "who \<in> A"
  shows "(\<Sum>y\<in>A. del_at b (granted x ((G((who, a) := g)) (y, e)))) + (if e = a then del_at b (granted x (G (who, a))) else 0)
    = (\<Sum>y\<in>A. del_at b (granted x (G (y, e)))) + (if e = a then del_at b (granted x g) else 0)"
  using sum_upd_pair [OF assms, of "\<lambda>g. del_at b (granted x g)" G a g e] by simp

lemma ballots_regrant:
  assumes "electorate C A" "ballots C A V G" "who \<in> A" "t \<in> A" "grants_ok C A (G((who, a) := g))"
    and others: "\<And>b x. x \<noteq> t \<Longrightarrow> del_at b (granted x g) = del_at b (granted x (G (who, a)))"
    and new: "\<And>b. del_at b d' = (\<Sum>y\<in>A. del_at b (granted t ((G((who, a) := g)) (y, a))))"
  shows "ballots C A (V((t, a) := with_dels d' (V (t, a)))) (G((who, a) := g))"
proof -
  have fin: "finite A" using assms(1) by (simp add: electorate_def)
  note B = ballotsD [OF assms(2)]
  have "del_at b (dels_of ((V((t, a) := with_dels d' (V (t, a)))) (x, e))) = (\<Sum>y\<in>A. del_at b (granted x ((G((who, a) := g)) (y, e))))" for b x e
    using granted_upd [OF fin assms(3), of b x G a g e] others [of x b] new [of b] B(5) [of b x e]
    by (cases "x = t"; cases "e = a") auto
  moreover have "keys_sorted (votes_of ((V((t, a) := with_dels d' (V (t, a)))) xe))" for xe using B(1) by simp
  moreover have "vote_part TurnoutPart v \<le> C" if "v \<in> snd ` set (votes_of ((V((t, a) := with_dels d' (V (t, a)))) xe))" for v xe
    using that B(2) by (cases "xe = (t, a)") simp_all
  moreover have "(V((t, a) := with_dels d' (V (t, a)))) (x, e) = default_voting" if "x \<notin> A" for x e
    using that B(3) assms(4) by auto
  ultimately show ?thesis using assms(5) unfolding ballots_def by blast
qed

lemma voting_part_with_dels:
  "map_of (votes_of vs) j = Some v \<Longrightarrow> voting_part k j (with_dels d vs) = vote_part k v + del_part k v d"
  "map_of (votes_of vs) j = None \<Longrightarrow> voting_part k j (with_dels d vs) = voting_part k j vs"
  by (simp_all add: voting_part_def)

text \<open>How the loop over the votes changes the tallies, if on every vote it changes the tally as the ballot changes.\<close>

lemma counted_retally:
  assumes "finite A" "ballots C A V G" "counted A V R n" "t \<in> A"
    and step: "\<And>j st v k. R j = Some (Ongoing st) \<Longrightarrow> ref_asset st = a \<Longrightarrow> map_of (votes_of (V (t, a))) j = Some v \<Longrightarrow>
      tally_at k (ref_tally (recount (\<lambda>b. f b amount) v st)) + del_part k v (dels_of (V (t, a))) = tally_at k (ref_tally st) + del_part k v d"
  shows "counted A (V((t, a) := with_dels d (V (t, a)))) (fold (retally f amount) (votes_of (V (t, a))) R) n"
proof (rule counted_upd [OF assms(1,3,4)])
  have fold: "fold (retally f amount) (votes_of (V (t, a))) R j = (case R j of
      Some (Ongoing st) \<Rightarrow> (case map_of (votes_of (V (t, a))) j of None \<Rightarrow> R j | Some v \<Rightarrow> Some (Ongoing (recount (\<lambda>b. f b amount) v st)))
    | _ \<Rightarrow> R j)" for j
    by (rule retally_fold [OF keys_sorted_search(2) [OF ballotsD(1) [OF assms(2)]]])
  fix j st
  show "j < n \<and> (R j = Some (Ongoing st) \<longrightarrow> ref_asset st = a)" if "j \<in> fst ` set (votes_of (with_dels d (V (t, a))))"
    using that countedD(1,3) [OF assms(3), of j t a] by simp
  show "R j \<noteq> None" if "fold (retally f amount) (votes_of (V (t, a))) R j \<noteq> None"
    using that by (auto simp: fold split: option.splits)
  fix st' assume new: "fold (retally f amount) (votes_of (V (t, a))) R j = Some (Ongoing st')"
  then obtain st where st: "R j = Some (Ongoing st)" by (auto simp: fold split: option.splits referendum_info.splits)
  show "\<exists>st. R j = Some (Ongoing st) \<and> ref_proposal st' = ref_proposal st \<and>
    (\<forall>k. tally_at k (ref_tally st') + voting_part k j (V (t, a)) = tally_at k (ref_tally st) + voting_part k j (with_dels d (V (t, a))))"
  proof (cases "map_of (votes_of (V (t, a))) j")
    case None
    then show ?thesis using new st by (simp add: fold voting_part_with_dels)
  next
    case (Some v)
    then have "j \<in> fst ` set (votes_of (V (t, a)))" by (metis domI dom_map_of_conv_image_fst)
    then have "ref_asset st = a" by (rule countedD(3) [OF assms(3) _ st])
    moreover have "st' = recount (\<lambda>b. f b amount) v st" using new st Some by (simp add: fold)
    ultimately show ?thesis using step [OF st _ Some] st Some by (simp add: voting_part_with_dels voting_part_def recount_def add.assoc)
  qed
qed

text \<open>Delegating to \<open>t\<close>: an account without a grant gives one.\<close>

lemma increase_ok:
  fixes c :: conviction
  assumes "electorate C A" "ballots C A V G" "counted A V R n" "who \<in> A" "t \<in> A" "t \<noteq> who" "m \<le> C" "G (who, a) = None"
  defines "V' \<equiv> V((t, a) := with_dels (del_saturating_add (dels_of (V (t, a))) (conviction_votes c m)) (V (t, a)))"
  shows "ballots C A V' (G((who, a) := Some (t, m, c)))"
    "counted A V' (fold (retally tally_increase (conviction_votes c m)) (votes_of (V (t, a))) R) n"
proof -
  have fin: "finite A" using assms(1) by (simp add: electorate_def)
  let ?amt = "conviction_votes c m" and ?G = "G((who, a) := Some (t, m, c))" and ?d = "del_saturating_add (dels_of (V (t, a))) (conviction_votes c m)"
  have grants: "grants_ok C A ?G" using ballotsD(4) [OF assms(2)] assms(4-7) unfolding grants_ok_def by (auto split: if_splits)
  have new: "(\<Sum>y\<in>A. del_at b (granted t (?G (y, a)))) = del_at b (dels_of (V (t, a))) + del_at b ?amt" for b
    using granted_upd [OF fin assms(4), of b t G a "Some (t, m, c)" a] assms(8) by (simp add: ballotsD(5) [OF assms(2)])
  then have d: "del_at b ?d = del_at b (dels_of (V (t, a))) + del_at b ?amt" for b
    using granted_bounded [OF grants assms(1), of b t a] by (intro del_at_add) simp
  show B: "ballots C A V' ?G" unfolding V'_def
    by (rule ballots_regrant [OF assms(1,2,4,5) grants]) (simp add: assms(8), simp only: d new)
  have part: "del_part k v ?d = del_part k v (dels_of (V (t, a))) + del_part k v ?amt" for k v by (simp add: del_part_at d)
  show "counted A V' (fold (retally tally_increase ?amt) (votes_of (V (t, a))) R) n" unfolding V'_def
  proof (rule counted_retally [OF fin assms(2,3,5)])
    fix j st v k assume st: "R j = Some (Ongoing st)" "ref_asset st = a" and v: "map_of (votes_of (V (t, a))) j = Some v"
    have "tally_at k (ref_tally st) + del_part k v ?amt \<le> u128_max" for k
      using sum_upd_pair [OF fin assms(5), of "voting_part k j" V a "with_dels ?d (V (t, a))" a] ballots_bounded(1) [OF B assms(1), of k j a]
        countedD(4) [OF assms(3) st(1), of k] st(2) v part [of k v]
      by (simp add: V'_def voting_part_with_dels) (simp add: voting_part_def)
    then show "tally_at k (ref_tally (recount (\<lambda>b. tally_increase b ?amt) v st)) + del_part k v (dels_of (V (t, a))) = tally_at k (ref_tally st) + del_part k v ?d"
      using counted_in [of "ref_tally st" v ?amt k] by (simp add: recount_def part)
  qed
qed

text \<open>Undelegating: the grant is taken back.\<close>

lemma reduce_ok:
  assumes "electorate C A" "ballots C A V G" "counted A V R n" "G (who, a) = Some (t, m, c)"
  defines "V' \<equiv> V((t, a) := with_dels (del_saturating_sub (dels_of (V (t, a))) (conviction_votes c m)) (V (t, a)))"
  shows "ballots C A V' (G((who, a) := None))"
    "counted A V' (fold (retally tally_reduce (conviction_votes c m)) (votes_of (V (t, a))) R) n"
proof -
  have fin: "finite A" using assms(1) by (simp add: electorate_def)
  have acc: "who \<in> A" "t \<in> A" using grants_okD [OF ballotsD(4) [OF assms(2)] assms(4)] by auto
  let ?amt = "conviction_votes c m" and ?G = "G((who, a) := None)" and ?d = "del_saturating_sub (dels_of (V (t, a))) (conviction_votes c m)"
  have grants: "grants_ok C A ?G" using ballotsD(4) [OF assms(2)] unfolding grants_ok_def by (auto split: if_splits)
  have new: "(\<Sum>y\<in>A. del_at b (granted t (?G (y, a)))) + del_at b ?amt = del_at b (dels_of (V (t, a)))" for b
    using granted_upd [OF fin acc(1), of b t G a None a] assms(4) by (simp add: ballotsD(5) [OF assms(2)])
  then have d: "del_at b ?d + del_at b ?amt = del_at b (dels_of (V (t, a)))" for b unfolding del_at_sub using new [of b] by linarith
  show "ballots C A V' ?G" unfolding V'_def
  proof (rule ballots_regrant [OF assms(1,2) acc grants])
    show "del_at b ?d = (\<Sum>y\<in>A. del_at b (granted t (?G (y, a))))" for b using d [of b] new [of b] by simp
  qed (simp add: assms(4))
  have part: "del_part k v ?d + del_part k v ?amt = del_part k v (dels_of (V (t, a)))" for k v by (simp add: del_part_at d)
  show "counted A V' (fold (retally tally_reduce ?amt) (votes_of (V (t, a))) R) n" unfolding V'_def
  proof (rule counted_retally [OF fin assms(2,3) acc(2)])
    fix j st v k assume st: "R j = Some (Ongoing st)" "ref_asset st = a" and v: "map_of (votes_of (V (t, a))) j = Some v"
    have "del_part k v ?amt \<le> tally_at k (ref_tally st)" for k
      using part [of k v] v counted_member [OF assms(3) st(1) fin acc(2), of k] st(2) by (simp add: voting_part_def)
    then show "tally_at k (ref_tally (recount (\<lambda>b. tally_reduce b ?amt) v st)) + del_part k v (dels_of (V (t, a))) = tally_at k (ref_tally st) + del_part k v ?d"
      using counted_out [of v ?amt "ref_tally st" k] part [of k v] by (simp add: recount_def)
  qed
qed

end
