(* ===== verification/Democracy_Properties.thy ===== *)
theory Democracy_Properties
  imports Democracy_Tally
begin

text \<open>
  The operations that change votes keep the count: after voting, taking a vote back, delegating and
  undelegating, the tallies are what the votes and delegations of that moment amount to.
\<close>

section \<open>Voting keeps the count\<close>

definition dem_ok :: "nat \<Rightarrow> account_id set \<Rightarrow> ('n, 'c, 'k) democracy \<Rightarrow> bool" where
  "dem_ok C A s \<longleftrightarrow> ballots C A (VotingOf s) (\<lambda>xa. grant_of (VotingOf s xa)) \<and> counted A (VotingOf s) (ReferendumInfoOf s) (ReferendumCount s)"

lemma grants_upd: "grant_of w = grant_of (V xa) \<Longrightarrow> (\<lambda>ya. grant_of ((V(xa := w)) ya)) = (\<lambda>ya. grant_of (V ya))"
  by auto

lemma cast_vote_keeps: "keeps (cast_vote mx i v st vs)"
  by (auto simp: keeps_def cast_vote_def call_eval split: voting.split sum.split option.split prod.split)

lemma insert_at_split: "insert_at j x xs = Some ys \<Longrightarrow> ys = take j xs @ x # drop j xs"
  by (auto simp: insert_at_def split: if_splits)

lemma cast_vote_structure:
  assumes "cast_vote mx i v st vs s = (Inr (st', vs'), t)" "keys_sorted (votes_of vs)"
  obtains votes d p votes' where "vs = DirectVoting votes d p" "vs' = DirectVoting votes' d p" "keys_sorted votes'"
    "map_of votes' = (map_of votes)(i \<mapsto> v)" "snd ` set votes' \<subseteq> insert v (snd ` set votes)" "ref_proposal st' = ref_proposal st" "ref_end st' = ref_end st"
proof -
  obtain votes d p where vs: "vs = DirectVoting votes d p"
    using assms(1) by (cases vs) (auto simp: cast_vote_def fail_def)
  have sorted: "keys_sorted votes" using assms(2) vs by simp
  show thesis
  proof (cases "binary_search (map fst votes) i")
    case (Inl j)
    then have "vs' = DirectVoting (take j votes @ (i, v) # drop j votes) d p" "ref_proposal st' = ref_proposal st" "ref_end st' = ref_end st"
      using assms(1) by (auto simp: cast_vote_def vs ok_simps dest: insert_at_split)
    moreover have "set (take j votes @ (i, v) # drop j votes) \<subseteq> insert (i, v) (set votes)"
      by (auto dest: in_set_takeD in_set_dropD)
    ultimately show thesis using that [OF vs _ key_missing(3,4) [OF sorted Inl]] by force
  next
    case (Inr j)
    note key = key_found [OF sorted Inr]
    have "vs' = DirectVoting (votes[j := (i, v)]) d p" "ref_proposal st' = ref_proposal st" "ref_end st' = ref_end st"
      using assms(1) Inr by (auto simp: cast_vote_def vs ok_simps)
    then show thesis using that [OF vs _ key_replaced(1,2) [OF sorted key(1,2)]] key_replaced(3) [OF sorted key(1,2), of v] by force
  qed
qed

lemma cast_vote_tally:
  assumes "cast_vote mx i v st (DirectVoting votes d p) s = (Inr (st', vs'), t)" "keys_sorted votes"
    and old: "\<And>k. voting_part k i (DirectVoting votes d p) \<le> tally_at k (ref_tally st)"
    and new: "\<And>k. tally_at k (ref_tally st) + vote_part k v + del_part k v d \<le> u128_max + voting_part k i (DirectVoting votes d p)"
  shows "tally_at k (ref_tally st') + voting_part k i (DirectVoting votes d p) = tally_at k (ref_tally st) + vote_part k v + del_part k v d"
proof -
  obtain t1 t2 where t1: "\<And>k. tally_at k t1 + voting_part k i (DirectVoting votes d p) = tally_at k (ref_tally st)"
    and t2: "tally_add v t1 = Some t2" and st': "ref_tally st' = (case as_standard v of None \<Rightarrow> t2 | Some b \<Rightarrow> tally_increase b d t2)"
  proof (cases "binary_search (map fst votes) i")
    case (Inl j)
    show thesis
      by (rule that [of "ref_tally st" "the (tally_add v (ref_tally st))"])
        (use assms(1) Inl key_missing(2) [OF assms(2) Inl] in \<open>auto simp: cast_vote_def ok_simps voting_part_def split: option.split\<close>)
  next
    case (Inr j)
    let ?v = "snd (votes ! j)"
    have part: "voting_part k i (DirectVoting votes d p) = vote_part k ?v + del_part k ?v d" for k
      using key_found(3) [OF assms(2) Inr] by (simp add: voting_part_def)
    obtain t0 t2 where t0: "tally_remove ?v (ref_tally st) = Some t0"
      "tally_add v (case as_standard ?v of None \<Rightarrow> t0 | Some b \<Rightarrow> tally_reduce b d t0) = Some t2"
      "ref_tally st' = (case as_standard v of None \<Rightarrow> t2 | Some b \<Rightarrow> tally_increase b d t2)"
      using assms(1) Inr by (auto simp: cast_vote_def ok_simps)
    have "del_part k ?v d \<le> tally_at k t0" for k using old [of k] tally_remove_part [OF t0(1), of k] part [of k] by simp
    then have out: "tally_at k (case as_standard ?v of None \<Rightarrow> t0 | Some b \<Rightarrow> tally_reduce b d t0) + del_part k ?v d = tally_at k t0" for k
      by (rule counted_out)
    show thesis
    proof (rule that [of "case as_standard ?v of None \<Rightarrow> t0 | Some b \<Rightarrow> tally_reduce b d t0"])
      show "tally_at k (case as_standard ?v of None \<Rightarrow> t0 | Some b \<Rightarrow> tally_reduce b d t0) + voting_part k i (DirectVoting votes d p)
        = tally_at k (ref_tally st)" for k
        using out [of k] tally_remove_part [OF t0(1), of k] part [of k] by simp
    qed (use t0 in auto)
  qed
  have add: "tally_at k t2 = tally_at k t1 + vote_part k v" for k by (rule tally_add_part [OF t2])
  have "tally_at k t2 + del_part k v d \<le> u128_max" for k using add [of k] t1 [of k] new [of k] by linarith
  then have "tally_at k (ref_tally st') = tally_at k t2 + del_part k v d" unfolding st' by (rule counted_in)
  then show ?thesis using add [of k] t1 [of k] by linarith
qed

text \<open>
  The currency takes a lock of \<open>n\<close> on the account. The code stores a vote, and counts a delegation, before it asks for the
  lock, and it does not undo them when the lock is refused.
\<close>

definition lock_accepted :: "('n, 'c, 'k, 'p) democracy_config \<Rightarrow> asset_id \<Rightarrow> account_id \<Rightarrow> balance \<Rightarrow> ('n, 'c, 'k) democracy \<Rightarrow> bool" where
  "lock_accepted cfg a who n s \<longleftrightarrow> (case l_extend_lock (DCurrency cfg) DEMOCRACY_ID a who n (democracy_currency s) of (Inr _, _) \<Rightarrow> True | (Inl _, _) \<Rightarrow> False)"

lemma lock_acceptedE:
  assumes "lock_accepted cfg a who n s"
  obtains c' where "l_extend_lock (DCurrency cfg) DEMOCRACY_ID a who n (democracy_currency s) = (Inr (), c')"
  using assms unfolding lock_accepted_def by (auto split: prod.splits sum.splits)

lemma referendum_status_of_eq:
  "referendum_status_of i s = (case ReferendumInfoOf s i of Some (Ongoing st) \<Rightarrow> (Inr st, s) | _ \<Rightarrow> (Inl (DemocracyErr ReferendumInvalid), s))"
  by (simp add: referendum_status_of_def ensure_ongoing_def call_eval split: option.split referendum_info.split)

lemma try_vote_result:
  obtains (none) "snd (try_vote cfg who i v s) = s"
  | (unlocked) st vs' c' where "ReferendumInfoOf s i = Some (Ongoing st)" "\<not> lock_accepted cfg (ref_asset st) who (vote_balance v) s"
      "snd (try_vote cfg who i v s) = s\<lparr>VotingOf := (VotingOf s)((who, ref_asset st) := vs'), democracy_currency := c'\<rparr>"
  | (cast) st st' vs' c' where "ReferendumInfoOf s i = Some (Ongoing st)"
      "vote_balance v \<le> l_free_balance (DCurrency cfg) (ref_asset st) who (democracy_currency s)"
      "cast_vote (MaxVotes cfg) i v st (VotingOf s (who, ref_asset st)) s = (Inr (st', vs'), s)"
      "snd (try_vote cfg who i v s) = s\<lparr>VotingOf := (VotingOf s)((who, ref_asset st) := vs'), democracy_currency := c',
         ReferendumInfoOf := (ReferendumInfoOf s)(i \<mapsto> Ongoing st')\<rparr>"
      "l_extend_lock (DCurrency cfg) DEMOCRACY_ID (ref_asset st) who (vote_balance v) (democracy_currency s) = (Inr (), c')"
proof (cases "\<exists>st. ReferendumInfoOf s i = Some (Ongoing st) \<and> vote_balance v \<le> l_free_balance (DCurrency cfg) (ref_asset st) who (democracy_currency s)")
  case True
  then obtain st where st: "ReferendumInfoOf s i = Some (Ongoing st)"
    "vote_balance v \<le> l_free_balance (DCurrency cfg) (ref_asset st) who (democracy_currency s)" by blast
  obtain r where r: "cast_vote (MaxVotes cfg) i v st (VotingOf s (who, ref_asset st)) s = (r, s)"
    using keepsD [OF cast_vote_keeps] by (metis surj_pair)
  obtain q c' where q: "l_extend_lock (DCurrency cfg) DEMOCRACY_ID (ref_asset st) who (vote_balance v) (democracy_currency s) = (q, c')"
    by (metis surj_pair)
  note eval = try_vote_def referendum_status_of_eq ref_asset_def on_dem_currency_def Let_def call_eval
  show thesis
  proof (cases q)
    case (Inl e)
    then have "\<not> lock_accepted cfg (ref_asset st) who (vote_balance v) s" using q by (simp add: lock_accepted_def)
    then show thesis using st r q Inl none unlocked [OF st(1)] by (cases r) (auto simp: eval)
  qed (use st r q none cast in \<open>cases r; auto simp: eval\<close>)
next
  case False
  then show thesis using none
    by (auto simp: try_vote_def referendum_status_of_eq ref_asset_def Let_def call_eval split: option.splits referendum_info.splits)
qed

lemma vote_balance_part:
  assumes "electorate C A" "who \<in> A" "vote_balance v \<le> C"
  shows "vote_part TurnoutPart v \<le> C"
proof -
  have "0 < card A" using assms(1,2) by (auto simp: electorate_def card_gt_0_iff)
  then have "12 * C \<le> u128_max" using assms(1) by (simp add: electorate_def) (metis (no_types) mult.right_neutral mult_le_mono2 Suc_leI One_nat_def order_trans)
  then have "C < u128_max" by (cases "C = 0") (auto simp: u128_max_def)
  then show ?thesis using assms(3) by (cases v) (auto simp: vote_balance_def saturating_add_def min_def split: if_splits)
qed

lemma try_vote_ok:
  assumes "electorate C A" "dem_ok C A s" "who \<in> A" "\<And>a. l_free_balance (DCurrency cfg) a who (democracy_currency s) \<le> C"
    and lock: "\<And>st. ReferendumInfoOf s i = Some (Ongoing st) \<Longrightarrow> lock_accepted cfg (ref_asset st) who (vote_balance v) s"
  shows "dem_ok C A (snd (try_vote cfg who i v s))"
proof (cases rule: try_vote_result [of cfg who i v s])
  case (cast st st' vs' c')
  let ?a = "ref_asset st"
  have fin: "finite A" using assms(1) by (simp add: electorate_def)
  have B: "ballots C A (VotingOf s) (\<lambda>xa. grant_of (VotingOf s xa))"
    and N: "counted A (VotingOf s) (ReferendumInfoOf s) (ReferendumCount s)" using assms(2) by (auto simp: dem_ok_def)
  obtain votes d p votes' where vs: "VotingOf s (who, ?a) = DirectVoting votes d p" "vs' = DirectVoting votes' d p"
    and sorted: "keys_sorted votes'" and upd: "map_of votes' = (map_of votes)(i \<mapsto> v)"
    and sub: "snd ` set votes' \<subseteq> insert v (snd ` set votes)" and same: "ref_proposal st' = ref_proposal st"
    by (rule cast_vote_structure [OF cast(3) ballotsD(1) [OF B]])
  have "vote_part TurnoutPart v \<le> C" using vote_balance_part [OF assms(1,3)] cast(2) assms(4) order_trans by blast
  then have small: "w \<in> snd ` set (votes_of vs') \<Longrightarrow> vote_part TurnoutPart w \<le> C" for w
    using sub ballotsD(2) [OF B, of w "(who, ?a)"] vs by auto
  have B': "ballots C A ((VotingOf s)((who, ?a) := vs')) (\<lambda>xa. grant_of (VotingOf s xa))"
    by (rule ballots_upd [OF B assms(3) _ small]) (use sorted vs in simp_all)
  have part': "voting_part k i vs' = vote_part k v + del_part k v d" for k using upd by (simp add: voting_part_def vs)
  have sum: "tally_at k (ref_tally st) = (\<Sum>x\<in>A. voting_part k i (VotingOf s (x, ?a)))" for k by (rule countedD(4) [OF N cast(1)])
  have "voting_part k i (VotingOf s (who, ?a)) \<le> tally_at k (ref_tally st)" for k
    by (rule counted_member [OF N cast(1) fin assms(3)])
  moreover have "tally_at k (ref_tally st) + vote_part k v + del_part k v d \<le> u128_max + voting_part k i (VotingOf s (who, ?a))" for k
    using sum_upd_pair [OF fin assms(3), of "voting_part k i" "VotingOf s" ?a vs' ?a] ballots_bounded(1) [OF B' assms(1), of k i ?a] by (simp add: part' sum)
  ultimately have tally: "tally_at k (ref_tally st') + voting_part k i (VotingOf s (who, ?a)) = tally_at k (ref_tally st) + voting_part k i vs'" for k
    using cast_vote_tally [of "MaxVotes cfg" i v st votes d p s st' vs' s k] cast(3) ballotsD(1) [OF B, of "(who, ?a)"] part' [of k]
    by (simp add: vs)
  have keys: "fst ` set votes' = insert i (fst ` set votes)" using upd by (metis dom_fun_upd dom_map_of_conv_image_fst option.distinct(1))
  have "counted A ((VotingOf s)((who, ?a) := vs')) ((ReferendumInfoOf s)(i \<mapsto> Ongoing st')) (ReferendumCount s)"
  proof (rule counted_upd [OF fin N assms(3)])
    show "j < ReferendumCount s \<and> (ReferendumInfoOf s j = Some (Ongoing x) \<longrightarrow> ref_asset x = ?a)" if "j \<in> fst ` set (votes_of vs')" for j x
      using that keys cast(1) countedD(1,3) [OF N, of j who ?a] countedD(2) [OF N, of i] by (auto simp: vs)
    show "\<exists>st. ReferendumInfoOf s j = Some (Ongoing st) \<and> ref_proposal x = ref_proposal st \<and>
      (\<forall>k. tally_at k (ref_tally x) + voting_part k j (VotingOf s (who, ?a)) = tally_at k (ref_tally st) + voting_part k j vs')"
      if "((ReferendumInfoOf s)(i \<mapsto> Ongoing st')) j = Some (Ongoing x)" for j x
      using that cast(1) tally same upd by (cases "j = i") (auto simp: voting_part_def vs split: option.split)
  qed (use cast(1) in \<open>auto split: if_splits\<close>)
  then show ?thesis using B' cast(4) grants_upd [of vs' "VotingOf s" "(who, ?a)"] vs by (simp add: dem_ok_def)
qed (use assms(2) lock in auto)

section \<open>Taking a vote back keeps the count\<close>

definition vote_uncounted :: "account_vote \<Rightarrow> delegations \<Rightarrow> referendum_status \<Rightarrow> referendum_status \<Rightarrow> bool" where
  "vote_uncounted v d st st' \<longleftrightarrow> (\<exists>t. tally_remove v (ref_tally st) = Some t \<and>
     st' = st\<lparr>ref_tally := (case as_standard v of None \<Rightarrow> t | Some b \<Rightarrow> tally_reduce b d t)\<rparr>)"

lemma try_remove_vote_result:
  obtains (none) "snd (try_remove_vote cfg who a i scope s) = s"
  | (removed) votes d p j p' R' where "VotingOf s (who, a) = DirectVoting votes d p" "binary_search (map fst votes) i = Inr j"
      "snd (try_remove_vote cfg who a i scope s) =
         s\<lparr>VotingOf := (VotingOf s)((who, a) := DirectVoting (take j votes @ drop (j + 1) votes) d p'), ReferendumInfoOf := R'\<rparr>"
      "(\<exists>st st'. ReferendumInfoOf s i = Some (Ongoing st) \<and> vote_uncounted (snd (votes ! j)) d st st' \<and> R' = (ReferendumInfoOf s)(i \<mapsto> Ongoing st'))
       \<or> (\<forall>st. ReferendumInfoOf s i \<noteq> Some (Ongoing st)) \<and> R' = ReferendumInfoOf s"
proof (cases "VotingOf s (who, a)")
  case (Delegating n t c d p)
  then have "snd (try_remove_vote cfg who a i scope s) = s"
    by (simp add: try_remove_vote_def withdraw_vote_def call_eval fun_upd_idem)
  then show thesis by (rule none)
next
  case vs: (DirectVoting votes d p)
  show thesis
  proof (cases "binary_search (map fst votes) i")
    case (Inl j)
    then show thesis using none by (simp add: try_remove_vote_def withdraw_vote_def vs call_eval)
  next
    case (Inr j)
    note eval = try_remove_vote_def withdraw_vote_def vs Inr call_eval vote_uncounted_def Let_def
    show thesis
    proof (cases "snd (try_remove_vote cfg who a i scope s) = s")
      case False
      show thesis
      proof (cases "ReferendumInfoOf s i")
        case None
        then show thesis using removed [where p' = p and R' = "ReferendumInfoOf s", OF vs Inr] by (simp add: eval)
      next
        case (Some r)
        then show thesis
        proof (cases r)
          case (Ongoing st)
          then show thesis using False Some removed [where p' = p, OF vs Inr]
            by (auto simp: eval split: option.splits if_splits)
        next
          case (Finished b fin)
          then have "\<exists>p'. snd (try_remove_vote cfg who a i scope s) = s\<lparr>VotingOf := (VotingOf s)((who, a) :=
              DirectVoting (take j votes @ drop (j + 1) votes) d p'), ReferendumInfoOf := ReferendumInfoOf s\<rparr>"
            using False Some by (auto simp: eval simp del: split_paired_Ex split: option.splits if_splits prod.splits)
          then show thesis using removed [where R' = "ReferendumInfoOf s", OF vs Inr] Some Finished by (metis option.inject referendum_info.distinct(1))
        qed
      qed
    qed (rule none)
  qed
qed

lemma vote_uncounted_tally:
  assumes "vote_uncounted v d st st'" "\<And>k. vote_part k v + del_part k v d \<le> tally_at k (ref_tally st)"
  shows "tally_at k (ref_tally st') + (vote_part k v + del_part k v d) = tally_at k (ref_tally st)"
proof -
  obtain t where t: "tally_remove v (ref_tally st) = Some t"
    "ref_tally st' = (case as_standard v of None \<Rightarrow> t | Some b \<Rightarrow> tally_reduce b d t)"
    using assms(1) by (auto simp: vote_uncounted_def)
  have part: "tally_at k t + vote_part k v = tally_at k (ref_tally st)" for k by (rule tally_remove_part [OF t(1)])
  have "del_part k v d \<le> tally_at k t" for k using part [of k] assms(2) [of k] by linarith
  then have "tally_at k (ref_tally st') + del_part k v d = tally_at k t" unfolding t(2) by (rule counted_out)
  then show ?thesis using part [of k] by linarith
qed

lemma try_remove_vote_ok:
  assumes "electorate C A" "dem_ok C A s"
  shows "dem_ok C A (snd (try_remove_vote cfg who a i scope s))"
proof (cases rule: try_remove_vote_result [of cfg who a i scope s])
  case (removed votes d p j p' R')
  let ?vs = "DirectVoting (take j votes @ drop (j + 1) votes) d p'"
  have fin: "finite A" using assms(1) by (simp add: electorate_def)
  have B: "ballots C A (VotingOf s) (\<lambda>xa. grant_of (VotingOf s xa))"
    and N: "counted A (VotingOf s) (ReferendumInfoOf s) (ReferendumCount s)" using assms(2) by (auto simp: dem_ok_def)
  have sorted: "keys_sorted votes" using ballotsD(1) [OF B, of "(who, a)"] removed(1) by simp
  note key = key_found [OF sorted removed(2)]
  note rem = key_removed [OF sorted key(1,2)]
  have who: "who \<in> A" by (rule ccontr) (use ballotsD(3) [OF B, of who a] key(1) removed(1) in \<open>simp add: default_voting_def\<close>)
  have B': "ballots C A ((VotingOf s)((who, a) := ?vs)) (\<lambda>xa. grant_of (VotingOf s xa))"
    by (rule ballots_upd [OF B who]) (use rem ballotsD(2) [OF B, of _ "(who, a)"] removed(1) in auto)
  have old: "voting_part k i (VotingOf s (who, a)) = vote_part k (snd (votes ! j)) + del_part k (snd (votes ! j)) d" for k
    using key(3) removed(1) by (simp add: voting_part_def)
  have none: "voting_part k i ?vs = 0" for k unfolding voting_part_def using rem(2) by simp
  have other: "voting_part k l ?vs = voting_part k l (VotingOf s (who, a))" if "l \<noteq> i" for k l
    unfolding voting_part_def using rem(2) that removed(1) by (simp split: option.split)
  have mem: "i \<in> fst ` set (votes_of (VotingOf s (who, a)))" using key(1,2) removed(1) nth_mem by force
  have tally: "tally_at k (ref_tally st') + voting_part k i (VotingOf s (who, a)) = tally_at k (ref_tally st)"
    if st: "ReferendumInfoOf s i = Some (Ongoing st)" "vote_uncounted (snd (votes ! j)) d st st'" for st st' k
  proof -
    have "ref_asset st = a" by (rule countedD(3) [OF N mem st(1)])
    then have "voting_part k i (VotingOf s (who, a)) \<le> tally_at k (ref_tally st)" for k
      using counted_member [OF N st(1) fin who, of k] by simp
    then show ?thesis unfolding old by (rule vote_uncounted_tally [OF st(2)])
  qed
  have "counted A ((VotingOf s)((who, a) := ?vs)) R' (ReferendumCount s)"
  proof (rule counted_upd [OF fin N who])
    show "l < ReferendumCount s \<and> (ReferendumInfoOf s l = Some (Ongoing x) \<longrightarrow> ref_asset x = a)" if "l \<in> fst ` set (votes_of ?vs)" for l x
      using that rem(3) removed(1) countedD(1,3) [OF N, of l who a] by force
    show "ReferendumInfoOf s l \<noteq> None" if "R' l \<noteq> None" for l using that removed(4) by (auto split: if_splits)
    show "\<exists>st. ReferendumInfoOf s l = Some (Ongoing st) \<and> ref_proposal x = ref_proposal st \<and>
      (\<forall>k. tally_at k (ref_tally x) + voting_part k l (VotingOf s (who, a)) = tally_at k (ref_tally st) + voting_part k l ?vs)"
      if "R' l = Some (Ongoing x)" for l x
      using that removed(4) tally none other by (cases "l = i") (auto simp: vote_uncounted_def)
  qed
  then show ?thesis using B' removed(1,3) grants_upd [of ?vs "VotingOf s" "(who, a)"] by (simp add: dem_ok_def)
qed (use assms(2) in simp)

section \<open>Delegating keeps the count\<close>

text \<open>The same with the grants given apart from the ballots, for the states in the middle of a delegation.\<close>

definition granted_ok :: "nat \<Rightarrow> account_id set \<Rightarrow> (account_id \<times> asset_id \<Rightarrow> grant option) \<Rightarrow> ('n, 'c, 'k) democracy \<Rightarrow> bool" where
  "granted_ok C A G s \<longleftrightarrow> ballots C A (VotingOf s) G \<and> counted A (VotingOf s) (ReferendumInfoOf s) (ReferendumCount s)"

lemma dem_ok_granted: "dem_ok C A s \<longleftrightarrow> granted_ok C A (\<lambda>xa. grant_of (VotingOf s xa)) s"
  by (simp add: dem_ok_def granted_ok_def)

definition upstream ::
  "(bool \<Rightarrow> delegations \<Rightarrow> tally \<Rightarrow> tally) \<Rightarrow> (delegations \<Rightarrow> delegations \<Rightarrow> delegations) \<Rightarrow> account_id \<Rightarrow> asset_id \<Rightarrow> delegations \<Rightarrow>
     ('n, 'c, 'k) democracy \<Rightarrow> ('n, 'c, 'k) democracy" where
  "upstream f g t a amount s = s\<lparr>ReferendumInfoOf := fold (retally f amount) (votes_of (VotingOf s (t, a))) (ReferendumInfoOf s),
     VotingOf := (VotingOf s)((t, a) := with_dels (g (dels_of (VotingOf s (t, a))) amount) (VotingOf s (t, a)))\<rparr>"

lemma change_upstream_eq: "\<exists>n. change_upstream_delegation f g t a amount s = (Inr n, upstream f g t a amount s)"
  by (cases "VotingOf s (t, a)") (simp_all add: change_upstream_delegation_def upstream_def with_dels_def call_eval)

lemma upstream_increase:
  assumes "electorate C A" "granted_ok C A G s" "who \<in> A" "t \<in> A" "t \<noteq> who" "m \<le> C" "G (who, a) = None"
  shows "granted_ok C A (G((who, a) := Some (t, m, c))) (upstream tally_increase del_saturating_add t a (conviction_votes c m) s)"
proof -
  have "ballots C A (VotingOf s) G" "counted A (VotingOf s) (ReferendumInfoOf s) (ReferendumCount s)"
    using assms(2) by (simp_all add: granted_ok_def)
  note inc = increase_ok [where G = G and a = a and c = c, OF assms(1) this assms(3-7)]
  then show ?thesis by (simp add: granted_ok_def upstream_def)
qed

lemma upstream_reduce:
  assumes "electorate C A" "granted_ok C A G s" "G (who, a) = Some (t, m, c)"
  shows "granted_ok C A (G((who, a) := None)) (upstream tally_reduce del_saturating_sub t a (conviction_votes c m) s)"
proof -
  have "ballots C A (VotingOf s) G" "counted A (VotingOf s) (ReferendumInfoOf s) (ReferendumCount s)"
    using assms(2) by (simp_all add: granted_ok_def)
  note red = reduce_ok [where G = G and a = a, OF assms(1) this assms(3)]
  then show ?thesis by (simp add: granted_ok_def upstream_def)
qed

lemma granted_ok_grant:
  assumes "granted_ok C A G s" "G (who, a) = Some (t, m, c)"
  shows "who \<in> A" "t \<noteq> who"
  using grants_okD [where G = G, OF ballotsD(4) assms(2)] assms(1) by (auto simp: granted_ok_def)

lemma upstream_at [simp]: "y \<noteq> t \<Longrightarrow> VotingOf (upstream f g t a amount s) (y, b) = VotingOf s (y, b)"
  by (simp add: upstream_def)

lemma grant_of_upstream [simp]: "grant_of (VotingOf (upstream f g t a amount s) ya) = grant_of (VotingOf s ya)"
  by (simp add: upstream_def)

lemma settled:
  assumes "electorate C A" "granted_ok C A G s" "who \<in> A" "votes_of (VotingOf s (who, a)) = []" "votes_of w = []" "dels_of w = dels_of (VotingOf s (who, a))"
    and agree: "\<And>ya. G ya = grant_of (((VotingOf s)((who, a) := w)) ya)"
    and t: "VotingOf t = (VotingOf s)((who, a) := w)" "ReferendumInfoOf t = ReferendumInfoOf s" "ReferendumCount t = ReferendumCount s"
  shows "dem_ok C A t"
proof -
  have fin: "finite A" using assms(1) by (simp add: electorate_def)
  have B: "ballots C A (VotingOf s) G" and N: "counted A (VotingOf s) (ReferendumInfoOf s) (ReferendumCount s)"
    using assms(2) by (auto simp: granted_ok_def)
  have "ballots C A ((VotingOf s)((who, a) := w)) G" by (rule ballots_upd [OF B assms(3)]) (simp_all add: assms(5,6))
  moreover have "counted A ((VotingOf s)((who, a) := w)) (ReferendumInfoOf s) (ReferendumCount s)"
    by (rule counted_upd [OF fin N assms(3)]) (simp_all add: assms(4,5) voting_part_def)
  moreover have "G = (\<lambda>ya. grant_of (((VotingOf s)((who, a) := w)) ya))" using agree by (rule ext)
  ultimately show ?thesis by (simp add: dem_ok_def t)
qed

lemma try_undelegate_ok:
  assumes "electorate C A" "dem_ok C A s"
  shows "dem_ok C A (snd (try_undelegate cfg who a s))"
proof (cases "VotingOf s (who, a)")
  case (DirectVoting votes d p)
  then show ?thesis using assms(2) by (simp add: try_undelegate_def call_eval)
next
  case vs: (Delegating n t c d p)
  let ?u = "upstream tally_reduce del_saturating_sub t a (conviction_votes c n) s"
  obtain m where m: "reduce_upstream_delegation t a (conviction_votes c n) s = (Inr m, ?u)"
    using change_upstream_eq unfolding reduce_upstream_delegation_def by blast
  have ok: "granted_ok C A (\<lambda>xa. grant_of (VotingOf s xa)) s" using assms(2) by (simp add: dem_ok_granted)
  then have acc: "who \<in> A" "t \<noteq> who" using granted_ok_grant [OF ok, of who a t n c] vs by auto
  have red: "granted_ok C A ((\<lambda>xa. grant_of (VotingOf s xa))((who, a) := None)) ?u" using upstream_reduce [OF assms(1) ok] vs by simp
  show ?thesis
    by (rule settled [OF assms(1) red acc(1), of a "VotingOf (snd (try_undelegate cfg who a s)) (who, a)"])
      (use acc(2) in \<open>simp_all add: try_undelegate_def vs m set_common_def default_voting_def dem_event_def Let_def call_eval\<close>)
qed

text \<open>The state after an earlier delegation, if there is one, has been taken back.\<close>

definition withdrawn :: "account_id \<Rightarrow> asset_id \<Rightarrow> ('n, 'c, 'k) democracy \<Rightarrow> ('n, 'c, 'k) democracy" where
  "withdrawn who a s = (case grant_of (VotingOf s (who, a)) of None \<Rightarrow> s
     | Some (t, n, c) \<Rightarrow> upstream tally_reduce del_saturating_sub t a (conviction_votes c n) s)"

lemma withdrawn_fields:
  "democracy_currency (withdrawn who a s) = democracy_currency s" "democracy_events (withdrawn who a s) = democracy_events s"
  "grant_of (VotingOf (withdrawn who a s) ya) = grant_of (VotingOf s ya)"
  by (simp_all add: withdrawn_def split: option.split prod.split) (simp_all add: upstream_def)

lemma withdrawn_ok:
  assumes "electorate C A" "dem_ok C A s"
  shows "granted_ok C A ((\<lambda>xa. grant_of (VotingOf s xa))((who, a) := None)) (withdrawn who a s)"
    "VotingOf (withdrawn who a s) (who, a) = VotingOf s (who, a)"
proof -
  have ok: "granted_ok C A (\<lambda>xa. grant_of (VotingOf s xa)) s" using assms(2) by (simp add: dem_ok_granted)
  show "granted_ok C A ((\<lambda>xa. grant_of (VotingOf s xa))((who, a) := None)) (withdrawn who a s)"
    using upstream_reduce [OF assms(1) ok, of who a] ok
    by (cases "VotingOf s (who, a)") (simp_all add: withdrawn_def fun_upd_idem)
  show "VotingOf (withdrawn who a s) (who, a) = VotingOf s (who, a)"
    using granted_ok_grant [OF ok, of who a] by (cases "VotingOf s (who, a)") (auto simp: withdrawn_def)
qed

lemma try_delegate_result:
  fixes s :: "('n, 'c, 'k) democracy" and c :: conviction
  assumes "lock_accepted cfg a who n s" "who \<noteq> t" "n \<le> l_free_balance (DCurrency cfg) a who (democracy_currency s)" "votes_of (VotingOf s (who, a)) = []"
  defines "w \<equiv> upstream tally_increase del_saturating_add t a (conviction_votes c n) (withdrawn who a s)"
  obtains p c' where "snd (try_delegate cfg who t a c n s) = w\<lparr>democracy_currency := c',
      VotingOf := (VotingOf w)((who, a) := Delegating n t c (dels_of (VotingOf s (who, a))) p), democracy_events := democracy_events s @ [Delegated who t]\<rparr>"
proof -
  obtain m where m: "increase_upstream_delegation t a (conviction_votes c n) (withdrawn who a s) = (Inr m, w)"
    using change_upstream_eq unfolding increase_upstream_delegation_def w_def by blast
  have same: "democracy_currency w = democracy_currency s" "democracy_events w = democracy_events s"
    using withdrawn_fields [of who a s] by (simp_all add: w_def upstream_def)
  obtain c' where lock: "l_extend_lock (DCurrency cfg) DEMOCRACY_ID a who n (democracy_currency w) = (Inr (), c')"
    using lock_acceptedE [OF assms(1)] unfolding same(1) by blast
  show thesis
  proof (cases "VotingOf s (who, a)")
    case (DirectVoting votes d p)
    then have "withdrawn who a s = s" "votes = []" using assms(4) by (simp_all add: withdrawn_def)
    then show thesis using assms(2,3) m lock same DirectVoting
      by (intro that [of p c']) (simp add: try_delegate_def on_dem_currency_def set_common_def dem_event_def Let_def call_eval)
  next
    case (Delegating n0 t0 c0 d0 p0)
    then obtain k where "reduce_upstream_delegation t0 a (conviction_votes c0 n0) s = (Inr k, withdrawn who a s)"
      using change_upstream_eq unfolding reduce_upstream_delegation_def by (fastforce simp: withdrawn_def)
    then show thesis using assms(2,3) m lock same Delegating
      by (intro that [of p0 c']) (simp add: try_delegate_def on_dem_currency_def set_common_def dem_event_def Let_def call_eval)
  qed
qed

lemma try_delegate_ok:
  assumes "electorate C A" "dem_ok C A s" "who \<in> A" "t \<in> A" "\<And>a. l_free_balance (DCurrency cfg) a who (democracy_currency s) \<le> C"
    "lock_accepted cfg a who n s"
  shows "dem_ok C A (snd (try_delegate cfg who t a c n s))"
proof (cases "who \<noteq> t \<and> n \<le> l_free_balance (DCurrency cfg) a who (democracy_currency s) \<and> votes_of (VotingOf s (who, a)) = []")
  case go: True
  let ?w = "upstream tally_increase del_saturating_add t a (conviction_votes c n) (withdrawn who a s)"
  have n: "n \<le> C" using go assms(5) order_trans by blast
  obtain p c' where run: "snd (try_delegate cfg who t a c n s) = ?w\<lparr>democracy_currency := c',
      VotingOf := (VotingOf ?w)((who, a) := Delegating n t c (dels_of (VotingOf s (who, a))) p), democracy_events := democracy_events s @ [Delegated who t]\<rparr>"
    using try_delegate_result [where cfg = cfg and who = who and t = t and n = n and a = a and s = s and c = c, OF assms(6)] go by metis
  have G: "granted_ok C A ((\<lambda>xa. grant_of (VotingOf s xa))((who, a) := Some (t, n, c))) ?w"
    using upstream_increase [where a = a and c = c, OF assms(1) withdrawn_ok(1) [OF assms(1,2), of who a] assms(3,4) _ n] go by simp
  show ?thesis
    by (rule settled [OF assms(1) G assms(3), of a "Delegating n t c (dels_of (VotingOf s (who, a))) p"])
      (use go withdrawn_ok(2) [OF assms(1,2)] in \<open>simp_all add: run withdrawn_fields(3)\<close>)
next
  case False
  then show ?thesis using assms(2)
    by (cases "VotingOf s (who, a)") (auto simp: try_delegate_def Let_def call_eval)
qed

lemma update_lock_ok:
  assumes "electorate C A" "dem_ok C A s"
  shows "dem_ok C A (snd (update_lock cfg who a s))"
proof -
  let ?w = "voting_rejig (democracy_block s) (VotingOf s (who, a))"
  have fin: "finite A" using assms(1) by (simp add: electorate_def)
  have B: "ballots C A (VotingOf s) (\<lambda>xa. grant_of (VotingOf s xa))"
    and N: "counted A (VotingOf s) (ReferendumInfoOf s) (ReferendumCount s)" using assms(2) by (auto simp: dem_ok_def)
  have w: "votes_of ?w = votes_of (VotingOf s (who, a))" "dels_of ?w = dels_of (VotingOf s (who, a))" "grant_of ?w = grant_of (VotingOf s (who, a))"
    by (cases "VotingOf s (who, a)"; simp add: voting_rejig_def)+
  have t: "VotingOf (snd (update_lock cfg who a s)) = (VotingOf s)((who, a) := ?w)"
    "ReferendumInfoOf (snd (update_lock cfg who a s)) = ReferendumInfoOf s" "ReferendumCount (snd (update_lock cfg who a s)) = ReferendumCount s"
    by (auto simp: update_lock_def on_dem_currency_def call_eval split: prod.split)
  show ?thesis
  proof (cases "who \<in> A")
    case True
    have "ballots C A ((VotingOf s)((who, a) := ?w)) (\<lambda>xa. grant_of (VotingOf s xa))"
      by (rule ballots_upd [OF B True]) (use ballotsD(1,2) [OF B] w in simp_all)
    moreover have "counted A ((VotingOf s)((who, a) := ?w)) (ReferendumInfoOf s) (ReferendumCount s)"
      by (rule counted_upd [OF fin N True]) (use countedD(1,3) [OF N, of _ who a] w in \<open>auto simp: voting_part_def split: option.split\<close>)
    ultimately show ?thesis using grants_upd [of ?w "VotingOf s", OF w(3)] by (simp add: dem_ok_def t)
  next
    case False
    then have "?w = VotingOf s (who, a)" using ballotsD(3) [OF B] by (simp add: default_voting_def voting_rejig_def prior_rejig_def)
    then show ?thesis using assms(2) t by (simp add: dem_ok_def)
  qed
qed

end
