(* ===== verification/Frame_Rule.thy ===== *)
theory Frame_Rule
  imports Prelude
begin

text \<open>
  What a storage transaction leaves alone, whatever it returns: for a reflexive and transitive relation
  between states, the transactions whose final state is related to the first one. They are closed under the
  combinators of the prelude, so that a handler is within the relation if its writes are.
\<close>

locale frame_rule =
  fixes rel :: "'s \<Rightarrow> 's \<Rightarrow> bool"
  assumes rel_refl: "rel s s"
    and rel_trans: "rel s t \<Longrightarrow> rel t u \<Longrightarrow> rel s u"
begin

definition within :: "('s, 'a) call \<Rightarrow> bool" where
  "within m \<longleftrightarrow> (\<forall>s. rel s (snd (m s)))"

lemma withinD: "within m \<Longrightarrow> m s = (r, t) \<Longrightarrow> rel s t"
  by (metis snd_conv within_def)

lemma within_state: "within m \<Longrightarrow> rel s (snd (m s))"
  by (simp add: within_def)

lemma within_of_keeps: "keeps m \<Longrightarrow> within m"
  by (simp add: within_def keeps_def rel_refl)

lemma within_ret: "within (ret x)"
  by (rule within_of_keeps, intro keeps_intros)

lemma within_fail: "within (fail e)"
  by (rule within_of_keeps, intro keeps_intros)

lemma within_keeps:
  "within (ensure b e)" "within (reads f)" "within (ok_or v e)" "within (lift_result r)"
  "within (ensure_signed orig)" "within (ensure_root orig)" "within (ensure_origin p orig)"
  by (rule within_of_keeps, intro keeps_intros)+

lemma within_bindM:
  assumes "within m" "\<And>x. within (f x)"
  shows "within (bindM m f)"
  unfolding within_def
proof
  fix s
  obtain r t where m: "m s = (r, t)" by (cases "m s")
  then have "rel s t" by (rule withinD [OF assms(1)])
  then show "rel s (snd (bindM m f s))"
    using m rel_trans [OF _ within_state [OF assms(2)]] by (cases r) (simp_all add: bindM_def)
qed

lemma within_thenM: "within m \<Longrightarrow> within n \<Longrightarrow> within (thenM m n)"
  by (simp add: thenM_def within_bindM)

lemma within_transactional: "within m \<Longrightarrow> within (transactional m)"
  unfolding within_def transactional_def by (auto simp: rel_refl split: prod.splits sum.splits) (metis snd_conv)

lemma within_map_err: "within m \<Longrightarrow> within (map_err h m)"
  unfolding within_def map_err_def by (auto split: prod.splits sum.splits) (metis snd_conv)+

lemma within_discard: "within m \<Longrightarrow> within (discard_result m)"
  unfolding within_def discard_result_def by (auto split: prod.splits sum.splits dispatch_error.splits) (metis snd_conv)+

lemma within_modifies: "(\<And>s. rel s (f s)) \<Longrightarrow> within (modifies f)"
  by (simp add: within_def modifies_def)

lemma within_zoom: "(\<And>c s. rel s (wr c s)) \<Longrightarrow> within (zoom rd wr m)"
  by (auto simp: within_def zoom_def split: prod.split)

lemma within_option: "within m \<Longrightarrow> (\<And>x. within (f x)) \<Longrightarrow> within (case v of None \<Rightarrow> m | Some x \<Rightarrow> f x)"
  by (simp split: option.split)

lemma within_prod: "(\<And>x y. within (g x y)) \<Longrightarrow> within (case p of (x, y) \<Rightarrow> g x y)"
  by (simp split: prod.split)

lemma within_sum: "(\<And>x. within (f x)) \<Longrightarrow> (\<And>y. within (g y)) \<Longrightarrow> within (case r of Inl x \<Rightarrow> f x | Inr y \<Rightarrow> g y)"
  by (simp split: sum.split)

lemma within_if: "within m \<Longrightarrow> within n \<Longrightarrow> within (if b then m else n)"
  by simp

lemma within_try_mutate: "(\<And>v. within (f v)) \<Longrightarrow> (\<And>v s. rel s (wr v s)) \<Longrightarrow> within (try_mutate rd wr f)"
  unfolding try_mutate_def by (intro within_bindM within_prod within_thenM within_modifies within_ret within_keeps)

lemma within_for_each: "(\<And>x. within (f x)) \<Longrightarrow> within (for_each xs f)"
  by (induction xs) (simp_all add: within_ret within_thenM)

lemmas within_rules =
  within_ret within_fail within_keeps within_bindM within_thenM within_transactional within_map_err within_discard
  within_modifies within_option within_prod within_sum within_if within_try_mutate within_for_each

end

end
