(* ===== verification/Democracy_Runs.thy ===== *)
theory Democracy_Runs
  imports Democracy_Properties Frame_Rule
begin

text \<open>
  Histories of the democracy pallet: every call and every block, in any order, and what holds of the states
  they lead to.
\<close>

section \<open>What most calls leave alone\<close>

text \<open>Votes, counts and the block stay; referenda are cancelled or finished, but no ongoing one is started or changed.\<close>

definition dem_frame :: "('n, 'c, 'k) democracy \<Rightarrow> ('n, 'c, 'k) democracy \<Rightarrow> bool" where
  "dem_frame s t \<longleftrightarrow> VotingOf t = VotingOf s \<and> ReferendumCount t = ReferendumCount s \<and> LowestUnbaked t = LowestUnbaked s \<and>
     democracy_block t = democracy_block s \<and>
     (\<forall>i. ReferendumInfoOf t i \<noteq> None \<longrightarrow> ReferendumInfoOf s i \<noteq> None \<or> i < ReferendumCount s) \<and>
     (\<forall>i st. ReferendumInfoOf t i = Some (Ongoing st) \<longrightarrow> ReferendumInfoOf s i = Some (Ongoing st))"

interpretation df: frame_rule dem_frame
  by unfold_locales (simp add: dem_frame_def, unfold dem_frame_def, metis)

abbreviation tame :: "(('n, 'c, 'k) democracy, 'a) call \<Rightarrow> bool" where
  "tame m \<equiv> df.within m"

lemma tame_preimage: "(\<And>b. tame (k b)) \<Longrightarrow> (\<And>d x n i j. tame (k' d x n i j)) \<Longrightarrow> tame (case q of Missing b \<Rightarrow> k b | Available d x n i j \<Rightarrow> k' d x n i j)"
  by (simp split: preimage_status.split)

lemma tame_info: "(\<And>st. tame (l st)) \<Longrightarrow> (\<And>b n. tame (l' b n)) \<Longrightarrow> tame (case w of Ongoing st \<Rightarrow> l st | Finished b n \<Rightarrow> l' b n)"
  by (simp split: referendum_info.split)

named_theorems tame_intros "operations that start no referendum and change no vote"

declare df.within_rules [tame_intros] tame_preimage [tame_intros] tame_info [tame_intros]

lemma tame_writes [tame_intros]:
  "tame (on_dem_native m)" "tame (on_dem_currency m')" "tame (on_dem_schedule m'')" "tame (dem_event e)"
  unfolding on_dem_native_def on_dem_currency_def on_dem_schedule_def dem_event_def
  by (intro tame_intros df.within_zoom; simp add: dem_frame_def)+

text \<open>
  What the dispatch of a proposal is relied on for: it runs code of other pallets, or cancels referenda; it does not
  vote, delegate or start referenda.
\<close>

definition dispatch_tame :: "('n, 'c, 'k, 'p) democracy_config \<Rightarrow> bool" where
  "dispatch_tame cfg \<longleftrightarrow> (\<forall>p orig. tame (DDispatch cfg p orig))"

lemma tame_dispatch [tame_intros]:
  "dispatch_tame cfg \<Longrightarrow> tame (\<lambda>s. case DDispatch cfg p orig s of (Inl (Panic e), t) \<Rightarrow> (Inl (Panic e), t) | (res, t) \<Rightarrow> (Inr res, t))"
  unfolding dispatch_tame_def df.within_def by (auto split: prod.splits sum.splits dispatch_error.splits) (metis snd_conv)+

lemma tame_cancel [tame_intros]: "tame (internal_cancel_referendum i)"
  unfolding internal_cancel_referendum_def by (intro tame_intros) (simp add: dem_frame_def)

lemma tame_helpers [tame_intros]:
  "tame (referendum_status_of i)" "tame (check_pre_image_is_missing p)" "tame (pre_image_data_len p)" "tame (check_blacklist p)"
  "tame (note_preimage_inner cfg who bs a)" "tame (note_imminent_preimage_inner cfg who bs a)" "tame (slash_deposits cfg j)"
  unfolding referendum_status_of_def ensure_ongoing_def check_pre_image_is_missing_def pre_image_data_len_def check_blacklist_def
    note_preimage_inner_def note_imminent_preimage_inner_def slash_deposits_def Let_def
  by (intro tame_intros; simp add: dem_frame_def)+

lemma tame_enact [tame_intros]: "dispatch_tame cfg \<Longrightarrow> tame (do_enact_proposal cfg p i)"
  unfolding do_enact_proposal_def by (intro tame_intros; simp add: dem_frame_def)

lemma tame_bake [tame_intros]: "dispatch_tame cfg \<Longrightarrow> tame (bake_referendum cfg now i st)"
  unfolding bake_referendum_def Let_def by (intro tame_intros; simp add: dem_frame_def)

section \<open>Starting a referendum\<close>

definition injected ::
  "block_number \<Rightarrow> proposal_id \<Rightarrow> vote_threshold \<Rightarrow> block_number \<Rightarrow> ('n, 'c, 'k) democracy \<Rightarrow> ('n, 'c, 'k) democracy" where
  "injected fin p th d u = u\<lparr>ReferendumCount := wrapping_add u32_max (ReferendumCount u) 1,
     ReferendumInfoOf := (ReferendumInfoOf u)(ReferendumCount u \<mapsto> referendum_new fin p th d)\<rparr>"

definition launched :: "block_number \<Rightarrow> ('n, 'c, 'k) democracy \<Rightarrow> ('n, 'c, 'k) democracy \<Rightarrow> bool" where
  "launched fin s t \<longleftrightarrow> dem_frame s t \<or> (\<exists>u p th d. dem_frame s u \<and> dem_frame (injected fin p th d u) t)"

definition launches :: "block_number \<Rightarrow> (('n, 'c, 'k) democracy, 'a) call \<Rightarrow> bool" where
  "launches fin m \<longleftrightarrow> (\<forall>s e t. m s = (Inl e, t) \<longrightarrow> dem_frame s t) \<and> (\<forall>s x t. m s = (Inr x, t) \<longrightarrow> launched fin s t)"

lemma launched_after: "dem_frame s t \<Longrightarrow> launched fin t u \<Longrightarrow> launched fin s u"
  unfolding launched_def by (meson df.rel_trans)

lemma launchesD:
  assumes "launches fin m"
  shows "m s = (Inl e, t) \<Longrightarrow> dem_frame s t" "m s = (Inr x, t) \<Longrightarrow> launched fin s t"
  using assms unfolding launches_def by blast+

lemma launches_tame: "tame m \<Longrightarrow> launches fin m"
  unfolding launches_def launched_def by (auto dest: df.withinD)

lemma launches_bindM:
  assumes "tame m" "\<And>x. launches fin (f x)"
  shows "launches fin (bindM m f)"
  unfolding launches_def bindM_def
  using df.withinD [OF assms(1)] launchesD [OF assms(2)] by (fastforce split: prod.splits sum.splits intro: df.rel_trans launched_after)

lemma launches_thenM: "tame m \<Longrightarrow> launches fin n \<Longrightarrow> launches fin (thenM m n)"
  by (simp add: thenM_def launches_bindM)

lemma launches_inject: "launches fin (thenM (inject_referendum fin p th d) (ret ()) :: (('n, 'c, 'k) democracy, unit) call)"
proof -
  have "thenM (inject_referendum fin p th d) (ret ()) s = (Inr (), injected fin p th d s\<lparr>democracy_events := democracy_events s @ [Started (ReferendumCount s) th]\<rparr>)"
    for s :: "('n, 'c, 'k) democracy"
    by (simp add: inject_referendum_def dem_event_def injected_def call_eval)
  moreover have "launched fin s (injected fin p th d s\<lparr>democracy_events := es\<rparr>)" for s :: "('n, 'c, 'k) democracy" and es
  proof -
    have "dem_frame (injected fin p th d s) (injected fin p th d s\<lparr>democracy_events := es\<rparr>)" by (simp add: dem_frame_def)
    then show ?thesis unfolding launched_def using df.rel_refl by blast
  qed
  ultimately show ?thesis by (simp add: launches_def)
qed

lemma launches_cases:
  "launches fin m \<Longrightarrow> (\<And>x. launches fin (f x)) \<Longrightarrow> launches fin (case v of None \<Rightarrow> m | Some x \<Rightarrow> f x)"
  "(\<And>x y. launches fin (g x y)) \<Longrightarrow> launches fin (case p of (x, y) \<Rightarrow> g x y)"
  "launches fin m \<Longrightarrow> launches fin n \<Longrightarrow> launches fin (if b then m else n)"
  by (auto split: option.split prod.split)

lemma launches_map_err: "launches fin m \<Longrightarrow> launches fin (map_err h m)"
  unfolding map_err_def by (auto simp: launches_def split: prod.splits sum.splits)

lemma launches_or_else:
  assumes "launches fin m" "launches fin n"
  shows "launches fin (or_else m n)"
proof -
  have "(r = Inl e \<longrightarrow> dem_frame s t) \<and> (r = Inr x \<longrightarrow> launched fin s t)" if "or_else m n s = (r, t)" for s r t e x
  proof (cases "m s")
    case (Pair q u)
    show ?thesis
    proof (cases q)
      case (Inl e')
      then have "dem_frame s u" using launchesD(1) [OF assms(1)] Pair by blast
      then show ?thesis using that Pair Inl launchesD [OF assms(2)]
        by (auto simp: or_else_def split: dispatch_error.splits intro: df.rel_trans launched_after)
    qed (use that Pair launchesD(2) [OF assms(1)] in \<open>auto simp: or_else_def\<close>)
  qed
  then show ?thesis unfolding launches_def by blast
qed

lemmas launch_intros = launches_bindM launches_thenM launches_cases launches_map_err launches_or_else launches_inject
  launches_tame [OF df.within_ret] launches_tame [OF df.within_fail] tame_intros

lemma launches_next: "launches (wrapping_add u32_max now (VotingPeriod cfg)) (launch_next cfg now)"
proof -
  have ext: "launches (wrapping_add u32_max now (VotingPeriod cfg)) (launch_external cfg now)"
    unfolding launch_external_def
    by (intro launch_intros; simp add: dem_frame_def)
  have pub: "launches (wrapping_add u32_max now (VotingPeriod cfg)) (launch_public cfg now)"
    unfolding launch_public_def
    by (intro launch_intros; simp add: dem_frame_def)
  show ?thesis unfolding launch_next_def
    by (intro launch_intros ext pub; simp add: dem_frame_def)
qed

lemma launched_discard:
  assumes "launches fin m" "discard_result m s = (Inr (), t)"
  shows "launched fin s t"
proof -
  obtain r u where m: "m s = (r, u)" by (cases "m s")
  then have "t = u" using assms(2) by (auto simp: discard_result_def split: sum.splits dispatch_error.splits)
  moreover have "launched fin s u" using launchesD [OF assms(1), of s] m by (cases r) (auto simp: launched_def)
  ultimately show ?thesis by simp
qed

lemma fast_track_launched: "launched (wrapping_add u32_max (democracy_block s) vp) s (snd (fast_track cfg orig h a vp d s))"
proof (cases "NextExternal s")
  case (Some ep)
  obtain e th where ep: "ep = (e, th)" by (cases ep)
  let ?u = "s\<lparr>NextExternal := None\<rparr>" and ?p = "\<lparr>proposal_hash = h, proposal_asset = a\<rparr>"
  have "dem_frame s ?u" by (simp add: dem_frame_def)
  moreover have "snd (fast_track cfg orig h a vp d s) = s \<or>
    dem_frame (injected (wrapping_add u32_max (democracy_block s) vp) ?p th d ?u) (snd (fast_track cfg orig h a vp d s))"
    by (auto simp: fast_track_def Some ep Let_def inject_referendum_def dem_event_def injected_def dem_frame_def call_eval)
  ultimately show ?thesis unfolding launched_def by (metis df.rel_refl)
qed (auto simp: fast_track_def Let_def call_eval launched_def df.rel_refl)

section \<open>The invariants under the steps\<close>

lemma wrapping_succ: "n < u32_max \<Longrightarrow> wrapping_add u32_max n (Suc 0) = Suc n"
  by (simp add: wrapping_add_def)

lemma dem_ok_frame: "dem_ok C A s \<Longrightarrow> dem_frame s t \<Longrightarrow> dem_ok C A t"
  unfolding dem_ok_def counted_def dem_frame_def by metis

lemma dem_ok_injected:
  assumes "dem_ok C A u" "ReferendumCount u < u32_max"
  shows "dem_ok C A (injected fin p th d u)"
proof -
  let ?n = "ReferendumCount u"
  have N: "counted A (VotingOf u) (ReferendumInfoOf u) ?n" using assms(1) by (simp add: dem_ok_def)
  have fresh: "?n \<notin> fst ` set (votes_of (VotingOf u (x, a)))" for x a using countedD(1) [OF N, of ?n x a] by blast
  have "voting_part k ?n (VotingOf u (x, a)) = 0" for k x a using fresh by (rule voting_part_none)
  moreover have "tally_at k default_tally = 0" for k by (cases k) (simp_all add: default_tally_def)
  ultimately have "counted A (VotingOf u) ((ReferendumInfoOf u)(?n \<mapsto> referendum_new fin p th d)) (Suc ?n)"
    using N fresh unfolding counted_def by (auto simp: referendum_new_def less_Suc_eq image_iff)
  then show ?thesis using assms by (simp add: dem_ok_def injected_def wrapping_succ)
qed

lemma dem_ok_launched: "dem_ok C A s \<Longrightarrow> ReferendumCount s < u32_max \<Longrightarrow> launched fin s t \<Longrightarrow> dem_ok C A t"
  unfolding launched_def by (metis dem_frame_def dem_ok_frame dem_ok_injected)

text \<open>
  No ongoing referendum has an end that has been reached, and none lies below the mark from which maturing ones are looked
  for. The exceptions \<open>Z\<close> are referenda that were given no time to vote.
\<close>

definition timely :: "referendum_index set \<Rightarrow> block_number \<Rightarrow> ('n, 'c, 'k) democracy \<Rightarrow> bool" where
  "timely Z now s \<longleftrightarrow> LowestUnbaked s \<le> ReferendumCount s \<and>
     (\<forall>i st. ReferendumInfoOf s i = Some (Ongoing st) \<longrightarrow> LowestUnbaked s \<le> i \<and> i < ReferendumCount s \<and> (i \<in> Z \<or> now < ref_end st))"

definition ends_frame :: "('n, 'c, 'k) democracy \<Rightarrow> ('n, 'c, 'k) democracy \<Rightarrow> bool" where
  "ends_frame s t \<longleftrightarrow> ReferendumCount t = ReferendumCount s \<and> LowestUnbaked t = LowestUnbaked s \<and> democracy_block t = democracy_block s \<and>
     (\<forall>i st. ReferendumInfoOf t i = Some (Ongoing st) \<longrightarrow> (\<exists>st0. ReferendumInfoOf s i = Some (Ongoing st0) \<and> ref_end st0 = ref_end st))"

interpretation ef: frame_rule ends_frame
  by unfold_locales (simp add: ends_frame_def, unfold ends_frame_def, metis)

lemma timely_ends: "timely Z now s \<Longrightarrow> ends_frame s t \<Longrightarrow> timely Z now t"
  unfolding timely_def ends_frame_def by metis

lemma timely_mono: "timely Z now s \<Longrightarrow> Z \<subseteq> Z' \<Longrightarrow> timely Z' now s"
  unfolding timely_def by blast

lemma ends_of_frame: "dem_frame s t \<Longrightarrow> ends_frame s t"
  unfolding dem_frame_def ends_frame_def by blast

lemma timely_injected:
  "timely Z now u \<Longrightarrow> ReferendumCount u < u32_max \<Longrightarrow> ReferendumCount u \<in> Z \<or> now < fin \<Longrightarrow> timely Z now (injected fin p th d u)"
  unfolding timely_def by (auto simp: injected_def referendum_new_def wrapping_succ less_Suc_eq)

lemma timely_launched:
  "timely Z now s \<Longrightarrow> ReferendumCount s < u32_max \<Longrightarrow> ReferendumCount s \<in> Z \<or> now < fin \<Longrightarrow> launched fin s t \<Longrightarrow> timely Z now t"
  unfolding launched_def by (metis dem_frame_def ends_of_frame timely_ends timely_injected)

lemma retally_ends:
  "fold (retally f amount) votes R i = Some (Ongoing st) \<Longrightarrow> \<exists>st0. R i = Some (Ongoing st0) \<and> ref_end st0 = ref_end st"
proof (induction votes arbitrary: R)
  case (Cons iv votes)
  then obtain st1 where st1: "retally f amount iv R i = Some (Ongoing st1)" "ref_end st1 = ref_end st" by auto
  then show ?case
    by (cases iv) (auto simp: retally_at recount_def split: option.splits referendum_info.splits if_splits)
qed simp

lemma ends_upstream: "ef.within (change_upstream_delegation f g who a amount)"
  unfolding ef.within_def
proof
  fix s
  obtain n where "change_upstream_delegation f g who a amount s = (Inr n, upstream f g who a amount s)"
    using change_upstream_eq by blast
  then show "ends_frame s (snd (change_upstream_delegation f g who a amount s))"
    by (auto simp: ends_frame_def upstream_def dest: retally_ends)
qed

lemma ends_tame: "tame m \<Longrightarrow> ef.within m"
  by (simp add: df.within_def ef.within_def ends_of_frame)

lemma ends_voting_case:
  "(\<And>vs d p. ef.within (f vs d p)) \<Longrightarrow> (\<And>n t c d p. ef.within (g n t c d p)) \<Longrightarrow>
   ef.within (case w of DirectVoting vs d p \<Rightarrow> f vs d p | Delegating n t c d p \<Rightarrow> g n t c d p)"
  by (simp split: voting.split)

lemmas ends_intros = ef.within_rules ends_voting_case ends_upstream ends_tame [OF tame_writes(2)] ends_tame [OF tame_writes(4)]

lemma ends_delegation: "ef.within (try_delegate cfg who t a c n)" "ef.within (try_undelegate cfg who a)" "ef.within (update_lock cfg who a)"
  unfolding try_delegate_def try_undelegate_def update_lock_def increase_upstream_delegation_def reduce_upstream_delegation_def Let_def
  by (intro ends_intros; simp add: ends_frame_def)+

lemma cast_vote_end: "cast_vote mx i v st vs s = (Inr (st', vs'), t) \<Longrightarrow> ref_end st' = ref_end st"
  by (cases vs) (auto simp: cast_vote_def ok_simps split: sum.splits)

lemma ends_try_vote: "ends_frame s (snd (try_vote cfg who i v s))"
proof (cases rule: try_vote_result [of cfg who i v s])
  case (cast st st' vs' c')
  then show ?thesis using cast_vote_end [OF cast(3)] by (auto simp: ends_frame_def)
qed (simp_all add: ends_frame_def)

lemma ends_try_remove_vote: "ends_frame s (snd (try_remove_vote cfg who a i scope s))"
proof (cases rule: try_remove_vote_result [of cfg who a i scope s])
  case (removed votes d p j p' R')
  then show ?thesis by (auto simp: ends_frame_def vote_uncounted_def split: if_splits)
qed (simp add: ef.rel_refl)

section \<open>A block\<close>

lemma maturing_iff:
  "(i, st) \<in> set (maturing_referenda_at_inner now low high s) \<longleftrightarrow>
     low \<le> i \<and> i < high \<and> ReferendumInfoOf s i = Some (Ongoing st) \<and> ref_end st = now"
  unfolding maturing_referenda_at_inner_def
  by (auto simp: List.map_filter_def split: option.splits referendum_info.splits intro: rev_image_eqI)

text \<open>The loop over the maturing referenda: each of them is finished, and nothing is started.\<close>

lemma bake_loop:
  assumes "dispatch_tame cfg" "\<And>x. x \<in> set l \<Longrightarrow> fst x < ReferendumCount s"
    "for_each l (\<lambda>(index, info). bindM (bake_referendum cfg now index info) (\<lambda>appr.
       modifies (\<lambda>s. s\<lparr>ReferendumInfoOf := (ReferendumInfoOf s)(index \<mapsto> Finished appr now)\<rparr>))) s = (Inr (), t)"
  shows "dem_frame s t \<and> (\<forall>x\<in>set l. \<forall>st. ReferendumInfoOf t (fst x) \<noteq> Some (Ongoing st))"
  using assms(2,3)
proof (induction l arbitrary: s)
  case (Cons x l)
  obtain i st where x: "x = (i, st)" by (cases x)
  from Cons.prems(2) obtain appr u where bake: "bake_referendum cfg now i st s = (Inr appr, u)"
    and rest: "for_each l (\<lambda>(index, info). bindM (bake_referendum cfg now index info) (\<lambda>appr.
       modifies (\<lambda>s. s\<lparr>ReferendumInfoOf := (ReferendumInfoOf s)(index \<mapsto> Finished appr now)\<rparr>)))
       (u\<lparr>ReferendumInfoOf := (ReferendumInfoOf u)(i \<mapsto> Finished appr now)\<rparr>) = (Inr (), t)"
    by (auto simp only: x for_each.simps prod.case ok_thenM ok_bindM ok_modifies)
  let ?u = "u\<lparr>ReferendumInfoOf := (ReferendumInfoOf u)(i \<mapsto> Finished appr now)\<rparr>"
  have su: "dem_frame s u" by (rule df.withinD [OF tame_bake [OF assms(1)] bake])
  have "dem_frame u ?u" using su Cons.prems(1) [of x] by (auto simp: dem_frame_def x)
  then have s: "dem_frame s ?u" using df.rel_trans su by blast
  have IH: "dem_frame ?u t \<and> (\<forall>x\<in>set l. \<forall>st. ReferendumInfoOf t (fst x) \<noteq> Some (Ongoing st))"
    by (rule Cons.IH [OF _ rest]) (use Cons.prems(1) s in \<open>auto simp: dem_frame_def\<close>)
  have "ReferendumInfoOf t i \<noteq> Some (Ongoing st)" for st
  proof
    assume "ReferendumInfoOf t i = Some (Ongoing st)"
    then have "ReferendumInfoOf ?u i = Some (Ongoing st)" using IH unfolding dem_frame_def by blast
    then show False by simp
  qed
  then show ?case using IH df.rel_trans [OF s] by (auto simp: x)
qed (simp add: ok_simps df.rel_refl)

lemma advance_unbaked_spec:
  "i \<le> advance_unbaked R high i \<and> advance_unbaked R high i \<le> max i high \<and>
   (\<forall>j st. i \<le> j \<and> j < advance_unbaked R high i \<longrightarrow> R j \<noteq> Some (Ongoing st))"
proof (induction R high i rule: advance_unbaked.induct)
  case (1 R high i)
  show ?case
  proof (cases "i < high \<and> (case R i of None \<Rightarrow> True | Some (Finished _ _) \<Rightarrow> True | Some (Ongoing _) \<Rightarrow> False)")
    case True
    then have step: "advance_unbaked R high i = advance_unbaked R high (i + 1)" by (subst advance_unbaked.simps) simp
    have here: "R i \<noteq> Some (Ongoing st)" for st using True by (auto split: option.splits referendum_info.splits)
    then have "R j \<noteq> Some (Ongoing st)" if "i \<le> j" "j < advance_unbaked R high i" for j st
      using 1 [OF True] that step by (cases "j = i") auto
    then show ?thesis using 1 [OF True] step True by auto
  next
    case False
    then have "advance_unbaked R high i = i" by (subst advance_unbaked.simps) (simp only: if_False)
    then show ?thesis by auto
  qed
qed

lemma begin_block_result:
  assumes "dispatch_tame cfg" "begin_block cfg now s = (Inr (), t)" "ReferendumCount s < u32_max"
  obtains u v where "launched (wrapping_add u32_max now (VotingPeriod cfg)) s u" "dem_frame u v"
    "\<forall>i st. ReferendumInfoOf v i = Some (Ongoing st) \<and> LowestUnbaked s \<le> i \<and> i < ReferendumCount s \<longrightarrow> ref_end st \<noteq> now"
    "t = v\<lparr>LowestUnbaked := advance_unbaked (ReferendumInfoOf v) (ReferendumCount s) (LowestUnbaked v)\<rparr>"
proof -
  obtain u v where u: "(if now mod LaunchPeriod cfg = 0 then discard_result (launch_next cfg now) else ret ()) s = (Inr (), u)"
    and v: "for_each (maturing_referenda_at_inner now (LowestUnbaked s) (ReferendumCount s) u) (\<lambda>(index, info).
       bindM (bake_referendum cfg now index info) (\<lambda>appr.
       modifies (\<lambda>s. s\<lparr>ReferendumInfoOf := (ReferendumInfoOf s)(index \<mapsto> Finished appr now)\<rparr>))) u = (Inr (), v)"
    and t: "t = v\<lparr>LowestUnbaked := advance_unbaked (ReferendumInfoOf v) (ReferendumCount s) (LowestUnbaked v)\<rparr>"
    using assms(2) unfolding begin_block_def ok_bindM ok_thenM ok_reads ok_ensure ok_modifies by auto
  have L: "launched (wrapping_add u32_max now (VotingPeriod cfg)) s u"
    using u launched_discard [OF launches_next] by (auto simp: launched_def df.rel_refl ret_def split: if_splits)
  then have "ReferendumCount s \<le> ReferendumCount u"
    using assms(3) by (auto simp: launched_def dem_frame_def injected_def wrapping_succ)
  then have B: "dem_frame u v \<and> (\<forall>x\<in>set (maturing_referenda_at_inner now (LowestUnbaked s) (ReferendumCount s) u).
      \<forall>st. ReferendumInfoOf v (fst x) \<noteq> Some (Ongoing st))"
    by (intro bake_loop [OF assms(1) _ v]) (auto simp: maturing_iff)
  have "ref_end st \<noteq> now" if o: "ReferendumInfoOf v i = Some (Ongoing st)" "LowestUnbaked s \<le> i" "i < ReferendumCount s" for i st
  proof
    assume "ref_end st = now"
    moreover have "ReferendumInfoOf u i = Some (Ongoing st)" using o(1) B by (auto simp: dem_frame_def)
    ultimately have "(i, st) \<in> set (maturing_referenda_at_inner now (LowestUnbaked s) (ReferendumCount s) u)" using o by (simp add: maturing_iff)
    then show False using B o(1) by force
  qed
  then show thesis using that L B t by blast
qed

lemma begin_block_ok:
  assumes "dispatch_tame cfg" "begin_block cfg now s = (Inr (), t)" "ReferendumCount s < u32_max" "dem_ok C A s"
  shows "dem_ok C A t"
proof -
  obtain u v where uv: "launched (wrapping_add u32_max now (VotingPeriod cfg)) s u" "dem_frame u v"
    "t = v\<lparr>LowestUnbaked := advance_unbaked (ReferendumInfoOf v) (ReferendumCount s) (LowestUnbaked v)\<rparr>"
    by (rule begin_block_result [OF assms(1-3)])
  have "dem_ok C A v" by (rule dem_ok_frame [OF dem_ok_launched [OF assms(4,3) uv(1)] uv(2)])
  then show ?thesis by (simp add: uv(3) dem_ok_def)
qed

lemma begin_block_timely:
  assumes "dispatch_tame cfg" "begin_block cfg (now + 1) s = (Inr (), t)" "ReferendumCount s < u32_max" "timely Z now s"
    "0 < VotingPeriod cfg" "now + 1 + VotingPeriod cfg \<le> u32_max"
  shows "timely Z (now + 1) t"
proof -
  let ?fin = "wrapping_add u32_max (now + 1) (VotingPeriod cfg)"
  obtain u v where uv: "launched ?fin s u" "dem_frame u v"
    "\<forall>i st. ReferendumInfoOf v i = Some (Ongoing st) \<and> LowestUnbaked s \<le> i \<and> i < ReferendumCount s \<longrightarrow> ref_end st \<noteq> now + 1"
    "t = v\<lparr>LowestUnbaked := advance_unbaked (ReferendumInfoOf v) (ReferendumCount s) (LowestUnbaked v)\<rparr>"
    by (rule begin_block_result [OF assms(1-3)])
  have fin: "now + 1 < ?fin" using assms(5,6) by (simp add: wrapping_add_def)
  have v: "timely Z now v" using timely_ends [OF timely_launched [OF assms(4,3) _ uv(1)] ends_of_frame [OF uv(2)]] fin by simp
  have same: "LowestUnbaked v = LowestUnbaked s" "ReferendumCount s \<le> ReferendumCount v"
    using uv(1,2) assms(3) by (auto simp: launched_def dem_frame_def injected_def wrapping_succ)
  have late: "i \<in> Z \<or> now + 1 < ref_end st" if o: "ReferendumInfoOf v i = Some (Ongoing st)" for i st
  proof (cases "i < ReferendumCount s")
    case True
    then have "ref_end st \<noteq> now + 1" using uv(3) o v same(1) unfolding timely_def by metis
    moreover have "i \<in> Z \<or> now < ref_end st" using v o unfolding timely_def by blast
    ultimately show ?thesis by auto
  next
    case False
    have "ReferendumInfoOf u i = Some (Ongoing st)" using o uv(2) by (simp add: dem_frame_def)
    then have "ref_end st = ?fin" using uv(1) False assms(4)
      by (auto simp: launched_def dem_frame_def timely_def injected_def referendum_new_def split: if_splits) (metis option.inject referendum_info.inject(1) referendum_status.select_convs(1))+
    then show ?thesis using fin by simp
  qed
  let ?a = "advance_unbaked (ReferendumInfoOf v) (ReferendumCount s) (LowestUnbaked v)"
  have a: "?a \<le> max (LowestUnbaked v) (ReferendumCount s)" "\<forall>j st. LowestUnbaked v \<le> j \<and> j < ?a \<longrightarrow> ReferendumInfoOf v j \<noteq> Some (Ongoing st)"
    using advance_unbaked_spec [of "LowestUnbaked v" "ReferendumInfoOf v" "ReferendumCount s"] by auto
  have "?a \<le> i" if "ReferendumInfoOf v i = Some (Ongoing st)" for i st
    using a(2) v that unfolding timely_def by (metis not_le)
  then show ?thesis using v late a(1) same(2) by (auto simp: uv(4) timely_def)
qed

section \<open>Histories\<close>

datatype democracy_call =
    CallPropose nat asset_id balance
  | CallSecond prop_index nat
  | CallVote referendum_index account_vote
  | CallEmergencyCancel referendum_index
  | CallExternalPropose nat asset_id
  | CallExternalProposeMajority nat asset_id
  | CallExternalProposeDefault nat asset_id
  | CallFastTrack nat asset_id block_number block_number
  | CallVetoExternal nat asset_id
  | CallCancelReferendum referendum_index
  | CallCancelQueued referendum_index
  | CallDelegate account_id asset_id conviction balance
  | CallUndelegate asset_id
  | CallClearPublicProposals
  | CallNotePreimage bytes asset_id
  | CallNotePreimageOperational bytes asset_id
  | CallNoteImminentPreimage bytes asset_id
  | CallNoteImminentPreimageOperational bytes asset_id
  | CallReapPreimage nat asset_id nat
  | CallUnlock account_id asset_id
  | CallRemoveVote asset_id referendum_index
  | CallRemoveOtherVote account_id asset_id referendum_index
  | CallEnactProposal proposal_id referendum_index
  | CallBlacklist nat asset_id "referendum_index option"
  | CallCancelProposal prop_index

fun democracy_dispatch ::
  "('n, 'c, 'k, 'p) democracy_config \<Rightarrow> raw_origin \<Rightarrow> democracy_call \<Rightarrow> (('n, 'c, 'k) democracy, unit) call" where
  "democracy_dispatch cfg orig (CallPropose h a n) = propose cfg orig h a n"
| "democracy_dispatch cfg orig (CallSecond p b) = second_proposal cfg orig p b"
| "democracy_dispatch cfg orig (CallVote i v) = vote_call cfg orig i v"
| "democracy_dispatch cfg orig (CallEmergencyCancel i) = emergency_cancel cfg orig i"
| "democracy_dispatch cfg orig (CallExternalPropose h a) = external_propose cfg orig h a"
| "democracy_dispatch cfg orig (CallExternalProposeMajority h a) = external_propose_majority cfg orig h a"
| "democracy_dispatch cfg orig (CallExternalProposeDefault h a) = external_propose_default cfg orig h a"
| "democracy_dispatch cfg orig (CallFastTrack h a vp d) = fast_track cfg orig h a vp d"
| "democracy_dispatch cfg orig (CallVetoExternal h a) = veto_external cfg orig h a"
| "democracy_dispatch cfg orig (CallCancelReferendum i) = cancel_referendum orig i"
| "democracy_dispatch cfg orig (CallCancelQueued i) = cancel_queued cfg orig i"
| "democracy_dispatch cfg orig (CallDelegate to a c n) = delegate_call cfg orig to a c n"
| "democracy_dispatch cfg orig (CallUndelegate a) = undelegate_call cfg orig a"
| "democracy_dispatch cfg orig CallClearPublicProposals = clear_public_proposals orig"
| "democracy_dispatch cfg orig (CallNotePreimage bs a) = note_preimage cfg orig bs a"
| "democracy_dispatch cfg orig (CallNotePreimageOperational bs a) = note_preimage_operational cfg orig bs a"
| "democracy_dispatch cfg orig (CallNoteImminentPreimage bs a) = note_imminent_preimage cfg orig bs a"
| "democracy_dispatch cfg orig (CallNoteImminentPreimageOperational bs a) = note_imminent_preimage_operational cfg orig bs a"
| "democracy_dispatch cfg orig (CallReapPreimage h a n) = reap_preimage cfg orig h a n"
| "democracy_dispatch cfg orig (CallUnlock x a) = unlock cfg orig x a"
| "democracy_dispatch cfg orig (CallRemoveVote a i) = remove_vote cfg orig a i"
| "democracy_dispatch cfg orig (CallRemoveOtherVote x a i) = remove_other_vote cfg orig x a i"
| "democracy_dispatch cfg orig (CallEnactProposal p i) = enact_proposal cfg orig p i"
| "democracy_dispatch cfg orig (CallBlacklist h a r) = blacklist cfg orig h a r"
| "democracy_dispatch cfg orig (CallCancelProposal p) = cancel_proposal cfg orig p"

text \<open>
  The referendum that a call starts without time to vote: the code accepts an instant fast track with a voting period of
  zero, whose end is then the block that has already begun.
\<close>

fun instant :: "democracy_call \<Rightarrow> ('n, 'c, 'k) democracy \<Rightarrow> referendum_index set" where
  "instant (CallFastTrack _ _ vp _) s = (if vp = 0 then {ReferendumCount s} else {})"
| "instant _ s = {}"

text \<open>The 32-bit counters that a call adds to do not wrap around.\<close>

fun in_range :: "democracy_call \<Rightarrow> ('n, 'c, 'k) democracy \<Rightarrow> bool" where
  "in_range (CallFastTrack _ _ vp _) s = (democracy_block s + vp \<le> u32_max \<and> ReferendumCount s < u32_max)"
| "in_range _ s = True"

text \<open>
  Histories: calls of any origin with any arguments, whatever they return, that satisfy the condition \<open>adm\<close>; blocks; and
  whatever other pallets do to the currencies and the scheduler. Beside the state, the referenda started without time to vote.
\<close>

inductive democracy_reach ::
  "('n, 'c, 'k, 'p) democracy_config \<Rightarrow> (raw_origin \<Rightarrow> democracy_call \<Rightarrow> ('n, 'c, 'k) democracy \<Rightarrow> bool) \<Rightarrow> referendum_index set \<Rightarrow>
     ('n, 'c, 'k) democracy \<Rightarrow> bool" for cfg adm where
  genesis: "democracy_reach cfg adm {} (democracy_genesis n c k)"
| call: "democracy_reach cfg adm Z s \<Longrightarrow> adm orig x s \<Longrightarrow> in_range x s \<Longrightarrow>
    democracy_reach cfg adm (Z \<union> instant x s) (snd (democracy_dispatch cfg orig x s))"
| block: "democracy_reach cfg adm Z s \<Longrightarrow> now = democracy_block s + 1 \<Longrightarrow> begin_block cfg now (s\<lparr>democracy_block := now\<rparr>) = (Inr (), t) \<Longrightarrow>
    now + VotingPeriod cfg \<le> u32_max \<Longrightarrow> ReferendumCount s < u32_max \<Longrightarrow> democracy_reach cfg adm Z t"
| others: "democracy_reach cfg adm Z s \<Longrightarrow>
    democracy_reach cfg adm Z (s\<lparr>democracy_native := n, democracy_currency := c, democracy_registry := r, democracy_schedule := k\<rparr>)"

abbreviation any_call :: "raw_origin \<Rightarrow> democracy_call \<Rightarrow> ('n, 'c, 'k) democracy \<Rightarrow> bool" where
  "any_call \<equiv> \<lambda>_ _ _. True"

text \<open>
  The condition for exact tallies: a signed call comes from one of the accounts \<open>A\<close>, which has at most \<open>C\<close> of an asset;
  votes are delegated to one of the accounts; and the currency takes the lock of a vote or of a delegation.
\<close>

definition admissible ::
  "('n, 'c, 'k, 'p) democracy_config \<Rightarrow> nat \<Rightarrow> account_id set \<Rightarrow> raw_origin \<Rightarrow> democracy_call \<Rightarrow> ('n, 'c, 'k) democracy \<Rightarrow> bool" where
  "admissible cfg C A orig call s \<longleftrightarrow>
     (case orig of
        SignedOrigin who \<Rightarrow>
          who \<in> A \<and> (\<forall>a. l_free_balance (DCurrency cfg) a who (democracy_currency s) \<le> C) \<and>
          (case call of
             CallVote i v \<Rightarrow> (\<forall>st. ReferendumInfoOf s i = Some (Ongoing st) \<longrightarrow> lock_accepted cfg (ref_asset st) who (vote_balance v) s)
           | CallDelegate to a _ n \<Rightarrow> to \<in> A \<and> lock_accepted cfg a who n s
           | _ \<Rightarrow> True)
      | _ \<Rightarrow> True)"

text \<open>The calls that neither vote nor delegate nor start a referendum.\<close>

fun quiet :: "democracy_call \<Rightarrow> bool" where
  "quiet (CallVote _ _) = False"
| "quiet (CallFastTrack _ _ _ _) = False"
| "quiet (CallDelegate _ _ _ _) = False"
| "quiet (CallUndelegate _) = False"
| "quiet (CallUnlock _ _) = False"
| "quiet (CallRemoveVote _ _) = False"
| "quiet (CallRemoveOtherVote _ _ _) = False"
| "quiet _ = True"

lemma tame_proposals:
  "tame (propose cfg orig h a n)" "tame (second_proposal cfg orig p b)" "tame (external_propose cfg orig h a)"
  "tame (external_propose_majority cfg orig h a)" "tame (external_propose_default cfg orig h a)" "tame (veto_external cfg orig h a)"
  "tame (clear_public_proposals orig)" "tame (cancel_proposal cfg orig p)"
  unfolding propose_def second_proposal_def external_propose_def external_propose_majority_def external_propose_default_def veto_external_def
    clear_public_proposals_def cancel_proposal_def Let_def
  by (intro tame_intros; simp add: dem_frame_def)+

lemma tame_cancellations:
  "tame (emergency_cancel cfg orig i)" "tame (cancel_referendum orig i)" "tame (cancel_queued cfg orig i)"
  unfolding emergency_cancel_def cancel_referendum_def cancel_queued_def
  by (intro tame_intros; simp add: dem_frame_def)+

lemma tame_preimages:
  "tame (note_preimage cfg orig bs a)" "tame (note_preimage_operational cfg orig bs a)" "tame (note_imminent_preimage cfg orig bs a)"
  "tame (note_imminent_preimage_operational cfg orig bs a)" "tame (reap_preimage cfg orig h a n)"
  unfolding note_preimage_def note_preimage_operational_def note_imminent_preimage_def note_imminent_preimage_operational_def reap_preimage_def Let_def
  by (intro tame_intros; simp add: dem_frame_def)+

lemma tame_blacklist: "tame (blacklist cfg orig h a r)"
  unfolding blacklist_def Let_def
  by (intro tame_intros; simp add: dem_frame_def split: option.split prod.split)

lemma tame_enact_call: "dispatch_tame cfg \<Longrightarrow> tame (enact_proposal cfg orig p i)"
  unfolding enact_proposal_def by (intro tame_intros)

lemma tame_quiet: "dispatch_tame cfg \<Longrightarrow> quiet x \<Longrightarrow> tame (democracy_dispatch cfg orig x)"
  by (cases x) (simp_all add: tame_proposals tame_cancellations tame_preimages tame_blacklist tame_enact_call)

lemma signed_state: "snd (bindM (ensure_signed orig) f s) = (case orig of SignedOrigin who \<Rightarrow> snd (f who s) | _ \<Rightarrow> s)"
  by (cases orig) (simp_all add: bindM_def ensure_signed_def ret_def fail_def)

lemma signed_then_state: "snd (thenM (ensure_signed orig) m s) = (case orig of SignedOrigin who \<Rightarrow> snd (m s) | _ \<Rightarrow> s)"
  unfolding thenM_def by (rule signed_state)

lemma then_ret_state: "snd (thenM m (ret x) s) = snd (m s)"
  by (simp add: thenM_def bindM_def ret_def split: prod.split sum.split)

lemmas loud_defs = vote_call_def delegate_call_def undelegate_call_def unlock_def remove_vote_def remove_other_vote_def

lemma loud_cases:
  assumes "\<not> quiet x"
  obtains (fast) h a vp d where "x = CallFastTrack h a vp d" | (signed) "instant x s = {}" "\<nexists>h a vp d. x = CallFastTrack h a vp d"
  using assms by (cases x) auto

lemma unsigned_state: "\<not> quiet x \<Longrightarrow> \<nexists>h a vp d. x = CallFastTrack h a vp d \<Longrightarrow> \<nexists>who. orig = SignedOrigin who \<Longrightarrow>
  snd (democracy_dispatch cfg orig x s) = s"
  by (cases x; cases orig) (simp_all add: loud_defs signed_state signed_then_state)

lemma dispatch_ok:
  assumes "electorate C A" "dispatch_tame cfg" "admissible cfg C A orig x s" "in_range x s" "dem_ok C A s"
  shows "dem_ok C A (snd (democracy_dispatch cfg orig x s))"
proof (cases "quiet x")
  case True
  then show ?thesis using dem_ok_frame [OF assms(5)] tame_quiet [OF assms(2)] df.within_state by blast
next
  case loud: False
  then show ?thesis
  proof (cases rule: loud_cases [where s = s])
    case (fast h a vp d)
    then show ?thesis using dem_ok_launched [OF assms(5) _ fast_track_launched] assms(4) by simp
  next
    case signed
    show ?thesis
    proof (cases orig)
      case (SignedOrigin who)
      have who: "who \<in> A" "\<And>a. l_free_balance (DCurrency cfg) a who (democracy_currency s) \<le> C"
        using assms(3) SignedOrigin by (simp_all add: admissible_def)
      have vote: "dem_ok C A (snd (try_vote cfg who i v s))" if "x = CallVote i v" for i v
        by (rule try_vote_ok [OF assms(1,5) who]) (use assms(3) SignedOrigin that in \<open>simp add: admissible_def\<close>)
      have del: "t \<in> A" "lock_accepted cfg a who n s" if "x = CallDelegate t a c n" for t a c n
        using assms(3) SignedOrigin that by (simp_all add: admissible_def)
      show ?thesis
        using loud signed(2) vote try_remove_vote_ok [where cfg = cfg, OF assms(1,5)]
          try_undelegate_ok [where cfg = cfg, OF assms(1,5)] update_lock_ok [where cfg = cfg, OF assms(1,5)]
          try_delegate_ok [OF assms(1,5) who(1) del(1) who(2) del(2)]
        by (cases x) (simp_all add: loud_defs signed_state signed_then_state then_ret_state SignedOrigin)
    qed (use assms(5) unsigned_state [OF loud signed(2), of orig cfg s] in auto)
  qed
qed

lemma dispatch_timely:
  assumes "dispatch_tame cfg" "in_range x s" "timely Z (democracy_block s) s"
  shows "timely (Z \<union> instant x s) (democracy_block (snd (democracy_dispatch cfg orig x s))) (snd (democracy_dispatch cfg orig x s))"
proof -
  let ?t = "snd (democracy_dispatch cfg orig x s)"
  have ends: ?thesis if "ends_frame s ?t"
    using that timely_mono [OF timely_ends [OF assms(3) that]] by (simp add: ends_frame_def)
  show ?thesis
  proof (cases "quiet x")
    case True
    then show ?thesis using ends ends_of_frame tame_quiet [OF assms(1)] df.within_state by blast
  next
    case loud: False
    then show ?thesis
    proof (cases rule: loud_cases [where s = s])
      case (fast h a vp d)
      have L: "launched (wrapping_add u32_max (democracy_block s) vp) s ?t" unfolding fast democracy_dispatch.simps by (rule fast_track_launched)
      have "democracy_block ?t = democracy_block s" using L by (auto simp: launched_def dem_frame_def injected_def)
      moreover have "timely (Z \<union> instant x s) (democracy_block s) ?t"
        by (rule timely_launched [OF timely_mono [OF assms(3)] _ _ L]) (use assms(2) fast in \<open>auto simp: wrapping_add_def\<close>)
      ultimately show ?thesis by simp
    next
      case signed
      have "ends_frame s ?t"
      proof (cases orig)
        case (SignedOrigin who)
        show ?thesis
          using loud signed(2) ends_try_vote [where cfg = cfg and s = s] ends_try_remove_vote [where cfg = cfg and s = s]
            ef.within_state [OF ends_delegation(1), of s cfg] ef.within_state [OF ends_delegation(2), of s cfg]
            ef.within_state [OF ends_delegation(3), of s cfg]
          by (cases x) (simp_all add: loud_defs signed_state signed_then_state then_ret_state SignedOrigin)
      qed (use unsigned_state [OF loud signed(2), of orig cfg s] in \<open>auto simp: ef.rel_refl\<close>)
      then show ?thesis by (rule ends)
    qed
  qed
qed

lemma genesis_ok: "dem_ok C A (democracy_genesis n c k)" "timely {} 0 (democracy_genesis n c k)"
  by (auto simp: democracy_genesis_def dem_ok_def ballots_def counted_def grants_ok_def timely_def default_voting_def)

lemma reach_ok:
  assumes "democracy_reach cfg (admissible cfg C A) Z s" "electorate C A" "dispatch_tame cfg"
  shows "dem_ok C A s"
  using assms(1)
proof induction
  case (genesis n c k)
  then show ?case by (rule genesis_ok)
next
  case (call Z s orig x)
  then show ?case using dispatch_ok [OF assms(2,3)] by blast
next
  case (block Z s now t)
  then have "dem_ok C A (s\<lparr>democracy_block := now\<rparr>)" by (simp add: dem_ok_def)
  then show ?case using begin_block_ok [OF assms(3) block.hyps(3)] block.hyps(5) by simp
qed (simp add: dem_ok_def)

lemma reach_timely:
  assumes "democracy_reach cfg adm Z s" "dispatch_tame cfg" "0 < VotingPeriod cfg"
  shows "timely Z (democracy_block s) s"
  using assms(1)
proof induction
  case (genesis n c k)
  then show ?case using genesis_ok(2) [of n c k] by (simp add: democracy_genesis_def)
next
  case (call Z s orig x)
  then show ?case using dispatch_timely [OF assms(2)] by blast
next
  case (block Z s now t)
  let ?s = "s\<lparr>democracy_block := now\<rparr>"
  have s: "timely Z (democracy_block s) ?s" "ReferendumCount ?s < u32_max" using block by (simp_all add: timely_def)
  obtain u v where "launched (wrapping_add u32_max now (VotingPeriod cfg)) ?s u" "dem_frame u v"
    "t = v\<lparr>LowestUnbaked := advance_unbaked (ReferendumInfoOf v) (ReferendumCount ?s) (LowestUnbaked v)\<rparr>"
    by (rule begin_block_result [OF assms(2) block.hyps(3) s(2)])
  then have "democracy_block t = now" by (auto simp: launched_def dem_frame_def injected_def)
  then show ?case using begin_block_timely [OF assms(2) _ s(2,1) assms(3)] block.hyps by simp
qed (simp add: timely_def)

text \<open>
  C5. Tallies are exact. In every state that calls and blocks lead to, the ayes, the nays and the turnout of
  every ongoing referendum are the sums, over the accounts, of what each of them contributes at that moment: its own
  vote on the referendum, weighed by its conviction, and, if that vote is not split, the votes that others have
  delegated to it. Voting, voting again, taking votes back, delegating, delegating to another account and
  undelegating keep it so, in any order, and no addition is cut off. The conditions: twelve times the greatest
  balance times the number of accounts fits the balance type, the currency took the locks of the votes and delegations of
  the history, dispatched proposals do not themselves vote or start referenda, and the counter of referenda did not wrap.
\<close>

theorem tally_counts_votes:
  assumes "democracy_reach cfg (admissible cfg C A) Z s" "electorate C A" "dispatch_tame cfg"
    "ReferendumInfoOf s i = Some (Ongoing st)"
  shows "tally_at k (ref_tally st) = (\<Sum>x\<in>A. voting_part k i (VotingOf s (x, proposal_asset (ref_proposal st))))"
proof -
  have "counted A (VotingOf s) (ReferendumInfoOf s) (ReferendumCount s)" using reach_ok [OF assms(1-3)] by (simp add: dem_ok_def)
  from countedD(4) [OF this assms(4), of k] show ?thesis by (simp add: ref_asset_def)
qed

text \<open>
  C15. Referenda end on time. In every state that any calls and blocks lead to, the end of an ongoing referendum
  still lies ahead, unless the referendum was fast-tracked with a voting period of zero; and every ongoing referendum is among those
  that the search for maturing ones finds when its end is the current block, although the search starts at the mark
  \<open>LowestUnbaked\<close>, which moves on: none is passed over. The conditions: the configured voting period is not zero, block numbers and the counter
  of referenda did not wrap, and dispatched proposals do not themselves vote or start referenda.
\<close>

theorem referenda_end_on_time:
  assumes "democracy_reach cfg any_call Z s" "dispatch_tame cfg" "0 < VotingPeriod cfg"
    "ReferendumInfoOf s i = Some (Ongoing st)"
  shows "(i \<notin> Z \<longrightarrow> democracy_block s < ref_end st) \<and> (i, st) \<in> set (maturing_referenda_at (ref_end st) s)"
  using reach_timely [OF assms(1-3)] assms(4) by (auto simp: timely_def maturing_referenda_at_def maturing_iff)

section \<open>An example\<close>

text \<open>
  The root proposes and fast-tracks a referendum on asset 5; account 1 votes for it with 100, account 2 delegates 50
  to account 1.
\<close>

definition demo_democracy_config :: "(hold_ledger, lock_book, unit, unit) democracy_config" where
  "demo_democracy_config =
     \<lparr>DNative = hl_native_holds, DCurrency = book_multi, DSqrt = search_root, DHash = length, DDecode = (\<lambda>_. None),
      DDispatch = (\<lambda>_ _. ret ()), DSchedule = (\<lambda>_ _ _. ret ()), DCancelNamed = (\<lambda>_. ret ()), EnactmentPeriod = 10, LaunchPeriod = 10,
      VotingPeriod = 10, VoteLockingPeriod = 10, DMinimumDeposit = 1, ExternalOrigin = (\<lambda>orig. orig = RootOrigin),
      ExternalMajorityOrigin = (\<lambda>orig. orig = RootOrigin), ExternalDefaultOrigin = (\<lambda>orig. orig = RootOrigin),
      FastTrackOrigin = (\<lambda>orig. orig = RootOrigin), InstantOrigin = (\<lambda>orig. orig = RootOrigin), InstantAllowed = True,
      FastTrackVotingPeriod = 2, TreasuryAccount = 9, CancellationOrigin = (\<lambda>orig. orig = RootOrigin),
      BlacklistOrigin = (\<lambda>orig. orig = RootOrigin), CancelProposalOrigin = (\<lambda>orig. orig = RootOrigin), VetoOrigin = (\<lambda>_. None),
      CooloffPeriod = 10, PreimageByteDeposit = 1, OperationalPreimageOrigin = (\<lambda>_. None), MaxVotes = 10, MaxProposals = 10\<rparr>"

definition demo_democracy_genesis :: "(hold_ledger, lock_book, unit) democracy" where
  "demo_democracy_genesis = democracy_genesis (\<lparr>bals = (\<lambda>_ _. 100), issued = (\<lambda>_. 300)\<rparr>, \<lambda>_ _. 0)
     \<lparr>free = (\<lambda>_ _. 100), held = (\<lambda>_ _. 0), locks = (\<lambda>_ _ _. 0)\<rparr> ()"

definition demo_proposed :: "(hold_ledger, lock_book, unit) democracy" where
  "demo_proposed = snd (democracy_dispatch demo_democracy_config RootOrigin (CallExternalProposeDefault 7 5) demo_democracy_genesis)"

definition demo_started :: "(hold_ledger, lock_book, unit) democracy" where
  "demo_started = snd (democracy_dispatch demo_democracy_config RootOrigin (CallFastTrack 7 5 4 0) demo_proposed)"

definition demo_voted :: "(hold_ledger, lock_book, unit) democracy" where
  "demo_voted = snd (democracy_dispatch demo_democracy_config (SignedOrigin 1)
     (CallVote 0 (Standard \<lparr>aye = True, vote_conviction = Locked1x\<rparr> 100)) demo_started)"

definition demo_delegated :: "(hold_ledger, lock_book, unit) democracy" where
  "demo_delegated = snd (democracy_dispatch demo_democracy_config (SignedOrigin 2) (CallDelegate 1 5 Locked2x 50) demo_voted)"

lemma demo_democracy_env: "electorate 100 {1, 2}" "dispatch_tame demo_democracy_config" "0 < VotingPeriod demo_democracy_config"
  by (simp_all add: electorate_def u128_max_def demo_democracy_config_def dispatch_tame_def df.within_ret)

lemmas demo_democracy_defs = demo_started_def demo_proposed_def demo_democracy_genesis_def democracy_genesis_def demo_democracy_config_def
  external_propose_default_def fast_track_def inject_referendum_def referendum_new_def dem_event_def call_eval

lemma demo_started_fields:
  "ReferendumInfoOf demo_started = [0 \<mapsto> Ongoing \<lparr>ref_end = 4, ref_proposal = \<lparr>proposal_hash = 7, proposal_asset = 5\<rparr>,
     ref_threshold = SuperMajorityAgainst, ref_delay = 0, ref_tally = default_tally\<rparr>]"
  "VotingOf demo_started = (\<lambda>_. default_voting)"
  "democracy_currency demo_started = \<lparr>free = (\<lambda>_ _. 100), held = (\<lambda>_ _. 0), locks = (\<lambda>_ _ _. 0)\<rparr>"
  by (simp_all add: demo_democracy_defs wrapping_add_def u32_max_def)

lemma demo_voted_fields:
  "ReferendumInfoOf demo_voted = [0 \<mapsto> Ongoing \<lparr>ref_end = 4, ref_proposal = \<lparr>proposal_hash = 7, proposal_asset = 5\<rparr>,
     ref_threshold = SuperMajorityAgainst, ref_delay = 0, ref_tally = \<lparr>ayes = 100, nays = 0, turnout = 100\<rparr>\<rparr>]"
  "VotingOf demo_voted = (\<lambda>_. default_voting)((1, 5) := DirectVoting [(0, Standard \<lparr>aye = True, vote_conviction = Locked1x\<rparr> 100)] default_delegations (0, 0))"
  "free (democracy_currency demo_voted) = (\<lambda>_ _. 100)"
  by (simp_all add: demo_voted_def vote_call_def try_vote_def cast_vote_def referendum_status_of_def ensure_ongoing_def demo_started_fields default_voting_def
      demo_democracy_config_def book_multi_def book_set_lock_def on_dem_currency_def binary_search_def binary_search_from.simps [of "[]"] insert_at_def as_u32_def vote_balance_def
      tally_add_def conviction_votes_def conviction_to_u8_def checked_mul_def checked_add_def as_standard_def tally_increase_def saturating_add_def
      default_delegations_def default_tally_def u128_max_def Let_def call_eval)

lemma demo_democracy_referendum:
  "ReferendumInfoOf demo_delegated 0 = Some (Ongoing \<lparr>ref_end = 4, ref_proposal = \<lparr>proposal_hash = 7, proposal_asset = 5\<rparr>,
     ref_threshold = SuperMajorityAgainst, ref_delay = 0, ref_tally = \<lparr>ayes = 200, nays = 0, turnout = 150\<rparr>\<rparr>)"
  by (simp add: demo_delegated_def delegate_call_def try_delegate_def increase_upstream_delegation_def change_upstream_delegation_def retally_def
      demo_voted_fields default_voting_def set_common_def dem_event_def demo_democracy_config_def book_multi_def book_set_lock_def on_dem_currency_def
      conviction_votes_def conviction_to_u8_def checked_mul_def tally_increase_def saturating_add_def u128_max_def Let_def call_eval)

lemma demo_democracy_locks: "lock_accepted demo_democracy_config a who n s"
  by (simp add: lock_accepted_def demo_democracy_config_def book_multi_def modifies_def)

lemma demo_democracy_reach:
  assumes "\<And>orig x s. admissible demo_democracy_config 100 {1, 2} orig x s \<Longrightarrow> adm orig x s"
  shows "democracy_reach demo_democracy_config adm {} demo_delegated"
proof -
  let ?r = "democracy_reach demo_democracy_config adm {}"
  note step = democracy_reach.call [of demo_democracy_config adm "{}", OF _ assms]
  have "?r demo_democracy_genesis"
    unfolding demo_democracy_genesis_def by (rule democracy_reach.genesis)
  from step [OF this, of RootOrigin "CallExternalProposeDefault 7 5"] have "?r demo_proposed"
    unfolding demo_proposed_def by (simp add: admissible_def)
  moreover have "democracy_block demo_proposed = 0" "ReferendumCount demo_proposed = 0" by (simp_all add: demo_democracy_defs)
  ultimately have "?r demo_started"
    using step [of demo_proposed RootOrigin "CallFastTrack 7 5 4 0"] unfolding demo_started_def by (simp add: admissible_def u32_max_def)
  from step [OF this, of "SignedOrigin 1" "CallVote 0 (Standard \<lparr>aye = True, vote_conviction = Locked1x\<rparr> 100)"] have "?r demo_voted"
    unfolding demo_voted_def
    by (simp add: admissible_def demo_democracy_locks) (simp add: demo_democracy_config_def book_multi_def demo_started_fields)
  from step [OF this, of "SignedOrigin 2" "CallDelegate 1 5 Locked2x 50"] show ?thesis
    unfolding demo_delegated_def
    by (simp add: admissible_def demo_democracy_locks) (simp add: demo_democracy_config_def book_multi_def demo_voted_fields)
qed

theorem tally_counts_votes_witness:
  "(\<Sum>x\<in>{1, 2}. voting_part AyesPart 0 (VotingOf demo_delegated (x, 5))) = 200"
  using tally_counts_votes [OF demo_democracy_reach demo_democracy_env(1,2) demo_democracy_referendum, of AyesPart] by simp

theorem referenda_end_on_time_witness:
  "democracy_block demo_delegated < 4 \<and> 0 \<in> fst ` set (maturing_referenda_at 4 demo_delegated)"
  using referenda_end_on_time [OF demo_democracy_reach demo_democracy_env(2,3) demo_democracy_referendum] by force

end
