(* ===== verification/Assets_Registry.thy ===== *)
theory Assets_Registry
  imports Frame_Rule
begin

text \<open>
  The assets registry (frame/assets-registry/src/lib.rs): which local asset stands for which foreign one. A
  mapping becomes valid when the local and the foreign administrator have both approved it. Foreign assets are
  numbers here; the runtimes use locations of XCM.
\<close>

section \<open>State and operations\<close>

type_synonym foreign_asset_id = nat

datatype candidate_status = LocalAdminApproved | ForeignAdminApproved

record foreign_metadata =
  metadata_decimals :: nat

datatype assets_registry_event =
    LocalAdminUpdated account_id
  | ForeignAdminUpdated account_id
  | AssetsMappingCandidateUpdated asset_id foreign_asset_id
  | AssetMetadataUpdated asset_id

record assets_registry =
  LocalAdmin :: "account_id option"
  ForeignAdmin :: "account_id option"
  LocalToForeign :: "asset_id \<rightharpoonup> foreign_asset_id"
  ForeignToLocal :: "foreign_asset_id \<rightharpoonup> asset_id"
  AssetsMappingCandidates :: "asset_id \<times> foreign_asset_id \<rightharpoonup> candidate_status"
  ForeignAssetMetadata :: "asset_id \<rightharpoonup> foreign_metadata"
  assets_registry_events :: "assets_registry_event list"

text \<open>The two administrators' origins may look at the storage, as \<open>EnsureLocalAdmin\<close> and \<open>EnsureForeignAdmin\<close> do.\<close>

record assets_registry_config =
  UpdateAdminOrigin :: "raw_origin \<Rightarrow> bool"
  LocalAdminOrigin :: "raw_origin \<Rightarrow> assets_registry \<Rightarrow> bool"
  ForeignAdminOrigin :: "raw_origin \<Rightarrow> assets_registry \<Rightarrow> bool"

definition ensure_local_admin :: "raw_origin \<Rightarrow> assets_registry \<Rightarrow> bool" where
  "ensure_local_admin orig s = (case (orig, LocalAdmin s) of (SignedOrigin who, Some f) \<Rightarrow> who = f | _ \<Rightarrow> False)"

definition ensure_foreign_admin :: "raw_origin \<Rightarrow> assets_registry \<Rightarrow> bool" where
  "ensure_foreign_admin orig s = (case (orig, ForeignAdmin s) of (SignedOrigin who, Some f) \<Rightarrow> who = f | _ \<Rightarrow> False)"

definition registry_deposit :: "assets_registry_event \<Rightarrow> (assets_registry, unit) call" where
  "registry_deposit e = modifies (\<lambda>s. s\<lparr>assets_registry_events := assets_registry_events s @ [e]\<rparr>)"

definition set_location :: "asset_id \<Rightarrow> foreign_asset_id \<Rightarrow> (assets_registry, unit) call" where
  "set_location a f = modifies (\<lambda>s. s\<lparr>LocalToForeign := (LocalToForeign s)(a \<mapsto> f), ForeignToLocal := (ForeignToLocal s)(f \<mapsto> a)\<rparr>)"

definition asset_to_location :: "asset_id \<Rightarrow> assets_registry \<Rightarrow> foreign_asset_id option" where
  "asset_to_location a s = LocalToForeign s a"

definition location_to_asset :: "foreign_asset_id \<Rightarrow> assets_registry \<Rightarrow> asset_id option" where
  "location_to_asset f s = ForeignToLocal s f"

definition assets_registry_genesis ::
  "account_id option \<Rightarrow> account_id option \<Rightarrow> (asset_id \<times> foreign_asset_id) list \<Rightarrow> assets_registry" where
  "assets_registry_genesis l f pairs =
     fold (\<lambda>(a, x) s. snd (set_location a x s)) pairs
       \<lparr>LocalAdmin = l, ForeignAdmin = f, LocalToForeign = Map.empty, ForeignToLocal = Map.empty,
        AssetsMappingCandidates = Map.empty, ForeignAssetMetadata = Map.empty, assets_registry_events = []\<rparr>"

definition ensure_admins_only :: "assets_registry_config \<Rightarrow> raw_origin \<Rightarrow> (assets_registry, unit) call" where
  "ensure_admins_only cfg orig =
     bindM (reads (\<lambda>s. LocalAdminOrigin cfg orig s \<or> ForeignAdminOrigin cfg orig s)) (\<lambda>b.
     ensure b (AssetsRegistryErr OnlyAllowedForAdmins))"

definition approve_candidate :: "account_id \<Rightarrow> asset_id \<Rightarrow> foreign_asset_id \<Rightarrow> (assets_registry, unit) call" where
  "approve_candidate who a f =
     bindM (reads (\<lambda>s. AssetsMappingCandidates s (a, f))) (\<lambda>current_candidate_status.
     bindM (reads LocalAdmin) (\<lambda>local_admin.
     bindM (reads ForeignAdmin) (\<lambda>foreign_admin.
     let insert_status = (\<lambda>st. modifies (\<lambda>s. s\<lparr>AssetsMappingCandidates := (AssetsMappingCandidates s)((a, f) \<mapsto> st)\<rparr>));
         accept = thenM (set_location a f)
           (modifies (\<lambda>s. s\<lparr>AssetsMappingCandidates := (AssetsMappingCandidates s)((a, f) := None)\<rparr>)) in
     case current_candidate_status of
       None \<Rightarrow> if Some who = local_admin then insert_status LocalAdminApproved else insert_status ForeignAdminApproved
     | Some LocalAdminApproved \<Rightarrow> if Some who = foreign_admin then accept else ret ()
     | Some ForeignAdminApproved \<Rightarrow> if Some who = local_admin then accept else ret ())))"

definition set_local_admin :: "assets_registry_config \<Rightarrow> raw_origin \<Rightarrow> account_id \<Rightarrow> (assets_registry, unit) call" where
  "set_local_admin cfg orig x =
     thenM (ensure_origin (UpdateAdminOrigin cfg) orig)
    (thenM (modifies (\<lambda>s. s\<lparr>LocalAdmin := Some x\<rparr>)) (registry_deposit (LocalAdminUpdated x)))"

definition set_foreign_admin :: "assets_registry_config \<Rightarrow> raw_origin \<Rightarrow> account_id \<Rightarrow> (assets_registry, unit) call" where
  "set_foreign_admin cfg orig x =
     thenM (ensure_origin (UpdateAdminOrigin cfg) orig)
    (thenM (modifies (\<lambda>s. s\<lparr>ForeignAdmin := Some x\<rparr>)) (registry_deposit (ForeignAdminUpdated x)))"

definition approve_assets_mapping_candidate ::
  "assets_registry_config \<Rightarrow> raw_origin \<Rightarrow> asset_id \<Rightarrow> foreign_asset_id \<Rightarrow> (assets_registry, unit) call" where
  "approve_assets_mapping_candidate cfg orig a f =
     bindM (ensure_signed orig) (\<lambda>who.
     thenM (ensure_admins_only cfg orig)
    (bindM (reads (\<lambda>s. LocalToForeign s a)) (\<lambda>v.
     thenM (ensure (v = None) (AssetsRegistryErr LocalAssetIdAlreadyUsed))
    (bindM (reads (\<lambda>s. ForeignToLocal s f)) (\<lambda>w.
     thenM (ensure (w = None) (AssetsRegistryErr ForeignAssetIdAlreadyUsed))
    (thenM (approve_candidate who a f)
       (registry_deposit (AssetsMappingCandidateUpdated a f))))))))"

definition set_metadata ::
  "assets_registry_config \<Rightarrow> raw_origin \<Rightarrow> asset_id \<Rightarrow> foreign_metadata \<Rightarrow> (assets_registry, unit) call" where
  "set_metadata cfg orig a m =
     thenM (ensure_signed orig)
    (thenM (ensure_admins_only cfg orig)
    (bindM (reads (\<lambda>s. LocalToForeign s a)) (\<lambda>v.
     thenM (ensure (v \<noteq> None) (AssetsRegistryErr LocalAssetIdNotFound))
    (thenM (modifies (\<lambda>s. s\<lparr>ForeignAssetMetadata := (ForeignAssetMetadata s)(a \<mapsto> m)\<rparr>))
       (registry_deposit (AssetMetadataUpdated a))))))"

section \<open>Histories\<close>

text \<open>
  Calls in any order, with a record of who has approved what: an approval counts for the local side if it comes from the
  account that is the local administrator at that moment, and for the foreign side likewise.
\<close>

datatype side = LocalSide | ForeignSide

datatype assets_registry_call =
    SetLocalAdmin account_id
  | SetForeignAdmin account_id
  | ApproveMapping asset_id foreign_asset_id
  | SetMetadata asset_id foreign_metadata

fun registry_dispatch :: "assets_registry_config \<Rightarrow> raw_origin \<Rightarrow> assets_registry_call \<Rightarrow> (assets_registry, unit) call" where
  "registry_dispatch cfg orig (SetLocalAdmin x) = set_local_admin cfg orig x"
| "registry_dispatch cfg orig (SetForeignAdmin x) = set_foreign_admin cfg orig x"
| "registry_dispatch cfg orig (ApproveMapping a f) = approve_assets_mapping_candidate cfg orig a f"
| "registry_dispatch cfg orig (SetMetadata a m) = set_metadata cfg orig a m"

fun approvals :: "raw_origin \<Rightarrow> assets_registry_call \<Rightarrow> assets_registry \<Rightarrow> (side \<times> asset_id \<times> foreign_asset_id) set" where
  "approvals orig (ApproveMapping a f) s =
     (if ensure_local_admin orig s then {(LocalSide, a, f)} else {}) \<union> (if ensure_foreign_admin orig s then {(ForeignSide, a, f)} else {})"
| "approvals orig _ s = {}"

inductive registry_reach ::
  "assets_registry_config \<Rightarrow> (asset_id \<times> foreign_asset_id) list \<Rightarrow> assets_registry \<Rightarrow> (side \<times> asset_id \<times> foreign_asset_id) set \<Rightarrow> bool"
  for cfg pairs where
  genesis: "registry_reach cfg pairs (assets_registry_genesis l f pairs) {}"
| call: "registry_reach cfg pairs s P \<Longrightarrow> registry_reach cfg pairs (snd (registry_dispatch cfg orig x s)) (P \<union> approvals orig x s)"

text \<open>The invariant: the two maps are inverse to each other, and what is stored has been approved.\<close>

definition registry_ok ::
  "(asset_id \<times> foreign_asset_id) list \<Rightarrow> (side \<times> asset_id \<times> foreign_asset_id) set \<Rightarrow> assets_registry \<Rightarrow> bool" where
  "registry_ok pairs P s \<longleftrightarrow>
     (\<forall>a f. LocalToForeign s a = Some f \<longleftrightarrow> ForeignToLocal s f = Some a) \<and>
     (\<forall>a f. AssetsMappingCandidates s (a, f) = Some LocalAdminApproved \<longrightarrow> (LocalSide, a, f) \<in> P) \<and>
     (\<forall>a f. AssetsMappingCandidates s (a, f) = Some ForeignAdminApproved \<longrightarrow> (ForeignSide, a, f) \<in> P) \<and>
     (\<forall>a f. LocalToForeign s a = Some f \<longrightarrow> (a, f) \<in> set pairs \<or> (LocalSide, a, f) \<in> P \<and> (ForeignSide, a, f) \<in> P)"

lemma registry_ok_more: "registry_ok pairs P s \<Longrightarrow> P \<subseteq> Q \<Longrightarrow> registry_ok pairs Q s"
  unfolding registry_ok_def by blast

lemma genesis_fold:
  assumes "distinct (map fst (done @ rest))" "distinct (map snd (done @ rest))"
    "\<forall>a f. LocalToForeign s a = Some f \<longleftrightarrow> (a, f) \<in> set done" "\<forall>a f. ForeignToLocal s f = Some a \<longleftrightarrow> (a, f) \<in> set done"
    "AssetsMappingCandidates s = Map.empty"
  shows "let t = fold (\<lambda>(a, x) s. snd (set_location a x s)) rest s in
    (\<forall>a f. LocalToForeign t a = Some f \<longleftrightarrow> (a, f) \<in> set (done @ rest)) \<and> (\<forall>a f. ForeignToLocal t f = Some a \<longleftrightarrow> (a, f) \<in> set (done @ rest)) \<and>
    AssetsMappingCandidates t = Map.empty"
  using assms
proof (induction rest arbitrary: "done" s)
  case (Cons p rest)
  obtain a x where p: "p = (a, x)" by (cases p)
  have new: "a \<notin> fst ` set done" "x \<notin> snd ` set done" using Cons.prems(1,2) by (auto simp: p)
  have "\<forall>b f. LocalToForeign (snd (set_location a x s)) b = Some f \<longleftrightarrow> (b, f) \<in> set (done @ [p])"
    "\<forall>b f. ForeignToLocal (snd (set_location a x s)) f = Some b \<longleftrightarrow> (b, f) \<in> set (done @ [p])"
    using Cons.prems(3,4) new by (auto simp: p set_location_def modifies_def image_iff)
  from Cons.IH [OF _ _ this] Cons.prems show ?case by (simp add: p set_location_def modifies_def Let_def)
qed (simp add: Let_def)

lemma registry_genesis_ok:
  assumes "distinct (map fst pairs)" "distinct (map snd pairs)"
  shows "registry_ok pairs {} (assets_registry_genesis l f pairs)"
  using genesis_fold [of "[]" pairs "\<lparr>LocalAdmin = l, ForeignAdmin = f, LocalToForeign = Map.empty, ForeignToLocal = Map.empty,
    AssetsMappingCandidates = Map.empty, ForeignAssetMetadata = Map.empty, assets_registry_events = []\<rparr>"] assms
  by (simp add: assets_registry_genesis_def registry_ok_def Let_def)

text \<open>Which calls leave the mappings and candidates alone.\<close>

definition registry_frame :: "assets_registry \<Rightarrow> assets_registry \<Rightarrow> bool" where
  "registry_frame s t \<longleftrightarrow> LocalToForeign t = LocalToForeign s \<and> ForeignToLocal t = ForeignToLocal s \<and>
     AssetsMappingCandidates t = AssetsMappingCandidates s"

interpretation rf: frame_rule registry_frame
  by unfold_locales (auto simp: registry_frame_def)

lemma registry_tame:
  "rf.within (set_local_admin cfg orig x)" "rf.within (set_foreign_admin cfg orig x)" "rf.within (set_metadata cfg orig a m)"
  unfolding set_local_admin_def set_foreign_admin_def set_metadata_def registry_deposit_def ensure_admins_only_def
  by (intro rf.within_rules; simp add: registry_frame_def)+

lemma registry_ok_frame: "registry_ok pairs P s \<Longrightarrow> registry_frame s t \<Longrightarrow> registry_ok pairs P t"
  by (simp add: registry_ok_def registry_frame_def)

text \<open>The administrators of the runtimes: the accounts in storage.\<close>

definition stored_admins :: "assets_registry_config \<Rightarrow> bool" where
  "stored_admins cfg \<longleftrightarrow> LocalAdminOrigin cfg = ensure_local_admin \<and> ForeignAdminOrigin cfg = ensure_foreign_admin"

lemma registry_ok_candidate:
  assumes "registry_ok pairs P s" "case st of LocalAdminApproved \<Rightarrow> (LocalSide, a, f) \<in> P | ForeignAdminApproved \<Rightarrow> (ForeignSide, a, f) \<in> P"
  shows "registry_ok pairs P (s\<lparr>AssetsMappingCandidates := (AssetsMappingCandidates s)((a, f) \<mapsto> st), assets_registry_events := es\<rparr>)"
  using assms by (cases st) (auto simp: registry_ok_def)

lemma registry_ok_accept:
  assumes "registry_ok pairs P s" "LocalToForeign s a = None" "ForeignToLocal s f = None" "(LocalSide, a, f) \<in> P" "(ForeignSide, a, f) \<in> P"
  shows "registry_ok pairs P (s\<lparr>LocalToForeign := (LocalToForeign s)(a \<mapsto> f), ForeignToLocal := (ForeignToLocal s)(f \<mapsto> a),
    AssetsMappingCandidates := (AssetsMappingCandidates s)((a, f) := None), assets_registry_events := es\<rparr>)"
proof -
  have "LocalToForeign s b \<noteq> Some f" "ForeignToLocal s g \<noteq> Some a" for b g
    using assms(1-3) unfolding registry_ok_def by (metis option.distinct(1))+
  then show ?thesis using assms(1,4,5) by (auto simp: registry_ok_def)
qed

lemma approve_candidate_state:
  "snd (thenM (approve_candidate who a f) (registry_deposit e) s) =
     (let es = assets_registry_events s @ [e];
          inserted = (\<lambda>st. s\<lparr>AssetsMappingCandidates := (AssetsMappingCandidates s)((a, f) \<mapsto> st), assets_registry_events := es\<rparr>);
          accepted = s\<lparr>LocalToForeign := (LocalToForeign s)(a \<mapsto> f), ForeignToLocal := (ForeignToLocal s)(f \<mapsto> a),
            AssetsMappingCandidates := (AssetsMappingCandidates s)((a, f) := None), assets_registry_events := es\<rparr>;
          same = s\<lparr>assets_registry_events := es\<rparr> in
      case AssetsMappingCandidates s (a, f) of
        None \<Rightarrow> inserted (if Some who = LocalAdmin s then LocalAdminApproved else ForeignAdminApproved)
      | Some LocalAdminApproved \<Rightarrow> if Some who = ForeignAdmin s then accepted else same
      | Some ForeignAdminApproved \<Rightarrow> if Some who = LocalAdmin s then accepted else same)"
  by (simp add: approve_candidate_def registry_deposit_def set_location_def call_eval Let_def split: option.split candidate_status.split)

lemma approve_ok:
  assumes "stored_admins cfg" "registry_ok pairs P s"
  shows "registry_ok pairs (P \<union> approvals orig (ApproveMapping a f) s) (snd (approve_assets_mapping_candidate cfg orig a f s))"
    (is "registry_ok pairs ?Q ?t")
proof -
  have ok: "registry_ok pairs ?Q s" using registry_ok_more [OF assms(2)] by blast
  have admins: "LocalAdminOrigin cfg = ensure_local_admin" "ForeignAdminOrigin cfg = ensure_foreign_admin"
    using assms(1) by (simp_all add: stored_admins_def)
  note eval = approve_assets_mapping_candidate_def ensure_admins_only_def admins ensure_local_admin_def ensure_foreign_admin_def
  show ?thesis
  proof (cases "\<exists>who. orig = SignedOrigin who \<and> (LocalAdmin s = Some who \<or> ForeignAdmin s = Some who) \<and> LocalToForeign s a = None \<and> ForeignToLocal s f = None")
    case True
    then obtain who where orig: "orig = SignedOrigin who" and admin: "LocalAdmin s = Some who \<or> ForeignAdmin s = Some who"
      and free: "LocalToForeign s a = None" "ForeignToLocal s f = None" by blast
    have t: "?t = snd (thenM (approve_candidate who a f) (registry_deposit (AssetsMappingCandidateUpdated a f)) s)"
      using admin free by (auto simp: eval orig bindM_def thenM_def reads_def ensure_def ensure_signed_def ret_def fail_def)
    have ap: "LocalAdmin s = Some who \<Longrightarrow> (LocalSide, a, f) \<in> ?Q" "ForeignAdmin s = Some who \<Longrightarrow> (ForeignSide, a, f) \<in> ?Q"
      by (simp_all add: orig ensure_local_admin_def ensure_foreign_admin_def)
    have stored: "AssetsMappingCandidates s (a, f) = Some LocalAdminApproved \<Longrightarrow> (LocalSide, a, f) \<in> ?Q"
      "AssetsMappingCandidates s (a, f) = Some ForeignAdminApproved \<Longrightarrow> (ForeignSide, a, f) \<in> ?Q"
      using ok unfolding registry_ok_def by blast+
    have same: "registry_ok pairs ?Q (s\<lparr>assets_registry_events := es\<rparr>)" for es
      using registry_ok_frame [OF ok] by (simp add: registry_frame_def)
    show ?thesis unfolding t approve_candidate_state Let_def
      using registry_ok_candidate [OF ok] registry_ok_accept [OF ok free] same ap stored admin
      by (simp split: option.split candidate_status.split del: approvals.simps) metis
  next
    case False
    then have "?t = s" by (cases orig) (auto simp: eval call_eval split: option.splits)
    then show ?thesis using ok by simp
  qed
qed

lemma registry_reach_ok:
  assumes "registry_reach cfg pairs s P" "stored_admins cfg" "distinct (map fst pairs)" "distinct (map snd pairs)"
  shows "registry_ok pairs P s"
  using assms(1)
proof induction
  case (genesis l f)
  show ?case by (rule registry_genesis_ok [OF assms(3,4)])
next
  case (call s P orig x)
  then show ?case
    using approve_ok [OF assms(2) call.IH] registry_ok_frame [OF call.IH] rf.within_state [OF registry_tame(1)] rf.within_state [OF registry_tame(2)]
      rf.within_state [OF registry_tame(3)]
    by (cases x) auto
qed

text \<open>
  C37. The registry is a bijection that both sides have agreed to. In every state that calls lead to from a genesis
  without repetitions, a local asset is mapped to a foreign one exactly when the foreign one is mapped back, and every such
  pair was there from the beginning or has been approved by an account that was the local administrator then, and by one
  that was the foreign administrator then.
\<close>

theorem registry_agreed:
  assumes "registry_reach cfg pairs s P" "stored_admins cfg" "distinct (map fst pairs)" "distinct (map snd pairs)"
  shows "(asset_to_location a s = Some f \<longleftrightarrow> location_to_asset f s = Some a) \<and>
    (asset_to_location a s = Some f \<longrightarrow> (a, f) \<in> set pairs \<or> (LocalSide, a, f) \<in> P \<and> (ForeignSide, a, f) \<in> P)"
  using registry_reach_ok [OF assms] by (simp add: registry_ok_def asset_to_location_def location_to_asset_def)

definition demo_registry_config :: assets_registry_config where
  "demo_registry_config = \<lparr>UpdateAdminOrigin = (\<lambda>orig. orig = RootOrigin), LocalAdminOrigin = ensure_local_admin, ForeignAdminOrigin = ensure_foreign_admin\<rparr>"

definition demo_registry :: assets_registry where
  "demo_registry = snd (registry_dispatch demo_registry_config (SignedOrigin 8) (ApproveMapping 3 30)
     (snd (registry_dispatch demo_registry_config (SignedOrigin 7) (ApproveMapping 3 30) (assets_registry_genesis (Some 7) (Some 8) [(1, 10)]))))"

theorem registry_agreed_witness:
  "asset_to_location 3 demo_registry = Some 30 \<and> location_to_asset 30 demo_registry = Some 3"
proof -
  have "\<exists>P. registry_reach demo_registry_config [(1, 10)] demo_registry P"
    unfolding demo_registry_def using registry_reach.call [OF registry_reach.call [OF registry_reach.genesis]] by blast
  then obtain P where "registry_reach demo_registry_config [(1, 10)] demo_registry P" by blast
  from registry_agreed [OF this, of 3 30] show ?thesis
    by (simp add: stored_admins_def demo_registry_config_def) code_simp
qed

end
