(* ===== verification/Call_Filter.thy ===== *)
theory Call_Filter
  imports Frame_Rule
begin

text \<open>
  The call filter (frame/call-filter/src/lib.rs, frame/composable-traits/src/call_filter.rs) and the filter of the
  Dali runtime that uses it (runtime/dali/src/lib.rs): governance switches single extrinsics off and on by the names of
  pallet and function. Names are lists of bytes; the hook is a parameter.
\<close>

section \<open>UTF-8\<close>

text \<open>\<open>str::from_utf8\<close>: the well-formed byte sequences of the Unicode standard.\<close>

definition continuation :: "nat \<Rightarrow> bool" where
  "continuation b \<longleftrightarrow> 128 \<le> b \<and> b < 192"

fun from_utf8 :: "nat list \<Rightarrow> bool" where
  "from_utf8 [] = True"
| "from_utf8 (b # bs) =
     (if b < 128 then from_utf8 bs
      else
        case bs of
          [] \<Rightarrow> False
        | c # cs \<Rightarrow>
            if 194 \<le> b \<and> b < 224 then continuation c \<and> from_utf8 cs
            else
              case cs of
                [] \<Rightarrow> False
              | d # ds \<Rightarrow>
                  if 224 \<le> b \<and> b < 240 then
                    continuation c \<and> (b = 224 \<longrightarrow> 160 \<le> c) \<and> (b = 237 \<longrightarrow> c < 160) \<and> continuation d \<and> from_utf8 ds
                  else
                    case ds of
                      [] \<Rightarrow> False
                    | e # es \<Rightarrow>
                        240 \<le> b \<and> b < 245 \<and> continuation c \<and> (b = 240 \<longrightarrow> 144 \<le> c) \<and> (b = 244 \<longrightarrow> c < 144) \<and>
                        continuation d \<and> continuation e \<and> from_utf8 es)"

section \<open>State and operations\<close>

record call_filter_entry =
  pallet_name :: "nat list"
  function_name :: "nat list"

definition entry_valid :: "call_filter_entry \<Rightarrow> bool" where
  "entry_valid x \<longleftrightarrow> from_utf8 (pallet_name x) \<and> from_utf8 (function_name x)"

datatype call_filter_event = Disabled call_filter_entry | Enabled call_filter_entry

record call_filter =
  DisabledCalls :: "call_filter_entry \<rightharpoonup> unit"
  call_filter_events :: "call_filter_event list"

record call_filter_config =
  FilterUpdateOrigin :: "raw_origin \<Rightarrow> bool"
  MaxStringSize :: nat
  EnableHook :: "call_filter_entry \<Rightarrow> dispatch_error + unit"
  DisableHook :: "call_filter_entry \<Rightarrow> dispatch_error + unit"
  FilterName :: "nat list"

text \<open>The hook of the runtimes, \<open>impl CallFilterHook for ()\<close>.\<close>

definition no_hook :: "call_filter_entry \<Rightarrow> dispatch_error + unit" where
  "no_hook x = Inr ()"

definition filter_event :: "call_filter_event \<Rightarrow> (call_filter, unit) call" where
  "filter_event e = modifies (\<lambda>s. s\<lparr>call_filter_events := call_filter_events s @ [e]\<rparr>)"

definition call_disabled :: "call_filter_entry \<Rightarrow> call_filter \<Rightarrow> bool" where
  "call_disabled x s \<longleftrightarrow> DisabledCalls s x \<noteq> None"

definition do_enable :: "call_filter_config \<Rightarrow> call_filter_entry \<Rightarrow> (call_filter, unit) call" where
  "do_enable cfg x =
     bindM (reads (call_disabled x)) (\<lambda>b.
     if b then
       thenM (lift_result (EnableHook cfg x))
      (thenM (modifies (\<lambda>s. s\<lparr>DisabledCalls := (DisabledCalls s)(x := None)\<rparr>)) (filter_event (Enabled x)))
     else ret ())"

definition do_disable :: "call_filter_config \<Rightarrow> call_filter_entry \<Rightarrow> (call_filter, unit) call" where
  "do_disable cfg x =
     bindM (reads (call_disabled x)) (\<lambda>b.
     if \<not> b then
       thenM (lift_result (DisableHook cfg x))
      (thenM (modifies (\<lambda>s. s\<lparr>DisabledCalls := (DisabledCalls s)(x \<mapsto> ())\<rparr>)) (filter_event (Disabled x)))
     else ret ())"

definition filter_disable :: "call_filter_config \<Rightarrow> raw_origin \<Rightarrow> call_filter_entry \<Rightarrow> (call_filter, unit) call" where
  "filter_disable cfg orig x = transactional
     (thenM (ensure_origin (FilterUpdateOrigin cfg) orig)
     (thenM (ensure (entry_valid x) (CallFilterErr InvalidString))
     (thenM (ensure (pallet_name x \<noteq> FilterName cfg) (CallFilterErr CannotDisable))
        (do_disable cfg x))))"

definition filter_enable :: "call_filter_config \<Rightarrow> raw_origin \<Rightarrow> call_filter_entry \<Rightarrow> (call_filter, unit) call" where
  "filter_enable cfg orig x = transactional
     (thenM (ensure_origin (FilterUpdateOrigin cfg) orig)
     (thenM (ensure (entry_valid x) (CallFilterErr InvalidString))
        (do_enable cfg x)))"

text \<open>\<open>Contains\<close>: whether the call is switched off; names that do not fit the bound are not.\<close>

definition filter_contains :: "call_filter_config \<Rightarrow> nat list \<Rightarrow> nat list \<Rightarrow> call_filter \<Rightarrow> bool" where
  "filter_contains cfg p f s \<longleftrightarrow>
     length p \<le> MaxStringSize cfg \<and> length f \<le> MaxStringSize cfg \<and> DisabledCalls s \<lparr>pallet_name = p, function_name = f\<rparr> \<noteq> None"

text \<open>The filter of the Dali runtime; \<open>banned\<close> are the pallets that it never lets through.\<close>

definition base_call_filter :: "call_filter_config \<Rightarrow> (nat list \<Rightarrow> bool) \<Rightarrow> nat list \<Rightarrow> nat list \<Rightarrow> call_filter \<Rightarrow> bool" where
  "base_call_filter cfg banned p f s = (if filter_contains cfg p f s then False else \<not> banned p)"

section \<open>Histories\<close>

inductive filter_reach :: "call_filter_config \<Rightarrow> call_filter \<Rightarrow> bool" for cfg where
  start: "filter_reach cfg \<lparr>DisabledCalls = Map.empty, call_filter_events = []\<rparr>"
| disable: "filter_reach cfg s \<Longrightarrow> filter_reach cfg (snd (filter_disable cfg orig x s))"
| enable: "filter_reach cfg s \<Longrightarrow> filter_reach cfg (snd (filter_enable cfg orig x s))"

definition only_others :: "call_filter_config \<Rightarrow> call_filter \<Rightarrow> bool" where
  "only_others cfg s \<longleftrightarrow> (\<forall>x. call_disabled x s \<longrightarrow> pallet_name x \<noteq> FilterName cfg \<and> entry_valid x)"

lemma reach_only_others: "filter_reach cfg s \<Longrightarrow> only_others cfg s"
proof (induction rule: filter_reach.induct)
  case (disable s orig x)
  then show ?case
    by (auto simp: only_others_def filter_disable_def do_disable_def filter_event_def call_disabled_def call_eval split: sum.split)
next
  case (enable s orig x)
  then show ?case
    by (auto simp: only_others_def filter_enable_def do_enable_def filter_event_def call_disabled_def call_eval split: sum.split)
qed (simp add: only_others_def call_disabled_def)

text \<open>
  C38. The filter cannot shut out governance. In every state that the calls of the pallet lead to, the calls of the
  filter itself pass the runtime's filter, unless that bans the pallet; and then, with a hook that does not object, an accepted
  origin can switch every call that is off on again: enabling it succeeds, afterwards the call passes, and every other
  call stays as it was.
\<close>

theorem filter_reversible:
  assumes "filter_reach cfg s" "\<not> banned (FilterName cfg)" "FilterUpdateOrigin cfg orig" "EnableHook cfg = no_hook" "filter_contains cfg p f s"
  shows "base_call_filter cfg banned (FilterName cfg) g s \<and>
    (\<exists>t. filter_enable cfg orig \<lparr>pallet_name = p, function_name = f\<rparr> s = (Inr (), t) \<and> \<not> filter_contains cfg p f t \<and>
      (\<forall>q h. (q, h) \<noteq> (p, f) \<longrightarrow> filter_contains cfg q h t = filter_contains cfg q h s))"
proof
  have ok: "only_others cfg s" by (rule reach_only_others [OF assms(1)])
  then show "base_call_filter cfg banned (FilterName cfg) g s"
    using assms(2) by (auto simp: base_call_filter_def filter_contains_def only_others_def call_disabled_def)
  let ?x = "\<lparr>pallet_name = p, function_name = f\<rparr>"
  have x: "call_disabled ?x s" using assms(5) by (simp add: filter_contains_def call_disabled_def)
  then have "entry_valid ?x" using ok by (simp add: only_others_def)
  then have "filter_enable cfg orig ?x s =
      (Inr (), s\<lparr>DisabledCalls := (DisabledCalls s)(?x := None), call_filter_events := call_filter_events s @ [Enabled ?x]\<rparr>)"
    using x assms(3,4) by (simp add: filter_enable_def do_enable_def filter_event_def no_hook_def call_eval)
  then show "\<exists>t. filter_enable cfg orig ?x s = (Inr (), t) \<and> \<not> filter_contains cfg p f t \<and>
      (\<forall>q h. (q, h) \<noteq> (p, f) \<longrightarrow> filter_contains cfg q h t = filter_contains cfg q h s)"
    by (auto simp: filter_contains_def)
qed

definition demo_filter_config :: call_filter_config where
  "demo_filter_config = \<lparr>FilterUpdateOrigin = (\<lambda>orig. orig = RootOrigin), MaxStringSize = 100, EnableHook = no_hook, DisableHook = no_hook, FilterName = [67, 70]\<rparr>"

definition demo_filter :: call_filter where
  "demo_filter = snd (filter_disable demo_filter_config RootOrigin \<lparr>pallet_name = [86], function_name = [195, 169]\<rparr> \<lparr>DisabledCalls = Map.empty, call_filter_events = []\<rparr>)"

lemma demo_filter_contains: "filter_contains demo_filter_config [86] [195, 169] demo_filter"
  by (simp add: demo_filter_def demo_filter_config_def filter_contains_def filter_disable_def do_disable_def no_hook_def call_disabled_def
      entry_valid_def continuation_def filter_event_def call_eval)

theorem filter_reversible_witness:
  "base_call_filter demo_filter_config (\<lambda>_. False) [67, 70] [101] demo_filter \<and>
   (\<exists>t. filter_enable demo_filter_config RootOrigin \<lparr>pallet_name = [86], function_name = [195, 169]\<rparr> demo_filter = (Inr (), t) \<and>
     \<not> filter_contains demo_filter_config [86] [195, 169] t)"
proof -
  have "filter_reach demo_filter_config demo_filter" unfolding demo_filter_def by (intro filter_reach.intros)
  from filter_reversible [OF this, of "\<lambda>_. False" RootOrigin "[86]" "[195, 169]" "[101]"] demo_filter_contains
  show ?thesis by (auto simp: demo_filter_config_def)
qed

end
