(* ===== verification/Transaction_Fee.thy ===== *)
theory Transaction_Fee
  imports Lending_Math Assets_Orml
begin

text \<open>
  The transaction fee pallet (frame/transaction-fee/src/lib.rs, fee_adjustment.rs): what a transaction costs, how the fee
  is taken before it and partly given back after it, and how the multiplier of the weight fee follows the load of the
  blocks. The native currency, the exchange that buys native currency with another asset, the fixed-point arithmetic,
  the conversion of weights to fees, the sum of the parts of a fee (the fee details of the transaction payment
  pallet) and the receiver of the fees are code outside the repository and parameters.
\<close>

section \<open>The multiplier\<close>

text \<open>\<open>saturating_from_rational\<close> of \<open>FixedU128\<close>, and \<open>Perquintill\<close> times a weight.\<close>

record fee_ops = rate_ops +
  fx_from_rational :: "nat \<Rightarrow> nat \<Rightarrow> fixed_u128"
  perquintill_mul :: "nat \<Rightarrow> nat \<Rightarrow> nat"

definition exact_fees :: "'a fee_ops_scheme \<Rightarrow> bool" where
  "exact_fees F \<longleftrightarrow> exact_rates F \<and> (\<forall>a b. 0 < b \<longrightarrow> fx_from_rational F a b = min u128_max (a * fixed_div div b))
     \<and> (\<forall>p w. p \<le> 10 ^ 18 \<longrightarrow> perquintill_mul F p w \<le> w)"

record targeted_fee_adjustment =
  adjustment_target :: nat
  adjustment_variability :: fixed_u128
  adjustment_min :: fixed_u128

text \<open>\<open>None\<close> is the panic of the division operator.\<close>

definition convert_multiplier ::
  "'a fee_ops_scheme \<Rightarrow> targeted_fee_adjustment \<Rightarrow> nat \<Rightarrow> nat \<Rightarrow> fixed_u128 \<Rightarrow> fixed_u128 option" where
  "convert_multiplier F adj normal_max_weight current_normal_weight prev =
     (let min_multiplier = adjustment_min adj;
          previous = max prev min_multiplier;
          normal_block_weight = min current_normal_weight normal_max_weight;
          s = adjustment_target adj; v = adjustment_variability adj;
          target_weight = perquintill_mul F s normal_max_weight;
          block_weight = normal_block_weight;
          positive = target_weight \<le> block_weight;
          diff_abs = max block_weight target_weight - min block_weight target_weight;
          diff = fx_from_rational F diff_abs (max normal_max_weight 1);
          diff_squared = fx_saturating_mul F diff diff in
      Option.bind (fx_div F (fx_saturating_mul F v v) (saturating_from_integer F 2)) (\<lambda>v_squared_2.
      let first_term = fx_saturating_mul F v diff; second_term = fx_saturating_mul F v_squared_2 diff_squared in
      if positive then
        let excess = fx_saturating_mul F (saturating_add u128_max first_term second_term) previous in
        Some (max (saturating_add u128_max previous excess) min_multiplier)
      else
        let negative = fx_saturating_mul F (saturating_sub first_term second_term) previous in
        Some (max (saturating_sub previous negative) min_multiplier)))"

section \<open>Fees\<close>

datatype dispatch_class = Normal | Operational | Mandatory

record dispatch_info =
  info_weight :: nat
  info_class :: dispatch_class
  info_pays :: bool

record inclusion_fee =
  base_fee :: balance
  len_fee :: balance
  adjusted_weight_fee :: balance

record fee_details =
  fee_inclusion :: "inclusion_fee option"
  fee_tip :: balance

record 'n fee_state =
  NextFeeMultiplier :: fixed_u128
  fee_currency :: 'n

text \<open>
  \<open>ActualWeight\<close> and \<open>ActualPays\<close> are \<open>calc_actual_weight\<close> and \<open>pays_fee\<close> of the information after the
  dispatch; \<open>OnChargeTransaction\<close> gets fee and tip.
\<close>

record ('n, 'i) fee_config =
  FeeOps :: fee_ops
  FeeNative :: "'n native_currency"
  FeeDex :: "asset_id \<Rightarrow> account_id \<Rightarrow> asset_id \<Rightarrow> account_id \<Rightarrow> balance \<Rightarrow> nat \<Rightarrow> ('n, balance) call"
  OnChargeTransaction :: "balance \<Rightarrow> balance \<Rightarrow> 'n \<Rightarrow> 'n"
  TransactionByteFee :: balance
  WeightToFee :: "nat \<Rightarrow> balance"
  FinalFee :: "fee_details \<Rightarrow> balance"
  FeeAdjustment :: targeted_fee_adjustment
  MaxBlock :: nat
  BaseExtrinsic :: "dispatch_class \<Rightarrow> nat"
  NormalMaxTotal :: "nat option"
  MaxNormalLength :: nat
  ActualWeight :: "'i \<Rightarrow> dispatch_info \<Rightarrow> nat"
  ActualPays :: "'i \<Rightarrow> dispatch_info \<Rightarrow> bool"

definition LAYR :: asset_id where "LAYR = 2"

definition weight_to_fee :: "('n, 'i) fee_config \<Rightarrow> nat \<Rightarrow> balance" where
  "weight_to_fee cfg w = WeightToFee cfg (min w (MaxBlock cfg))"

definition saturating_mul_int :: "'a rate_ops_scheme \<Rightarrow> fixed_u128 \<Rightarrow> nat \<Rightarrow> nat" where
  "saturating_mul_int F m n = (case fx_mul_int F u128_max m n of None \<Rightarrow> u128_max | Some c \<Rightarrow> c)"

definition compute_fee_raw ::
  "('n, 'i) fee_config \<Rightarrow> nat \<Rightarrow> nat \<Rightarrow> balance \<Rightarrow> bool \<Rightarrow> dispatch_class \<Rightarrow> 'n fee_state \<Rightarrow> fee_details" where
  "compute_fee_raw cfg len w tip pays_fee cl s =
     (if pays_fee then
        \<lparr>fee_inclusion = Some
           \<lparr>base_fee = weight_to_fee cfg (BaseExtrinsic cfg cl),
            len_fee = saturating_mul u128_max (TransactionByteFee cfg) len,
            adjusted_weight_fee = saturating_mul_int (FeeOps cfg) (NextFeeMultiplier s) (weight_to_fee cfg w)\<rparr>,
         fee_tip = tip\<rparr>
      else \<lparr>fee_inclusion = None, fee_tip = tip\<rparr>)"

definition compute_fee_details :: "('n, 'i) fee_config \<Rightarrow> nat \<Rightarrow> dispatch_info \<Rightarrow> balance \<Rightarrow> 'n fee_state \<Rightarrow> fee_details" where
  "compute_fee_details cfg len info tip s = compute_fee_raw cfg len (info_weight info) tip (info_pays info) (info_class info) s"

definition compute_fee :: "('n, 'i) fee_config \<Rightarrow> nat \<Rightarrow> dispatch_info \<Rightarrow> balance \<Rightarrow> 'n fee_state \<Rightarrow> balance" where
  "compute_fee cfg len info tip s = FinalFee cfg (compute_fee_details cfg len info tip s)"

definition compute_actual_fee_details ::
  "('n, 'i) fee_config \<Rightarrow> nat \<Rightarrow> dispatch_info \<Rightarrow> 'i \<Rightarrow> balance \<Rightarrow> 'n fee_state \<Rightarrow> fee_details" where
  "compute_actual_fee_details cfg len info post_info tip s =
     compute_fee_raw cfg len (ActualWeight cfg post_info info) tip (ActualPays cfg post_info info) (info_class info) s"

definition compute_actual_fee :: "('n, 'i) fee_config \<Rightarrow> nat \<Rightarrow> dispatch_info \<Rightarrow> 'i \<Rightarrow> balance \<Rightarrow> 'n fee_state \<Rightarrow> balance" where
  "compute_actual_fee cfg len info post_info tip s = FinalFee cfg (compute_actual_fee_details cfg len info post_info tip s)"

text \<open>\<open>query_info\<close> and \<open>query_fee_details\<close>, given the dispatch information of the extrinsic; \<open>Convert\<close>.\<close>

definition query_info :: "('n, 'i) fee_config \<Rightarrow> dispatch_info \<Rightarrow> nat \<Rightarrow> 'n fee_state \<Rightarrow> nat \<times> dispatch_class \<times> balance" where
  "query_info cfg info len s = (info_weight info, info_class info, compute_fee cfg len info 0 s)"

definition query_fee_details :: "('n, 'i) fee_config \<Rightarrow> dispatch_info \<Rightarrow> nat \<Rightarrow> 'n fee_state \<Rightarrow> fee_details" where
  "query_fee_details cfg info len s = compute_fee_details cfg len info 0 s"

definition convert_weight :: "('n, 'i) fee_config \<Rightarrow> nat \<Rightarrow> 'n fee_state \<Rightarrow> balance" where
  "convert_weight cfg w s = saturating_mul_int (FeeOps cfg) (NextFeeMultiplier s) (weight_to_fee cfg w)"

section \<open>Taking the fee\<close>

text \<open>\<open>len as u32\<close>.\<close>

definition len_as_u32 :: "nat \<Rightarrow> nat" where
  "len_as_u32 len = len mod (u32_max + 1)"

definition on_fee_currency :: "('n, 'a) call \<Rightarrow> ('n fee_state, 'a) call" where
  "on_fee_currency m = zoom fee_currency (\<lambda>c s. s\<lparr>fee_currency := c\<rparr>) m"

text \<open>\<open>ensure_can_withdraw\<close> only looks at the state.\<close>

definition can_pay_fee ::
  "('n, 'i) fee_config \<Rightarrow> account_id \<Rightarrow> balance \<Rightarrow> withdraw_reasons \<Rightarrow> nat \<Rightarrow> asset_id option \<Rightarrow> ('n fee_state, unit) call" where
  "can_pay_fee cfg who fee reason slippage asset =
     (let N = FeeNative cfg; ed = nc_minimum_balance N in
      bindM (reads (\<lambda>s. nc_total_balance N who (fee_currency s))) (\<lambda>total_native.
      bindM (reads (\<lambda>s. saturating_add u128_max fee ed \<le> total_native \<and>
               (case checked_sub (nc_free_balance N who (fee_currency s)) fee of
                  None \<Rightarrow> False
                | Some new_free_balance \<Rightarrow> is_ok (nc_ensure_can_withdraw N who fee reason new_free_balance (fee_currency s))))) (\<lambda>native_is_enough.
      case asset of
        Some a \<Rightarrow>
          if native_is_enough then ret ()
          else
            thenM (on_fee_currency (FeeDex cfg a who LAYR who
              (saturating_add u128_max fee (saturating_sub ed total_native)) slippage)) (ret ())
      | None \<Rightarrow> if native_is_enough then ret () else fail (Other ''Not enough tokens''))))"

definition payment_error :: dispatch_error where
  "payment_error = Other ''InvalidTransaction::Payment''"

definition invalid_payment :: "dispatch_error \<Rightarrow> dispatch_error" where
  "invalid_payment e = (case e of Panic p \<Rightarrow> Panic p | _ \<Rightarrow> payment_error)"

record charge_transaction_fee =
  charge_tip :: balance
  charge_slippage :: nat
  charge_asset :: "asset_id option"

definition withdraw_fee ::
  "('n, 'i) fee_config \<Rightarrow> charge_transaction_fee \<Rightarrow> account_id \<Rightarrow> dispatch_info \<Rightarrow> nat \<Rightarrow> ('n fee_state, balance \<times> balance option) call" where
  "withdraw_fee cfg c who info len =
     bindM (reads (compute_fee cfg (len_as_u32 len) info (charge_tip c))) (\<lambda>fee.
     if fee = 0 then ret (fee, None)
     else
       let reason = (if charge_tip c = 0 then 1 else 17) in
       thenM (map_err invalid_payment (can_pay_fee cfg who fee reason (charge_slippage c) (charge_asset c)))
      (bindM (map_err invalid_payment (on_fee_currency (nc_withdraw (FeeNative cfg) who fee reason KeepAlive))) (\<lambda>imbalance.
       ret (fee, Some imbalance))))"

definition fee_priority :: "('n, 'i) fee_config \<Rightarrow> nat \<Rightarrow> dispatch_info \<Rightarrow> balance \<Rightarrow> nat" where
  "fee_priority cfg len info final_fee =
     (let weight_saturation = MaxBlock cfg div max (info_weight info) 1;
          len_saturation = MaxNormalLength cfg div max len 1;
          coefficient = min weight_saturation len_saturation in
      min u64_max (saturating_mul u128_max final_fee coefficient))"

definition validate_fee :: "('n, 'i) fee_config \<Rightarrow> charge_transaction_fee \<Rightarrow> account_id \<Rightarrow> dispatch_info \<Rightarrow> nat \<Rightarrow> ('n fee_state, nat) call" where
  "validate_fee cfg c who info len =
     bindM (withdraw_fee cfg c who info len) (\<lambda>(fee, _). ret (fee_priority cfg len info fee))"

definition pre_dispatch ::
  "('n, 'i) fee_config \<Rightarrow> charge_transaction_fee \<Rightarrow> account_id \<Rightarrow> dispatch_info \<Rightarrow> nat \<Rightarrow>
     ('n fee_state, balance \<times> account_id \<times> balance option \<times> balance) call" where
  "pre_dispatch cfg c who info len =
     bindM (withdraw_fee cfg c who info len) (\<lambda>(fee, imbalance). ret (charge_tip c, who, imbalance, fee))"

text \<open>
  The refund: \<open>deposit_into_existing\<close> may fail, and then nothing is refunded. \<open>offset\<close> of what was paid with what
  was refunded fails if more was refunded than paid; \<open>split\<close> takes the tip first.
\<close>

definition post_dispatch ::
  "('n, 'i) fee_config \<Rightarrow> (balance \<times> account_id \<times> balance option \<times> balance) option \<Rightarrow> dispatch_info \<Rightarrow> 'i \<Rightarrow> nat \<Rightarrow> ('n fee_state, unit) call" where
  "post_dispatch cfg pre info post_info len =
     (case pre of
        Some (tip, who, Some paid, fee) \<Rightarrow>
          bindM (reads (compute_actual_fee cfg (len_as_u32 len) info post_info tip)) (\<lambda>actual_fee.
          let refund = saturating_sub fee actual_fee in
          bindM (\<lambda>s. case on_fee_currency (nc_deposit_into_existing (FeeNative cfg) who refund) s of
                   (Inl (Panic p), t) \<Rightarrow> (Inl (Panic p), t) | (Inl _, t) \<Rightarrow> (Inr 0, t) | (Inr n, t) \<Rightarrow> (Inr n, t)) (\<lambda>refund_imbalance.
          thenM (ensure (refund_imbalance \<le> paid) payment_error)
         (let actual_payment = paid - refund_imbalance; tip' = min tip actual_payment in
          modifies (\<lambda>s. s\<lparr>fee_currency := OnChargeTransaction cfg (actual_payment - tip') tip' (fee_currency s)\<rparr>))))
      | _ \<Rightarrow> ret ())"

definition fee_on_finalize :: "('n, 'i) fee_config \<Rightarrow> nat \<Rightarrow> ('n fee_state, unit) call" where
  "fee_on_finalize cfg current_normal_weight =
     bindM (reads (\<lambda>s. convert_multiplier (FeeOps cfg) (FeeAdjustment cfg)
         (case NormalMaxTotal cfg of None \<Rightarrow> MaxBlock cfg | Some w \<Rightarrow> w) current_normal_weight (NextFeeMultiplier s))) (\<lambda>v.
     bindM (ok_or v (Panic ''attempt to divide with overflow'')) (\<lambda>m.
     modifies (\<lambda>s. s\<lparr>NextFeeMultiplier := m\<rparr>)))"

section \<open>The fee is settled\<close>

text \<open>What is relied on: a withdrawal that keeps the account alive and a deposit move what they say, and a deposit that fails changes nothing.\<close>

definition pays_exactly :: "'n native_currency \<Rightarrow> bool" where
  "pays_exactly N \<longleftrightarrow>
     (\<forall>x n r c p d. nc_withdraw N x n r KeepAlive c = (Inr p, d) \<longrightarrow> p = n \<and> nc_free_balance N x d + n = nc_free_balance N x c) \<and>
     (\<forall>x n c p d. nc_deposit_into_existing N x n c = (Inr p, d) \<longrightarrow> p = n \<and> nc_free_balance N x d = nc_free_balance N x c + n) \<and>
     (\<forall>x n c e d. nc_deposit_into_existing N x n c = (Inl e, d) \<longrightarrow> d = c \<and> (\<forall>p. e \<noteq> Panic p))"

text \<open>
  A fee is the sum of its parts; a greater weight does not cost less; after the dispatch the weight is not greater than
  announced, and what was free stays free.
\<close>

definition fee_laws :: "('n, 'i) fee_config \<Rightarrow> bool" where
  "fee_laws cfg \<longleftrightarrow>
     (\<forall>d. FinalFee cfg d = min u128_max ((case fee_inclusion d of None \<Rightarrow> 0 | Some i \<Rightarrow> base_fee i + len_fee i + adjusted_weight_fee i) + fee_tip d)) \<and>
     mono (WeightToFee cfg) \<and> (\<forall>p i. ActualWeight cfg p i \<le> info_weight i) \<and> (\<forall>p i. ActualPays cfg p i \<longrightarrow> info_pays i) \<and>
     exact_rates (FeeOps cfg)"

lemma saturating_mul_int_eq: "exact_rates F \<Longrightarrow> saturating_mul_int F m n = min u128_max (m * n div fixed_div)"
  by (simp add: saturating_mul_int_def exact_rates_def)

lemma weight_fee_mono:
  assumes "fee_laws cfg" "w \<le> w'"
  shows "saturating_mul_int (FeeOps cfg) m (weight_to_fee cfg w) \<le> saturating_mul_int (FeeOps cfg) m (weight_to_fee cfg w')"
proof -
  have "weight_to_fee cfg w \<le> weight_to_fee cfg w'"
    using assms unfolding weight_to_fee_def fee_laws_def by (intro monoD [of "WeightToFee cfg"]) auto
  then have "m * weight_to_fee cfg w div fixed_div \<le> m * weight_to_fee cfg w' div fixed_div" by (intro div_le_mono mult_le_mono2)
  then show ?thesis using assms(1) by (simp add: saturating_mul_int_eq fee_laws_def)
qed

lemma actual_fee_le:
  assumes "fee_laws cfg" "NextFeeMultiplier u = NextFeeMultiplier s"
  shows "compute_actual_fee cfg len info post_info tip u \<le> compute_fee cfg len info tip s"
proof -
  have laws: "ActualWeight cfg post_info info \<le> info_weight info" "ActualPays cfg post_info info \<longrightarrow> info_pays info"
    "FinalFee cfg d = min u128_max ((case fee_inclusion d of None \<Rightarrow> 0 | Some i \<Rightarrow> base_fee i + len_fee i + adjusted_weight_fee i) + fee_tip d)" for d
    using assms(1) by (simp_all add: fee_laws_def)
  show ?thesis
    using laws(2) weight_fee_mono [OF assms(1) laws(1), of "NextFeeMultiplier s"] assms(2)
    by (simp add: compute_actual_fee_def compute_fee_def compute_fee_details_def compute_actual_fee_details_def compute_fee_raw_def laws(3) min_le_iff_disj)
qed

lemma tip_le_fee: "fee_laws cfg \<Longrightarrow> tip \<le> u128_max \<Longrightarrow> tip \<le> compute_actual_fee cfg len info post_info tip u"
  by (simp add: fee_laws_def compute_actual_fee_def compute_actual_fee_details_def compute_fee_raw_def)

lemma pre_dispatch_result:
  assumes "pays_exactly (FeeNative cfg)" "pre_dispatch cfg c who info len s = (Inr pre, t)"
    "0 < compute_fee cfg (len_as_u32 len) info (charge_tip c) s"
  shows "pre = (charge_tip c, who, Some (compute_fee cfg (len_as_u32 len) info (charge_tip c) s), compute_fee cfg (len_as_u32 len) info (charge_tip c) s)"
proof -
  have "nc_withdraw (FeeNative cfg) x n r KeepAlive d = (Inr p, e) \<Longrightarrow> p = n" for x n r d p e
    using assms(1) unfolding pays_exactly_def by blast
  then show ?thesis using assms(2,3)
    by (auto simp: pre_dispatch_def withdraw_fee_def on_fee_currency_def Let_def ok_simps)
qed

text \<open>
  C39. What a transaction costs in the end. After a transaction whose fee has been withdrawn, the settlement always
  succeeds. The payer gets back what was withdrawn beyond the actual fee, which is never more than what was withdrawn; exactly what the payer
  does not get back goes to the receiver of the fees, the tip in full and apart from the rest; and if the
  refund cannot be paid out, the receiver gets the whole fee and nothing is lost.
\<close>

theorem fee_settles:
  assumes "fee_laws cfg" "pays_exactly (FeeNative cfg)" "charge_tip c \<le> u128_max" "pre_dispatch cfg c who info len s = (Inr pre, t)"
    "NextFeeMultiplier u = NextFeeMultiplier s" "0 < compute_fee cfg (len_as_u32 len) info (charge_tip c) s"
  shows "\<exists>w paid. post_dispatch cfg (Some pre) info post_info len u =
      (Inr (), u\<lparr>fee_currency := OnChargeTransaction cfg (paid - charge_tip c) (charge_tip c) w\<rparr>) \<and>
    charge_tip c \<le> paid \<and> paid \<le> compute_fee cfg (len_as_u32 len) info (charge_tip c) s \<and>
    nc_free_balance (FeeNative cfg) who w + paid =
      nc_free_balance (FeeNative cfg) who (fee_currency u) + compute_fee cfg (len_as_u32 len) info (charge_tip c) s \<and>
    (paid = compute_actual_fee cfg (len_as_u32 len) info post_info (charge_tip c) u \<or>
     (\<exists>e. nc_deposit_into_existing (FeeNative cfg) who
        (compute_fee cfg (len_as_u32 len) info (charge_tip c) s - compute_actual_fee cfg (len_as_u32 len) info post_info (charge_tip c) u)
        (fee_currency u) = (Inl e, w)))"
proof -
  let ?n = "len_as_u32 len"
  define fee where "fee = compute_fee cfg ?n info (charge_tip c) s"
  define act where "act = compute_actual_fee cfg ?n info post_info (charge_tip c) u"
  have le: "act \<le> fee" unfolding act_def fee_def by (rule actual_fee_le [OF assms(1,5)])
  have tip: "charge_tip c \<le> act" unfolding act_def by (rule tip_le_fee [OF assms(1,3)])
  have pre: "pre = (charge_tip c, who, Some fee, fee)" unfolding fee_def by (rule pre_dispatch_result [OF assms(2,4,6)])
  have ref: "saturating_sub fee act = fee - act" by (simp add: saturating_sub_def)
  obtain r w where dep: "nc_deposit_into_existing (FeeNative cfg) who (fee - act) (fee_currency u) = (r, w)" by fastforce
  note eval = post_dispatch_def pre on_fee_currency_def Let_def call_eval act_def [symmetric] ref dep
  show ?thesis unfolding fee_def [symmetric] act_def [symmetric]
  proof (cases r)
    case (Inl e)
    then have w: "w = fee_currency u" "\<forall>p. e \<noteq> Panic p" using assms(2) dep unfolding pays_exactly_def by blast+
    have "post_dispatch cfg (Some pre) info post_info len u = (Inr (), u\<lparr>fee_currency := OnChargeTransaction cfg (fee - charge_tip c) (charge_tip c) w\<rparr>)"
      using Inl w tip le by (cases e) (simp_all add: eval min_def)
    then show "\<exists>w paid. post_dispatch cfg (Some pre) info post_info len u = (Inr (), u\<lparr>fee_currency := OnChargeTransaction cfg (paid - charge_tip c) (charge_tip c) w\<rparr>) \<and>
        charge_tip c \<le> paid \<and> paid \<le> fee \<and> nc_free_balance (FeeNative cfg) who w + paid = nc_free_balance (FeeNative cfg) who (fee_currency u) + fee \<and>
        (paid = act \<or> (\<exists>e. nc_deposit_into_existing (FeeNative cfg) who (fee - act) (fee_currency u) = (Inl e, w)))"
      using w(1) tip le dep Inl by (intro exI [of _ w] exI [of _ fee]) simp
  next
    case (Inr m)
    then have w: "m = fee - act" "nc_free_balance (FeeNative cfg) who w = nc_free_balance (FeeNative cfg) who (fee_currency u) + (fee - act)"
      using assms(2) dep unfolding pays_exactly_def by blast+
    have "post_dispatch cfg (Some pre) info post_info len u = (Inr (), u\<lparr>fee_currency := OnChargeTransaction cfg (act - charge_tip c) (charge_tip c) w\<rparr>)"
      using Inr w tip le by (simp add: eval min_def)
    then show "\<exists>w paid. post_dispatch cfg (Some pre) info post_info len u = (Inr (), u\<lparr>fee_currency := OnChargeTransaction cfg (paid - charge_tip c) (charge_tip c) w\<rparr>) \<and>
        charge_tip c \<le> paid \<and> paid \<le> fee \<and> nc_free_balance (FeeNative cfg) who w + paid = nc_free_balance (FeeNative cfg) who (fee_currency u) + fee \<and>
        (paid = act \<or> (\<exists>e. nc_deposit_into_existing (FeeNative cfg) who (fee - act) (fee_currency u) = (Inl e, w)))"
      using w(2) tip le by (intro exI [of _ w] exI [of _ act]) simp
  qed
qed

section \<open>The multiplier follows the load\<close>

lemma fx_saturating_mul_eq: "exact_fixed F \<Longrightarrow> fx_saturating_mul F a b = min u128_max (a * b div fixed_div)"
  by (simp add: fx_saturating_mul_def exact_fixed_def fits_def)

lemma fixed_unit: "fixed_div = 10 ^ 18" "0 < fixed_div" "2 * fixed_div \<le> u128_max"
  by (simp_all add: fixed_div_def u128_max_def)

lemma scaled_le:
  fixes a b :: nat
  assumes "b \<le> fixed_div"
  shows "a * b div fixed_div \<le> a"
proof -
  have "a * b div fixed_div \<le> a * fixed_div div fixed_div" using assms by (intro div_le_mono mult_le_mono2)
  then show ?thesis using fixed_unit(2) by simp
qed

lemma half_square:
  assumes "exact_fixed F" "v \<le> fixed_div"
  shows "fx_div F (fx_saturating_mul F v v) (saturating_from_integer F 2) = Some (v * v div fixed_div * fixed_div div (2 * fixed_div))"
    "v * v div fixed_div * fixed_div div (2 * fixed_div) \<le> v"
proof -
  have sq: "v * v div fixed_div \<le> v" by (rule scaled_le [OF assms(2)])
  then have "v * v div fixed_div * fixed_div \<le> v * (2 * fixed_div)" by (intro mult_le_mono) simp_all
  then have "v * v div fixed_div * fixed_div div (2 * fixed_div) \<le> v * (2 * fixed_div) div (2 * fixed_div)" by (rule div_le_mono)
  then show half: "v * v div fixed_div * fixed_div div (2 * fixed_div) \<le> v" using fixed_unit(2) by simp
  have "fx_saturating_mul F v v = v * v div fixed_div" "saturating_from_integer F 2 = 2 * fixed_div"
    using assms sq fixed_unit by (simp_all add: fx_saturating_mul_eq saturating_from_integer_def exact_fixed_def fits_def)
  moreover have "fx_div F (v * v div fixed_div) (2 * fixed_div) = fits (v * v div fixed_div * fixed_div div (2 * fixed_div))"
    using assms(1) fixed_unit(2) by (simp add: exact_fixed_def)
  ultimately show "fx_div F (fx_saturating_mul F v v) (saturating_from_integer F 2) = Some (v * v div fixed_div * fixed_div div (2 * fixed_div))"
    using half assms(2) fixed_unit by (simp add: fits_def)
qed

lemma fx_saturating_mul_le:
  assumes "exact_fixed F" "a \<le> b"
  shows "fx_saturating_mul F a p \<le> b * p div fixed_div"
proof -
  have "a * p div fixed_div \<le> b * p div fixed_div" using assms(2) by (intro div_le_mono mult_le_mono1)
  then show ?thesis using assms(1) by (simp add: fx_saturating_mul_eq)
qed

lemma load_difference_le:
  assumes "exact_fees F" "target \<le> mx" "blk \<le> mx"
  shows "fx_from_rational F (max blk target - min blk target) (max mx 1) \<le> fixed_div"
proof -
  have "max blk target - min blk target \<le> max mx 1" using assms(2,3) by auto
  then have "(max blk target - min blk target) * fixed_div div max mx 1 \<le> max mx 1 * fixed_div div max mx 1" by (intro div_le_mono mult_le_mono1)
  then show ?thesis using assms(1) by (simp add: exact_fees_def)
qed

text \<open>
  C40. Fees cannot jump. With a target and a variability of at most one, the next multiplier always exists, is never
  below the minimum and fits its type. If the block was at the target or above it, the multiplier does not fall, and it grows by at
  most the variability plus half its square; below the target it does not rise, and it falls by at most the variability.
\<close>

theorem multiplier_bounded_step:
  assumes "exact_fees F" "adjustment_target adj \<le> 10 ^ 18" "adjustment_variability adj \<le> fixed_div" "adjustment_min adj \<le> u128_max" "prev \<le> u128_max"
  shows "\<exists>m. convert_multiplier F adj mx cur prev = Some m \<and> adjustment_min adj \<le> m \<and> m \<le> u128_max \<and>
    (let p = max prev (adjustment_min adj); v = adjustment_variability adj in
     if perquintill_mul F (adjustment_target adj) mx \<le> min cur mx
     then p \<le> m \<and> m \<le> p + (v + v * v div fixed_div * fixed_div div (2 * fixed_div)) * p div fixed_div
     else m \<le> p \<and> p \<le> m + v * p div fixed_div)"
proof -
  define v where "v = adjustment_variability adj"
  define p where "p = max prev (adjustment_min adj)"
  define h where "h = v * v div fixed_div * fixed_div div (2 * fixed_div)"
  define target where "target = perquintill_mul F (adjustment_target adj) mx"
  define blk where "blk = min cur mx"
  define diff where "diff = fx_from_rational F (max blk target - min blk target) (max mx 1)"
  define f where "f = fx_saturating_mul F v diff"
  define g where "g = fx_saturating_mul F h (fx_saturating_mul F diff diff)"
  have ex: "exact_fixed F" using assms(1) by (simp add: exact_fees_def exact_rates_def)
  have half: "fx_div F (fx_saturating_mul F v v) (saturating_from_integer F 2) = Some h"
    unfolding h_def by (rule half_square(1) [OF ex]) (simp add: v_def assms(3))
  have diff: "diff \<le> fixed_div" unfolding diff_def
    by (rule load_difference_le [OF assms(1)]) (use assms(1,2) in \<open>simp_all add: exact_fees_def target_def blk_def\<close>)
  have f: "f \<le> v" using scaled_le [OF diff, of v] ex by (simp add: f_def fx_saturating_mul_eq)
  have "fx_saturating_mul F diff diff \<le> fixed_div" using scaled_le [OF diff, of diff] diff ex by (simp add: fx_saturating_mul_eq)
  then have g: "g \<le> h" using scaled_le [of "fx_saturating_mul F diff diff" h] ex by (simp add: g_def fx_saturating_mul_eq [of F h])
  have conv: "convert_multiplier F adj mx cur prev = Some
      (if target \<le> blk then max (saturating_add u128_max p (fx_saturating_mul F (saturating_add u128_max f g) p)) (adjustment_min adj)
       else max (saturating_sub p (fx_saturating_mul F (saturating_sub f g) p)) (adjustment_min adj))"
    unfolding convert_multiplier_def Let_def v_def [symmetric] half Option.bind.simps f_def g_def diff_def p_def target_def blk_def by simp
  have p: "p \<le> u128_max" "adjustment_min adj \<le> p" using assms(4,5) by (simp_all add: p_def)
  have "fx_saturating_mul F (saturating_add u128_max f g) p \<le> (v + h) * p div fixed_div" "fx_saturating_mul F (saturating_sub f g) p \<le> v * p div fixed_div"
    using f g by (intro fx_saturating_mul_le [OF ex]; simp add: saturating_add_def saturating_sub_def)+
  then show ?thesis unfolding conv target_def [symmetric] blk_def [symmetric] p_def [symmetric] v_def [symmetric] h_def [symmetric] Let_def
    using p assms(4) by (auto simp: saturating_add_def saturating_sub_def)
qed

section \<open>An example\<close>

definition reference_fees :: fee_ops where
  "reference_fees =
     \<lparr>fx_mul = fx_mul reference_fixed, fx_div = fx_div reference_fixed, fx_from_integer = fx_from_integer reference_fixed,
      permill_pow = permill_pow reference_fixed, permill_to_fixed = permill_to_fixed reference_fixed,
      percent_to_fixed = percent_to_fixed reference_rates, percent_pow = percent_pow reference_rates,
      percent_from_rational = percent_from_rational reference_rates, fx_mul_int = fx_mul_int reference_rates, fi_mul = fi_mul reference_rates,
      fx_from_rational = (\<lambda>a b. min u128_max (a * fixed_div div b)), perquintill_mul = (\<lambda>p w. p * w div 10 ^ 18)\<rparr>"

lemma exact_reference_fees: "exact_fees reference_fees"
proof -
  have "p * w div 10 ^ 18 \<le> w" if "p \<le> 10 ^ 18" for p w :: nat
    using scaled_le [of p w] that by (simp add: fixed_div_def mult.commute)
  moreover have "exact_rates reference_fees"
    using exact_reference_rates by (simp add: exact_rates_def exact_fixed_def reference_fees_def reference_rates_def)
  ultimately show ?thesis by (simp add: exact_fees_def reference_fees_def)
qed

definition demo_fee_config :: "(lock_book, nat) fee_config" where
  "demo_fee_config =
     \<lparr>FeeOps = reference_fees, FeeNative = book_native, FeeDex = (\<lambda>_ _ _ _ _ _. fail (Other ''no market'')),
      OnChargeTransaction = (\<lambda>fee tip B. B\<lparr>free := credited 0 99 (fee + tip) (free B)\<rparr>), TransactionByteFee = 1, WeightToFee = (\<lambda>w. w),
      FinalFee = (\<lambda>d. min u128_max ((case fee_inclusion d of None \<Rightarrow> 0 | Some i \<Rightarrow> base_fee i + len_fee i + adjusted_weight_fee i) + fee_tip d)),
      FeeAdjustment = \<lparr>adjustment_target = 25 * 10 ^ 16, adjustment_variability = 10 ^ 13, adjustment_min = 10 ^ 9\<rparr>, MaxBlock = 1000,
      BaseExtrinsic = (\<lambda>_. 10), NormalMaxTotal = Some 750, MaxNormalLength = 100, ActualWeight = (\<lambda>p i. min p (info_weight i)),
      ActualPays = (\<lambda>_. info_pays)\<rparr>"

definition demo_fee_state :: "lock_book fee_state" where
  "demo_fee_state = \<lparr>NextFeeMultiplier = fixed_div, fee_currency = \<lparr>free = (\<lambda>_ _. 500), held = (\<lambda>_ _. 0), locks = (\<lambda>_ _ _. 0)\<rparr>\<rparr>"

definition demo_info :: dispatch_info where
  "demo_info = \<lparr>info_weight = 100, info_class = Normal, info_pays = True\<rparr>"

lemma demo_fees_lawful: "fee_laws demo_fee_config" "pays_exactly (FeeNative demo_fee_config)"
proof -
  show "fee_laws demo_fee_config" using exact_reference_fees by (simp add: fee_laws_def demo_fee_config_def exact_fees_def mono_def)
  show "pays_exactly (FeeNative demo_fee_config)"
    by (auto simp: pays_exactly_def demo_fee_config_def book_native_def book_take_def credited_def debited_def call_eval split: if_splits)
qed

lemma demo_fee: "compute_fee demo_fee_config (len_as_u32 20) demo_info 5 demo_fee_state = 135"
  "compute_actual_fee demo_fee_config (len_as_u32 20) demo_info 40 5 demo_fee_state = 75"
  by (simp_all add: compute_fee_def compute_fee_details_def compute_actual_fee_def compute_actual_fee_details_def compute_fee_raw_def demo_fee_config_def demo_info_def
      demo_fee_state_def weight_to_fee_def saturating_mul_int_def reference_fees_def reference_rates_def len_as_u32_def u32_max_def u128_max_def
      saturating_mul_def fixed_div_def)

lemma demo_pre_dispatch: "\<exists>pre t. pre_dispatch demo_fee_config \<lparr>charge_tip = 5, charge_slippage = 0, charge_asset = None\<rparr> 1 demo_info 20 demo_fee_state = (Inr pre, t)"
proof -
  have "FeeNative demo_fee_config = book_native" by (simp add: demo_fee_config_def)
  then show ?thesis using demo_fee(1)
    by (simp add: pre_dispatch_def withdraw_fee_def can_pay_fee_def on_fee_currency_def book_native_def book_take_def demo_fee_state_def
        checked_sub_def saturating_add_def u128_max_def is_ok_def Let_def call_eval)
qed

theorem fee_settles_witness:
  "\<exists>pre w paid. post_dispatch demo_fee_config (Some pre) demo_info 40 20 demo_fee_state =
      (Inr (), demo_fee_state\<lparr>fee_currency := OnChargeTransaction demo_fee_config (paid - 5) 5 w\<rparr>) \<and> paid \<le> 135"
proof -
  obtain pre t where "pre_dispatch demo_fee_config \<lparr>charge_tip = 5, charge_slippage = 0, charge_asset = None\<rparr> 1 demo_info 20 demo_fee_state = (Inr pre, t)"
    using demo_pre_dispatch by blast
  note settled = fee_settles [OF demo_fees_lawful _ this, of demo_fee_state 40]
  have "\<exists>w paid. post_dispatch demo_fee_config (Some pre) demo_info 40 20 demo_fee_state =
      (Inr (), demo_fee_state\<lparr>fee_currency := OnChargeTransaction demo_fee_config (paid - 5) 5 w\<rparr>) \<and> paid \<le> 135"
    using settled demo_fee by (simp add: u128_max_def) metis
  then show ?thesis by blast
qed

theorem multiplier_bounded_step_witness:
  "\<exists>m. convert_multiplier reference_fees (FeeAdjustment demo_fee_config) 750 750 fixed_div = Some m \<and> fixed_div \<le> m \<and> m \<le> u128_max"
  using multiplier_bounded_step [OF exact_reference_fees, of "FeeAdjustment demo_fee_config" fixed_div 750 750]
  by (auto simp: demo_fee_config_def fixed_div_def u128_max_def reference_fees_def)

end
