(* ===== verification/Spec2Isabelle.thy ===== *)
theory Spec2Isabelle
  imports Mosaic_Runs Vault_Properties Bonded_Finance_Properties Oracle_Properties Dutch_Auction_Properties Privilege Crowdloan_Properties Lending_Safety Dex_Safety Democracy_Runs Assets_Registry Call_Filter Transaction_Fee
begin

text \<open>
  A verification library for the pallets of the Composable parachain (src/frame, Rust on
  Substrate FRAME).

  \<^bold>\<open>The program.\<close> A pallet is a set of storage items and of dispatchables, functions from an
  origin and arguments to a result that read and write storage. The runtimes put the pallets
  together. The foundation is the handling of assets: the currency factory hands out asset identifiers,
  the governance registry says who governs an asset, the assets registry which local asset stands for
  which foreign one, and the assets pallet routes every currency operation to the native currency or to a
  multi-asset one and mints and burns on behalf of governance. On top of it the mosaic bridge keeps funds
  in custody for transfers between chains, the vault pools assets and lends them to strategies, vesting
  locks transferred amounts over time, bonded finance sells bonds whose rewards go through vesting, and
  the crowdloan pallet pays vested rewards. The oracle aggregates prices of staked signers; lending
  markets are strategies of a vault that value collateral with the oracle and hand positions to
  the liquidations pallet, which sells them in the dutch auction. Two exchanges, of the constant product and
  the stable swap kind, implement one interface, through which the router trades along routes of pools.
  Democracy lets the holders of an asset vote on proposals that are dispatched with the origin that the governance
  registry has for it. Privilege keeps groups of accounts, the call filter switches extrinsics off, and
  the transaction fee pallet takes fees, buying native currency at an exchange when the payer has none.

  \<^bold>\<open>The shape of the model.\<close> A pallet's storage is a \<open>record\<close>; an operation has a type
  \<open>('s, 'a) call = 's \<Rightarrow> (dispatch_error + 'a) \<times> 's\<close>, so an error returns the storage as it is at
  that moment, and only \<open>#[transactional]\<close> code (\<open>transactional\<close>) rolls back. Handlers are
  composed of \<open>bindM\<close>, \<open>thenM\<close>, \<open>ensure\<close>, \<open>ok_or\<close>, \<open>try_mutate\<close> in the order of the source. Balances are
  \<open>u128\<close> and block numbers \<open>u32\<close> (runtime/common/src/lib.rs); they are natural numbers and every
  operation checks, saturates or wraps at the bound its source type has. The build has no overflow checks
  in the release profile, so a plain \<open>+\<close>, \<open>-\<close> or \<open>*\<close> of the source wraps.

  \<^bold>\<open>Loops.\<close> All definitions are executable and total. Most loops of the code run over lists. The iterations of
  the stable swap pools have the 255 rounds of the source as their bound, and
  \<open>compute_base_terminates\<close> shows that the search for a balance always ends within it. The comparison of two fractions by which democracy decides a
  referendum (\<open>compare_rationals\<close>), the table of referenda that are not yet baked (\<open>advance_unbaked\<close>) and the
  binary search of the sorted vectors are functions with a termination proof.

  \<^bold>\<open>The theories: foundations.\<close>
  \<^item> \<open>Dispatch_Error\<close>, \<open>Prelude\<close>: error enums of the pallets; bounded integers, the transaction
    monad and its collections of rules (\<open>ok_simps\<close>: what success means, \<open>wp_simps\<close>: what holds after a
    call whatever its result, \<open>call_steps\<close> with \<open>call_congs\<close>: stepwise evaluation, \<open>keeps_intros\<close>,
    \<open>atomic_intros\<close>: what an error leaves unchanged), sums over storage maps; \<open>SafeArithmetic\<close> of
    composable-traits/src/math.rs.
  \<^item> \<open>Frame_Rule\<close>: the locale \<open>frame_rule\<close> of the transactions that stay within a reflexive and transitive relation
    between states; democracy and the assets registry interpret it on their storage.
  \<^item> \<open>Currency\<close>, \<open>Reserving\<close>, \<open>Holds\<close>: FRAME's \<open>fungible\<close> and \<open>fungibles\<close> as records of operations, the laws the pallets rely
    on as locales (\<open>fungible_ledger\<close>, \<open>fungibles_ledger\<close>, the contracts of reserved and of held balances), and
    ledgers of plain tables that have them.
  \<^item> \<open>Sorted_Vec\<close>: composable-support/src/collections. Every operation of the sorted vectors agrees with a
    reference on sorted lists, errors and returned elements included.
  \<^item> \<open>Currency_Factory\<close>: frame/currency-factory (ranges.rs, lib.rs). Ranges stay ordered and disjoint and
    no identifier is handed out twice; every branch of \<open>add_range\<close>.
  \<^item> \<open>Governance_Registry\<close>, \<open>Assets\<close>: frame/governance-registry and frame/assets/src/lib.rs. The routed
    interface has the laws of a ledger when its two currencies do (\<open>sublocale\<close>); who may mint and
    burn; a signed account never touches the assets of others.
  \<^item> \<open>Assets_Orml\<close>: frame/assets/src/orml.rs, the same routing for orml's three currency traits, with
    the laws of locks as the locale \<open>lockable_ledger\<close>.
  \<^item> \<open>Assets_Registry\<close>: frame/assets-registry. A mapping between a local and a foreign asset exists only
    after both administrators agreed to it, and the two tables stay inverse to each other.
  \<^item> \<open>Privilege\<close>, \<open>Call_Filter\<close>: frame/privilege and frame/call-filter, with the filter of the Dali runtime. Members
    of a group hold its privilege, but for flags revoked from them several at a time; the dispatchables of the filter cannot switch the filter itself off, and what is off can be
    switched on again.
  \<^item> \<open>Transaction_Fee\<close>: frame/transaction-fee (lib.rs, fee_adjustment.rs). What a payer loses and the receiver
    gets, with and without the exchange; how far the multiplier moves in one block.

  \<^bold>\<open>The theories: funds over time.\<close>
  \<^item> \<open>Mosaic_Relayer\<close>, \<open>Mosaic\<close>, \<open>Mosaic_Bridge\<close>, \<open>Mosaic_Runs\<close>: frame/mosaic (relayer.rs, decay.rs, lib.rs).
    Every call is reduced to an abstract effect on custody (the inductive relation \<open>effect\<close>); over any run the
    custody accounts cover what is pending, up to what rescissions have taken beyond what was waiting (the function
    \<open>over\<close> that \<open>bridge_run\<close> carries along), all funds are accounted for and minting is limited in rate.
  \<^item> \<open>Vault_Model\<close>, \<open>Vault\<close>, \<open>Vault_Shares\<close>, \<open>Vault_Properties\<close>: frame/vault. An LP token never loses value
    through deposits, withdrawals and strategies; rounding never favours a depositor; vaults are created
    fresh; the capability bits are four independent flags; rent in instalments.
  \<^item> \<open>Vesting\<close>, \<open>Vesting_Properties\<close>: frame/vesting and composable-traits/src/vesting.rs. In every
    reachable state the lock covers what has not vested, except for the accounts and assets that the genesis or root gave
    schedules whose sum wraps (the set \<open>W\<close> that \<open>vesting_reach\<close> carries along); exact effect of a transfer and of a claim.
  \<^item> \<open>Bonded_Finance\<close>, \<open>Bonded_Finance_Properties\<close>: frame/bonded-finance and
    composable-traits/src/bonded_finance.rs. Offer accounts are solvent, shares of a reward are always valid
    vested transfers, exact effect of a bond and of cancelling.
  \<^item> \<open>Crowdloan_Rewards\<close>, \<open>Crowdloan_Properties\<close>: frame/crowdloan-rewards. A claim pays what has vested and no
    more, the totals agree with the entries, and the transaction pool accepts what the call will accept.

  \<^bold>\<open>The theories: prices and markets.\<close>
  \<^item> \<open>Oracle\<close>, \<open>Oracle_Properties\<close>: frame/oracle. A majority of honest answers bounds the median; answers,
    history, signers and stakes stay consistent in every reachable state; what is published at the end of a block.
  \<^item> \<open>Defi\<close>, \<open>Dutch_Auction\<close>, \<open>Liquidations\<close>, \<open>Dutch_Auction_Properties\<close>: composable-traits/src/defi.rs, frame/dutch-auction
    and frame/liquidations. A block settles the best takes first, each at its own limit and without a panic, as
    long as no order with takes draws on a reserve that an earlier partial fill or failed liquidation left short (the function \<open>short\<close>
    that \<open>auction_run\<close> carries along).
  \<^item> \<open>Lending_Math\<close>, \<open>Lending\<close>, \<open>Lending_Properties\<close>, \<open>Lending_Safety\<close>: composable-traits/src/lending and frame/lending,
    over the models of vault and currency factory. Nobody borrows or withdraws collateral beyond the
    collateral factor; the interest of a block; rates stay within bounds; a block starts as
    one transaction, in which every market accrues once or nothing happens; what a repayment does.
  \<^item> \<open>Constant_Product\<close>, \<open>Dex\<close>, \<open>Uniswap\<close>, \<open>Curve_Maths\<close>, \<open>Curve_Amm\<close>, \<open>Dex_Router\<close>, \<open>Dex_Properties\<close>, \<open>Dex_Safety\<close>:
    composable-maths, composable-traits/src/dex.rs, frame/uniswap-v2, frame/curve-amm and frame/dex-router. Both exchanges
    meet the contract \<open>amm_contract\<close>, against which the trades along a route are verified; swaps keep the product of a
    pool up to the rounding of \<open>rust_decimal\<close>, whose laws are the locale \<open>decimal_laws\<close>; liquidity cannot be withdrawn at a profit, and stored routes exist.
  \<^item> this theory: what holds across bonded finance and vesting.

  \<^bold>\<open>The theories: democracy\<close> (frame/democracy).
  \<^item> \<open>Democracy_Vote\<close>: conviction.rs, vote.rs, vote_threshold.rs, types.rs. The byte of a vote; the threshold test, by
    continued fractions, decides exactly the inequality between square roots it stands for.
  \<^item> \<open>Democracy\<close>: lib.rs. The storage, every dispatchable and the start of a block.
  \<^item> \<open>Democracy_Tally\<close>, \<open>Democracy_Properties\<close>: the tally that the votes and delegations amount to, as a sum over
    accounts, and how voting, unvoting, delegating and undelegating change it.
  \<^item> \<open>Democracy_Runs\<close>: histories of calls and blocks. In each of them the tally of an ongoing
    referendum is that sum, as long as nobody can hold more than \<open>C\<close>, \<open>A\<close> is the finite set of accounts and
    \<open>12 * C * card A\<close> fits a \<open>u128\<close> (no vote weighs more than six times its amount, and the bound allows every account
    six times for its own vote and six times for what it delegates); and the end of an ongoing referendum always lies ahead, where the search for maturing
    ones will find it, unless it was fast-tracked with a voting period of zero (the set \<open>Z\<close> that \<open>democracy_reach\<close> carries along). The first is stated for
    histories in which the currency took the locks of the calls, the second for a configured voting period that is not zero, both for
    dispatched proposals that do not themselves vote or start referenda and for counters that do not wrap.

  \<^bold>\<open>Parameters.\<close> Code outside the repository is an argument of the model, a field of a pallet's
  configuration record: the currencies (pallet-balances, orml-tokens), \<open>into_sub_account\<close> and account
  conversion, \<open>multiply_by_rational\<close>, \<open>Perquintill::mul_floor\<close>, fixed-point and decimal arithmetic, integer square roots,
  big integers, hashes and signatures, the order in which a storage map is iterated, the scheduler, the decoding and the
  dispatch of a proposal, the details of a fee, the configured origins and \<open>Lookup\<close>. Where a pallet reaches another through a
  trait that the runtime configures (the oracle and the liquidation engine of lending, the exchanges of the router),
  that pallet is a parameter too, with a contract. What a property needs of them is a hypothesis: a ledger locale,
  \<open>exact_mul_div\<close> (the documented result of \<open>multiply_by_rational\<close>), \<open>inj\<close> of an account derivation,
  \<open>dust_free\<close> where an account may be emptied, and the like. Each such property has a witness over concrete
  functions, mostly the assets pallet configured with plain tables.

  \<^bold>\<open>Not modelled.\<close> Weights, benchmarks, mocks and tests; the events of the framework's own pallets; storage deposits and encoding other than the byte of a vote and the signed messages
  of the crowdloan. In the assets pallet the methods that only forward their arguments (slashing,
  teleports and the native \<open>Currency\<close> methods); the serialization of XCM locations; the off-chain worker of the
  oracle, which does HTTP; the integrity test of the transaction fee pallet, which only asserts constants. The pallet ping
  is a test of XCM messages; the runtimes are configuration apart from Dali's call filter; node and
  utilities are I/O; \<open>composable-traits/src/rate_model.rs\<close> is compiled by no crate.

  \<^bold>\<open>What modelling showed.\<close> Runs in which the code does not do what its comments or names say have theorems of their own,
  among them \<open>empty_range_accepted\<close>, \<open>root_governed_asset_open_to_all\<close>, \<open>asset_mapping_not_inverse\<close>,
  \<open>rescind_burns_more_than_waiting\<close>, \<open>deleted_vault_keeps_lp_entry\<close> and \<open>update_schedules_sum_wraps\<close>. The oracle computes a
  unit by an exclusive or; a partly filled auction order keeps its whole amount; lending never stores the state of its
  controller; the router trades every pool of a route in the same direction; in democracy
  \<open>fast_track\<close> does not compare the asset of the external proposal, a delegation forgets the prior lock, and a lock
  that fails leaves the vote behind.
\<close>

section \<open>Bonded finance over vesting\<close>

text \<open>
  The currency calls of the bonded finance pallet leave the locks of the vesting pallet alone.
\<close>

definition transfers_keep_locks :: "'c bonded_config \<Rightarrow> bool" where
  "transfers_keep_locks cfg \<longleftrightarrow>
     (\<forall>a x y n k c m d b z. f_transfer (BondCurrency cfg) a x y n k c = (Inr m, d) \<longrightarrow>
        l_locked (VestingCurrency (BondVesting cfg)) VESTING_LOCK_ID b z d
          = l_locked (VestingCurrency (BondVesting cfg)) VESTING_LOCK_ID b z c) \<and>
     (\<forall>x y n k c m d b z. n_transfer (BondNative cfg) x y n k c = (Inr m, d) \<longrightarrow>
        l_locked (VestingCurrency (BondVesting cfg)) VESTING_LOCK_ID b z d
          = l_locked (VestingCurrency (BondVesting cfg)) VESTING_LOCK_ID b z c)"

lemma vesting_ok_currency:
  assumes "vesting_ok cfg W v"
    and "\<And>b z. l_locked (VestingCurrency cfg) VESTING_LOCK_ID b z c
          = l_locked (VestingCurrency cfg) VESTING_LOCK_ID b z (vesting_currency v)"
  shows "vesting_ok cfg W (v\<lparr>vesting_currency := c\<rparr>)"
  using assms by (simp add: vesting_ok_def schedules_ok_def locked_now_def)

lemma vested_transfer_stored:
  assumes "vested_transfer cfg asset src to schedule v = (Inr u, v')" "vesting_ok cfg W v" "lockable_ledger (VestingCurrency cfg)"
  shows "schedule \<in> set (stored to asset v')"
    "x \<in> set (stored w a v) \<Longrightarrow> 0 < unvested x (vesting_block v) \<Longrightarrow> x \<in> set (stored w a v')"
    "vesting_block v' = vesting_block v" "vesting_ok cfg (W - {(to, asset)}) v'"
proof -
  have loc: "vesting_ledger cfg" using assms(3) by (rule vesting_ledger.intro)
  have "schedules_ok cfg v" using assms(2) by (simp add: vesting_ok_def)
  from vesting_ledger.vested_transfer_effect [OF loc assms(1) this] obtain c where
    v': "v' = set_schedules to asset (Some (stored to asset (pruned to asset v) @ [schedule]))
          ((pruned to asset v)\<lparr>vesting_currency := c\<rparr>)"
    by blast
  show "schedule \<in> set (stored to asset v')"
    "x \<in> set (stored w a v) \<Longrightarrow> 0 < unvested x (vesting_block v) \<Longrightarrow> x \<in> set (stored w a v')"
    "vesting_block v' = vesting_block v"
    by (auto simp: v' stored_set_schedules stored_pruned)
  show "vesting_ok cfg (W - {(to, asset)}) v'"
    by (rule vesting_ledger.vested_transfer_vesting_ok [OF loc assms(1,2)])
qed

lemma unvested_le_sum: "x \<in> set ss \<Longrightarrow> unvested x now \<le> unvested_sum ss now"
  unfolding unvested_sum_def by (rule member_le_sum_list) auto

text \<open>The calls a bond makes to the currencies and to the vesting pallet, in order.\<close>

lemma do_bond_calls:
  assumes run: "do_bond cfg i src n keep s = (Inr r, t)" and off: "BondOffers s i = Some (issuer, offer)"
  obtains c1 v2 v3 m1 w where
    "f_transfer (BondCurrency cfg) (bond_asset offer) src (beneficiary offer) w keep
       (vesting_currency (bonded_vesting s)) = (Inr m1, c1)"
    "vested_transfer (BondVesting cfg) (reward_asset (bond_reward offer)) (BondSubAccount cfg i) src
       \<lparr>start = vesting_block (bonded_vesting s), period = reward_maturity (bond_reward offer), period_count = 1,
        per_period = r\<rparr> ((bonded_vesting s)\<lparr>vesting_currency := c1\<rparr>) = (Inr (), v2)"
    "v3 = v2 \<or> (\<exists>sch. vested_transfer (BondVesting cfg) (bond_asset offer) (beneficiary offer) src sch v2 = (Inr (), v3))"
    "bonded_vesting t = v3 \<or>
      (\<exists>x m c4. n_transfer (BondNative cfg) (BondSubAccount cfg i) x (Stake cfg) False (vesting_currency v3) = (Inr m, c4) \<and>
         bonded_vesting t = v3\<lparr>vesting_currency := c4\<rparr>)"
  using run
proof (rule do_bond_runs)
  fix issuer' offer' c1 v2 v3 m1
  assume "BondOffers s i = Some (issuer', offer')"
  then have "issuer' = issuer" "offer' = offer" using off by simp_all
  moreover assume "f_transfer (BondCurrency cfg) (bond_asset offer') src (beneficiary offer')
     (wrapping_mul u128_max n (bond_price offer')) keep (vesting_currency (bonded_vesting s)) = (Inr m1, c1)"
    "vested_transfer (BondVesting cfg) (reward_asset (bond_reward offer')) (BondSubAccount cfg i) src
     \<lparr>start = vesting_block (bonded_vesting s), period = reward_maturity (bond_reward offer'), period_count = 1,
      per_period = r\<rparr> ((bonded_vesting s)\<lparr>vesting_currency := c1\<rparr>) = (Inr (), v2)"
    "case bond_maturity offer' of
       Finite return_in \<Rightarrow>
         vested_transfer (BondVesting cfg) (bond_asset offer') (beneficiary offer') src
           \<lparr>start = vesting_block (bonded_vesting s), period = return_in, period_count = 1,
            per_period = wrapping_mul u128_max n (bond_price offer')\<rparr> v2 = (Inr (), v3)
     | Infinite \<Rightarrow> v3 = v2"
    "if completed (take_bonds n r offer')
     then \<exists>m c4. n_transfer (BondNative cfg) (BondSubAccount cfg i) issuer' (Stake cfg) False (vesting_currency v3)
            = (Inr m, c4) \<and> bonded_vesting t = v3\<lparr>vesting_currency := c4\<rparr>
     else bonded_vesting t = v3"
  ultimately show thesis
    by (intro that [of "wrapping_mul u128_max n (bond_price offer)" m1 c1 v2 v3])
       (auto split: bond_duration.splits if_splits)
qed

text \<open>
  The vesting pallet after a bond: its invariant, and the schedule of the reward, which the
  second vested transfer of the bond does not prune.
\<close>

lemma do_bond_vesting:
  assumes run: "do_bond cfg i src n keep s = (Inr r, t)" and off: "BondOffers s i = Some (issuer, offer)"
    and lockable: "lockable_ledger (VestingCurrency (BondVesting cfg))" and locks: "transfers_keep_locks cfg"
    and ok: "vesting_ok (BondVesting cfg) W (bonded_vesting s)" and pos: "0 < MinVestedTransfer (BondVesting cfg)"
  shows "vesting_ok (BondVesting cfg) (W - {(src, reward_asset (bond_reward offer))}) (bonded_vesting t) \<and>
    \<lparr>start = vesting_block (bonded_vesting s), period = reward_maturity (bond_reward offer), period_count = 1,
     per_period = r\<rparr> \<in> set (stored src (reward_asset (bond_reward offer)) (bonded_vesting t))"
proof -
  let ?v = "bonded_vesting s" and ?a = "reward_asset (bond_reward offer)"
  let ?sch = "\<lparr>start = vesting_block ?v, period = reward_maturity (bond_reward offer), period_count = 1, per_period = r\<rparr>"
  obtain c1 v2 v3 m1 w where
    x1: "f_transfer (BondCurrency cfg) (bond_asset offer) src (beneficiary offer) w keep (vesting_currency ?v) = (Inr m1, c1)"
    and x2: "vested_transfer (BondVesting cfg) ?a (BondSubAccount cfg i) src ?sch (?v\<lparr>vesting_currency := c1\<rparr>) = (Inr (), v2)"
    and x3: "v3 = v2 \<or> (\<exists>sch. vested_transfer (BondVesting cfg) (bond_asset offer) (beneficiary offer) src sch v2 = (Inr (), v3))"
    and x4: "bonded_vesting t = v3 \<or>
      (\<exists>x m c4. n_transfer (BondNative cfg) (BondSubAccount cfg i) x (Stake cfg) False (vesting_currency v3) = (Inr m, c4) \<and>
         bonded_vesting t = v3\<lparr>vesting_currency := c4\<rparr>)"
    by (rule do_bond_calls [OF run off])
  have "vesting_ok (BondVesting cfg) W (?v\<lparr>vesting_currency := c1\<rparr>)"
    using x1 locks by (intro vesting_ok_currency [OF ok]) (auto simp: transfers_keep_locks_def)
  note second = vested_transfer_stored [OF x2 this lockable]
  have "MinVestedTransfer (BondVesting cfg) \<le> r" "valid_schedule ?sch"
    using x2 by (auto simp: vested_transfer_def ok_simps)
  then have unv: "0 < unvested ?sch (vesting_block v2)"
    using pos second(3) unvested_start [of ?sch "vesting_block ?v"] by (simp add: valid_schedule_def)
  have "vesting_ok (BondVesting cfg) (W - {(src, ?a)}) v3 \<and> ?sch \<in> set (stored src ?a v3)"
    using x3
  proof (elim disjE exE)
    fix sch assume y: "vested_transfer (BondVesting cfg) (bond_asset offer) (beneficiary offer) src sch v2 = (Inr (), v3)"
    show ?thesis
      using vested_transfer_stored(2) [OF y second(4) lockable second(1) unv] vesting_ok_mono [OF vested_transfer_stored(4) [OF y second(4) lockable] Diff_subset]
      by blast
  qed (use second in simp)
  then show ?thesis
    using x4 locks by (auto simp: transfers_keep_locks_def intro!: vesting_ok_currency)
qed

text \<open>
  C11. What a bonder earns stays locked until the maturity of the reward: after a bond in a
  state the vesting pallet reaches, the bonder has a vesting schedule for exactly the share of
  the reward, all of which is unvested at every block before the maturity, and the lock on the
  bonder's funds covers it.
\<close>

theorem bonded_reward_locked:
  assumes "lockable_ledger (VestingCurrency (BondVesting cfg))" "transfers_keep_locks cfg"
    and "0 < MinVestedTransfer (BondVesting cfg)"
    and "vesting_reach (BondVesting cfg) W (bonded_vesting s)"
    and "do_bond cfg i src n keep s = (Inr r, t)" "BondOffers s i = Some (issuer, offer)"
    and "now < vesting_block (bonded_vesting s) + reward_maturity (bond_reward offer)"
    and "vesting_block (bonded_vesting t) \<le> now"
  shows "\<exists>schedule \<in> set (stored src (reward_asset (bond_reward offer)) (bonded_vesting t)).
      locked_amount schedule now = Some r \<and>
      r \<le> l_locked (VestingCurrency (BondVesting cfg)) VESTING_LOCK_ID (reward_asset (bond_reward offer)) src
            (vesting_currency (bonded_vesting t))"
proof -
  let ?a = "reward_asset (bond_reward offer)"
  let ?sch = "\<lparr>start = vesting_block (bonded_vesting s), period = reward_maturity (bond_reward offer), period_count = 1,
    per_period = r\<rparr>"
  have "vesting_ok (BondVesting cfg) W (bonded_vesting s)"
    by (rule vesting_ledger.vesting_reach_ok [OF vesting_ledger.intro [OF assms(1)] assms(4)])
  from do_bond_vesting [OF assms(5,6,1,2) this assms(3)] have
    bond: "vesting_ok (BondVesting cfg) (W - {(src, ?a)}) (bonded_vesting t)" "?sch \<in> set (stored src ?a (bonded_vesting t))"
    by simp_all
  have valid: "valid_schedule ?sch"
    using bond by (auto simp: vesting_ok_def schedules_ok_def list_all_iff)
  have now: "unvested ?sch now = r" using unvested_start [OF valid, of now] assms(7) by simp
  have "r \<le> unvested_sum (stored src ?a (bonded_vesting t)) (vesting_block (bonded_vesting t))"
    using unvested_le_sum [OF bond(2), of "vesting_block (bonded_vesting t)"] unvested_mono [OF assms(8), of ?sch] now by simp
  moreover have "r \<le> u128_max" using valid by (simp add: valid_schedule_def)
  ultimately have "r \<le> locked_now src ?a (bonded_vesting t)" by (simp add: locked_now_def)
  then show ?thesis
    using bond now locked_amount_valid [OF valid, of now] by (intro bexI [OF _ bond(2)]) (auto simp: vesting_ok_def intro: le_trans)
qed

lemma book_transfers_keep_locks: "transfers_keep_locks book_bonded"
  unfolding transfers_keep_locks_def
  by (auto simp: book_bonded_def assets_multi_def assets_fungibles_def assets_fungible_def transfer_def
      native_transfer_def book_bond_assets_def book_fungibles_def book_fungible_def book_assets_def book_multi_def
      book_native_def on_native_def on_multi_def ok_simps book_transfer_ok split: if_splits)

lemma offered_example_vesting:
  "\<exists>c. bonded_vesting offered_example = vesting_example\<lparr>vesting_currency := c\<rparr> \<and>
     (\<forall>a x. l_locked (assets_multi book_assets) VESTING_LOCK_ID a x c = 0)"
  by (simp add: offered_example_def bonded_eval)

lemma offered_example_vesting_reach: "vesting_reach book_vesting {} (bonded_vesting offered_example)"
proof -
  obtain c where "bonded_vesting offered_example = vesting_example\<lparr>vesting_currency := c\<rparr>"
    "\<forall>a x. l_locked (assets_multi book_assets) VESTING_LOCK_ID a x c = 0"
    using offered_example_vesting by blast
  moreover have "l_locked (assets_multi book_assets) VESTING_LOCK_ID a x (vesting_currency vesting_example) = 0" for a x
    by (simp add: vesting_example_def no_locks_def assets_multi_def book_assets_def book_multi_def book_native_def)
  ultimately show ?thesis
    using reach_environment [OF vesting_example_reach, of c] by simp
qed

lemma bond_example_block:
  "\<exists>t. do_bond book_bonded 1 3 2 True offered_example = (Inr 21, t) \<and> vesting_block (bonded_vesting t) = 1"
  by (simp add: offered_example_def bonded_eval)

lemma bonded_reward_locked_witness:
  "\<exists>t. do_bond book_bonded 1 3 2 True offered_example = (Inr 21, t) \<and>
     21 \<le> l_locked (assets_multi book_assets) VESTING_LOCK_ID 5 3 (vesting_currency (bonded_vesting t))"
proof -
  obtain t where t: "do_bond book_bonded 1 3 2 True offered_example = (Inr 21, t)" "vesting_block (bonded_vesting t) = 1"
    using bond_example_block by blast
  have off: "BondOffers offered_example 1 = Some (2, offer_example)" by (simp add: offered_example_run)
  have "vesting_block (bonded_vesting offered_example) = 1"
    using offered_example_vesting by (auto simp: vesting_example_def)
  then have "21 \<le> l_locked (VestingCurrency (BondVesting book_bonded)) VESTING_LOCK_ID
      (reward_asset (bond_reward offer_example)) 3 (vesting_currency (bonded_vesting t))"
    using bonded_reward_locked [OF _ book_transfers_keep_locks _ _ t(1) off, of "{}" 6] t(2)
      offered_example_vesting_reach book_assets.routed_lockable
    by (auto simp: book_bonded_def offer_example_def book_vesting_def)
  with t show ?thesis by (auto simp: book_bonded_def offer_example_def)
qed

end
